(* ===== verification/Prelude.thy ===== *)
theory Prelude
  imports Main "HOL-Library.Char_ord" "HOL-Library.List_Lexorder" "HOL-Library.Sublist"
    "HOL-Library.Word"
begin

text \<open>
  The vocabulary every component theory shares: results and process outcomes
  (\<open>include/expected.hpp\<close>, \<open>include/try.hpp\<close>, \<open>include/invariant.hpp\<close>), the parts of the
  C++ string library the sources use (positions, substrings, the split loop), byte order on
  strings, and generic lemmas on sorted lists, prefixes and options.

  A C++ \<open>std::string\<close> is a list of bytes, here \<^typ>\<open>string\<close>; the order of
  \<open>List_Lexorder\<close> over \<open>Char_ord\<close> is the order of \<open>std::string::operator<\<close> and of the
  Postgres collation "C", both of which compare unsigned bytes.
\<close>

named_theorems std_simps \<open>equations of the string library\<close>
named_theorems page_simps \<open>equations of ordered selection and paging\<close>

section \<open>Results and outcomes\<close>

text \<open>
  \<open>Expected<T, E>\<close> is a sum: \<open>Inl\<close> holds the error, \<open>Inr\<close> the value.  \<open>TRY\<close> leaves the
  enclosing function with the error, \<open>TRY_ERR_AS\<close> replaces it first, \<open>ENSURE\<close> leaves with an
  error when its condition fails, and \<open>TRY_OK_OR\<close> turns an empty optional into an error.
\<close>

definition TRY :: "'e + 'a \<Rightarrow> ('a \<Rightarrow> 'e + 'b) \<Rightarrow> 'e + 'b" where
  "TRY r k = (case r of Inl e \<Rightarrow> Inl e | Inr v \<Rightarrow> k v)"

definition TRY_ERR_AS :: "'e + 'a \<Rightarrow> 'f \<Rightarrow> ('a \<Rightarrow> 'f + 'b) \<Rightarrow> 'f + 'b" where
  "TRY_ERR_AS r err k = (case r of Inl _ \<Rightarrow> Inl err | Inr v \<Rightarrow> k v)"

definition TRY_OK_OR :: "'a option \<Rightarrow> 'e \<Rightarrow> ('a \<Rightarrow> 'e + 'b) \<Rightarrow> 'e + 'b" where
  "TRY_OK_OR opt err k = (case opt of None \<Rightarrow> Inl err | Some v \<Rightarrow> k v)"

definition ENSURE :: "bool \<Rightarrow> 'e \<Rightarrow> 'e + 'b \<Rightarrow> 'e + 'b" where
  "ENSURE c err k = (if c then k else Inl err)"

text \<open>
  \<open>Invariant(cond, message)\<close> and \<open>AbortWithStacktrace\<close> end the process, and an exception
  leaves the function.  A function that may do either returns an \<open>outcome\<close>.
\<close>

datatype 'a outcome = Aborts string | Throws string | Returns 'a

definition Invariant :: "bool \<Rightarrow> string \<Rightarrow> 'a outcome \<Rightarrow> 'a outcome" where
  "Invariant cond message k = (if cond then k else Aborts message)"

definition and_then :: "'a outcome \<Rightarrow> ('a \<Rightarrow> 'b outcome) \<Rightarrow> 'b outcome" where
  "and_then r k = (case r of Aborts m \<Rightarrow> Aborts m | Throws m \<Rightarrow> Throws m | Returns v \<Rightarrow> k v)"

lemma TRY_simps [simp]:
  "TRY (Inl e) k = Inl e" "TRY (Inr v) k = k v"
  by (simp_all add: TRY_def)

lemma TRY_ERR_AS_simps [simp]:
  "TRY_ERR_AS (Inl e) err k = Inl err" "TRY_ERR_AS (Inr v) err k = k v"
  by (simp_all add: TRY_ERR_AS_def)

lemma TRY_OK_OR_simps [simp]:
  "TRY_OK_OR None err k = Inl err" "TRY_OK_OR (Some v) err k = k v"
  by (simp_all add: TRY_OK_OR_def)

lemma ENSURE_simps [simp]:
  "ENSURE True err k = k" "ENSURE False err k = Inl err"
  by (simp_all add: ENSURE_def)

lemma Invariant_simps [simp]:
  "Invariant True m k = k" "Invariant False m k = Aborts m"
  by (simp_all add: Invariant_def)

lemma and_then_simps [simp]:
  "and_then (Aborts m) k = Aborts m" "and_then (Throws m) k = Throws m"
  "and_then (Returns v) k = k v"
  by (simp_all add: and_then_def)

lemma and_then_Returns_iff: "and_then r k = Returns v \<longleftrightarrow> (\<exists>x. r = Returns x \<and> k x = Returns v)"
  by (cases r) auto

lemma TRY_Inr_iff: "TRY r k = Inr v \<longleftrightarrow> (\<exists>x. r = Inr x \<and> k x = Inr v)"
  by (cases r) auto

lemma ENSURE_Inr_iff: "ENSURE c e k = Inr v \<longleftrightarrow> c \<and> k = Inr v"
  by (simp add: ENSURE_def)

lemma TRY_OK_OR_Inr_iff: "TRY_OK_OR r e k = Inr v \<longleftrightarrow> (\<exists>x. r = Some x \<and> k x = Inr v)"
  by (cases r) auto

lemma TRY_ERR_AS_Inr_iff: "TRY_ERR_AS r e k = Inr v \<longleftrightarrow> (\<exists>x. r = Inr x \<and> k x = Inr v)"
  by (cases r) auto

lemmas result_iffs = TRY_Inr_iff ENSURE_Inr_iff TRY_OK_OR_Inr_iff TRY_ERR_AS_Inr_iff

section \<open>The string library\<close>

text \<open>
  \<open>index_of\<close> is the position of a byte, \<open>find_char\<close> is \<open>s.find(c, start)\<close>, \<open>find_str\<close> is
  \<open>s.find(pat, start)\<close> (\<open>None\<close> for \<open>npos\<close>), \<open>substr\<close> is \<open>s.substr(pos, n)\<close> and
  \<open>substr_from\<close> is \<open>s.substr(pos)\<close>, both at positions that are in range in the sources.
\<close>

fun index_of :: "char \<Rightarrow> string \<Rightarrow> nat option" where
  "index_of c [] = None"
| "index_of c (x # xs) = (if x = c then Some 0 else map_option Suc (index_of c xs))"

definition find_char :: "char \<Rightarrow> string \<Rightarrow> nat \<Rightarrow> nat option" where
  "find_char c s start = map_option ((+) start) (index_of c (drop start s))"

fun index_of_str :: "string \<Rightarrow> string \<Rightarrow> nat option" where
  "index_of_str pat [] = (if pat = [] then Some 0 else None)"
| "index_of_str pat (x # xs) =
     (if prefix pat (x # xs) then Some 0 else map_option Suc (index_of_str pat xs))"

definition find_str :: "string \<Rightarrow> string \<Rightarrow> nat \<Rightarrow> nat option" where
  "find_str pat s start = map_option ((+) start) (index_of_str pat (drop start s))"

definition substr :: "string \<Rightarrow> nat \<Rightarrow> nat \<Rightarrow> string" where
  "substr s pos n = take n (drop pos s)"

definition substr_from :: "string \<Rightarrow> nat \<Rightarrow> string" where
  "substr_from s pos = drop pos s"

lemma index_of_Some_less: "index_of c s = Some i \<Longrightarrow> i < length s"
  by (induction s arbitrary: i) (auto split: if_splits)

lemma index_of_None_iff [simp]: "index_of c s = None \<longleftrightarrow> c \<notin> set s"
  by (induction s) auto

lemma index_of_append_Cons:
  "c \<notin> set xs \<Longrightarrow> index_of c (xs @ c # ys) = Some (length xs)"
  by (induction xs) auto

lemma index_of_SomeD:
  "index_of c s = Some i \<Longrightarrow> s = take i s @ c # drop (Suc i) s \<and> c \<notin> set (take i s)"
  by (induction s arbitrary: i) (auto split: if_splits)

lemma find_char_bounds: "find_char c s start = Some i \<Longrightarrow> start \<le> i \<and> i < length s"
  by (auto simp: find_char_def dest: index_of_Some_less)

text \<open>
  The loop that cuts a string at a separator, as \<open>MakePrefixKey\<close>, \<open>MakePrefixTree\<close> and
  \<open>Url::Surt\<close> write it: find the separator from \<open>start\<close>, take the piece before it, go on
  after it, and take the rest when there is none.
\<close>

function split_from :: "char \<Rightarrow> string \<Rightarrow> nat \<Rightarrow> string list" where
  "split_from c s start =
     (case find_char c s start of
        None \<Rightarrow> [substr_from s start]
      | Some next \<Rightarrow> substr s start (next - start) # split_from c s (next + 1))"
  by pat_completeness auto
termination
  by (relation "measure (\<lambda>(c, s, start). Suc (length s) - start)")
    (auto dest: find_char_bounds)

declare split_from.simps [simp del]

text \<open>The reference: cut at every separator, by recursion on the string.\<close>

fun split_on :: "char \<Rightarrow> string \<Rightarrow> string list" where
  "split_on c [] = [[]]"
| "split_on c (x # xs) =
     (if x = c then [] # split_on c xs
      else (x # hd (split_on c xs)) # tl (split_on c xs))"

fun join_with :: "string \<Rightarrow> string list \<Rightarrow> string" where
  "join_with sep [] = []"
| "join_with sep [x] = x"
| "join_with sep (x # y # ys) = x @ sep @ join_with sep (y # ys)"

lemma split_on_not_Nil [simp]: "split_on c s \<noteq> []"
  by (induction s) auto

lemma split_on_no_sep: "c \<notin> set s \<Longrightarrow> split_on c s = [s]"
  by (induction s) auto

lemma split_on_append_Cons:
  "c \<notin> set xs \<Longrightarrow> split_on c (xs @ c # ys) = xs # split_on c ys"
  by (induction xs) auto

lemma split_from_eq_split_on: "split_from c s start = split_on c (drop start s)"
proof (induction c s start rule: split_from.induct)
  case (1 c s start)
  show ?case
  proof (cases "index_of c (drop start s)")
    case None
    then have fc: "find_char c s start = None" by (simp add: find_char_def del: index_of_None_iff)
    from None have "c \<notin> set (drop start s)" by simp
    with fc show ?thesis
      by (simp add: split_from.simps [of c s start] substr_from_def split_on_no_sep)
  next
    case (Some i)
    let ?d = "drop start s"
    from index_of_SomeD [OF Some] have d: "?d = take i ?d @ c # drop (Suc i) ?d"
      and nc: "c \<notin> set (take i ?d)" by auto
    have fc: "find_char c s start = Some (start + i)" by (simp add: find_char_def Some)
    have "split_from c s start = take i ?d # split_from c s (start + i + 1)"
      by (simp add: split_from.simps [of c s start] fc substr_def)
    also have "\<dots> = take i ?d # split_on c (drop (Suc i) ?d)"
      using "1.IH" [OF fc] by (simp add: add.commute)
    also have "\<dots> = split_on c ?d"
      using d nc split_on_append_Cons by metis
    finally show ?thesis .
  qed
qed

lemma split_on_no_sep_pieces: "x \<in> set (split_on c s) \<Longrightarrow> c \<notin> set x"
  by (induction s arbitrary: x) (auto split: if_splits dest: list.set_sel(2) [OF split_on_not_Nil])

lemma join_with_split_on [simp]: "join_with [c] (split_on c s) = s"
proof (induction s)
  case Nil
  then show ?case by simp
next
  case (Cons x xs)
  obtain p ps where p: "split_on c xs = p # ps" by (cases "split_on c xs") auto
  with Cons.IH show ?case by (cases ps) auto
qed

lemma split_on_join_with:
  assumes "ls \<noteq> []" and "\<forall>l\<in>set ls. c \<notin> set l"
  shows "split_on c (join_with [c] ls) = ls"
  using assms
  by (induction "[c]" ls rule: join_with.induct) (auto simp: split_on_no_sep split_on_append_Cons)

lemma split_on_snoc_sep: "split_on c (s @ [c]) = split_on c s @ [[]]"
  by (induction s) simp_all

lemma split_on_inject: "split_on c s = split_on c t \<longleftrightarrow> s = t"
  by (metis join_with_split_on)

section \<open>Characters and numbers\<close>

text \<open>\<open>std::to_string\<close> of an unsigned number and the decimal digits of \<open>std::from_chars\<close>.\<close>

definition digit_char :: "nat \<Rightarrow> char" where
  "digit_char d = char_of (48 + d)"

fun to_string :: "nat \<Rightarrow> string" where
  "to_string n = (if n < 10 then [digit_char n] else to_string (n div 10) @ [digit_char (n mod 10)])"

declare to_string.simps [simp del]

definition is_digit :: "char \<Rightarrow> bool" where
  "is_digit ch \<longleftrightarrow> CHR ''0'' \<le> ch \<and> ch \<le> CHR ''9''"

definition is_ascii :: "string \<Rightarrow> bool" where
  "is_ascii s \<longleftrightarrow> (\<forall>ch\<in>set s. of_char ch < (128::nat))"

section \<open>Prefixes and byte order\<close>

lemma append_less_mono [simp]: "xs @ ys < xs @ zs \<longleftrightarrow> ys < (zs :: 'a::linorder list)"
  by (induction xs) auto

lemma append_le_mono [simp]: "xs @ ys \<le> xs @ zs \<longleftrightarrow> ys \<le> (zs :: 'a::linorder list)"
  by (induction xs) auto

lemma prefix_le: "prefix s t \<Longrightarrow> s \<le> (t :: 'a::linorder list)"
  using append_le_mono [of s "[]"] by (auto simp: prefix_def)

end
