(* ===== verification/Vendor.thy ===== *)
theory Vendor
  imports Prelude
begin

text \<open>
  The third-party code the service calls, as a record of functions that every definition using
  it takes as an argument: \<open>uni_algo\<close> (UTF-8 validation and normalisation), \<open>ada\<close> (URL
  parsing), \<open>absl\<close> (ASCII helpers), the userver helpers for hexadecimal, base64 and JSON, and the libc address
  parsers.  None of it is defined here; the contracts at the end name the documented behaviour
  a property may rely on.  Data transfer objects follow the schemas under \<open>src/schema/\<close>.
\<close>

type_synonym Uuid = "128 word"

text \<open>
  The addresses of \<open>userver/utils/ip.hpp\<close>: four and sixteen bytes in network order.
\<close>

type_synonym u8 = "8 word"

datatype Ip4 = Ip4 u8 u8 u8 u8
datatype Ip6 = Ip6 "u8 list"

section \<open>Data transfer objects of the page tokens\<close>

text \<open>\<open>schema/public/webshot.yaml\<close>: \<open>PaginationCursor\<close> and \<open>PaginationPrefixCursor\<close>.\<close>

datatype cursor_direction = DNext | DPrevious

record PaginationCursor =
  cur_t :: int
  cur_i :: Uuid
  cur_d :: cursor_direction

record PaginationPrefixCursor =
  pcur_p :: string
  pcur_l :: string
  pcur_d :: cursor_direction
  pcur_t :: "int option"
  pcur_i :: "Uuid option"

section \<open>The interface\<close>

text \<open>\<open>ada::scheme::type\<close>.\<close>

datatype scheme_kind =
  SchemeHttp | SchemeNotSpecial | SchemeHttps | SchemeWs | SchemeFtp | SchemeWss | SchemeFile

text \<open>
  A setter of \<open>ada::url_aggregator\<close> reports whether it accepted the value, and changes the
  URL in place: here it returns the flag and the new URL.
\<close>

record 'u vendor =
  ascii_isalpha :: "char \<Rightarrow> bool"
  ascii_isalnum :: "char \<Rightarrow> bool"
  StripAsciiWhitespace :: "string \<Rightarrow> string"
  ConsumeSuffix :: "string \<Rightarrow> string \<Rightarrow> string"
  AsciiStrToLower :: "string \<Rightarrow> string"
  is_valid_utf8 :: "string \<Rightarrow> bool"
  to_nfc_utf8 :: "string \<Rightarrow> string"
  ada_parse :: "string \<Rightarrow> 'u option"
  get_href :: "'u \<Rightarrow> string"
  get_host :: "'u \<Rightarrow> string"
  get_hostname :: "'u \<Rightarrow> string"
  get_port :: "'u \<Rightarrow> string"
  get_pathname :: "'u \<Rightarrow> string"
  get_search :: "'u \<Rightarrow> string"
  ada_has_hostname :: "'u \<Rightarrow> bool"
  ada_has_port :: "'u \<Rightarrow> bool"
  ada_has_search :: "'u \<Rightarrow> bool"
  has_valid_domain :: "'u \<Rightarrow> bool"
  ada_type :: "'u \<Rightarrow> scheme_kind"
  set_username :: "'u \<Rightarrow> string \<Rightarrow> bool \<times> 'u"
  set_password :: "'u \<Rightarrow> string \<Rightarrow> bool \<times> 'u"
  set_protocol :: "'u \<Rightarrow> string \<Rightarrow> bool \<times> 'u"
  set_hostname :: "'u \<Rightarrow> string \<Rightarrow> bool \<times> 'u"
  set_port :: "'u \<Rightarrow> string \<Rightarrow> bool \<times> 'u"
  set_pathname :: "'u \<Rightarrow> string \<Rightarrow> bool \<times> 'u"
  set_search :: "'u \<Rightarrow> string \<Rightarrow> 'u"
  set_hash :: "'u \<Rightarrow> string \<Rightarrow> 'u"
  clear_port :: "'u \<Rightarrow> 'u"
  clear_search :: "'u \<Rightarrow> 'u"
  clear_hash :: "'u \<Rightarrow> 'u"
  get_special_port :: "scheme_kind \<Rightarrow> nat"
  to_hex :: "string \<Rightarrow> string"
  base64url_encode :: "string \<Rightarrow> string"
  base64url_decode :: "string \<Rightarrow> string option"
  cursor_to_json :: "PaginationCursor \<Rightarrow> string"
  cursor_of_json :: "string \<Rightarrow> PaginationCursor option"
  prefix_cursor_to_json :: "PaginationPrefixCursor \<Rightarrow> string"
  prefix_cursor_of_json :: "string \<Rightarrow> PaginationPrefixCursor option"
  inet_pton4 :: "string \<Rightarrow> Ip4 option"
  inet_pton6 :: "string \<Rightarrow> Ip6 option"
  uuid_to_string :: "Uuid \<Rightarrow> string"
  to_pg_time :: "int \<Rightarrow> int"
  TrimView :: "string \<Rightarrow> string"
  SplitIntoStringViewVector :: "string \<Rightarrow> string \<Rightarrow> string list"
  ICaseStartsWith :: "string \<Rightarrow> string \<Rightarrow> bool"
  base64_decode :: "string \<Rightarrow> string option"

text \<open>
  \<open>to_pg_time\<close> is the conversion of a time point with nanoseconds to a \<open>timestamptz\<close>
  parameter, in nanoseconds again.
\<close>

section \<open>Contracts\<close>

text \<open>
  Unicode: ASCII is valid UTF-8 and already in normal form C; normalisation keeps validity and
  is idempotent; valid UTF-8 is closed under concatenation.
\<close>

definition utf8_contract :: "('u, 'z) vendor_scheme \<Rightarrow> bool" where
  "utf8_contract V \<longleftrightarrow>
     (\<forall>s. is_ascii s \<longrightarrow> is_valid_utf8 V s \<and> to_nfc_utf8 V s = s) \<and>
     (\<forall>s. is_valid_utf8 V s \<longrightarrow>
        is_valid_utf8 V (to_nfc_utf8 V s) \<and>
        to_nfc_utf8 V (to_nfc_utf8 V s) = to_nfc_utf8 V s) \<and>
     (\<forall>s t. is_valid_utf8 V s \<longrightarrow> is_valid_utf8 V t \<longrightarrow> is_valid_utf8 V (s @ t))"

text \<open>
  \<open>absl\<close>: stripping white space keeps a contiguous part of the text, \<open>ConsumeSuffix\<close> drops
  the suffix when it is there, and lower-casing maps each byte.
\<close>

definition absl_contract :: "('u, 'z) vendor_scheme \<Rightarrow> bool" where
  "absl_contract V \<longleftrightarrow>
     (\<forall>s. is_ascii s \<longrightarrow> is_ascii (StripAsciiWhitespace V s)) \<and>
     (\<forall>s x. ConsumeSuffix V s x =
        (if suffix x s then take (length s - length x) s else s))"

text \<open>\<open>ToHex\<close> writes two hexadecimal digits per byte, so different bytes differ in the output.\<close>

definition hex_digits :: string where
  "hex_digits = ''0123456789abcdef''"

definition hex_contract :: "('u, 'z) vendor_scheme \<Rightarrow> bool" where
  "hex_contract V \<longleftrightarrow>
     inj (to_hex V) \<and> (\<forall>s. length (to_hex V s) = 2 * length s) \<and>
     (\<forall>s. set (to_hex V s) \<subseteq> set hex_digits)"

text \<open>
  Page tokens: unpadded base64url text is ASCII, decodes to what was encoded and is empty only
  for no bytes; a JSON text is not empty, and the generated codec of a cursor reads back what it
  wrote.
\<close>

definition token_contract :: "('u, 'z) vendor_scheme \<Rightarrow> bool" where
  "token_contract V \<longleftrightarrow>
     (\<forall>s. base64url_decode V (base64url_encode V s) = Some s) \<and>
     (\<forall>s. is_ascii (base64url_encode V s)) \<and> base64url_encode V [] = [] \<and>
     (\<forall>c. cursor_to_json V c \<noteq> []) \<and> (\<forall>c. prefix_cursor_to_json V c \<noteq> []) \<and>
     (\<forall>c. cursor_of_json V (to_nfc_utf8 V (cursor_to_json V c)) = Some c \<and>
          is_valid_utf8 V (cursor_to_json V c)) \<and>
     (\<forall>c. to_nfc_utf8 V (pcur_p c) = pcur_p c \<longrightarrow> to_nfc_utf8 V (pcur_l c) = pcur_l c \<longrightarrow>
          is_valid_utf8 V (pcur_p c) \<longrightarrow> is_valid_utf8 V (pcur_l c) \<longrightarrow>
          prefix_cursor_of_json V (to_nfc_utf8 V (prefix_cursor_to_json V c)) = Some c \<and>
          is_valid_utf8 V (prefix_cursor_to_json V c))"

text \<open>
  A time is sent to the database in whole microseconds, so it moves by less than one; a time of
  whole microseconds stays as it is.
\<close>

definition pg_time_contract :: "('u, 'z) vendor_scheme \<Rightarrow> bool" where
  "pg_time_contract V \<longleftrightarrow>
     (\<forall>t. 1000 dvd t \<longrightarrow> to_pg_time V t = t) \<and> (\<forall>t. \<bar>to_pg_time V t - t\<bar> < 1000)"

text \<open>URL parts are serialised in ASCII: hosts in punycode, the rest percent-encoded.\<close>

definition ada_ascii_contract :: "('u, 'z) vendor_scheme \<Rightarrow> bool" where
  "ada_ascii_contract V \<longleftrightarrow>
     (\<forall>u. is_ascii (get_href V u) \<and> is_ascii (get_host V u) \<and> is_ascii (get_hostname V u) \<and>
          is_ascii (get_port V u) \<and> is_ascii (get_pathname V u) \<and> is_ascii (get_search V u))"

text \<open>
  \<open>userver/utils/text_light.hpp\<close>: \<open>TrimView\<close> drops the white space of the C locale at both ends,
  \<open>ICaseStartsWith\<close> compares a prefix without regard to the case of ASCII letters.
\<close>

definition is_space :: "char \<Rightarrow> bool" where
  "is_space ch \<longleftrightarrow> ch = CHR 0x20 \<or> (CHR 0x09 \<le> ch \<and> ch \<le> CHR 0x0D)"

definition trim :: "string \<Rightarrow> string" where
  "trim s = rev (dropWhile is_space (rev (dropWhile is_space s)))"

definition ascii_lower :: "char \<Rightarrow> char" where
  "ascii_lower ch =
     (if CHR ''A'' \<le> ch \<and> ch \<le> CHR ''Z'' then char_of (of_char ch + 32 :: nat) else ch)"

definition text_light_contract :: "('u, 'z) vendor_scheme \<Rightarrow> bool" where
  "text_light_contract V \<longleftrightarrow>
     (\<forall>s. TrimView V s = trim s) \<and>
     (\<forall>hay needle. ICaseStartsWith V hay needle \<longleftrightarrow>
        prefix (map ascii_lower needle) (map ascii_lower hay))"

lemma utf8_contractD:
  assumes "utf8_contract V"
  shows "is_ascii s \<Longrightarrow> is_valid_utf8 V s"
    and "is_ascii s \<Longrightarrow> to_nfc_utf8 V s = s"
    and "is_valid_utf8 V s \<Longrightarrow> is_valid_utf8 V (to_nfc_utf8 V s)"
    and "is_valid_utf8 V s \<Longrightarrow> to_nfc_utf8 V (to_nfc_utf8 V s) = to_nfc_utf8 V s"
    and "is_valid_utf8 V s \<Longrightarrow> is_valid_utf8 V t \<Longrightarrow> is_valid_utf8 V (s @ t)"
  using assms by (simp_all add: utf8_contract_def)

lemma hex_contractD:
  assumes "hex_contract V"
  shows "to_hex V s = to_hex V t \<longleftrightarrow> s = t"
    and "length (to_hex V s) = 2 * length s"
    and "ch \<in> set (to_hex V s) \<Longrightarrow> ch \<in> set hex_digits"
  using assms by (auto simp: hex_contract_def inj_eq)

lemma ada_ascii_contractD:
  assumes "ada_ascii_contract V"
  shows "is_ascii (get_href V u)" "is_ascii (get_host V u)" "is_ascii (get_hostname V u)"
    "is_ascii (get_port V u)" "is_ascii (get_pathname V u)" "is_ascii (get_search V u)"
  using assms by (simp_all add: ada_ascii_contract_def)

end
