(* ===== verification/Text.thy ===== *)
theory Text
  imports Vendor
begin

text \<open>
  \<open>include/text.hpp\<close>: the class \<open>text::String\<close>, valid UTF-8 in normal form C, and the
  conversions of ranges.  A \<open>String\<close> is modelled by its bytes \<open>data_\<close>; \<open>wf_text\<close> is the class
  invariant.
\<close>

datatype TextError = kInvalidUtf8

definition wf_text :: "('u, 'z) vendor_scheme \<Rightarrow> string \<Rightarrow> bool" where
  "wf_text V t \<longleftrightarrow> is_valid_utf8 V t \<and> to_nfc_utf8 V t = t"

definition FromBytes :: "('u, 'z) vendor_scheme \<Rightarrow> string \<Rightarrow> TextError + string" where
  "FromBytes V bytes =
     (if \<not> is_valid_utf8 V bytes then Inl kInvalidUtf8 else Inr (to_nfc_utf8 V bytes))"

text \<open>\<open>*String::FromBytes(bytes)\<close>: reading the value of an error aborts.\<close>

definition deref_text :: "('u, 'z) vendor_scheme \<Rightarrow> string \<Rightarrow> string outcome" where
  "deref_text V bytes =
     (case FromBytes V bytes of Inl _ \<Rightarrow> Aborts ''expected value'' | Inr t \<Rightarrow> Returns t)"

definition StartsWith :: "string \<Rightarrow> string \<Rightarrow> bool" where
  "StartsWith t p =
     (if length p > length t then False else p = substr t 0 (length p))"

definition EndsWith :: "string \<Rightarrow> string \<Rightarrow> bool" where
  "EndsWith t p \<longleftrightarrow> suffix p t"

definition text_append :: "('u, 'z) vendor_scheme \<Rightarrow> string \<Rightarrow> string \<Rightarrow> string" where
  "text_append V lhs rhs = (if rhs = [] then lhs else to_nfc_utf8 V (lhs @ rhs))"

fun CollectExpected :: "'a list \<Rightarrow> ('a \<Rightarrow> 'e + 'b) \<Rightarrow> 'b list \<Rightarrow> 'e + 'b list" where
  "CollectExpected [] f out = Inr out"
| "CollectExpected (item # items) f out =
     TRY (f item) (\<lambda>v. CollectExpected items f (out @ [v]))"

definition StringVector :: "('u, 'z) vendor_scheme \<Rightarrow> string list \<Rightarrow> TextError + string list" where
  "StringVector V bytes = CollectExpected bytes (FromBytes V) []"

definition StringPairs ::
    "('u, 'z) vendor_scheme \<Rightarrow> (string \<times> string) list \<Rightarrow> TextError + (string \<times> string) list" where
  "StringPairs V pairs =
     CollectExpected pairs
       (\<lambda>(a, b). TRY (FromBytes V a) (\<lambda>x. TRY (FromBytes V b) (\<lambda>y. Inr (x, y)))) []"

definition OptionalString ::
    "('u, 'z) vendor_scheme \<Rightarrow> string option \<Rightarrow> TextError + string option" where
  "OptionalString V bytes =
     (case bytes of None \<Rightarrow> Inr None | Some b \<Rightarrow> TRY (FromBytes V b) (\<lambda>t. Inr (Some t)))"

section \<open>The class invariant\<close>

lemma FromBytes_wf: "utf8_contract V \<Longrightarrow> FromBytes V bytes = Inr t \<Longrightarrow> wf_text V t"
  by (auto simp: FromBytes_def wf_text_def utf8_contractD split: if_splits)

lemma FromBytes_of_wf: "wf_text V t \<Longrightarrow> FromBytes V t = Inr t"
  by (simp add: FromBytes_def wf_text_def)

lemma deref_text_of_wf: "wf_text V t \<Longrightarrow> deref_text V t = Returns t"
  by (simp add: deref_text_def FromBytes_of_wf)

lemma wf_text_ascii: "utf8_contract V \<Longrightarrow> is_ascii s \<Longrightarrow> wf_text V s"
  by (simp add: wf_text_def utf8_contractD)

lemma deref_text_ascii: "utf8_contract V \<Longrightarrow> is_ascii s \<Longrightarrow> deref_text V s = Returns s"
  by (simp add: deref_text_of_wf wf_text_ascii)

lemma FromBytes_ascii: "utf8_contract V \<Longrightarrow> is_ascii s \<Longrightarrow> FromBytes V s = Inr s"
  by (simp add: FromBytes_of_wf wf_text_ascii)

lemma text_append_wf:
  "utf8_contract V \<Longrightarrow> wf_text V a \<Longrightarrow> wf_text V b \<Longrightarrow> wf_text V (text_append V a b)"
  by (simp add: wf_text_def text_append_def utf8_contractD)

lemma StartsWith_iff_prefix: "StartsWith t p \<longleftrightarrow> prefix p t"
  by (auto simp: StartsWith_def substr_def prefix_def) (metis append_take_drop_id)

lemma CollectExpected_out:
  "CollectExpected xs f out = map_sum id ((@) out) (CollectExpected xs f [])"
proof (induction xs arbitrary: out)
  case Nil
  then show ?case by simp
next
  case (Cons x xs)
  show ?case
  proof (cases "f x")
    case (Inl e)
    then show ?thesis by simp
  next
    case (Inr v)
    have "CollectExpected xs f (out @ [v]) = map_sum id ((@) (out @ [v])) (CollectExpected xs f [])"
      by (rule Cons.IH)
    moreover have "CollectExpected xs f [v] = map_sum id ((@) [v]) (CollectExpected xs f [])"
      by (rule Cons.IH)
    ultimately show ?thesis using Inr by (cases "CollectExpected xs f []") simp_all
  qed
qed

lemma CollectExpected_Inr_iff:
  "CollectExpected xs f [] = Inr ys \<longleftrightarrow> list_all2 (\<lambda>x y. f x = Inr y) xs ys"
proof (induction xs arbitrary: ys)
  case Nil
  then show ?case by auto
next
  case (Cons x xs)
  show ?case
  proof (cases "f x")
    case (Inl e)
    then show ?thesis by (auto simp: list_all2_Cons1)
  next
    case (Inr v)
    then have "CollectExpected (x # xs) f [] = map_sum id ((@) [v]) (CollectExpected xs f [])"
      using CollectExpected_out [of xs f "[v]"] by simp
    then show ?thesis using Inr Cons.IH
      by (cases "CollectExpected xs f []") (auto simp: list_all2_Cons1)
  qed
qed

end
