(* ===== verification/Ip.thy ===== *)
theory Ip
  imports Text
begin

text \<open>
  \<open>include/ip.hpp\<close>: address literals and the public-routability test that keeps the crawler's
  proxy away from internal networks.
\<close>

unbundle bit_operations_syntax

datatype Ip = IpV4 Ip4 | IpV6 Ip6

section \<open>Parsing\<close>

definition ParseIp4 :: "('u, 'z) vendor_scheme \<Rightarrow> string \<Rightarrow> Ip4 option" where
  "ParseIp4 V t = (if t = [] then None else inet_pton4 V t)"

text \<open>\<open>candidate.front()\<close> is read on non-empty text only: \<open>ParseIp\<close> checks before it calls.\<close>

definition ParseIp6 :: "('u, 'z) vendor_scheme \<Rightarrow> string \<Rightarrow> Ip6 option" where
  "ParseIp6 V t =
     (let candidate =
        (if t \<noteq> [] \<and> hd t = CHR ''['' \<and> last t = CHR '']'' then substr t 1 (length t - 2) else t)
      in inet_pton6 V candidate)"

definition ParseIp :: "('u, 'z) vendor_scheme \<Rightarrow> string \<Rightarrow> Ip option" where
  "ParseIp V t =
     (if t = [] then None
      else case ParseIp4 V t of
        Some addr \<Rightarrow> Some (IpV4 addr)
      | None \<Rightarrow> (case ParseIp6 V t of Some addr \<Rightarrow> Some (IpV6 addr) | None \<Rightarrow> None))"

definition IsIpLiteralHostname :: "('u, 'z) vendor_scheme \<Rightarrow> string \<Rightarrow> bool" where
  "IsIpLiteralHostname V host \<longleftrightarrow> ParseIp V host \<noteq> None"

section \<open>Public routability\<close>

definition InIpv4Range :: "32 word \<Rightarrow> 32 word \<Rightarrow> 32 word \<Rightarrow> bool" where
  "InIpv4Range ip network netmask \<longleftrightarrow> ip AND netmask = network AND netmask"

fun Ipv4HostOrder :: "Ip4 \<Rightarrow> 32 word" where
  "Ipv4HostOrder (Ip4 b0 b1 b2 b3) =
     push_bit 24 (ucast b0) OR push_bit 16 (ucast b1) OR push_bit 8 (ucast b2) OR ucast b3"

definition IsPublicRoutable4 :: "Ip4 \<Rightarrow> bool" where
  "IsPublicRoutable4 addr =
     (let ip = Ipv4HostOrder addr in
      if InIpv4Range ip 0x00000000 0xFF000000 then False
      else if InIpv4Range ip 0x0A000000 0xFF000000 then False
      else if InIpv4Range ip 0x64400000 0xFFC00000 then False
      else if InIpv4Range ip 0x7F000000 0xFF000000 then False
      else if InIpv4Range ip 0xA9FE0000 0xFFFF0000 then False
      else if InIpv4Range ip 0xAC100000 0xFFF00000 then False
      else if InIpv4Range ip 0xC0A80000 0xFFFF0000 then False
      else if InIpv4Range ip 0xC6120000 0xFFFE0000 then False
      else if InIpv4Range ip 0xE0000000 0xF0000000 then False
      else if InIpv4Range ip 0xF0000000 0xF0000000 then False
      else True)"

definition loopback6 :: "u8 list" where
  "loopback6 = [0, 0, 0, 0, 0, 0, 0, 0, 0, 0, 0, 0, 0, 0, 0, 1]"

fun IsPublicRoutable6 :: "Ip6 \<Rightarrow> bool" where
  "IsPublicRoutable6 (Ip6 v) =
     (if list_all (\<lambda>c. c = 0) v then False
      else if v = loopback6 then False
      else if (v ! 0) AND 0xFE = 0xFC then False
      else if v ! 0 = 0xFE \<and> (v ! 1) AND 0xC0 = 0x80 then False
      else if take 10 v = replicate 10 0 \<and> v ! 10 = 0xFF \<and> v ! 11 = 0xFF then False
      else if v ! 0 = 0xFF then False
      else True)"

fun IsPublicRoutable :: "Ip \<Rightarrow> bool" where
  "IsPublicRoutable (IpV4 addr) = IsPublicRoutable4 addr"
| "IsPublicRoutable (IpV6 addr) = IsPublicRoutable6 addr"

section \<open>The ranges in octets\<close>

lemma octet_bit_less: "bit (w :: u8) n \<Longrightarrow> n < 8"
  using bit_imp_le_length [of w n] by simp

lemma octet_less: "unat (w :: u8) < 256"
  using unsigned_less [of w, where ?'a = nat] by simp

lemma unat_ucast_octet: "unat (ucast (w :: u8) :: 32 word) = unat w"
  using octet_less [of w] by (simp add: unsigned_ucast_eq take_bit_eq_mod)

lemma unat_shifted_octet:
  "k \<le> 24 \<Longrightarrow> unat (push_bit k (ucast (w :: u8)) :: 32 word) = unat w * 2 ^ k"
proof -
  assume k: "k \<le> 24"
  have "unat w * 2 ^ k < 256 * 2 ^ k" using octet_less [of w] by simp
  also have "\<dots> \<le> 256 * 2 ^ 24" using k by (simp add: power_increasing del: power_numeral)
  finally have "unat w * 2 ^ k < 2 ^ 32" by simp
  then have "unat w * 2 ^ k mod 2 ^ 32 = unat w * 2 ^ k" by simp
  moreover have "unat (push_bit k (ucast w) :: 32 word) = unat w * 2 ^ k mod 2 ^ 32"
    by (simp only: unsigned_push_bit_eq unat_ucast_octet)
      (simp add: take_bit_eq_mod push_bit_eq_mult)
  ultimately show ?thesis by simp
qed

lemma Ipv4HostOrder_sum:
  "unat (Ipv4HostOrder (Ip4 a b c d)) =
     unat a * 16777216 + unat b * 65536 + unat c * 256 + unat d"
proof -
  let ?A = "push_bit 24 (ucast a) :: 32 word" and ?B = "push_bit 16 (ucast b) :: 32 word"
  let ?C = "push_bit 8 (ucast c) :: 32 word" and ?D = "ucast d :: 32 word"
  have cd: "?C + ?D = ?C OR ?D"
    by (rule disjunctive_add) (auto simp: bit_simps dest: octet_bit_less)
  have bcd: "?B + (?C OR ?D) = ?B OR (?C OR ?D)"
    by (rule disjunctive_add) (auto simp: bit_simps dest: octet_bit_less)
  have abcd: "?A + (?B OR (?C OR ?D)) = ?A OR (?B OR (?C OR ?D))"
    by (rule disjunctive_add) (auto simp: bit_simps dest: octet_bit_less)
  have "Ipv4HostOrder (Ip4 a b c d) = ?A + (?B + (?C + ?D))"
    by (simp add: or.assoc cd bcd abcd)
  then show ?thesis
    using octet_less [of a] octet_less [of b] octet_less [of c] octet_less [of d]
    by (simp add: unat_word_ariths unat_shifted_octet unat_ucast_octet)
qed

lemma unat32_mod: "unat (w :: 32 word) mod 4294967296 = unat w"
  using unsigned_less [of w, where ?'a = nat] by simp

lemma InIpv4Range_iff:
  "InIpv4Range ip network (NOT (mask k)) \<longleftrightarrow> unat ip div 2 ^ k = unat network div 2 ^ k"
proof -
  have "InIpv4Range ip network (NOT (mask k)) \<longleftrightarrow> drop_bit k ip = drop_bit k network"
  proof
    assume *: "InIpv4Range ip network (NOT (mask k))"
    show "drop_bit k ip = drop_bit k network"
    proof (rule bit_eqI)
      fix n
      have "bit (ip AND NOT (mask k)) (k + n) = bit (network AND NOT (mask k)) (k + n)"
        using * by (simp add: InIpv4Range_def)
      then show "bit (drop_bit k ip) n = bit (drop_bit k network) n"
        by (auto simp: bit_simps dest: bit_imp_le_length)
    qed
  next
    assume *: "drop_bit k ip = drop_bit k network"
    have "bit ip m = bit network m" if "k \<le> m" for m
      using arg_cong [OF *, of "\<lambda>w. bit w (m - k)"] that by (simp add: bit_simps)
    then show "InIpv4Range ip network (NOT (mask k))"
      by (auto simp: InIpv4Range_def bit_eq_iff bit_simps)
  qed
  also have "\<dots> \<longleftrightarrow> unat ip div 2 ^ k = unat network div 2 ^ k"
    by (simp only: word_unat_eq_iff unsigned_drop_bit_eq)
      (simp add: drop_bit_eq_div take_bit_eq_mod unat32_mod)
  finally show ?thesis .
qed


lemma netmasks:
  "(0xFF000000 :: 32 word) = NOT (mask 24)" "(0xFFC00000 :: 32 word) = NOT (mask 22)"
  "(0xFFFF0000 :: 32 word) = NOT (mask 16)" "(0xFFF00000 :: 32 word) = NOT (mask 20)"
  "(0xFFFE0000 :: 32 word) = NOT (mask 17)" "(0xF0000000 :: 32 word) = NOT (mask 28)"
  by (simp_all add: mask_eq_exp_minus_1)

text \<open>
  The blocked networks, by octets: 0/8, 10/8, 100.64/10, 127/8, 169.254/16, 172.16/12,
  192.168/16, 198.18/15, 224/4 and 240/4.
\<close>

definition reserved_octets :: "nat \<Rightarrow> nat \<Rightarrow> bool" where
  "reserved_octets a b \<longleftrightarrow>
     a = 0 \<or> a = 10 \<or> (a = 100 \<and> 64 \<le> b \<and> b \<le> 127) \<or> a = 127 \<or> (a = 169 \<and> b = 254) \<or>
     (a = 172 \<and> 16 \<le> b \<and> b \<le> 31) \<or> (a = 192 \<and> b = 168) \<or> (a = 198 \<and> (b = 18 \<or> b = 19)) \<or>
     224 \<le> a"

lemma digits_unique:
  fixes a c q r k :: nat
  assumes "q < k" and "r < k"
  shows "a * k + q = c * k + r \<longleftrightarrow> a = c \<and> q = r"
  using assms by (metis div_mult_self3 div_less mod_less mod_mult_self3 add.left_neutral add.right_neutral not_less_zero)

lemma octets_div_iff:
  fixes a b :: nat
  assumes "b < 256"
  shows "(a * 256 + b) div 64 = 401 \<longleftrightarrow> a = 100 \<and> 64 \<le> b \<and> b \<le> 127"
    and "(a * 256 + b) div 16 = 2753 \<longleftrightarrow> a = 172 \<and> 16 \<le> b \<and> b \<le> 31"
    and "(a * 256 + b) div 2 = 25353 \<longleftrightarrow> a = 198 \<and> (b = 18 \<or> b = 19)"
    and "a * 256 + b = 43518 \<longleftrightarrow> a = 169 \<and> b = 254"
    and "a * 256 + b = 49320 \<longleftrightarrow> a = 192 \<and> b = 168"
proof -
  have e: "(a * 256 + b) div 64 = a * 4 + b div 64" "(a * 256 + b) div 16 = a * 16 + b div 16"
    "(a * 256 + b) div 2 = a * 128 + b div 2"
    using div_mult_self1 [of 64 b "a * 4"] div_mult_self1 [of 16 b "a * 16"]
      div_mult_self1 [of 2 b "a * 128"] by (simp_all add: algebra_simps)
  have l: "b div 64 < 4" "b div 16 < 16" "b div 2 < 128"
    using assms by (simp_all add: less_mult_imp_div_less)
  have "a * 4 + b div 64 = 401 \<longleftrightarrow> a = 100 \<and> b div 64 = 1"
    using digits_unique [of "b div 64" 4 1 a 100] l by simp
  also have "\<dots> \<longleftrightarrow> a = 100 \<and> 64 \<le> b \<and> b \<le> 127" by linarith
  finally show "(a * 256 + b) div 64 = 401 \<longleftrightarrow> a = 100 \<and> 64 \<le> b \<and> b \<le> 127"
    unfolding e .
  have "a * 16 + b div 16 = 2753 \<longleftrightarrow> a = 172 \<and> b div 16 = 1"
    using digits_unique [of "b div 16" 16 1 a 172] l by simp
  also have "\<dots> \<longleftrightarrow> a = 172 \<and> 16 \<le> b \<and> b \<le> 31" by linarith
  finally show "(a * 256 + b) div 16 = 2753 \<longleftrightarrow> a = 172 \<and> 16 \<le> b \<and> b \<le> 31"
    unfolding e .
  have "a * 128 + b div 2 = 25353 \<longleftrightarrow> a = 198 \<and> b div 2 = 9"
    using digits_unique [of "b div 2" 128 9 a 198] l by simp
  also have "\<dots> \<longleftrightarrow> a = 198 \<and> (b = 18 \<or> b = 19)" by linarith
  finally show "(a * 256 + b) div 2 = 25353 \<longleftrightarrow> a = 198 \<and> (b = 18 \<or> b = 19)"
    unfolding e .
  show "a * 256 + b = 43518 \<longleftrightarrow> a = 169 \<and> b = 254"
    using digits_unique [of b 256 254 a 169] assms by simp
  show "a * 256 + b = 49320 \<longleftrightarrow> a = 192 \<and> b = 168"
    using digits_unique [of b 256 168 a 192] assms by simp
qed

lemma IsPublicRoutable4_reserved:
  "IsPublicRoutable4 (Ip4 a b c d) \<longleftrightarrow> \<not> reserved_octets (unat a) (unat b)"
proof -
  define x where "x = unat a * 16777216 + unat b * 65536 + unat c * 256 + unat d"
  have r: "InIpv4Range (Ipv4HostOrder (Ip4 a b c d)) n (NOT (mask k)) \<longleftrightarrow>
      x div 2 ^ k = unat n div 2 ^ k" for n k
    by (simp add: InIpv4Range_iff Ipv4HostOrder_sum x_def del: Ipv4HostOrder.simps)
  have lt: "unat a < 256" "unat b < 256" "unat c < 256" "unat d < 256"
    by (simp_all add: octet_less)
  define y where "y = unat a * 256 + unat b"
  have x: "x = y * 65536 + (unat c * 256 + unat d)" by (simp add: x_def y_def)
  have y: "x div 65536 = y" using lt unfolding x by simp
  have ya: "y div 256 = unat a" using lt by (simp add: y_def)
  have dx: "x div 16777216 = unat a" "x div 268435456 = unat a div 16"
    "x div 4194304 = y div 64" "x div 1048576 = y div 16" "x div 131072 = y div 2"
    using div_mult2_eq [of x 65536 256] div_mult2_eq [of x 65536 4096]
      div_mult2_eq [of x 65536 64] div_mult2_eq [of x 65536 16] div_mult2_eq [of x 65536 2]
      div_mult2_eq [of y 256 16] ya y by simp_all
  have "IsPublicRoutable4 (Ip4 a b c d) \<longleftrightarrow>
      \<not> (unat a = 0 \<or> unat a = 10 \<or> y div 64 = 401 \<or> unat a = 127 \<or>
         y = 43518 \<or> y div 16 = 2753 \<or> y = 49320 \<or> y div 2 = 25353 \<or>
         unat a div 16 = 14 \<or> unat a div 16 = 15)"
    unfolding IsPublicRoutable4_def Let_def netmasks r
    by (simp add: y dx netmasks(6) [symmetric])
  also have "\<dots> \<longleftrightarrow> \<not> reserved_octets (unat a) (unat b)"
  proof -
    have "unat a div 16 = 14 \<or> unat a div 16 = 15 \<longleftrightarrow> 224 \<le> unat a"
      using lt(1) by linarith
    then show ?thesis
      unfolding reserved_octets_def y_def octets_div_iff [OF lt(2)] by argo
  qed
  finally show ?thesis .
qed

end
