(* ===== verification/Url.thy ===== *)
theory Url
  imports Ip
begin

text \<open>
  \<open>include/url.hpp\<close> and \<open>src/url.cpp\<close>: the class \<open>Url\<close>, a parsed \<open>ada::url_aggregator\<close>.  A
  \<open>Url\<close> is modelled by the value \<open>ada_url_\<close> it holds.  Every accessor reads a part of it and
  turns it into a \<open>String\<close> with \<open>*String::FromBytes\<close>, which aborts on bytes that are not UTF-8;
  the lemmas show it does not for the ASCII parts \<open>ada\<close> produces.
\<close>

datatype UrlError = UrlInputTooLong | UrlFailedToParse

type_synonym StripOptions = "32 word"

definition kNone :: StripOptions where "kNone = 0"
definition kPort :: StripOptions where "kPort = push_bit 0 1"
definition kQuery :: StripOptions where "kQuery = push_bit 1 1"
definition kHash :: StripOptions where "kHash = push_bit 2 1"

definition HasStripOption :: "StripOptions \<Rightarrow> StripOptions \<Rightarrow> bool" where
  "HasStripOption options flag \<longleftrightarrow> and options flag \<noteq> 0"

definition Url_FromText :: "('u, 'z) vendor_scheme \<Rightarrow> string \<Rightarrow> 'u option" where
  "Url_FromText V text = ada_parse V text"

definition FromBoundedSizeText ::
    "('u, 'z) vendor_scheme \<Rightarrow> string \<Rightarrow> nat \<Rightarrow> UrlError + 'u" where
  "FromBoundedSizeText V text max_bytes =
     (if length text > max_bytes then Inl UrlInputTooLong
      else case ada_parse V text of None \<Rightarrow> Inl UrlFailedToParse | Some u \<Rightarrow> Inr u)"

definition Host :: "('u, 'z) vendor_scheme \<Rightarrow> 'u \<Rightarrow> string outcome" where
  "Host V u = deref_text V (get_host V u)"

definition Hostname :: "('u, 'z) vendor_scheme \<Rightarrow> 'u \<Rightarrow> string outcome" where
  "Hostname V u = deref_text V (get_hostname V u)"

definition Port :: "('u, 'z) vendor_scheme \<Rightarrow> 'u \<Rightarrow> string outcome" where
  "Port V u = deref_text V (get_port V u)"

definition Pathname :: "('u, 'z) vendor_scheme \<Rightarrow> 'u \<Rightarrow> string outcome" where
  "Pathname V u = deref_text V (get_pathname V u)"

definition Search :: "('u, 'z) vendor_scheme \<Rightarrow> 'u \<Rightarrow> string outcome" where
  "Search V u = deref_text V (get_search V u)"

definition PathWithSearch :: "('u, 'z) vendor_scheme \<Rightarrow> 'u \<Rightarrow> string outcome" where
  "PathWithSearch V u =
     (let path = get_pathname V u;
          path = (if path = [] then ''/'' else path)
      in deref_text V (path @ get_search V u))"

definition Href :: "('u, 'z) vendor_scheme \<Rightarrow> 'u \<Rightarrow> string outcome" where
  "Href V u = deref_text V (get_href V u)"

definition HasHostname :: "('u, 'z) vendor_scheme \<Rightarrow> 'u \<Rightarrow> bool" where
  "HasHostname V u \<longleftrightarrow> ada_has_hostname V u \<and> get_hostname V u \<noteq> []"

definition HasPort :: "('u, 'z) vendor_scheme \<Rightarrow> 'u \<Rightarrow> bool" where
  "HasPort V u = ada_has_port V u"

definition HasNonDefaultPort :: "('u, 'z) vendor_scheme \<Rightarrow> 'u \<Rightarrow> bool outcome" where
  "HasNonDefaultPort V u =
     (if \<not> HasPort V u then Returns False
      else let default_port = get_special_port V (ada_type V u) in
        if default_port = 0 then Returns True
        else and_then (Port V u) (\<lambda>port.
          and_then (deref_text V (to_string default_port)) (\<lambda>d. Returns (port \<noteq> d))))"

definition HasSearch :: "('u, 'z) vendor_scheme \<Rightarrow> 'u \<Rightarrow> bool" where
  "HasSearch V u = ada_has_search V u"

definition HasValidDomain :: "('u, 'z) vendor_scheme \<Rightarrow> 'u \<Rightarrow> bool" where
  "HasValidDomain V u = has_valid_domain V u"

definition IsHttp :: "('u, 'z) vendor_scheme \<Rightarrow> 'u \<Rightarrow> bool" where
  "IsHttp V u \<longleftrightarrow> ada_type V u = SchemeHttp"

definition IsHttps :: "('u, 'z) vendor_scheme \<Rightarrow> 'u \<Rightarrow> bool" where
  "IsHttps V u \<longleftrightarrow> ada_type V u = SchemeHttps"

definition IsHttpOrHttps :: "('u, 'z) vendor_scheme \<Rightarrow> 'u \<Rightarrow> bool" where
  "IsHttpOrHttps V u \<longleftrightarrow> IsHttp V u \<or> IsHttps V u"

definition Origin :: "('u, 'z) vendor_scheme \<Rightarrow> 'u \<Rightarrow> string outcome" where
  "Origin V u =
     Invariant (IsHttpOrHttps V u) ''origin requires http or https url''
       (and_then (Host V u) (\<lambda>host.
          deref_text V ((if IsHttps V u then ''https'' else ''http'') @ ''://'' @ host)))"

text \<open>\<open>Surt\<close>: the loop that drops trailing dots, then the labels in reverse joined by commas.\<close>

fun pop_trailing :: "char \<Rightarrow> string \<Rightarrow> string" where
  "pop_trailing c s = (if s \<noteq> [] \<and> last s = c then pop_trailing c (butlast s) else s)"

declare pop_trailing.simps [simp del]

definition Surt :: "('u, 'z) vendor_scheme \<Rightarrow> 'u \<Rightarrow> string outcome" where
  "Surt V u =
     Invariant (IsHttpOrHttps V u) ''surt requires http or https url''
       (and_then (Hostname V u) (\<lambda>hostname.
        and_then (Port V u) (\<lambda>port_text.
        let host_text = pop_trailing (CHR ''.'') hostname;
            labels = split_from (CHR ''.'') host_text 0;
            surt_host = join_with '','' (rev labels)
        in and_then (HasNonDefaultPort V u) (\<lambda>nondefault.
           let surt_host = (if nondefault then surt_host @ '':'' @ port_text else surt_host) in
           and_then (PathWithSearch V u) (\<lambda>path.
             deref_text V (surt_host @ '')'' @ path))))))"

definition Without :: "('u, 'z) vendor_scheme \<Rightarrow> 'u \<Rightarrow> StripOptions \<Rightarrow> 'u" where
  "Without V u options =
     (let parsed = u;
          parsed = (if HasStripOption options kPort then clear_port V parsed else parsed);
          parsed = (if HasStripOption options kQuery then clear_search V parsed else parsed);
          parsed = (if HasStripOption options kHash then set_hash V parsed [] else parsed)
      in parsed)"

text \<open>The setters that must succeed: \<open>WithProtocol\<close> and its three siblings.\<close>

definition checked_set :: "bool \<times> 'u \<Rightarrow> string \<Rightarrow> 'u outcome" where
  "checked_set r message = Invariant (fst r) message (Returns (snd r))"

definition WithProtocol :: "('u, 'z) vendor_scheme \<Rightarrow> 'u \<Rightarrow> string \<Rightarrow> 'u outcome" where
  "WithProtocol V u protocol = checked_set (set_protocol V u protocol) ''invalid protocol''"

definition WithHostname :: "('u, 'z) vendor_scheme \<Rightarrow> 'u \<Rightarrow> string \<Rightarrow> 'u outcome" where
  "WithHostname V u hostname = checked_set (set_hostname V u hostname) ''invalid hostname''"

definition WithPort :: "('u, 'z) vendor_scheme \<Rightarrow> 'u \<Rightarrow> string \<Rightarrow> 'u outcome" where
  "WithPort V u port_value = checked_set (set_port V u port_value) ''invalid port''"

definition WithPathname :: "('u, 'z) vendor_scheme \<Rightarrow> 'u \<Rightarrow> string \<Rightarrow> 'u outcome" where
  "WithPathname V u pathname = checked_set (set_pathname V u pathname) ''invalid pathname''"

definition WithSearch :: "('u, 'z) vendor_scheme \<Rightarrow> 'u \<Rightarrow> string \<Rightarrow> 'u" where
  "WithSearch V u search_value = set_search V u search_value"

section \<open>No accessor aborts on an ASCII URL\<close>

lemma is_ascii_append [simp]: "is_ascii (s @ t) \<longleftrightarrow> is_ascii s \<and> is_ascii t"
  by (auto simp: is_ascii_def)

lemma is_ascii_Nil [simp]: "is_ascii []"
  by (simp add: is_ascii_def)

lemma is_ascii_Cons [simp]: "is_ascii (c # s) \<longleftrightarrow> of_char c < (128::nat) \<and> is_ascii s"
  by (simp add: is_ascii_def)

lemma accessors_return:
  assumes "utf8_contract V" and "ada_ascii_contract V"
  shows "Host V u = Returns (get_host V u)" "Hostname V u = Returns (get_hostname V u)"
    "Port V u = Returns (get_port V u)" "Pathname V u = Returns (get_pathname V u)"
    "Search V u = Returns (get_search V u)" "Href V u = Returns (get_href V u)"
  using assms
  by (simp_all add: Host_def Hostname_def Port_def Pathname_def Search_def Href_def
      deref_text_ascii ada_ascii_contractD)

lemma digit_char_ascii: "d < 10 \<Longrightarrow> is_ascii [digit_char d]"
  by (simp add: digit_char_def)

lemma to_string_ascii: "is_ascii (to_string n)"
  by (induction n rule: to_string.induct)
    (subst to_string.simps, auto simp: digit_char_def)

lemma pop_trailing_prefix: "prefix (pop_trailing c s) s"
proof (induction c s rule: pop_trailing.induct)
  case (1 c s)
  show ?case
  proof (cases "s \<noteq> [] \<and> last s = c")
    case True
    then have "prefix (pop_trailing c (butlast s)) (butlast s)" by (rule "1.IH")
    then show ?thesis
      using True prefixeq_butlast prefix_order.trans by (subst pop_trailing.simps) auto
  next
    case False
    then show ?thesis by (subst pop_trailing.simps) auto
  qed
qed

lemma pop_trailing_last: "pop_trailing c s \<noteq> [] \<Longrightarrow> last (pop_trailing c s) \<noteq> c"
  by (induction c s rule: pop_trailing.induct) (subst (asm) (2) pop_trailing.simps, subst pop_trailing.simps, auto split: if_splits)

lemma is_ascii_prefix: "prefix s t \<Longrightarrow> is_ascii t \<Longrightarrow> is_ascii s"
  by (auto simp: prefix_def)

lemma is_ascii_join_with:
  "is_ascii sep \<Longrightarrow> \<forall>l\<in>set ls. is_ascii l \<Longrightarrow> is_ascii (join_with sep ls)"
  by (induction sep ls rule: join_with.induct) auto

lemma set_split_on: "x \<in> set (split_on c s) \<Longrightarrow> set x \<subseteq> set s"
proof (induction s arbitrary: x)
  case Nil
  then show ?case by simp
next
  case (Cons a s)
  obtain p ps where "split_on c s = p # ps" by (cases "split_on c s") auto
  with Cons.IH have "set p \<subseteq> set s" "\<And>q. q \<in> set ps \<Longrightarrow> set q \<subseteq> set s" by auto
  with Cons.prems \<open>split_on c s = p # ps\<close> show ?case by (auto split: if_splits)
qed

lemma is_ascii_split_from:
  "is_ascii s \<Longrightarrow> x \<in> set (split_from c s start) \<Longrightarrow> is_ascii x"
  unfolding split_from_eq_split_on is_ascii_def
  by (meson in_mono in_set_dropD set_split_on)

lemma HasNonDefaultPort_returns:
  assumes "utf8_contract V" and "ada_ascii_contract V"
  shows "HasNonDefaultPort V u =
    Returns (HasPort V u \<and> (get_special_port V (ada_type V u) = 0 \<or>
      get_port V u \<noteq> to_string (get_special_port V (ada_type V u))))"
  using assms by (simp add: HasNonDefaultPort_def Let_def accessors_return deref_text_ascii to_string_ascii)

lemma PathWithSearch_returns:
  assumes "utf8_contract V" and "ada_ascii_contract V"
  shows "PathWithSearch V u =
    Returns ((if get_pathname V u = [] then ''/'' else get_pathname V u) @ get_search V u)"
  using assms by (simp add: PathWithSearch_def deref_text_ascii ada_ascii_contractD)

text \<open>The sort-friendly form of an HTTP URL: reversed labels, the odd port, path and query.\<close>

lemma Surt_returns:
  assumes V: "utf8_contract V" "ada_ascii_contract V" and http: "IsHttpOrHttps V u"
  shows "Surt V u = Returns
    (join_with '','' (rev (split_on (CHR ''.'') (pop_trailing (CHR ''.'') (get_hostname V u)))) @
     (if HasPort V u \<and> (get_special_port V (ada_type V u) = 0 \<or>
        get_port V u \<noteq> to_string (get_special_port V (ada_type V u)))
      then '':'' @ get_port V u else []) @ '')'' @
     (if get_pathname V u = [] then ''/'' else get_pathname V u) @ get_search V u)"
proof -
  let ?h = "pop_trailing (CHR ''.'') (get_hostname V u)"
  have h: "is_ascii ?h"
    using is_ascii_prefix [OF pop_trailing_prefix] ada_ascii_contractD [OF V(2)] by blast
  have "is_ascii (join_with '','' (rev (split_from (CHR ''.'') ?h 0)))"
    using is_ascii_split_from [OF h] by (intro is_ascii_join_with) auto
  then have j: "is_ascii (join_with '','' (rev (split_on (CHR ''.'') ?h)))"
    by (simp add: split_from_eq_split_on)
  show ?thesis
    using http j
    by (simp add: Surt_def Let_def accessors_return [OF V] HasNonDefaultPort_returns [OF V]
        PathWithSearch_returns [OF V] split_from_eq_split_on deref_text_ascii [OF V(1)]
        ada_ascii_contractD [OF V(2)])
qed

end
