(* ===== verification/Link.thy ===== *)
theory Link
  imports Url
begin

text \<open>
  \<open>include/link.hpp\<close> and \<open>src/link.cpp\<close>: the normalised link of a request.  A \<open>Link\<close> is
  modelled by the URL it wraps.
\<close>

datatype LinkError =
  kMissingScheme | kUnsupportedScheme | kFailedToParse | kMissingHostname
| kIpAddressNotAllowed | kInvalidHost | kInputTooLong | kNormalizedHrefTooLong

definition IsAsciiAlpha :: "('u, 'z) vendor_scheme \<Rightarrow> char \<Rightarrow> bool" where
  "IsAsciiAlpha V ch = ascii_isalpha V ch"

definition IsAsciiAlnum :: "('u, 'z) vendor_scheme \<Rightarrow> char \<Rightarrow> bool" where
  "IsAsciiAlnum V ch = ascii_isalnum V ch"

fun IsValidScheme :: "('u, 'z) vendor_scheme \<Rightarrow> string \<Rightarrow> bool" where
  "IsValidScheme V [] = False"
| "IsValidScheme V (c # cs) =
     (if \<not> IsAsciiAlpha V c then False
      else list_all (\<lambda>c. IsAsciiAlnum V c \<or> c = CHR ''+'' \<or> c = CHR ''-'' \<or> c = CHR ''.'') cs)"

definition SerializeHref :: "('u, 'z) vendor_scheme \<Rightarrow> 'u \<Rightarrow> string" where
  "SerializeHref V url = ConsumeSuffix V (get_href V url) ''/''"

text \<open>
  The stripping part of \<open>NormalizeUrl\<close>: credentials, fragment and port are cleared, and the
  trailing dot of the hostname is removed.  The results of the setters are ignored there.
\<close>

definition strip_for_link :: "('u, 'z) vendor_scheme \<Rightarrow> 'u \<Rightarrow> 'u" where
  "strip_for_link V url =
     (let normalized = snd (set_username V url []);
          normalized = snd (set_password V normalized []);
          normalized = clear_hash V normalized;
          normalized = clear_port V normalized;
          hostname = get_hostname V normalized
      in if hostname \<noteq> [] \<and> last hostname = CHR ''.''
         then snd (set_hostname V normalized (butlast hostname)) else normalized)"

definition NormalizeUrl ::
    "('u, 'z) vendor_scheme \<Rightarrow> 'u \<Rightarrow> nat \<Rightarrow> (LinkError + 'u) outcome" where
  "NormalizeUrl V url url_bytes_max =
     (if \<not> IsHttpOrHttps V url then Returns (Inl kUnsupportedScheme)
      else if \<not> HasHostname V url then Returns (Inl kMissingHostname)
      else and_then (Hostname V url) (\<lambda>hostname.
        if IsIpLiteralHostname V hostname then Returns (Inl kIpAddressNotAllowed)
        else if \<not> HasValidDomain V url then Returns (Inl kInvalidHost)
        else let normalized = strip_for_link V url;
                 normalized_href = SerializeHref V normalized
             in if length normalized_href > url_bytes_max
                then Returns (Inl kNormalizedHrefTooLong)
                else Returns (Inr normalized)))"

definition default_scheme :: "('u, 'z) vendor_scheme \<Rightarrow> string \<Rightarrow> LinkError + string" where
  "default_scheme V text =
     (if prefix ''//'' text then Inl kMissingScheme
      else case find_str ''://'' text 0 of
        None \<Rightarrow> Inr (''http://'' @ text)
      | Some scheme_pos \<Rightarrow>
          if \<not> IsValidScheme V (substr text 0 scheme_pos) then Inr (''http://'' @ text)
          else let scheme = substr text 0 scheme_pos in
            if \<not> (scheme = ''http'' \<or> scheme = ''https'') then Inl kUnsupportedScheme
            else Inr text)"

definition Link_FromText ::
    "('u, 'z) vendor_scheme \<Rightarrow> string \<Rightarrow> nat \<Rightarrow> (LinkError + 'u) outcome" where
  "Link_FromText V text url_bytes_max =
     (case default_scheme V (StripAsciiWhitespace V text) of
        Inl e \<Rightarrow> Returns (Inl e)
      | Inr input \<Rightarrow> and_then (deref_text V input) (\<lambda>t.
          case FromBoundedSizeText V t url_bytes_max of
            Inl UrlInputTooLong \<Rightarrow> Returns (Inl kInputTooLong)
          | Inl UrlFailedToParse \<Rightarrow> Returns (Inl kFailedToParse)
          | Inr parsed \<Rightarrow> NormalizeUrl V parsed url_bytes_max))"

definition Link_FromUrl ::
    "('u, 'z) vendor_scheme \<Rightarrow> 'u \<Rightarrow> nat \<Rightarrow> (LinkError + 'u) outcome" where
  "Link_FromUrl V url url_bytes_max = NormalizeUrl V url url_bytes_max"

definition Link_Hostname :: "('u, 'z) vendor_scheme \<Rightarrow> 'u \<Rightarrow> string outcome" where
  "Link_Hostname V link = Hostname V link"

definition Link_Pathname :: "('u, 'z) vendor_scheme \<Rightarrow> 'u \<Rightarrow> string outcome" where
  "Link_Pathname V link = Pathname V link"

definition HttpUrl :: "('u, 'z) vendor_scheme \<Rightarrow> 'u \<Rightarrow> string outcome" where
  "HttpUrl V link = deref_text V (SerializeHref V (snd (set_protocol V link ''http'')))"

definition HttpsUrl :: "('u, 'z) vendor_scheme \<Rightarrow> 'u \<Rightarrow> string outcome" where
  "HttpsUrl V link = deref_text V (SerializeHref V (snd (set_protocol V link ''https'')))"

text \<open>\<open>substr\<close> past the end throws \<open>std::out_of_range\<close>.\<close>

definition ToKey :: "('u, 'z) vendor_scheme \<Rightarrow> 'u \<Rightarrow> string outcome" where
  "ToKey V link =
     (let href = SerializeHref V (snd (set_protocol V link ''http'')) in
      if length href < length ''http://'' then Throws ''std::out_of_range''
      else deref_text V (substr_from href (length ''http://'')))"

section \<open>What a normalised link satisfies\<close>

text \<open>
  The URL standard's setters, as far as normalisation relies on them: clearing credentials,
  fragment and port leaves scheme and hostname alone, and setting a hostname to a non-empty
  value keeps the scheme and the cleared parts.
\<close>

definition ada_setter_contract :: "('u, 'z) vendor_scheme \<Rightarrow> bool" where
  "ada_setter_contract V \<longleftrightarrow>
     (\<forall>u s. ada_type V (snd (set_username V u s)) = ada_type V u \<and>
            get_hostname V (snd (set_username V u s)) = get_hostname V u) \<and>
     (\<forall>u s. ada_type V (snd (set_password V u s)) = ada_type V u \<and>
            get_hostname V (snd (set_password V u s)) = get_hostname V u) \<and>
     (\<forall>u. ada_type V (clear_hash V u) = ada_type V u \<and>
          get_hostname V (clear_hash V u) = get_hostname V u) \<and>
     (\<forall>u. ada_type V (clear_port V u) = ada_type V u \<and>
          get_hostname V (clear_port V u) = get_hostname V u \<and>
          \<not> ada_has_port V (clear_port V u)) \<and>
     (\<forall>u h. ada_type V (snd (set_hostname V u h)) = ada_type V u \<and>
            ada_has_port V (snd (set_hostname V u h)) = ada_has_port V u)"

lemma strip_for_link_scheme:
  assumes "ada_setter_contract V"
  shows "ada_type V (strip_for_link V u) = ada_type V u" "\<not> HasPort V (strip_for_link V u)"
  using assms by (simp_all add: strip_for_link_def ada_setter_contract_def Let_def HasPort_def)

lemma NormalizeUrl_Inr_iff:
  "NormalizeUrl V url m = Returns (Inr n) \<longleftrightarrow>
     IsHttpOrHttps V url \<and> HasHostname V url \<and>
     (\<exists>h. Hostname V url = Returns h \<and> \<not> IsIpLiteralHostname V h) \<and>
     HasValidDomain V url \<and> n = strip_for_link V url \<and> length (SerializeHref V n) \<le> m"
  by (cases "Hostname V url") (auto simp: NormalizeUrl_def Let_def)

lemma Link_FromText_Inr:
  assumes "Link_FromText V text m = Returns (Inr n)"
  obtains parsed where "NormalizeUrl V parsed m = Returns (Inr n)"
proof -
  from assms obtain i where i: "default_scheme V (StripAsciiWhitespace V text) = Inr i"
    by (auto simp: Link_FromText_def split: sum.splits)
  with assms obtain t where t: "deref_text V i = Returns t"
    by (cases "deref_text V i") (auto simp: Link_FromText_def)
  with assms i obtain u where "FromBoundedSizeText V t m = Inr u" "NormalizeUrl V u m = Returns (Inr n)"
    by (cases "FromBoundedSizeText V t m") (auto simp: Link_FromText_def split: UrlError.splits)
  then show thesis by (rule_tac that)
qed

end
