(* ===== verification/Prefix_Utils.thy ===== *)
theory Prefix_Utils
  imports Link
begin

text \<open>
  \<open>src/prefix_utils.cpp\<close>: the key under which a link is stored, compared and denied, and its
  encoding as a Postgres \<open>ltree\<close>.  The encoding is what the access policy and the purge
  compare, so the main lemmas relate the ancestor order of encoded keys to nesting of the keys
  themselves.
\<close>

definition max_bytes_per_label :: nat where
  "max_bytes_per_label = 127"

text \<open>The loop of \<open>AppendEncodedSegment\<close> over the chunks of a segment.\<close>

function append_chunks :: "('u, 'z) vendor_scheme \<Rightarrow> string \<Rightarrow> string \<Rightarrow> nat \<Rightarrow> string" where
  "append_chunks V out bytes pos =
     (if pos < length bytes then
        let chunk = substr bytes pos (min max_bytes_per_label (length bytes - pos)) in
        append_chunks V (out @ ''.'' @ ''x'' @ to_hex V chunk) bytes (pos + max_bytes_per_label)
      else out)"
  by pat_completeness auto
termination
  by (relation "measure (\<lambda>(V, out, bytes, pos). length bytes - pos)")
    (auto simp: max_bytes_per_label_def)

declare append_chunks.simps [simp del]

definition AppendEncodedSegment :: "('u, 'z) vendor_scheme \<Rightarrow> string \<Rightarrow> string \<Rightarrow> string" where
  "AppendEncodedSegment V out bytes =
     (if bytes = [] then out @ ''.x'' else append_chunks V out bytes 0)"

definition MakePrefixKey :: "('u, 'z) vendor_scheme \<Rightarrow> 'u \<Rightarrow> string outcome" where
  "MakePrefixKey V link =
     and_then (Link_Hostname V link) (\<lambda>host.
     and_then (Link_Pathname V link) (\<lambda>path.
       let labels = split_from (CHR ''.'') host 0;
           host_rev = join_with ''.'' (rev labels);
           path = (if path = ''/'' then []
                   else if path \<noteq> [] \<and> last path = CHR ''/'' then butlast path
                   else path)
       in deref_text V (host_rev @ path)))"

text \<open>The lambda \<open>append_split_segments\<close>: one encoded segment per piece of the input.\<close>

function append_split_segments ::
    "('u, 'z) vendor_scheme \<Rightarrow> string \<Rightarrow> string \<Rightarrow> char \<Rightarrow> nat \<Rightarrow> string" where
  "append_split_segments V out input sep start =
     (case find_char sep input start of
        None \<Rightarrow> AppendEncodedSegment V out (substr_from input start)
      | Some next \<Rightarrow>
          append_split_segments V
            (AppendEncodedSegment V out (substr input start (next - start))) input sep (next + 1))"
  by pat_completeness auto
termination
  by (relation "measure (\<lambda>(V, out, input, sep, start). Suc (length input) - start)")
    (auto dest: find_char_bounds)

declare append_split_segments.simps [simp del]

definition MakePrefixTree :: "('u, 'z) vendor_scheme \<Rightarrow> string \<Rightarrow> string" where
  "MakePrefixTree V prefix_key =
     (let out = ''h'';
          first_slash = find_char (CHR ''/'') prefix_key 0;
          host_part = (case first_slash of None \<Rightarrow> prefix_key | Some i \<Rightarrow> substr prefix_key 0 i);
          out = append_split_segments V out host_part (CHR ''.'') 0
      in case first_slash of
           None \<Rightarrow> out
         | Some i \<Rightarrow> append_split_segments V (out @ ''.p'') (substr_from prefix_key (i + 1))
                       (CHR ''/'') 0)"

section \<open>Labels\<close>

text \<open>
  An \<open>ltree\<close> is a sequence of labels written with dots between them; \<open>a @> b\<close> holds when the
  labels of \<open>a\<close> are an initial part of those of \<open>b\<close>.
\<close>

definition text2ltree :: "string \<Rightarrow> string list" where
  "text2ltree s = split_on (CHR ''.'') s"

definition ltree_ancestor :: "string list \<Rightarrow> string list \<Rightarrow> bool" where
  "ltree_ancestor a b \<longleftrightarrow> prefix a b"

text \<open>The chunks of a segment and the labels they become.\<close>

fun chunks :: "nat \<Rightarrow> string \<Rightarrow> string list" where
  "chunks n s = (if s = [] \<or> n = 0 then [] else take n s # chunks n (drop n s))"

declare chunks.simps [simp del]

definition segment_labels :: "('u, 'z) vendor_scheme \<Rightarrow> string \<Rightarrow> string list" where
  "segment_labels V seg =
     (if seg = [] then [''x'']
      else map (\<lambda>c. CHR ''x'' # to_hex V c) (chunks max_bytes_per_label seg))"

text \<open>The parts of a key: host labels in reverse, and path segments when there is a path.\<close>

definition key_host :: "string \<Rightarrow> string list" where
  "key_host key = split_on (CHR ''.'') (takeWhile (\<lambda>c. c \<noteq> CHR ''/'') key)"

definition key_path :: "string \<Rightarrow> string list option" where
  "key_path key = (case index_of (CHR ''/'') key of None \<Rightarrow> None
     | Some i \<Rightarrow> Some (split_on (CHR ''/'') (drop (Suc i) key)))"

definition tree_labels :: "('u, 'z) vendor_scheme \<Rightarrow> string \<Rightarrow> string list" where
  "tree_labels V key =
     ''h'' # concat (map (segment_labels V) (key_host key)) @
     (case key_path key of None \<Rightarrow> []
      | Some ps \<Rightarrow> ''p'' # concat (map (segment_labels V) ps))"

definition dotted :: "string list \<Rightarrow> string" where
  "dotted ls = concat (map (\<lambda>l. CHR ''.'' # l) ls)"

lemma dotted_append [simp]: "dotted (xs @ ys) = dotted xs @ dotted ys"
  by (simp add: dotted_def)

lemma dotted_Cons [simp]: "dotted (x # xs) = CHR ''.'' # x @ dotted xs"
  by (simp add: dotted_def)

lemma dotted_Nil [simp]: "dotted [] = []"
  by (simp add: dotted_def)

lemma append_dotted: "l @ dotted ls = join_with ''.'' (l # ls)"
proof (induction ls arbitrary: l)
  case (Cons a ls)
  then show ?case by simp
qed simp

lemma append_chunks_eq:
  "append_chunks V out bytes pos =
     out @ dotted (map (\<lambda>c. CHR ''x'' # to_hex V c) (chunks max_bytes_per_label (drop pos bytes)))"
proof (induction V out bytes pos rule: append_chunks.induct)
  case (1 V out bytes pos)
  show ?case
  proof (cases "pos < length bytes")
    case True
    have t: "take (min max_bytes_per_label (length bytes - pos)) (drop pos bytes) =
        take max_bytes_per_label (drop pos bytes)"
      by (cases "max_bytes_per_label \<le> length bytes - pos") (simp_all add: min_def)
    from True have "chunks max_bytes_per_label (drop pos bytes) =
        take max_bytes_per_label (drop pos bytes) #
          chunks max_bytes_per_label (drop (pos + max_bytes_per_label) bytes)"
      by (subst chunks.simps) (simp add: max_bytes_per_label_def add.commute)
    with "1.IH" [OF True refl] True show ?thesis
      by (simp add: append_chunks.simps [of V out bytes pos] Let_def substr_def t)
  next
    case False
    then show ?thesis
      by (simp add: append_chunks.simps [of V out bytes pos] chunks.simps)
  qed
qed

lemma AppendEncodedSegment_eq:
  "AppendEncodedSegment V out seg = out @ dotted (segment_labels V seg)"
  by (simp add: AppendEncodedSegment_def segment_labels_def append_chunks_eq)

lemma append_split_segments_eq:
  "append_split_segments V out input sep start =
     out @ dotted (concat (map (segment_labels V) (split_from sep input start)))"
proof (induction V out input sep start rule: append_split_segments.induct)
  case (1 V out input sep start)
  then show ?case
    by (subst append_split_segments.simps, subst split_from.simps)
      (cases "find_char sep input start"; simp add: AppendEncodedSegment_eq)
qed

lemma index_of_takeWhile:
  "index_of c s = Some i \<Longrightarrow> takeWhile (\<lambda>x. x \<noteq> c) s = take i s"
  by (induction s arbitrary: i) (auto split: if_splits)

lemma MakePrefixTree_join: "MakePrefixTree V key = join_with ''.'' (tree_labels V key)"
proof (cases "index_of (CHR ''/'') key")
  case None
  then have "takeWhile (\<lambda>c. c \<noteq> CHR ''/'') key = key"
    by (auto simp: takeWhile_eq_all_conv)
  with None show ?thesis
    by (simp add: MakePrefixTree_def find_char_def append_split_segments_eq key_host_def
        key_path_def tree_labels_def split_from_eq_split_on append_dotted [symmetric]
        del: index_of_None_iff takeWhile_eq_all_conv)
next
  case (Some i)
  then show ?thesis
    by (simp add: MakePrefixTree_def find_char_def append_split_segments_eq key_host_def
        key_path_def tree_labels_def split_from_eq_split_on append_dotted [symmetric]
        substr_def substr_from_def index_of_takeWhile)
qed

section \<open>Nesting of keys\<close>

text \<open>
  What a key covers, without mention of the encoding: itself, every key below it in the path,
  and, when it names a host only, every subdomain.
\<close>

definition key_covers :: "string \<Rightarrow> string \<Rightarrow> bool" where
  "key_covers a b \<longleftrightarrow>
     b = a \<or> prefix (a @ ''/'') b \<or> (CHR ''/'' \<notin> set a \<and> prefix (a @ ''.'') b)"

lemma split_on_append: "split_on c (a @ c # b) = split_on c a @ split_on c b"
proof (induction a)
  case (Cons x a)
  obtain p ps where "split_on c a = p # ps" by (cases "split_on c a") auto
  with Cons show ?case by auto
qed simp

lemma join_with_append:
  "xs \<noteq> [] \<Longrightarrow> ys \<noteq> [] \<Longrightarrow> join_with sep (xs @ ys) = join_with sep xs @ sep @ join_with sep ys"
proof (induction sep xs rule: join_with.induct)
  case (2 sep x)
  then show ?case by (cases ys) auto
qed auto

lemma split_on_prefix_iff:
  "prefix (split_on c a) (split_on c b) \<longleftrightarrow> b = a \<or> prefix (a @ [c]) b"
proof
  assume "prefix (split_on c a) (split_on c b)"
  then obtain r where r: "split_on c b = split_on c a @ r" by (auto simp: prefix_def)
  show "b = a \<or> prefix (a @ [c]) b"
  proof (cases "r = []")
    case True
    with r show ?thesis by (simp add: split_on_inject)
  next
    case False
    have "b = join_with [c] (split_on c b)" by simp
    also have "\<dots> = a @ [c] @ join_with [c] r"
      using False r by (simp add: join_with_append)
    finally show ?thesis by (auto simp: prefix_def)
  qed
next
  assume "b = a \<or> prefix (a @ [c]) b"
  then show "prefix (split_on c a) (split_on c b)"
    by (auto simp: prefix_def split_on_append)
qed

lemma prefix_sep_iff:
  "c \<notin> set x \<Longrightarrow> c \<notin> set y \<Longrightarrow> prefix (x @ c # p) (y @ c # q) \<longleftrightarrow> x = y \<and> prefix p q"
proof (induction x arbitrary: y)
  case Nil
  then show ?case by (cases y) auto
next
  case (Cons a x)
  then show ?case by (cases y) auto
qed

lemma prefix_before_sep: "c \<notin> set x \<Longrightarrow> prefix x (y @ c # q) \<longleftrightarrow> prefix x y"
proof (induction x arbitrary: y)
  case (Cons a x)
  then show ?case by (cases y) auto
qed simp

text \<open>A key is a host, or a host and a path with the slash between them.\<close>

lemma key_cases:
  obtains (host) "key_host key = split_on (CHR ''.'') key" "key_path key = None"
      "CHR ''/'' \<notin> set key"
  | (path) h p where "key = h @ CHR ''/'' # p" "CHR ''/'' \<notin> set h"
      "key_host key = split_on (CHR ''.'') h" "key_path key = Some (split_on (CHR ''/'') p)"
proof (cases "index_of (CHR ''/'') key")
  case None
  then have "takeWhile (\<lambda>c. c \<noteq> CHR ''/'') key = key" by (auto simp: takeWhile_eq_all_conv)
  then have "key_host key = split_on (CHR ''.'') key" by (simp only: key_host_def)
  moreover have "key_path key = None" using None by (simp add: key_path_def del: index_of_None_iff)
  ultimately show thesis using None by (intro host) simp_all
next
  case (Some i)
  from index_of_SomeD [OF Some]
  have "key = take i key @ CHR ''/'' # drop (Suc i) key" "CHR ''/'' \<notin> set (take i key)" by auto
  moreover have "key_host key = split_on (CHR ''.'') (take i key)"
    by (simp add: key_host_def index_of_takeWhile [OF Some])
  ultimately show thesis using Some by (intro path) (simp_all add: key_path_def)
qed

definition path_covers :: "string list option \<Rightarrow> string list option \<Rightarrow> bool" where
  "path_covers pa pb \<longleftrightarrow> (\<exists>xs ys. pa = Some xs \<and> pb = Some ys \<and> prefix xs ys)"

lemma key_covers_parts:
  "key_covers a b \<longleftrightarrow>
     (case key_path a of None \<Rightarrow> prefix (key_host a) (key_host b)
      | Some _ \<Rightarrow> key_host a = key_host b \<and> path_covers (key_path a) (key_path b))"
proof (cases a rule: key_cases)
  case host
  note A = host
  show ?thesis
  proof (cases b rule: key_cases)
    case host
    then have "\<not> prefix (a @ ''/'') b" by (auto simp: prefix_def)
    with A host show ?thesis by (simp add: key_covers_def split_on_prefix_iff)
  next
    case (path h p)
    have "prefix (a @ ''/'') b \<longleftrightarrow> a = h"
      using path prefix_sep_iff [of "CHR ''/''" a h "[]" p] A by auto
    moreover have "prefix (a @ ''.'') b \<longleftrightarrow> prefix (a @ ''.'') h"
      using path prefix_before_sep [of "CHR ''/''" "a @ ''.''" h p] A by auto
    moreover have "b \<noteq> a" using A path by auto
    ultimately show ?thesis using A path by (auto simp: key_covers_def split_on_prefix_iff)
  qed
next
  case (path h p)
  note A = path
  show ?thesis
  proof (cases b rule: key_cases)
    case host
    with A show ?thesis by (auto simp: key_covers_def path_covers_def prefix_def)
  next
    case (path h' p')
    have "prefix (a @ ''/'') b \<longleftrightarrow> h = h' \<and> prefix (p @ ''/'') p'"
      using path prefix_sep_iff [of "CHR ''/''" h h' "p @ ''/''" p'] A by auto
    moreover have "b = a \<longleftrightarrow> h = h' \<and> p' = p"
      using A path prefix_sep_iff [of "CHR ''/''" h h' p p']
        prefix_sep_iff [of "CHR ''/''" h h' p' p] by (auto simp: append_eq_append_conv2 Cons_eq_append_conv)
    ultimately show ?thesis using A path
      by (auto simp: key_covers_def path_covers_def split_on_prefix_iff split_on_inject)
  qed
qed

section \<open>The encoding\<close>

lemma chunks_short: "s \<noteq> [] \<Longrightarrow> length s \<le> max_bytes_per_label \<Longrightarrow> chunks max_bytes_per_label s = [s]"
  by (subst chunks.simps, subst chunks.simps) (simp add: max_bytes_per_label_def)

lemma chunks_bounds: "c \<in> set (chunks n s) \<Longrightarrow> c \<noteq> [] \<and> length c \<le> n"
proof (induction n s rule: chunks.induct)
  case (1 n s)
  from "1.prems" have s: "s \<noteq> []" "n \<noteq> 0" by (auto simp: chunks.simps [of n s] split: if_splits)
  with "1.prems" have "c = take n s \<or> c \<in> set (chunks n (drop n s))"
    by (auto simp: chunks.simps [of n s])
  then show ?case using "1.IH" s by auto
qed

lemma segment_labels_short:
  assumes "hex_contract V" and "length seg \<le> max_bytes_per_label"
  shows "segment_labels V seg = [CHR ''x'' # to_hex V seg]"
  using assms hex_contractD(2) [of V "[]"]
  by (auto simp: segment_labels_def chunks_short)

text \<open>Each label is a letter and at most 254 hexadecimal digits: a valid \<open>ltree\<close> label.\<close>

definition ltree_label :: "string \<Rightarrow> bool" where
  "ltree_label l \<longleftrightarrow> 1 \<le> length l \<and> length l \<le> 255 \<and>
     (\<forall>ch\<in>set l. ch \<in> set (''hpx'' @ hex_digits))"

lemma segment_labels_valid:
  assumes "hex_contract V" and "l \<in> set (segment_labels V seg)"
  shows "ltree_label l"
  using assms hex_contractD [OF assms(1)]
  by (auto simp: segment_labels_def ltree_label_def max_bytes_per_label_def
      dest!: chunks_bounds split: if_splits)

lemma tree_labels_valid:
  assumes "hex_contract V" and "l \<in> set (tree_labels V key)"
  shows "ltree_label l"
proof -
  have "ltree_label ''h''" "ltree_label ''p''" by (simp_all add: ltree_label_def)
  with assms show ?thesis
    by (auto simp: tree_labels_def segment_labels_valid split: option.splits)
qed

lemma no_dot_in_alphabet: "CHR ''.'' \<notin> set (''hpx'' @ hex_digits)"
  by (simp add: hex_digits_def)

lemma ltree_label_no_dot: "ltree_label l \<Longrightarrow> CHR ''.'' \<notin> set l"
  unfolding ltree_label_def using no_dot_in_alphabet by blast

lemma text2ltree_MakePrefixTree:
  assumes "hex_contract V"
  shows "text2ltree (MakePrefixTree V key) = tree_labels V key"
proof -
  have "tree_labels V key \<noteq> []" by (simp add: tree_labels_def)
  moreover have "\<forall>l\<in>set (tree_labels V key). CHR ''.'' \<notin> set l"
    using ltree_label_no_dot tree_labels_valid [OF assms] by blast
  ultimately show ?thesis
    unfolding text2ltree_def MakePrefixTree_join by (rule split_on_join_with)
qed

text \<open>Nesting always shows in the encoding.\<close>

lemma prefix_concat_map: "prefix xs ys \<Longrightarrow> prefix (concat (map f xs)) (concat (map f ys))"
  by (auto simp: prefix_def)

lemma key_covers_tree: "key_covers a b \<Longrightarrow> prefix (tree_labels V a) (tree_labels V b)"
  unfolding key_covers_parts path_covers_def tree_labels_def
  by (auto intro: prefix_concat_map prefix_order.trans split: option.splits)

text \<open>When no segment is cut into chunks, the encoding shows nothing else.\<close>

definition short_segments :: "string \<Rightarrow> bool" where
  "short_segments key \<longleftrightarrow>
     (\<forall>s\<in>set (key_host key). length s \<le> max_bytes_per_label) \<and>
     (case key_path key of None \<Rightarrow> True | Some ps \<Rightarrow> \<forall>s\<in>set ps. length s \<le> max_bytes_per_label)"

definition enc :: "('u, 'z) vendor_scheme \<Rightarrow> string \<Rightarrow> string" where
  "enc V seg = CHR ''x'' # to_hex V seg"

lemma concat_segment_labels_short:
  assumes "hex_contract V" and "\<forall>s\<in>set ss. length s \<le> max_bytes_per_label"
  shows "concat (map (segment_labels V) ss) = map (enc V) ss"
  using assms(2) by (induction ss) (auto simp: segment_labels_short [OF assms(1)] enc_def)

lemma tree_labels_short:
  assumes "hex_contract V" and "short_segments key"
  shows "tree_labels V key = ''h'' # map (enc V) (key_host key) @
    (case key_path key of None \<Rightarrow> [] | Some ps \<Rightarrow> ''p'' # map (enc V) ps)"
  using assms
  by (auto simp: tree_labels_def short_segments_def concat_segment_labels_short split: option.splits)

lemma prefix_map_inj: "inj f \<Longrightarrow> prefix (map f xs) (map f ys) \<longleftrightarrow> prefix xs ys"
proof (induction xs arbitrary: ys)
  case (Cons x xs)
  then show ?case by (cases ys) (auto simp: inj_eq)
qed simp

lemma tree_covers_key:
  assumes hex: "hex_contract V" and s: "short_segments a" "short_segments b"
    and p: "prefix (tree_labels V a) (tree_labels V b)"
  shows "key_covers a b"
proof -
  have inj: "inj (enc V)" using hex by (auto simp: inj_def enc_def hex_contractD)
  have pn: "''p'' \<notin> set (map (enc V) xs)" for xs by (auto simp: enc_def)
  note t = p [unfolded tree_labels_short [OF hex s(1)] tree_labels_short [OF hex s(2)]]
  show ?thesis
  proof (cases "key_path a")
    case None
    have "prefix (map (enc V) (key_host a)) (map (enc V) (key_host b))"
      using t None prefix_before_sep [OF pn] by (auto split: option.splits)
    then show ?thesis using None by (simp add: key_covers_parts prefix_map_inj [OF inj])
  next
    case (Some xs)
    have "key_path b \<noteq> None"
    proof
      assume "key_path b = None"
      with t Some have "''p'' \<in> set (map (enc V) (key_host b))"
        by (auto simp: prefix_def append_eq_append_conv2 Cons_eq_append_conv) (metis append_is_Nil_conv in_set_conv_decomp pn)
      with pn show False by blast
    qed
    then obtain ys where ys: "key_path b = Some ys" by auto
    with t Some prefix_sep_iff [OF pn pn]
    have "map (enc V) (key_host a) = map (enc V) (key_host b)" "prefix (map (enc V) xs) (map (enc V) ys)"
      by auto
    then show ?thesis using Some ys
      by (simp add: key_covers_parts path_covers_def prefix_map_inj [OF inj] inj_map_eq_map [OF inj])
  qed
qed

text \<open>
  Nesting is exactly the ancestor order of the encodings when no segment exceeds 127 bytes.  A
  longer segment is cut into labels of its own, as if it were several segments: with a segment
  of 127 bytes, appending to it and nesting below it give the same encoding.
\<close>

lemma chunks_append:
  assumes "length s = max_bytes_per_label" and "t \<noteq> []"
  shows "chunks max_bytes_per_label (s @ t) = s # chunks max_bytes_per_label t"
  using assms by (subst chunks.simps) (simp add: max_bytes_per_label_def)

lemma segment_labels_append:
  assumes "length s = max_bytes_per_label" and "t \<noteq> []"
  shows "segment_labels V (s @ t) = segment_labels V s @ segment_labels V t"
proof -
  from assms(1) have "s \<noteq> []" by (auto simp: max_bytes_per_label_def)
  then show ?thesis using assms
    by (simp add: segment_labels_def chunks_append chunks_short)
qed

lemma tree_labels_path:
  assumes "CHR ''/'' \<notin> set h"
  shows "tree_labels V (h @ CHR ''/'' # p) =
    ''h'' # concat (map (segment_labels V) (split_on (CHR ''.'') h)) @
    ''p'' # concat (map (segment_labels V) (split_on (CHR ''/'') p))"
proof -
  have i: "index_of (CHR ''/'') (h @ CHR ''/'' # p) = Some (length h)"
    by (rule index_of_append_Cons [OF assms])
  then show ?thesis
    by (simp add: tree_labels_def key_host_def key_path_def index_of_takeWhile [OF i])
qed

lemma MakePrefixTree_collision:
  assumes "CHR ''/'' \<notin> set h" and "CHR ''/'' \<notin> set s" and "CHR ''/'' \<notin> set t"
    and "length s = max_bytes_per_label" and "t \<noteq> []"
  shows "MakePrefixTree V (h @ ''/'' @ s @ t) = MakePrefixTree V (h @ ''/'' @ s @ ''/'' @ t)"
  using assms
  by (simp add: MakePrefixTree_join tree_labels_path split_on_no_sep split_on_append_Cons
      segment_labels_append)

end
