(* ===== verification/Database.thy ===== *)
theory Database
  imports Prefix_Utils
begin

text \<open>
  The state the service shares between requests, and how its operations reach it:
  the Postgres tables of \<open>sql/schema/\<close>, the objects of the S3 bucket, the counters of
  \<open>src/metrics.cpp\<close>, and the environment (clocks, identifiers, faults).  \<open>include/database.hpp\<close>
  and \<open>src/postgres_db_component.hpp\<close> run a statement and turn a driver exception into a
  \<open>PgError\<close>.

  Every call to a database, to S3, to a clock or to the identifier generator takes the next
  index \<open>calls\<close>; what the environment does at that index is given by functions of the world
  that no operation changes.  So a fault may strike any call, before or after a statement took
  effect, and the clocks may show anything.  The shipped configurations name one host per
  database, so a read sees the tables that the writes change.
\<close>

section \<open>Tables\<close>

text \<open>Times are nanoseconds since the epoch, as in \<open>system_clock\<close>.\<close>

record capture_row =
  cap_id :: Uuid
  cap_created_at :: int
  cap_link :: string
  cap_replay_url :: string
  cap_prefix_key :: string
  cap_prefix_tree :: "string list"
  cap_content_sha256 :: string

record prefix_row =
  pr_prefix_key :: string
  pr_prefix_tree :: "string list"
  pr_created_at :: int
  pr_reason :: string

record SharedCrawlJobRow =
  job_uuid :: Uuid
  job_link :: string
  job_status :: string
  error_category :: "string option"
  error_message :: "string option"
  job_created_at :: int
  started_at :: "int option"
  finished_at :: "int option"
  result_created_at :: "int option"
  result_capture_id :: "Uuid option"

section \<open>The environment and the world\<close>

datatype fault = NoFault | FailBefore string | FailAfter string

datatype metrics_error =
  kDbCaptureMetaRead | kDbCaptureMetaWrite | kDbSharedStateRead | kDbSharedStateWrite
| kS3PutObject | kS3DeleteObject | kStsRefresh | kCrawlerRun | kAccessPolicyCheck

type_synonym counter = "64 word"

record CaptureCounters =
  jobs_created :: counter
  succeeded :: counter
  failed :: counter
  succeeded_duration_ms_sum :: counter
  failed_duration_ms_sum :: counter

record world =
  captures :: "capture_row list"
  crawl_jobs :: "SharedCrawlJobRow list"
  host_denylist :: "prefix_row list"
  host_allowlist :: "prefix_row list"
  objects :: "string \<Rightarrow> string option"
  capture_counters :: CaptureCounters
  error_counters :: "metrics_error \<Rightarrow> counter"
  browser_cgroups :: "string list"
  calls :: nat
  db_fault :: "nat \<Rightarrow> fault"
  s3_fault :: "nat \<Rightarrow> fault"
  cancel_requested :: "nat \<Rightarrow> bool"
  db_clock_us :: "nat \<Rightarrow> int"
  app_clock :: "nat \<Rightarrow> int"
  uuid_supply :: "nat \<Rightarrow> Uuid"

type_synonym 'a act = "world \<Rightarrow> 'a outcome \<times> world"
type_synonym PgError = string

section \<open>Sequencing\<close>

definition ret :: "'a \<Rightarrow> 'a act" where
  "ret v w = (Returns v, w)"

definition bind_act :: "'a act \<Rightarrow> ('a \<Rightarrow> 'b act) \<Rightarrow> 'b act" where
  "bind_act m k w =
     (case m w of (Returns v, w') \<Rightarrow> k v w' | (Throws e, w') \<Rightarrow> (Throws e, w')
      | (Aborts e, w') \<Rightarrow> (Aborts e, w'))"

definition of_outcome :: "'a outcome \<Rightarrow> 'a act" where
  "of_outcome r w = (r, w)"

definition modify :: "(world \<Rightarrow> world) \<Rightarrow> unit act" where
  "modify f w = (Returns (), f w)"

text \<open>\<open>TRY\<close> and \<open>TRY_ERR_AS\<close> around a call that changes the world.\<close>

definition try_act :: "('e + 'a) act \<Rightarrow> ('a \<Rightarrow> ('e + 'b) act) \<Rightarrow> ('e + 'b) act" where
  "try_act m k = bind_act m (\<lambda>r. case r of Inl e \<Rightarrow> ret (Inl e) | Inr v \<Rightarrow> k v)"

definition try_as :: "('e + 'a) act \<Rightarrow> 'f \<Rightarrow> ('a \<Rightarrow> ('f + 'b) act) \<Rightarrow> ('f + 'b) act" where
  "try_as m err k = bind_act m (\<lambda>r. case r of Inl _ \<Rightarrow> ret (Inl err) | Inr v \<Rightarrow> k v)"

definition tick :: "world \<Rightarrow> world" where
  "tick w = w\<lparr>calls := Suc (calls w)\<rparr>"

definition Now :: "int act" where
  "Now w = (Returns (app_clock w (calls w)), tick w)"

definition GenerateBoostUuid :: "Uuid act" where
  "GenerateBoostUuid w = (Returns (uuid_supply w (calls w)), tick w)"

text \<open>\<open>now()\<close> in a statement, in nanoseconds: Postgres keeps microseconds.\<close>

definition pg_now :: "world \<Rightarrow> int" where
  "pg_now w = 1000 * db_clock_us w (calls w)"

section \<open>Metrics\<close>

definition AccountError :: "metrics_error \<Rightarrow> world \<Rightarrow> world" where
  "AccountError which w =
     w\<lparr>error_counters := (error_counters w)(which := error_counters w which + 1)\<rparr>"

definition AccountCaptureJobCreated :: "world \<Rightarrow> world" where
  "AccountCaptureJobCreated w =
     w\<lparr>capture_counters := (capture_counters w)
        \<lparr>jobs_created := jobs_created (capture_counters w) + 1\<rparr>\<rparr>"

definition AccountCaptureCompleted :: "bool \<Rightarrow> int \<Rightarrow> world \<Rightarrow> world" where
  "AccountCaptureCompleted ok duration_ms w =
     (let c = capture_counters w in
      if ok then
        w\<lparr>capture_counters := c\<lparr>succeeded := succeeded c + 1,
            succeeded_duration_ms_sum := succeeded_duration_ms_sum c + word_of_int duration_ms\<rparr>\<rparr>
      else
        w\<lparr>capture_counters := c\<lparr>failed := failed c + 1,
            failed_duration_ms_sum := failed_duration_ms_sum c + word_of_int duration_ms\<rparr>\<rparr>)"

definition RegisterBrowserCgroup :: "string \<Rightarrow> world \<Rightarrow> world" where
  "RegisterBrowserCgroup cgroup_path w = w\<lparr>browser_cgroups := browser_cgroups w @ [cgroup_path]\<rparr>"

text \<open>\<open>std::ranges::find\<close> and \<open>erase\<close>: the first occurrence goes, if there is one.\<close>

definition UnregisterBrowserCgroup :: "string \<Rightarrow> world \<Rightarrow> world" where
  "UnregisterBrowserCgroup cgroup_path w =
     w\<lparr>browser_cgroups := remove1 cgroup_path (browser_cgroups w)\<rparr>"

text \<open>Integer division in C++ truncates towards zero.\<close>

definition Average :: "int \<Rightarrow> int \<Rightarrow> int" where
  "Average sum_total count =
     (if count = 0 then 0 else sgn sum_total * sgn count * (\<bar>sum_total\<bar> div \<bar>count\<bar>))"

section \<open>Running a statement\<close>

text \<open>
  A statement reads the tables, or gives the rows it returns and the new tables, or raises a
  constraint violation, which leaves the tables alone.  Decoding the rows comes after the
  statement took effect, so a decoding error (\<open>AsSingleRow\<close> on no row) does not undo it.
\<close>

definition RunReadonly :: "(world \<Rightarrow> 'a) \<Rightarrow> (PgError + 'a) act" where
  "RunReadonly query w =
     (case db_fault w (calls w) of
        NoFault \<Rightarrow> (Returns (Inr (query w)), tick w)
      | FailBefore m \<Rightarrow> (Returns (Inl m), tick w)
      | FailAfter m \<Rightarrow> (Returns (Inl m), tick w))"

definition RunReadwrite ::
    "('r \<Rightarrow> PgError + 'a) \<Rightarrow> (world \<Rightarrow> PgError + ('r \<times> world)) \<Rightarrow> (PgError + 'a) act" where
  "RunReadwrite decode stmt w =
     (case db_fault w (calls w) of
        FailBefore m \<Rightarrow> (Returns (Inl m), tick w)
      | NoFault \<Rightarrow> (case stmt w of
          Inl m \<Rightarrow> (Returns (Inl m), tick w)
        | Inr (rows, w') \<Rightarrow> (Returns (decode rows), tick w'))
      | FailAfter m \<Rightarrow> (case stmt w of
          Inl _ \<Rightarrow> (Returns (Inl m), tick w)
        | Inr (rows, w') \<Rightarrow> (Returns (Inl m), tick w')))"

text \<open>\<open>AsSingleRow\<close> raises unless there is exactly one row.\<close>

definition AsSingleRow :: "'r list \<Rightarrow> PgError + 'r" where
  "AsSingleRow rows = (case rows of [r] \<Rightarrow> Inr r | _ \<Rightarrow> Inl ''NonSingleRowResultSet'')"

section \<open>Laws of sequencing\<close>

lemma bind_act_simps [simp]:
  "m w = (Returns v, w') \<Longrightarrow> bind_act m k w = k v w'"
  "m w = (Throws e, w') \<Longrightarrow> bind_act m k w = (Throws e, w')"
  "m w = (Aborts e, w') \<Longrightarrow> bind_act m k w = (Aborts e, w')"
  by (simp_all add: bind_act_def)

lemma bind_act_ret [simp]: "bind_act (ret v) k = k v"
  by (rule ext) (simp add: bind_act_def ret_def)

lemma bind_act_Returns_iff:
  "bind_act m k w = (Returns v, w') \<longleftrightarrow>
     (\<exists>x w1. m w = (Returns x, w1) \<and> k x w1 = (Returns v, w'))"
  by (auto simp: bind_act_def split: prod.splits outcome.splits)

lemma bind_sum_Returns_iff:
  "bind_act m (\<lambda>r. case r of Inl e \<Rightarrow> f e | Inr v \<Rightarrow> g v) w = (Returns x, w') \<longleftrightarrow>
     (\<exists>e w1. m w = (Returns (Inl e), w1) \<and> f e w1 = (Returns x, w')) \<or>
     (\<exists>v w1. m w = (Returns (Inr v), w1) \<and> g v w1 = (Returns x, w'))"
  unfolding bind_act_Returns_iff by (auto split: sum.splits) (metis sum.exhaust)+

lemma bind_outcome_Returns_iff:
  "bind_act (of_outcome r) k w = (Returns x, w') \<longleftrightarrow> (\<exists>v. r = Returns v \<and> k v w = (Returns x, w'))"
  by (auto simp: bind_act_Returns_iff of_outcome_def)

lemma bind_modify [simp]: "bind_act (modify f) k w = k () (f w)"
  by (simp add: bind_act_def modify_def)

lemma try_act_simps:
  "m w = (Returns (Inr v), w') \<Longrightarrow> try_act m k w = k v w'"
  "m w = (Returns (Inl e), w') \<Longrightarrow> try_act m k w = (Returns (Inl e), w')"
  "m w = (Throws t, w') \<Longrightarrow> try_act m k w = (Throws t, w')"
  "m w = (Aborts t, w') \<Longrightarrow> try_act m k w = (Aborts t, w')"
  by (simp_all add: try_act_def bind_act_def ret_def)

lemma try_as_simps:
  "m w = (Returns (Inr v), w') \<Longrightarrow> try_as m err k w = k v w'"
  "m w = (Returns (Inl e), w') \<Longrightarrow> try_as m err k w = (Returns (Inl err), w')"
  "m w = (Throws t, w') \<Longrightarrow> try_as m err k w = (Throws t, w')"
  "m w = (Aborts t, w') \<Longrightarrow> try_as m err k w = (Aborts t, w')"
  by (simp_all add: try_as_def bind_act_def ret_def)

lemmas try_simps = try_act_simps try_as_simps

section \<open>Healthy calls\<close>

text \<open>A world in which no database call fails: what every later call sees is the same.\<close>

definition db_healthy :: "world \<Rightarrow> bool" where
  "db_healthy w \<longleftrightarrow> (\<forall>n. db_fault w n = NoFault)"

definition s3_healthy :: "world \<Rightarrow> bool" where
  "s3_healthy w \<longleftrightarrow> (\<forall>n. s3_fault w n = NoFault)"

lemma tick_simps [simp]:
  "captures (tick w) = captures w" "crawl_jobs (tick w) = crawl_jobs w"
  "host_denylist (tick w) = host_denylist w" "host_allowlist (tick w) = host_allowlist w"
  "objects (tick w) = objects w" "db_fault (tick w) = db_fault w" "s3_fault (tick w) = s3_fault w"
  "capture_counters (tick w) = capture_counters w" "error_counters (tick w) = error_counters w"
  "calls (tick w) = Suc (calls w)" "db_healthy (tick w) = db_healthy w"
  "s3_healthy (tick w) = s3_healthy w" "db_clock_us (tick w) = db_clock_us w"
  "app_clock (tick w) = app_clock w" "uuid_supply (tick w) = uuid_supply w"
  "cancel_requested (tick w) = cancel_requested w" "browser_cgroups (tick w) = browser_cgroups w"
  by (simp_all add: tick_def db_healthy_def s3_healthy_def)

lemma AccountError_simps [simp]:
  "captures (AccountError e w) = captures w" "crawl_jobs (AccountError e w) = crawl_jobs w"
  "host_denylist (AccountError e w) = host_denylist w"
  "host_allowlist (AccountError e w) = host_allowlist w" "objects (AccountError e w) = objects w"
  "db_healthy (AccountError e w) = db_healthy w" "s3_healthy (AccountError e w) = s3_healthy w"
  "calls (AccountError e w) = calls w" "db_fault (AccountError e w) = db_fault w"
  "s3_fault (AccountError e w) = s3_fault w" "db_clock_us (AccountError e w) = db_clock_us w"
  "app_clock (AccountError e w) = app_clock w" "uuid_supply (AccountError e w) = uuid_supply w"
  "cancel_requested (AccountError e w) = cancel_requested w"
  by (simp_all add: AccountError_def db_healthy_def s3_healthy_def)

lemma RunReadonly_healthy:
  "db_healthy w \<Longrightarrow> RunReadonly q w = (Returns (Inr (q w)), tick w)"
  by (simp add: RunReadonly_def db_healthy_def)

lemma RunReadwrite_healthy:
  "db_healthy w \<Longrightarrow> RunReadwrite dec stmt w =
     (case stmt w of Inl m \<Rightarrow> (Returns (Inl m), tick w)
      | Inr (rows, w') \<Rightarrow> (Returns (dec rows), tick w'))"
  by (simp add: RunReadwrite_def db_healthy_def)

text \<open>Whatever fails, a read leaves the tables alone, and a write leaves them or runs its statement.\<close>

lemma RunReadonly_cases:
  obtains e where "RunReadonly q w = (Returns (Inl e), tick w)"
  | "RunReadonly q w = (Returns (Inr (q w)), tick w)"
  by (cases "db_fault w (calls w)") (auto simp: RunReadonly_def)

lemma RunReadwrite_cases:
  obtains (nothing) e where "RunReadwrite dec stmt w = (Returns (Inl e), tick w)"
  | (unsure) e rows w' where "stmt w = Inr (rows, w')"
      "RunReadwrite dec stmt w = (Returns (Inl e), tick w')"
  | (applied) rows w' where "stmt w = Inr (rows, w')"
      "RunReadwrite dec stmt w = (Returns (dec rows), tick w')"
  by (cases "db_fault w (calls w)"; cases "stmt w") (auto simp: RunReadwrite_def)

section \<open>Guarantees\<close>

text \<open>
  What an operation may do to the world, as a relation between the world before and after,
  holds of a composed operation when it holds of every call it makes.  A relation of this kind
  is closed under the bookkeeping every call does.
\<close>

definition keeps :: "(world \<Rightarrow> world \<Rightarrow> bool) \<Rightarrow> 'a act \<Rightarrow> bool" where
  "keeps R m \<longleftrightarrow> (\<forall>w. R w (snd (m w)))"

lemma keepsI: "(\<And>w. R w (snd (m w))) \<Longrightarrow> keeps R m"
  by (simp add: keeps_def)

lemma keepsD: "keeps R m \<Longrightarrow> m w = (r, w') \<Longrightarrow> R w w'"
  by (metis keeps_def snd_conv)

locale guarantee =
  fixes R :: "world \<Rightarrow> world \<Rightarrow> bool"
  assumes refl: "R w w"
    and trans: "R a b \<Longrightarrow> R b c \<Longrightarrow> R a c"
    and ticks: "R w (tick w)"
    and accounts: "R w (AccountError e w)"
begin

lemma guar_ret: "keeps R (ret v)"
  by (simp add: keeps_def ret_def refl)

lemma guar_outcome: "keeps R (of_outcome r)"
  by (simp add: keeps_def of_outcome_def refl)

lemma guar_modify: "(\<And>w. R w (f w)) \<Longrightarrow> keeps R (modify f)"
  by (simp add: keeps_def modify_def)

lemma guar_account: "keeps R (modify (AccountError e))"
  by (rule guar_modify) (rule accounts)

lemma guar_now: "keeps R Now" "keeps R GenerateBoostUuid"
  by (simp_all add: keeps_def Now_def GenerateBoostUuid_def ticks)

lemma guar_bind:
  assumes "keeps R m" and "\<And>v. keeps R (k v)"
  shows "keeps R (bind_act m k)"
proof (rule keepsI)
  fix w
  obtain r w1 where m: "m w = (r, w1)" by fastforce
  then have 1: "R w w1" using assms(1) keepsD by blast
  show "R w (snd (bind_act m k w))"
  proof (cases r)
    case (Returns v)
    have "R w1 (snd (k v w1))" using assms(2) by (simp add: keeps_def)
    with 1 show ?thesis using m Returns trans by simp
  qed (use m 1 in simp_all)
qed

lemma guar_try:
  "keeps R m \<Longrightarrow> (\<And>v. keeps R (k v)) \<Longrightarrow> keeps R (try_act m k)"
  "keeps R m' \<Longrightarrow> (\<And>v. keeps R (k' v)) \<Longrightarrow> keeps R (try_as m' err k')"
  by (auto simp: try_act_def try_as_def intro!: guar_bind guar_ret split: sum.split)

lemma guar_readonly: "keeps R (RunReadonly q)"
proof (rule keepsI)
  fix w
  show "R w (snd (RunReadonly q w))"
    by (cases rule: RunReadonly_cases [of q w]) (simp_all add: ticks)
qed

lemma guar_readwrite:
  assumes "\<And>w rows w'. stmt w = Inr (rows, w') \<Longrightarrow> R w w'"
  shows "keeps R (RunReadwrite dec stmt)"
proof (rule keepsI)
  fix w
  show "R w (snd (RunReadwrite dec stmt w))"
    by (cases rule: RunReadwrite_cases [of dec stmt w]) (auto intro: ticks assms trans)
qed

lemmas guar_intros =
  guar_ret guar_outcome guar_account guar_now guar_bind guar_try guar_readonly guar_readwrite

end

text \<open>The environment never changes, and calls are only added.\<close>

definition same_env :: "world \<Rightarrow> world \<Rightarrow> bool" where
  "same_env a b \<longleftrightarrow>
     db_fault b = db_fault a \<and> s3_fault b = s3_fault a \<and> cancel_requested b = cancel_requested a \<and>
     db_clock_us b = db_clock_us a \<and> app_clock b = app_clock a \<and> uuid_supply b = uuid_supply a \<and>
     calls a \<le> calls b"

interpretation env: guarantee same_env
  by unfold_locales (auto simp: same_env_def)

end
