(* ===== verification/Shared_State_Repo.thy ===== *)
theory Shared_State_Repo
  imports Database
begin

text \<open>
  \<open>src/shared_state_repo.cpp\<close> with the statements of \<open>sql/query/\<close> it runs on the shared-state
  database: the deny and allow lists and the crawl jobs.  Each statement is a function on the
  world's tables; each repository operation runs it through \<open>RunReadonly\<close> or \<open>RunReadwrite\<close> and
  counts a failure.
\<close>

section \<open>Statements on the prefix lists\<close>

text \<open>\<open>check_denylist_tree.sql\<close> and \<open>check_allowlist_tree.sql\<close>: \<open>prefix_tree @> text2ltree($1)\<close>.\<close>

definition exists_ancestor :: "prefix_row list \<Rightarrow> string \<Rightarrow> bool" where
  "exists_ancestor rows tree \<longleftrightarrow>
     list_ex (\<lambda>r. ltree_ancestor (pr_prefix_tree r) (text2ltree tree)) rows"

definition sql_check_denylist_tree :: "string \<Rightarrow> world \<Rightarrow> bool" where
  "sql_check_denylist_tree tree w = exists_ancestor (host_denylist w) tree"

definition sql_check_allowlist_tree :: "string \<Rightarrow> world \<Rightarrow> bool" where
  "sql_check_allowlist_tree tree w = exists_ancestor (host_allowlist w) tree"

text \<open>
  \<open>insert_denylist_prefix.sql\<close> and \<open>insert_allowlist_prefix.sql\<close>: \<open>on conflict (prefix_key) do
  nothing\<close> covers the primary key only, so a second key with the same \<open>prefix_tree\<close> violates
  the unique constraint of the schema.
\<close>

definition insert_prefix_row ::
    "string \<Rightarrow> string \<Rightarrow> string \<Rightarrow> int \<Rightarrow> prefix_row list \<Rightarrow> PgError + prefix_row list" where
  "insert_prefix_row key tree reason now rows =
     (if list_ex (\<lambda>r. pr_prefix_key r = key) rows then Inr rows
      else if list_ex (\<lambda>r. pr_prefix_tree r = text2ltree tree) rows then Inl ''unique_violation''
      else Inr (rows @ [\<lparr>pr_prefix_key = key, pr_prefix_tree = text2ltree tree,
                         pr_created_at = now, pr_reason = reason\<rparr>]))"

definition sql_insert_denylist_prefix ::
    "string \<Rightarrow> string \<Rightarrow> string \<Rightarrow> world \<Rightarrow> PgError + (unit \<times> world)" where
  "sql_insert_denylist_prefix key tree reason w =
     TRY (insert_prefix_row key tree reason (pg_now w) (host_denylist w))
       (\<lambda>rows. Inr ((), w\<lparr>host_denylist := rows\<rparr>))"

definition sql_insert_allowlist_prefix ::
    "string \<Rightarrow> string \<Rightarrow> string \<Rightarrow> world \<Rightarrow> PgError + (unit \<times> world)" where
  "sql_insert_allowlist_prefix key tree reason w =
     TRY (insert_prefix_row key tree reason (pg_now w) (host_allowlist w))
       (\<lambda>rows. Inr ((), w\<lparr>host_allowlist := rows\<rparr>))"

definition sql_delete_allowlist_prefix :: "string \<Rightarrow> world \<Rightarrow> PgError + (unit \<times> world)" where
  "sql_delete_allowlist_prefix key w =
     Inr ((), w\<lparr>host_allowlist := filter (\<lambda>r. pr_prefix_key r \<noteq> key) (host_allowlist w)\<rparr>)"

section \<open>Statements on the crawl jobs\<close>

text \<open>\<open>insert_crawl_job.sql\<close>; the primary key is \<open>id\<close>.\<close>

definition pending_row :: "Uuid \<Rightarrow> string \<Rightarrow> int \<Rightarrow> SharedCrawlJobRow" where
  "pending_row jid link now =
     \<lparr>job_uuid = jid, job_link = link, job_status = ''pending'', error_category = None,
      error_message = None, job_created_at = now, started_at = None, finished_at = None,
      result_created_at = None, result_capture_id = None\<rparr>"

definition sql_insert_crawl_job ::
    "Uuid \<Rightarrow> string \<Rightarrow> world \<Rightarrow> PgError + (int list \<times> world)" where
  "sql_insert_crawl_job jid link w =
     (if list_ex (\<lambda>r. job_uuid r = jid) (crawl_jobs w) then Inl ''unique_violation''
      else Inr ([pg_now w], w\<lparr>crawl_jobs := crawl_jobs w @ [pending_row jid link (pg_now w)]\<rparr>))"

text \<open>An \<open>update ... where ... returning\<close>: the changed rows are returned.\<close>

definition update_rows ::
    "(SharedCrawlJobRow \<Rightarrow> bool) \<Rightarrow> (SharedCrawlJobRow \<Rightarrow> SharedCrawlJobRow) \<Rightarrow> world \<Rightarrow>
     SharedCrawlJobRow list \<times> world" where
  "update_rows cond upd w =
     (map upd (filter cond (crawl_jobs w)),
      w\<lparr>crawl_jobs := map (\<lambda>r. if cond r then upd r else r) (crawl_jobs w)\<rparr>)"

definition running_row :: "int \<Rightarrow> SharedCrawlJobRow \<Rightarrow> SharedCrawlJobRow" where
  "running_row now r = r\<lparr>job_status := ''running'', started_at := Some now,
     error_category := None, error_message := None, finished_at := None,
     result_created_at := None\<rparr>"

definition succeeded_row :: "int \<Rightarrow> int \<Rightarrow> Uuid \<Rightarrow> SharedCrawlJobRow \<Rightarrow> SharedCrawlJobRow" where
  "succeeded_row now created capture r = r\<lparr>job_status := ''succeeded'', finished_at := Some now,
     error_category := None, error_message := None, result_created_at := Some created,
     result_capture_id := Some capture\<rparr>"

definition failed_row ::
    "int \<Rightarrow> string \<Rightarrow> string \<Rightarrow> SharedCrawlJobRow \<Rightarrow> SharedCrawlJobRow" where
  "failed_row now category message r = r\<lparr>job_status := ''failed'',
     started_at := Some (case started_at r of None \<Rightarrow> now | Some t \<Rightarrow> t),
     finished_at := Some now, error_category := Some category, error_message := Some message\<rparr>"

definition sql_update_crawl_job_running ::
    "Uuid \<Rightarrow> world \<Rightarrow> PgError + (SharedCrawlJobRow list \<times> world)" where
  "sql_update_crawl_job_running jid w =
     Inr (update_rows (\<lambda>r. job_uuid r = jid \<and> job_status r = ''pending'') (running_row (pg_now w)) w)"

definition sql_update_crawl_job_succeeded ::
    "Uuid \<Rightarrow> int \<Rightarrow> Uuid \<Rightarrow> world \<Rightarrow> PgError + (SharedCrawlJobRow list \<times> world)" where
  "sql_update_crawl_job_succeeded jid created capture w =
     Inr (update_rows (\<lambda>r. job_uuid r = jid \<and> job_status r = ''running'')
            (succeeded_row (pg_now w) created capture) w)"

text \<open>The check constraint of the schema on \<open>error_category\<close>.\<close>

definition error_categories :: "string list" where
  "error_categories =
     [''size_limit'', ''crawler_failed'', ''s3_upload_failed'', ''db_insert_failed'',
      ''internal_server_error'']"

definition sql_update_crawl_job_failed ::
    "Uuid \<Rightarrow> string \<Rightarrow> string \<Rightarrow> world \<Rightarrow> PgError + (SharedCrawlJobRow list \<times> world)" where
  "sql_update_crawl_job_failed jid category message w =
     (let cond = (\<lambda>r. job_uuid r = jid \<and> (job_status r = ''pending'' \<or> job_status r = ''running''))
      in if list_ex cond (crawl_jobs w) \<and> category \<notin> set error_categories
         then Inl ''check_violation''
         else Inr (update_rows cond (failed_row (pg_now w) category message) w))"

text \<open>
  \<open>(extract(epoch from (finished_at - started_at)) * 1000)::bigint\<close>: the cast of a numeric
  rounds half away from zero; a null start gives a null, which \<open>int64_t\<close> cannot hold.
\<close>

definition round_ms :: "int \<Rightarrow> int" where
  "round_ms us = (if us \<ge> 0 then (us + 500) div 1000 else - ((- us + 500) div 1000))"

definition duration_of :: "SharedCrawlJobRow \<Rightarrow> PgError + int" where
  "duration_of r =
     (case (started_at r, finished_at r) of
        (Some s, Some f) \<Rightarrow> Inr (round_ms ((f - s) div 1000))
      | _ \<Rightarrow> Inl ''FieldValueIsNull'')"

definition decode_duration :: "SharedCrawlJobRow list \<Rightarrow> PgError + int" where
  "decode_duration rows = TRY (AsSingleRow rows) duration_of"

text \<open>
  The ordered reads.  \<open>latest_by\<close> picks the first row of \<open>order by created_at desc, id desc\<close>.
\<close>

definition newer_job :: "SharedCrawlJobRow \<Rightarrow> SharedCrawlJobRow \<Rightarrow> bool" where
  "newer_job a b \<longleftrightarrow> job_created_at a > job_created_at b \<or>
     (job_created_at a = job_created_at b \<and> job_uuid a \<ge> job_uuid b)"

fun latest_job :: "SharedCrawlJobRow list \<Rightarrow> SharedCrawlJobRow option" where
  "latest_job [] = None"
| "latest_job (r # rs) =
     (case latest_job rs of None \<Rightarrow> Some r | Some m \<Rightarrow> Some (if newer_job r m then r else m))"

definition sql_select_latest_crawl_job_by_link ::
    "string \<Rightarrow> world \<Rightarrow> SharedCrawlJobRow option" where
  "sql_select_latest_crawl_job_by_link link w =
     latest_job (filter (\<lambda>r. job_link r = link) (crawl_jobs w))"

definition sql_select_crawl_job :: "Uuid \<Rightarrow> world \<Rightarrow> SharedCrawlJobRow option" where
  "sql_select_crawl_job jid w = find (\<lambda>r. job_uuid r = jid) (crawl_jobs w)"

definition sql_delete_crawl_jobs_expired ::
    "int \<Rightarrow> world \<Rightarrow> PgError + (unit \<times> world)" where
  "sql_delete_crawl_jobs_expired cutoff w =
     Inr ((), w\<lparr>crawl_jobs := filter (\<lambda>r. \<not> job_created_at r < cutoff) (crawl_jobs w)\<rparr>)"

section \<open>The repository\<close>

definition count_failure :: "metrics_error \<Rightarrow> ('e + 'a) act \<Rightarrow> ('e + 'a) act" where
  "count_failure which m = bind_act m (\<lambda>out. case out of
      Inl e \<Rightarrow> bind_act (modify (AccountError which)) (\<lambda>_. ret (Inl e))
    | Inr v \<Rightarrow> ret (Inr v))"

definition Readonly :: "(world \<Rightarrow> 'a) \<Rightarrow> (PgError + 'a) act" where
  "Readonly q = count_failure kDbSharedStateRead (RunReadonly q)"

definition Readwrite ::
    "('r \<Rightarrow> PgError + 'a) \<Rightarrow> (world \<Rightarrow> PgError + ('r \<times> world)) \<Rightarrow> (PgError + 'a) act" where
  "Readwrite dec stmt = count_failure kDbSharedStateWrite (RunReadwrite dec stmt)"

definition CheckDenylistTree :: "string \<Rightarrow> (PgError + bool) act" where
  "CheckDenylistTree tree = Readonly (sql_check_denylist_tree tree)"

definition CheckAllowlistTree :: "string \<Rightarrow> (PgError + bool) act" where
  "CheckAllowlistTree tree = Readonly (sql_check_allowlist_tree tree)"

definition InsertDenylistPrefix :: "string \<Rightarrow> string \<Rightarrow> string \<Rightarrow> (PgError + unit) act" where
  "InsertDenylistPrefix key tree reason =
     Readwrite (\<lambda>_. Inr ()) (sql_insert_denylist_prefix key tree reason)"

definition Repo_InsertAllowlistPrefix :: "string \<Rightarrow> string \<Rightarrow> string \<Rightarrow> (PgError + unit) act" where
  "Repo_InsertAllowlistPrefix key tree reason =
     Readwrite (\<lambda>_. Inr ()) (sql_insert_allowlist_prefix key tree reason)"

definition DeleteAllowlistPrefix :: "string \<Rightarrow> (PgError + unit) act" where
  "DeleteAllowlistPrefix key = Readwrite (\<lambda>_. Inr ()) (sql_delete_allowlist_prefix key)"

definition InsertCrawlJob :: "Uuid \<Rightarrow> string \<Rightarrow> (PgError + int) act" where
  "InsertCrawlJob jid link = Readwrite AsSingleRow (sql_insert_crawl_job jid link)"

definition MarkCrawlJobRunning :: "Uuid \<Rightarrow> (PgError + unit) act" where
  "MarkCrawlJobRunning jid = Readwrite (\<lambda>_. Inr ()) (sql_update_crawl_job_running jid)"

definition MarkCrawlJobSucceeded :: "Uuid \<Rightarrow> Uuid \<Rightarrow> int \<Rightarrow> (PgError + int) act" where
  "MarkCrawlJobSucceeded jid result_capture created =
     Readwrite decode_duration (sql_update_crawl_job_succeeded jid created result_capture)"

definition MarkCrawlJobFailed :: "Uuid \<Rightarrow> string \<Rightarrow> string \<Rightarrow> (PgError + int) act" where
  "MarkCrawlJobFailed jid category message =
     Readwrite decode_duration (sql_update_crawl_job_failed jid category message)"

definition LoadCrawlJob :: "Uuid \<Rightarrow> (PgError + SharedCrawlJobRow option) act" where
  "LoadCrawlJob jid = Readonly (sql_select_crawl_job jid)"

definition FindLatestCrawlJobForLink :: "string \<Rightarrow> (PgError + SharedCrawlJobRow option) act" where
  "FindLatestCrawlJobForLink link = Readonly (sql_select_latest_crawl_job_by_link link)"

record MakeOrReuseCrawlJobResult =
  mr_job :: SharedCrawlJobRow
  mr_created :: bool

text \<open>
  \<open>MakeOrReuseCrawlJobLocked\<close> is one transaction, serialised per link by an advisory lock: a
  fault before it commits undoes it, one after it commits only loses the answer.  The job found
  first is the one the limit is checked on; the times are read inside the transaction.
\<close>

definition make_or_reuse_trx ::
    "string \<Rightarrow> int \<Rightarrow> world \<Rightarrow> PgError + (MakeOrReuseCrawlJobResult \<times> world)" where
  "make_or_reuse_trx link link_ratelimit w =
     (let latest = (if link_ratelimit > 0 then sql_select_latest_crawl_job_by_link link w else None);
          now = app_clock w (calls w);
          fresh = (let jid = uuid_supply w (calls w) in
            TRY (sql_insert_crawl_job jid link w) (\<lambda>(rows, w').
            TRY (AsSingleRow rows) (\<lambda>created.
              Inr (\<lparr>mr_job = pending_row jid link created, mr_created = True\<rparr>, w'))))
      in case latest of
           Some job \<Rightarrow>
             if now < job_created_at job + link_ratelimit
             then Inr (\<lparr>mr_job = job, mr_created = False\<rparr>, w) else fresh
         | None \<Rightarrow> fresh)"

definition MakeOrReuseCrawlJobLocked ::
    "string \<Rightarrow> int \<Rightarrow> (PgError + MakeOrReuseCrawlJobResult) act" where
  "MakeOrReuseCrawlJobLocked link link_ratelimit =
     Readwrite Inr (make_or_reuse_trx link link_ratelimit)"

definition DeleteCrawlJobsExpired :: "('u, 'z) vendor_scheme \<Rightarrow> int \<Rightarrow> (PgError + unit) act" where
  "DeleteCrawlJobsExpired V cutoff =
     Readwrite (\<lambda>_. Inr ()) (sql_delete_crawl_jobs_expired (to_pg_time V cutoff))"

section \<open>Life of a crawl job\<close>

text \<open>
  What a row of each status holds.  The constraint \<open>crawl_job_succeeded_result\<close> of the schema is
  part of it.
\<close>

definition job_row_ok :: "SharedCrawlJobRow \<Rightarrow> bool" where
  "job_row_ok r \<longleftrightarrow>
     (job_status r = ''pending'' \<and> started_at r = None \<and> finished_at r = None \<and>
        result_created_at r = None \<and> result_capture_id r = None \<and> error_category r = None) \<or>
     (job_status r = ''running'' \<and> started_at r \<noteq> None \<and> finished_at r = None \<and>
        result_created_at r = None \<and> result_capture_id r = None \<and> error_category r = None) \<or>
     (job_status r = ''succeeded'' \<and> started_at r \<noteq> None \<and> finished_at r \<noteq> None \<and>
        result_created_at r \<noteq> None \<and> result_capture_id r \<noteq> None \<and> error_category r = None) \<or>
     (job_status r = ''failed'' \<and> started_at r \<noteq> None \<and> finished_at r \<noteq> None \<and>
        result_created_at r = None \<and> result_capture_id r = None \<and>
        (\<exists>c\<in>set error_categories. error_category r = Some c))"

definition jobs_ok :: "SharedCrawlJobRow list \<Rightarrow> bool" where
  "jobs_ok js \<longleftrightarrow> distinct (map job_uuid js) \<and> list_all job_row_ok js"

text \<open>
  How one row may change: identity, link and creation time are fixed, and the status moves
  forward; a finished job does not change at all.
\<close>

inductive job_step :: "SharedCrawlJobRow \<Rightarrow> SharedCrawlJobRow \<Rightarrow> bool" where
  start: "job_status r = ''pending'' \<Longrightarrow> job_step r (running_row now r)"
| succeed: "job_status r = ''running'' \<Longrightarrow> job_step r (succeeded_row now created capture r)"
| fail: "job_status r = ''pending'' \<or> job_status r = ''running'' \<Longrightarrow>
    category \<in> set error_categories \<Longrightarrow> job_step r (failed_row now category message r)"

inductive_cases job_stepE: "job_step r r'"

abbreviation job_steps :: "SharedCrawlJobRow \<Rightarrow> SharedCrawlJobRow \<Rightarrow> bool" where
  "job_steps \<equiv> job_step\<^sup>*\<^sup>*"

definition terminal :: "SharedCrawlJobRow \<Rightarrow> bool" where
  "terminal r \<longleftrightarrow> job_status r = ''succeeded'' \<or> job_status r = ''failed''"

lemmas row_defs = running_row_def succeeded_row_def failed_row_def pending_row_def

lemma job_step_ok: "job_step r r' \<Longrightarrow> job_row_ok r \<Longrightarrow> job_row_ok r'"
  by (erule job_stepE) (auto simp: job_row_ok_def row_defs)

lemma job_step_fixed:
  "job_step r r' \<Longrightarrow> job_uuid r' = job_uuid r \<and> job_link r' = job_link r \<and>
     job_created_at r' = job_created_at r"
  by (erule job_stepE) (auto simp: row_defs)

lemma job_step_terminal: "terminal r \<Longrightarrow> \<not> job_step r r'"
  by (auto simp: terminal_def elim: job_stepE)

lemma job_steps_fixed:
  "job_steps r r' \<Longrightarrow> job_uuid r' = job_uuid r \<and> job_link r' = job_link r \<and>
     job_created_at r' = job_created_at r"
  by (induction rule: rtranclp_induct) (auto dest: job_step_fixed)

lemma job_steps_ok: "job_steps r r' \<Longrightarrow> job_row_ok r \<Longrightarrow> job_row_ok r'"
  by (induction rule: rtranclp_induct) (auto dest: job_step_ok)

lemma job_steps_terminal: "job_steps r r' \<Longrightarrow> terminal r \<Longrightarrow> r' = r"
  by (induction rule: converse_rtranclp_induct) (auto dest: job_step_terminal)

text \<open>
  How the table may change while jobs run: no row is lost, each evolves by steps, and the
  table stays well-formed.  Only the cleanup of expired rows removes any.
\<close>

definition find_job :: "Uuid \<Rightarrow> SharedCrawlJobRow list \<Rightarrow> SharedCrawlJobRow option" where
  "find_job u js = find (\<lambda>r. job_uuid r = u) js"

lemma find_job_simps [simp]:
  "find_job u [] = None"
  "find_job u (r # js) = (if job_uuid r = u then Some r else find_job u js)"
  by (simp_all add: find_job_def)

lemma find_job_append:
  "find_job u (xs @ ys) = (case find_job u xs of None \<Rightarrow> find_job u ys | Some r \<Rightarrow> Some r)"
  by (induction xs) auto

lemma find_job_None_iff: "find_job u js = None \<longleftrightarrow> u \<notin> job_uuid ` set js"
  by (induction js) auto

lemma find_job_Some_iff:
  "distinct (map job_uuid js) \<Longrightarrow> find_job u js = Some r \<longleftrightarrow> r \<in> set js \<and> job_uuid r = u"
  by (induction js) auto

definition jobs_keep :: "SharedCrawlJobRow list \<Rightarrow> SharedCrawlJobRow list \<Rightarrow> bool" where
  "jobs_keep a b \<longleftrightarrow> (jobs_ok a \<longrightarrow> jobs_ok b \<and>
     (\<forall>u r. find_job u a = Some r \<longrightarrow> (\<exists>r'. find_job u b = Some r' \<and> job_steps r r')))"

definition world_jobs_keep :: "world \<Rightarrow> world \<Rightarrow> bool" where
  "world_jobs_keep v w \<longleftrightarrow> jobs_keep (crawl_jobs v) (crawl_jobs w)"

lemma jobs_keep_refl: "jobs_keep a a"
  by (auto simp: jobs_keep_def)

lemma jobs_keep_trans:
  assumes "jobs_keep a b" and "jobs_keep b c"
  shows "jobs_keep a c"
  using assms unfolding jobs_keep_def by (meson rtranclp_trans)

interpretation job_life: guarantee world_jobs_keep
  by unfold_locales (auto simp: world_jobs_keep_def jobs_keep_refl intro: jobs_keep_trans)

lemma find_job_map:
  "(\<And>r. job_uuid (g r) = job_uuid r) \<Longrightarrow> find_job u (map g js) = map_option g (find_job u js)"
  by (induction js) auto

lemma map_rows_keep:
  assumes "\<And>r. job_steps r (g r)"
  shows "jobs_keep js (map g js)"
proof -
  have uu: "job_uuid (g r) = job_uuid r" for r using job_steps_fixed [OF assms] by blast
  have "map job_uuid (map g js) = map job_uuid js" by (simp add: uu)
  then have "jobs_ok (map g js)" if "jobs_ok js"
    using that job_steps_ok [OF assms] by (auto simp: jobs_ok_def list_all_iff uu comp_def)
  then show ?thesis unfolding jobs_keep_def find_job_map [OF uu] using assms by auto
qed

lemma update_rows_keep:
  assumes "\<And>r. cond r \<Longrightarrow> job_step r (upd r)"
  shows "jobs_keep js (map (\<lambda>r. if cond r then upd r else r) js)"
  by (rule map_rows_keep) (use assms in auto)

lemma insert_job_keep:
  assumes "\<not> list_ex (\<lambda>r. job_uuid r = jid) js"
  shows "jobs_keep js (js @ [pending_row jid link now])"
  using assms
  by (auto simp: jobs_keep_def jobs_ok_def list_ex_iff find_job_append job_row_ok_def pending_row_def)

lemma sql_jobs_keep:
  "sql_insert_crawl_job jid link w = Inr (rows1, w') \<Longrightarrow> world_jobs_keep w w'"
  "sql_update_crawl_job_running jid w = Inr (rows2, w') \<Longrightarrow> world_jobs_keep w w'"
  "sql_update_crawl_job_succeeded jid created capture w = Inr (rows2, w') \<Longrightarrow> world_jobs_keep w w'"
  "sql_update_crawl_job_failed jid category message w = Inr (rows2, w') \<Longrightarrow> world_jobs_keep w w'"
proof -
  show "sql_insert_crawl_job jid link w = Inr (rows1, w') \<Longrightarrow> world_jobs_keep w w'"
    by (auto simp: sql_insert_crawl_job_def world_jobs_keep_def insert_job_keep split: if_splits)
  show "sql_update_crawl_job_running jid w = Inr (rows2, w') \<Longrightarrow> world_jobs_keep w w'"
    by (auto simp: sql_update_crawl_job_running_def update_rows_def world_jobs_keep_def
        intro!: update_rows_keep job_step.start)
  show "sql_update_crawl_job_succeeded jid created capture w = Inr (rows2, w') \<Longrightarrow> world_jobs_keep w w'"
    by (auto simp: sql_update_crawl_job_succeeded_def update_rows_def world_jobs_keep_def
        intro!: update_rows_keep job_step.succeed)
  assume a: "sql_update_crawl_job_failed jid category message w = Inr (rows2, w')"
  let ?c = "\<lambda>r. job_uuid r = jid \<and> (job_status r = ''pending'' \<or> job_status r = ''running'')"
  from a have w': "crawl_jobs w' =
      map (\<lambda>r. if ?c r then failed_row (pg_now w) category message r else r) (crawl_jobs w)"
    by (auto simp: sql_update_crawl_job_failed_def update_rows_def Let_def split: if_splits)
  show "world_jobs_keep w w'"
  proof (cases "list_ex ?c (crawl_jobs w)")
    case True
    with a have "category \<in> set error_categories"
      by (auto simp: sql_update_crawl_job_failed_def Let_def split: if_splits)
    then show ?thesis unfolding world_jobs_keep_def w'
      by (intro update_rows_keep job_step.fail) auto
  next
    case False
    then have "crawl_jobs w' = crawl_jobs w" unfolding w' list_ex_iff by (intro map_idI) auto
    then show ?thesis by (simp add: world_jobs_keep_def jobs_keep_refl)
  qed
qed

lemma make_or_reuse_keep:
  "make_or_reuse_trx link limit w = Inr (res, w') \<Longrightarrow> world_jobs_keep w w'"
  by (auto simp: make_or_reuse_trx_def Let_def TRY_Inr_iff job_life.refl
      split: option.splits if_splits dest!: sql_jobs_keep(1))

lemma count_failure_keeps:
  assumes "guarantee R" and "keeps R m"
  shows "keeps R (count_failure which m)"
  unfolding count_failure_def
  by (auto intro!: guarantee.guar_bind [OF assms(1)] guarantee.guar_ret [OF assms(1)]
      guarantee.guar_account [OF assms(1)] assms(2) split: sum.split)

lemma repo_jobs_keep:
  "keeps world_jobs_keep (InsertCrawlJob jid link)"
  "keeps world_jobs_keep (MarkCrawlJobRunning jid)"
  "keeps world_jobs_keep (MarkCrawlJobSucceeded jid capture created)"
  "keeps world_jobs_keep (MarkCrawlJobFailed jid category message)"
  "keeps world_jobs_keep (MakeOrReuseCrawlJobLocked link limit)"
  unfolding InsertCrawlJob_def MarkCrawlJobRunning_def MarkCrawlJobSucceeded_def
    MarkCrawlJobFailed_def MakeOrReuseCrawlJobLocked_def Readwrite_def
  by (auto intro!: count_failure_keeps job_life.guarantee_axioms job_life.guar_readwrite
      dest: sql_jobs_keep make_or_reuse_keep)

end
