(* ===== verification/Access_Policy.thy ===== *)
theory Access_Policy
  imports Shared_State_Repo
begin

text \<open>
  \<open>src/access_policy.cpp\<close>: which link prefixes may be captured.  A prefix list is a table with
  a check and an insert; the locale \<open>prefix_store\<close> states what both promise and what follows for
  the keys covered by an inserted key, and is interpreted on the deny list and the allow list.
\<close>

datatype AccessPolicyError = AccessDbError

datatype AccessPolicyMode = kRegular | kAllowlistOnly

datatype AccessDecisionReason = kAllowed | kDenylisted | kNotAllowlisted | kNonHttps

record AccessDecision =
  allowed :: bool
  reason :: AccessDecisionReason

fun AccessDecisionMessage :: "AccessDecisionReason \<Rightarrow> string" where
  "AccessDecisionMessage kAllowed = ''allowed''"
| "AccessDecisionMessage kDenylisted = ''link prefix in denylist''"
| "AccessDecisionMessage kNotAllowlisted = ''link not in allowlist''"
| "AccessDecisionMessage kNonHttps = ''non-HTTPS fetch blocked''"

definition IsDeniedPrefix ::
    "('u, 'z) vendor_scheme \<Rightarrow> string \<Rightarrow> (AccessPolicyError + bool) act" where
  "IsDeniedPrefix V prefix_key =
     try_as (CheckDenylistTree (MakePrefixTree V prefix_key)) AccessDbError (\<lambda>b. ret (Inr b))"

definition IsAllowedPrefix ::
    "('u, 'z) vendor_scheme \<Rightarrow> string \<Rightarrow> (AccessPolicyError + bool) act" where
  "IsAllowedPrefix V prefix_key =
     try_act (IsDeniedPrefix V prefix_key) (\<lambda>denied. ret (Inr (\<not> denied)))"

definition IsAllowlistedPrefix ::
    "('u, 'z) vendor_scheme \<Rightarrow> string \<Rightarrow> (AccessPolicyError + bool) act" where
  "IsAllowlistedPrefix V prefix_key =
     try_as (CheckAllowlistTree (MakePrefixTree V prefix_key)) AccessDbError (\<lambda>b. ret (Inr b))"

definition EvaluatePrefix ::
    "('u, 'z) vendor_scheme \<Rightarrow> string \<Rightarrow> AccessPolicyMode \<Rightarrow>
     (AccessPolicyError + AccessDecision) act" where
  "EvaluatePrefix V prefix_key mode =
     (if mode = kRegular then
        try_act (IsAllowlistedPrefix V prefix_key) (\<lambda>allowlisted.
          if allowlisted then ret (Inr \<lparr>allowed = True, reason = kAllowed\<rparr>)
          else try_act (IsDeniedPrefix V prefix_key) (\<lambda>denied.
            if denied then ret (Inr \<lparr>allowed = False, reason = kDenylisted\<rparr>)
            else ret (Inr \<lparr>allowed = True, reason = kAllowed\<rparr>)))
      else
        try_act (IsDeniedPrefix V prefix_key) (\<lambda>denied.
          if denied then ret (Inr \<lparr>allowed = False, reason = kDenylisted\<rparr>)
          else try_act (IsAllowlistedPrefix V prefix_key) (\<lambda>allowlisted.
            if \<not> allowlisted then ret (Inr \<lparr>allowed = False, reason = kNotAllowlisted\<rparr>)
            else ret (Inr \<lparr>allowed = True, reason = kAllowed\<rparr>))))"

definition InsertPrefix ::
    "('u, 'z) vendor_scheme \<Rightarrow> string \<Rightarrow> string \<Rightarrow> (AccessPolicyError + unit) act" where
  "InsertPrefix V prefix_key why =
     bind_act (InsertDenylistPrefix prefix_key (MakePrefixTree V prefix_key) why)
       (\<lambda>inserted. case inserted of
          Inl _ \<Rightarrow> of_outcome (Aborts ''denylist insert failed'')
        | Inr _ \<Rightarrow> ret (Inr ()))"

definition InsertAllowlistPrefix ::
    "('u, 'z) vendor_scheme \<Rightarrow> string \<Rightarrow> string \<Rightarrow> (AccessPolicyError + unit) act" where
  "InsertAllowlistPrefix V prefix_key why =
     bind_act (Repo_InsertAllowlistPrefix prefix_key (MakePrefixTree V prefix_key) why)
       (\<lambda>inserted. case inserted of Inl _ \<Rightarrow> ret (Inl AccessDbError) | Inr _ \<Rightarrow> ret (Inr ()))"

definition RemoveAllowlistPrefix :: "string \<Rightarrow> (AccessPolicyError + unit) act" where
  "RemoveAllowlistPrefix prefix_key =
     bind_act (DeleteAllowlistPrefix prefix_key)
       (\<lambda>removed. case removed of Inl _ \<Rightarrow> ret (Inl AccessDbError) | Inr _ \<Rightarrow> ret (Inr ()))"

section \<open>Prefix stores\<close>

text \<open>
  Every row of a list carries the encoding of its key, and both keys and encodings are unique.
\<close>

definition prefix_rows_ok :: "('u, 'z) vendor_scheme \<Rightarrow> prefix_row list \<Rightarrow> bool" where
  "prefix_rows_ok V rows \<longleftrightarrow>
     distinct (map pr_prefix_key rows) \<and> distinct (map pr_prefix_tree rows) \<and>
     (\<forall>r\<in>set rows. pr_prefix_tree r = text2ltree (MakePrefixTree V (pr_prefix_key r)))"

definition keys_of :: "prefix_row list \<Rightarrow> string set" where
  "keys_of rows = pr_prefix_key ` set rows"

definition covered :: "prefix_row list \<Rightarrow> string \<Rightarrow> bool" where
  "covered rows key \<longleftrightarrow> (\<exists>k\<in>keys_of rows. key_covers k key)"

lemma exists_ancestor_iff:
  assumes "prefix_rows_ok V rows"
  shows "exists_ancestor rows (MakePrefixTree V key) \<longleftrightarrow>
    (\<exists>k\<in>keys_of rows. ltree_ancestor (text2ltree (MakePrefixTree V k))
       (text2ltree (MakePrefixTree V key)))"
  using assms by (auto simp: exists_ancestor_def list_ex_iff prefix_rows_ok_def keys_of_def)

text \<open>A covered key is always found; with segments of at most 127 bytes nothing else is.\<close>

lemma covered_exists_ancestor:
  assumes "hex_contract V" and "prefix_rows_ok V rows" and "covered rows key"
  shows "exists_ancestor rows (MakePrefixTree V key)"
proof -
  from assms(3) obtain k where "k \<in> keys_of rows" "key_covers k key" by (auto simp: covered_def)
  then show ?thesis unfolding exists_ancestor_iff [OF assms(2)]
    using key_covers_tree by (auto simp: ltree_ancestor_def text2ltree_MakePrefixTree [OF assms(1)])
qed

lemma exists_ancestor_covered:
  assumes "hex_contract V" and "prefix_rows_ok V rows"
    and "short_segments key" and "\<forall>k\<in>keys_of rows. short_segments k"
  shows "exists_ancestor rows (MakePrefixTree V key) \<longleftrightarrow> covered rows key"
proof
  assume "exists_ancestor rows (MakePrefixTree V key)"
  then obtain k where "k \<in> keys_of rows" "prefix (tree_labels V k) (tree_labels V key)"
    unfolding exists_ancestor_iff [OF assms(2)]
    by (auto simp: ltree_ancestor_def text2ltree_MakePrefixTree [OF assms(1)])
  then show "covered rows key"
    using tree_covers_key [OF assms(1)] assms(3,4) by (auto simp: covered_def)
qed (rule covered_exists_ancestor [OF assms(1,2)])

locale prefix_store =
  fixes V :: "('u, 'z) vendor_scheme"
    and rows :: "world \<Rightarrow> prefix_row list"
    and check :: "string \<Rightarrow> (PgError + bool) act"
    and insert :: "string \<Rightarrow> string \<Rightarrow> string \<Rightarrow> (PgError + unit) act"
  assumes check_answer:
      "check t w = (Returns (Inr b), w') \<Longrightarrow> b = exists_ancestor (rows w) t"
    and check_keeps: "check t w = (r, w') \<Longrightarrow> rows w' = rows w"
    and check_returns: "db_healthy w \<Longrightarrow> \<exists>b w'. check t w = (Returns (Inr b), w')"
    and insert_present:
      "insert k t why w = (Returns (Inr ()), w') \<Longrightarrow> k \<in> keys_of (rows w')"
    and insert_keeps: "insert k t why w = (ri, w') \<Longrightarrow> set (rows w) \<subseteq> set (rows w')"
    and insert_ok:
      "insert k (MakePrefixTree V k) why w = (ri, w') \<Longrightarrow> prefix_rows_ok V (rows w) \<Longrightarrow>
         prefix_rows_ok V (rows w')"
begin

text \<open>After a successful insert every covered key is found, now and while no row is removed.\<close>

lemma check_after_insert:
  assumes "hex_contract V" and "prefix_rows_ok V (rows w)"
    and ins: "insert k (MakePrefixTree V k) why w = (Returns (Inr ()), w1)"
    and later: "prefix_rows_ok V (rows w2)" "set (rows w1) \<subseteq> set (rows w2)"
    and cov: "key_covers k key" and chk: "check (MakePrefixTree V key) w2 = (Returns (Inr b), w3)"
  shows b
proof -
  from insert_present [OF ins] later(2) have "k \<in> keys_of (rows w2)" by (auto simp: keys_of_def)
  with cov have "covered (rows w2) key" by (auto simp: covered_def)
  with check_answer [OF chk] covered_exists_ancestor [OF assms(1) later(1)] show b by simp
qed

lemma check_exact:
  assumes "hex_contract V" and "prefix_rows_ok V (rows w)" and "db_healthy w"
    and "short_segments key" and "\<forall>k\<in>keys_of (rows w). short_segments k"
  shows "\<exists>w'. check (MakePrefixTree V key) w = (Returns (Inr (covered (rows w) key)), w')"
proof -
  obtain b w' where c: "check (MakePrefixTree V key) w = (Returns (Inr b), w')"
    using check_returns [OF assms(3)] by blast
  with check_answer [OF c] exists_ancestor_covered [OF assms(1,2,4,5)] show ?thesis by auto
qed

end

section \<open>The two lists are prefix stores\<close>

lemma count_failure_Inr_iff:
  "count_failure which m w = (Returns (Inr v), w') \<longleftrightarrow> m w = (Returns (Inr v), w')"
  by (cases "m w"; cases "fst (m w)")
    (auto simp: count_failure_def bind_act_def ret_def modify_def split: sum.splits)

lemma count_failure_snd:
  "count_failure which m w = (r, w') \<Longrightarrow>
     w' = snd (m w) \<or> w' = AccountError which (snd (m w))"
  by (cases "m w"; cases "fst (m w)")
    (auto simp: count_failure_def bind_act_def ret_def modify_def split: sum.splits)

lemma Readonly_answer:
  assumes "Readonly q w = (Returns (Inr b), w')" shows "b = q w"
  using assms unfolding Readonly_def count_failure_Inr_iff
  by (cases rule: RunReadonly_cases [of q w]) auto

lemma Readonly_world:
  assumes "Readonly q w = (r, w')"
  shows "w' = tick w \<or> w' = AccountError kDbSharedStateRead (tick w)"
  using count_failure_snd [OF assms [unfolded Readonly_def]]
  by (cases rule: RunReadonly_cases [of q w]) auto

lemma Readonly_healthy: "db_healthy w \<Longrightarrow> Readonly q w = (Returns (Inr (q w)), tick w)"
  by (simp add: Readonly_def count_failure_Inr_iff RunReadonly_healthy)

lemma Readwrite_world:
  assumes "Readwrite dec stmt w = (r, w')"
  obtains w1 where "w1 = w \<or> (\<exists>out. stmt w = Inr (out, w1))"
    "w' = tick w1 \<or> w' = AccountError kDbSharedStateWrite (tick w1)"
  using count_failure_snd [OF assms [unfolded Readwrite_def]]
  by (cases rule: RunReadwrite_cases [of dec stmt w]) auto

lemma Readwrite_Inr:
  assumes "Readwrite dec stmt w = (Returns (Inr v), w')"
  obtains out w1 where "stmt w = Inr (out, w1)" "dec out = Inr v" "w' = tick w1"
  using assms unfolding Readwrite_def count_failure_Inr_iff
  by (cases rule: RunReadwrite_cases [of dec stmt w]) auto

lemma insert_prefix_row_Inr:
  assumes "insert_prefix_row key tree why now rows = Inr rows'"
  shows "set rows \<subseteq> set rows' \<and> key \<in> keys_of rows'"
  using assms by (auto simp: insert_prefix_row_def keys_of_def list_ex_iff split: if_splits)

lemma insert_prefix_row_ok:
  assumes "insert_prefix_row key (MakePrefixTree V key) why now rows = Inr rows'"
    and "prefix_rows_ok V rows"
  shows "prefix_rows_ok V rows'"
proof -
  let ?t = "text2ltree (MakePrefixTree V key)"
  consider "list_ex (\<lambda>r. pr_prefix_key r = key) rows"
    | "\<not> list_ex (\<lambda>r. pr_prefix_key r = key) rows" "list_ex (\<lambda>r. pr_prefix_tree r = ?t) rows"
    | "\<not> list_ex (\<lambda>r. pr_prefix_key r = key) rows" "\<not> list_ex (\<lambda>r. pr_prefix_tree r = ?t) rows"
    by blast
  then show ?thesis
  proof cases
    case 3
    then have "key \<notin> pr_prefix_key ` set rows" "?t \<notin> pr_prefix_tree ` set rows"
      by (auto simp: list_ex_iff)
    moreover have "rows' = rows @ [\<lparr>pr_prefix_key = key, pr_prefix_tree = ?t,
         pr_created_at = now, pr_reason = why\<rparr>]"
      using assms(1) 3 by (simp add: insert_prefix_row_def)
    ultimately show ?thesis using assms(2) by (simp add: prefix_rows_ok_def)
  qed (use assms in \<open>simp_all add: insert_prefix_row_def\<close>)
qed

interpretation deny: prefix_store V host_denylist CheckDenylistTree InsertDenylistPrefix for V
proof
  fix t k why w w' and b :: bool
  show "CheckDenylistTree t w = (Returns (Inr b), w') \<Longrightarrow> b = exists_ancestor (host_denylist w) t"
    by (auto simp: CheckDenylistTree_def sql_check_denylist_tree_def dest: Readonly_answer)
  show "CheckDenylistTree t w = (r, w') \<Longrightarrow> host_denylist w' = host_denylist w" for r
    by (auto simp: CheckDenylistTree_def dest: Readonly_world)
  show "db_healthy w \<Longrightarrow> \<exists>b w'. CheckDenylistTree t w = (Returns (Inr b), w')"
    by (simp add: CheckDenylistTree_def Readonly_healthy)
  show "InsertDenylistPrefix k t why w = (Returns (Inr ()), w') \<Longrightarrow> k \<in> keys_of (host_denylist w')"
    by (auto simp: InsertDenylistPrefix_def sql_insert_denylist_prefix_def TRY_Inr_iff
        dest!: insert_prefix_row_Inr elim!: Readwrite_Inr)
  show "InsertDenylistPrefix k t why w = (r, w') \<Longrightarrow> set (host_denylist w) \<subseteq> set (host_denylist w')"
    for r
    by (auto simp: InsertDenylistPrefix_def sql_insert_denylist_prefix_def TRY_Inr_iff
        dest!: insert_prefix_row_Inr elim!: Readwrite_world) (meson subsetD)+
  show "InsertDenylistPrefix k (MakePrefixTree V k) why w = (r, w') \<Longrightarrow>
      prefix_rows_ok V (host_denylist w) \<Longrightarrow> prefix_rows_ok V (host_denylist w')" for r
    by (auto simp: InsertDenylistPrefix_def sql_insert_denylist_prefix_def TRY_Inr_iff
        elim!: Readwrite_world) (metis insert_prefix_row_ok)+
qed

interpretation allow: prefix_store V host_allowlist CheckAllowlistTree Repo_InsertAllowlistPrefix for V
proof
  fix t k why w w' and b :: bool
  show "CheckAllowlistTree t w = (Returns (Inr b), w') \<Longrightarrow> b = exists_ancestor (host_allowlist w) t"
    by (auto simp: CheckAllowlistTree_def sql_check_allowlist_tree_def dest: Readonly_answer)
  show "CheckAllowlistTree t w = (r, w') \<Longrightarrow> host_allowlist w' = host_allowlist w" for r
    by (auto simp: CheckAllowlistTree_def dest: Readonly_world)
  show "db_healthy w \<Longrightarrow> \<exists>b w'. CheckAllowlistTree t w = (Returns (Inr b), w')"
    by (simp add: CheckAllowlistTree_def Readonly_healthy)
  show "Repo_InsertAllowlistPrefix k t why w = (Returns (Inr ()), w') \<Longrightarrow>
      k \<in> keys_of (host_allowlist w')"
    by (auto simp: Repo_InsertAllowlistPrefix_def sql_insert_allowlist_prefix_def TRY_Inr_iff
        dest!: insert_prefix_row_Inr elim!: Readwrite_Inr)
  show "Repo_InsertAllowlistPrefix k t why w = (r, w') \<Longrightarrow>
      set (host_allowlist w) \<subseteq> set (host_allowlist w')" for r
    by (auto simp: Repo_InsertAllowlistPrefix_def sql_insert_allowlist_prefix_def TRY_Inr_iff
        dest!: insert_prefix_row_Inr elim!: Readwrite_world) (meson subsetD)+
  show "Repo_InsertAllowlistPrefix k (MakePrefixTree V k) why w = (r, w') \<Longrightarrow>
      prefix_rows_ok V (host_allowlist w) \<Longrightarrow> prefix_rows_ok V (host_allowlist w')" for r
    by (auto simp: Repo_InsertAllowlistPrefix_def sql_insert_allowlist_prefix_def TRY_Inr_iff
        elim!: Readwrite_world) (metis insert_prefix_row_ok)+
qed

section \<open>The policy store\<close>

lemma IsDeniedPrefix_iff:
  "IsDeniedPrefix V key w = (Returns (Inr b), w') \<longleftrightarrow>
     CheckDenylistTree (MakePrefixTree V key) w = (Returns (Inr b), w')"
  by (auto simp: IsDeniedPrefix_def try_as_def bind_act_def ret_def split: prod.splits outcome.splits
      sum.splits)

lemma IsAllowlistedPrefix_iff:
  "IsAllowlistedPrefix V key w = (Returns (Inr b), w') \<longleftrightarrow>
     CheckAllowlistTree (MakePrefixTree V key) w = (Returns (Inr b), w')"
  by (auto simp: IsAllowlistedPrefix_def try_as_def bind_act_def ret_def split: prod.splits
      outcome.splits sum.splits)

lemma IsDeniedPrefix_healthy:
  "db_healthy w \<Longrightarrow> IsDeniedPrefix V key w =
     (Returns (Inr (exists_ancestor (host_denylist w) (MakePrefixTree V key))), tick w)"
  by (simp add: IsDeniedPrefix_iff CheckDenylistTree_def Readonly_healthy sql_check_denylist_tree_def)

lemma IsAllowlistedPrefix_healthy:
  "db_healthy w \<Longrightarrow> IsAllowlistedPrefix V key w =
     (Returns (Inr (exists_ancestor (host_allowlist w) (MakePrefixTree V key))), tick w)"
  by (simp add: IsAllowlistedPrefix_iff CheckAllowlistTree_def Readonly_healthy
      sql_check_allowlist_tree_def)

text \<open>
  The decision as a function of the two lists: in regular mode the allow list wins, in
  allow-list-only mode the deny list wins and a link on neither list is refused.
\<close>

fun decide :: "AccessPolicyMode \<Rightarrow> bool \<Rightarrow> bool \<Rightarrow> AccessDecision" where
  "decide kRegular denied allowlisted =
     (if allowlisted \<or> \<not> denied then \<lparr>allowed = True, reason = kAllowed\<rparr>
      else \<lparr>allowed = False, reason = kDenylisted\<rparr>)"
| "decide kAllowlistOnly denied allowlisted =
     (if denied then \<lparr>allowed = False, reason = kDenylisted\<rparr>
      else if allowlisted then \<lparr>allowed = True, reason = kAllowed\<rparr>
      else \<lparr>allowed = False, reason = kNotAllowlisted\<rparr>)"

lemma EvaluatePrefix_healthy:
  assumes "db_healthy w"
  shows "fst (EvaluatePrefix V key mode w) =
    Returns (Inr (decide mode (exists_ancestor (host_denylist w) (MakePrefixTree V key))
                              (exists_ancestor (host_allowlist w) (MakePrefixTree V key))))"
  using assms IsDeniedPrefix_healthy [of w V key] IsAllowlistedPrefix_healthy [of w V key]
    IsDeniedPrefix_healthy [of "tick w" V key] IsAllowlistedPrefix_healthy [of "tick w" V key]
  by (cases mode) (simp_all add: EvaluatePrefix_def try_act_def bind_act_def ret_def)

text \<open>Every answer the store gives, faults or not, is this decision.\<close>

lemma try_act_Inr:
  assumes "try_act m k w = (Returns (Inr v), w')"
  obtains x w1 where "m w = (Returns (Inr x), w1)" "k x w1 = (Returns (Inr v), w')"
  using assms by (auto simp: try_act_def bind_act_def ret_def split: prod.splits outcome.splits
      sum.splits)

lemma IsDeniedPrefix_keeps_lists:
  assumes "IsDeniedPrefix V key w = (r, w')"
  shows "host_denylist w' = host_denylist w" "host_allowlist w' = host_allowlist w"
proof -
  obtain r1 w1 where c: "CheckDenylistTree (MakePrefixTree V key) w = (r1, w1)" by fastforce
  then have "w' = w1" using assms
    by (auto simp: IsDeniedPrefix_def try_as_def bind_act_def ret_def split: outcome.splits sum.splits)
  with Readonly_world [OF c [unfolded CheckDenylistTree_def]]
  show "host_denylist w' = host_denylist w" "host_allowlist w' = host_allowlist w" by auto
qed

lemma IsAllowlistedPrefix_keeps_lists:
  assumes "IsAllowlistedPrefix V key w = (r, w')"
  shows "host_denylist w' = host_denylist w" "host_allowlist w' = host_allowlist w"
proof -
  obtain r1 w1 where c: "CheckAllowlistTree (MakePrefixTree V key) w = (r1, w1)" by fastforce
  then have "w' = w1" using assms
    by (auto simp: IsAllowlistedPrefix_def try_as_def bind_act_def ret_def split: outcome.splits
        sum.splits)
  with Readonly_world [OF c [unfolded CheckAllowlistTree_def]]
  show "host_denylist w' = host_denylist w" "host_allowlist w' = host_allowlist w" by auto
qed

lemma IsDeniedPrefix_answer:
  "IsDeniedPrefix V key w = (Returns (Inr b), w') \<Longrightarrow>
     b = exists_ancestor (host_denylist w) (MakePrefixTree V key)"
  unfolding IsDeniedPrefix_iff by (rule deny.check_answer)

lemma IsAllowlistedPrefix_answer:
  "IsAllowlistedPrefix V key w = (Returns (Inr b), w') \<Longrightarrow>
     b = exists_ancestor (host_allowlist w) (MakePrefixTree V key)"
  unfolding IsAllowlistedPrefix_iff by (rule allow.check_answer)

lemma EvaluatePrefix_answer:
  assumes "EvaluatePrefix V key mode w = (Returns (Inr d), w')"
  shows "d = decide mode (exists_ancestor (host_denylist w) (MakePrefixTree V key))
                         (exists_ancestor (host_allowlist w) (MakePrefixTree V key))"
proof (cases mode)
  case kRegular
  note E = assms [unfolded EvaluatePrefix_def kRegular, simplified]
  obtain a w1 where 1: "IsAllowlistedPrefix V key w = (Returns (Inr a), w1)"
    and 2: "(if a then ret (Inr \<lparr>allowed = True, reason = kAllowed\<rparr>)
          else try_act (IsDeniedPrefix V key) (\<lambda>denied.
            if denied then ret (Inr \<lparr>allowed = False, reason = kDenylisted\<rparr>)
            else ret (Inr \<lparr>allowed = True, reason = kAllowed\<rparr>))) w1 = (Returns (Inr d), w')"
    by (rule try_act_Inr [OF E], rule that)
  show ?thesis
  proof (cases a)
    case True
    with 2 IsAllowlistedPrefix_answer [OF 1] show ?thesis by (simp add: kRegular ret_def)
  next
    case False
    note rest = 2 [unfolded if_not_P [OF False]]
    obtain b w2 where 3: "IsDeniedPrefix V key w1 = (Returns (Inr b), w2)"
      and 4: "(if b then ret (Inr \<lparr>allowed = False, reason = kDenylisted\<rparr>)
            else ret (Inr \<lparr>allowed = True, reason = kAllowed\<rparr>)) w2 = (Returns (Inr d) :: (AccessPolicyError + AccessDecision) outcome, w')"
      by (rule try_act_Inr [OF rest], rule that)
    from False IsAllowlistedPrefix_answer [OF 1] IsDeniedPrefix_answer [OF 3]
      IsAllowlistedPrefix_keeps_lists [OF 1] 4
    show ?thesis by (auto simp: kRegular ret_def split: if_splits)
  qed
next
  case kAllowlistOnly
  note E = assms [unfolded EvaluatePrefix_def kAllowlistOnly, simplified]
  obtain b w1 where 1: "IsDeniedPrefix V key w = (Returns (Inr b), w1)"
    and 2: "(if b then ret (Inr \<lparr>allowed = False, reason = kDenylisted\<rparr>)
          else try_act (IsAllowlistedPrefix V key) (\<lambda>allowlisted.
            if \<not> allowlisted then ret (Inr \<lparr>allowed = False, reason = kNotAllowlisted\<rparr>)
            else ret (Inr \<lparr>allowed = True, reason = kAllowed\<rparr>))) w1 = (Returns (Inr d), w')"
    by (rule try_act_Inr [OF E], rule that)
  show ?thesis
  proof (cases b)
    case True
    with 2 IsDeniedPrefix_answer [OF 1] show ?thesis by (simp add: kAllowlistOnly ret_def)
  next
    case False
    note rest = 2 [unfolded if_not_P [OF False]]
    obtain a w2 where 3: "IsAllowlistedPrefix V key w1 = (Returns (Inr a), w2)"
      and 4: "(if \<not> a then ret (Inr \<lparr>allowed = False, reason = kNotAllowlisted\<rparr>)
            else ret (Inr \<lparr>allowed = True, reason = kAllowed\<rparr>)) w2 = (Returns (Inr d) :: (AccessPolicyError + AccessDecision) outcome, w')"
      by (rule try_act_Inr [OF rest], rule that)
    from False IsDeniedPrefix_answer [OF 1] IsAllowlistedPrefix_answer [OF 3]
      IsDeniedPrefix_keeps_lists [OF 1] 4
    show ?thesis by (auto simp: kAllowlistOnly ret_def split: if_splits)
  qed
qed

lemma InsertPrefix_present:
  assumes "InsertPrefix V key why w = (Returns (Inr ()), w')"
  shows "InsertDenylistPrefix key (MakePrefixTree V key) why w = (Returns (Inr ()), w')"
  using assms
  by (auto simp: InsertPrefix_def bind_act_def ret_def of_outcome_def split: prod.splits
      outcome.splits sum.splits)

text \<open>A second key with the encoding of a denied key cannot be inserted: the process ends.\<close>

lemma InsertPrefix_collision_aborts:
  assumes "db_healthy w" and "prefix_rows_ok V (host_denylist w)"
    and "k \<in> keys_of (host_denylist w)" and "key \<notin> keys_of (host_denylist w)"
    and "MakePrefixTree V key = MakePrefixTree V k"
  shows "fst (InsertPrefix V key why w) = Aborts ''denylist insert failed''"
proof -
  from assms(3,5) assms(2) have
    "list_ex (\<lambda>r. pr_prefix_tree r = text2ltree (MakePrefixTree V key)) (host_denylist w)"
    by (auto simp: keys_of_def prefix_rows_ok_def list_ex_iff)
  moreover from assms(4) have "\<not> list_ex (\<lambda>r. pr_prefix_key r = key) (host_denylist w)"
    by (auto simp: keys_of_def list_ex_iff)
  ultimately have "sql_insert_denylist_prefix key (MakePrefixTree V key) why w = Inl ''unique_violation''"
    by (simp add: sql_insert_denylist_prefix_def insert_prefix_row_def)
  then show ?thesis
    by (simp add: InsertPrefix_def InsertDenylistPrefix_def Readwrite_def count_failure_def
        bind_act_def RunReadwrite_healthy [OF assms(1)] modify_def ret_def of_outcome_def)
qed

end
