(* ===== verification/Pagination.thy ===== *)
theory Pagination
  imports Text "HOL-Library.Signed_Division"
begin

text \<open>
  \<open>src/cursor.cpp\<close>, \<open>src/pagination.cpp\<close> and \<open>src/prefix_pagination.cpp\<close>: page tokens and the
  byte range of a prefix.
\<close>

datatype PageDirection = kNext | kPrevious

section \<open>Times in tokens\<close>

text \<open>\<open>duration_cast\<close> to microseconds truncates towards zero.\<close>

definition TimePointToMicros :: "int \<Rightarrow> int" where
  "TimePointToMicros tp = tp sdiv 1000"

text \<open>
  The conversion to the nanoseconds of \<open>system_clock\<close> multiplies in 64 bits; outside the
  range the result is what two's complement arithmetic gives (formally undefined in C++).
\<close>

definition MicrosToTimePoint :: "int \<Rightarrow> int" where
  "MicrosToTimePoint micros = sint (word_of_int (micros * 1000) :: 64 word)"

section \<open>Tokens\<close>

definition DecodeToken ::
    "('u, 'z) vendor_scheme \<Rightarrow> (string \<Rightarrow> 'd option) \<Rightarrow> string \<Rightarrow> 'd option" where
  "DecodeToken V parse token =
     (case base64url_decode V token of
        None \<Rightarrow> None
      | Some decoded \<Rightarrow> (case FromBytes V decoded of
          Inl _ \<Rightarrow> None
        | Inr decoded_text \<Rightarrow> parse decoded_text))"

definition EncodeToken :: "('u, 'z) vendor_scheme \<Rightarrow> ('d \<Rightarrow> string) \<Rightarrow> 'd \<Rightarrow> string outcome" where
  "EncodeToken V print dto = deref_text V (base64url_encode V (print dto))"

fun ToDto :: "PageDirection \<Rightarrow> cursor_direction" where
  "ToDto kNext = DNext"
| "ToDto kPrevious = DPrevious"

fun FromDto :: "cursor_direction \<Rightarrow> PageDirection" where
  "FromDto DNext = kNext"
| "FromDto DPrevious = kPrevious"

record Cursor =
  c_created_at :: int
  c_id :: Uuid
  c_direction :: PageDirection

definition EncodeCursor ::
    "('u, 'z) vendor_scheme \<Rightarrow> int \<Rightarrow> Uuid \<Rightarrow> PageDirection \<Rightarrow> string outcome" where
  "EncodeCursor V created_at i direction =
     EncodeToken V (cursor_to_json V)
       \<lparr>cur_t = TimePointToMicros created_at, cur_i = i, cur_d = ToDto direction\<rparr>"

definition DecodeCursor :: "('u, 'z) vendor_scheme \<Rightarrow> string \<Rightarrow> Cursor option" where
  "DecodeCursor V token =
     map_option (\<lambda>cur. \<lparr>c_created_at = MicrosToTimePoint (cur_t cur), c_id = cur_i cur,
                        c_direction = FromDto (cur_d cur)\<rparr>)
       (DecodeToken V (cursor_of_json V) token)"

record PrefixCursor =
  pc_prefix :: string
  pc_link :: string
  pc_direction :: PageDirection
  pc_created_at :: "int option"
  pc_id :: "Uuid option"

definition DecodePrefixCursor :: "('u, 'z) vendor_scheme \<Rightarrow> string \<Rightarrow> PrefixCursor option" where
  "DecodePrefixCursor V token =
     (case DecodeToken V (prefix_cursor_of_json V) token of
        None \<Rightarrow> None
      | Some cur \<Rightarrow> (case FromBytes V (pcur_p cur) of Inl _ \<Rightarrow> None | Inr p \<Rightarrow>
          (case FromBytes V (pcur_l cur) of Inl _ \<Rightarrow> None | Inr l \<Rightarrow>
             Some \<lparr>pc_prefix = p, pc_link = l, pc_direction = FromDto (pcur_d cur),
               pc_created_at = (case (pcur_t cur, pcur_i cur) of
                  (Some t, Some i) \<Rightarrow> Some (MicrosToTimePoint t) | _ \<Rightarrow> None),
               pc_id = (case (pcur_t cur, pcur_i cur) of
                  (Some t, Some i) \<Rightarrow> Some i | _ \<Rightarrow> None)\<rparr>)))"

definition EncodePrefixCursor ::
    "('u, 'z) vendor_scheme \<Rightarrow> string \<Rightarrow> string \<Rightarrow> PageDirection \<Rightarrow> string outcome" where
  "EncodePrefixCursor V pref link direction =
     EncodeToken V (prefix_cursor_to_json V)
       \<lparr>pcur_p = pref, pcur_l = link, pcur_d = ToDto direction, pcur_t = None, pcur_i = None\<rparr>"

definition EncodePrefixCursorAt ::
    "('u, 'z) vendor_scheme \<Rightarrow> string \<Rightarrow> string \<Rightarrow> int \<Rightarrow> Uuid \<Rightarrow> PageDirection \<Rightarrow> string outcome" where
  "EncodePrefixCursorAt V pref link created_at i direction =
     EncodeToken V (prefix_cursor_to_json V)
       \<lparr>pcur_p = pref, pcur_l = link, pcur_d = ToDto direction,
        pcur_t = Some (TimePointToMicros created_at), pcur_i = Some i\<rparr>"

section \<open>The range of a prefix\<close>

text \<open>The loop from the last byte down: \<open>i\<close> counts the bytes still to look at.\<close>

fun upper_loop :: "string \<Rightarrow> nat \<Rightarrow> string" where
  "upper_loop bytes 0 = bytes"
| "upper_loop bytes (Suc j) =
     (let c = of_char (bytes ! j) :: nat in
      if c < 255 then take (j + 1) (bytes[j := char_of (c + 1)]) else upper_loop bytes j)"

definition UpperExclusiveBound :: "string \<Rightarrow> string" where
  "UpperExclusiveBound s = upper_loop s (length s)"

section \<open>Round trips\<close>

text \<open>The times a database row holds: whole microseconds in the range of 64-bit nanoseconds.\<close>

definition db_time :: "int \<Rightarrow> bool" where
  "db_time t \<longleftrightarrow> 1000 dvd t \<and> - (2 ^ 63) \<le> t \<and> t < 2 ^ 63"

lemma micros_round_trip: "db_time t \<Longrightarrow> MicrosToTimePoint (TimePointToMicros t) = t"
proof -
  assume t: "db_time t"
  then obtain k where k: "t = 1000 * k" by (auto simp: db_time_def)
  have "t sdiv 1000 = k" by (auto simp: k signed_divide_int_def sgn_mult abs_mult sgn_if)
  moreover have "sint (word_of_int t :: 64 word) = t"
    using t by (simp add: int_word_sint db_time_def)
  ultimately show ?thesis
    by (simp add: TimePointToMicros_def MicrosToTimePoint_def k mult.commute)
qed

lemma FromDto_ToDto [simp]: "FromDto (ToDto d) = d"
  by (cases d) simp_all

lemma token_contractD:
  assumes "token_contract V"
  shows "base64url_decode V (base64url_encode V s) = Some s" "is_ascii (base64url_encode V s)"
    "cursor_of_json V (to_nfc_utf8 V (cursor_to_json V c)) = Some c"
    "is_valid_utf8 V (cursor_to_json V c)"
    "base64url_encode V (cursor_to_json V c) \<noteq> []"
    "base64url_encode V (prefix_cursor_to_json V pc) \<noteq> []"
proof -
  have inj: "base64url_encode V s = base64url_encode V [] \<Longrightarrow> s = []" for s
    using assms by (metis option.inject token_contract_def)
  show "base64url_encode V (cursor_to_json V c) \<noteq> []"
    "base64url_encode V (prefix_cursor_to_json V pc) \<noteq> []"
    using assms inj [of "cursor_to_json V c"] inj [of "prefix_cursor_to_json V pc"]
    by (auto simp: token_contract_def)
qed (use assms in \<open>auto simp: token_contract_def\<close>)

lemma token_contract_prefixD:
  assumes "token_contract V" and "wf_text V (pcur_p c)" and "wf_text V (pcur_l c)"
  shows "prefix_cursor_of_json V (to_nfc_utf8 V (prefix_cursor_to_json V c)) = Some c"
    "is_valid_utf8 V (prefix_cursor_to_json V c)"
  using assms by (auto simp: token_contract_def wf_text_def)

lemma cursor_round_trip:
  assumes "utf8_contract V" and "token_contract V" and "db_time t"
  shows "\<exists>token. EncodeCursor V t i d = Returns token \<and> token \<noteq> [] \<and>
    DecodeCursor V token = Some \<lparr>c_created_at = t, c_id = i, c_direction = d\<rparr>"
proof -
  let ?c = "\<lparr>cur_t = TimePointToMicros t, cur_i = i, cur_d = ToDto d\<rparr>"
  let ?tok = "base64url_encode V (cursor_to_json V ?c)"
  have "EncodeCursor V t i d = Returns ?tok"
    by (simp add: EncodeCursor_def EncodeToken_def deref_text_ascii assms token_contractD)
  moreover have "DecodeToken V (cursor_of_json V) ?tok = Some ?c"
    by (simp add: DecodeToken_def token_contractD [OF assms(2)] FromBytes_def)
  ultimately show ?thesis
    by (simp add: DecodeCursor_def micros_round_trip assms(3) token_contractD [OF assms(2)])
qed

lemma prefix_token_round_trip:
  assumes "utf8_contract V" and "token_contract V"
    and "wf_text V (pcur_p c)" and "wf_text V (pcur_l c)"
  shows "EncodeToken V (prefix_cursor_to_json V) c =
      Returns (base64url_encode V (prefix_cursor_to_json V c))"
    and "DecodeToken V (prefix_cursor_of_json V) (base64url_encode V (prefix_cursor_to_json V c)) = Some c"
  using token_contract_prefixD [OF assms(2-4)]
  by (simp_all add: EncodeToken_def DecodeToken_def deref_text_ascii assms(1) FromBytes_def
      token_contractD [OF assms(2)])

lemma prefix_cursor_round_trip:
  assumes "utf8_contract V" and "token_contract V" and "wf_text V p" and "wf_text V l"
  shows "\<exists>token. EncodePrefixCursor V p l d = Returns token \<and>
    DecodePrefixCursor V token = Some \<lparr>pc_prefix = p, pc_link = l, pc_direction = d,
      pc_created_at = None, pc_id = None\<rparr>"
  using assms prefix_token_round_trip [of V "\<lparr>pcur_p = p, pcur_l = l, pcur_d = ToDto d,
      pcur_t = None, pcur_i = None\<rparr>"]
  by (simp add: EncodePrefixCursor_def DecodePrefixCursor_def FromBytes_of_wf)

lemma prefix_cursor_at_round_trip:
  assumes "utf8_contract V" and "token_contract V" and "wf_text V p" and "wf_text V l"
    and "db_time t"
  shows "\<exists>token. EncodePrefixCursorAt V p l t i d = Returns token \<and>
    DecodePrefixCursor V token = Some \<lparr>pc_prefix = p, pc_link = l, pc_direction = d,
      pc_created_at = Some t, pc_id = Some i\<rparr>"
  using assms prefix_token_round_trip [of V "\<lparr>pcur_p = p, pcur_l = l, pcur_d = ToDto d,
      pcur_t = Some (TimePointToMicros t), pcur_i = Some i\<rparr>"]
  by (simp add: EncodePrefixCursorAt_def DecodePrefixCursor_def FromBytes_of_wf micros_round_trip)

section \<open>The range is the prefix\<close>

definition top_byte :: char where
  "top_byte = char_of (255::nat)"

lemma le_top_byte: "c \<le> top_byte"
proof -
  have "of_char c < (256::nat)" by simp
  then have "of_char c \<le> (255::nat)" by linarith
  then show ?thesis by (simp only: less_eq_char_def top_byte_def of_char_of) simp
qed

lemma of_char_less_255: "(of_char c :: nat) < 255 \<longleftrightarrow> c \<noteq> top_byte"
proof -
  have "of_char c < (256::nat)" by simp
  moreover have "c = top_byte \<longleftrightarrow> of_char c = (255::nat)"
  proof
    assume "of_char c = (255::nat)"
    then have "char_of (of_char c :: nat) = char_of (255::nat)" by (rule arg_cong)
    then show "c = top_byte" unfolding top_byte_def char_of_char .
  qed (simp add: top_byte_def)
  ultimately show ?thesis by linarith
qed

lemma all_top_le_iff: "\<forall>c\<in>set s. c = top_byte \<Longrightarrow> s \<le> t \<longleftrightarrow> prefix s t"
proof (induction s arbitrary: t)
  case (Cons a s)
  then show ?case using le_top_byte leD by (cases t) (auto simp: antisym_conv1)
qed simp

lemma upper_loop_split:
  "j \<le> length s \<Longrightarrow> c \<noteq> top_byte \<Longrightarrow> take j s = p @ c # f \<Longrightarrow> \<forall>x\<in>set f. x = top_byte \<Longrightarrow>
     upper_loop s j = p @ [char_of (of_char c + 1 :: nat)]"
proof (induction j arbitrary: f)
  case (Suc j)
  then have j: "j < length s" and tk: "take (Suc j) s = take j s @ [s ! j]"
    by (simp_all add: take_Suc_conv_app_nth)
  show ?case
  proof (cases "f = []")
    case True
    with Suc.prems tk have "take j s = p" "s ! j = c" by auto
    with Suc.prems j show ?thesis
      by (simp add: Let_def of_char_less_255 take_Suc_conv_app_nth)
  next
    case False
    then obtain f' x where f: "f = f' @ [x]" by (metis append_butlast_last_id)
    with Suc.prems tk have "take j s = p @ c # f'" "s ! j = x" by auto
    moreover have "upper_loop s j = p @ [char_of (of_char c + 1 :: nat)]"
      using Suc.IH [of f'] Suc.prems calculation f j by simp
    ultimately show ?thesis using Suc.prems f by (simp add: Let_def of_char_less_255)
  qed
qed simp

lemma prefix_between: "p @ x \<le> t \<Longrightarrow> t < p @ y \<Longrightarrow> prefix p (t :: 'a::linorder list)"
proof (induction p arbitrary: t)
  case (Cons a p)
  then show ?case by (cases t) auto
qed simp

lemma last_not_top:
  assumes "\<exists>x\<in>set s. x \<noteq> top_byte"
  obtains p c f where "s = p @ c # f" "c \<noteq> top_byte" "\<forall>x\<in>set f. x = top_byte"
  using split_list_last_prop [OF assms] by blast

lemma upper_bound_range:
  assumes "\<exists>x\<in>set s. x \<noteq> top_byte"
  shows "s \<le> t \<and> t < UpperExclusiveBound s \<longleftrightarrow> prefix s t"
proof -
  from last_not_top [OF assms] obtain p c f where
    s: "s = p @ c # f" and c: "c \<noteq> top_byte" and f: "\<forall>x\<in>set f. x = top_byte" by blast
  let ?c' = "char_of (of_char c + 1 :: nat)"
  have ub: "UpperExclusiveBound s = p @ [?c']"
    unfolding UpperExclusiveBound_def using upper_loop_split [of "length s" s c p f] s c f by simp
  have lt: "d < ?c' \<longleftrightarrow> d \<le> c" for d
  proof -
    have "(of_char c :: nat) < 255" using c of_char_less_255 by blast
    then have "(of_char ?c' :: nat) = of_char c + 1" by simp
    then show ?thesis by (simp add: less_char_def less_eq_char_def less_Suc_eq_le)
  qed
  have tail: "c # f \<le> u \<and> u < [?c'] \<longleftrightarrow> prefix (c # f) u" for u
  proof (cases u)
    case (Cons d v)
    have "c # f \<le> u \<longleftrightarrow> c < d \<or> (c = d \<and> prefix f v)"
      using all_top_le_iff [OF f] by (simp add: Cons)
    moreover have "u < [?c'] \<longleftrightarrow> d \<le> c" using lt [of d] by (simp add: Cons)
    ultimately show ?thesis using Cons by auto
  qed simp
  show ?thesis
  proof
    assume a: "s \<le> t \<and> t < UpperExclusiveBound s"
    then have "p @ c # f \<le> t" "t < p @ [?c']" unfolding ub by (simp_all add: s)
    then have "prefix p t" by (rule prefix_between)
    then obtain u where "t = p @ u" by (auto simp: prefix_def)
    with a tail [of u] show "prefix s t" unfolding ub by (simp add: s)
  next
    assume "prefix s t"
    then obtain u where "t = p @ c # f @ u" by (auto simp: s prefix_def)
    with tail [of "c # f @ u"] show "s \<le> t \<and> t < UpperExclusiveBound s" unfolding ub by (simp add: s)
  qed
qed

end
