(* ===== verification/Capture_Meta_Repo.thy ===== *)
theory Capture_Meta_Repo
  imports Access_Policy Pagination "HOL-Library.Product_Lexorder" "HOL-Library.Multiset"
begin

text \<open>
  \<open>src/capture_meta_repo.cpp\<close> with the statements of \<open>sql/query/\<close> on the table \<open>capture\<close>.  An
  \<open>order by ... limit\<close> is a sort by a key followed by \<open>take\<close>; the locale \<open>ordered_source\<close>
  states what the three selects of a paged listing promise, whatever the rows are, and is
  interpreted on the captures of a link and on the distinct links of a range.
\<close>

section \<open>Rows and orders\<close>

record CaptureMetaIdRow =
  mi_uuid :: Uuid
  mi_created_at :: int

record CaptureMetaByIdRow =
  mb_created_at :: int
  mb_link :: string
  mb_replay_url :: string

record InsertCaptureRow =
  ic_id :: Uuid
  ic_created_at :: int

definition id_row :: "capture_row \<Rightarrow> CaptureMetaIdRow" where
  "id_row r = \<lparr>mi_uuid = cap_id r, mi_created_at = cap_created_at r\<rparr>"

text \<open>\<open>order by created_at desc, id asc\<close> and \<open>order by created_at asc, id desc\<close>.\<close>

definition newest_key :: "capture_row \<Rightarrow> int \<times> Uuid" where
  "newest_key r = (- cap_created_at r, cap_id r)"

definition oldest_key :: "capture_row \<Rightarrow> int \<times> int" where
  "oldest_key r = (cap_created_at r, - uint (cap_id r))"

definition of_link :: "string \<Rightarrow> world \<Rightarrow> capture_row list" where
  "of_link link w = filter (\<lambda>r. cap_link r = link) (captures w)"

section \<open>Statements\<close>

definition sql_insert_capture ::
    "Uuid \<Rightarrow> string \<Rightarrow> string \<Rightarrow> string \<Rightarrow> string \<Rightarrow> string \<Rightarrow> world \<Rightarrow>
     PgError + (InsertCaptureRow list \<times> world)" where
  "sql_insert_capture cid link prefix_key prefix_tree sha replay w =
     (if list_ex (\<lambda>r. cap_id r = cid) (captures w) then Inl ''unique_violation''
      else if length sha \<noteq> 32 then Inl ''check_violation''
      else Inr ([\<lparr>ic_id = cid, ic_created_at = pg_now w\<rparr>],
        w\<lparr>captures := captures w @ [\<lparr>cap_id = cid, cap_created_at = pg_now w, cap_link = link,
             cap_replay_url = replay, cap_prefix_key = prefix_key,
             cap_prefix_tree = text2ltree prefix_tree, cap_content_sha256 = sha\<rparr>]\<rparr>))"

definition sql_select_capture_by_link_hash ::
    "string \<Rightarrow> string \<Rightarrow> world \<Rightarrow> CaptureMetaIdRow list" where
  "sql_select_capture_by_link_hash link sha w =
     map id_row (take 1 (sort_key newest_key
       (filter (\<lambda>r. cap_link r = link \<and> cap_content_sha256 r = sha) (captures w))))"

definition sql_select_capture :: "Uuid \<Rightarrow> world \<Rightarrow> CaptureMetaByIdRow list" where
  "sql_select_capture cid w =
     map (\<lambda>r. \<lparr>mb_created_at = cap_created_at r, mb_link = cap_link r,
               mb_replay_url = cap_replay_url r\<rparr>)
       (filter (\<lambda>r. cap_id r = cid) (captures w))"

definition sql_select_capture_by_link_first ::
    "string \<Rightarrow> nat \<Rightarrow> world \<Rightarrow> CaptureMetaIdRow list" where
  "sql_select_capture_by_link_first link lim w =
     map id_row (take lim (sort_key newest_key (of_link link w)))"

definition sql_select_capture_by_link_next ::
    "string \<Rightarrow> nat \<Rightarrow> int \<Rightarrow> Uuid \<Rightarrow> world \<Rightarrow> CaptureMetaIdRow list" where
  "sql_select_capture_by_link_next link lim t i w =
     map id_row (take lim (sort_key newest_key
       (filter (\<lambda>r. cap_created_at r < t \<or> (cap_created_at r = t \<and> cap_id r > i))
          (of_link link w))))"

definition sql_select_capture_by_link_prev ::
    "string \<Rightarrow> nat \<Rightarrow> int \<Rightarrow> Uuid \<Rightarrow> world \<Rightarrow> CaptureMetaIdRow list" where
  "sql_select_capture_by_link_prev link lim t i w =
     map id_row (take lim (sort_key oldest_key
       (filter (\<lambda>r. cap_created_at r > t \<or> (cap_created_at r = t \<and> cap_id r < i))
          (of_link link w))))"

text \<open>
  The distinct links of a range.  \<open>upper_exclusive\<close> is always given by the callers, so the
  \<open>$2 is null\<close> branch is not taken.
\<close>

definition links_in_range :: "string \<Rightarrow> string \<Rightarrow> world \<Rightarrow> string list" where
  "links_in_range lower upper w =
     sort (remdups (map cap_link
       (filter (\<lambda>r. lower \<le> cap_link r \<and> cap_link r < upper) (captures w))))"

definition sql_select_distinct_links_by_prefix_first ::
    "string \<Rightarrow> string \<Rightarrow> nat \<Rightarrow> world \<Rightarrow> string list" where
  "sql_select_distinct_links_by_prefix_first lower upper lim w =
     take lim (links_in_range lower upper w)"

definition sql_select_distinct_links_by_prefix_next ::
    "string \<Rightarrow> string \<Rightarrow> string \<Rightarrow> nat \<Rightarrow> world \<Rightarrow> string list" where
  "sql_select_distinct_links_by_prefix_next lower upper from_link lim w =
     take lim (filter (\<lambda>l. from_link < l) (links_in_range lower upper w))"

definition sql_select_distinct_links_by_prefix_prev ::
    "string \<Rightarrow> string \<Rightarrow> string \<Rightarrow> nat \<Rightarrow> world \<Rightarrow> string list" where
  "sql_select_distinct_links_by_prefix_prev lower upper from_link lim w =
     take lim (rev (filter (\<lambda>l. l < from_link) (links_in_range lower upper w)))"

definition under_tree :: "string \<Rightarrow> capture_row \<Rightarrow> bool" where
  "under_tree tree r \<longleftrightarrow> ltree_ancestor (text2ltree tree) (cap_prefix_tree r)"

definition sql_select_ids_by_deny_prefix_paged :: "string \<Rightarrow> nat \<Rightarrow> world \<Rightarrow> Uuid list" where
  "sql_select_ids_by_deny_prefix_paged tree lim w =
     map cap_id (take lim (sort_key newest_key (filter (under_tree tree) (captures w))))"

definition sql_delete_captures_by_ids :: "Uuid list \<Rightarrow> world \<Rightarrow> PgError + (unit \<times> world)" where
  "sql_delete_captures_by_ids ids w =
     Inr ((), w\<lparr>captures := filter (\<lambda>r. cap_id r \<notin> set ids) (captures w)\<rparr>)"

section \<open>The repository\<close>

definition CaptureReadonly :: "(world \<Rightarrow> 'a) \<Rightarrow> (PgError + 'a) act" where
  "CaptureReadonly q = count_failure kDbCaptureMetaRead (RunReadonly q)"

definition CaptureReadwrite ::
    "('r \<Rightarrow> PgError + 'a) \<Rightarrow> (world \<Rightarrow> PgError + ('r \<times> world)) \<Rightarrow> (PgError + 'a) act" where
  "CaptureReadwrite dec stmt = count_failure kDbCaptureMetaWrite (RunReadwrite dec stmt)"

text \<open>\<open>AsOptionalSingleRow\<close>: at most one row; both queries that use it return at most one.\<close>

definition FindCaptureByLinkHash ::
    "string \<Rightarrow> string \<Rightarrow> (PgError + CaptureMetaIdRow option) act" where
  "FindCaptureByLinkHash link sha =
     try_act (CaptureReadonly (sql_select_capture_by_link_hash link sha))
       (\<lambda>rows. ret (Inr (case rows of [] \<Rightarrow> None | r # _ \<Rightarrow> Some r)))"

definition InsertCapture ::
    "Uuid \<Rightarrow> string \<Rightarrow> string \<Rightarrow> string \<Rightarrow> string \<Rightarrow> string \<Rightarrow> (PgError + InsertCaptureRow) act" where
  "InsertCapture cid link prefix_key prefix_tree sha replay =
     CaptureReadwrite AsSingleRow (sql_insert_capture cid link prefix_key prefix_tree sha replay)"

definition Repo_FindCapture :: "Uuid \<Rightarrow> (PgError + CaptureMetaByIdRow option) act" where
  "Repo_FindCapture cid =
     try_act (CaptureReadonly (sql_select_capture cid))
       (\<lambda>rows. ret (Inr (case rows of [] \<Rightarrow> None | r # _ \<Rightarrow> Some r)))"

definition GetCapturesByLinkFirst :: "string \<Rightarrow> nat \<Rightarrow> (PgError + CaptureMetaIdRow list) act" where
  "GetCapturesByLinkFirst link lim = CaptureReadonly (sql_select_capture_by_link_first link lim)"

definition GetCapturesByLinkNext ::
    "('u, 'z) vendor_scheme \<Rightarrow> string \<Rightarrow> nat \<Rightarrow> int \<Rightarrow> Uuid \<Rightarrow> (PgError + CaptureMetaIdRow list) act" where
  "GetCapturesByLinkNext V link lim created_at i =
     CaptureReadonly (sql_select_capture_by_link_next link lim (to_pg_time V created_at) i)"

definition GetCapturesByLinkPrev ::
    "('u, 'z) vendor_scheme \<Rightarrow> string \<Rightarrow> nat \<Rightarrow> int \<Rightarrow> Uuid \<Rightarrow> (PgError + CaptureMetaIdRow list) act" where
  "GetCapturesByLinkPrev V link lim created_at i =
     CaptureReadonly (sql_select_capture_by_link_prev link lim (to_pg_time V created_at) i)"

definition GetDistinctLinksByPrefixFirst ::
    "string \<Rightarrow> string \<Rightarrow> nat \<Rightarrow> (PgError + string list) act" where
  "GetDistinctLinksByPrefixFirst lower upper lim =
     CaptureReadonly (sql_select_distinct_links_by_prefix_first lower upper lim)"

definition GetDistinctLinksByPrefixNext ::
    "string \<Rightarrow> string \<Rightarrow> string \<Rightarrow> nat \<Rightarrow> (PgError + string list) act" where
  "GetDistinctLinksByPrefixNext lower upper from_link lim =
     CaptureReadonly (sql_select_distinct_links_by_prefix_next lower upper from_link lim)"

definition GetDistinctLinksByPrefixPrev ::
    "string \<Rightarrow> string \<Rightarrow> string \<Rightarrow> nat \<Rightarrow> (PgError + string list) act" where
  "GetDistinctLinksByPrefixPrev lower upper from_link lim =
     CaptureReadonly (sql_select_distinct_links_by_prefix_prev lower upper from_link lim)"

definition HasRowsBeforeInLink ::
    "('u, 'z) vendor_scheme \<Rightarrow> string \<Rightarrow> int \<Rightarrow> Uuid \<Rightarrow> (PgError + bool) act" where
  "HasRowsBeforeInLink V link created_at i =
     try_act (CaptureReadonly (sql_select_capture_by_link_prev link 1 (to_pg_time V created_at) i))
       (\<lambda>rows. ret (Inr (rows \<noteq> [])))"

definition GetCaptureIdsByPrefixTree :: "string \<Rightarrow> nat \<Rightarrow> (PgError + Uuid list) act" where
  "GetCaptureIdsByPrefixTree tree lim =
     CaptureReadonly (sql_select_ids_by_deny_prefix_paged tree lim)"

definition DeleteCapturesByIds :: "Uuid list \<Rightarrow> (PgError + unit) act" where
  "DeleteCapturesByIds ids = CaptureReadwrite (\<lambda>_. Inr ()) (sql_delete_captures_by_ids ids)"

lemma CaptureReadonly_healthy:
  "db_healthy w \<Longrightarrow> CaptureReadonly q w = (Returns (Inr (q w)), tick w)"
  by (simp add: CaptureReadonly_def count_failure_Inr_iff RunReadonly_healthy)

section \<open>Ordered sources\<close>

text \<open>
  The contract of a paged listing over a sorted list of keys: the first keys, those after a key,
  and those before a key, nearest first.  The paging code asks for one row more than it shows;
  \<open>trim_page\<close> is what it does with the answer (lines 1236 to 1246 of \<open>src/crud.cpp\<close>), and
  \<open>walk\<close> follows the next-page cursors for at most the given number of pages.
\<close>

definition trim_page ::
    "nat \<Rightarrow> PageDirection option \<Rightarrow> 'a list \<Rightarrow> 'a list \<times> bool \<times> bool" where
  "trim_page page_max dir rows =
     (let has_previous = (dir = Some kNext);
          has_next = (dir = Some kPrevious);
          over = length rows > page_max;
          db_rows = (if over then butlast rows else rows);
          has_previous = (if over \<and> dir = Some kPrevious then True else has_previous);
          has_next = (if over \<and> dir \<noteq> Some kPrevious then True else has_next)
      in (if dir = Some kPrevious then rev db_rows else db_rows, has_previous, has_next))"

fun walk ::
    "((PageDirection \<times> 'k) option \<Rightarrow> 'k list \<times> bool \<times> bool) \<Rightarrow> nat \<Rightarrow>
     (PageDirection \<times> 'k) option \<Rightarrow> 'k list option" where
  "walk f 0 cur = None"
| "walk f (Suc m) cur =
     (case f cur of (items, _, has_next) \<Rightarrow>
        if items \<noteq> [] \<and> has_next
        then map_option ((@) items) (walk f m (Some (kNext, last items))) else Some items)"

definition fetch ::
    "(nat \<Rightarrow> 'k list) \<Rightarrow> (nat \<Rightarrow> 'k \<Rightarrow> 'k list) \<Rightarrow> (nat \<Rightarrow> 'k \<Rightarrow> 'k list) \<Rightarrow> nat \<Rightarrow>
     (PageDirection \<times> 'k) option \<Rightarrow> 'k list \<times> bool \<times> bool" where
  "fetch first after before n cur =
     trim_page n (map_option fst cur)
       (case cur of None \<Rightarrow> first (n + 1)
        | Some (kNext, k) \<Rightarrow> after (n + 1) k
        | Some (kPrevious, k) \<Rightarrow> before (n + 1) k)"

lemma butlast_take_Suc: "n < length xs \<Longrightarrow> butlast (take (Suc n) xs) = take n xs"
  by (simp add: take_Suc_conv_app_nth)

lemma trim_page_take:
  "trim_page n None (take (Suc n) xs) = (take n xs, False, n < length xs)"
  "trim_page n (Some kNext) (take (Suc n) xs) = (take n xs, True, n < length xs)"
  "trim_page n (Some kPrevious) (take (Suc n) xs) = (rev (take n xs), n < length xs, True)"
  by (auto simp: trim_page_def Let_def butlast_take_Suc)

lemma trim_page_map:
  "trim_page n dir (map f xs) = (case trim_page n dir xs of (ys, p, q) \<Rightarrow> (map f ys, p, q))"
  by (auto simp: trim_page_def Let_def rev_map simp flip: map_butlast)

locale ordered_source =
  fixes all :: "'k::linorder list"
    and first :: "nat \<Rightarrow> 'k list"
    and after :: "nat \<Rightarrow> 'k \<Rightarrow> 'k list"
    and before :: "nat \<Rightarrow> 'k \<Rightarrow> 'k list"
  assumes sorted_all: "sorted all"
    and first_eq: "first n = take n all"
    and after_eq: "after n k = take n (filter (\<lambda>x. k < x) all)"
    and before_eq: "before n k = take n (rev (filter (\<lambda>x. x < k) all))"
begin

text \<open>The keys after and before a key of a list without repetitions.\<close>

lemma around_key:
  assumes "distinct all" and "all = ys @ k # zs"
  shows "filter (\<lambda>x. k < x) all = zs" and "filter (\<lambda>x. x < k) all = ys"
proof -
  have "\<forall>y\<in>set ys. y < k" "\<forall>z\<in>set zs. k < z"
    using sorted_all assms by (auto simp: sorted_append order_le_less)
  then show "filter (\<lambda>x. k < x) all = zs" "filter (\<lambda>x. x < k) all = ys"
    by (auto simp: assms(2) filter_id_conv filter_empty_conv dest: less_imp_not_less)
qed

lemma fetch_first: "fetch first after before n None = (take n all, False, n < length all)"
  by (simp add: fetch_def first_eq trim_page_take)

lemma fetch_next:
  assumes "distinct all" and "all = ys @ k # zs"
  shows "fetch first after before n (Some (kNext, k)) = (take n zs, True, n < length zs)"
  using around_key [OF assms] by (simp add: fetch_def after_eq trim_page_take)

lemma fetch_previous:
  assumes "distinct all" and "all = ys @ k # zs"
  shows "fetch first after before n (Some (kPrevious, k)) =
    (rev (take n (rev ys)), n < length ys, True)"
  using around_key [OF assms] by (simp add: fetch_def before_eq trim_page_take)

text \<open>Following the next-page cursors lists every key once, in order.\<close>

lemma walk_after:
  assumes "distinct all" and "n > 0"
  shows "all = ys @ k # zs \<Longrightarrow> length zs < m \<Longrightarrow>
    walk (fetch first after before n) m (Some (kNext, k)) = Some zs"
proof (induction m arbitrary: ys k zs)
  case (Suc m)
  note f = fetch_next [OF assms(1) Suc.prems(1), of n]
  show ?case
  proof (cases "n < length zs")
    case True
    with assms(2) have ne: "take n zs \<noteq> []" by auto
    then have z: "zs = butlast (take n zs) @ last (take n zs) # drop n zs"
      by (metis append.assoc append_Cons append_Nil append_butlast_last_id append_take_drop_id)
    have "all = (ys @ k # butlast (take n zs)) @ last (take n zs) # drop n zs"
      using Suc.prems(1) z by (metis append.assoc append_Cons)
    moreover have "length (drop n zs) < m" using Suc.prems(2) assms(2) True by simp
    ultimately have "walk (fetch first after before n) m (Some (kNext, last (take n zs))) = Some (drop n zs)"
      by (rule Suc.IH)
    with f True ne show ?thesis by simp
  qed (use f in simp)
qed simp

lemma walk_all:
  assumes "distinct all" and "n > 0" and "length all < m"
  shows "walk (fetch first after before n) m None = Some all"
proof -
  from assms(3) obtain m' where m: "m = Suc m'" by (cases m) auto
  show ?thesis
  proof (cases "n < length all")
    case True
    with assms(2) have ne: "take n all \<noteq> []" by auto
    then have a: "all = butlast (take n all) @ last (take n all) # drop n all"
      by (metis append.assoc append_Cons append_Nil append_butlast_last_id append_take_drop_id)
    have "length (drop n all) < m'" using assms m True by simp
    from walk_after [OF assms(1,2) a this] fetch_first [of n] True ne show ?thesis by (simp add: m)
  qed (use fetch_first [of n] m in simp)
qed

text \<open>Going to the next page and back shows the same page.\<close>

lemma next_then_previous:
  assumes "distinct all" and "n > 0" and "all = ys @ shown @ rest" and "length shown = n"
    and "fetch first after before n (Some (kNext, last shown)) = (items, p, q)" and "items \<noteq> []"
  shows "fst (fetch first after before n (Some (kPrevious, hd items))) = shown"
proof -
  from assms(2,4) have ne: "shown \<noteq> []" by auto
  have a: "all = (ys @ butlast shown) @ last shown # rest" using assms(3) ne by simp
  from fetch_next [OF assms(1) a, of n] assms(5) have i: "items = take n rest" by simp
  with assms(6) obtain r rs where r: "rest = r # rs" "hd items = r"
    using assms(2) by (cases rest) (auto simp: take_Cons')
  have "all = (ys @ shown) @ r # rs" using assms(3) r by simp
  from fetch_previous [OF assms(1) this, of n] r assms(4) show ?thesis by simp
qed

end

section \<open>The selects are ordered sources\<close>

definition row_key :: "CaptureMetaIdRow \<Rightarrow> int \<times> Uuid" where
  "row_key r = (- mi_created_at r, mi_uuid r)"

definition key_row :: "int \<times> Uuid \<Rightarrow> CaptureMetaIdRow" where
  "key_row k = \<lparr>mi_uuid = snd k, mi_created_at = - fst k\<rparr>"

definition link_keys :: "string \<Rightarrow> world \<Rightarrow> (int \<times> Uuid) list" where
  "link_keys link w = sort (map newest_key (of_link link w))"

lemma row_key_id_row [simp]: "row_key (id_row r) = newest_key r"
  by (simp add: row_key_def id_row_def newest_key_def)

lemma key_row_newest_key [simp]: "key_row (newest_key r) = id_row r"
  by (simp add: key_row_def id_row_def newest_key_def)

lemma row_key_key_row [simp]: "row_key (key_row k) = k"
  by (simp add: row_key_def key_row_def)

lemma key_row_row_key [simp]: "key_row (row_key r) = r"
  by (simp add: row_key_def key_row_def)

lemma map_sort_key: "map f (sort_key f xs) = sort (map f xs)"
  by (rule properties_for_sort [symmetric]) simp_all

lemma sort_filter: "sort (filter P xs) = filter P (sort xs)"
  by (simp add: filter_sort)

lemma map_newest_sort_oldest:
  "map newest_key (sort_key oldest_key xs) = rev (sort (map newest_key xs))"
proof -
  have "sorted (rev (map newest_key (sort_key oldest_key xs)))"
  proof -
    have "sorted (map oldest_key (sort_key oldest_key xs))" by simp
    then show ?thesis
      unfolding sorted_wrt_rev sorted_wrt_map
      by (rule sorted_wrt_mono_rel [rotated])
        (auto simp: newest_key_def oldest_key_def less_eq_prod_def word_le_def)
  qed
  moreover have "mset (rev (map newest_key (sort_key oldest_key xs))) = mset (map newest_key xs)"
    by simp
  ultimately have "sort (map newest_key xs) = rev (map newest_key (sort_key oldest_key xs))"
    using properties_for_sort by blast
  then show ?thesis by simp
qed

text \<open>The rows after and before a position are the keys after and before it.\<close>

lemma after_position:
  "(cap_created_at r < t \<or> (cap_created_at r = t \<and> cap_id r > i)) \<longleftrightarrow> (- t, i) < newest_key r"
  by (auto simp: newest_key_def less_prod_def)

lemma before_position:
  "(cap_created_at r > t \<or> (cap_created_at r = t \<and> cap_id r < i)) \<longleftrightarrow> newest_key r < (- t, i)"
  by (auto simp: newest_key_def less_prod_def)

lemma map_filter_key: "map f (filter (\<lambda>r. P (f r)) xs) = filter P (map f xs)"
  by (induction xs) auto

interpretation link_src: ordered_source "link_keys link w"
  "\<lambda>n. map row_key (sql_select_capture_by_link_first link n w)"
  "\<lambda>n k. map row_key (sql_select_capture_by_link_next link n (- fst k) (snd k) w)"
  "\<lambda>n k. map row_key (sql_select_capture_by_link_prev link n (- fst k) (snd k) w)"
  for link w
proof
  show "sorted (link_keys link w)" by (simp add: link_keys_def)
  show "map row_key (sql_select_capture_by_link_first link n w) = take n (link_keys link w)" for n
    by (simp add: sql_select_capture_by_link_first_def link_keys_def comp_def map_sort_key
        flip: take_map)
  show "map row_key (sql_select_capture_by_link_next link n (- fst k) (snd k) w) =
      take n (filter (\<lambda>x. k < x) (link_keys link w))" for n k
    by (simp add: sql_select_capture_by_link_next_def link_keys_def comp_def map_sort_key
        after_position map_filter_key sort_filter flip: take_map)
  show "map row_key (sql_select_capture_by_link_prev link n (- fst k) (snd k) w) =
      take n (rev (filter (\<lambda>x. x < k) (link_keys link w)))" for n k
    by (simp add: sql_select_capture_by_link_prev_def link_keys_def comp_def map_newest_sort_oldest
        before_position map_filter_key [of newest_key "\<lambda>x. x < k"] sort_filter flip: take_map)
qed

interpretation range_src: ordered_source "links_in_range lower upper w"
  "\<lambda>n. sql_select_distinct_links_by_prefix_first lower upper n w"
  "\<lambda>n k. sql_select_distinct_links_by_prefix_next lower upper k n w"
  "\<lambda>n k. sql_select_distinct_links_by_prefix_prev lower upper k n w"
  for lower upper w
  by unfold_locales
    (simp_all add: links_in_range_def sql_select_distinct_links_by_prefix_first_def
      sql_select_distinct_links_by_prefix_next_def sql_select_distinct_links_by_prefix_prev_def)

section \<open>The table\<close>

text \<open>Identifiers are unique and times are database times.\<close>

definition captures_ok :: "world \<Rightarrow> bool" where
  "captures_ok w \<longleftrightarrow>
     distinct (map cap_id (captures w)) \<and> (\<forall>r\<in>set (captures w). db_time (cap_created_at r))"

lemma distinct_link_keys: "captures_ok w \<Longrightarrow> distinct (link_keys link w)"
proof -
  assume "captures_ok w"
  then have "distinct (map cap_id (of_link link w))"
    by (simp add: captures_ok_def of_link_def distinct_map_filter)
  then have "distinct (map newest_key (of_link link w))"
    by (auto simp: distinct_map inj_on_def newest_key_def)
  then show ?thesis by (simp add: link_keys_def)
qed

lemma link_keys_times:
  "captures_ok w \<Longrightarrow> k \<in> set (link_keys link w) \<Longrightarrow> db_time (- fst k)"
  by (auto simp: captures_ok_def link_keys_def of_link_def newest_key_def)

end
