(* ===== verification/Integers.thy ===== *)
theory Integers
  imports Text "HOL-Library.Signed_Division"
begin

text \<open>
  \<open>include/integers.hpp\<close>: \<open>Parse\<close>, the decimal reader over \<open>std::from_chars\<close> that must consume
  its whole input, and the arithmetic of plain \<open>int64_t\<close>.  The checked types \<open>i64\<close> and \<open>usize\<close>
  raise on overflow, so where the sources use them the model computes in \<^typ>\<open>int\<close> and
  \<^typ>\<open>nat\<close>.
\<close>

definition digit_value :: "char \<Rightarrow> nat" where
  "digit_value c = of_char c - 48"

definition digits_value :: "string \<Rightarrow> nat" where
  "digits_value s = foldl (\<lambda>n c. 10 * n + digit_value c) 0 s"

text \<open>The digits of \<open>from_chars\<close> when they are the whole input.\<close>

definition parse_digits :: "string \<Rightarrow> nat option" where
  "parse_digits s = (if s \<noteq> [] \<and> list_all is_digit s then Some (digits_value s) else None)"

definition Parse_unsigned :: "nat \<Rightarrow> string \<Rightarrow> nat option" where
  "Parse_unsigned width s =
     (case parse_digits s of None \<Rightarrow> None | Some n \<Rightarrow> if n < 2 ^ width then Some n else None)"

definition Parse_signed :: "nat \<Rightarrow> string \<Rightarrow> int option" where
  "Parse_signed width s =
     (case s of
        [] \<Rightarrow> None
      | c # ds \<Rightarrow>
          if c = CHR ''-'' then
            (case parse_digits ds of None \<Rightarrow> None
             | Some n \<Rightarrow> if n \<le> 2 ^ (width - 1) then Some (- int n) else None)
          else
            (case parse_digits s of None \<Rightarrow> None
             | Some n \<Rightarrow> if n < 2 ^ (width - 1) then Some (int n) else None))"

text \<open>\<open>int64_t\<close> addition as two's complement gives it (overflow is undefined in C++).\<close>

definition wrap64 :: "int \<Rightarrow> int" where
  "wrap64 n = sint (word_of_int n :: 64 word)"

text \<open>\<open>std::format("{}", n)\<close> of a signed number.\<close>

definition int_to_string :: "int \<Rightarrow> string" where
  "int_to_string n = (if n < 0 then CHR ''-'' # to_string (nat (- n)) else to_string (nat n))"

section \<open>Printing and reading back\<close>

lemma of_char_digit_char: "d < 10 \<Longrightarrow> of_char (digit_char d) = 48 + d"
  by (simp add: digit_char_def)

lemma digit_value_char [simp]: "d < 10 \<Longrightarrow> digit_value (digit_char d) = d"
  by (simp add: digit_value_def of_char_digit_char)

lemma is_digit_char [simp]: "d < 10 \<Longrightarrow> is_digit (digit_char d)"
  by (simp add: is_digit_def less_eq_char_def of_char_digit_char)

lemma to_string_not_Nil [simp]: "to_string n \<noteq> []"
  by (subst to_string.simps) simp

lemma to_string_digits: "list_all is_digit (to_string n)"
  by (induction n rule: to_string.induct) (subst to_string.simps, simp)

lemma digits_value_snoc: "digits_value (s @ [c]) = 10 * digits_value s + digit_value c"
  by (simp add: digits_value_def)

lemma digits_value_to_string: "digits_value (to_string n) = n"
proof (induction n rule: to_string.induct)
  case (1 n)
  show ?case
  proof (cases "n < 10")
    case True
    then show ?thesis by (subst to_string.simps) (simp add: digits_value_def)
  next
    case False
    have "digits_value (to_string n) = 10 * digits_value (to_string (n div 10)) + n mod 10"
      using False by (subst to_string.simps) (simp add: digits_value_snoc)
    with "1.IH" [OF False] show ?thesis by simp
  qed
qed

lemma parse_digits_to_string [simp]: "parse_digits (to_string n) = Some n"
  by (simp add: parse_digits_def to_string_digits digits_value_to_string)

lemma Parse_unsigned_to_string: "n < 2 ^ width \<Longrightarrow> Parse_unsigned width (to_string n) = Some n"
  by (simp add: Parse_unsigned_def)

lemma to_string_not_minus: "to_string n = c # ds \<Longrightarrow> c \<noteq> CHR ''-''"
  using to_string_digits [of n] by (auto simp: is_digit_def less_eq_char_def)

lemma Parse_signed_int_to_string:
  assumes "- (2 ^ (width - 1)) \<le> n" and "n < 2 ^ (width - 1)"
  shows "Parse_signed width (int_to_string n) = Some n"
proof (cases "n < 0")
  case True
  then have "nat (- n) \<le> 2 ^ (width - 1)" using assms(1) by (simp add: nat_le_iff)
  with True show ?thesis by (simp add: Parse_signed_def int_to_string_def)
next
  case False
  obtain c ds where s: "to_string (nat n) = c # ds" by (cases "to_string (nat n)") auto
  have "nat n < 2 ^ (width - 1)" using assms(2) False by (simp add: nat_less_iff)
  with False s to_string_not_minus [OF s] parse_digits_to_string [of "nat n"] show ?thesis
    by (simp add: Parse_signed_def int_to_string_def)
qed

lemma wrap64_id: "- (2 ^ 63) \<le> n \<Longrightarrow> n < 2 ^ 63 \<Longrightarrow> wrap64 n = n"
  by (simp add: wrap64_def int_word_sint)

end
