(* ===== verification/Cgroup_Stats.thy ===== *)
theory Cgroup_Stats
  imports Integers
begin

text \<open>
  \<open>src/crawler/cgroup_stats.cpp\<close>: reading the resource counters of a browser's control group,
  from the kernel's files or from a snapshot that concatenates them.  Error messages are built
  with \<open>text::Format\<close>, which aborts on bytes that are not UTF-8, so the parsers are outcomes.
\<close>

record CgroupStats =
  cpu_usage_usec :: int
  cpu_user_usec :: int
  cpu_system_usec :: int
  memory_current :: int
  memory_oom :: int
  memory_oom_kill :: int
  memory_oom_group_kill :: int
  io_read_bytes :: int
  io_write_bytes :: int
  io_read_ops :: int
  io_write_ops :: int

definition zero_stats :: CgroupStats where
  "zero_stats = \<lparr>cpu_usage_usec = 0, cpu_user_usec = 0, cpu_system_usec = 0, memory_current = 0,
     memory_oom = 0, memory_oom_kill = 0, memory_oom_group_kill = 0, io_read_bytes = 0,
     io_write_bytes = 0, io_read_ops = 0, io_write_ops = 0\<rparr>"

type_synonym StatMap = "string \<Rightarrow> int option"

text \<open>\<open>TRY\<close> inside a function that may abort.\<close>

definition try_out :: "('e + 'a) outcome \<Rightarrow> ('a \<Rightarrow> ('e + 'b) outcome) \<Rightarrow> ('e + 'b) outcome" where
  "try_out r k = and_then r (\<lambda>v. case v of Inl e \<Rightarrow> Returns (Inl e) | Inr x \<Rightarrow> k x)"

definition ParseStatValue :: "('u, 'z) vendor_scheme \<Rightarrow> string \<Rightarrow> (string + int) outcome" where
  "ParseStatValue V val =
     (let trimmed = TrimView V val in
      case Parse_signed 64 trimmed of
        None \<Rightarrow> and_then (deref_text V (''invalid cgroup integer '' @ [CHR 0x27] @ val @ [CHR 0x27]))
                  (\<lambda>msg. Returns (Inl msg))
      | Some parsed \<Rightarrow> Returns (Inr parsed))"

definition newline :: char where
  "newline = CHR 0x0A"

text \<open>
  The loop of \<open>ForEachLine\<close>: the handler threads the state that the lambda captures by
  reference; a blank line is skipped.
\<close>

fun handle_lines ::
    "('u, 'z) vendor_scheme \<Rightarrow> ('s \<Rightarrow> string \<Rightarrow> (string + 's) outcome) \<Rightarrow> string list \<Rightarrow> 's \<Rightarrow>
     (string + 's) outcome" where
  "handle_lines V handle [] st = Returns (Inr st)"
| "handle_lines V handle (l # ls) st =
     (let line = TrimView V l in
      if line \<noteq> [] then try_out (handle st line) (handle_lines V handle ls)
      else handle_lines V handle ls st)"

definition ForEachLine ::
    "('u, 'z) vendor_scheme \<Rightarrow> string \<Rightarrow> ('s \<Rightarrow> string \<Rightarrow> (string + 's) outcome) \<Rightarrow> 's \<Rightarrow>
     (string + 's) outcome" where
  "ForEachLine V text handle st = handle_lines V handle (split_from newline text 0) st"

definition ValueOrZero :: "StatMap \<Rightarrow> string \<Rightarrow> int" where
  "ValueOrZero stats key = (case stats key of None \<Rightarrow> 0 | Some v \<Rightarrow> v)"

definition ParseFlatStatLine ::
    "('u, 'z) vendor_scheme \<Rightarrow> StatMap \<Rightarrow> string \<Rightarrow> (string + StatMap) outcome" where
  "ParseFlatStatLine V stats line =
     (case find_char (CHR '' '') line 0 of
        None \<Rightarrow> Returns (Inr stats)
      | Some split \<Rightarrow>
          let key = substr line 0 split in
          try_out (ParseStatValue V (substr_from line (split + 1)))
            (\<lambda>v. Returns (Inr (stats(key \<mapsto> v)))))"

definition ParseFlatStat ::
    "('u, 'z) vendor_scheme \<Rightarrow> string \<Rightarrow> (string + StatMap) outcome" where
  "ParseFlatStat V text = ForEachLine V text (ParseFlatStatLine V) Map.empty"

text \<open>\<open>stats[key] += value\<close> starts a missing entry at zero.\<close>

fun parse_io_tokens ::
    "('u, 'z) vendor_scheme \<Rightarrow> StatMap \<Rightarrow> string list \<Rightarrow> (string + StatMap) outcome" where
  "parse_io_tokens V stats [] = Returns (Inr stats)"
| "parse_io_tokens V stats (token # tokens) =
     (case find_char (CHR '':'') token 0 of
        None \<Rightarrow> parse_io_tokens V stats tokens
      | Some colon \<Rightarrow>
          let key = substr token 0 colon in
          try_out (ParseStatValue V (substr_from token (colon + 1)))
            (\<lambda>v. parse_io_tokens V (stats(key \<mapsto> wrap64 (ValueOrZero stats key + v))) tokens))"

definition ParseIoStatLine ::
    "('u, 'z) vendor_scheme \<Rightarrow> StatMap \<Rightarrow> string \<Rightarrow> (string + StatMap) outcome" where
  "ParseIoStatLine V stats line = parse_io_tokens V stats (drop 1 (SplitIntoStringViewVector V line '' ''))"

definition ParseIoStat :: "('u, 'z) vendor_scheme \<Rightarrow> string \<Rightarrow> (string + StatMap) outcome" where
  "ParseIoStat V text = ForEachLine V text (ParseIoStatLine V) Map.empty"

definition ApplyCpuStats :: "CgroupStats \<Rightarrow> StatMap \<Rightarrow> CgroupStats" where
  "ApplyCpuStats out stats = out\<lparr>cpu_usage_usec := ValueOrZero stats ''usage_usec'',
     cpu_user_usec := ValueOrZero stats ''user_usec'',
     cpu_system_usec := ValueOrZero stats ''system_usec''\<rparr>"

definition ApplyMemoryEvents :: "CgroupStats \<Rightarrow> StatMap \<Rightarrow> CgroupStats" where
  "ApplyMemoryEvents out stats = out\<lparr>memory_oom := ValueOrZero stats ''oom'',
     memory_oom_kill := ValueOrZero stats ''oom_kill'',
     memory_oom_group_kill := ValueOrZero stats ''oom_group_kill''\<rparr>"

definition ApplyIoStats :: "CgroupStats \<Rightarrow> StatMap \<Rightarrow> CgroupStats" where
  "ApplyIoStats out stats = out\<lparr>io_read_bytes := ValueOrZero stats ''rbytes'',
     io_write_bytes := ValueOrZero stats ''wbytes'', io_read_ops := ValueOrZero stats ''rios'',
     io_write_ops := ValueOrZero stats ''wios''\<rparr>"

definition ApplySnapshotSection ::
    "('u, 'z) vendor_scheme \<Rightarrow> CgroupStats \<Rightarrow> string \<Rightarrow> string \<Rightarrow> (string + CgroupStats) outcome" where
  "ApplySnapshotSection V out section body =
     (if section = ''cpu.stat'' then
        try_out (ParseFlatStat V body) (\<lambda>m. Returns (Inr (ApplyCpuStats out m)))
      else if section = ''memory.current'' then
        try_out (ParseStatValue V body) (\<lambda>v. Returns (Inr (out\<lparr>memory_current := v\<rparr>)))
      else if section = ''memory.events'' then
        try_out (ParseFlatStat V body) (\<lambda>m. Returns (Inr (ApplyMemoryEvents out m)))
      else if section = ''io.stat'' then
        try_out (ParseIoStat V body) (\<lambda>m. Returns (Inr (ApplyIoStats out m)))
      else Returns (Inr out))"

definition plus_stats :: "CgroupStats \<Rightarrow> CgroupStats \<Rightarrow> CgroupStats" where
  "plus_stats lhs rhs = \<lparr>
     cpu_usage_usec = wrap64 (cpu_usage_usec lhs + cpu_usage_usec rhs),
     cpu_user_usec = wrap64 (cpu_user_usec lhs + cpu_user_usec rhs),
     cpu_system_usec = wrap64 (cpu_system_usec lhs + cpu_system_usec rhs),
     memory_current = wrap64 (memory_current lhs + memory_current rhs),
     memory_oom = wrap64 (memory_oom lhs + memory_oom rhs),
     memory_oom_kill = wrap64 (memory_oom_kill lhs + memory_oom_kill rhs),
     memory_oom_group_kill = wrap64 (memory_oom_group_kill lhs + memory_oom_group_kill rhs),
     io_read_bytes = wrap64 (io_read_bytes lhs + io_read_bytes rhs),
     io_write_bytes = wrap64 (io_write_bytes lhs + io_write_bytes rhs),
     io_read_ops = wrap64 (io_read_ops lhs + io_read_ops rhs),
     io_write_ops = wrap64 (io_write_ops lhs + io_write_ops rhs)\<rparr>"

definition HasBrowserOomKill :: "CgroupStats \<Rightarrow> bool" where
  "HasBrowserOomKill stats \<longleftrightarrow> memory_oom_kill stats > 0 \<or> memory_oom_group_kill stats > 0"

text \<open>
  \<open>ReadCgroupStats\<close> over the contents of the directory: \<open>None\<close> for a file that cannot be read.
\<close>

definition on_file ::
    "string option \<Rightarrow> (string \<Rightarrow> (string + CgroupStats) outcome) \<Rightarrow> CgroupStats \<Rightarrow>
     (string + CgroupStats) outcome" where
  "on_file contents f out = (case contents of None \<Rightarrow> Returns (Inr out) | Some text \<Rightarrow> f text)"

definition ReadCgroupStats ::
    "('u, 'z) vendor_scheme \<Rightarrow> (string \<Rightarrow> string option) \<Rightarrow> string \<Rightarrow> (string + CgroupStats) outcome" where
  "ReadCgroupStats V files cgroup_path =
     (let out = zero_stats in
      try_out (on_file (files (cgroup_path @ ''/cpu.stat'')) (\<lambda>t.
         try_out (ParseFlatStat V t) (\<lambda>m. Returns (Inr (ApplyCpuStats out m)))) out) (\<lambda>out.
      try_out (on_file (files (cgroup_path @ ''/memory.current'')) (\<lambda>t.
         try_out (ParseStatValue V t) (\<lambda>v. Returns (Inr (out\<lparr>memory_current := v\<rparr>)))) out) (\<lambda>out.
      try_out (on_file (files (cgroup_path @ ''/memory.events'')) (\<lambda>t.
         try_out (ParseFlatStat V t) (\<lambda>m. Returns (Inr (ApplyMemoryEvents out m)))) out) (\<lambda>out.
      on_file (files (cgroup_path @ ''/io.stat'')) (\<lambda>t.
         try_out (ParseIoStat V t) (\<lambda>m. Returns (Inr (ApplyIoStats out m)))) out))))"

text \<open>The snapshot parser's state: the stats so far, the open section and its body.\<close>

definition snapshot_line ::
    "('u, 'z) vendor_scheme \<Rightarrow> CgroupStats \<times> string \<times> string \<Rightarrow> string \<Rightarrow>
     (string + CgroupStats \<times> string \<times> string) outcome" where
  "snapshot_line V st line =
     (case st of (out, section, body) \<Rightarrow>
        if prefix ''['' line \<and> suffix '']'' line then
          (if section \<noteq> [] then
             try_out (ApplySnapshotSection V out section body)
               (\<lambda>out'. Returns (Inr (out', substr line 1 (length line - 2), [])))
           else Returns (Inr (out, substr line 1 (length line - 2), body)))
        else if section \<noteq> [] then Returns (Inr (out, section, body @ line @ [newline]))
        else Returns (Inr (out, section, body)))"

definition ParseCgroupStatsSnapshot ::
    "('u, 'z) vendor_scheme \<Rightarrow> string \<Rightarrow> (string + CgroupStats) outcome" where
  "ParseCgroupStatsSnapshot V snapshot =
     try_out (ForEachLine V snapshot (snapshot_line V) (zero_stats, [], []))
       (\<lambda>(out, section, body).
          if section \<noteq> [] then ApplySnapshotSection V out section body else Returns (Inr out))"

definition FormatCgroupStats :: "('u, 'z) vendor_scheme \<Rightarrow> CgroupStats \<Rightarrow> string outcome" where
  "FormatCgroupStats V stats = deref_text V
     (''cpu_usage_usec='' @ int_to_string (cpu_usage_usec stats) @
      '', cpu_user_usec='' @ int_to_string (cpu_user_usec stats) @
      '', cpu_system_usec='' @ int_to_string (cpu_system_usec stats) @
      '', memory_current='' @ int_to_string (memory_current stats) @
      '', memory_oom='' @ int_to_string (memory_oom stats) @
      '', memory_oom_kill='' @ int_to_string (memory_oom_kill stats) @
      '', memory_oom_group_kill='' @ int_to_string (memory_oom_group_kill stats) @
      '', io_read_bytes='' @ int_to_string (io_read_bytes stats) @
      '', io_write_bytes='' @ int_to_string (io_write_bytes stats) @
      '', io_read_ops='' @ int_to_string (io_read_ops stats) @
      '', io_write_ops='' @ int_to_string (io_write_ops stats))"

lemma try_out_simps [simp]:
  "try_out (Returns (Inr v)) k = k v" "try_out (Returns (Inl e)) k = Returns (Inl e)"
  "try_out (Aborts m) k = Aborts m" "try_out (Throws m) k = Throws m"
  by (simp_all add: try_out_def)

end
