(* ===== verification/Crawler_Error.thy ===== *)
theory Crawler_Error
  imports Cgroup_Stats
begin

text \<open>
  \<open>include/crawler/fallback.hpp\<close> and \<open>src/crawler/error.cpp\<close>: what can go wrong in a crawl, when
  the crawl is tried again over HTTP, and the text kept for diagnostics.
\<close>

record SeedProbe =
  sp_status :: "int option"
  sp_load_state :: "int option"

datatype CrawlerErrorKind =
  kBrowserStart | kDevtoolsStartup | kCdp | kNavigation | kProxy | kArchiveSizeLimit
| kArchiveBuild | kBrowserResource | kNoArchiveProduced | kCancelled | kInternal

record RawProcessStatus =
  rp_exited :: bool
  rp_status :: "int option"

record CrawlerError =
  ce_kind :: CrawlerErrorKind
  ce_detail :: "string option"
  ce_seed_probe :: "SeedProbe option"
  ce_cgroup_stats :: "CgroupStats option"
  ce_process_status :: "RawProcessStatus option"

definition IsNoResponseSeedError :: "SeedProbe option \<Rightarrow> bool" where
  "IsNoResponseSeedError probe =
     (case probe of
        None \<Rightarrow> False
      | Some p \<Rightarrow>
          let status = (case sp_status p of None \<Rightarrow> 0 | Some s \<Rightarrow> s) in
          if status = 502 then True
          else case sp_load_state p of
            None \<Rightarrow> False
          | Some load_state \<Rightarrow>
              if load_state \<noteq> 0 then False
              else if status \<ge> 400 then False
              else status = 0)"

definition ShouldRetryWithHttp :: "CrawlerError \<Rightarrow> bool" where
  "ShouldRetryWithHttp https_error =
     (if ce_kind https_error \<noteq> kNavigation then False
      else IsNoResponseSeedError (ce_seed_probe https_error))"

fun CrawlerErrorKindText :: "CrawlerErrorKind \<Rightarrow> string" where
  "CrawlerErrorKindText kBrowserStart = ''browser start error''"
| "CrawlerErrorKindText kDevtoolsStartup = ''devtools startup error''"
| "CrawlerErrorKindText kCdp = ''cdp error''"
| "CrawlerErrorKindText kNavigation = ''navigation error''"
| "CrawlerErrorKindText kProxy = ''proxy error''"
| "CrawlerErrorKindText kArchiveSizeLimit = ''archive size limit error''"
| "CrawlerErrorKindText kArchiveBuild = ''archive build error''"
| "CrawlerErrorKindText kBrowserResource = ''browser resource error''"
| "CrawlerErrorKindText kNoArchiveProduced = ''archive output error''"
| "CrawlerErrorKindText kCancelled = ''crawler cancelled''"
| "CrawlerErrorKindText kInternal = ''internal crawler error''"

definition kProcessOutputRetainedBytes :: nat where
  "kProcessOutputRetainedBytes = 4096"

definition kSkippedMarker :: string where
  "kSkippedMarker = newline # ''...skipped...'' @ [newline]"

definition RetainLogHeadAndTail :: "string \<Rightarrow> int \<Rightarrow> string" where
  "RetainLogHeadAndTail bytes limit_bytes =
     (if limit_bytes \<le> 0 then []
      else let limit = nat limit_bytes in
        if length bytes \<le> limit then bytes
        else let head_size = limit div 2; tail_size = limit - head_size in
          take head_size bytes @ kSkippedMarker @ take tail_size (drop (length bytes - tail_size) bytes))"

definition RetainProcessOutputText :: "('u, 'z) vendor_scheme \<Rightarrow> string \<Rightarrow> string outcome" where
  "RetainProcessOutputText V bytes =
     deref_text V (RetainLogHeadAndTail bytes (int kProcessOutputRetainedBytes))"

text \<open>The output of a process: \<open>None\<close> when its file cannot be read or is empty.\<close>

definition ReadProcessOutputText ::
    "('u, 'z) vendor_scheme \<Rightarrow> string option \<Rightarrow> string option outcome" where
  "ReadProcessOutputText V contents =
     (case contents of None \<Rightarrow> Returns None
      | Some bytes \<Rightarrow> and_then (RetainProcessOutputText V bytes)
          (\<lambda>text. Returns (if text \<noteq> [] then Some text else None)))"

definition quoted :: "string \<Rightarrow> string \<Rightarrow> string" where
  "quoted name text = name @ ''='' @ [CHR 0x22] @ text @ [CHR 0x22]"

definition FormatProcessOutputDiagnostics ::
    "('u, 'z) vendor_scheme \<Rightarrow> string option \<Rightarrow> string option \<Rightarrow> string option outcome" where
  "FormatProcessOutputDiagnostics V stdout_contents stderr_contents =
     and_then (ReadProcessOutputText V stdout_contents) (\<lambda>stdout_text.
     and_then (ReadProcessOutputText V stderr_contents) (\<lambda>stderr_text.
       if stdout_text = None \<and> stderr_text = None then Returns None
       else and_then (case stdout_text of None \<Rightarrow> Returns []
                      | Some t \<Rightarrow> deref_text V (quoted ''stdout'' t)) (\<lambda>detail.
         case stderr_text of None \<Rightarrow> Returns (Some detail)
         | Some t \<Rightarrow>
             let detail = (if detail \<noteq> [] then text_append V detail '', '' else detail) in
             and_then (deref_text V (quoted ''stderr'' t))
               (\<lambda>e. Returns (Some (text_append V detail e))))))"

definition FormatCrawlerError :: "('u, 'z) vendor_scheme \<Rightarrow> CrawlerError \<Rightarrow> string outcome" where
  "FormatCrawlerError V error =
     and_then (deref_text V (CrawlerErrorKindText (ce_kind error))) (\<lambda>msg.
     and_then (case ce_seed_probe error of None \<Rightarrow> Returns msg
       | Some p \<Rightarrow> and_then (deref_text V ('', seedProbe status='' @
            int_to_string (case sp_status p of None \<Rightarrow> 0 | Some s \<Rightarrow> s) @ '' loadState='' @
            int_to_string (case sp_load_state p of None \<Rightarrow> -1 | Some s \<Rightarrow> s)))
            (\<lambda>t. Returns (text_append V msg t))) (\<lambda>msg.
     and_then (case ce_detail error of None \<Rightarrow> Returns msg
       | Some d \<Rightarrow> Returns (text_append V (if msg \<noteq> [] then text_append V msg '', '' else msg) d)) (\<lambda>msg.
     case ce_cgroup_stats error of None \<Rightarrow> Returns msg
       | Some st \<Rightarrow> and_then (FormatCgroupStats V st) (\<lambda>c.
           and_then (deref_text V ('', cgroup='' @ c)) (\<lambda>t. Returns (text_append V msg t))))))"

section \<open>When HTTP is tried\<close>

lemma ShouldRetryWithHttp_iff:
  "ShouldRetryWithHttp e \<longleftrightarrow> ce_kind e = kNavigation \<and>
     (\<exists>p. ce_seed_probe e = Some p \<and>
        (sp_status p = Some 502 \<or>
         (sp_load_state p = Some 0 \<and> (sp_status p = None \<or> sp_status p = Some 0))))"
  by (auto simp: ShouldRetryWithHttp_def IsNoResponseSeedError_def Let_def split: option.splits)

lemma RetainLog_length:
  "length (RetainLogHeadAndTail bytes limit) \<le> nat limit + length kSkippedMarker"
  by (auto simp: RetainLogHeadAndTail_def Let_def)

end
