(* ===== verification/Crud_Jobs.thy ===== *)
theory Crud_Jobs
  imports Capture_Meta_Repo Crawler_Error
begin

text \<open>
  The write side of \<open>src/crud.cpp\<close>: crawl jobs and their background task, persisting a capture,
  purging a denied prefix, and the cleanup of old jobs.  The crawler is an argument \<open>run\<close> of
  the operations that start it (\<open>CrawlerRunner::Run\<close>).  A detached task is returned beside the
  answer of the request that starts it, so that a caller can place it anywhere in a sequence of
  steps.  Log lines are left out, and so are the crawl-slot semaphore and the deadlines, whose
  effect on a task is a cancellation (\<open>cancel_requested\<close>, or \<open>run\<close> raising).
\<close>

datatype CrudError = CrudDbError
datatype CreateJobError = CreateJobDbError
datatype CaptureErrorKind = CkCrawler | CkSizeLimit | CkPersistMetadataFailed

record CaptureError =
  cerr_kind :: CaptureErrorKind
  cerr_detail :: "string option"

record crud_config =
  link_ratelimit :: int
  crawl_job_retention :: int
  HttpsOnly :: bool
  S3Bucket :: string
  purge_delete_batch_size :: nat

datatype JobStatus = JPending | JRunning | JSucceeded | JFailed
datatype JobErrorKind = EkSizeLimit | EkCrawler | EkS3Upload | EkDbInsert | EkInternalServer

section \<open>The public view of a job\<close>

record UuidWithTimeLink =
  ut_uuid :: Uuid
  ut_created_at :: int
  ut_link :: string

record CaptureJob =
  cj_uuid :: Uuid
  cj_link :: string
  cj_status :: JobStatus
  cj_created_at :: int
  cj_started_at :: "int option"
  cj_finished_at :: "int option"
  cj_result_created_at :: "int option"
  cj_error :: "string option"
  cj_result :: "UuidWithTimeLink option"

definition MakePendingCaptureJob :: "Uuid \<Rightarrow> string \<Rightarrow> int \<Rightarrow> CaptureJob" where
  "MakePendingCaptureJob uuid link created_at =
     \<lparr>cj_uuid = uuid, cj_link = link, cj_status = JPending, cj_created_at = created_at,
      cj_started_at = None, cj_finished_at = None, cj_result_created_at = None, cj_error = None,
      cj_result = None\<rparr>"

definition ParseJobStatus :: "string \<Rightarrow> JobStatus outcome" where
  "ParseJobStatus status =
     (if status = ''pending'' then Returns JPending
      else if status = ''running'' then Returns JRunning
      else if status = ''succeeded'' then Returns JSucceeded
      else if status = ''failed'' then Returns JFailed
      else Aborts ''unexpected crawl_job.status'')"

definition ParseJobErrorKind :: "string option \<Rightarrow> JobErrorKind option outcome" where
  "ParseJobErrorKind category =
     (case category of
        None \<Rightarrow> Returns None
      | Some c \<Rightarrow>
          if c = ''size_limit'' then Returns (Some EkSizeLimit)
          else if c = ''crawler_failed'' then Returns (Some EkCrawler)
          else if c = ''s3_upload_failed'' then Returns (Some EkS3Upload)
          else if c = ''db_insert_failed'' then Returns (Some EkDbInsert)
          else if c = ''internal_server_error'' then Returns (Some EkInternalServer)
          else Aborts ''unexpected crawl_job.error_category'')"

definition PublicJobErrorMessage :: "JobErrorKind option \<Rightarrow> string" where
  "PublicJobErrorMessage error =
     (case error of
        None \<Rightarrow> ''internal server error''
      | Some EkSizeLimit \<Rightarrow> ''capture exceeded archive size limit''
      | Some EkCrawler \<Rightarrow> ''capture failed''
      | Some EkS3Upload \<Rightarrow> ''internal server error''
      | Some EkDbInsert \<Rightarrow> ''internal server error''
      | Some EkInternalServer \<Rightarrow> ''internal server error'')"

definition MakeCaptureJob :: "SharedCrawlJobRow \<Rightarrow> CaptureJob outcome" where
  "MakeCaptureJob row =
     and_then (ParseJobStatus (job_status row)) (\<lambda>status.
     and_then (if status = JFailed
               then and_then (ParseJobErrorKind (error_category row))
                      (\<lambda>k. Returns (Some (PublicJobErrorMessage k)))
               else Returns None) (\<lambda>err.
     and_then (case (status, result_created_at row) of
         (JSucceeded, Some created) \<Rightarrow>
           Invariant (result_capture_id row \<noteq> None) ''succeeded job must have result_capture_id''
             (Returns (Some \<lparr>ut_uuid = the (result_capture_id row), ut_created_at = created,
                             ut_link = job_link row\<rparr>))
       | _ \<Rightarrow> Returns None) (\<lambda>result.
     Returns \<lparr>cj_uuid = job_uuid row, cj_link = job_link row, cj_status = status,
       cj_created_at = job_created_at row, cj_started_at = started_at row,
       cj_finished_at = finished_at row, cj_result_created_at = result_created_at row,
       cj_error = err, cj_result = result\<rparr>)))"

section \<open>Objects\<close>

definition MakeCaptureObjectKey :: "('u, 'z) vendor_scheme \<Rightarrow> string \<Rightarrow> Uuid \<Rightarrow> string outcome" where
  "MakeCaptureObjectKey V bucket i = deref_text V (bucket @ ''/'' @ uuid_to_string V i @ ''.wacz'')"

text \<open>
  \<open>RunS3Operation\<close>: an exception becomes an error, unless the task is being cancelled, when it
  goes on.
\<close>

definition RunS3Operation :: "(world \<Rightarrow> world) \<Rightarrow> (string + unit) act" where
  "RunS3Operation effect w =
     (let raise = (\<lambda>m w'. if cancel_requested w (calls w) then (Throws m, tick w')
                          else (Returns (Inl m), tick w'))
      in case s3_fault w (calls w) of
           NoFault \<Rightarrow> (Returns (Inr ()), tick (effect w))
         | FailBefore m \<Rightarrow> raise m w
         | FailAfter m \<Rightarrow> raise m (effect w))"

definition PutCaptureObject :: "string \<Rightarrow> string \<Rightarrow> (string + unit) act" where
  "PutCaptureObject key bytes =
     RunS3Operation (\<lambda>w. w\<lparr>objects := (objects w)(key \<mapsto> bytes)\<rparr>)"

definition DeleteCaptureObject :: "string \<Rightarrow> (string + unit) act" where
  "DeleteCaptureObject key =
     RunS3Operation (\<lambda>w. w\<lparr>objects := (objects w)(key := None)\<rparr>)"

section \<open>Running the crawler\<close>

record CrawlerRunArtifacts =
  ra_error :: "CrawlerError option"
  ra_stdout_log :: string
  ra_stderr_log :: string
  ra_wacz :: "string option"
  ra_pages_jsonl :: "string option"
  ra_content_sha256 :: "string option"
  ra_replay_url :: "string option"

record 'u CrawlContext =
  cx_link :: 'u
  cx_id :: Uuid
  cx_s3_key :: string
  cx_wacz_bytes :: "string option"
  cx_content_sha256 :: "string option"
  cx_replay_url :: "'u option"
  cx_error_message :: "string option"

record StoredCapture =
  sc_id :: Uuid
  sc_created_at :: int

definition MakeCrawlContext ::
    "('u, 'z) vendor_scheme \<Rightarrow> crud_config \<Rightarrow> Uuid \<Rightarrow> 'u \<Rightarrow> 'u CrawlContext outcome" where
  "MakeCrawlContext V cfg i link =
     and_then (MakeCaptureObjectKey V (S3Bucket cfg) i) (\<lambda>key.
       Returns \<lparr>cx_link = link, cx_id = i, cx_s3_key = key, cx_wacz_bytes = None,
                cx_content_sha256 = None, cx_replay_url = None, cx_error_message = None\<rparr>)"

definition MakeCaptureError :: "('u, 'z) vendor_scheme \<Rightarrow> CrawlerError \<Rightarrow> CaptureError outcome" where
  "MakeCaptureError V error =
     and_then (FormatCrawlerError V error) (\<lambda>d.
       Returns \<lparr>cerr_kind = (if ce_kind error = kArchiveSizeLimit then CkSizeLimit else CkCrawler),
                cerr_detail = Some d\<rparr>)"

text \<open>The lambda \<open>try_store_success\<close>; reading an unparsable \<open>replay_url\<close> is undefined.\<close>

definition try_store_success ::
    "('u, 'z) vendor_scheme \<Rightarrow> 'u CrawlContext \<Rightarrow> CrawlerRunArtifacts \<Rightarrow>
     (bool \<times> 'u CrawlContext) outcome" where
  "try_store_success V ctx run =
     (if ra_error run \<noteq> None then Returns (False, ctx)
      else Invariant (ra_wacz run \<noteq> None) ''crawler succeeded but did not provide WACZ bytes''
        (Invariant (ra_content_sha256 run \<noteq> None)
           ''crawler did not provide content hash for a successful capture''
        (Invariant (length (the (ra_content_sha256 run)) = 32) ''content hash must be 32 bytes''
        (Invariant (ra_replay_url run \<noteq> None)
           ''crawler did not provide replay_url for a successful capture''
        (case Url_FromText V (the (ra_replay_url run)) of
           None \<Rightarrow> Aborts ''empty optional''
         | Some u \<Rightarrow> Returns (True, ctx\<lparr>cx_wacz_bytes := ra_wacz run,
             cx_content_sha256 := ra_content_sha256 run, cx_replay_url := Some u\<rparr>))))))"

definition crawl_failed ::
    "('u, 'z) vendor_scheme \<Rightarrow> 'u CrawlContext \<Rightarrow> CrawlerError \<Rightarrow>
     ((CaptureError + unit) \<times> 'u CrawlContext) outcome" where
  "crawl_failed V ctx error =
     and_then (ToKey V (cx_link ctx)) (\<lambda>key.
     and_then (deref_text V (''Crawler error for '' @ key)) (\<lambda>msg.
     and_then (MakeCaptureError V error) (\<lambda>e.
       Returns (Inl e, ctx\<lparr>cx_error_message := Some msg\<rparr>))))"

definition RunCrawlerForContext ::
    "('u, 'z) vendor_scheme \<Rightarrow> crud_config \<Rightarrow> (string \<Rightarrow> CrawlerRunArtifacts act) \<Rightarrow> 'u CrawlContext \<Rightarrow>
     ((CaptureError + unit) \<times> 'u CrawlContext) act" where
  "RunCrawlerForContext V cfg run ctx =
     bind_act (of_outcome (HttpsUrl V (cx_link ctx))) (\<lambda>https_seed_url.
     bind_act (of_outcome (HttpUrl V (cx_link ctx))) (\<lambda>http_seed_url.
     bind_act (run https_seed_url) (\<lambda>https_run.
     bind_act (of_outcome (try_store_success V ctx https_run)) (\<lambda>(stored, ctx).
       if stored then ret (Inr (), ctx)
       else case ra_error https_run of
         None \<Rightarrow> of_outcome (Aborts ''unsuccessful crawler run must include error'')
       | Some https_error \<Rightarrow>
           if HttpsOnly cfg then of_outcome (crawl_failed V ctx https_error)
           else if \<not> ShouldRetryWithHttp https_error then of_outcome (crawl_failed V ctx https_error)
           else
             bind_act (run http_seed_url) (\<lambda>http_run.
             bind_act (of_outcome (try_store_success V ctx http_run)) (\<lambda>(stored, ctx).
               if stored then ret (Inr (), ctx)
               else case ra_error http_run of
                 None \<Rightarrow> of_outcome (Aborts ''unsuccessful HTTP fallback must include error'')
               | Some http_error \<Rightarrow> of_outcome (crawl_failed V ctx http_error)))))))"

section \<open>Persisting a capture\<close>

text \<open>The upload and the insert, undone by deleting the object when the insert fails.\<close>

definition persist_new ::
    "('u, 'z) vendor_scheme \<Rightarrow> 'u CrawlContext \<Rightarrow> string \<Rightarrow> string \<Rightarrow> StoredCapture option act" where
  "persist_new V ctx prefix_key link_key =
     bind_act (PutCaptureObject (cx_s3_key ctx) (the (cx_wacz_bytes ctx))) (\<lambda>uploaded.
     case uploaded of
       Inl _ \<Rightarrow> bind_act (modify (AccountError kS3PutObject)) (\<lambda>_. ret None)
     | Inr _ \<Rightarrow>
         bind_act (of_outcome (Href V (the (cx_replay_url ctx)))) (\<lambda>href.
         bind_act (InsertCapture (cx_id ctx) link_key prefix_key (MakePrefixTree V prefix_key)
                     (the (cx_content_sha256 ctx)) href) (\<lambda>row.
         case row of
           Inl _ \<Rightarrow>
             bind_act (DeleteCaptureObject (cx_s3_key ctx)) (\<lambda>deleted.
             bind_act (case deleted of
                 Inl _ \<Rightarrow> modify (AccountError kS3DeleteObject) | Inr _ \<Rightarrow> ret ())
               (\<lambda>_. ret None))
         | Inr r \<Rightarrow> ret (Some \<lparr>sc_id = cx_id ctx, sc_created_at = ic_created_at r\<rparr>))))"

text \<open>The part after the access check: an earlier capture with the same content is reused.\<close>

definition persist_allowed ::
    "('u, 'z) vendor_scheme \<Rightarrow> 'u CrawlContext \<Rightarrow> string \<Rightarrow> StoredCapture option act" where
  "persist_allowed V ctx prefix_key =
     bind_act (of_outcome (Invariant (cx_wacz_bytes ctx \<noteq> None)
        ''persistMetadataForContext called without WACZ bytes''
       (Invariant (cx_content_sha256 ctx \<noteq> None)
          ''persistMetadataForContext called without content hash''
       (Invariant (length (the (cx_content_sha256 ctx)) = 32) ''content hash must be 32 bytes''
         (ToKey V (cx_link ctx)))))) (\<lambda>link_key.
     bind_act (FindCaptureByLinkHash link_key (the (cx_content_sha256 ctx))) (\<lambda>existing.
     case existing of
       Inl _ \<Rightarrow> ret None
     | Inr (Some row) \<Rightarrow> ret (Some \<lparr>sc_id = mi_uuid row, sc_created_at = mi_created_at row\<rparr>)
     | Inr None \<Rightarrow> persist_new V ctx prefix_key link_key))"

definition PersistMetadataForContext ::
    "('u, 'z) vendor_scheme \<Rightarrow> 'u CrawlContext \<Rightarrow> StoredCapture option act" where
  "PersistMetadataForContext V ctx =
     bind_act (of_outcome (MakePrefixKey V (cx_link ctx))) (\<lambda>prefix_key.
     bind_act (of_outcome (Invariant (cx_replay_url ctx \<noteq> None)
        ''replayUrl must be set for a successful capture'' (Returns ()))) (\<lambda>_.
     bind_act (IsAllowedPrefix V prefix_key) (\<lambda>is_allowed. case is_allowed of
       Inl _ \<Rightarrow> bind_act (modify (AccountError kAccessPolicyCheck)) (\<lambda>_. ret None)
     | Inr False \<Rightarrow> ret None
     | Inr True \<Rightarrow> persist_allowed V ctx prefix_key)))"

definition RunCrawlJob ::
    "('u, 'z) vendor_scheme \<Rightarrow> crud_config \<Rightarrow> (string \<Rightarrow> CrawlerRunArtifacts act) \<Rightarrow> Uuid \<Rightarrow> 'u \<Rightarrow>
     (CaptureError + UuidWithTimeLink) act" where
  "RunCrawlJob V cfg run i link =
     bind_act (of_outcome (MakeCrawlContext V cfg i link)) (\<lambda>ctx.
     bind_act (RunCrawlerForContext V cfg run ctx) (\<lambda>(crawler_result, ctx).
     case crawler_result of
       Inl e \<Rightarrow> bind_act (modify (AccountError kCrawlerRun)) (\<lambda>_. ret (Inl e))
     | Inr _ \<Rightarrow>
         bind_act (PersistMetadataForContext V ctx) (\<lambda>stored.
         case stored of
           None \<Rightarrow> ret (Inl \<lparr>cerr_kind = CkPersistMetadataFailed, cerr_detail = None\<rparr>)
         | Some s \<Rightarrow> bind_act (of_outcome (ToKey V (cx_link ctx))) (\<lambda>key.
             ret (Inr \<lparr>ut_uuid = sc_id s, ut_created_at = sc_created_at s, ut_link = key\<rparr>)))))"

section \<open>Jobs\<close>

definition LoadJob :: "Uuid \<Rightarrow> (PgError + CaptureJob option) act" where
  "LoadJob i = try_act (LoadCrawlJob i) (\<lambda>row_opt. case row_opt of
      None \<Rightarrow> ret (Inr None)
    | Some row \<Rightarrow> bind_act (of_outcome (MakeCaptureJob row)) (\<lambda>j. ret (Inr (Some j))))"

definition FindLatestJobForLink :: "string \<Rightarrow> (PgError + CaptureJob option) act" where
  "FindLatestJobForLink link = try_act (FindLatestCrawlJobForLink link) (\<lambda>row_opt. case row_opt of
      None \<Rightarrow> ret (Inr None)
    | Some row \<Rightarrow> bind_act (of_outcome (MakeCaptureJob row)) (\<lambda>j. ret (Inr (Some j))))"

definition MakeOrReuseCaptureJobLocked ::
    "crud_config \<Rightarrow> string \<Rightarrow> (PgError + MakeOrReuseCrawlJobResult) act" where
  "MakeOrReuseCaptureJobLocked cfg normalized_link =
     try_act (MakeOrReuseCrawlJobLocked normalized_link (link_ratelimit cfg)) (\<lambda>result.
       bind_act (if mr_created result then modify AccountCaptureJobCreated else ret ())
         (\<lambda>_. ret (Inr result)))"

definition CleanupOldJobs :: "('u, 'z) vendor_scheme \<Rightarrow> crud_config \<Rightarrow> unit act" where
  "CleanupOldJobs V cfg =
     bind_act Now (\<lambda>now.
     bind_act (DeleteCrawlJobsExpired V (now - crawl_job_retention cfg)) (\<lambda>_. ret ()))"

definition account_marked_error :: "PgError + int \<Rightarrow> unit act" where
  "account_marked_error marked =
     (case marked of Inl _ \<Rightarrow> ret () | Inr ms \<Rightarrow> modify (AccountCaptureCompleted False ms))"

definition mark_failed :: "Uuid \<Rightarrow> string \<Rightarrow> string \<Rightarrow> unit act" where
  "mark_failed i category message =
     bind_act (MarkCrawlJobFailed i category message) account_marked_error"

definition mark_capture_error :: "Uuid \<Rightarrow> CaptureError \<Rightarrow> unit act" where
  "mark_capture_error i e =
     (if cerr_kind e = CkSizeLimit
      then mark_failed i ''size_limit'' ''capture exceeded archive size limit''
      else if cerr_kind e = CkPersistMetadataFailed
      then mark_failed i ''internal_server_error'' ''internal server error''
      else case cerr_detail e of
        Some d \<Rightarrow> mark_failed i ''crawler_failed'' d
      | None \<Rightarrow> mark_failed i ''crawler_failed'' ''crawler error'')"

definition crawl_job_body ::
    "('u, 'z) vendor_scheme \<Rightarrow> crud_config \<Rightarrow> (string \<Rightarrow> CrawlerRunArtifacts act) \<Rightarrow> Uuid \<Rightarrow> 'u \<Rightarrow> unit act" where
  "crawl_job_body V cfg run i link =
     bind_act (MarkCrawlJobRunning i) (\<lambda>running. case running of
       Inl _ \<Rightarrow> ret ()
     | Inr _ \<Rightarrow>
         bind_act (RunCrawlJob V cfg run i link) (\<lambda>result. case result of
           Inl e \<Rightarrow> mark_capture_error i e
         | Inr r \<Rightarrow>
             bind_act (MarkCrawlJobSucceeded i (ut_uuid r) (to_pg_time V (ut_created_at r)))
               (\<lambda>marked. case marked of
                  Inl _ \<Rightarrow> ret ()
                | Inr ms \<Rightarrow> modify (AccountCaptureCompleted True ms))))"

text \<open>
  The task of a job.  Its handler marks the job as failed in both cases; it raises again when
  the task was cancelled (\<open>reason\<close> is the text of the cancellation reason).
\<close>

definition crawl_job_task ::
    "('u, 'z) vendor_scheme \<Rightarrow> crud_config \<Rightarrow> (string \<Rightarrow> CrawlerRunArtifacts act) \<Rightarrow> string \<Rightarrow>
     Uuid \<Rightarrow> 'u \<Rightarrow> unit act" where
  "crawl_job_task V cfg run why i link w =
     (case crawl_job_body V cfg run i link w of
        (Throws m, w') \<Rightarrow>
          if cancel_requested w' (calls w') then
            bind_act (of_outcome (deref_text V (''crawl job cancelled: '' @ why))) (\<lambda>detail.
            bind_act (mark_failed i ''crawler_failed'' detail) (\<lambda>_. of_outcome (Throws m))) w'
          else mark_failed i ''internal_server_error'' ''internal server error'' w'
      | (r, w') \<Rightarrow> (r, w'))"

text \<open>
  \<open>Crud::MakeCaptureJob\<close>: the answer, and the identifier and link of the task to start.
\<close>

definition Crud_MakeCaptureJob ::
    "('u, 'z) vendor_scheme \<Rightarrow> crud_config \<Rightarrow> 'u \<Rightarrow>
     (CreateJobError + CaptureJob \<times> (Uuid \<times> 'u) option) act" where
  "Crud_MakeCaptureJob V cfg link =
     bind_act (of_outcome (ToKey V link)) (\<lambda>normalized_link.
       if link_ratelimit cfg > 0 then
         try_as (MakeOrReuseCaptureJobLocked cfg normalized_link) CreateJobDbError (\<lambda>result.
         bind_act (of_outcome (MakeCaptureJob (mr_job result))) (\<lambda>job.
           if \<not> mr_created result then ret (Inr (job, None))
           else ret (Inr (job, Some (cj_uuid job, link)))))
       else
         bind_act GenerateBoostUuid (\<lambda>i.
         try_as (InsertCrawlJob i normalized_link) CreateJobDbError (\<lambda>created_at.
         bind_act (modify AccountCaptureJobCreated) (\<lambda>_.
           ret (Inr (MakePendingCaptureJob i normalized_link created_at, Some (i, link)))))))"

definition MakeCapture ::
    "('u, 'z) vendor_scheme \<Rightarrow> crud_config \<Rightarrow> (string \<Rightarrow> CrawlerRunArtifacts act) \<Rightarrow> 'u \<Rightarrow>
     (CaptureError + UuidWithTimeLink) act" where
  "MakeCapture V cfg run link =
     bind_act GenerateBoostUuid (\<lambda>i. RunCrawlJob V cfg run i link)"

record 'u CaptureRecord =
  cr_uuid :: Uuid
  cr_created_at :: int
  cr_link :: string
  cr_replay_url :: 'u

definition Crud_FindCapture ::
    "('u, 'z) vendor_scheme \<Rightarrow> Uuid \<Rightarrow> (CrudError + 'u CaptureRecord option) act" where
  "Crud_FindCapture V uuid =
     try_as (Repo_FindCapture uuid) CrudDbError (\<lambda>capture_opt. case capture_opt of
       None \<Rightarrow> ret (Inr None)
     | Some row \<Rightarrow>
         bind_act (of_outcome (deref_text V (mb_link row))) (\<lambda>link_text.
         bind_act (of_outcome (deref_text V (mb_replay_url row))) (\<lambda>replay_url_text.
         case Url_FromText V replay_url_text of
           None \<Rightarrow> of_outcome (Aborts ''empty optional'')
         | Some u \<Rightarrow> ret (Inr (Some \<lparr>cr_uuid = uuid, cr_created_at = mb_created_at row,
             cr_link = link_text, cr_replay_url = u\<rparr>)))))"

definition FindCaptureJob :: "Uuid \<Rightarrow> (CrudError + CaptureJob option) act" where
  "FindCaptureJob uuid = try_as (LoadJob uuid) CrudDbError (\<lambda>job. ret (Inr job))"

section \<open>Purging\<close>

fun purge_batch ::
    "('u, 'z) vendor_scheme \<Rightarrow> crud_config \<Rightarrow> Uuid list \<Rightarrow> (CrudError + unit) act" where
  "purge_batch V cfg [] = ret (Inr ())"
| "purge_batch V cfg (i # ids) =
     bind_act (of_outcome (MakeCaptureObjectKey V (S3Bucket cfg) i)) (\<lambda>key.
     bind_act (DeleteCaptureObject key) (\<lambda>s3_deleted. case s3_deleted of
       Inl _ \<Rightarrow> bind_act (modify (AccountError kS3DeleteObject)) (\<lambda>_. ret (Inl CrudDbError))
     | Inr _ \<Rightarrow>
         bind_act (DeleteCapturesByIds [i]) (\<lambda>db_deleted. case db_deleted of
           Inl _ \<Rightarrow> ret (Inl CrudDbError)
         | Inr _ \<Rightarrow> purge_batch V cfg ids)))"

text \<open>A batch that goes through removes its rows and nothing else.\<close>

lemma RunS3Operation_world:
  "RunS3Operation eff w = (r, w') \<Longrightarrow> w' = tick w \<or> w' = tick (eff w)"
  by (auto simp: RunS3Operation_def Let_def split: fault.splits if_splits)

lemma DeleteCaptureObject_tables:
  assumes "DeleteCaptureObject key w = (r, w')"
  shows "captures w' = captures w"
  using RunS3Operation_world [OF assms [unfolded DeleteCaptureObject_def]] by auto

lemma CaptureReadwrite_Inr:
  assumes "CaptureReadwrite dec stmt w = (Returns (Inr v), w')"
  obtains out w1 where "stmt w = Inr (out, w1)" "dec out = Inr v" "w' = tick w1"
  using assms unfolding CaptureReadwrite_def count_failure_Inr_iff
  by (cases rule: RunReadwrite_cases [of dec stmt w]) auto

lemma DeleteCapturesByIds_Inr:
  assumes "DeleteCapturesByIds ids w = (Returns (Inr ()), w')"
  shows "captures w' = filter (\<lambda>r. cap_id r \<notin> set ids) (captures w)"
  using assms unfolding DeleteCapturesByIds_def
  by (elim CaptureReadwrite_Inr) (auto simp: sql_delete_captures_by_ids_def)

lemma purge_batch_Cons_Inr:
  assumes "purge_batch V cfg (i # ids) w = (Returns (Inr ()), w')"
  obtains key w1 w2 where "MakeCaptureObjectKey V (S3Bucket cfg) i = Returns key"
    "DeleteCaptureObject key w = (Returns (Inr ()), w1)"
    "DeleteCapturesByIds [i] w1 = (Returns (Inr ()), w2)"
    "purge_batch V cfg ids w2 = (Returns (Inr ()), w')"
  using assms
  by (auto simp: bind_act_Returns_iff of_outcome_def modify_def ret_def split: sum.splits)
    (metis obj_sumE old.unit.exhaust)+

lemma purge_batch_captures:
  assumes "purge_batch V cfg ids w = (Returns (Inr ()), w')"
  shows "captures w' = filter (\<lambda>r. cap_id r \<notin> set ids) (captures w)"
  using assms
proof (induction ids arbitrary: w)
  case Nil
  then show ?case by (simp add: ret_def)
next
  case (Cons i ids)
  from purge_batch_Cons_Inr [OF Cons.prems] obtain key w1 w2 where
    d: "DeleteCaptureObject key w = (Returns (Inr ()), w1)"
      "DeleteCapturesByIds [i] w1 = (Returns (Inr ()), w2)"
      "purge_batch V cfg ids w2 = (Returns (Inr ()), w')" by blast
  from Cons.IH [OF d(3)] DeleteCapturesByIds_Inr [OF d(2)] DeleteCaptureObject_tables [OF d(1)]
  show ?case by simp
qed

lemma ids_under_prefix_nonempty:
  assumes "sql_select_ids_by_deny_prefix_paged tree lim w \<noteq> []"
  shows "\<exists>r\<in>set (captures w). cap_id r \<in> set (sql_select_ids_by_deny_prefix_paged tree lim w)"
proof -
  let ?s = "take lim (sort_key newest_key (filter (under_tree tree) (captures w)))"
  from assms obtain r where r: "r \<in> set ?s"
    by (cases ?s) (auto simp: sql_select_ids_by_deny_prefix_paged_def)
  then have "r \<in> set (captures w)" by (auto dest: in_set_takeD)
  with r show ?thesis by (auto simp: sql_select_ids_by_deny_prefix_paged_def)
qed

lemma CaptureReadonly_cases:
  obtains e where "CaptureReadonly q w = (Returns (Inl e), AccountError kDbCaptureMetaRead (tick w))"
  | "CaptureReadonly q w = (Returns (Inr (q w)), tick w)"
  unfolding CaptureReadonly_def count_failure_def
  by (cases rule: RunReadonly_cases [of q w]) (simp_all add: ret_def modify_def bind_act_def)

lemma GetCaptureIds_answer:
  assumes "GetCaptureIdsByPrefixTree tree lim w = (Returns (Inr ids), w1)"
  shows "ids = sql_select_ids_by_deny_prefix_paged tree lim w" "w1 = tick w"
  using assms unfolding GetCaptureIdsByPrefixTree_def
  by (cases rule: CaptureReadonly_cases [of "sql_select_ids_by_deny_prefix_paged tree lim" w]; simp)+

lemma purge_round_shrinks:
  assumes "GetCaptureIdsByPrefixTree tree lim w = (Returns (Inr ids), w1)" and "ids \<noteq> []"
    and "purge_batch V cfg ids w1 = (Returns (Inr ()), w2)"
  shows "length (captures w2) < length (captures w)"
proof -
  note a = GetCaptureIds_answer [OF assms(1)]
  from ids_under_prefix_nonempty [of tree lim w] assms(2)
  obtain r where "r \<in> set (captures w)" "cap_id r \<in> set ids" by (auto simp: a(1))
  then show ?thesis
    using purge_batch_captures [OF assms(3)] by (auto simp: a(2) intro: length_filter_less)
qed

text \<open>
  The loop of \<open>PurgePrefix\<close>: batches until no capture is left under the prefix.  Every round
  that goes on has removed a row, so the loop ends.
\<close>

function purge_loop ::
    "('u, 'z) vendor_scheme \<Rightarrow> crud_config \<Rightarrow> string \<Rightarrow> (CrudError + unit) act" where
  "purge_loop V cfg tree w =
     (case GetCaptureIdsByPrefixTree tree (purge_delete_batch_size cfg) w of
        (Returns (Inr ids), w1) \<Rightarrow>
          if ids = [] then (Returns (Inr ()), w1)
          else (case purge_batch V cfg ids w1 of
             (Returns (Inr _), w2) \<Rightarrow> purge_loop V cfg tree w2
           | (r, w2) \<Rightarrow> (r, w2))
      | (Returns (Inl _), w1) \<Rightarrow> (Returns (Inl CrudDbError), w1)
      | (Throws e, w1) \<Rightarrow> (Throws e, w1)
      | (Aborts e, w1) \<Rightarrow> (Aborts e, w1))"
  by pat_completeness auto
termination
  by (relation "measure (\<lambda>(V, cfg, tree, w). length (captures w))")
    (auto intro: purge_round_shrinks [OF sym _ sym])

declare purge_loop.simps [simp del]

definition PurgePrefix ::
    "('u, 'z) vendor_scheme \<Rightarrow> crud_config \<Rightarrow> string \<Rightarrow> (CrudError + unit) act" where
  "PurgePrefix V cfg prefix_key = purge_loop V cfg (MakePrefixTree V prefix_key)"

text \<open>
  \<open>DenyPrefixAndPurge\<close> answers after the deny row is in; the purge is a detached task, which
  ends the process when it fails.
\<close>

definition DenyPrefixAndPurge ::
    "('u, 'z) vendor_scheme \<Rightarrow> string \<Rightarrow> (AccessPolicyError + string) act" where
  "DenyPrefixAndPurge V prefix_key =
     bind_act (InsertPrefix V prefix_key ''deny_and_purge'') (\<lambda>inserted. case inserted of
       Inl e \<Rightarrow> bind_act (modify (AccountError kAccessPolicyCheck)) (\<lambda>_. ret (Inl e))
     | Inr _ \<Rightarrow> ret (Inr prefix_key))"

definition purge_task :: "('u, 'z) vendor_scheme \<Rightarrow> crud_config \<Rightarrow> string \<Rightarrow> unit act" where
  "purge_task V cfg prefix_key w =
     (case PurgePrefix V cfg prefix_key w of
        (Returns (Inr _), w') \<Rightarrow> (Returns (), w')
      | (Returns (Inl _), w') \<Rightarrow> (Aborts ''Purge task failed'', w')
      | (Throws _, w') \<Rightarrow> (Aborts ''Purge task failed'', w')
      | (Aborts m, w') \<Rightarrow> (Aborts m, w'))"

end
