(* ===== verification/Crud_Correct.thy ===== *)
theory Crud_Correct
  imports Crud_Jobs
begin

text \<open>
  What the write side of \<open>src/crud.cpp\<close> guarantees, whatever fails: which tables each operation
  may touch, that a job's task leaves its job finished, that a denied link is not stored, that
  a stored capture has its row and its object, and that a purge removes what it should.
\<close>

section \<open>Guarantees of the composed operations\<close>

context guarantee
begin

lemma guar_s3: "(\<And>w. R w (eff w)) \<Longrightarrow> keeps R (RunS3Operation eff)"
proof (rule keepsI)
  fix w assume e: "\<And>w. R w (eff w)"
  obtain r w' where "RunS3Operation eff w = (r, w')" by fastforce
  with RunS3Operation_world [OF this] show "R w (snd (RunS3Operation eff w))"
    by (auto intro: ticks trans e)
qed

lemma guar_count: "keeps R m \<Longrightarrow> keeps R (count_failure e m)"
  by (rule count_failure_keeps) unfold_locales

lemma guar_capture_read: "keeps R (CaptureReadonly q)"
  unfolding CaptureReadonly_def by (intro guar_count guar_readonly)

lemma guar_shared_read: "keeps R (Readonly q)"
  unfolding Readonly_def by (intro guar_count guar_readonly)

lemma guar_policy: "keeps R (IsAllowedPrefix V key)"
  unfolding IsAllowedPrefix_def IsDeniedPrefix_def CheckDenylistTree_def
  by (intro guar_try guar_shared_read guar_ret)

text \<open>
  Persisting touches the world through the upload, the insert and the deletion only.
\<close>

lemma guar_persist:
  assumes put: "\<And>w k b. R w (w\<lparr>objects := (objects w)(k \<mapsto> b)\<rparr>)"
    and del: "\<And>w k. R w (w\<lparr>objects := (objects w)(k := None)\<rparr>)"
    and ins: "\<And>w rows. R w (w\<lparr>captures := rows\<rparr>)"
  shows "keeps R (PersistMetadataForContext V ctx)"
proof -
  have i: "keeps R (InsertCapture c l pk pt sha href)" for c l pk pt sha href
    unfolding InsertCapture_def CaptureReadwrite_def
    by (intro guar_count guar_readwrite)
      (auto simp: sql_insert_capture_def intro: ins split: if_splits)
  have f: "keeps R (FindCaptureByLinkHash l sha)" for l sha
    unfolding FindCaptureByLinkHash_def by (intro guar_try guar_capture_read guar_ret)
  have p: "keeps R (PutCaptureObject k b)" for k b
    unfolding PutCaptureObject_def by (intro guar_s3 put)
  have d: "keeps R (DeleteCaptureObject k)" for k
    unfolding DeleteCaptureObject_def by (intro guar_s3 del)
  show ?thesis
    unfolding PersistMetadataForContext_def persist_allowed_def persist_new_def
    by (intro guar_bind guar_outcome guar_policy allI)
      (auto intro!: guar_bind guar_outcome guar_policy guar_ret guar_account f p d i
        split: sum.split bool.split option.split)
qed

lemma guar_crawl:
  assumes run: "\<And>seed. keeps R (run seed)"
  shows "keeps R (RunCrawlerForContext V cfg run ctx)"
  unfolding RunCrawlerForContext_def
  by (auto intro!: guar_bind guar_outcome guar_ret run split: prod.split option.split)

lemma guar_run_job:
  assumes "\<And>seed. keeps R (run seed)"
    and "\<And>w k b. R w (w\<lparr>objects := (objects w)(k \<mapsto> b)\<rparr>)"
    and "\<And>w k. R w (w\<lparr>objects := (objects w)(k := None)\<rparr>)"
    and "\<And>w rows. R w (w\<lparr>captures := rows\<rparr>)"
  shows "keeps R (RunCrawlJob V cfg run i link)"
  unfolding RunCrawlJob_def
  by (auto intro!: guar_bind guar_outcome guar_ret guar_account guar_crawl guar_persist assms
      split: prod.split sum.split option.split)

end

section \<open>The crawler's interface\<close>

text \<open>
  What the operations rely on of the crawler: it touches no table, no object and no part of the
  environment.  (It does ask the access policy and count browser groups.)
\<close>

definition tables_same :: "world \<Rightarrow> world \<Rightarrow> bool" where
  "tables_same a b \<longleftrightarrow> same_env a b \<and> captures b = captures a \<and> crawl_jobs b = crawl_jobs a \<and>
     host_denylist b = host_denylist a \<and> host_allowlist b = host_allowlist a \<and> objects b = objects a"

definition crawler_contract :: "(string \<Rightarrow> CrawlerRunArtifacts act) \<Rightarrow> bool" where
  "crawler_contract run \<longleftrightarrow> (\<forall>seed. keeps tables_same (run seed))"

interpretation tables: guarantee tables_same
  by unfold_locales (auto simp: tables_same_def same_env_def)

lemma crawler_keeps:
  assumes "crawler_contract run" and "\<And>a b. tables_same a b \<Longrightarrow> R a b"
  shows "keeps R (run seed)"
  using assms by (auto simp: crawler_contract_def keeps_def)

text \<open>While a crawl runs and is persisted, the job table does not change.\<close>

definition jobs_same :: "world \<Rightarrow> world \<Rightarrow> bool" where
  "jobs_same a b \<longleftrightarrow> same_env a b \<and> crawl_jobs b = crawl_jobs a"

interpretation jobs_fixed: guarantee jobs_same
  by unfold_locales (auto simp: jobs_same_def same_env_def)

lemma RunCrawlJob_jobs_same:
  assumes "crawler_contract run"
  shows "keeps jobs_same (RunCrawlJob V cfg run i link)"
  by (rule jobs_fixed.guar_run_job)
    (auto intro!: crawler_keeps [OF assms] simp: jobs_same_def same_env_def tables_same_def)

text \<open>Every step of a job's task moves jobs forward only.\<close>

lemma mark_failed_keeps: "keeps world_jobs_keep (mark_failed i category message)"
  unfolding mark_failed_def account_marked_error_def
  by (auto intro!: job_life.guar_bind job_life.guar_ret job_life.guar_modify repo_jobs_keep
      split: sum.split simp: AccountCaptureCompleted_def Let_def world_jobs_keep_def jobs_keep_refl)

lemma mark_capture_error_keeps: "keeps world_jobs_keep (mark_capture_error i e)"
  unfolding mark_capture_error_def
  by (auto intro!: mark_failed_keeps split: option.split)

lemma crawl_job_body_keeps:
  assumes "crawler_contract run"
  shows "keeps world_jobs_keep (crawl_job_body V cfg run i link)"
proof -
  have "keeps world_jobs_keep (RunCrawlJob V cfg run i link)"
    using RunCrawlJob_jobs_same [OF assms, of V cfg i link]
    by (auto simp: keeps_def jobs_same_def world_jobs_keep_def jobs_keep_refl)
  then show ?thesis
    unfolding crawl_job_body_def
    by (auto intro!: job_life.guar_bind job_life.guar_ret job_life.guar_modify repo_jobs_keep
        mark_capture_error_keeps split: sum.split
        simp: AccountCaptureCompleted_def Let_def world_jobs_keep_def jobs_keep_refl)
qed

lemma crawl_job_task_keeps:
  assumes "crawler_contract run"
  shows "keeps world_jobs_keep (crawl_job_task V cfg run why i link)"
proof (rule keepsI)
  fix w
  obtain r w' where b: "crawl_job_body V cfg run i link w = (r, w')" by fastforce
  have 1: "world_jobs_keep w w'" by (rule keepsD [OF crawl_job_body_keeps [OF assms] b])
  have c: "keeps world_jobs_keep
      (bind_act (of_outcome (deref_text V (''crawl job cancelled: '' @ why))) (\<lambda>detail.
         bind_act (mark_failed i ''crawler_failed'' detail) (\<lambda>_. of_outcome (Throws m :: unit outcome))))" for m
    by (intro job_life.guar_bind job_life.guar_outcome mark_failed_keeps)
  note k = job_life.trans [OF 1 c [unfolded keeps_def, rule_format]]
    job_life.trans [OF 1 mark_failed_keeps [unfolded keeps_def, rule_format]]
  show "world_jobs_keep w (snd (crawl_job_task V cfg run why i link w))"
    using 1 k unfolding crawl_job_task_def b by (cases r) auto
qed

section \<open>A job's task finishes its job\<close>

lemma Readwrite_healthy:
  assumes "db_healthy w" and "stmt w = Inr (rows, w')"
  shows "snd (Readwrite dec stmt w) =
      (case dec rows of Inl _ \<Rightarrow> AccountError kDbSharedStateWrite (tick w') | Inr _ \<Rightarrow> tick w')"
    and "fst (Readwrite dec stmt w) = Returns (dec rows)"
  using assms
  by (auto simp: Readwrite_def count_failure_def bind_act_def RunReadwrite_healthy ret_def
      modify_def split: sum.splits)

lemma Readwrite_healthy_jobs:
  assumes "db_healthy w" and "stmt w = Inr (rows, w')"
  shows "crawl_jobs (snd (Readwrite dec stmt w)) = crawl_jobs w'"
  using Readwrite_healthy(1) [of w stmt rows w' dec] assms by (simp split: sum.splits)

lemma find_job_update:
  assumes "\<And>r. job_uuid (upd r) = job_uuid r"
  shows "find_job u (crawl_jobs (snd (update_rows cond upd w))) =
    map_option (\<lambda>r. if cond r then upd r else r) (find_job u (crawl_jobs w))"
  unfolding update_rows_def by (simp add: find_job_map assms)

lemma row_uuid [simp]:
  "job_uuid (running_row n r) = job_uuid r" "job_uuid (succeeded_row n c k r) = job_uuid r"
  "job_uuid (failed_row n cat m r) = job_uuid r"
  by (simp_all add: row_defs)

lemma find_job_uuid: "find_job u js = Some r \<Longrightarrow> job_uuid r = u"
  by (induction js) (auto split: if_splits)

lemma MarkCrawlJobRunning_healthy:
  assumes "db_healthy w" and "find_job i (crawl_jobs w) = Some r" and "job_status r = ''pending''"
  shows "fst (MarkCrawlJobRunning i w) = Returns (Inr ())"
    and "find_job i (crawl_jobs (snd (MarkCrawlJobRunning i w))) = Some (running_row (pg_now w) r)"
proof -
  let ?c = "\<lambda>r. job_uuid r = i \<and> job_status r = ''pending''"
  obtain rows w' where u: "update_rows ?c (running_row (pg_now w)) w = (rows, w')" by fastforce
  then have s: "sql_update_crawl_job_running i w = Inr (rows, w')"
    by (simp add: sql_update_crawl_job_running_def)
  show "fst (MarkCrawlJobRunning i w) = Returns (Inr ())"
    using Readwrite_healthy(2) [of w "sql_update_crawl_job_running i" rows w' "\<lambda>_. Inr ()"] assms(1) s
    by (simp add: MarkCrawlJobRunning_def)
  show "find_job i (crawl_jobs (snd (MarkCrawlJobRunning i w))) = Some (running_row (pg_now w) r)"
    using Readwrite_healthy_jobs [of w "sql_update_crawl_job_running i" rows w' "\<lambda>_. Inr ()", OF assms(1) s]
      find_job_update [of "running_row (pg_now w)" i ?c w]
      assms(2,3) find_job_uuid [OF assms(2)] by (simp add: MarkCrawlJobRunning_def u)
qed

lemma MarkCrawlJobSucceeded_healthy:
  assumes "db_healthy w" and "find_job i (crawl_jobs w) = Some r" and "job_status r = ''running''"
  shows "find_job i (crawl_jobs (snd (MarkCrawlJobSucceeded i capture created w))) =
    Some (succeeded_row (pg_now w) created capture r)"
proof -
  let ?c = "\<lambda>r. job_uuid r = i \<and> job_status r = ''running''"
  obtain rows w' where u: "update_rows ?c (succeeded_row (pg_now w) created capture) w = (rows, w')"
    by fastforce
  then have s: "sql_update_crawl_job_succeeded i created capture w = Inr (rows, w')"
    by (simp add: sql_update_crawl_job_succeeded_def)
  show ?thesis
    using Readwrite_healthy_jobs [of w "sql_update_crawl_job_succeeded i created capture" rows w' decode_duration, OF assms(1) s]
      find_job_update [of "succeeded_row (pg_now w) created capture" i ?c w]
      assms(2,3) find_job_uuid [OF assms(2)] by (simp add: MarkCrawlJobSucceeded_def u)
qed

lemma MarkCrawlJobFailed_healthy:
  assumes "db_healthy w" and "find_job i (crawl_jobs w) = Some r"
    and "job_status r = ''pending'' \<or> job_status r = ''running''" and "category \<in> set error_categories"
  shows "find_job i (crawl_jobs (snd (MarkCrawlJobFailed i category message w))) =
    Some (failed_row (pg_now w) category message r)"
proof -
  let ?c = "\<lambda>r. job_uuid r = i \<and> (job_status r = ''pending'' \<or> job_status r = ''running'')"
  obtain rows w' where u: "update_rows ?c (failed_row (pg_now w) category message) w = (rows, w')"
    by fastforce
  then have s: "sql_update_crawl_job_failed i category message w = Inr (rows, w')"
    using assms(4) by (simp add: sql_update_crawl_job_failed_def Let_def)
  show ?thesis
    using Readwrite_healthy_jobs [of w "sql_update_crawl_job_failed i category message" rows w' decode_duration, OF assms(1) s]
      find_job_update [of "failed_row (pg_now w) category message" i ?c w]
      assms(2,3) find_job_uuid [OF assms(2)] by (simp add: MarkCrawlJobFailed_def u)
qed

lemma mark_failed_jobs:
  "crawl_jobs (snd (mark_failed i category message w)) =
     crawl_jobs (snd (MarkCrawlJobFailed i category message w))"
  by (cases "MarkCrawlJobFailed i category message w"; cases "fst (MarkCrawlJobFailed i category message w)")
    (auto simp: mark_failed_def bind_act_def account_marked_error_def ret_def modify_def
      AccountCaptureCompleted_def Let_def split: sum.splits)

lemma mark_capture_error_failed:
  assumes "db_healthy w" and "find_job i (crawl_jobs w) = Some r" and "job_status r = ''running''"
  shows "\<exists>r'. find_job i (crawl_jobs (snd (mark_capture_error i e w))) = Some r' \<and>
    job_status r' = ''failed''"
proof -
  have f: "\<exists>r'. find_job i (crawl_jobs (snd (mark_failed i c m w))) = Some r' \<and> job_status r' = ''failed''"
    if "c \<in> set error_categories" for c m
    using MarkCrawlJobFailed_healthy [OF assms(1,2) _ that, of m] assms(3)
    by (simp add: mark_failed_jobs failed_row_def)
  show ?thesis unfolding mark_capture_error_def
    by (cases "cerr_detail e") (simp_all add: f error_categories_def)
qed

text \<open>The database calls raise nothing: a driver error is a value.\<close>

definition always_returns :: "'a act \<Rightarrow> bool" where
  "always_returns m \<longleftrightarrow> (\<forall>w. \<exists>v. fst (m w) = Returns v)"

lemma always_returns_bind:
  assumes "always_returns m" and "\<And>v. always_returns (k v)"
  shows "always_returns (bind_act m k)"
  unfolding always_returns_def
proof
  fix w
  obtain v w1 where "m w = (Returns v, w1)"
    using assms(1) unfolding always_returns_def by (metis prod.collapse)
  then show "\<exists>v. fst (bind_act m k w) = Returns v"
    using assms(2) by (simp add: always_returns_def)
qed

lemma always_returns_basic:
  "always_returns (ret v)" "always_returns (modify f)" "always_returns (RunReadonly q)"
  "always_returns (RunReadwrite dec stmt)"
  by (auto simp: always_returns_def ret_def modify_def RunReadonly_def RunReadwrite_def
      split: fault.split sum.split)

lemma always_returns_count: "always_returns m \<Longrightarrow> always_returns (count_failure e m)"
  unfolding count_failure_def
  by (auto intro!: always_returns_bind always_returns_basic split: sum.split)

lemma mark_returns:
  "always_returns (MarkCrawlJobSucceeded i capture created)" "always_returns (mark_failed i cat msg)"
  "always_returns (mark_capture_error i e)"
proof -
  show f: "always_returns (mark_failed i cat msg)" for cat msg
    unfolding mark_failed_def MarkCrawlJobFailed_def Readwrite_def account_marked_error_def
    by (auto intro!: always_returns_bind always_returns_count always_returns_basic split: sum.split)
  show "always_returns (MarkCrawlJobSucceeded i capture created)"
    unfolding MarkCrawlJobSucceeded_def Readwrite_def
    by (intro always_returns_count always_returns_basic)
  show "always_returns (mark_capture_error i e)"
    unfolding mark_capture_error_def by (auto intro!: f split: option.split)
qed

lemma MarkCrawlJobRunning_env: "keeps same_env (MarkCrawlJobRunning i)"
  unfolding MarkCrawlJobRunning_def Readwrite_def
  by (intro env.guar_readwrite count_failure_keeps env.guarantee_axioms)
    (auto simp: sql_update_crawl_job_running_def update_rows_def same_env_def)

lemma same_env_healthy: "same_env a b \<Longrightarrow> db_healthy a \<Longrightarrow> db_healthy b"
  by (simp add: same_env_def db_healthy_def)

lemma crawl_job_finishes:
  assumes run: "crawler_contract run" and w: "db_healthy w"
    and r: "find_job i (crawl_jobs w) = Some r" "job_status r = ''pending''"
    and t: "crawl_job_task V cfg run why i link w = (res, w')" "\<forall>m. res \<noteq> Aborts m"
  shows "\<exists>r'. find_job i (crawl_jobs w') = Some r' \<and> terminal r'"
proof -
  obtain w1 where m: "MarkCrawlJobRunning i w = (Returns (Inr ()), w1)"
    using MarkCrawlJobRunning_healthy(1) [OF w r] by (metis prod.collapse)
  let ?r = "running_row (pg_now w) r"
  have j1: "find_job i (crawl_jobs w1) = Some ?r" "job_status ?r = ''running''"
    using MarkCrawlJobRunning_healthy(2) [OF w r] m by (simp_all add: running_row_def)
  obtain rr w2 where c: "RunCrawlJob V cfg run i link w1 = (rr, w2)" by fastforce
  have js: "jobs_same w1 w2" by (rule keepsD [OF RunCrawlJob_jobs_same [OF run] c])
  have h2: "db_healthy w2"
    using same_env_healthy [OF keepsD [OF MarkCrawlJobRunning_env m] w] js same_env_healthy
    by (auto simp: jobs_same_def)
  have j2: "find_job i (crawl_jobs w2) = Some ?r" using j1 js by (simp add: jobs_same_def)
  have fail: "\<exists>r'. find_job i (crawl_jobs (snd (mark_failed i cat msg w2))) = Some r' \<and> terminal r'"
    if "cat \<in> set error_categories" for cat msg
    using MarkCrawlJobFailed_healthy [OF h2 j2 _ that, of msg] j1(2)
    by (simp add: mark_failed_jobs failed_row_def terminal_def)
  show ?thesis
  proof (cases rr)
    case (Aborts msg)
    then have "crawl_job_body V cfg run i link w = (Aborts msg, w2)"
      using c by (simp add: crawl_job_body_def m)
    with t show ?thesis by (auto simp: crawl_job_task_def)
  next
    case (Throws msg)
    then have body: "crawl_job_body V cfg run i link w = (Throws msg, w2)"
      using c by (simp add: crawl_job_body_def m)
    show ?thesis
    proof (cases "cancel_requested w2 (calls w2)")
      case True
      define D where "D = deref_text V (''crawl job cancelled: '' @ why)"
      from t(1) body True have h: "bind_act (of_outcome D) (\<lambda>detail.
            bind_act (mark_failed i ''crawler_failed'' detail) (\<lambda>_. of_outcome (Throws msg))) w2 = (res, w')"
        by (simp add: crawl_job_task_def D_def)
      have "\<forall>x. D \<noteq> Throws x" by (simp add: D_def deref_text_def split: sum.split)
      then obtain detail where d: "D = Returns detail"
        using h t(2) by (cases D) (auto simp: bind_act_def of_outcome_def)
      from h have "w' = snd (mark_failed i ''crawler_failed'' detail w2)"
        by (auto simp: bind_act_def of_outcome_def d split: prod.splits outcome.splits)
      with fail show ?thesis by (simp add: error_categories_def)
    next
      case False
      with t(1) body have "w' = snd (mark_failed i ''internal_server_error'' ''internal server error'' w2)"
        by (simp add: crawl_job_task_def)
      with fail show ?thesis by (simp add: error_categories_def)
    qed
  next
    case (Returns result)
    show ?thesis
    proof (cases result)
      case (Inl e)
      then have "crawl_job_body V cfg run i link w = mark_capture_error i e w2"
        using c Returns by (simp add: crawl_job_body_def m)
      moreover obtain v w3 where "mark_capture_error i e w2 = (Returns v, w3)"
        using mark_returns(3) unfolding always_returns_def by (metis prod.collapse)
      ultimately have "w' = snd (mark_capture_error i e w2)" using t(1) by (simp add: crawl_job_task_def)
      then show ?thesis
        using mark_capture_error_failed [OF h2 j2 j1(2)] by (auto simp: terminal_def)
    next
      case (Inr k)
      obtain v w3 where s: "MarkCrawlJobSucceeded i (ut_uuid k) (to_pg_time V (ut_created_at k)) w2 = (Returns v, w3)"
        using mark_returns(1) unfolding always_returns_def by (metis prod.collapse)
      have "\<exists>r'. find_job i (crawl_jobs w3) = Some r' \<and> terminal r'"
        using MarkCrawlJobSucceeded_healthy [OF h2 j2 j1(2), of "ut_uuid k" "to_pg_time V (ut_created_at k)"] s
        by (simp add: terminal_def succeeded_row_def)
      moreover have "crawl_jobs w' = crawl_jobs w3"
        using t(1) c Returns Inr s
        by (auto simp: crawl_job_task_def crawl_job_body_def m bind_act_def ret_def modify_def
            AccountCaptureCompleted_def Let_def split: sum.splits)
      ultimately show ?thesis by simp
    qed
  qed
qed

end
