(* ===== verification/Capture_Storage.thy ===== *)
theory Capture_Storage
  imports Crud_Correct
begin

text \<open>
  What \<open>PersistMetadataForContext\<close> and \<open>PurgePrefix\<close> of \<open>src/crud.cpp\<close> do to the captures and
  their objects.
\<close>

section \<open>Persisting\<close>

lemma IsAllowedPrefix_cases:
  obtains (error) w1 where "IsAllowedPrefix V key w = (Returns (Inl AccessDbError), w1)" "tables_same w w1"
  | (answer) w1 where "IsAllowedPrefix V key w =
       (Returns (Inr (\<not> exists_ancestor (host_denylist w) (MakePrefixTree V key))), w1)" "tables_same w w1"
proof -
  have k: "tables_same w (snd (IsAllowedPrefix V key w))"
    using tables.guar_policy [of V key] by (simp add: keeps_def)
  show thesis
  proof (cases rule: RunReadonly_cases [of "sql_check_denylist_tree (MakePrefixTree V key)" w])
    case (1 e)
    then have "fst (IsAllowedPrefix V key w) = Returns (Inl AccessDbError)"
      by (simp add: IsAllowedPrefix_def IsDeniedPrefix_def CheckDenylistTree_def Readonly_def
          count_failure_def try_act_def try_as_def bind_act_def ret_def modify_def)
    with k error show thesis by (metis prod.collapse)
  next
    case 2
    then have "fst (IsAllowedPrefix V key w) =
        Returns (Inr (\<not> exists_ancestor (host_denylist w) (MakePrefixTree V key)))"
      by (simp add: IsAllowedPrefix_def IsDeniedPrefix_def CheckDenylistTree_def Readonly_def
          count_failure_def try_act_def try_as_def bind_act_def ret_def modify_def
          sql_check_denylist_tree_def)
    with k answer show thesis by (metis prod.collapse)
  qed
qed

lemma persist_denied:
  assumes "MakePrefixKey V (cx_link ctx) = Returns key"
    and "exists_ancestor (host_denylist w) (MakePrefixTree V key)"
    and "PersistMetadataForContext V ctx w = (r, w')"
  shows "(\<forall>s. r \<noteq> Returns (Some s)) \<and> captures w' = captures w \<and> objects w' = objects w"
proof (cases "cx_replay_url ctx = None")
  case True
  with assms show ?thesis
    by (auto simp: PersistMetadataForContext_def bind_act_def of_outcome_def)
next
  case False
  show ?thesis
  proof (cases rule: IsAllowedPrefix_cases [of V key w])
    case (error w1)
    with assms False show ?thesis
      by (auto simp: PersistMetadataForContext_def bind_act_def of_outcome_def modify_def ret_def
          tables_same_def)
  next
    case (answer w1)
    with assms False show ?thesis
      by (auto simp: PersistMetadataForContext_def bind_act_def of_outcome_def ret_def tables_same_def)
  qed
qed

text \<open>What a stored capture looks like in the tables and the bucket.\<close>

definition stored_as ::
    "world \<Rightarrow> string \<Rightarrow> string \<Rightarrow> StoredCapture \<Rightarrow> bool" where
  "stored_as w link sha s \<longleftrightarrow> (\<exists>r\<in>set (captures w). cap_id r = sc_id s \<and>
     cap_created_at r = sc_created_at s \<and> cap_link r = link \<and> cap_content_sha256 r = sha)"

lemma FindCaptureByLinkHash_cases:
  obtains (error) e w1 where "FindCaptureByLinkHash link sha w = (Returns (Inl e), w1)" "tables_same w w1"
  | (answer) w1 where "FindCaptureByLinkHash link sha w =
       (Returns (Inr (case sql_select_capture_by_link_hash link sha w of [] \<Rightarrow> None | r # _ \<Rightarrow> Some r)), w1)"
       "tables_same w w1"
proof -
  have k: "tables_same w (snd (FindCaptureByLinkHash link sha w))"
  proof -
    have "keeps tables_same (FindCaptureByLinkHash link sha)"
      unfolding FindCaptureByLinkHash_def by (intro tables.guar_try tables.guar_capture_read tables.guar_ret)
    then show ?thesis by (simp add: keeps_def)
  qed
  show thesis
  proof (cases rule: CaptureReadonly_cases [of "sql_select_capture_by_link_hash link sha" w])
    case (1 e)
    then have "fst (FindCaptureByLinkHash link sha w) = Returns (Inl e)"
      by (simp add: FindCaptureByLinkHash_def try_act_def bind_act_def ret_def)
    with k error show thesis by (metis prod.collapse)
  next
    case 2
    then have "fst (FindCaptureByLinkHash link sha w) =
        Returns (Inr (case sql_select_capture_by_link_hash link sha w of [] \<Rightarrow> None | r # _ \<Rightarrow> Some r))"
      by (simp add: FindCaptureByLinkHash_def try_act_def bind_act_def ret_def)
    with k answer show thesis by (metis prod.collapse)
  qed
qed

lemma link_hash_row:
  assumes "sql_select_capture_by_link_hash link sha w = r # rs"
  shows "stored_as w link sha \<lparr>sc_id = mi_uuid r, sc_created_at = mi_created_at r\<rparr>"
proof -
  let ?s = "take 1 (sort_key newest_key
    (filter (\<lambda>r. cap_link r = link \<and> cap_content_sha256 r = sha) (captures w)))"
  from assms obtain c where c: "c \<in> set ?s" "r = id_row c"
    by (cases ?s) (auto simp: sql_select_capture_by_link_hash_def)
  from in_set_takeD [OF c(1)]
  have "c \<in> set (filter (\<lambda>r. cap_link r = link \<and> cap_content_sha256 r = sha) (captures w))"
    by simp
  with c(2) show ?thesis by (auto simp: stored_as_def id_row_def)
qed

lemma InsertCapture_Inr:
  assumes "InsertCapture i link pk pt sha href w = (Returns (Inr row), w')"
  shows "ic_id row = i" "stored_as w' link sha \<lparr>sc_id = i, sc_created_at = ic_created_at row\<rparr>"
    "objects w' = objects w" "set (captures w) \<subseteq> set (captures w')"
proof -
  obtain out w1 where s: "sql_insert_capture i link pk pt sha href w = Inr (out, w1)"
    "AsSingleRow out = Inr row" "w' = tick w1"
    using assms unfolding InsertCapture_def by (elim CaptureReadwrite_Inr)
  then have o: "row = \<lparr>ic_id = i, ic_created_at = pg_now w\<rparr>"
    and c: "captures w' = captures w @ [\<lparr>cap_id = i, cap_created_at = pg_now w, cap_link = link,
             cap_replay_url = href, cap_prefix_key = pk,
             cap_prefix_tree = text2ltree pt, cap_content_sha256 = sha\<rparr>]"
    and "objects w' = objects w"
    by (auto simp: sql_insert_capture_def AsSingleRow_def split: if_splits)
  then show "ic_id row = i" "stored_as w' link sha \<lparr>sc_id = i, sc_created_at = ic_created_at row\<rparr>"
    "objects w' = objects w" "set (captures w) \<subseteq> set (captures w')"
    by (auto simp: stored_as_def)
qed

lemma PutCaptureObject_Inr:
  assumes "PutCaptureObject k b w = (Returns (Inr u), w')"
  shows "objects w' = (objects w)(k \<mapsto> b)" "captures w' = captures w"
  using assms
  by (auto simp: PutCaptureObject_def RunS3Operation_def Let_def split: fault.splits if_splits)

lemma persist_new_stored:
  assumes "persist_new V ctx pk link w = (Returns (Some s), w')" and "cx_wacz_bytes ctx \<noteq> None"
  shows "sc_id s = cx_id ctx \<and> stored_as w' link (the (cx_content_sha256 ctx)) s \<and>
    objects w' = (objects w)(cx_s3_key ctx := cx_wacz_bytes ctx)"
proof -
  from assms(1) obtain u w1 href row where
    p: "PutCaptureObject (cx_s3_key ctx) (the (cx_wacz_bytes ctx)) w = (Returns (Inr u), w1)"
    and i: "InsertCapture (cx_id ctx) link pk (MakePrefixTree V pk) (the (cx_content_sha256 ctx)) href w1 =
        (Returns (Inr row), w')"
    and s: "s = \<lparr>sc_id = cx_id ctx, sc_created_at = ic_created_at row\<rparr>"
    unfolding persist_new_def bind_sum_Returns_iff bind_outcome_Returns_iff
    by (auto simp: ret_def bind_act_Returns_iff)
  from PutCaptureObject_Inr [OF p] InsertCapture_Inr [OF i] assms(2) show ?thesis
    by (auto simp: s)
qed

lemma persist_stored:
  assumes "PersistMetadataForContext V ctx w = (Returns (Some s), w')"
  shows "\<exists>pk link sha. MakePrefixKey V (cx_link ctx) = Returns pk \<and> ToKey V (cx_link ctx) = Returns link \<and>
    cx_content_sha256 ctx = Some sha \<and>
    \<not> exists_ancestor (host_denylist w) (MakePrefixTree V pk) \<and>
    stored_as w' link sha s \<and>
    (captures w' = captures w \<and> objects w' = objects w \<or>
     sc_id s = cx_id ctx \<and> objects w' = (objects w)(cx_s3_key ctx := cx_wacz_bytes ctx))"
proof -
  from assms obtain pk b w1 where pk: "MakePrefixKey V (cx_link ctx) = Returns pk"
    and al: "IsAllowedPrefix V pk w = (Returns (Inr b), w1)"
    and c: "(case b of False \<Rightarrow> ret None | True \<Rightarrow> persist_allowed V ctx pk) w1 = (Returns (Some s), w')"
    unfolding PersistMetadataForContext_def bind_sum_Returns_iff bind_outcome_Returns_iff
    by (auto simp: ret_def)
  have b: "b" "tables_same w w1" "\<not> exists_ancestor (host_denylist w) (MakePrefixTree V pk)"
    using c al by (cases b; cases rule: IsAllowedPrefix_cases [of V pk w]; auto simp: ret_def)+
  from c b(1) have "persist_allowed V ctx pk w1 = (Returns (Some s), w')" by simp
  then obtain link existing w2 where
    inv: "cx_wacz_bytes ctx \<noteq> None" "cx_content_sha256 ctx \<noteq> None"
    and link: "ToKey V (cx_link ctx) = Returns link"
    and f: "FindCaptureByLinkHash link (the (cx_content_sha256 ctx)) w1 = (Returns (Inr existing), w2)"
    and k: "(case existing of Some row \<Rightarrow> ret (Some \<lparr>sc_id = mi_uuid row, sc_created_at = mi_created_at row\<rparr>)
        | None \<Rightarrow> persist_new V ctx pk link) w2 = (Returns (Some s), w')"
    unfolding persist_allowed_def bind_sum_Returns_iff bind_outcome_Returns_iff
    by (auto simp: ret_def Invariant_def split: if_splits option.splits)
  from inv obtain sha where sha: "cx_content_sha256 ctx = Some sha" by blast
  have ex: "existing = (case sql_select_capture_by_link_hash link sha w1 of [] \<Rightarrow> None | r # _ \<Rightarrow> Some r)"
    and t2: "tables_same w w2"
    using f sha b(2) by (cases rule: FindCaptureByLinkHash_cases [of link sha w1];
        auto intro: tables.trans)+
  show ?thesis
  proof (cases existing)
    case None
    with k have "persist_new V ctx pk link w2 = (Returns (Some s), w')" by simp
    from persist_new_stored [OF this inv(1)] t2 pk link sha b(3) show ?thesis
      by (auto simp: tables_same_def)
  next
    case (Some row)
    with k have s: "s = \<lparr>sc_id = mi_uuid row, sc_created_at = mi_created_at row\<rparr>" "w' = w2"
      by (simp_all add: ret_def)
    from Some ex obtain rs where "sql_select_capture_by_link_hash link sha w1 = row # rs"
      by (auto split: list.splits)
    from link_hash_row [OF this] b(2) t2 have "stored_as w' link sha s"
      by (auto simp: s stored_as_def tables_same_def)
    with pk link sha b(3) t2 s show ?thesis by (auto simp: tables_same_def)
  qed
qed

section \<open>Purging\<close>

lemma count_failure_world:
  "snd (count_failure e m w) = snd (m w) \<or> snd (count_failure e m w) = AccountError e (snd (m w))"
  using count_failure_snd [of e m w "fst (count_failure e m w)" "snd (count_failure e m w)"] by simp

lemma DeleteCapturesByIds_world:
  assumes "DeleteCapturesByIds ids w = (r, w')"
  shows "objects w' = objects w"
    and "captures w' = captures w \<or> captures w' = filter (\<lambda>r. cap_id r \<notin> set ids) (captures w)"
  using assms count_failure_world [of kDbCaptureMetaWrite
      "RunReadwrite (\<lambda>_. Inr ()) (sql_delete_captures_by_ids ids)" w]
  unfolding DeleteCapturesByIds_def CaptureReadwrite_def
  by (cases rule: RunReadwrite_cases [of "\<lambda>_. Inr ()" "sql_delete_captures_by_ids ids" w];
      auto simp: sql_delete_captures_by_ids_def)+

text \<open>However a batch ends, it has removed the rows of some of its identifiers and no others.\<close>

lemma purge_batch_partial:
  assumes "purge_batch V cfg ids w = (r, w')"
  shows "\<exists>gone. set gone \<subseteq> set ids \<and> captures w' = filter (\<lambda>r. cap_id r \<notin> set gone) (captures w)"
  using assms
proof (induction ids arbitrary: w)
  case Nil
  then show ?case by (intro exI [of _ "[]"]) (simp add: ret_def)
next
  case (Cons i ids)
  have same: ?case if "captures w' = captures w" using that by (intro exI [of _ "[]"]) simp
  show ?case
  proof (cases "MakeCaptureObjectKey V (S3Bucket cfg) i")
    case (Returns key)
    obtain d w1 where d: "DeleteCaptureObject key w = (d, w1)" by fastforce
    have c1: "captures w1 = captures w" by (rule DeleteCaptureObject_tables [OF d])
    show ?thesis
    proof (cases "\<exists>u. d = Returns (Inr u)")
      case True
      obtain e w2 where e: "DeleteCapturesByIds [i] w1 = (e, w2)" by fastforce
      note c2 = DeleteCapturesByIds_world(2) [OF e, unfolded c1]
      show ?thesis
      proof (cases "\<exists>u. e = Returns (Inr u)")
        case True
        with \<open>\<exists>u. d = Returns (Inr u)\<close> Cons.prems Returns d e
        have "purge_batch V cfg ids w2 = (r, w')" by (auto simp: bind_act_def of_outcome_def)
        from Cons.IH [OF this] obtain gone where
          g: "set gone \<subseteq> set ids" "captures w' = filter (\<lambda>r. cap_id r \<notin> set gone) (captures w2)" by blast
        from c2 show ?thesis
        proof
          assume "captures w2 = captures w"
          with g show ?thesis by (intro exI [of _ gone]) auto
        next
          assume "captures w2 = filter (\<lambda>r. cap_id r \<notin> set [i]) (captures w)"
          with g show ?thesis by (intro exI [of _ "i # gone"]) (auto intro: filter_cong)
        qed
      next
        case False
        with \<open>\<exists>u. d = Returns (Inr u)\<close> Cons.prems Returns d e have "w' = w2"
          by (auto simp: bind_act_def of_outcome_def ret_def split: outcome.splits sum.splits)
        with c2 show ?thesis
          by (elim disjE) (rule same, simp, intro exI [of _ "[i]"], auto)
      qed
    next
      case False
      with Cons.prems Returns d have "captures w' = captures w1"
        by (auto simp: bind_act_def of_outcome_def ret_def modify_def split: outcome.splits sum.splits)
      with c1 show ?thesis by (intro same) simp
    qed
  next
    case (Aborts m)
    with Cons.prems have "w' = w" by (auto simp: bind_act_def of_outcome_def)
    then show ?thesis by (intro same) simp
  next
    case (Throws m)
    with Cons.prems have "w' = w" by (auto simp: bind_act_def of_outcome_def)
    then show ?thesis by (intro same) simp
  qed
qed

lemma selected_under_tree:
  assumes "distinct (map cap_id (captures w))" and "r \<in> set (captures w)"
    and "cap_id r \<in> set (sql_select_ids_by_deny_prefix_paged tree lim w)"
  shows "under_tree tree r"
proof -
  from assms(3) obtain r' where r': "cap_id r' = cap_id r" "r' \<in> set (captures w)" "under_tree tree r'"
    by (auto simp: sql_select_ids_by_deny_prefix_paged_def dest!: in_set_takeD)
  then have "r' = r" using assms(1,2) by (auto simp: distinct_map inj_on_def)
  with r' show ?thesis by simp
qed

lemma filter_remove_under:
  assumes "distinct (map cap_id (captures w))"
    and "set gone \<subseteq> set (sql_select_ids_by_deny_prefix_paged tree lim w)"
  shows "filter (\<lambda>r. \<not> under_tree tree r) (filter (\<lambda>r. cap_id r \<notin> set gone) (captures w)) =
    filter (\<lambda>r. \<not> under_tree tree r) (captures w)"
  unfolding filter_filter
  by (rule filter_cong) (use selected_under_tree [OF assms(1)] assms(2) in auto)

text \<open>Induction over the rounds of a purge.\<close>

lemma purge_rounds [consumes 1, case_names unread finished stopped round]:
  assumes "purge_loop V cfg tree w = (r, w')"
    and unread: "\<And>w. \<not> db_healthy w \<Longrightarrow>
      P w (Returns (Inl CrudDbError)) (AccountError kDbCaptureMetaRead (tick w))"
    and finished: "\<And>w. sql_select_ids_by_deny_prefix_paged tree (purge_delete_batch_size cfg) w = [] \<Longrightarrow>
      P w (Returns (Inr ())) (tick w)"
    and stopped: "\<And>w r w2. purge_batch V cfg
        (sql_select_ids_by_deny_prefix_paged tree (purge_delete_batch_size cfg) w) (tick w) = (r, w2) \<Longrightarrow>
      r \<noteq> Returns (Inr ()) \<Longrightarrow> P w r w2"
    and round: "\<And>w w2 r w'. purge_batch V cfg
        (sql_select_ids_by_deny_prefix_paged tree (purge_delete_batch_size cfg) w) (tick w) =
          (Returns (Inr ()), w2) \<Longrightarrow> P w2 r w' \<Longrightarrow> P w r w'"
  shows "P w r w'"
  using assms(1)
proof (induction "length (captures w)" arbitrary: w rule: less_induct)
  case less
  let ?lim = "purge_delete_batch_size cfg"
  let ?q = "sql_select_ids_by_deny_prefix_paged tree ?lim"
  show ?case
  proof (cases rule: CaptureReadonly_cases [of ?q w])
    case (1 e)
    with less.prems have "r = Returns (Inl CrudDbError)" "w' = AccountError kDbCaptureMetaRead (tick w)"
      by (simp_all add: purge_loop.simps [of V cfg tree w] GetCaptureIdsByPrefixTree_def)
    moreover have "\<not> db_healthy w"
      using 1 by (auto simp: CaptureReadonly_def count_failure_def RunReadonly_healthy ret_def bind_act_def)
    ultimately show ?thesis using unread by simp
  next
    case 2
    then have g: "GetCaptureIdsByPrefixTree tree ?lim w = (Returns (Inr (?q w)), tick w)"
      by (simp add: GetCaptureIdsByPrefixTree_def)
    obtain b w2 where b: "purge_batch V cfg (?q w) (tick w) = (b, w2)" by fastforce
    consider "?q w = []" | "?q w \<noteq> []" "b \<noteq> Returns (Inr ())" | "?q w \<noteq> []" "b = Returns (Inr ())"
      by blast
    then show ?thesis
    proof cases
      case 1
      with g less.prems finished show ?thesis by (auto simp: purge_loop.simps [of V cfg tree w])
    next
      case 2
      with g b less.prems have "r = b" "w' = w2"
        by (auto simp: purge_loop.simps [of V cfg tree w] split: outcome.splits sum.splits)
      with stopped [OF b] 2 show ?thesis by simp
    next
      case 3
      with g b less.prems have l: "purge_loop V cfg tree w2 = (r, w')"
        by (simp add: purge_loop.simps [of V cfg tree w])
      from b 3 have b': "purge_batch V cfg (?q w) (tick w) = (Returns (Inr ()), w2)" by simp
      from less.hyps [OF purge_round_shrinks [OF g 3(1) b'] l] round [OF b'] show ?thesis by blast
    qed
  qed
qed

lemma purge_batch_outside:
  assumes "purge_batch V cfg (sql_select_ids_by_deny_prefix_paged tree lim w) (tick w) = (r, w2)"
    and "distinct (map cap_id (captures w))"
  shows "filter (\<lambda>r. \<not> under_tree tree r) (captures w2) = filter (\<lambda>r. \<not> under_tree tree r) (captures w)"
    "distinct (map cap_id (captures w2))"
proof -
  from purge_batch_partial [OF assms(1)] obtain gone where
    gone: "set gone \<subseteq> set (sql_select_ids_by_deny_prefix_paged tree lim w)"
      "captures w2 = filter (\<lambda>r. cap_id r \<notin> set gone) (captures w)" by auto
  from filter_remove_under [OF assms(2) gone(1)]
  show "filter (\<lambda>r. \<not> under_tree tree r) (captures w2) = filter (\<lambda>r. \<not> under_tree tree r) (captures w)"
    by (simp add: gone(2))
  show "distinct (map cap_id (captures w2))"
    using assms(2) by (simp add: gone(2) distinct_map_filter)
qed

text \<open>Whatever fails, a purge leaves every capture outside the prefix alone.\<close>

lemma purge_keeps_outside:
  assumes "purge_loop V cfg tree w = (r, w')" and "distinct (map cap_id (captures w))"
  shows "filter (\<lambda>r. \<not> under_tree tree r) (captures w') = filter (\<lambda>r. \<not> under_tree tree r) (captures w)"
  using assms by (induction rule: purge_rounds) (simp_all add: purge_batch_outside)

text \<open>A purge that goes through leaves no capture under the prefix.\<close>

lemma ids_under_prefix_empty:
  assumes "sql_select_ids_by_deny_prefix_paged tree lim w = []" and "lim > 0"
  shows "filter (under_tree tree) (captures w) = []"
proof -
  from assms have "sort_key newest_key (filter (under_tree tree) (captures w)) = []"
    by (simp add: sql_select_ids_by_deny_prefix_paged_def)
  then have "length (sort_key newest_key (filter (under_tree tree) (captures w))) = 0" by simp
  then show ?thesis by simp
qed

lemma purge_loop_empties:
  assumes "purge_loop V cfg tree w = (r, w')" and "r = Returns (Inr ())"
    and "purge_delete_batch_size cfg > 0"
  shows "filter (under_tree tree) (captures w') = []"
  using assms by (induction rule: purge_rounds) (simp_all add: ids_under_prefix_empty)

lemma purge_loop_exact:
  assumes "purge_loop V cfg tree w = (Returns (Inr ()), w')" and "purge_delete_batch_size cfg > 0"
    and "distinct (map cap_id (captures w))"
  shows "captures w' = filter (\<lambda>r. \<not> under_tree tree r) (captures w)"
proof -
  from purge_loop_empties [OF assms(1) refl assms(2)]
  have "filter (\<lambda>r. \<not> under_tree tree r) (captures w') = captures w'"
    by (auto simp: filter_empty_conv intro: filter_True)
  with purge_keeps_outside [OF assms(1,3)] show ?thesis by simp
qed

text \<open>Nor does it leave an object of such a capture; every other object stays.\<close>

definition key_of_some :: "('u, 'z) vendor_scheme \<Rightarrow> crud_config \<Rightarrow> Uuid set \<Rightarrow> string \<Rightarrow> bool" where
  "key_of_some V cfg ids k \<longleftrightarrow> (\<exists>i\<in>ids. MakeCaptureObjectKey V (S3Bucket cfg) i = Returns k)"

lemma DeleteCaptureObject_Inr:
  assumes "DeleteCaptureObject key w = (Returns (Inr u), w')"
  shows "w' = tick (w\<lparr>objects := (objects w)(key := None)\<rparr>)"
  using assms
  by (auto simp: DeleteCaptureObject_def RunS3Operation_def Let_def split: fault.splits if_splits)

lemma DeleteCapturesByIds_objects:
  assumes "DeleteCapturesByIds ids w = (Returns (Inr u), w')"
  shows "objects w' = objects w"
  using assms unfolding DeleteCapturesByIds_def
  by (elim CaptureReadwrite_Inr) (auto simp: sql_delete_captures_by_ids_def)

lemma purge_batch_objects:
  assumes "purge_batch V cfg ids w = (Returns (Inr ()), w')"
  shows "objects w' k = (if key_of_some V cfg (set ids) k then None else objects w k)"
  using assms
proof (induction ids arbitrary: w)
  case Nil
  then show ?case by (simp add: ret_def key_of_some_def)
next
  case (Cons i ids)
  from purge_batch_Cons_Inr [OF Cons.prems] obtain key w1 w2 where
    k: "MakeCaptureObjectKey V (S3Bucket cfg) i = Returns key" and
    d: "DeleteCaptureObject key w = (Returns (Inr ()), w1)"
      "DeleteCapturesByIds [i] w1 = (Returns (Inr ()), w2)"
      "purge_batch V cfg ids w2 = (Returns (Inr ()), w')" by blast
  from Cons.IH [OF d(3)] DeleteCapturesByIds_objects [OF d(2)] DeleteCaptureObject_Inr [OF d(1)] k
  show ?case by (auto simp: key_of_some_def)
qed

lemma selected_ids:
  assumes "distinct (map cap_id (captures w))"
    and "ids = sql_select_ids_by_deny_prefix_paged tree lim w"
  shows "cap_id ` set (filter (under_tree tree) (captures w)) =
    set ids \<union> cap_id ` set (filter (under_tree tree) (filter (\<lambda>r. cap_id r \<notin> set ids) (captures w)))"
proof -
  have "set ids \<subseteq> cap_id ` set (filter (under_tree tree) (captures w))"
    using assms(2) by (auto simp: sql_select_ids_by_deny_prefix_paged_def dest!: in_set_takeD)
  then show ?thesis by auto
qed

lemma purge_loop_objects:
  assumes "purge_loop V cfg tree w = (r, w')" and "r = Returns (Inr ())"
    and "purge_delete_batch_size cfg > 0" and "distinct (map cap_id (captures w))"
  shows "objects w' k =
    (if key_of_some V cfg (cap_id ` set (filter (under_tree tree) (captures w))) k then None
     else objects w k)"
  using assms
proof (induction rule: purge_rounds)
  case (finished w)
  have "set (filter (under_tree tree) (captures w)) = {}"
    using ids_under_prefix_empty [OF finished(1,3)] by (metis empty_set)
  then have "\<not> key_of_some V cfg (cap_id ` set (filter (under_tree tree) (captures w))) k"
    by (simp only: key_of_some_def image_empty) simp
  then show ?case by simp
next
  case (round w w2 r w')
  let ?ids = "sql_select_ids_by_deny_prefix_paged tree (purge_delete_batch_size cfg) w"
  have "captures w2 = filter (\<lambda>r. cap_id r \<notin> set ?ids) (captures w)"
    using purge_batch_captures [OF round(1)] by simp
  then have "cap_id ` set (filter (under_tree tree) (captures w)) =
      set ?ids \<union> cap_id ` set (filter (under_tree tree) (captures w2))"
    using selected_ids [OF round(5) refl] by simp
  then have "key_of_some V cfg (cap_id ` set (filter (under_tree tree) (captures w))) k \<longleftrightarrow>
      key_of_some V cfg (set ?ids) k \<or>
      key_of_some V cfg (cap_id ` set (filter (under_tree tree) (captures w2))) k"
    by (simp only: key_of_some_def bex_Un)
  with round(2) [OF round(3,4) purge_batch_outside(2) [OF round(1,5)]] purge_batch_objects [OF round(1)]
  show ?case by simp
qed simp_all

end
