(* ===== verification/Crud_Paging.thy ===== *)
theory Crud_Paging
  imports Capture_Meta_Repo
begin

text \<open>
  The paged listings of \<open>src/crud.cpp\<close>: \<open>FindCapturesByLinkPage\<close> and
  \<open>FindCapturesByPrefixPage\<close>.  The configuration record holds the limits the listings read
  (all at least one, by the schema of the component).
\<close>

datatype CapturePageError = kInvalidPageToken | kMismatchedPageToken | PageDbError

record paging_config =
  page_max :: nat
  per_link_max :: nat
  links_per_page_max :: nat

section \<open>Captures of a link\<close>

record LinkPage =
  lp_items :: "CaptureMetaIdRow list"
  lp_next :: "string option"
  lp_previous :: "string option"

definition row_token ::
    "('u, 'z) vendor_scheme \<Rightarrow> CaptureMetaIdRow \<Rightarrow> PageDirection \<Rightarrow> string outcome" where
  "row_token V row direction = EncodeCursor V (mi_created_at row) (mi_uuid row) direction"

definition opt_token :: "bool \<Rightarrow> string outcome \<Rightarrow> string option outcome" where
  "opt_token wanted tok = (if wanted then and_then tok (\<lambda>t. Returns (Some t)) else Returns None)"

definition link_page_response ::
    "('u, 'z) vendor_scheme \<Rightarrow> CaptureMetaIdRow list \<times> bool \<times> bool \<Rightarrow> LinkPage outcome" where
  "link_page_response V p =
     (case p of (items, has_previous, has_next) \<Rightarrow>
        and_then (opt_token (items \<noteq> [] \<and> has_previous) (row_token V (hd items) kPrevious)) (\<lambda>previous.
        and_then (opt_token (items \<noteq> [] \<and> has_next) (row_token V (last items) kNext)) (\<lambda>next.
          Returns \<lparr>lp_items = items, lp_next = next, lp_previous = previous\<rparr>)))"

definition FindCapturesByLinkPage ::
    "('u, 'z) vendor_scheme \<Rightarrow> paging_config \<Rightarrow> 'u \<Rightarrow> string \<Rightarrow> (CapturePageError + LinkPage) act" where
  "FindCapturesByLinkPage V cfg link page_token =
     (let limit = page_max cfg + 1;
          cur = (if page_token \<noteq> [] then DecodeCursor V page_token else None)
      in if page_token \<noteq> [] \<and> cur = None then ret (Inl kInvalidPageToken)
         else bind_act (of_outcome (ToKey V link)) (\<lambda>key.
           bind_act
             (case cur of
                None \<Rightarrow> GetCapturesByLinkFirst key limit
              | Some c \<Rightarrow>
                  if c_direction c = kPrevious
                  then GetCapturesByLinkPrev V key limit (c_created_at c) (c_id c)
                  else GetCapturesByLinkNext V key limit (c_created_at c) (c_id c))
             (\<lambda>rows. case rows of
                Inl _ \<Rightarrow> ret (Inl PageDbError)
              | Inr db_rows \<Rightarrow>
                  bind_act (of_outcome (link_page_response V
                      (trim_page (page_max cfg) (map_option c_direction cur) db_rows)))
                    (\<lambda>page. ret (Inr page)))))"

section \<open>Captures under a prefix\<close>

record LinkItem =
  li_uuid :: Uuid
  li_created_at :: int
  li_link :: string

record PrefixPage =
  pp_items :: "LinkItem list"
  pp_next :: "string option"
  pp_previous :: "string option"

text \<open>The links of the page, and whether there are more before or after them.\<close>

definition page_links ::
    "('u, 'z) vendor_scheme \<Rightarrow> paging_config \<Rightarrow> string \<Rightarrow> string \<Rightarrow> PrefixCursor option \<Rightarrow>
     (PgError + string list \<times> bool \<times> bool) act" where
  "page_links V cfg normalized_prefix upper cur =
     (let links_per_page = links_per_page_max cfg in
      case cur of
        None \<Rightarrow>
          try_act (GetDistinctLinksByPrefixFirst normalized_prefix upper (links_per_page + 1)) (\<lambda>first.
            if length first > links_per_page then ret (Inr (butlast first, False, True))
            else ret (Inr (first, False, False)))
      | Some c \<Rightarrow>
          if pc_direction c = kPrevious then
            try_act
              (case (pc_created_at c, pc_id c) of
                 (Some t, Some i) \<Rightarrow> HasRowsBeforeInLink V (pc_link c) t i
               | _ \<Rightarrow> ret (Inr False)) (\<lambda>include_cursor_link.
            let limit = links_per_page + (if include_cursor_link then 0 else 1);
                visible = (if include_cursor_link then links_per_page - 1 else links_per_page)
            in try_act (GetDistinctLinksByPrefixPrev normalized_prefix upper (pc_link c) limit) (\<lambda>prev.
                 let more = length prev > visible;
                     shown = rev (take visible prev)
                 in ret (Inr (if include_cursor_link then shown @ [pc_link c] else shown, more, False))))
          else
            try_act
              (case pc_created_at c of
                 Some _ \<Rightarrow>
                   try_act (GetDistinctLinksByPrefixNext normalized_prefix upper (pc_link c) links_per_page)
                     (\<lambda>more. ret (Inr (pc_link c # more)))
               | None \<Rightarrow>
                   GetDistinctLinksByPrefixNext normalized_prefix upper (pc_link c) (links_per_page + 1))
              (\<lambda>links.
                if length links > links_per_page then ret (Inr (butlast links, False, True))
                else ret (Inr (links, False, False))))"

definition select_rows_for_link ::
    "('u, 'z) vendor_scheme \<Rightarrow> paging_config \<Rightarrow> PrefixCursor option \<Rightarrow> string \<Rightarrow> nat \<Rightarrow>
     (PgError + CaptureMetaIdRow list) act" where
  "select_rows_for_link V cfg cur link idx =
     (let link_limit = per_link_max cfg + 1 in
      case cur of
        Some c \<Rightarrow> (case (pc_created_at c, pc_id c) of
          (Some t, Some i) \<Rightarrow>
            if pc_direction c = kPrevious \<and> link = pc_link c
            then GetCapturesByLinkPrev V link link_limit t i
            else if idx = 0 \<and> pc_direction c = kNext
            then GetCapturesByLinkNext V link link_limit t i
            else GetCapturesByLinkFirst link link_limit
        | _ \<Rightarrow> GetCapturesByLinkFirst link link_limit)
      | None \<Rightarrow> GetCapturesByLinkFirst link link_limit)"

definition is_previous_cursor_link :: "PrefixCursor option \<Rightarrow> string \<Rightarrow> bool" where
  "is_previous_cursor_link cur link \<longleftrightarrow>
     (case cur of None \<Rightarrow> False
      | Some c \<Rightarrow> pc_direction c = kPrevious \<and> pc_created_at c \<noteq> None \<and> link = pc_link c)"

text \<open>One link of the loop: its visible rows and the two flags.\<close>

definition link_rows ::
    "paging_config \<Rightarrow> PrefixCursor option \<Rightarrow> string \<Rightarrow> bool \<Rightarrow> CaptureMetaIdRow list \<Rightarrow> bool \<Rightarrow> bool \<Rightarrow>
     LinkItem list \<times> bool \<times> bool" where
  "link_rows cfg cur link last_visible rows has_prev_within has_next_within =
     (let is_prev = is_previous_cursor_link cur link;
          over = length rows > per_link_max cfg;
          db_rows = (if over then butlast rows else rows);
          has_prev_within = (if over \<and> is_prev then True else has_prev_within);
          has_next_within = (if over \<and> \<not> is_prev \<and> last_visible then True else has_next_within);
          has_next_within = (if is_prev \<and> db_rows \<noteq> [] then True else has_next_within);
          db_rows = (if is_prev then rev db_rows else db_rows)
      in (map (\<lambda>r. \<lparr>li_uuid = mi_uuid r, li_created_at = mi_created_at r, li_link = link\<rparr>) db_rows,
          has_prev_within, has_next_within))"

fun items_loop ::
    "('u, 'z) vendor_scheme \<Rightarrow> paging_config \<Rightarrow> PrefixCursor option \<Rightarrow> nat \<Rightarrow> string list \<Rightarrow>
     LinkItem list \<times> bool \<times> bool \<Rightarrow> (PgError + LinkItem list \<times> bool \<times> bool) act" where
  "items_loop V cfg cur idx [] acc = ret (Inr acc)"
| "items_loop V cfg cur idx (link # links) (items, p, q) =
     try_act (select_rows_for_link V cfg cur link idx) (\<lambda>rows.
       case link_rows cfg cur link (links = []) rows p q of
         (new, p', q') \<Rightarrow> items_loop V cfg cur (idx + 1) links (items @ new, p', q'))"

definition prefix_page_response ::
    "('u, 'z) vendor_scheme \<Rightarrow> string \<Rightarrow> PrefixCursor option \<Rightarrow> LinkItem list \<Rightarrow>
     bool \<Rightarrow> bool \<Rightarrow> bool \<Rightarrow> bool \<Rightarrow> PrefixPage outcome" where
  "prefix_page_response V normalized_prefix cur items more_prev more_next prev_within next_within =
     (let dir = map_option pc_direction cur;
          want_prev = (items \<noteq> [] \<and> (dir = Some kNext \<or> more_prev \<or> prev_within));
          want_next = (items \<noteq> [] \<and> (dir = Some kPrevious \<or> next_within \<or> more_next))
      in and_then (opt_token want_prev
           (and_then (deref_text V (li_link (hd items))) (\<lambda>l.
              EncodePrefixCursorAt V normalized_prefix l (li_created_at (hd items))
                (li_uuid (hd items)) kPrevious))) (\<lambda>previous.
         and_then (opt_token want_next
           (and_then (deref_text V (li_link (last items))) (\<lambda>l.
              if next_within
              then EncodePrefixCursorAt V normalized_prefix l (li_created_at (last items))
                (li_uuid (last items)) kNext
              else EncodePrefixCursor V normalized_prefix l kNext))) (\<lambda>next.
         Returns \<lparr>pp_items = items, pp_next = next, pp_previous = previous\<rparr>)))"

definition FindCapturesByPrefixPage ::
    "('u, 'z) vendor_scheme \<Rightarrow> paging_config \<Rightarrow> string \<Rightarrow> string \<Rightarrow> (CapturePageError + PrefixPage) act" where
  "FindCapturesByPrefixPage V cfg normalized_prefix page_token =
     (let cur = (if page_token \<noteq> [] then DecodePrefixCursor V page_token else None)
      in if page_token \<noteq> [] \<and> cur = None then ret (Inl kInvalidPageToken)
         else if (case cur of None \<Rightarrow> False | Some c \<Rightarrow> pc_prefix c \<noteq> normalized_prefix)
         then ret (Inl kMismatchedPageToken)
         else
           let upper = UpperExclusiveBound normalized_prefix in
           try_as (page_links V cfg normalized_prefix upper cur) PageDbError
             (\<lambda>(links, more_prev, more_next).
               try_as (items_loop V cfg cur 0 links ([], False, False)) PageDbError
                 (\<lambda>(items, prev_within, next_within).
                   bind_act (of_outcome (prefix_page_response V normalized_prefix cur items
                       more_prev more_next prev_within next_within))
                     (\<lambda>page. ret (Inr page)))))"

section \<open>A page of a link is a page of its ordered source\<close>

definition link_fetch ::
    "string \<Rightarrow> world \<Rightarrow> nat \<Rightarrow> (PageDirection \<times> int \<times> Uuid) option \<Rightarrow>
     (int \<times> Uuid) list \<times> bool \<times> bool" where
  "link_fetch link w = fetch
     (\<lambda>n. map row_key (sql_select_capture_by_link_first link n w))
     (\<lambda>n k. map row_key (sql_select_capture_by_link_next link n (- fst k) (snd k) w))
     (\<lambda>n k. map row_key (sql_select_capture_by_link_prev link n (- fst k) (snd k) w))"

text \<open>A token stands for a position: none for the first page, or the cursor it decodes to.\<close>

fun token_for ::
    "('u, 'z) vendor_scheme \<Rightarrow> string \<Rightarrow> (PageDirection \<times> int \<times> Uuid) option \<Rightarrow> bool" where
  "token_for V tok None \<longleftrightarrow> tok = []"
| "token_for V tok (Some (d, k)) \<longleftrightarrow> tok \<noteq> [] \<and> 1000 dvd fst k \<and>
     DecodeCursor V tok = Some \<lparr>c_created_at = - fst k, c_id = snd k, c_direction = d\<rparr>"

lemma row_token_for:
  assumes "utf8_contract V" and "token_contract V" and "db_time (mi_created_at r)"
  shows "\<exists>tok. row_token V r d = Returns tok \<and> token_for V tok (Some (d, row_key r))"
  using cursor_round_trip [OF assms, of "mi_uuid r" d] assms(3)
  by (auto simp: row_token_def row_key_def db_time_def)

lemma take_subset: "fst (trim_page n dir xs) = ys \<Longrightarrow> set ys \<subseteq> set xs"
  by (auto simp: trim_page_def Let_def split: if_splits dest: in_set_butlastD)

text \<open>The response for rows with database times: the rows, and the tokens of its ends.\<close>

lemma link_page_response_returns:
  assumes V: "utf8_contract V" "token_contract V"
    and t: "\<forall>r\<in>set items. db_time (mi_created_at r)"
  shows "\<exists>page. link_page_response V (items, p, q) = Returns page \<and> lp_items page = items \<and>
    (if items \<noteq> [] \<and> q
     then \<exists>tok. lp_next page = Some tok \<and> token_for V tok (Some (kNext, row_key (last items)))
     else lp_next page = None) \<and>
    (if items \<noteq> [] \<and> p
     then \<exists>tok. lp_previous page = Some tok \<and> token_for V tok (Some (kPrevious, row_key (hd items)))
     else lp_previous page = None)"
proof (cases "items = []")
  case False
  then have "db_time (mi_created_at (hd items))" "db_time (mi_created_at (last items))"
    using t by simp_all
  from row_token_for [OF V this(1), of kPrevious] row_token_for [OF V this(2), of kNext]
  obtain tp tn where
    "row_token V (hd items) kPrevious = Returns tp"
    "token_for V tp (Some (kPrevious, row_key (hd items)))"
    "row_token V (last items) kNext = Returns tn"
    "token_for V tn (Some (kNext, row_key (last items)))" by blast
  with False show ?thesis
    by (simp add: link_page_response_def opt_token_def del: token_for.simps)
qed (simp add: link_page_response_def opt_token_def)

definition page_shows ::
    "('u, 'z) vendor_scheme \<Rightarrow> LinkPage \<Rightarrow> (int \<times> Uuid) list \<times> bool \<times> bool \<Rightarrow> bool" where
  "page_shows V page res \<longleftrightarrow> (case res of (keys, p, q) \<Rightarrow>
     map row_key (lp_items page) = keys \<and>
     (if keys \<noteq> [] \<and> q
      then \<exists>tok. lp_next page = Some tok \<and> token_for V tok (Some (kNext, last keys))
      else lp_next page = None) \<and>
     (if keys \<noteq> [] \<and> p
      then \<exists>tok. lp_previous page = Some tok \<and> token_for V tok (Some (kPrevious, hd keys))
      else lp_previous page = None))"

lemma selected_times:
  assumes "captures_ok w"
  shows "r \<in> set (sql_select_capture_by_link_first link n w) \<Longrightarrow> db_time (mi_created_at r)"
    and "r \<in> set (sql_select_capture_by_link_next link n t i w) \<Longrightarrow> db_time (mi_created_at r)"
    and "r \<in> set (sql_select_capture_by_link_prev link n t i w) \<Longrightarrow> db_time (mi_created_at r)"
  using assms
  by (auto simp: sql_select_capture_by_link_first_def sql_select_capture_by_link_next_def
      sql_select_capture_by_link_prev_def captures_ok_def of_link_def id_row_def
      dest!: in_set_takeD)

lemma page_of_rows:
  assumes V: "utf8_contract V" "token_contract V"
    and t: "\<forall>r\<in>set rows. db_time (mi_created_at r)"
  shows "\<exists>page. link_page_response V (trim_page n dir rows) = Returns page \<and>
    page_shows V page (trim_page n dir (map row_key rows))"
proof -
  obtain items p q where tr: "trim_page n dir rows = (items, p, q)" by (cases "trim_page n dir rows")
  then have "\<forall>r\<in>set items. db_time (mi_created_at r)" using t take_subset by (metis fst_conv subsetD)
  from link_page_response_returns [OF V this, of p q] show ?thesis
    unfolding trim_page_map tr page_shows_def by (auto simp: last_map hd_map)
qed

lemma link_page_fetch:
  assumes V: "utf8_contract V" "token_contract V" "pg_time_contract V"
    and w: "captures_ok w" "db_healthy w"
    and key: "ToKey V link = Returns key" and tok: "token_for V tok cur"
  shows "\<exists>page. FindCapturesByLinkPage V cfg link tok w = (Returns (Inr page), tick w) \<and>
    page_shows V page (link_fetch key w (page_max cfg) cur)"
proof -
  define rows where "rows = (case cur of
      None \<Rightarrow> sql_select_capture_by_link_first key (page_max cfg + 1) w
    | Some (d, k) \<Rightarrow> if d = kPrevious
        then sql_select_capture_by_link_prev key (page_max cfg + 1) (- fst k) (snd k) w
        else sql_select_capture_by_link_next key (page_max cfg + 1) (- fst k) (snd k) w)"
  have t: "\<forall>r\<in>set rows. db_time (mi_created_at r)"
    unfolding rows_def using selected_times [OF w(1)] by (auto split: option.splits if_splits)
  have pg: "1000 dvd (k :: int) \<Longrightarrow> to_pg_time V (- k) = - k" for k
    using V(3) by (simp add: pg_time_contract_def)
  have lf: "link_fetch key w (page_max cfg) cur =
      trim_page (page_max cfg) (map_option fst cur) (map row_key rows)"
    by (auto simp: link_fetch_def fetch_def rows_def split: option.splits PageDirection.splits)
  from page_of_rows [OF V(1,2) t, of "page_max cfg" "map_option fst cur"] obtain page where
    p: "link_page_response V (trim_page (page_max cfg) (map_option fst cur) rows) = Returns page"
    and sh: "page_shows V page (link_fetch key w (page_max cfg) cur)" unfolding lf by blast
  have "FindCapturesByLinkPage V cfg link tok w = (Returns (Inr page), tick w)"
  proof (cases cur)
    case None
    with tok p show ?thesis
      by (simp add: FindCapturesByLinkPage_def bind_act_def of_outcome_def key ret_def rows_def
          GetCapturesByLinkFirst_def CaptureReadonly_healthy [OF w(2)])
  next
    case (Some a)
    then obtain d k where c: "cur = Some (d, k)" by (cases a) auto
    with tok p show ?thesis
      by (cases d) (simp_all add: FindCapturesByLinkPage_def bind_act_def of_outcome_def key ret_def
          rows_def GetCapturesByLinkNext_def GetCapturesByLinkPrev_def
          CaptureReadonly_healthy [OF w(2)] pg)
  qed
  with sh show ?thesis by blast
qed

section \<open>Following the next-page tokens\<close>

text \<open>A client that asks for pages until there is no next token, at most \<open>m\<close> of them.\<close>

fun walk_pages ::
    "('u, 'z) vendor_scheme \<Rightarrow> paging_config \<Rightarrow> 'u \<Rightarrow> nat \<Rightarrow> string \<Rightarrow> world \<Rightarrow>
     CaptureMetaIdRow list option" where
  "walk_pages V cfg link 0 tok w = None"
| "walk_pages V cfg link (Suc m) tok w =
     (case FindCapturesByLinkPage V cfg link tok w of
        (Returns (Inr page), w') \<Rightarrow> (case lp_next page of
           None \<Rightarrow> Some (lp_items page)
         | Some t \<Rightarrow> map_option ((@) (lp_items page)) (walk_pages V cfg link m t w'))
      | _ \<Rightarrow> None)"

lemma captures_ok_tick [simp]: "captures_ok (tick w) = captures_ok w"
  by (simp add: captures_ok_def)

lemma of_link_tick [simp]: "of_link link (tick w) = of_link link w"
  by (simp add: of_link_def)

lemma link_fetch_tick [simp]: "link_fetch link (tick w) = link_fetch link w"
  by (simp add: link_fetch_def sql_select_capture_by_link_first_def
      sql_select_capture_by_link_next_def sql_select_capture_by_link_prev_def)

lemma walk_pages_walk:
  assumes V: "utf8_contract V" "token_contract V" "pg_time_contract V"
    and key: "ToKey V link = Returns key"
  shows "captures_ok w \<Longrightarrow> db_healthy w \<Longrightarrow> token_for V tok cur \<Longrightarrow>
    map_option (map row_key) (walk_pages V cfg link m tok w) =
      walk (link_fetch key w (page_max cfg)) m cur"
proof (induction m arbitrary: tok cur w)
  case (Suc m)
  obtain page where F: "FindCapturesByLinkPage V cfg link tok w = (Returns (Inr page), tick w)"
    and sh: "page_shows V page (link_fetch key w (page_max cfg) cur)"
    using link_page_fetch [OF V Suc.prems(1,2) key Suc.prems(3)] by blast
  obtain keys p q where f: "link_fetch key w (page_max cfg) cur = (keys, p, q)"
    by (cases "link_fetch key w (page_max cfg) cur")
  note sh' = sh [unfolded page_shows_def f prod.case]
  show ?case
  proof (cases "keys \<noteq> [] \<and> q")
    case True
    with sh' obtain t where t: "lp_next page = Some t" "token_for V t (Some (kNext, last keys))"
      by auto
    from Suc.IH [OF _ _ t(2), of "tick w"] Suc.prems
    have "map_option (map row_key) (walk_pages V cfg link m t (tick w)) =
        walk (link_fetch key w (page_max cfg)) m (Some (kNext, last keys))" by simp
    then have "walk (link_fetch key w (page_max cfg)) (Suc m) cur =
        map_option ((@) keys) (map_option (map row_key) (walk_pages V cfg link m t (tick w)))"
      using True f by simp
    moreover have "keys = map row_key (lp_items page)" using sh' by simp
    ultimately show ?thesis by (simp add: F t option.map_comp comp_def)
  next
    case False
    with sh' have "lp_next page = None" "map row_key (lp_items page) = keys" by (metis)+
    with False F f show ?thesis by auto
  qed
qed simp

lemma walk_pages_complete:
  assumes V: "utf8_contract V" "token_contract V" "pg_time_contract V"
    and key: "ToKey V link = Returns key" and w: "captures_ok w" "db_healthy w"
    and n: "page_max cfg > 0" and m: "length (of_link key w) < m"
  shows "walk_pages V cfg link m [] w = Some (map id_row (sort_key newest_key (of_link key w)))"
proof -
  have "length (link_keys key w) < m" using m by (simp add: link_keys_def)
  from link_src.walk_all [OF distinct_link_keys [OF w(1)] n this, folded link_fetch_def]
  have "walk (link_fetch key w (page_max cfg)) m None = Some (link_keys key w)" .
  with walk_pages_walk [OF V key w, of "[]" None cfg m]
  obtain xs where "walk_pages V cfg link m [] w = Some xs" "map row_key xs = link_keys key w"
    by auto
  moreover have "map row_key (map id_row (sort_key newest_key (of_link key w))) = link_keys key w"
    by (simp add: comp_def link_keys_def map_sort_key)
  moreover have "inj row_key" by (metis injI key_row_row_key)
  ultimately show ?thesis using inj_map_eq_map by metis
qed

text \<open>
  Going to the next page and back.  \<open>forward_position\<close>: the first page, or a page after a
  capture that is there.
\<close>

definition forward_position :: "string \<Rightarrow> world \<Rightarrow> (PageDirection \<times> int \<times> Uuid) option \<Rightarrow> bool" where
  "forward_position key w cur \<longleftrightarrow>
     (case cur of None \<Rightarrow> True | Some (d, k) \<Rightarrow> d = kNext \<and> k \<in> set (link_keys key w))"

lemma forward_page:
  assumes "captures_ok w" and "forward_position key w cur" and "n > 0"
    and "link_fetch key w n cur = (keys, p, True)" and "keys \<noteq> []"
  obtains ys rest where "link_keys key w = ys @ keys @ rest" "length keys = n"
proof (cases cur)
  case None
  with assms(4) link_src.fetch_first [where n = n and link = key and w = w, folded link_fetch_def]
  have "keys = take n (link_keys key w)" "n < length (link_keys key w)" by auto
  then show thesis by (intro that [of "[]" "drop n (link_keys key w)"]) simp_all
next
  case (Some a)
  with assms(2) obtain k where k: "cur = Some (kNext, k)" "k \<in> set (link_keys key w)"
    by (cases a) (auto simp: forward_position_def)
  then obtain ys zs where z: "link_keys key w = ys @ k # zs" by (meson split_list)
  from link_src.fetch_next [OF distinct_link_keys [OF assms(1)] z, of n, folded link_fetch_def] assms(4) k
  have "keys = take n zs" "n < length zs" by auto
  with z show thesis by (intro that [of "ys @ [k]" "drop n zs"]) simp_all
qed

lemma next_then_previous_page:
  assumes V: "utf8_contract V" "token_contract V" "pg_time_contract V"
    and w: "captures_ok w" "db_healthy w"
    and key: "ToKey V link = Returns key" and n: "page_max cfg > 0"
    and tok: "token_for V tok cur" "forward_position key w cur"
    and p1: "FindCapturesByLinkPage V cfg link tok w = (Returns (Inr page1), w1)" "lp_next page1 = Some t"
    and p2: "FindCapturesByLinkPage V cfg link t w1 = (Returns (Inr page2), w2)" "lp_previous page2 = Some t'"
    and p3: "FindCapturesByLinkPage V cfg link t' w2 = (Returns (Inr page3), w3)"
  shows "lp_items page3 = lp_items page1"
proof -
  let ?n = "page_max cfg"
  obtain keys p q where f1: "link_fetch key w ?n cur = (keys, p, q)" by (cases "link_fetch key w ?n cur")
  from link_page_fetch [OF V w key tok(1), of cfg] p1(1) f1
  have s1: "page_shows V page1 (keys, p, q)" and w1: "w1 = tick w" by auto
  from s1 p1(2) have k1: "keys \<noteq> []" "q" "map row_key (lp_items page1) = keys"
    "token_for V t (Some (kNext, last keys))"
    by (auto simp: page_shows_def split: if_splits)
  from f1 k1(2) have "link_fetch key w ?n cur = (keys, p, True)" by simp
  from forward_page [OF w(1) tok(2) n this k1(1)] obtain ys rest where
    a: "link_keys key w = ys @ keys @ rest" "length keys = ?n" .
  obtain keys2 p' q' where f2: "link_fetch key w ?n (Some (kNext, last keys)) = (keys2, p', q')"
    using prod_cases3 by blast
  have w': "captures_ok w1" "db_healthy w1" "captures_ok (tick w1)" "db_healthy (tick w1)"
    using w by (simp_all add: w1)
  from link_page_fetch [OF V w'(1,2) key k1(4), of cfg] p2(1) f2
  have s2: "page_shows V page2 (keys2, p', q')" and w2: "w2 = tick w1" by (auto simp: w1)
  from s2 p2(2) have k2: "keys2 \<noteq> []" "token_for V t' (Some (kPrevious, hd keys2))"
    by (auto simp: page_shows_def split: if_splits)
  from link_page_fetch [OF V w'(3,4) key k2(2), of cfg] p3
  have "map row_key (lp_items page3) = fst (link_fetch key w ?n (Some (kPrevious, hd keys2)))"
    by (auto simp: w2 w1 page_shows_def split: prod.splits)
  also have "\<dots> = keys"
    using link_src.next_then_previous [OF distinct_link_keys [OF w(1)] n a
        f2 [unfolded link_fetch_def] k2(1), folded link_fetch_def] .
  finally have "map row_key (lp_items page3) = map row_key (lp_items page1)" using k1 by simp
  moreover have "inj row_key" by (metis injI key_row_row_key)
  ultimately show ?thesis using inj_map_eq_map by metis
qed

section \<open>The first page of a prefix\<close>

definition link_item :: "string \<Rightarrow> CaptureMetaIdRow \<Rightarrow> LinkItem" where
  "link_item link r = \<lparr>li_uuid = mi_uuid r, li_created_at = mi_created_at r, li_link = link\<rparr>"

definition newest_items :: "paging_config \<Rightarrow> world \<Rightarrow> string \<Rightarrow> LinkItem list" where
  "newest_items cfg w link = map (link_item link)
     (take (per_link_max cfg) (map id_row (sort_key newest_key (of_link link w))))"

lemma newest_items_tick [simp]: "newest_items cfg (tick w) = newest_items cfg w"
  by (rule ext) (simp add: newest_items_def)

lemma links_in_range_tick [simp]: "links_in_range lower upper (tick w) = links_in_range lower upper w"
  by (simp add: links_in_range_def)

lemma trim_one: "(if length (take (n + 1) xs) > n then butlast (take (n + 1) xs) else take (n + 1) xs) = take n xs"
  by (auto simp: butlast_take_Suc [symmetric])

lemma link_rows_first:
  "fst (link_rows cfg None link lst (sql_select_capture_by_link_first link (per_link_max cfg + 1) w) p q) =
     newest_items cfg w link"
  using trim_one [of "per_link_max cfg" "map id_row (sort_key newest_key (of_link link w))"]
  by (auto simp: link_rows_def Let_def is_previous_cursor_link_def newest_items_def link_item_def
      sql_select_capture_by_link_first_def take_map simp del: take_map [symmetric] split: if_splits)

lemma items_loop_first:
  "db_healthy w \<Longrightarrow> \<exists>p' q' w'. items_loop V cfg None idx links (items, p, q) w =
     (Returns (Inr (items @ concat (map (newest_items cfg w) links), p', q')), w')"
proof (induction links arbitrary: idx items p q w)
  case (Cons link links)
  let ?rows = "sql_select_capture_by_link_first link (per_link_max cfg + 1) w"
  obtain new p' q' where l: "link_rows cfg None link (links = []) ?rows p q = (new, p', q')"
    using prod_cases3 by blast
  have new: "new = newest_items cfg w link" using link_rows_first [of cfg link "links = []" w p q] l by simp
  have "select_rows_for_link V cfg None link idx w = (Returns (Inr ?rows), tick w)"
    using Cons.prems by (simp add: select_rows_for_link_def GetCapturesByLinkFirst_def CaptureReadonly_healthy)
  then have "items_loop V cfg None idx (link # links) (items, p, q) w =
      items_loop V cfg None (idx + 1) links (items @ new, p', q') (tick w)"
    using l by (simp add: try_act_simps)
  with Cons.IH [of "tick w" "idx + 1" "items @ new" p' q'] Cons.prems new show ?case by simp
qed (simp add: ret_def)

lemma prefix_first_page:
  assumes "db_healthy w"
    and "FindCapturesByPrefixPage V cfg normalized_prefix [] w = (Returns (Inr page), w')"
  shows "pp_items page = concat (map (newest_items cfg w) (take (links_per_page_max cfg)
    (links_in_range normalized_prefix (UpperExclusiveBound normalized_prefix) w)))"
proof -
  let ?links = "links_in_range normalized_prefix (UpperExclusiveBound normalized_prefix) w"
  let ?shown = "take (links_per_page_max cfg) ?links"
  have "\<exists>more. page_links V cfg normalized_prefix (UpperExclusiveBound normalized_prefix) None w =
      (Returns (Inr (?shown, False, more)), tick w)"
    using assms(1) trim_one [of "links_per_page_max cfg" ?links]
    by (auto simp: page_links_def GetDistinctLinksByPrefixFirst_def CaptureReadonly_healthy
        try_act_simps sql_select_distinct_links_by_prefix_first_def Let_def ret_def split: if_splits)
  then obtain more where pl: "page_links V cfg normalized_prefix (UpperExclusiveBound normalized_prefix) None w =
      (Returns (Inr (?shown, False, more)), tick w)" by blast
  from items_loop_first [of "tick w" V cfg 0 ?shown "[]" False False] assms(1)
  obtain p' q' w1 where il: "items_loop V cfg None 0 ?shown ([], False, False) (tick w) =
      (Returns (Inr (concat (map (newest_items cfg w) ?shown), p', q')), w1)" by auto
  from assms(2) have "prefix_page_response V normalized_prefix None
      (concat (map (newest_items cfg w) ?shown)) False more p' q' = Returns page"
    using il by (simp add: FindCapturesByPrefixPage_def try_as_def bind_act_def pl of_outcome_def ret_def
        split: outcome.splits)
  then show ?thesis
    by (auto simp: prefix_page_response_def Let_def opt_token_def and_then_def
        split: outcome.splits if_splits)
qed

end
