(* ===== verification/Service.thy ===== *)
theory Service
  imports Capture_Storage Crud_Paging
begin

text \<open>
  The service as a whole: every statement and every object operation its requests and background
  tasks run, as the steps of one transition system.  Requests and tasks interleave at these
  steps, so what is proved of every reachable world holds for any number of them running at
  once.  Each operation of \<open>src/crud.cpp\<close> and \<open>src/access_policy.cpp\<close> is shown to be a sequence of
  these steps.
\<close>

section \<open>Steps\<close>

definition bookkeeping :: "world \<Rightarrow> world \<Rightarrow> bool" where
  "bookkeeping a b \<longleftrightarrow> tables_same a b"

inductive service_step :: "('u, 'z) vendor_scheme \<Rightarrow> world \<Rightarrow> world \<Rightarrow> bool" for V where
  quiet: "bookkeeping w w' \<Longrightarrow> service_step V w w'"
| insert_job: "sql_insert_crawl_job i link w = Inr (out, w') \<Longrightarrow> service_step V w w'"
| start_job: "sql_update_crawl_job_running i w = Inr (out', w') \<Longrightarrow> service_step V w w'"
| finish_job: "sql_update_crawl_job_succeeded i created capture w = Inr (out', w') \<Longrightarrow>
    service_step V w w'"
| fail_job: "sql_update_crawl_job_failed i category msg w = Inr (out', w') \<Longrightarrow> service_step V w w'"
| expire_jobs: "sql_delete_crawl_jobs_expired cutoff w = Inr ((), w') \<Longrightarrow> service_step V w w'"
| deny: "sql_insert_denylist_prefix k (MakePrefixTree V k) why w = Inr ((), w') \<Longrightarrow> service_step V w w'"
| allow: "sql_insert_allowlist_prefix k (MakePrefixTree V k) why w = Inr ((), w') \<Longrightarrow> service_step V w w'"
| unallow: "sql_delete_allowlist_prefix k w = Inr ((), w') \<Longrightarrow> service_step V w w'"
| store: "sql_insert_capture i link pk (MakePrefixTree V pk) sha href w = Inr (out'', w') \<Longrightarrow>
    service_step V w w'"
| erase: "sql_delete_captures_by_ids ids w = Inr ((), w') \<Longrightarrow> service_step V w w'"
| put: "service_step V w (w\<lparr>objects := (objects w)(k \<mapsto> bytes)\<rparr>)"
| remove: "service_step V w (w\<lparr>objects := (objects w)(k := None)\<rparr>)"

inductive_cases service_stepE: "service_step V w w'"

abbreviation service_steps :: "('u, 'z) vendor_scheme \<Rightarrow> world \<Rightarrow> world \<Rightarrow> bool" where
  "service_steps V \<equiv> (service_step V)\<^sup>*\<^sup>*"

text \<open>A deployment starts with empty tables.\<close>

definition initial :: "world \<Rightarrow> bool" where
  "initial w \<longleftrightarrow> captures w = [] \<and> crawl_jobs w = [] \<and> host_denylist w = [] \<and> host_allowlist w = []"

definition reachable :: "('u, 'z) vendor_scheme \<Rightarrow> world \<Rightarrow> bool" where
  "reachable V w \<longleftrightarrow> (\<exists>w0. initial w0 \<and> service_steps V w0 w)"

section \<open>The invariant of the tables\<close>

definition capture_row_ok :: "('u, 'z) vendor_scheme \<Rightarrow> capture_row \<Rightarrow> bool" where
  "capture_row_ok V r \<longleftrightarrow>
     cap_prefix_tree r = text2ltree (MakePrefixTree V (cap_prefix_key r)) \<and>
     length (cap_content_sha256 r) = 32"

definition service_ok :: "('u, 'z) vendor_scheme \<Rightarrow> world \<Rightarrow> bool" where
  "service_ok V w \<longleftrightarrow> jobs_ok (crawl_jobs w) \<and>
     prefix_rows_ok V (host_denylist w) \<and> prefix_rows_ok V (host_allowlist w) \<and>
     distinct (map cap_id (captures w)) \<and> list_all (capture_row_ok V) (captures w)"

lemma jobs_ok_filter: "jobs_ok js \<Longrightarrow> jobs_ok (filter P js)"
  by (auto simp: jobs_ok_def list_all_iff distinct_map_filter)

lemma prefix_rows_ok_filter: "prefix_rows_ok V rows \<Longrightarrow> prefix_rows_ok V (filter P rows)"
  by (auto simp: prefix_rows_ok_def distinct_map_filter)

lemma world_jobs_keep_ok: "world_jobs_keep w w' \<Longrightarrow> jobs_ok (crawl_jobs w) \<Longrightarrow> jobs_ok (crawl_jobs w')"
  by (simp add: world_jobs_keep_def jobs_keep_def)

lemma insert_capture_ok:
  assumes "sql_insert_capture i link pk (MakePrefixTree V pk) sha href w = Inr (out, w')"
    and "service_ok V w"
  shows "service_ok V w'"
  using assms
  by (auto simp: sql_insert_capture_def service_ok_def capture_row_ok_def list_ex_iff split: if_splits)

lemma job_statement_others:
  "sql_insert_crawl_job i link w = Inr (o1, w') \<Longrightarrow> \<exists>js. w' = w\<lparr>crawl_jobs := js\<rparr>"
  "sql_update_crawl_job_running i w = Inr (o2, w') \<Longrightarrow> \<exists>js. w' = w\<lparr>crawl_jobs := js\<rparr>"
  "sql_update_crawl_job_succeeded i created capture w = Inr (o2, w') \<Longrightarrow> \<exists>js. w' = w\<lparr>crawl_jobs := js\<rparr>"
  "sql_update_crawl_job_failed i category msg w = Inr (o2, w') \<Longrightarrow> \<exists>js. w' = w\<lparr>crawl_jobs := js\<rparr>"
  by (auto simp: sql_insert_crawl_job_def sql_update_crawl_job_running_def update_rows_def
      sql_update_crawl_job_succeeded_def sql_update_crawl_job_failed_def Let_def split: if_splits)

lemma service_step_ok:
  assumes "service_step V w w'" and ok: "service_ok V w"
  shows "service_ok V w'"
  using assms(1)
proof cases
  case quiet
  with ok show ?thesis by (simp add: bookkeeping_def tables_same_def service_ok_def)
next
  case (insert_job i link out)
  from job_statement_others(1) [OF this] sql_jobs_keep(1) [OF this] ok show ?thesis
    by (auto simp: service_ok_def dest: world_jobs_keep_ok)
next
  case (start_job i out)
  from job_statement_others(2) [OF this] sql_jobs_keep(2) [OF this] ok show ?thesis
    by (auto simp: service_ok_def dest: world_jobs_keep_ok)
next
  case (finish_job i created capture out)
  from job_statement_others(3) [OF this] sql_jobs_keep(3) [OF this] ok show ?thesis
    by (auto simp: service_ok_def dest: world_jobs_keep_ok)
next
  case (fail_job i category msg out)
  from job_statement_others(4) [OF this] sql_jobs_keep(4) [OF this] ok show ?thesis
    by (auto simp: service_ok_def dest: world_jobs_keep_ok)
next
  case (expire_jobs cutoff)
  with ok show ?thesis by (auto simp: sql_delete_crawl_jobs_expired_def service_ok_def jobs_ok_filter)
next
  case (deny k why)
  with ok show ?thesis
    by (auto simp: sql_insert_denylist_prefix_def TRY_Inr_iff service_ok_def dest: insert_prefix_row_ok)
next
  case (allow k why)
  with ok show ?thesis
    by (auto simp: sql_insert_allowlist_prefix_def TRY_Inr_iff service_ok_def dest: insert_prefix_row_ok)
next
  case (unallow k)
  with ok show ?thesis
    by (auto simp: sql_delete_allowlist_prefix_def service_ok_def prefix_rows_ok_filter)
next
  case (store i link pk sha href out)
  from insert_capture_ok [OF this ok] show ?thesis .
next
  case (erase ids)
  with ok show ?thesis
    by (auto simp: sql_delete_captures_by_ids_def service_ok_def distinct_map_filter list_all_iff)
qed (use ok in \<open>simp_all add: service_ok_def\<close>)

lemma service_steps_ok: "service_steps V w w' \<Longrightarrow> service_ok V w \<Longrightarrow> service_ok V w'"
  by (induction rule: rtranclp_induct) (auto intro: service_step_ok)

lemma initial_ok: "initial w \<Longrightarrow> service_ok V w"
  by (simp add: initial_def service_ok_def jobs_ok_def prefix_rows_ok_def)

lemma reachable_ok: "reachable V w \<Longrightarrow> service_ok V w"
  by (auto simp: reachable_def intro: service_steps_ok initial_ok)

section \<open>Operations are sequences of steps\<close>

interpretation sys: guarantee "service_steps V" for V
  by unfold_locales
    (auto intro!: r_into_rtranclp service_step.quiet
      simp: bookkeeping_def intro: rtranclp_trans tables.ticks tables.accounts)

lemma sys_step: "service_step V w w' \<Longrightarrow> service_steps V w w'"
  by (rule r_into_rtranclp)

lemma sys_readwrite:
  assumes "\<And>w rows w'. stmt w = Inr (rows, w') \<Longrightarrow> service_step V w w'"
  shows "keeps (service_steps V) (Readwrite dec stmt)"
    and "keeps (service_steps V) (CaptureReadwrite dec stmt)"
  unfolding Readwrite_def CaptureReadwrite_def
  by (intro sys.guar_count sys.guar_readwrite sys_step, erule assms)+

lemma quiet_modify:
  assumes "\<And>w. tables_same w (f w)"
  shows "keeps (service_steps V) (modify f)"
  by (intro sys.guar_modify sys_step service_step.quiet) (simp add: bookkeeping_def assms)

lemma quiet_accounts:
  "tables_same w (AccountCaptureJobCreated w)" "tables_same w (AccountCaptureCompleted b ms w)"
  by (simp_all add: tables_same_def same_env_def AccountCaptureJobCreated_def
      AccountCaptureCompleted_def Let_def)

lemma make_or_reuse_step:
  "make_or_reuse_trx link limit w = Inr (res, w') \<Longrightarrow> service_steps V w w'"
  by (auto simp: make_or_reuse_trx_def Let_def TRY_Inr_iff
      split: option.splits if_splits intro: sys_step service_step.insert_job)

lemma shared_ops:
  "keeps (service_steps V) (InsertCrawlJob i link)"
  "keeps (service_steps V) (MarkCrawlJobRunning i)"
  "keeps (service_steps V) (MarkCrawlJobSucceeded i capture created)"
  "keeps (service_steps V) (MarkCrawlJobFailed i category msg)"
  "keeps (service_steps V) (DeleteCrawlJobsExpired V cutoff)"
  "keeps (service_steps V) (InsertDenylistPrefix k (MakePrefixTree V k) why)"
  "keeps (service_steps V) (Repo_InsertAllowlistPrefix k (MakePrefixTree V k) why)"
  "keeps (service_steps V) (DeleteAllowlistPrefix k)"
  unfolding InsertCrawlJob_def MarkCrawlJobRunning_def MarkCrawlJobSucceeded_def
    MarkCrawlJobFailed_def DeleteCrawlJobsExpired_def InsertDenylistPrefix_def
    Repo_InsertAllowlistPrefix_def DeleteAllowlistPrefix_def
  by (auto intro!: sys_readwrite(1) intro: service_step.intros)

lemma make_or_reuse_ops: "keeps (service_steps V) (MakeOrReuseCrawlJobLocked link limit)"
  unfolding MakeOrReuseCrawlJobLocked_def Readwrite_def
  by (intro sys.guar_count sys.guar_readwrite make_or_reuse_step)

lemma object_ops:
  "keeps (service_steps V) (PutCaptureObject k b)" "keeps (service_steps V) (DeleteCaptureObject k)"
  unfolding PutCaptureObject_def DeleteCaptureObject_def
  by (intro sys.guar_s3 sys_step service_step.put service_step.remove)+

lemma capture_ops:
  "keeps (service_steps V) (InsertCapture i link pk (MakePrefixTree V pk) sha href)"
  "keeps (service_steps V) (DeleteCapturesByIds ids)"
  "keeps (service_steps V) (FindCaptureByLinkHash link sha)"
  "keeps (service_steps V) (GetCaptureIdsByPrefixTree tree lim)"
proof -
  show "keeps (service_steps V) (InsertCapture i link pk (MakePrefixTree V pk) sha href)"
    unfolding InsertCapture_def by (intro sys_readwrite(2) service_step.store)
  show "keeps (service_steps V) (DeleteCapturesByIds ids)"
    unfolding DeleteCapturesByIds_def by (auto intro!: sys_readwrite(2) intro: service_step.erase)
  show "keeps (service_steps V) (FindCaptureByLinkHash link sha)"
    unfolding FindCaptureByLinkHash_def by (intro sys.guar_try sys.guar_capture_read sys.guar_ret)
  show "keeps (service_steps V) (GetCaptureIdsByPrefixTree tree lim)"
    unfolding GetCaptureIdsByPrefixTree_def by (rule sys.guar_capture_read)
qed

lemma persist_ops: "keeps (service_steps V) (PersistMetadataForContext V ctx)"
  unfolding PersistMetadataForContext_def persist_allowed_def persist_new_def
  by (intro sys.guar_bind sys.guar_outcome sys.guar_policy allI)
    (auto intro!: sys.guar_bind sys.guar_outcome sys.guar_policy sys.guar_ret sys.guar_account
      capture_ops object_ops split: sum.split bool.split option.split)

lemma crawler_ops: "crawler_contract run \<Longrightarrow> keeps (service_steps V) (run seed)"
  by (rule crawler_keeps) (auto intro!: sys_step service_step.quiet simp: bookkeeping_def)

lemma RunCrawlJob_ops:
  assumes "crawler_contract run"
  shows "keeps (service_steps V) (RunCrawlJob V cfg run i link)"
  unfolding RunCrawlJob_def
  by (auto intro!: sys.guar_bind sys.guar_outcome sys.guar_ret sys.guar_account
      sys.guar_crawl persist_ops crawler_ops [OF assms] split: prod.split sum.split option.split)

lemma mark_ops:
  "keeps (service_steps V) (mark_failed i category msg)"
  "keeps (service_steps V) (mark_capture_error i e)"
proof -
  show f: "keeps (service_steps V) (mark_failed i category msg)" for category msg
    unfolding mark_failed_def account_marked_error_def
    by (auto intro!: sys.guar_bind sys.guar_ret quiet_modify quiet_accounts shared_ops split: sum.split)
  show "keeps (service_steps V) (mark_capture_error i e)"
    unfolding mark_capture_error_def by (auto intro!: f split: option.split)
qed

lemma body_ops:
  assumes "crawler_contract run"
  shows "keeps (service_steps V) (crawl_job_body V cfg run i link)"
  unfolding crawl_job_body_def
  by (auto intro!: sys.guar_bind sys.guar_ret quiet_modify quiet_accounts shared_ops mark_ops
      RunCrawlJob_ops [OF assms] split: sum.split)

lemma task_ops:
  assumes "crawler_contract run"
  shows "keeps (service_steps V) (crawl_job_task V cfg run why i link)"
proof (rule keepsI)
  fix w
  obtain r w' where b: "crawl_job_body V cfg run i link w = (r, w')" by fastforce
  have 1: "service_steps V w w'" by (rule keepsD [OF body_ops [OF assms] b])
  have c: "keeps (service_steps V)
      (bind_act (of_outcome (deref_text V (''crawl job cancelled: '' @ why))) (\<lambda>detail.
         bind_act (mark_failed i ''crawler_failed'' detail) (\<lambda>_. of_outcome (Throws m :: unit outcome))))" for m
    by (intro sys.guar_bind sys.guar_outcome mark_ops)
  note k = sys.trans [OF 1 c [unfolded keeps_def, rule_format]]
    sys.trans [OF 1 mark_ops(1) [unfolded keeps_def, rule_format]]
  show "service_steps V w (snd (crawl_job_task V cfg run why i link w))"
    using 1 k unfolding crawl_job_task_def b by (cases r) auto
qed

lemma request_ops:
  "keeps (service_steps V) (Crud_MakeCaptureJob V cfg link)"
  "keeps (service_steps V) (CleanupOldJobs V cfg)"
  "keeps (service_steps V) (DenyPrefixAndPurge V k)"
  "keeps (service_steps V) (InsertAllowlistPrefix V k why)"
  "keeps (service_steps V) (RemoveAllowlistPrefix k)"
  unfolding Crud_MakeCaptureJob_def MakeOrReuseCaptureJobLocked_def CleanupOldJobs_def
    DenyPrefixAndPurge_def InsertPrefix_def InsertAllowlistPrefix_def RemoveAllowlistPrefix_def
  by (auto intro!: sys.guar_bind sys.guar_try sys.guar_outcome sys.guar_ret sys.guar_now
      sys.guar_account quiet_modify quiet_accounts shared_ops make_or_reuse_ops split: sum.split)

lemma purge_batch_ops: "keeps (service_steps V) (purge_batch V cfg ids)"
  by (induction ids)
    (auto intro!: sys.guar_bind sys.guar_outcome sys.guar_ret sys.guar_account object_ops capture_ops
      split: sum.split)

lemma purge_loop_ops: "keeps (service_steps V) (purge_loop V cfg tree)"
proof (rule keepsI)
  fix w
  obtain r w' where "purge_loop V cfg tree w = (r, w')" by fastforce
  then have "service_steps V w w'"
  proof (induction rule: purge_rounds)
    case (round w w2 r w')
    from sys.trans [OF sys.ticks keepsD [OF purge_batch_ops round(1)]] round(2)
    show ?case by (rule sys.trans)
  next
    case (stopped w r w2)
    from sys.trans [OF sys.ticks keepsD [OF purge_batch_ops stopped(1)]] show ?case .
  qed (auto intro: sys.ticks sys.trans sys.accounts)
  with \<open>purge_loop V cfg tree w = (r, w')\<close>
  show "service_steps V w (snd (purge_loop V cfg tree w))" by simp
qed

lemma purge_task_world: "snd (purge_task V cfg k w) = snd (PurgePrefix V cfg k w)"
  by (simp add: purge_task_def split: prod.split outcome.split sum.split)

lemma purge_task_ops: "keeps (service_steps V) (purge_task V cfg k)"
  using purge_loop_ops [of V cfg] by (simp add: keeps_def purge_task_world PurgePrefix_def)

section \<open>What no step undoes\<close>

text \<open>A finished job is not changed any more; it can only expire.\<close>

lemma job_gone_or_same:
  assumes "service_step V w w'" and "jobs_ok (crawl_jobs w)"
    and "find_job u (crawl_jobs w) = Some r" and "terminal r"
  shows "find_job u (crawl_jobs w') = Some r \<or>
    (\<exists>cutoff. job_created_at r < cutoff \<and> sql_delete_crawl_jobs_expired cutoff w = Inr ((), w'))"
proof -
  have k: "find_job u (crawl_jobs w') = Some r" if "world_jobs_keep w w'"
    using that assms(2-) job_steps_terminal by (fastforce simp: world_jobs_keep_def jobs_keep_def)
  have s: "find_job u (crawl_jobs w') = Some r" if "crawl_jobs w' = crawl_jobs w"
    using that assms(3) by simp
  from assms(1) show ?thesis
  proof cases
    case (expire_jobs cutoff)
    show ?thesis
    proof (cases "job_created_at r < cutoff")
      case False
      have "distinct (map job_uuid (crawl_jobs w))" using assms(2) by (simp add: jobs_ok_def)
      with assms(3) False expire_jobs show ?thesis
        by (auto simp: sql_delete_crawl_jobs_expired_def find_job_Some_iff distinct_map_filter)
    qed (use expire_jobs in blast)
  next
    case quiet
    then show ?thesis by (intro disjI1 s) (simp add: bookkeeping_def tables_same_def)
  next
    case (deny k why)
    then show ?thesis by (intro disjI1 s) (auto simp: sql_insert_denylist_prefix_def TRY_Inr_iff)
  next
    case (allow k why)
    then show ?thesis by (intro disjI1 s) (auto simp: sql_insert_allowlist_prefix_def TRY_Inr_iff)
  next
    case (unallow k)
    then show ?thesis by (intro disjI1 s) (auto simp: sql_delete_allowlist_prefix_def)
  next
    case (store i link pk sha href out)
    then show ?thesis by (intro disjI1 s) (auto simp: sql_insert_capture_def split: if_splits)
  next
    case (erase ids)
    then show ?thesis by (intro disjI1 s) (auto simp: sql_delete_captures_by_ids_def)
  next
    case (put k bytes)
    then show ?thesis by (intro disjI1 s) simp
  next
    case (remove k)
    then show ?thesis by (intro disjI1 s) simp
  qed (auto intro: k sql_jobs_keep)
qed

text \<open>A denied prefix stays denied.\<close>

lemma denylist_grows:
  assumes "service_step V w w'"
  shows "set (host_denylist w) \<subseteq> set (host_denylist w')"
  using assms
proof cases
  case quiet
  then show ?thesis by (simp add: bookkeeping_def tables_same_def)
next
  case (deny k why)
  then show ?thesis
    using insert_prefix_row_Inr by (fastforce simp: sql_insert_denylist_prefix_def TRY_Inr_iff)
next
  case (insert_job i link out)
  from job_statement_others(1) [OF this] show ?thesis by auto
next
  case (start_job i out)
  from job_statement_others(2) [OF this] show ?thesis by auto
next
  case (finish_job i created capture out)
  from job_statement_others(3) [OF this] show ?thesis by auto
next
  case (fail_job i category msg out)
  from job_statement_others(4) [OF this] show ?thesis by auto
qed (auto simp: sql_delete_crawl_jobs_expired_def sql_insert_allowlist_prefix_def TRY_Inr_iff
    sql_delete_allowlist_prefix_def sql_insert_capture_def sql_delete_captures_by_ids_def
    split: if_splits)

lemma denylist_grows_steps:
  "service_steps V w w' \<Longrightarrow> set (host_denylist w) \<subseteq> set (host_denylist w')"
  by (induction rule: rtranclp_induct) (auto dest: denylist_grows)

end
