(* ===== verification/Crud_Requests.thy ===== *)
theory Crud_Requests
  imports Service
begin

text \<open>
  What the callers of \<open>src/crud.cpp\<close> get back: the public view of a job, the rate limit on new
  jobs, what the cleanup keeps, and that a purge ends with success when nothing fails.
\<close>

section \<open>The public view of a job\<close>

definition public_messages :: "string list" where
  "public_messages = [''internal server error'', ''capture exceeded archive size limit'', ''capture failed'']"

lemma PublicJobErrorMessage_public: "PublicJobErrorMessage k \<in> set public_messages"
  by (auto simp: PublicJobErrorMessage_def public_messages_def split: option.split JobErrorKind.split)

lemma ParseJobErrorKind_known:
  assumes "c \<in> set error_categories"
  obtains k where "ParseJobErrorKind (Some c) = Returns (Some k)"
  using assms by (auto simp: error_categories_def ParseJobErrorKind_def)

text \<open>A well-formed row has a public view, which follows its status.\<close>

definition job_view_ok :: "SharedCrawlJobRow \<Rightarrow> CaptureJob \<Rightarrow> bool" where
  "job_view_ok r j \<longleftrightarrow> cj_uuid j = job_uuid r \<and> cj_link j = job_link r \<and>
     cj_created_at j = job_created_at r \<and> cj_started_at j = started_at r \<and>
     cj_finished_at j = finished_at r \<and> ParseJobStatus (job_status r) = Returns (cj_status j) \<and>
     (case cj_status j of
        JFailed \<Rightarrow> cj_result j = None \<and> (\<exists>m\<in>set public_messages. cj_error j = Some m)
      | JSucceeded \<Rightarrow> cj_error j = None \<and> (\<exists>u. cj_result j = Some u \<and>
          Some (ut_uuid u) = result_capture_id r \<and> Some (ut_created_at u) = result_created_at r \<and>
          ut_link u = job_link r)
      | _ \<Rightarrow> cj_error j = None \<and> cj_result j = None)"

lemma status_distinct:
  "ParseJobStatus ''pending'' = Returns JPending" "ParseJobStatus ''running'' = Returns JRunning"
  "ParseJobStatus ''succeeded'' = Returns JSucceeded" "ParseJobStatus ''failed'' = Returns JFailed"
  by (simp_all add: ParseJobStatus_def)

lemma MakeCaptureJob_view:
  assumes "job_row_ok r"
  obtains j where "MakeCaptureJob r = Returns j" "job_view_ok r j"
  using assms unfolding job_row_ok_def
proof (elim disjE conjE bexE)
  assume "job_status r = ''pending''" "started_at r = None" "finished_at r = None"
  with that show thesis by (simp add: MakeCaptureJob_def status_distinct job_view_ok_def)
next
  assume "job_status r = ''running''"
  with that show thesis by (simp add: MakeCaptureJob_def status_distinct job_view_ok_def)
next
  assume "job_status r = ''succeeded''" "result_created_at r \<noteq> None" "result_capture_id r \<noteq> None"
  with that show thesis
    by (auto simp: MakeCaptureJob_def status_distinct job_view_ok_def Invariant_def)
next
  fix c assume f: "job_status r = ''failed''" "error_category r = Some c" "c \<in> set error_categories"
    "result_created_at r = None"
  from f(3) obtain k where "ParseJobErrorKind (Some c) = Returns (Some k)"
    by (rule ParseJobErrorKind_known)
  with f that show thesis
    by (simp add: MakeCaptureJob_def status_distinct job_view_ok_def PublicJobErrorMessage_public)
qed

lemma view_of_status:
  assumes "job_view_ok r j"
  shows "cj_uuid j = job_uuid r \<and> cj_link j = job_link r \<and>
    (job_status r = ''failed'' \<longrightarrow> (\<exists>m\<in>set public_messages. cj_error j = Some m)) \<and>
    (job_status r \<noteq> ''failed'' \<longrightarrow> cj_error j = None) \<and>
    (job_status r = ''succeeded'' \<longleftrightarrow> cj_result j \<noteq> None) \<and>
    (\<forall>c. cj_result j = Some c \<longrightarrow> result_capture_id r = Some (ut_uuid c))"
  using assms
  by (auto simp: job_view_ok_def ParseJobStatus_def split: JobStatus.splits if_splits)

lemma MakeCaptureJob_ignores_message:
  "MakeCaptureJob (r\<lparr>error_message := m\<rparr>) = MakeCaptureJob r"
  by (simp add: MakeCaptureJob_def cong: if_cong option.case_cong JobStatus.case_cong)

lemma jobs_ok_find: "jobs_ok js \<Longrightarrow> find_job u js = Some r \<Longrightarrow> job_row_ok r \<and> job_uuid r = u"
  by (auto simp: jobs_ok_def find_job_Some_iff list_all_iff)

lemma FindCaptureJob_cases:
  assumes "jobs_ok (crawl_jobs w)"
  obtains (error) w' where "FindCaptureJob u w = (Returns (Inl CrudDbError), w')"
  | (missing) w' where "FindCaptureJob u w = (Returns (Inr None), w')" "find_job u (crawl_jobs w) = None"
  | (found) j r w' where "FindCaptureJob u w = (Returns (Inr (Some j)), w')"
      "find_job u (crawl_jobs w) = Some r" "MakeCaptureJob r = Returns j" "job_view_ok r j"
proof -
  let ?q = "sql_select_crawl_job u"
  note defs = FindCaptureJob_def LoadJob_def LoadCrawlJob_def Readonly_def count_failure_def
    try_act_def try_as_def bind_act_def ret_def modify_def of_outcome_def
  have q: "?q w = find_job u (crawl_jobs w)" by (simp add: sql_select_crawl_job_def find_job_def)
  show thesis
  proof (cases rule: RunReadonly_cases [of ?q w])
    case (1 e)
    then show thesis by (intro error) (simp add: defs)
  next
    case 2
    show thesis
    proof (cases "find_job u (crawl_jobs w)")
      case None
      with 2 show thesis by (intro missing) (simp_all add: defs q)
    next
      case (Some r)
      then have "job_row_ok r" using jobs_ok_find [OF assms] by blast
      then obtain j where j: "MakeCaptureJob r = Returns j" "job_view_ok r j"
        by (rule MakeCaptureJob_view)
      with 2 Some show thesis by (intro found [of j _ r]) (simp_all add: defs q)
    qed
  qed
qed

section \<open>The rate limit\<close>

lemma latest_job_newest: "latest_job rs = Some m \<Longrightarrow> r \<in> set rs \<Longrightarrow> job_created_at r \<le> job_created_at m"
proof (induction rs arbitrary: m)
  case (Cons a rs)
  show ?case
  proof (cases "latest_job rs")
    case None
    then have "rs = []" by (cases rs) (auto split: option.splits)
    with Cons.prems show ?thesis by simp
  next
    case (Some n)
    with Cons show ?thesis by (fastforce simp: newer_job_def split: if_splits)
  qed
qed simp

lemma latest_job_None: "latest_job rs = None \<longleftrightarrow> rs = []"
  by (cases rs) (auto split: option.splits)

lemma latest_job_in: "latest_job rs = Some m \<Longrightarrow> m \<in> set rs"
  by (induction rs arbitrary: m) (auto split: option.splits if_splits)

text \<open>The jobs of a link that the limit still counts at a time.\<close>

definition recent_jobs :: "int \<Rightarrow> string \<Rightarrow> int \<Rightarrow> world \<Rightarrow> SharedCrawlJobRow list" where
  "recent_jobs limit link now w =
     filter (\<lambda>r. job_link r = link \<and> now < job_created_at r + limit) (crawl_jobs w)"

lemma make_or_reuse_limit:
  assumes "make_or_reuse_trx link limit w = Inr (res, w')" and "limit > 0"
  shows "if mr_created res
    then recent_jobs limit link (app_clock w (calls w)) w = [] \<and>
         mr_job res = pending_row (uuid_supply w (calls w)) link (pg_now w) \<and>
         crawl_jobs w' = crawl_jobs w @ [mr_job res]
    else mr_job res \<in> set (recent_jobs limit link (app_clock w (calls w)) w) \<and> w' = w"
proof (cases "sql_select_latest_crawl_job_by_link link w")
  case None
  then have "filter (\<lambda>r. job_link r = link) (crawl_jobs w) = []"
    by (simp add: sql_select_latest_crawl_job_by_link_def latest_job_None)
  then have "recent_jobs limit link now w = []" for now
    by (auto simp: recent_jobs_def filter_empty_conv)
  with None assms show ?thesis
    by (auto simp: make_or_reuse_trx_def Let_def TRY_Inr_iff sql_insert_crawl_job_def AsSingleRow_def
        split: if_splits)
next
  case (Some m)
  then have m: "m \<in> set (crawl_jobs w)" "job_link m = link"
    "\<And>r. r \<in> set (crawl_jobs w) \<Longrightarrow> job_link r = link \<Longrightarrow> job_created_at r \<le> job_created_at m"
    using latest_job_in latest_job_newest
    by (fastforce simp: sql_select_latest_crawl_job_by_link_def)+
  have "recent_jobs limit link now w = []" if "\<not> now < job_created_at m + limit" for now
    using that m(3) by (fastforce simp: recent_jobs_def filter_empty_conv)
  with Some m(1,2) assms show ?thesis
    by (auto simp: make_or_reuse_trx_def Let_def TRY_Inr_iff sql_insert_crawl_job_def AsSingleRow_def
        recent_jobs_def split: if_splits)
qed

lemma Crud_MakeCaptureJob_limited:
  assumes "link_ratelimit cfg > 0"
    and "Crud_MakeCaptureJob V cfg link w = (Returns (Inr (job, task)), w')"
    and key: "ToKey V link = Returns key"
  shows "case task of
      None \<Rightarrow> crawl_jobs w' = crawl_jobs w \<and>
        (\<exists>r\<in>set (recent_jobs (link_ratelimit cfg) key (app_clock w (calls w)) w).
           MakeCaptureJob r = Returns job)
    | Some (i, l) \<Rightarrow> l = link \<and> cj_uuid job = i \<and> cj_status job = JPending \<and>
        recent_jobs (link_ratelimit cfg) key (app_clock w (calls w)) w = [] \<and>
        crawl_jobs w' = crawl_jobs w @ [pending_row i key (pg_now w)]"
proof -
  from assms(1,2) obtain res w1 where
    res: "MakeOrReuseCaptureJobLocked cfg key w = (Returns (Inr res), w1)"
    and j: "MakeCaptureJob (mr_job res) = Returns job" "w' = w1"
      "task = (if mr_created res then Some (cj_uuid job, link) else None)"
    by (auto simp: Crud_MakeCaptureJob_def bind_outcome_Returns_iff key try_as_def
        bind_sum_Returns_iff ret_def of_outcome_def split: if_splits)
  from res obtain w2 where
    t: "MakeOrReuseCrawlJobLocked key (link_ratelimit cfg) w = (Returns (Inr res), w2)"
    and w1: "crawl_jobs w1 = crawl_jobs w2"
    unfolding MakeOrReuseCaptureJobLocked_def try_act_def bind_sum_Returns_iff
    by (auto simp: ret_def AccountCaptureJobCreated_def bind_act_Returns_iff modify_def
        split: if_splits)
  from t obtain w3 where trx: "make_or_reuse_trx key (link_ratelimit cfg) w = Inr (res, w3)"
    and w2: "w2 = tick w3"
    unfolding MakeOrReuseCrawlJobLocked_def by (elim Readwrite_Inr) auto
  note lim = make_or_reuse_limit [OF trx assms(1)]
  show ?thesis
  proof (cases "mr_created res")
    case True
    with j(1) lim have "cj_uuid job = job_uuid (mr_job res)" "cj_status job = JPending"
      by (auto simp: MakeCaptureJob_def pending_row_def status_distinct)
    with True lim j(2,3) w1 w2 show ?thesis by (simp add: pending_row_def)
  next
    case False
    with lim j w1 w2 show ?thesis by auto
  qed
qed

section \<open>The cleanup\<close>

text \<open>
  A job younger than the retention time is kept, up to the microsecond that the conversion of
  the cutoff may add.
\<close>

lemma CleanupOldJobs_keeps:
  assumes "CleanupOldJobs V cfg w = (r, w')" and "pg_time_contract V"
    and "j \<in> set (crawl_jobs w)"
    and "app_clock w (calls w) + 1000 \<le> job_created_at j + crawl_job_retention cfg"
  shows "j \<in> set (crawl_jobs w')"
proof -
  let ?now = "app_clock w (calls w)"
  let ?cut = "to_pg_time V (?now - crawl_job_retention cfg)"
  from assms(1) obtain r1 where d: "DeleteCrawlJobsExpired V (?now - crawl_job_retention cfg) (tick w) = (r1, w')"
    by (auto simp: CleanupOldJobs_def Now_def bind_act_def ret_def split: prod.splits outcome.splits)
  have "?cut < ?now - crawl_job_retention cfg + 1000"
    using assms(2) by (simp add: pg_time_contract_def abs_less_iff) (metis add.commute diff_less_eq)
  then have "\<not> job_created_at j < ?cut" using assms(4) by simp
  from d show ?thesis
    unfolding DeleteCrawlJobsExpired_def
  proof (rule Readwrite_world)
    fix w1 assume "w1 = tick w \<or> (\<exists>out. sql_delete_crawl_jobs_expired ?cut (tick w) = Inr (out, w1))"
      and w': "w' = tick w1 \<or> w' = AccountError kDbSharedStateWrite (tick w1)"
    then have "j \<in> set (crawl_jobs w1)"
      using assms(3) \<open>\<not> job_created_at j < ?cut\<close> by (auto simp: sql_delete_crawl_jobs_expired_def)
    with w' show ?thesis by auto
  qed
qed

section \<open>A purge succeeds when nothing fails\<close>

lemma object_key_returns:
  assumes "utf8_contract V" and "is_ascii (S3Bucket cfg)" and "is_ascii (uuid_to_string V i)"
  shows "\<exists>k. MakeCaptureObjectKey V (S3Bucket cfg) i = Returns k"
proof -
  have "is_ascii (S3Bucket cfg @ ''/'' @ uuid_to_string V i @ ''.wacz'')"
    using assms(2,3) by simp
  with assms(1) show ?thesis by (simp add: MakeCaptureObjectKey_def deref_text_ascii del: append.simps)
qed

lemma purge_batch_healthy:
  assumes "utf8_contract V" and "is_ascii (S3Bucket cfg)" and "\<And>i. is_ascii (uuid_to_string V i)"
  shows "db_healthy w \<Longrightarrow> s3_healthy w \<Longrightarrow>
    \<exists>w'. purge_batch V cfg ids w = (Returns (Inr ()), w') \<and> db_healthy w' \<and> s3_healthy w'"
proof (induction ids arbitrary: w)
  case Nil
  then show ?case by (simp add: ret_def)
next
  case (Cons i ids)
  obtain k where k: "MakeCaptureObjectKey V (S3Bucket cfg) i = Returns k"
    using object_key_returns [of V cfg i] assms by blast
  let ?w1 = "tick (w\<lparr>objects := (objects w)(k := None)\<rparr>)"
  have d: "DeleteCaptureObject k w = (Returns (Inr ()), ?w1)"
    using Cons.prems(2) by (simp add: DeleteCaptureObject_def RunS3Operation_def s3_healthy_def)
  have h1: "db_healthy ?w1" "s3_healthy ?w1"
    using Cons.prems by (simp_all add: db_healthy_def s3_healthy_def)
  let ?w2 = "tick (?w1\<lparr>captures := filter (\<lambda>r. cap_id r \<notin> set [i]) (captures ?w1)\<rparr>)"
  have e: "DeleteCapturesByIds [i] ?w1 = (Returns (Inr ()), ?w2)"
    using RunReadwrite_healthy [OF h1(1), of "\<lambda>_. Inr ()" "sql_delete_captures_by_ids [i]"]
    by (simp add: DeleteCapturesByIds_def CaptureReadwrite_def count_failure_def bind_act_def
        sql_delete_captures_by_ids_def ret_def)
  have h2: "db_healthy ?w2" "s3_healthy ?w2" using h1 by (simp_all add: db_healthy_def s3_healthy_def)
  have "purge_batch V cfg (i # ids) w = purge_batch V cfg ids ?w2"
    unfolding purge_batch.simps by (simp add: bind_act_def of_outcome_def k d e del: bind_act_simps)
  with Cons.IH [OF h2] show ?case by simp
qed

lemma purge_loop_healthy:
  assumes "purge_loop V cfg tree w = (r, w')"
    and "utf8_contract V" and "is_ascii (S3Bucket cfg)" and "\<And>i. is_ascii (uuid_to_string V i)"
    and "db_healthy w" and "s3_healthy w"
  shows "r = Returns (Inr ())"
  using assms
proof (induction rule: purge_rounds)
  case (stopped w r w2)
  with purge_batch_healthy [of V cfg "tick w"
      "sql_select_ids_by_deny_prefix_paged tree (purge_delete_batch_size cfg) w"]
  show ?case by auto
next
  case (round w w2 r w')
  with purge_batch_healthy [of V cfg "tick w"
      "sql_select_ids_by_deny_prefix_paged tree (purge_delete_batch_size cfg) w"]
  show ?case by auto
qed simp_all

end
