(* ===== verification/Example_Vendor.thy ===== *)
theory Example_Vendor
  imports Crud_Paging
begin

text \<open>
  A concrete instance of the third-party interface that meets every contract of
  \<open>Vendor.thy\<close> and \<open>Link.thy\<close>.  It models no code; it shows that the hypotheses of the
  properties can hold, and the witnesses evaluate the model with it.
\<close>

section \<open>Hexadecimal\<close>

definition hexd :: "nat \<Rightarrow> char" where
  "hexd n = hex_digits ! n"

definition hex_encode :: "string \<Rightarrow> string" where
  "hex_encode s = concat (map (\<lambda>c. [hexd (of_char c div 16), hexd (of_char c mod 16)]) s)"

fun hex_decode :: "string \<Rightarrow> string option" where
  "hex_decode [] = Some []"
| "hex_decode [_] = None"
| "hex_decode (a # b # s) =
     (case (index_of a hex_digits, index_of b hex_digits, hex_decode s) of
        (Some x, Some y, Some r) \<Rightarrow> Some (char_of (16 * x + y) # r)
      | _ \<Rightarrow> None)"

lemma all_below_16: "(\<forall>n<16. P n) \<longleftrightarrow> (\<forall>n\<in>set [0..<16]. P (n :: nat))"
  by auto

lemma index_of_hexd: "n < 16 \<Longrightarrow> index_of (hexd n) hex_digits = Some n"
proof -
  have "\<forall>n<16. index_of (hexd n) hex_digits = Some n"
    unfolding all_below_16 by (simp add: hexd_def hex_digits_def upt_rec)
  then show "n < 16 \<Longrightarrow> index_of (hexd n) hex_digits = Some n" by simp
qed

lemma hexd_in: "n < 16 \<Longrightarrow> hexd n \<in> set hex_digits"
  unfolding hexd_def by (rule nth_mem) (simp add: hex_digits_def)

lemma byte_less: "of_char c < (256::nat)"
  by simp

lemma nibbles: "of_char c div 16 < (16::nat)" "of_char c mod 16 < (16::nat)"
  using byte_less [of c] by (simp_all add: less_mult_imp_div_less)

lemma hex_decode_encode: "hex_decode (hex_encode s) = Some s"
proof (induction s)
  case (Cons c s)
  have "16 * (of_char c div 16) + of_char c mod 16 = (of_char c :: nat)" by simp
  then have "char_of (16 * (of_char c div 16) + of_char c mod 16 :: nat) = c"
    using char_of_char by metis
  with Cons show ?case
    by (simp add: hex_encode_def index_of_hexd nibbles del: mult_div_mod_eq)
qed (simp add: hex_encode_def)

lemma hex_encode_length: "length (hex_encode s) = 2 * length s"
  by (induction s) (auto simp: hex_encode_def)

lemma hex_encode_set: "set (hex_encode s) \<subseteq> set hex_digits"
  unfolding hex_encode_def using hexd_in nibbles by (induction s) auto

lemma hex_digits_ascii: "is_ascii hex_digits"
  by (simp add: hex_digits_def)

lemma hex_encode_ascii: "is_ascii (hex_encode s)"
  using hex_encode_set hex_digits_ascii unfolding is_ascii_def by blast

section \<open>Cursors\<close>

definition unary :: "char \<Rightarrow> nat \<Rightarrow> string" where
  "unary c n = replicate n c @ ''.''"

definition un_unary :: "string \<Rightarrow> nat \<times> string" where
  "un_unary s = (length (takeWhile (\<lambda>c. c \<noteq> CHR ''.'') s), tl (dropWhile (\<lambda>c. c \<noteq> CHR ''.'') s))"

lemma un_unary [simp]: "c \<noteq> CHR ''.'' \<Longrightarrow> un_unary (unary c n @ s) = (n, s)"
  by (induction n) (simp_all add: un_unary_def unary_def)

definition int_text :: "int \<Rightarrow> string" where
  "int_text t = (if t < 0 then ''-'' else ''+'') @ unary (CHR ''t'') (nat \<bar>t\<bar>)"

definition un_int :: "string \<Rightarrow> int \<times> string" where
  "un_int s = (case un_unary (tl s) of (n, r) \<Rightarrow> (if hd s = CHR ''-'' then - int n else int n, r))"

lemma un_int [simp]: "un_int (int_text t @ s) = (t, s)"
  by (simp add: un_int_def int_text_def)

definition dir_char :: "cursor_direction \<Rightarrow> char" where
  "dir_char d = (case d of DNext \<Rightarrow> CHR ''n'' | DPrevious \<Rightarrow> CHR ''p'')"

definition un_dir :: "char \<Rightarrow> cursor_direction" where
  "un_dir c = (if c = CHR ''n'' then DNext else DPrevious)"

lemma un_dir [simp]: "un_dir (dir_char d) = d"
  by (cases d) (simp_all add: un_dir_def dir_char_def)

definition cursor_text :: "PaginationCursor \<Rightarrow> string" where
  "cursor_text c = dir_char (cur_d c) # int_text (cur_t c) @ unary (CHR ''i'') (unat (cur_i c))"

definition cursor_read :: "string \<Rightarrow> PaginationCursor option" where
  "cursor_read s = (case un_int (tl s) of (t, r) \<Rightarrow>
     Some \<lparr>cur_t = t, cur_i = of_nat (fst (un_unary r)), cur_d = un_dir (hd s)\<rparr>)"

definition opt_text :: "string option \<Rightarrow> string" where
  "opt_text o' = (case o' of None \<Rightarrow> ''N'' | Some s \<Rightarrow> CHR ''S'' # s)"

definition sized :: "string \<Rightarrow> string" where
  "sized s = unary (CHR ''s'') (length s) @ s"

definition un_sized :: "string \<Rightarrow> string \<times> string" where
  "un_sized s = (case un_unary s of (n, r) \<Rightarrow> (take n r, drop n r))"

lemma un_sized [simp]: "un_sized (sized s @ r) = (s, r)"
  by (simp add: un_sized_def sized_def)

definition prefix_cursor_text :: "PaginationPrefixCursor \<Rightarrow> string" where
  "prefix_cursor_text c = dir_char (pcur_d c) # sized (pcur_p c) @ sized (pcur_l c) @
     (case pcur_t c of None \<Rightarrow> ''N'' | Some t \<Rightarrow> CHR ''S'' # int_text t) @
     (case pcur_i c of None \<Rightarrow> ''N'' | Some i \<Rightarrow> CHR ''S'' # unary (CHR ''i'') (unat i))"

definition prefix_cursor_read :: "string \<Rightarrow> PaginationPrefixCursor option" where
  "prefix_cursor_read s =
     (let (p, r1) = un_sized (tl s); (l, r2) = un_sized r1;
          (t, r3) = (if hd r2 = CHR ''N'' then (None, tl r2)
                     else case un_int (tl r2) of (t, r) \<Rightarrow> (Some t, r));
          i = (if hd r3 = CHR ''N'' then None else Some (of_nat (fst (un_unary (tl r3)))))
      in Some \<lparr>pcur_p = p, pcur_l = l, pcur_d = un_dir (hd s), pcur_t = t, pcur_i = i\<rparr>)"

lemma un_unary_Nil [simp]: "c \<noteq> CHR ''.'' \<Longrightarrow> un_unary (unary c n) = (n, [])"
  using un_unary [of c n "[]"] by simp

lemma cursor_read_text: "cursor_read (cursor_text c) = Some c"
  by (simp add: cursor_read_def cursor_text_def)

lemma prefix_cursor_read_text: "prefix_cursor_read (prefix_cursor_text c) = Some c"
  by (cases "pcur_t c"; cases "pcur_i c")
    (simp_all add: prefix_cursor_read_def prefix_cursor_text_def Let_def)

lemma unary_ascii: "of_char c < (128::nat) \<Longrightarrow> is_ascii (unary c n)"
  by (auto simp: unary_def is_ascii_def)

lemma int_text_ascii: "is_ascii (int_text t)"
  by (simp add: int_text_def unary_ascii)

lemma cursor_text_ascii: "is_ascii (cursor_text c)"
  by (cases "cur_d c") (simp_all add: cursor_text_def dir_char_def int_text_ascii unary_ascii)

lemma prefix_cursor_text_ascii:
  "is_ascii (pcur_p c) \<Longrightarrow> is_ascii (pcur_l c) \<Longrightarrow> is_ascii (prefix_cursor_text c)"
  by (cases "pcur_d c"; cases "pcur_t c"; cases "pcur_i c")
    (simp_all add: prefix_cursor_text_def dir_char_def int_text_ascii unary_ascii sized_def)

section \<open>URLs\<close>

text \<open>A URL is a scheme, a host and a path; getters keep the ASCII bytes.\<close>

type_synonym url = "string \<times> string \<times> string"

definition asc :: "string \<Rightarrow> string" where
  "asc s = filter (\<lambda>c. of_char c < (128::nat)) s"

lemma asc_ascii [simp]: "is_ascii (asc s)"
  by (simp add: asc_def is_ascii_def)

definition parse_rest :: "string \<Rightarrow> string \<Rightarrow> url" where
  "parse_rest scheme r = (case index_of (CHR ''/'') r of
     None \<Rightarrow> (scheme, r, ''/'') | Some i \<Rightarrow> (scheme, take i r, drop i r))"

definition parse_url :: "string \<Rightarrow> url option" where
  "parse_url s =
     (if prefix ''http://'' s then Some (parse_rest ''http'' (drop 7 s))
      else if prefix ''https://'' s then Some (parse_rest ''https'' (drop 8 s)) else None)"

definition is_ws :: "char \<Rightarrow> bool" where
  "is_ws c \<longleftrightarrow> of_char c \<in> {9::nat, 10, 11, 12, 13, 32}"

definition byte :: "char \<Rightarrow> nat" where
  "byte c = of_char c"

definition example_vendor :: "url vendor" where
  "example_vendor = \<lparr>
     ascii_isalpha = (\<lambda>c. (65 \<le> byte c \<and> byte c \<le> 90) \<or>
                         (97 \<le> byte c \<and> byte c \<le> 122)),
     ascii_isalnum = (\<lambda>c. (65 \<le> byte c \<and> byte c \<le> 90) \<or>
                         (97 \<le> byte c \<and> byte c \<le> 122) \<or> is_digit c),
     StripAsciiWhitespace = (\<lambda>s. rev (dropWhile is_ws (rev (dropWhile is_ws s)))),
     ConsumeSuffix = (\<lambda>s x. if suffix x s then take (length s - length x) s else s),
     AsciiStrToLower = map (\<lambda>c. if 65 \<le> byte c \<and> byte c \<le> 90
                               then char_of (byte c + 32) else c),
     is_valid_utf8 = is_ascii,
     to_nfc_utf8 = (\<lambda>s. s),
     ada_parse = parse_url,
     get_href = (\<lambda>(s, h, p). asc (s @ ''://'' @ h @ p)),
     get_host = (\<lambda>(s, h, p). asc h),
     get_hostname = (\<lambda>(s, h, p). asc h),
     get_port = (\<lambda>_. []),
     get_pathname = (\<lambda>(s, h, p). asc p),
     get_search = (\<lambda>_. []),
     ada_has_hostname = (\<lambda>(s, h, p). h \<noteq> []),
     ada_has_port = (\<lambda>_. False),
     ada_has_search = (\<lambda>_. False),
     has_valid_domain = (\<lambda>_. True),
     ada_type = (\<lambda>(s, h, p). if s = ''http'' then SchemeHttp else if s = ''https'' then SchemeHttps
                             else SchemeNotSpecial),
     set_username = (\<lambda>u _. (True, u)),
     set_password = (\<lambda>u _. (True, u)),
     set_protocol = (\<lambda>(s, h, p) x. (True, (x, h, p))),
     set_hostname = (\<lambda>(s, h, p) x. (True, (s, x, p))),
     set_port = (\<lambda>u _. (True, u)),
     set_pathname = (\<lambda>(s, h, p) x. (True, (s, h, x))),
     set_search = (\<lambda>u _. u),
     set_hash = (\<lambda>u _. u),
     clear_port = (\<lambda>u. u),
     clear_search = (\<lambda>u. u),
     clear_hash = (\<lambda>u. u),
     get_special_port = (\<lambda>k. if k = SchemeHttp then 80 else if k = SchemeHttps then 443 else 0),
     to_hex = hex_encode,
     base64url_encode = hex_encode,
     base64url_decode = hex_decode,
     cursor_to_json = cursor_text,
     cursor_of_json = cursor_read,
     prefix_cursor_to_json = prefix_cursor_text,
     prefix_cursor_of_json = prefix_cursor_read,
     inet_pton4 = (\<lambda>s. if s = ''127.0.0.1'' then Some (Ip4 127 0 0 1)
                       else if s = ''93.184.216.34'' then Some (Ip4 93 184 216 34) else None),
     inet_pton6 = (\<lambda>_. None),
     uuid_to_string = (\<lambda>i. to_string (unat i)),
     to_pg_time = (\<lambda>t. 1000 * (t div 1000)),
     TrimView = trim,
     SplitIntoStringViewVector = (\<lambda>s sep. split_on (hd sep) s),
     ICaseStartsWith = (\<lambda>hay needle. prefix (map ascii_lower needle) (map ascii_lower hay)),
     base64_decode = Some\<rparr>"

lemma example_utf8 [simp]: "utf8_contract example_vendor"
  by (simp add: utf8_contract_def example_vendor_def)

lemma example_hex [simp]: "hex_contract example_vendor"
proof -
  have "inj hex_encode" by (metis hex_decode_encode injI option.inject)
  then show ?thesis
    using hex_encode_set by (simp add: hex_contract_def example_vendor_def hex_encode_length)
qed

lemma example_token [simp]: "token_contract example_vendor"
  by (simp add: token_contract_def example_vendor_def hex_decode_encode hex_encode_ascii
      cursor_read_text cursor_text_ascii prefix_cursor_read_text prefix_cursor_text_ascii)
    (simp add: hex_encode_def cursor_text_def prefix_cursor_text_def)

lemma example_ada_ascii [simp]: "ada_ascii_contract example_vendor"
  by (simp add: ada_ascii_contract_def example_vendor_def)

lemma example_setters [simp]: "ada_setter_contract example_vendor"
  by (auto simp: ada_setter_contract_def example_vendor_def)

lemma example_pg_time [simp]: "pg_time_contract example_vendor"
  by (simp add: pg_time_contract_def example_vendor_def minus_mult_div_eq_mod [symmetric]
      abs_less_iff) presburger

lemma example_text_light [simp]: "text_light_contract example_vendor"
  by (simp add: text_light_contract_def example_vendor_def)

section \<open>An empty world\<close>

definition zero_counters :: CaptureCounters where
  "zero_counters = \<lparr>jobs_created = 0, succeeded = 0, failed = 0, succeeded_duration_ms_sum = 0,
     failed_duration_ms_sum = 0\<rparr>"

definition example_world :: world where
  "example_world = \<lparr>captures = [], crawl_jobs = [], host_denylist = [], host_allowlist = [],
     objects = (\<lambda>_. None), capture_counters = zero_counters, error_counters = (\<lambda>_. 0),
     browser_cgroups = [], calls = 0, db_fault = (\<lambda>_. NoFault), s3_fault = (\<lambda>_. NoFault),
     cancel_requested = (\<lambda>_. False), db_clock_us = (\<lambda>n. int n), app_clock = (\<lambda>n. 1000 * int n),
     uuid_supply = (\<lambda>n. of_nat (n + 1))\<rparr>"

lemma example_healthy [simp]: "db_healthy example_world" "s3_healthy example_world"
  by (simp_all add: db_healthy_def s3_healthy_def example_world_def)

end
