(* ===== verification/Example_Service.thy ===== *)
theory Example_Service
  imports Crud_Requests Example_Vendor
begin

text \<open>
  Concrete configurations, links and worlds, on which the theorems of the service are applied.
\<close>

definition example_cfg :: crud_config where
  "example_cfg = \<lparr>link_ratelimit = 60000000000, crawl_job_retention = 86400000000000,
     HttpsOnly = False, S3Bucket = ''b'', purge_delete_batch_size = 2\<rparr>"

definition example_paging :: paging_config where
  "example_paging = \<lparr>page_max = 1, per_link_max = 2, links_per_page_max = 2\<rparr>"

definition example_link :: url where
  "example_link = (''https'', ''x.ads.com'', ''/p'')"

definition example_sha :: string where
  "example_sha = replicate 32 CHR ''s''"

text \<open>A crawler that is interrupted.\<close>

definition example_run :: "string \<Rightarrow> CrawlerRunArtifacts act" where
  "example_run seed = of_outcome (Throws ''interrupted'')"

lemma example_run_contract [simp]: "crawler_contract example_run"
  by (simp add: crawler_contract_def keeps_def example_run_def of_outcome_def tables.refl)

section \<open>Worlds\<close>

lemma example_reachable [simp]: "reachable V example_world"
  unfolding reachable_def
  by (rule exI [of _ example_world]) (simp add: initial_def example_world_def)

lemma reachable_keeps: "reachable V w \<Longrightarrow> keeps (service_steps V) m \<Longrightarrow> reachable V (snd (m w))"
  by (auto simp: reachable_def keeps_def intro: sys.trans)

lemma reachable_step: "reachable V w \<Longrightarrow> service_step V w w' \<Longrightarrow> reachable V w'"
  by (auto simp: reachable_def intro: rtranclp.rtrancl_into_rtrancl)

text \<open>A world in which one prefix is denied.\<close>

definition denied_row :: "('u, 'z) vendor_scheme \<Rightarrow> string \<Rightarrow> prefix_row" where
  "denied_row V k = \<lparr>pr_prefix_key = k, pr_prefix_tree = text2ltree (MakePrefixTree V k),
     pr_created_at = 0, pr_reason = ''spam''\<rparr>"

definition denied_world :: "string \<Rightarrow> world" where
  "denied_world k = tick (example_world\<lparr>host_denylist := [denied_row example_vendor k]\<rparr>)"

lemma InsertPrefix_example:
  "InsertPrefix example_vendor k ''spam'' example_world = (Returns (Inr ()), denied_world k)"
proof -
  have l: "host_denylist example_world = []" "pg_now example_world = 0"
    by (simp_all add: example_world_def pg_now_def)
  show ?thesis
    by (simp add: InsertPrefix_def InsertDenylistPrefix_def Readwrite_def count_failure_def
        bind_act_def RunReadwrite_healthy sql_insert_denylist_prefix_def insert_prefix_row_def TRY_def l
        ret_def denied_world_def denied_row_def)
qed

lemma denied_world_reachable [simp]: "reachable example_vendor (denied_world k)"
proof -
  have "keeps (service_steps example_vendor) (InsertPrefix example_vendor k ''spam'')"
    unfolding InsertPrefix_def
    by (auto intro!: sys.guar_bind sys.guar_outcome sys.guar_ret shared_ops split: sum.split)
  from reachable_keeps [OF example_reachable this] show ?thesis by (simp add: InsertPrefix_example)
qed

lemma denied_world_healthy [simp]: "db_healthy (denied_world k)" "s3_healthy (denied_world k)"
  by (simp_all add: denied_world_def db_healthy_def s3_healthy_def example_world_def)

lemma denied_world_lists [simp]:
  "host_denylist (denied_world k) = [denied_row example_vendor k]" "host_allowlist (denied_world k) = []"
  "pr_prefix_key (denied_row V k) = k"
  by (simp_all add: denied_world_def example_world_def denied_row_def)

lemma denied_keys [simp]:
  "keys_of (host_denylist (denied_world k)) = {k}" "keys_of (host_allowlist (denied_world k)) = {}"
  by (simp_all add: keys_of_def)

text \<open>A world with a pending job, and one in which it failed.\<close>

definition job_world :: world where
  "job_world = example_world\<lparr>crawl_jobs := [pending_row 1 ''a.com'' 0]\<rparr>"

definition failed_job :: SharedCrawlJobRow where
  "failed_job = failed_row 0 ''crawler_failed'' ''secret'' (pending_row 1 ''a.com'' 0)"

definition failed_world :: world where
  "failed_world = job_world\<lparr>crawl_jobs := [failed_job]\<rparr>"

lemma job_world_reachable [simp]: "reachable V job_world"
proof (rule reachable_step [OF example_reachable service_step.insert_job])
  show "sql_insert_crawl_job 1 ''a.com'' example_world = Inr ([0], job_world)"
    by (simp add: sql_insert_crawl_job_def example_world_def job_world_def pg_now_def)
qed

lemma failed_world_reachable [simp]: "reachable V failed_world"
proof (rule reachable_step [OF job_world_reachable service_step.fail_job])
  show "sql_update_crawl_job_failed 1 ''crawler_failed'' ''secret'' job_world = Inr ([failed_job], failed_world)"
    by (simp add: sql_update_crawl_job_failed_def job_world_def failed_world_def failed_job_def Let_def
        error_categories_def update_rows_def pg_now_def example_world_def pending_row_def)
qed

lemma job_world_healthy [simp]: "db_healthy job_world" "db_healthy failed_world"
  by (simp_all add: job_world_def failed_world_def db_healthy_def example_world_def)

text \<open>A world with two captures of one link.\<close>

definition example_capture :: "Uuid \<Rightarrow> int \<Rightarrow> capture_row" where
  "example_capture i t = \<lparr>cap_id = i, cap_created_at = t, cap_link = ''x.ads.com/p'',
     cap_replay_url = ''https://x.ads.com/p'', cap_prefix_key = ''com.ads.x/p'',
     cap_prefix_tree = text2ltree (MakePrefixTree example_vendor ''com.ads.x/p''),
     cap_content_sha256 = example_sha\<rparr>"

definition capture_world :: world where
  "capture_world = tick (example_world\<lparr>captures := [example_capture 1 0, example_capture 2 1000]\<rparr>)"

lemma capture_world_reachable [simp]: "reachable example_vendor capture_world"
proof -
  let ?w1 = "example_world\<lparr>captures := [example_capture 1 0]\<rparr>"
  let ?ins = "\<lambda>i. sql_insert_capture i ''x.ads.com/p'' ''com.ads.x/p''
    (MakePrefixTree example_vendor ''com.ads.x/p'') example_sha ''https://x.ads.com/p''"
  note defs = sql_insert_capture_def example_capture_def example_world_def pg_now_def example_sha_def
  have "?ins 1 example_world = Inr ([\<lparr>ic_id = 1, ic_created_at = 0\<rparr>], ?w1)" by (simp add: defs)
  from reachable_step [OF example_reachable service_step.store [OF this]]
  have 1: "reachable example_vendor (tick ?w1)"
    by (rule reachable_step) (simp add: service_step.quiet bookkeeping_def tables.ticks)
  have "?ins 2 (tick ?w1) = Inr ([\<lparr>ic_id = 2, ic_created_at = 1000\<rparr>], capture_world)"
    by (simp add: defs capture_world_def tick_def)
  from reachable_step [OF 1 service_step.store [OF this]] show ?thesis .
qed

lemma capture_world_healthy [simp]: "db_healthy capture_world" "s3_healthy capture_world"
  by (simp_all add: capture_world_def db_healthy_def s3_healthy_def example_world_def)

lemma capture_world_captures [simp]:
  "captures capture_world = [example_capture 1 0, example_capture 2 1000]"
  by (simp add: capture_world_def)

lemma capture_world_ok [simp]: "captures_ok capture_world"
  by (simp add: captures_ok_def db_time_def example_capture_def)

lemma example_uuid_ascii [simp]: "is_ascii (uuid_to_string example_vendor i)"
  by (simp add: example_vendor_def to_string_ascii)

lemma example_bucket [simp]: "is_ascii (S3Bucket example_cfg)" "purge_delete_batch_size example_cfg = 2"
  by (simp_all add: example_cfg_def)

lemma example_ToKey: "ToKey example_vendor example_link = Returns ''x.ads.com/p''"
  by code_simp

lemma example_MakePrefixKey: "MakePrefixKey example_vendor example_link = Returns ''com.ads.x/p''"
  by code_simp

lemma example_HttpsUrl: "HttpsUrl example_vendor example_link = Returns ''https://x.ads.com/p''"
  by code_simp

text \<open>A crawl that ended, with or without its archive.\<close>

definition example_context :: "string option \<Rightarrow> url CrawlContext" where
  "example_context wacz = \<lparr>cx_link = example_link, cx_id = 9, cx_s3_key = ''b/9.wacz'', cx_wacz_bytes = wacz,
     cx_content_sha256 = Some example_sha, cx_replay_url = Some example_link, cx_error_message = None\<rparr>"

text \<open>The three pages of going forward and back.\<close>

lemma example_capture_fields [simp]:
  "cap_id (example_capture i t) = i" "cap_created_at (example_capture i t) = t"
  "cap_link (example_capture i t) = ''x.ads.com/p''"
  "cap_prefix_tree (example_capture i t) = text2ltree (MakePrefixTree example_vendor ''com.ads.x/p'')"
  "id_row (example_capture i t) = \<lparr>mi_uuid = i, mi_created_at = t\<rparr>"
  by (simp_all add: example_capture_def id_row_def)

lemma example_of_link: "of_link ''x.ads.com/p'' capture_world = [example_capture 1 0, example_capture 2 1000]"
  by (simp add: of_link_def)

lemma example_keys: "link_keys ''x.ads.com/p'' capture_world = [] @ (- 1000, 2) # [(0, 1)]"
  by (simp add: link_keys_def example_of_link newest_key_def)

lemma example_fetch:
  "link_fetch ''x.ads.com/p'' capture_world (Suc 0) None = ([(- 1000, 2)], False, True)"
  "link_fetch ''x.ads.com/p'' capture_world (Suc 0) (Some (kNext, - 1000, 2)) = ([(0, 1)], True, False)"
  using link_src.fetch_first [of "''x.ads.com/p''" capture_world "Suc 0", folded link_fetch_def]
    link_src.fetch_next [OF distinct_link_keys [OF capture_world_ok] example_keys, of "Suc 0", folded link_fetch_def]
  by (simp_all add: example_keys)

lemma example_under_tree: "under_tree (MakePrefixTree example_vendor ''com.ads'') (example_capture i t)"
  using key_covers_tree [of "''com.ads''" "''com.ads.x/p''" example_vendor]
  by (simp add: under_tree_def text2ltree_MakePrefixTree ltree_ancestor_def key_covers_def)

lemma example_persist:
  "\<exists>s. fst (PersistMetadataForContext example_vendor (example_context (Some ''zip'')) example_world) =
     Returns (Some s)"
proof -
  have e: "captures example_world = []" "host_denylist example_world = []" "objects example_world = (\<lambda>_. None)"
    "calls example_world = 0" "s3_fault example_world n = NoFault" for n
    by (simp_all add: example_world_def)
  have h: "Href example_vendor example_link = Returns ''https://x.ads.com/p''" by code_simp
  have sha: "length example_sha = 32" by (simp add: example_sha_def)
  have f: "db_healthy (w\<lparr>objects := objs\<rparr>) = db_healthy w" for w objs
    by (simp add: db_healthy_def)
  show ?thesis
    by (simp add: PersistMetadataForContext_def IsAllowedPrefix_def IsDeniedPrefix_healthy try_act_def bind_act_def
        of_outcome_def example_context_def example_MakePrefixKey Invariant_def ret_def exists_ancestor_def e
        persist_allowed_def example_ToKey FindCaptureByLinkHash_def CaptureReadonly_healthy sha
        sql_select_capture_by_link_hash_def persist_new_def PutCaptureObject_def RunS3Operation_def h
        InsertCapture_def CaptureReadwrite_def count_failure_def RunReadwrite_healthy sql_insert_capture_def
        AsSingleRow_def f)
qed

lemma example_prefix_page:
  "\<exists>page. fst (FindCapturesByPrefixPage example_vendor example_paging ''x.ads'' [] capture_world) =
     Returns (Inr page)"
proof -
  define l where "l = ''x.ads.com/p''"
  have u: "UpperExclusiveBound ''x.ads'' = ''x.adt''" by code_simp
  have c: "''x.ads'' \<le> ''x.ads.com/p''" "''x.ads.com/p'' < ''x.adt''" by code_simp+
  have links: "links_in_range ''x.ads'' ''x.adt'' capture_world = [l]"
    using c by (simp add: links_in_range_def l_def)
  have pl: "page_links example_vendor example_paging ''x.ads'' ''x.adt'' None capture_world =
      (Returns (Inr ([l], False, False)), tick capture_world)"
    by (simp add: page_links_def GetDistinctLinksByPrefixFirst_def CaptureReadonly_healthy try_act_simps
        sql_select_distinct_links_by_prefix_first_def links example_paging_def ret_def)
  have "length (sql_select_capture_by_link_first l 3 (tick capture_world)) \<le> 2"
    by (simp add: sql_select_capture_by_link_first_def l_def example_of_link)
  then obtain items where "items_loop example_vendor example_paging None 0 [l] ([], False, False) (tick capture_world) =
      (Returns (Inr (items, False, False)), tick (tick capture_world))"
    by (simp add: select_rows_for_link_def GetCapturesByLinkFirst_def CaptureReadonly_healthy try_act_simps
        example_paging_def link_rows_def is_previous_cursor_link_def ret_def)
  then show ?thesis
    by (simp add: FindCapturesByPrefixPage_def u try_as_def bind_act_def pl prefix_page_response_def opt_token_def
        of_outcome_def ret_def)
qed

lemma example_pages:
  obtains page1 page2 page3 w1 w2 w3 t t' where
    "FindCapturesByLinkPage example_vendor example_paging example_link [] capture_world =
       (Returns (Inr page1), w1)" "lp_next page1 = Some t"
    "FindCapturesByLinkPage example_vendor example_paging example_link t w1 = (Returns (Inr page2), w2)"
    "lp_previous page2 = Some t'"
    "FindCapturesByLinkPage example_vendor example_paging example_link t' w2 = (Returns (Inr page3), w3)"
proof -
  note V = example_utf8 example_token example_pg_time
  have n: "page_max example_paging = 1" by (simp add: example_paging_def)
  have w: "captures_ok (tick capture_world)" "db_healthy (tick capture_world)"
    "captures_ok (tick (tick capture_world))" "db_healthy (tick (tick capture_world))" by simp_all
  from link_page_fetch [OF V capture_world_ok capture_world_healthy(1) example_ToKey, of "[]" None example_paging]
  obtain page1 where p1: "FindCapturesByLinkPage example_vendor example_paging example_link [] capture_world =
      (Returns (Inr page1), tick capture_world)" "page_shows example_vendor page1 ([(- 1000, 2)], False, True)"
    by (auto simp: n example_fetch)
  then obtain t where t: "lp_next page1 = Some t" "token_for example_vendor t (Some (kNext, - 1000, 2))"
    by (auto simp: page_shows_def simp del: token_for.simps)
  from link_page_fetch [OF V w(1,2) example_ToKey t(2), of example_paging] obtain page2 where
    p2: "FindCapturesByLinkPage example_vendor example_paging example_link t (tick capture_world) =
      (Returns (Inr page2), tick (tick capture_world))" "page_shows example_vendor page2 ([(0, 1)], True, False)"
    by (auto simp: n example_fetch)
  then obtain t' where t': "lp_previous page2 = Some t'" "token_for example_vendor t' (Some (kPrevious, 0, 1))"
    by (auto simp: page_shows_def simp del: token_for.simps)
  from link_page_fetch [OF V w(3,4) example_ToKey t'(2), of example_paging] obtain page3 w3 where
    "FindCapturesByLinkPage example_vendor example_paging example_link t' (tick (tick capture_world)) =
      (Returns (Inr page3), w3)" by blast
  with p1(1) t(1) p2(1) t'(1) show thesis by (rule that)
qed

end
