(* ===== verification/Egress_Request.thy ===== *)
theory Egress_Request
  imports Integers Ip
begin

text \<open>
  The first half of \<open>src/crawler/egress_proxy.cpp\<close>, the proxy the sandboxed browser reaches the
  network through: reading a request, its credentials and its target, resolving the target to
  addresses, and the request that is sent on.  Views into the receive buffer are byte strings,
  ports are numbers below \<open>2 ^ 16\<close>.
\<close>

section \<open>Constants and data\<close>

definition crlf :: string where
  "crlf = [CHR 0x0D, CHR 0x0A]"

definition kMaxHeaderBytes :: nat where
  "kMaxHeaderBytes = 64 * 1024"

definition kIoBufferBytes :: nat where
  "kIoBufferBytes = 16 * 1024"

definition kMaxContentLengthBytes :: int where
  "kMaxContentLengthBytes = 1024 * 1024 * 1024"

definition kLocalFixtureHosts :: "string list" where
  "kLocalFixtureHosts = [''test-target'', ''asset.test-target'', ''untrusted.test-target'']"

definition kTestsuiteLoopbackHosts :: "string list" where
  "kTestsuiteLoopbackHosts = [''127.0.0.1'', ''localhost'', ''::1'']"

definition kLocalHttpPort :: nat where "kLocalHttpPort = 18080"

definition kLocalHttpsPort :: nat where "kLocalHttpsPort = 18443"

definition kTestsuiteServicePort :: nat where "kTestsuiteServicePort = 8080"

definition kTestsuitePort :: nat where "kTestsuitePort = 8333"

definition kHttpScheme :: string where "kHttpScheme = ''http://''"

definition kSlashPath :: string where "kSlashPath = ''/''"

definition kUnsupportedRequestTarget :: string where
  "kUnsupportedRequestTarget = ''unsupported request target''"

definition kMissingHostHeader :: string where
  "kMissingHostHeader = ''missing Host header''"

definition kInvalidHostHeader :: string where
  "kInvalidHostHeader = ''invalid Host header''"

definition kConnectEstablishedResponse :: string where
  "kConnectEstablishedResponse = ''HTTP/1.1 200 Connection Established'' @ crlf @ crlf"

definition kProxyAuthRequiredResponse :: string where
  "kProxyAuthRequiredResponse =
     ''HTTP/1.1 407 Proxy Authentication Required'' @ crlf @
     ''Content-Type: text/plain; charset=utf-8'' @ crlf @
     ''Proxy-Authenticate: Basic realm='' @ [CHR 0x22] @ ''webshot'' @ [CHR 0x22] @ crlf @
     ''Connection: close'' @ crlf @
     ''Content-Length: 30'' @ crlf @
     crlf @
     ''Proxy authentication required'' @ [CHR 0x0A]"

record HeaderLine =
  h_name :: string
  h_value :: string

record ParsedRequest =
  req_method :: string
  req_target :: string
  req_version :: string
  req_headers :: "HeaderLine list"
  header_bytes :: nat

datatype PortMode = kOptional | kRequired

record Authority =
  auth_host :: string
  auth_port :: nat

record EgressProxyConfig =
  socket_path :: string
  run_id :: string
  url_bytes_max :: nat
  down_bytes_max :: int
  require_auth :: bool
  enable_local_fixture_rewrite :: bool
  testsuite_loopback_ports :: "nat list"

section \<open>Reading the header block\<close>

definition ICaseEqual :: "('u, 'z) vendor_scheme \<Rightarrow> string \<Rightarrow> string \<Rightarrow> bool" where
  "ICaseEqual V lhs rhs \<longleftrightarrow> length lhs = length rhs \<and> ICaseStartsWith V lhs rhs"

fun FindHeaderValue :: "('u, 'z) vendor_scheme \<Rightarrow> HeaderLine list \<Rightarrow> string \<Rightarrow> string option" where
  "FindHeaderValue V [] name = None"
| "FindHeaderValue V (h # headers) name =
     (if ICaseEqual V (h_name h) name then Some (h_value h) else FindHeaderValue V headers name)"

text \<open>The line and what remains after its end.\<close>

definition TakeCrlfLine :: "string \<Rightarrow> (string \<times> string) option" where
  "TakeCrlfLine remaining =
     (case find_str crlf remaining 0 of
        None \<Rightarrow> None
      | Some next \<Rightarrow> Some (substr remaining 0 next, drop (next + 2) remaining))"

lemma index_of_str_bound: "index_of_str pat s = Some i \<Longrightarrow> i + length pat \<le> length s"
  by (induction s arbitrary: i) (auto split: if_splits dest: prefix_length_le)

lemma TakeCrlfLine_shorter: "TakeCrlfLine s = Some (line, rest) \<Longrightarrow> length rest < length s"
  by (auto simp: TakeCrlfLine_def find_str_def crlf_def split: option.splits dest: index_of_str_bound)

text \<open>The loop over the header lines.\<close>

function parse_header_lines ::
    "('u, 'z) vendor_scheme \<Rightarrow> string \<Rightarrow> HeaderLine list \<Rightarrow> HeaderLine list option" where
  "parse_header_lines V remaining headers =
     (if remaining = [] then Some headers
      else case TakeCrlfLine remaining of
        None \<Rightarrow> None
      | Some (line, rest) \<Rightarrow>
          if line = [] then Some headers
          else case find_char CHR '':'' line 0 of
            None \<Rightarrow> parse_header_lines V rest headers
          | Some colon \<Rightarrow>
              let name = substr line 0 colon;
                  value = TrimView V (substr_from line (colon + 1))
              in if name = [] then parse_header_lines V rest headers
                 else parse_header_lines V rest
                   (headers @ [\<lparr>h_name = name, h_value = value\<rparr>]))"
  by pat_completeness auto
termination
  by (relation "measure (\<lambda>(V, remaining, headers). length remaining)")
    (auto dest: TakeCrlfLine_shorter)

declare parse_header_lines.simps [simp del]

definition ParseHeaderBlock :: "('u, 'z) vendor_scheme \<Rightarrow> string \<Rightarrow> ParsedRequest option" where
  "ParseHeaderBlock V bytes =
     (case find_str (crlf @ crlf) bytes 0 of
        None \<Rightarrow> None
      | Some end_pos \<Rightarrow>
          let header_part = substr bytes 0 (end_pos + 4) in
          case TakeCrlfLine header_part of
            None \<Rightarrow> None
          | Some (request_line, remaining) \<Rightarrow>
              (case find_char CHR '' '' request_line 0 of
                 None \<Rightarrow> None
               | Some first_sp \<Rightarrow>
                   (case find_char CHR '' '' request_line (first_sp + 1) of
                      None \<Rightarrow> None
                    | Some second_sp \<Rightarrow>
                        let method = substr request_line 0 first_sp;
                            target = substr request_line (first_sp + 1) (second_sp - first_sp - 1);
                            version = substr_from request_line (second_sp + 1)
                        in if method = [] \<or> target = [] \<or> version = [] then None
                           else (case parse_header_lines V remaining [] of
                                   None \<Rightarrow> None
                                 | Some headers \<Rightarrow>
                                     Some \<lparr>req_method = method, req_target = target,
                                       req_version = version, req_headers = headers,
                                       header_bytes = length header_part\<rparr>))))"

definition ParseBasicAuthUser ::
    "('u, 'z) vendor_scheme \<Rightarrow> string \<Rightarrow> (string \<times> string) option" where
  "ParseBasicAuthUser V header_value =
     (case find_char CHR '' '' header_value 0 of
        None \<Rightarrow> None
      | Some sp \<Rightarrow>
          let scheme = substr header_value 0 sp in
          if \<not> ICaseEqual V scheme ''basic'' then None
          else let value = TrimView V (drop (sp + 1) header_value) in
            if value = [] then None
            else (case base64_decode V value of
                    None \<Rightarrow> None
                  | Some decoded \<Rightarrow>
                      (case find_char CHR '':'' decoded 0 of
                         None \<Rightarrow> None
                       | Some pos \<Rightarrow>
                           Some (substr decoded 0 pos, substr_from decoded (pos + 1)))))"

section \<open>Targets\<close>

definition ParsePort :: "string \<Rightarrow> nat option" where
  "ParsePort port_text =
     (if port_text = [] then None
      else case Parse_unsigned 16 port_text of
        None \<Rightarrow> None
      | Some port \<Rightarrow> if port = 0 then None else Some port)"

text \<open>\<open>s.rfind(c)\<close>.\<close>

definition rfind_char :: "char \<Rightarrow> string \<Rightarrow> nat option" where
  "rfind_char c s = map_option (\<lambda>i. length s - 1 - i) (index_of c (rev s))"

text \<open>What follows once the host and the rest of the authority are known.\<close>

definition authority_port :: "string \<Rightarrow> string \<Rightarrow> nat \<Rightarrow> PortMode \<Rightarrow> Authority option" where
  "authority_port host remainder default_port port_mode =
     (if host = [] then None
      else if remainder = [] then
        (if port_mode = kRequired then None
         else Some \<lparr>auth_host = host, auth_port = default_port\<rparr>)
      else if hd remainder \<noteq> CHR '':'' then None
      else case ParsePort (substr_from remainder 1) of
        None \<Rightarrow> None
      | Some port \<Rightarrow> Some \<lparr>auth_host = host, auth_port = port\<rparr>)"

definition ParseAuthority ::
    "('u, 'z) vendor_scheme \<Rightarrow> string \<Rightarrow> nat \<Rightarrow> PortMode \<Rightarrow> Authority option" where
  "ParseAuthority V text default_port port_mode =
     (let authority = TrimView V text in
      if authority = [] then None
      else if hd authority = CHR ''['' then
        (case find_char CHR '']'' authority 0 of
           None \<Rightarrow> None
         | Some close \<Rightarrow>
             authority_port (substr authority 1 (close - 1)) (substr_from authority (close + 1))
               default_port port_mode)
      else
        let first_colon = find_char CHR '':'' authority 0; last_colon = rfind_char CHR '':'' authority in
        if first_colon \<noteq> last_colon then None
        else case last_colon of
          None \<Rightarrow>
            (if port_mode = kRequired then None
             else Some \<lparr>auth_host = authority, auth_port = default_port\<rparr>)
        | Some p \<Rightarrow>
            authority_port (substr authority 0 p) (substr_from authority p) default_port port_mode)"

section \<open>Addresses\<close>

datatype Sockaddr = sockaddr_in Ip4 nat | sockaddr_in6 Ip6 nat | sockaddr_un string

text \<open>
  The resolver and the printer of addresses: \<open>Resolve\<close> is \<open>None\<close> when the resolver raises
  \<open>ResolverException\<close>.
\<close>

record net =
  Resolve :: "string \<Rightarrow> Sockaddr list option"
  PrimaryAddressString :: "Sockaddr \<Rightarrow> string"

fun SetPort :: "nat \<Rightarrow> Sockaddr \<Rightarrow> Sockaddr" where
  "SetPort port (sockaddr_in ip _) = sockaddr_in ip port"
| "SetPort port (sockaddr_in6 ip _) = sockaddr_in6 ip port"
| "SetPort port (sockaddr_un path) = sockaddr_un path"

record ResolvedTcpAddress =
  ra_sockaddr :: Sockaddr
  ra_ip :: Ip
  ra_label :: string

definition SockaddrFromIp4 :: "Ip4 \<Rightarrow> nat \<Rightarrow> Sockaddr" where
  "SockaddrFromIp4 ip port = sockaddr_in ip port"

definition SockaddrFromIp6 :: "Ip6 \<Rightarrow> nat \<Rightarrow> Sockaddr" where
  "SockaddrFromIp6 ip port = sockaddr_in6 ip port"

fun SockaddrFromIp :: "Ip \<Rightarrow> nat \<Rightarrow> Sockaddr" where
  "SockaddrFromIp (IpV4 ip) port = SockaddrFromIp4 ip port"
| "SockaddrFromIp (IpV6 ip) port = SockaddrFromIp6 ip port"

fun IpFromSockaddr :: "Sockaddr \<Rightarrow> Ip option" where
  "IpFromSockaddr (sockaddr_in ip _) = Some (IpV4 ip)"
| "IpFromSockaddr (sockaddr_in6 ip _) = Some (IpV6 ip)"
| "IpFromSockaddr (sockaddr_un _) = None"

definition DescribeSockaddr ::
    "('u, 'z) vendor_scheme \<Rightarrow> 'n net_scheme \<Rightarrow> Sockaddr \<Rightarrow> string outcome" where
  "DescribeSockaddr V N addr =
     (case addr of
        sockaddr_un _ \<Rightarrow> deref_text V (PrimaryAddressString N addr)
      | sockaddr_in6 _ port \<Rightarrow>
          deref_text V (''['' @ PrimaryAddressString N addr @ '']:'' @ to_string port)
      | sockaddr_in _ port \<Rightarrow>
          deref_text V (PrimaryAddressString N addr @ '':'' @ to_string port))"

text \<open>The loop over the resolver's addresses.\<close>

fun keep_routable ::
    "('u, 'z) vendor_scheme \<Rightarrow> 'n net_scheme \<Rightarrow> nat \<Rightarrow> bool \<Rightarrow> Sockaddr list \<Rightarrow>
     ResolvedTcpAddress list \<Rightarrow> ResolvedTcpAddress list outcome" where
  "keep_routable V N port allow_non_public_ip [] resolved = Returns resolved"
| "keep_routable V N port allow_non_public_ip (a # addrs) resolved =
     (let addr = SetPort port a in
      case IpFromSockaddr addr of
        None \<Rightarrow> Aborts ''dns resolver returned non-IP address''
      | Some ip \<Rightarrow>
          if \<not> allow_non_public_ip \<and> \<not> IsPublicRoutable ip
          then keep_routable V N port allow_non_public_ip addrs resolved
          else and_then (DescribeSockaddr V N addr) (\<lambda>label.
            keep_routable V N port allow_non_public_ip addrs
              (resolved @ [\<lparr>ra_sockaddr = addr, ra_ip = ip, ra_label = label\<rparr>])))"

text \<open>\<open>Unex(text::Format(...))\<close>.\<close>

definition unex_text :: "('u, 'z) vendor_scheme \<Rightarrow> string \<Rightarrow> (string + 'a) outcome" where
  "unex_text V message = and_then (deref_text V message) (\<lambda>t. Returns (Inl t))"

definition ResolveTcp ::
    "('u, 'z) vendor_scheme \<Rightarrow> 'n net_scheme \<Rightarrow> string \<Rightarrow> nat \<Rightarrow> bool \<Rightarrow>
     (string + ResolvedTcpAddress list) outcome" where
  "ResolveTcp V N host port allow_non_public_ip =
     (case ParseIp V host of
        Some ip \<Rightarrow>
          if \<not> allow_non_public_ip \<and> \<not> IsPublicRoutable ip
          then unex_text V (''ip address not public-routable for '' @ host)
          else let addr = SockaddrFromIp ip port in
            and_then (DescribeSockaddr V N addr) (\<lambda>label.
              Returns (Inr [\<lparr>ra_sockaddr = addr, ra_ip = ip, ra_label = label\<rparr>]))
      | None \<Rightarrow>
          (case Resolve N host of
             None \<Rightarrow> unex_text V (''dns resolve failed for '' @ host)
           | Some addrs \<Rightarrow>
               if addrs = [] then unex_text V (''dns resolve returned no addresses for '' @ host)
               else and_then (keep_routable V N port allow_non_public_ip addrs []) (\<lambda>resolved.
                 if resolved = []
                 then unex_text V
                   (''dns resolve returned no public-routable addresses for '' @ host)
                 else Returns (Inr resolved))))"

record UpstreamTarget =
  connect_host :: string
  connect_port :: nat
  allow_non_public :: bool

definition RewriteLocalFixtureIfNeeded ::
    "EgressProxyConfig \<Rightarrow> string \<Rightarrow> nat \<Rightarrow> UpstreamTarget" where
  "RewriteLocalFixtureIfNeeded cfg host port =
     (let same = \<lparr>connect_host = host, connect_port = port, allow_non_public = False\<rparr>;
          loopback = (\<lambda>p. \<lparr>connect_host = ''127.0.0.1'', connect_port = p, allow_non_public = True\<rparr>)
      in if \<not> enable_local_fixture_rewrite cfg then same
         else if host \<in> set kTestsuiteLoopbackHosts \<and>
             (port = kTestsuiteServicePort \<or> port = kTestsuitePort \<or>
              port \<in> set (testsuite_loopback_ports cfg))
         then \<lparr>connect_host = host, connect_port = port, allow_non_public = True\<rparr>
         else if host \<notin> set kLocalFixtureHosts then same
         else if port = 80 then loopback kLocalHttpPort
         else if port = 443 then loopback kLocalHttpsPort
         else if port = kLocalHttpPort \<or> port = kLocalHttpsPort then loopback port
         else same)"

section \<open>Responses and the forwarded request\<close>

definition MakeErrorResponse :: "string \<Rightarrow> string \<Rightarrow> string" where
  "MakeErrorResponse status message =
     (let body = message @ [CHR 0x0A] in
      status @ crlf @
      ''Content-Type: text/plain; charset=utf-8'' @ crlf @
      ''Connection: close'' @ crlf @
      ''Content-Length: '' @ to_string (length body) @ crlf @
      crlf @ body)"

definition Make400Response :: "string \<Rightarrow> string" where
  "Make400Response message = MakeErrorResponse ''HTTP/1.1 400 Bad Request'' message"

definition Make502Response :: "string \<Rightarrow> string" where
  "Make502Response message = MakeErrorResponse ''HTTP/1.1 502 Bad Gateway'' message"

definition ShouldForwardHeader :: "('u, 'z) vendor_scheme \<Rightarrow> string \<Rightarrow> bool" where
  "ShouldForwardHeader V name \<longleftrightarrow>
     \<not> ICaseEqual V name ''proxy-authorization'' \<and> \<not> ICaseEqual V name ''proxy-connection'' \<and>
     \<not> ICaseEqual V name ''connection''"

definition AppendHeaderLine :: "string \<Rightarrow> string \<Rightarrow> string \<Rightarrow> string" where
  "AppendHeaderLine out name value = out @ name @ '': '' @ value @ crlf"

record HttpRequestTarget =
  t_host :: string
  t_port :: nat
  t_path :: string

definition ParseHttpRequestTarget ::
    "('u, 'z) vendor_scheme \<Rightarrow> ParsedRequest \<Rightarrow> string + HttpRequestTarget" where
  "ParseHttpRequestTarget V req =
     (if prefix kHttpScheme (req_target req) then
        let rest = substr_from (req_target req) (length kHttpScheme);
            slash = find_char CHR ''/'' rest 0;
            authority = (case slash of None \<Rightarrow> rest | Some p \<Rightarrow> substr rest 0 p)
        in TRY_OK_OR (ParseAuthority V authority 80 kOptional) kUnsupportedRequestTarget (\<lambda>a.
           TRY_ERR_AS (FromBytes V (auth_host a)) kUnsupportedRequestTarget (\<lambda>host_text.
           Inr \<lparr>t_host = host_text, t_port = auth_port a,
                t_path = (case slash of None \<Rightarrow> kSlashPath | Some p \<Rightarrow> substr_from rest p)\<rparr>))
      else if \<not> prefix ''/'' (req_target req) then Inl kUnsupportedRequestTarget
      else
        TRY_OK_OR (FindHeaderValue V (req_headers req) ''host'') kMissingHostHeader (\<lambda>host_header.
        TRY_OK_OR (ParseAuthority V host_header 0 kOptional) kInvalidHostHeader (\<lambda>a.
        TRY_ERR_AS (FromBytes V (auth_host a)) kInvalidHostHeader (\<lambda>host_text.
        Inr \<lparr>t_host = host_text, t_port = (if auth_port a = 0 then 80 else auth_port a),
             t_path = req_target req\<rparr>))))"

definition ParseContentLength :: "('u, 'z) vendor_scheme \<Rightarrow> string \<Rightarrow> string + int" where
  "ParseContentLength V header_value =
     (let digits = TrimView V header_value in
      if digits = [] then Inl ''invalid Content-Length''
      else case Parse_signed 64 digits of
        None \<Rightarrow> Inl ''invalid Content-Length''
      | Some content_length \<Rightarrow>
          if content_length < 0 \<or> content_length > kMaxContentLengthBytes
          then Inl ''invalid Content-Length''
          else Inr content_length)"

definition MakeForwardRequest ::
    "('u, 'z) vendor_scheme \<Rightarrow> ParsedRequest \<Rightarrow> string \<Rightarrow> string" where
  "MakeForwardRequest V req path =
     foldl
       (\<lambda>out header.
          if \<not> ShouldForwardHeader V (h_name header) then out
          else AppendHeaderLine out (h_name header) (h_value header))
       (req_method req @ '' '' @ path @ '' '' @ req_version req @ crlf)
       (req_headers req) @ ''Connection: close'' @ crlf @ crlf"

section \<open>Lines\<close>

text \<open>A line holds no line end; the first line end of \<open>line @ crlf @ rest\<close> is where it should be.\<close>

definition one_line :: "string \<Rightarrow> bool" where
  "one_line s \<longleftrightarrow> \<not> sublist crlf s"

lemma one_line_ConsD: "one_line (x # s) \<Longrightarrow> one_line s"
  by (auto simp: one_line_def sublist_Cons_right)

lemma one_line_no_end: "one_line (x # s) \<Longrightarrow> \<not> prefix crlf (x # s @ CHR 0x0D # rest)"
  by (cases s) (auto simp: one_line_def crlf_def sublist_Cons_right)

lemma one_line_sublist: "sublist t s \<Longrightarrow> one_line s \<Longrightarrow> one_line t"
  unfolding one_line_def using sublist_order.order.trans by blast

lemma one_line_join:
  assumes "one_line a" and "one_line b" and "c \<noteq> CHR 0x0D" and "c \<noteq> CHR 0x0A"
  shows "one_line (a @ c # b)"
  using assms
proof (induction a)
  case Nil
  then show ?case by (auto simp: one_line_def crlf_def sublist_Cons_right)
next
  case (Cons x a)
  then have "one_line (a @ c # b)" using one_line_ConsD by blast
  moreover have "\<not> prefix crlf (x # a @ c # b)"
    using Cons.prems by (cases a) (auto simp: one_line_def crlf_def sublist_Cons_right)
  ultimately show ?case by (simp add: one_line_def sublist_Cons_right)
qed

lemma index_of_line_end:
  assumes "one_line line"
  shows "index_of_str (crlf @ p) (line @ crlf @ s) =
     (if prefix p s then Some (length line)
      else map_option ((+) (length line + 2)) (index_of_str (crlf @ p) s))"
  using assms
proof (induction line)
  case Nil
  show ?case
    by (cases "index_of_str (crlf @ p) s") (auto simp: crlf_def)
next
  case (Cons x line)
  have "\<not> prefix crlf (x # line @ crlf @ s)"
    using one_line_no_end [OF Cons.prems, of "CHR 0x0A # s"] by (simp add: crlf_def)
  then have "\<not> prefix (crlf @ p) (x # line @ crlf @ s)"
    using append_prefixD by blast
  then show ?case
    using Cons.IH one_line_ConsD [OF Cons.prems]
    by (simp add: option.map_comp comp_def)
qed

lemma TakeCrlfLine_line: "one_line line \<Longrightarrow> TakeCrlfLine (line @ crlf @ rest) = Some (line, rest)"
  using index_of_line_end [of line "[]" rest]
  by (simp add: TakeCrlfLine_def find_str_def substr_def crlf_def)

lemma index_of_str_first: "index_of_str pat s = Some i \<Longrightarrow> j < i \<Longrightarrow> \<not> prefix pat (drop j s)"
proof (induction s arbitrary: i j)
  case (Cons x s)
  then show ?case by (cases j) (auto split: if_splits)
qed (auto split: if_splits)

lemma index_of_str_take:
  assumes "index_of_str pat s = Some i" and "pat \<noteq> []"
  shows "\<not> sublist pat (take i s)"
proof
  assume "sublist pat (take i s)"
  then obtain ps ss where t: "take i s = ps @ pat @ ss" by (auto simp: sublist_def)
  then have "drop (length ps) s = pat @ ss @ drop i s"
    using append_take_drop_id [of i s] by (metis append.assoc append_eq_conv_conj)
  moreover have "length ps < i"
    using arg_cong [OF t, of length] assms(2) by (cases pat) auto
  ultimately show False using index_of_str_first [OF assms(1), of "length ps"] by simp
qed

lemma TakeCrlfLine_one_line: "TakeCrlfLine s = Some (line, rest) \<Longrightarrow> one_line line"
  using index_of_str_take [of crlf s]
  by (auto simp: TakeCrlfLine_def find_str_def substr_def one_line_def crlf_def split: option.splits)

section \<open>A block of lines\<close>

definition block :: "string list \<Rightarrow> string" where
  "block ls = concat (map (\<lambda>l. l @ crlf) ls) @ crlf"

lemma block_simps [simp]:
  "block [] = crlf" "block (l # ls) = l @ crlf @ block ls"
  by (simp_all add: block_def)

lemma block_end:
  assumes "ls \<noteq> []" and "\<forall>l\<in>set ls. one_line l \<and> l \<noteq> []"
  shows "index_of_str (crlf @ crlf) (block ls @ rest) = Some (length (block ls) - 4)"
  using assms
proof (induction ls)
  case (Cons l ls)
  show ?case
  proof (cases ls)
    case Nil
    then show ?thesis
      using index_of_line_end [of l crlf "crlf @ rest"] Cons.prems by (simp add: crlf_def)
  next
    case (Cons m ms)
    then have m: "one_line m" "m \<noteq> []" using Cons.prems by auto
    then obtain x m' where x: "m = x # m'" by (cases m) auto
    have np: "\<not> prefix crlf (block ls @ rest)"
      using one_line_no_end [of x m' "CHR 0x0A # block ms @ rest"] m x Cons by (simp add: crlf_def)
    have "4 \<le> length (block ls)" using Cons by (simp add: crlf_def block_def)
    moreover have "index_of_str (crlf @ crlf) (block ls @ rest) = Some (length (block ls) - 4)"
      using Cons.IH Cons.prems Cons by simp
    ultimately show ?thesis
      using index_of_line_end [of l crlf "block ls @ rest"] Cons.prems np by (simp add: crlf_def)
  qed
qed simp

lemma find_char_prefix:
  "c \<notin> set xs \<Longrightarrow> find_char c (xs @ c # ys) 0 = Some (length xs)"
  by (simp add: find_char_def index_of_append_Cons)

lemma find_char_after:
  "c \<notin> set ys \<Longrightarrow> find_char c (xs @ ys @ c # zs) (length xs) = Some (length xs + length ys)"
  by (simp add: find_char_def index_of_append_Cons)

text \<open>A header line as it is printed, and the lines it may be printed for.\<close>

definition header_line :: "HeaderLine \<Rightarrow> string" where
  "header_line h = h_name h @ '': '' @ h_value h"

definition header_ok :: "HeaderLine \<Rightarrow> bool" where
  "header_ok h \<longleftrightarrow> h_name h \<noteq> [] \<and> CHR '':'' \<notin> set (h_name h) \<and> one_line (h_name h) \<and>
     one_line (h_value h) \<and> trim (h_value h) = h_value h"

lemma header_line_one_line: "header_ok h \<Longrightarrow> one_line (header_line h) \<and> header_line h \<noteq> []"
proof -
  assume h: "header_ok h"
  have "one_line (CHR '' '' # h_value h)"
    using one_line_join [of "[]" "h_value h" "CHR '' ''"] h
    by (simp add: header_ok_def one_line_def crlf_def)
  with h show ?thesis
    using one_line_join [of "h_name h" "CHR '' '' # h_value h" "CHR '':''"]
    by (simp add: header_ok_def header_line_def)
qed

lemma trim_space: "trim (CHR '' '' # s) = trim s"
  by (simp add: trim_def is_space_def)

lemma parse_header_lines_block:
  assumes "text_light_contract V" and "\<forall>h\<in>set hs. header_ok h"
  shows "parse_header_lines V (block (map header_line hs)) acc = Some (acc @ hs)"
  using assms(2)
proof (induction hs arbitrary: acc)
  case Nil
  have "TakeCrlfLine crlf = Some ([], [])"
    using TakeCrlfLine_line [of "[]" "[]"] by (simp add: one_line_def crlf_def)
  then show ?case by (subst parse_header_lines.simps) (simp add: crlf_def)
next
  case (Cons h hs)
  let ?rest = "block (map header_line hs)"
  from Cons.prems have h: "header_ok h" by simp
  then have t: "TakeCrlfLine (header_line h @ crlf @ ?rest) = Some (header_line h, ?rest)"
    using TakeCrlfLine_line header_line_one_line by blast
  have ne: "header_line h @ crlf @ ?rest \<noteq> []" "header_line h \<noteq> []"
    using header_line_one_line [OF h] by auto
  have c: "find_char CHR '':'' (header_line h) 0 = Some (length (h_name h))"
    using h find_char_prefix [of "CHR '':''" "h_name h"] by (simp add: header_ok_def header_line_def)
  have pieces: "substr (header_line h) 0 (length (h_name h)) = h_name h"
    "substr_from (header_line h) (length (h_name h) + 1) = CHR '' '' # h_value h"
    by (simp_all add: substr_def substr_from_def header_line_def)
  have v: "TrimView V (CHR '' '' # h_value h) = h_value h"
    using assms(1) h by (simp add: text_light_contract_def trim_space header_ok_def)
  have "parse_header_lines V (block (map header_line (h # hs))) acc =
      parse_header_lines V ?rest (acc @ [h])"
    using ne t c pieces v h
    by (subst parse_header_lines.simps) (cases h, simp add: header_ok_def Let_def)
  with Cons show ?case by simp
qed

section \<open>What the parser produces\<close>

lemma one_line_substr: "one_line s \<Longrightarrow> one_line (substr s i n)"
  unfolding substr_def
  by (rule one_line_sublist [OF sublist_order.order.trans [OF sublist_take sublist_drop]])

lemma one_line_drop: "one_line s \<Longrightarrow> one_line (drop i s)"
  by (rule one_line_sublist [OF sublist_drop])

lemma trim_sublist: "sublist (trim s) s"
proof -
  let ?d = "dropWhile is_space s"
  have "suffix (dropWhile is_space (rev ?d)) (rev ?d)" by (rule suffix_dropWhile)
  then have "prefix (trim s) ?d" unfolding trim_def suffix_to_prefix by simp
  then have "sublist (trim s) ?d" by (rule prefix_imp_sublist)
  moreover have "sublist ?d s" by (rule suffix_imp_sublist [OF suffix_dropWhile])
  ultimately show ?thesis by (rule sublist_order.order.trans)
qed

lemma dropWhile_rev_dropWhile:
  "dropWhile P (rev (dropWhile P (rev (dropWhile P s)))) = rev (dropWhile P (rev (dropWhile P s)))"
proof (cases "rev (dropWhile P (rev (dropWhile P s)))")
  case Nil
  show ?thesis unfolding Nil by simp
next
  case (Cons x xs)
  let ?d = "dropWhile P s"
  have "suffix (dropWhile P (rev ?d)) (rev ?d)" by (rule suffix_dropWhile)
  then have "prefix (x # xs) ?d" unfolding suffix_to_prefix using Cons by simp
  then obtain zs where "?d = x # xs @ zs" by (auto simp: prefix_def)
  then have "\<not> P x" by (simp add: dropWhile_eq_Cons_conv)
  then show ?thesis using Cons by simp
qed

lemma trim_trim [simp]: "trim (trim s) = trim s"
  unfolding trim_def dropWhile_rev_dropWhile by simp

lemma find_char_piece: "find_char c s 0 = Some i \<Longrightarrow> c \<notin> set (substr s 0 i)"
  using index_of_SomeD by (fastforce simp: find_char_def substr_def)

lemma find_char_piece_from:
  "find_char c s k = Some i \<Longrightarrow> c \<notin> set (substr s k (i - k))"
  using index_of_SomeD by (fastforce simp: find_char_def substr_def)

lemma parse_header_lines_ok:
  "parse_header_lines V s acc = Some hs \<Longrightarrow> text_light_contract V \<Longrightarrow>
     \<forall>h\<in>set acc. header_ok h \<Longrightarrow> \<forall>h\<in>set hs. header_ok h"
proof (induction V s acc arbitrary: hs rule: parse_header_lines.induct)
  case (1 V s acc)
  show ?case
  proof (cases "s = []")
    case True
    with "1.prems" show ?thesis by (simp add: parse_header_lines.simps [of V "[]"])
  next
    case False
    with "1.prems" obtain line rest where t: "TakeCrlfLine s = Some (line, rest)"
      by (cases "TakeCrlfLine s") (auto simp: parse_header_lines.simps [of V s])
    have ol: "one_line line" using t by (rule TakeCrlfLine_one_line)
    have ok: "header_ok \<lparr>h_name = substr line 0 i, h_value = TrimView V (substr_from line (i + 1))\<rparr>"
      if "find_char CHR '':'' line 0 = Some i" "substr line 0 i \<noteq> []" for i
      using that ol "1.prems"(2) find_char_piece [OF that(1)]
      by (simp add: header_ok_def text_light_contract_def substr_from_def one_line_substr
          one_line_sublist [OF trim_sublist] one_line_drop)
    show ?thesis
    proof (cases "line = []")
      case True
      with False t "1.prems" show ?thesis by (simp add: parse_header_lines.simps [of V s])
    next
      case line: False
      show ?thesis
      proof (cases "find_char CHR '':'' line 0")
        case None
        with False t line "1.prems"(1) have "parse_header_lines V rest acc = Some hs"
          by (simp add: parse_header_lines.simps [of V s])
        then show ?thesis
          using "1.IH"(1) [OF False t refl line None] "1.prems" by simp
      next
        case (Some i)
        note IH = "1.IH"(2,3) [OF False t refl line Some refl refl]
        show ?thesis
        proof (cases "substr line 0 i = []")
          case True
          with False t line Some "1.prems"(1) have "parse_header_lines V rest acc = Some hs"
            by (simp add: parse_header_lines.simps [of V s])
          then show ?thesis using IH(1) [OF True] "1.prems" by simp
        next
          case name: False
          with False t line Some "1.prems"(1)
          have "parse_header_lines V rest (acc @ [\<lparr>h_name = substr line 0 i,
              h_value = TrimView V (substr_from line (i + 1))\<rparr>]) = Some hs"
            by (simp add: parse_header_lines.simps [of V s] Let_def)
          then show ?thesis using IH(2) [OF name] "1.prems" ok [OF Some name] by simp
        qed
      qed
    qed
  qed
qed

text \<open>Every parsed request has these parts.\<close>

definition request_ok :: "ParsedRequest \<Rightarrow> bool" where
  "request_ok req \<longleftrightarrow>
     req_method req \<noteq> [] \<and> CHR '' '' \<notin> set (req_method req) \<and> one_line (req_method req) \<and>
     req_target req \<noteq> [] \<and> CHR '' '' \<notin> set (req_target req) \<and> one_line (req_target req) \<and>
     req_version req \<noteq> [] \<and> one_line (req_version req) \<and>
     (\<forall>h\<in>set (req_headers req). header_ok h)"

lemma ParseHeaderBlock_ok:
  assumes "ParseHeaderBlock V bytes = Some req" and "text_light_contract V"
  shows "request_ok req"
proof -
  from assms(1) obtain e line rest i j hs where
    t: "TakeCrlfLine (substr bytes 0 (e + 4)) = Some (line, rest)" and
    i: "find_char CHR '' '' line 0 = Some i" and j: "find_char CHR '' '' line (i + 1) = Some j" and
    hs: "parse_header_lines V rest [] = Some hs" and
    ne: "substr line 0 i \<noteq> []" "substr line (i + 1) (j - i - 1) \<noteq> []" "substr_from line (j + 1) \<noteq> []" and
    req: "req = \<lparr>req_method = substr line 0 i, req_target = substr line (i + 1) (j - i - 1),
      req_version = substr_from line (j + 1), req_headers = hs,
      header_bytes = length (substr bytes 0 (e + 4))\<rparr>"
    by (auto simp: ParseHeaderBlock_def Let_def split: option.splits if_splits)
  have "one_line line" using t by (rule TakeCrlfLine_one_line)
  moreover have "\<forall>h\<in>set hs. header_ok h" using parse_header_lines_ok [OF hs assms(2)] by simp
  moreover have "CHR '' '' \<notin> set (substr line (i + 1) (j - i - 1))"
    using find_char_piece_from [OF j] by simp
  ultimately show ?thesis
    using ne find_char_piece [OF i]
    by (simp add: request_ok_def req one_line_substr one_line_drop substr_from_def)
qed

section \<open>The forwarded request\<close>

definition request_line :: "string \<Rightarrow> string \<Rightarrow> string \<Rightarrow> string" where
  "request_line method target version = method @ '' '' @ target @ '' '' @ version"

lemma request_line_one_line:
  assumes "one_line m" and "one_line t" and "one_line v"
  shows "one_line (request_line m t v)"
  using one_line_join [OF assms(1) one_line_join [OF assms(2,3)], of "CHR '' ''" "CHR '' ''"]
  by (simp add: request_line_def)

text \<open>A block of a request line and header lines is read back as it was written.\<close>

lemma ParseHeaderBlock_block:
  assumes "text_light_contract V" and "\<forall>h\<in>set hs. header_ok h"
    and m: "m \<noteq> []" "CHR '' '' \<notin> set m" "one_line m"
    and t: "t \<noteq> []" "CHR '' '' \<notin> set t" "one_line t" and v: "v \<noteq> []" "one_line v"
  defines "B \<equiv> block (request_line m t v # map header_line hs)"
  shows "ParseHeaderBlock V (B @ rest) =
    Some \<lparr>req_method = m, req_target = t, req_version = v, req_headers = hs, header_bytes = length B\<rparr>"
proof -
  let ?l = "request_line m t v"
  have ol: "one_line ?l" using request_line_one_line m t v by blast
  have lines: "\<forall>l\<in>set (?l # map header_line hs). one_line l \<and> l \<noteq> []"
    using ol header_line_one_line assms(2) by (auto simp: request_line_def)
  have len: "4 \<le> length B" by (simp add: B_def crlf_def block_def)
  have e: "find_str (crlf @ crlf) (B @ rest) 0 = Some (length B - 4)"
    using block_end [OF _ lines, of rest] by (simp add: find_str_def B_def del: block_simps)
  have hp: "substr (B @ rest) 0 (length B - 4 + 4) = B" using len by (simp add: substr_def)
  have tk: "TakeCrlfLine B = Some (?l, block (map header_line hs))"
    using TakeCrlfLine_line [OF ol] by (simp add: B_def)
  have i: "find_char CHR '' '' ?l 0 = Some (length m)"
    using find_char_prefix [OF m(2)] by (simp add: request_line_def)
  have j: "find_char CHR '' '' ?l (length m + 1) = Some (length m + 1 + length t)"
    using find_char_after [OF t(2), of "m @ '' ''" v] by (simp add: request_line_def)
  have pieces: "substr ?l 0 (length m) = m"
    "substr ?l (length m + 1) (length m + 1 + length t - length m - 1) = t"
    "substr_from ?l (length m + 1 + length t + 1) = v"
    by (simp_all add: substr_def substr_from_def request_line_def)
  show ?thesis
    unfolding ParseHeaderBlock_def e option.case Let_def hp tk prod.case i j pieces
    using m t v parse_header_lines_block [OF assms(1,2), of "[]"] by simp
qed

lemma MakeForwardRequest_block:
  "MakeForwardRequest V req path =
     block (request_line (req_method req) path (req_version req) #
       map header_line (filter (\<lambda>h. ShouldForwardHeader V (h_name h)) (req_headers req) @
         [\<lparr>h_name = ''Connection'', h_value = ''close''\<rparr>]))"
proof -
  have "foldl (\<lambda>out h. if \<not> ShouldForwardHeader V (h_name h) then out
          else AppendHeaderLine out (h_name h) (h_value h)) out hs =
      out @ concat (map (\<lambda>l. l @ crlf)
        (map header_line (filter (\<lambda>h. ShouldForwardHeader V (h_name h)) hs)))" for out hs
    by (induction hs arbitrary: out) (simp_all add: AppendHeaderLine_def header_line_def)
  then show ?thesis
    by (simp add: MakeForwardRequest_def block_def request_line_def header_line_def)
qed

lemma connection_header_ok: "header_ok \<lparr>h_name = ''Connection'', h_value = ''close''\<rparr>"
  by (simp add: header_ok_def one_line_def crlf_def sublist_Cons_right trim_def is_space_def less_eq_char_def)

lemma target_path_ok:
  assumes "request_ok req" and "ParseHttpRequestTarget V req = Inr t"
  shows "t_path t \<noteq> [] \<and> CHR '' '' \<notin> set (t_path t) \<and> one_line (t_path t)"
proof -
  let ?rest = "substr_from (req_target req) (length kHttpScheme)"
  have d: "CHR '' '' \<notin> set (drop i (req_target req))" "one_line (drop i (req_target req))" for i
    using assms(1) by (auto simp: request_ok_def one_line_drop dest: in_set_dropD)
  have ne: "drop i ?rest \<noteq> []" if "find_char c ?rest 0 = Some i" for c i
    using find_char_bounds [OF that] by simp
  have "t_path t = kSlashPath \<or> t_path t = req_target req \<or>
      (\<exists>i. find_char CHR ''/'' ?rest 0 = Some i \<and> t_path t = drop i ?rest)"
    using assms(2)
    by (auto simp: ParseHttpRequestTarget_def Let_def result_iffs substr_from_def [of _ "_ :: nat"]
        split: if_splits option.splits)
  then show ?thesis
    using assms(1) ne d
    by (auto simp: request_ok_def kSlashPath_def one_line_def crlf_def sublist_Cons_right
        substr_from_def)
qed

lemma forwarded_request_read:
  assumes "text_light_contract V" and "ParseHeaderBlock V bytes = Some req"
    and "ParseHttpRequestTarget V req = Inr t"
  shows "ParseHeaderBlock V (MakeForwardRequest V req (t_path t) @ body) =
    Some \<lparr>req_method = req_method req, req_target = t_path t, req_version = req_version req,
      req_headers = filter (\<lambda>h. ShouldForwardHeader V (h_name h)) (req_headers req) @
        [\<lparr>h_name = ''Connection'', h_value = ''close''\<rparr>],
      header_bytes = length (MakeForwardRequest V req (t_path t))\<rparr>"
proof -
  have ok: "request_ok req" by (rule ParseHeaderBlock_ok [OF assms(2,1)])
  have "\<forall>h\<in>set (filter (\<lambda>h. ShouldForwardHeader V (h_name h)) (req_headers req) @
      [\<lparr>h_name = ''Connection'', h_value = ''close''\<rparr>]). header_ok h"
    using ok connection_header_ok by (auto simp: request_ok_def)
  then show ?thesis
    unfolding MakeForwardRequest_block
    using ParseHeaderBlock_block [OF assms(1)] ok target_path_ok [OF ok assms(3)]
    unfolding request_ok_def by blast
qed

lemma forwarded_no_credentials:
  "FindHeaderValue V (filter (\<lambda>h. ShouldForwardHeader V (h_name h)) hs @
     [\<lparr>h_name = ''Connection'', h_value = ''close''\<rparr>]) ''proxy-authorization'' = None"
  by (induction hs) (auto simp: ShouldForwardHeader_def, simp add: ICaseEqual_def)

section \<open>Resolved addresses\<close>

text \<open>The address a resolved entry would be connected to, and that it is public.\<close>

definition public_sockaddr :: "Sockaddr \<Rightarrow> bool" where
  "public_sockaddr addr \<longleftrightarrow>
     (case IpFromSockaddr addr of None \<Rightarrow> False | Some ip \<Rightarrow> IsPublicRoutable ip)"

lemma SetPort_ip [simp]: "IpFromSockaddr (SetPort port addr) = IpFromSockaddr addr"
  by (cases addr) simp_all

lemma SockaddrFromIp_ip [simp]: "IpFromSockaddr (SockaddrFromIp ip port) = Some ip"
  by (cases ip) (simp_all add: SockaddrFromIp4_def SockaddrFromIp6_def)

lemma keep_routable_public:
  "keep_routable V N port False addrs acc = Returns rs \<Longrightarrow>
     \<forall>a\<in>set acc. public_sockaddr (ra_sockaddr a) \<Longrightarrow>
     \<forall>a\<in>set rs. public_sockaddr (ra_sockaddr a)"
proof (induction addrs arbitrary: acc)
  case (Cons a addrs)
  then obtain ip where ip: "IpFromSockaddr a = Some ip" by (cases "IpFromSockaddr a") auto
  show ?case
  proof (cases "IsPublicRoutable ip")
    case True
    with Cons.prems ip obtain label where
      "keep_routable V N port False addrs
         (acc @ [\<lparr>ra_sockaddr = SetPort port a, ra_ip = ip, ra_label = label\<rparr>]) = Returns rs"
      by (auto simp: and_then_Returns_iff Let_def)
    from Cons.IH [OF this] Cons.prems(2) ip True show ?thesis by (simp add: public_sockaddr_def)
  next
    case False
    with Cons ip show ?thesis by (simp add: Let_def)
  qed
qed simp

lemma ResolveTcp_public:
  assumes "ResolveTcp V N host port False = Returns (Inr rs)"
  shows "\<forall>a\<in>set rs. public_sockaddr (ra_sockaddr a)"
proof (cases "ParseIp V host")
  case None
  with assms obtain addrs where "keep_routable V N port False addrs [] = Returns rs"
    by (auto simp: ResolveTcp_def unex_text_def and_then_Returns_iff split: option.splits if_splits)
  then show ?thesis using keep_routable_public by fastforce
next
  case (Some ip)
  with assms show ?thesis
    by (auto simp: ResolveTcp_def unex_text_def and_then_Returns_iff Let_def public_sockaddr_def
        split: if_splits)
qed

lemma rewrite_off:
  "\<not> enable_local_fixture_rewrite cfg \<Longrightarrow>
     \<not> allow_non_public (RewriteLocalFixtureIfNeeded cfg host port)"
  by (simp add: RewriteLocalFixtureIfNeeded_def Let_def)

lemma ParsePort_bounds: "ParsePort s = Some p \<Longrightarrow> 0 < p \<and> p < 65536"
  by (auto simp: ParsePort_def Parse_unsigned_def split: if_splits option.splits)

lemma ParseContentLength_bounds:
  "ParseContentLength V s = Inr n \<Longrightarrow> 0 \<le> n \<and> n \<le> kMaxContentLengthBytes"
  by (auto simp: ParseContentLength_def Let_def split: if_splits option.splits)

end
