(* ===== verification/Egress_Proxy.thy ===== *)
theory Egress_Proxy
  imports Egress_Request
begin

text \<open>
  The second half of \<open>src/crawler/egress_proxy.cpp\<close>: the proxy object and the task that serves one
  client.  The shared members of \<open>EgressProxy::Impl\<close> are a record, and the task has a record of
  its own with the bytes it still receives, the bytes it sent and the addresses it connected to.

  Other tasks change the shared members at any time: before each access the task makes to them,
  the environment's \<open>others\<close> is applied.  A receive takes from a finite list of events (an empty
  piece is the end of the stream, an exhausted list the deadline); how far a send or a connect
  gets is the environment's.  Logging is left out.
\<close>

section \<open>State\<close>

record Impl =
  down_bytes :: int
  stopped :: bool
  error_reason :: "string option"
  cancel_tasks :: bool
  accept_task :: bool
  client_tasks :: nat
  listener_valid :: bool

datatype recv_event = Data string | RecvError

text \<open>\<open>SendFails n what\<close>: \<open>n\<close> bytes had gone out when the exception was raised.\<close>

datatype send_result = Sent nat | SendFails nat string

datatype connect_result = Connected | ConnectFails string | SocketFails string

record conn =
  impl :: Impl
  io_calls :: nat
  client_in :: "recv_event list"
  upstream_in :: "recv_event list"
  client_out :: string
  upstream_out :: string
  connects :: "Sockaddr list"
  client_write_shut :: bool
  upstream_write_shut :: bool
  client_closed :: bool
  upstream_closed :: bool

record proxy_env = net +
  Connect :: "nat \<Rightarrow> Sockaddr \<Rightarrow> connect_result"
  ClientSend :: "nat \<Rightarrow> string \<Rightarrow> send_result"
  UpstreamSend :: "nat \<Rightarrow> string \<Rightarrow> send_result"
  others :: "nat \<Rightarrow> Impl \<Rightarrow> Impl"
  relay_turn :: "nat \<Rightarrow> bool"

definition interfere :: "'e proxy_env_scheme \<Rightarrow> conn \<Rightarrow> conn" where
  "interfere E s = s\<lparr>impl := others E (io_calls s) (impl s), io_calls := Suc (io_calls s)\<rparr>"

text \<open>\<open>RecvSome(buffer, n)\<close>: the bytes, or \<open>None\<close> when it raises, and the events left.\<close>

fun RecvSome :: "nat \<Rightarrow> recv_event list \<Rightarrow> string option \<times> recv_event list" where
  "RecvSome n [] = (None, [])"
| "RecvSome n (RecvError # events) = (None, events)"
| "RecvSome n (Data b # events) =
     (Some (take n b), if length b \<le> n then events else Data (drop n b) # events)"

section \<open>The shared members\<close>

definition IsStopped :: "'e proxy_env_scheme \<Rightarrow> conn \<Rightarrow> bool \<times> conn" where
  "IsStopped E s = (let s = interfere E s in (stopped (impl s), s))"

definition note_error :: "string \<Rightarrow> Impl \<Rightarrow> Impl" where
  "note_error reason i = (case error_reason i of Some _ \<Rightarrow> i | None \<Rightarrow> i\<lparr>error_reason := Some reason\<rparr>)"

definition NoteError :: "'e proxy_env_scheme \<Rightarrow> string \<Rightarrow> conn \<Rightarrow> conn" where
  "NoteError E reason s = (let s = interfere E s in s\<lparr>impl := note_error reason (impl s)\<rparr>)"

definition RequestCancelAllClientTasksNoWait :: "Impl \<Rightarrow> Impl" where
  "RequestCancelAllClientTasksNoWait i = i\<lparr>cancel_tasks := True\<rparr>"

text \<open>
  The two sections of \<open>SendBudgeted\<close> under the lock of the counter: claiming part of the budget,
  and giving back what was not used.  The text of the error is ASCII, which \<open>text::Format\<close> keeps.
\<close>

definition budget_claim :: "EgressProxyConfig \<Rightarrow> int \<Rightarrow> Impl \<Rightarrow> bool \<times> Impl" where
  "budget_claim cfg max_claim i =
     (if down_bytes i > down_bytes_max cfg - max_claim
      then (False, RequestCancelAllClientTasksNoWait
        ((note_error (''net_limit: proxy downstream bytes '' @ int_to_string (down_bytes i) @
           '' exceeded limit '' @ int_to_string (down_bytes_max cfg)) i)\<lparr>stopped := True\<rparr>))
      else (True, i\<lparr>down_bytes := down_bytes i + max_claim\<rparr>))"

definition budget_return :: "int \<Rightarrow> Impl \<Rightarrow> Impl" where
  "budget_return unused i = i\<lparr>down_bytes := down_bytes i - unused\<rparr>"

definition SendBudgeted ::
    "EgressProxyConfig \<Rightarrow> 'e proxy_env_scheme \<Rightarrow> string \<Rightarrow> conn \<Rightarrow> nat \<times> conn" where
  "SendBudgeted cfg E bytes s =
     (if bytes = [] then (0, s)
      else let (st, s) = IsStopped E s in
        if st then (0, s)
        else let max_claim = min (int (length bytes)) (down_bytes_max cfg) in
          if max_claim \<le> 0 then (0, s)
          else let s = interfere E s; (claimed, i) = budget_claim cfg max_claim (impl s);
                   s = s\<lparr>impl := i\<rparr>
            in if \<not> claimed then (0, s)
               else let chunk = take (nat max_claim) bytes in
                 case ClientSend E (io_calls s) chunk of
                   Sent sent \<Rightarrow>
                     let s = interfere E (s\<lparr>client_out := client_out s @ take sent chunk\<rparr>);
                         unused = max_claim - int sent
                     in (sent, if unused > 0 then s\<lparr>impl := budget_return unused (impl s)\<rparr> else s)
                 | SendFails n _ \<Rightarrow>
                     let s = interfere E (s\<lparr>client_out := client_out s @ take n chunk\<rparr>)
                     in (0, s\<lparr>impl := budget_return max_claim (impl s)\<rparr>))"

text \<open>\<open>SendAll\<close>, which the proxy calls on upstream sockets only.\<close>

definition SendAll :: "'e proxy_env_scheme \<Rightarrow> string \<Rightarrow> conn \<Rightarrow> bool \<times> conn" where
  "SendAll E bytes s =
     (if bytes = [] then (True, s)
      else case UpstreamSend E (io_calls s) bytes of
        Sent n \<Rightarrow> (True, interfere E (s\<lparr>upstream_out := upstream_out s @ take n bytes\<rparr>))
      | SendFails n _ \<Rightarrow> (False, interfere E (s\<lparr>upstream_out := upstream_out s @ take n bytes\<rparr>)))"

definition Send407 :: "EgressProxyConfig \<Rightarrow> 'e proxy_env_scheme \<Rightarrow> conn \<Rightarrow> conn" where
  "Send407 cfg E s = snd (SendBudgeted cfg E kProxyAuthRequiredResponse s)"

definition Send400 :: "EgressProxyConfig \<Rightarrow> 'e proxy_env_scheme \<Rightarrow> string \<Rightarrow> conn \<Rightarrow> conn" where
  "Send400 cfg E message s = snd (SendBudgeted cfg E (Make400Response message) s)"

definition Send502 :: "EgressProxyConfig \<Rightarrow> 'e proxy_env_scheme \<Rightarrow> string \<Rightarrow> conn \<Rightarrow> conn" where
  "Send502 cfg E message s = snd (SendBudgeted cfg E (Make502Response message) s)"

definition CloseSocketsQuietly :: "conn \<Rightarrow> conn" where
  "CloseSocketsQuietly s = s\<lparr>client_closed := True, upstream_closed := True\<rparr>"

section \<open>Connecting\<close>

definition join_errors :: "('u, 'z) vendor_scheme \<Rightarrow> string list \<Rightarrow> string" where
  "join_errors V errors =
     foldl (\<lambda>details cur.
       text_append V (if details \<noteq> [] then text_append V details ''; '' else details) cur) [] errors"

fun connect_loop ::
    "('u, 'z) vendor_scheme \<Rightarrow> 'e proxy_env_scheme \<Rightarrow> UpstreamTarget \<Rightarrow> ResolvedTcpAddress list \<Rightarrow>
     string list \<Rightarrow> conn \<Rightarrow> (string + unit) outcome \<times> conn" where
  "connect_loop V E upstream [] errors s =
     (unex_text V (''connect upstream failed for '' @ connect_host upstream @ '':'' @
        to_string (connect_port upstream) @ '' after '' @ to_string (length errors) @
        '' attempt(s): '' @ join_errors V errors), s)"
| "connect_loop V E upstream (addr # addrs) errors s =
     (let r = Connect E (io_calls s) (ra_sockaddr addr);
          s' = interfere E (s\<lparr>connects := connects s @ [ra_sockaddr addr]\<rparr>)
      in case r of
           SocketFails what \<Rightarrow> (Throws what, s)
         | Connected \<Rightarrow> (Returns (Inr ()), s')
         | ConnectFails what \<Rightarrow>
             (case deref_text V (ra_label addr @ '' ('' @ what @ '')'') of
                Returns e \<Rightarrow> connect_loop V E upstream addrs (errors @ [e]) s'
              | Aborts m \<Rightarrow> (Aborts m, s')
              | Throws m \<Rightarrow> (Throws m, s')))"

definition ConnectUpstream ::
    "('u, 'z) vendor_scheme \<Rightarrow> EgressProxyConfig \<Rightarrow> 'e proxy_env_scheme \<Rightarrow> string \<Rightarrow> nat \<Rightarrow> conn \<Rightarrow>
     (string + unit) outcome \<times> conn" where
  "ConnectUpstream V cfg E host port s =
     (let upstream = RewriteLocalFixtureIfNeeded cfg host port in
      case ResolveTcp V E (connect_host upstream) (connect_port upstream) (allow_non_public upstream) of
        Aborts m \<Rightarrow> (Aborts m, s)
      | Throws m \<Rightarrow> (Throws m, s)
      | Returns (Inl e) \<Rightarrow> (Returns (Inl e), s)
      | Returns (Inr addrs) \<Rightarrow> connect_loop V E upstream addrs [] s)"

section \<open>Relaying\<close>

text \<open>The size of what a stream still brings, which every receive reduces.\<close>

definition script_size :: "recv_event list \<Rightarrow> nat" where
  "script_size events =
     sum_list (map (\<lambda>e. case e of Data b \<Rightarrow> Suc (length b) | RecvError \<Rightarrow> 1) events)"

text \<open>One iteration of the loop in \<open>CopyClientToUpstream\<close>, with whether the loop goes on.\<close>

definition copy_up :: "'e proxy_env_scheme \<Rightarrow> conn \<Rightarrow> bool \<times> conn" where
  "copy_up E s =
     (let (st, s) = IsStopped E s in
      if st then (False, s)
      else let (received, rest) = RecvSome kIoBufferBytes (client_in s); s = s\<lparr>client_in := rest\<rparr> in
        case received of
          None \<Rightarrow> (False, s)
        | Some bytes \<Rightarrow>
            if bytes = [] then (False, s\<lparr>upstream_write_shut := True\<rparr>) else SendAll E bytes s)"

text \<open>The inner loop of \<open>CopyUpstreamToClientBudgeted\<close>, and one iteration of the outer one.\<close>

function send_pending ::
    "EgressProxyConfig \<Rightarrow> 'e proxy_env_scheme \<Rightarrow> string \<Rightarrow> conn \<Rightarrow> bool \<times> conn" where
  "send_pending cfg E pending s =
     (if pending = [] then (True, s)
      else let (st, s) = IsStopped E s in
        if st then (True, s)
        else let (sent, s) = SendBudgeted cfg E pending s in
          if sent = 0 then (False, s) else send_pending cfg E (drop sent pending) s)"
  by pat_completeness auto
termination
  by (relation "measure (\<lambda>(cfg, E, pending, s). length pending)") auto

declare send_pending.simps [simp del]

definition copy_down :: "EgressProxyConfig \<Rightarrow> 'e proxy_env_scheme \<Rightarrow> conn \<Rightarrow> bool \<times> conn" where
  "copy_down cfg E s =
     (let (st, s) = IsStopped E s in
      if st then (False, s)
      else let (received, rest) = RecvSome kIoBufferBytes (upstream_in s);
               s = s\<lparr>upstream_in := rest\<rparr> in
        case received of
          None \<Rightarrow> (False, s)
        | Some bytes \<Rightarrow>
            if bytes = [] then (False, s\<lparr>client_write_shut := True\<rparr>) else send_pending cfg E bytes s)"

lemma RecvSome_size:
  "RecvSome n events = (Some bytes, rest) \<Longrightarrow> bytes \<noteq> [] \<Longrightarrow> script_size rest < script_size events"
  by (induction n events rule: RecvSome.induct) (auto simp: script_size_def)

lemma interfere_simps [simp]:
  "client_in (interfere E s) = client_in s" "upstream_in (interfere E s) = upstream_in s"
  "client_out (interfere E s) = client_out s" "upstream_out (interfere E s) = upstream_out s"
  "connects (interfere E s) = connects s" "client_closed (interfere E s) = client_closed s"
  "impl (interfere E s) = others E (io_calls s) (impl s)"
  "io_calls (interfere E s) = Suc (io_calls s)"
  by (simp_all add: interfere_def)

lemma IsStopped_simps [simp]: "IsStopped E s = (stopped (impl (interfere E s)), interfere E s)"
  by (simp add: IsStopped_def Let_def)

text \<open>Sending changes neither stream.\<close>

lemma SendAll_keeps [simp]:
  "client_in (snd (SendAll E bytes s)) = client_in s"
  "upstream_in (snd (SendAll E bytes s)) = upstream_in s"
  "client_out (snd (SendAll E bytes s)) = client_out s"
  "connects (snd (SendAll E bytes s)) = connects s"
  by (simp_all add: SendAll_def split: send_result.split)

lemma SendBudgeted_keeps [simp]:
  "client_in (snd (SendBudgeted cfg E bytes s)) = client_in s"
  "upstream_in (snd (SendBudgeted cfg E bytes s)) = upstream_in s"
  "upstream_out (snd (SendBudgeted cfg E bytes s)) = upstream_out s"
  "connects (snd (SendBudgeted cfg E bytes s)) = connects s"
  by (simp_all add: SendBudgeted_def Let_def split: send_result.split prod.split)

lemma send_pending_keeps [simp]:
  "client_in (snd (send_pending cfg E bytes s)) = client_in s"
  "upstream_in (snd (send_pending cfg E bytes s)) = upstream_in s"
  "upstream_out (snd (send_pending cfg E bytes s)) = upstream_out s"
  "connects (snd (send_pending cfg E bytes s)) = connects s"
proof (induction cfg E bytes s rule: send_pending.induct)
  case (1 cfg E pending s)
  note IH = "1.IH" [OF _ refl prod.collapse]
  {
    case 1
    show ?case
      using IH(1) by (subst send_pending.simps) (simp add: Let_def split_beta)
  next
    case 2
    show ?case
      using IH(2) by (subst send_pending.simps) (simp add: Let_def split_beta)
  next
    case 3
    show ?case
      using IH(3) by (subst send_pending.simps) (simp add: Let_def split_beta)
  next
    case 4
    show ?case
      using IH(4) by (subst send_pending.simps) (simp add: Let_def split_beta)
  }
qed

lemma copy_up_keeps [simp]:
  "upstream_in (snd (copy_up E s)) = upstream_in s"
  "client_out (snd (copy_up E s)) = client_out s"
  "connects (snd (copy_up E s)) = connects s"
  by (simp_all add: copy_up_def Let_def split: option.split prod.split)

lemma copy_down_keeps [simp]:
  "client_in (snd (copy_down cfg E s)) = client_in s"
  "upstream_out (snd (copy_down cfg E s)) = upstream_out s"
  "connects (snd (copy_down cfg E s)) = connects s"
  by (simp_all add: copy_down_def Let_def split: option.split prod.split)

lemma copy_up_smaller:
  "fst (copy_up E s) \<Longrightarrow> script_size (client_in (snd (copy_up E s))) < script_size (client_in s)"
  by (auto simp: copy_up_def Let_def split: option.splits prod.splits if_splits dest: RecvSome_size)

lemma copy_down_smaller:
  "fst (copy_down cfg E s) \<Longrightarrow>
     script_size (upstream_in (snd (copy_down cfg E s))) < script_size (upstream_in s)"
  by (auto simp: copy_down_def Let_def split: option.splits prod.splits if_splits dest: RecvSome_size)

lemma copy_up_size: "(True, s') = copy_up E s \<Longrightarrow> script_size (client_in s') < script_size (client_in s)"
  using copy_up_smaller [of E s] by (simp add: prod_eq_iff)

lemma copy_down_size:
  "(True, s') = copy_down cfg E s \<Longrightarrow> script_size (upstream_in s') < script_size (upstream_in s)"
  using copy_down_smaller [of cfg E s] by (simp add: prod_eq_iff)

lemma RecvSome_size_le: "RecvSome n events = (r, rest) \<Longrightarrow> script_size rest \<le> script_size events"
  by (induction n events rule: RecvSome.induct) (auto simp: script_size_def)

lemma copy_up_client: "script_size (client_in (snd (copy_up E s))) \<le> script_size (client_in s)"
  by (auto simp: copy_up_def Let_def split: option.splits prod.splits dest: RecvSome_size_le)

lemma copy_down_upstream:
  "script_size (upstream_in (snd (copy_down cfg E s))) \<le> script_size (upstream_in s)"
  by (auto simp: copy_down_def Let_def split: option.splits prod.splits dest: RecvSome_size_le)

function CopyClientToUpstream :: "'e proxy_env_scheme \<Rightarrow> conn \<Rightarrow> conn" where
  "CopyClientToUpstream E s =
     (let (go, s') = copy_up E s in if go then CopyClientToUpstream E s' else s')"
  by pat_completeness auto
termination
  by (relation "measure (\<lambda>(E, s). script_size (client_in s))") (auto dest: copy_up_size)

function CopyUpstreamToClientBudgeted ::
    "EgressProxyConfig \<Rightarrow> 'e proxy_env_scheme \<Rightarrow> conn \<Rightarrow> conn" where
  "CopyUpstreamToClientBudgeted cfg E s =
     (let (go, s') = copy_down cfg E s in if go then CopyUpstreamToClientBudgeted cfg E s' else s')"
  by pat_completeness auto
termination
  by (relation "measure (\<lambda>(cfg, E, s). script_size (upstream_in s))") (auto dest: copy_down_size)

text \<open>
  \<open>RelayConnect\<close> runs both loops as tasks: the environment says whose iteration is next.  A
  deadline or a cancellation ends a loop at its next receive.
\<close>

function relay ::
    "EgressProxyConfig \<Rightarrow> 'e proxy_env_scheme \<Rightarrow> bool \<Rightarrow> bool \<Rightarrow> conn \<Rightarrow> conn" where
  "relay cfg E up down s =
     (if \<not> up \<and> \<not> down then s
      else if up \<and> (\<not> down \<or> relay_turn E (io_calls s)) then
        let (go, s') = copy_up E s in relay cfg E go down s'
      else let (go, s') = copy_down cfg E s in relay cfg E up go s')"
  by pat_completeness auto
termination
proof (relation "measure (\<lambda>(cfg, E, up, down, s).
    script_size (client_in s) + script_size (upstream_in s) + of_bool up + of_bool down)", goal_cases)
  case (2 cfg E up down s x go s')
  then show ?case
    using copy_up_size [of s' E s] copy_up_keeps(1) [of E s] copy_up_client [of E s]
    by (cases go) (auto simp: prod_eq_iff)
next
  case (3 cfg E up down s x go s')
  then show ?case
    using copy_down_size [of s' cfg E s] copy_down_keeps(1) [of cfg E s] copy_down_upstream [of cfg E s]
    by (cases go) (auto simp: prod_eq_iff)
qed simp

declare CopyClientToUpstream.simps [simp del] CopyUpstreamToClientBudgeted.simps [simp del]
  relay.simps [simp del]

definition RelayConnect :: "EgressProxyConfig \<Rightarrow> 'e proxy_env_scheme \<Rightarrow> conn \<Rightarrow> conn" where
  "RelayConnect cfg E s = relay cfg E True True s"

text \<open>The loop of \<open>ForwardHttpRequestBody\<close>.\<close>

function forward_body :: "'e proxy_env_scheme \<Rightarrow> int \<Rightarrow> conn \<Rightarrow> conn" where
  "forward_body E remaining_body s =
     (if remaining_body \<le> 0 then s
      else let (st, s1) = IsStopped E s in
        if st then s1
        else let want = nat (min remaining_body (int kIoBufferBytes));
                 (received, rest) = RecvSome want (client_in s1); s2 = s1\<lparr>client_in := rest\<rparr> in
          case received of
            None \<Rightarrow> s2
          | Some bytes \<Rightarrow>
              if bytes = [] then s2
              else let (ok, s3) = SendAll E bytes s2 in
                if \<not> ok then s3 else forward_body E (remaining_body - int (length bytes)) s3)"
  by pat_completeness auto
termination
proof (relation "measure (\<lambda>(E, remaining_body, s). nat remaining_body)", goal_cases)
  case (2 E remaining_body s x st s1 want y received rest s2 bytes z ok s3)
  then show ?case by (cases bytes) auto
qed simp

declare forward_body.simps [simp del]

definition ForwardHttpRequestBody ::
    "'e proxy_env_scheme \<Rightarrow> string \<Rightarrow> int \<Rightarrow> conn \<Rightarrow> conn" where
  "ForwardHttpRequestBody E buffered_body remaining_body s =
     (let already_buffered =
        substr buffered_body 0 (nat (max 0 (min remaining_body (int (length buffered_body)))));
          (ok, s) = SendAll E already_buffered s
      in if \<not> ok then s
         else forward_body E (remaining_body - int (length already_buffered)) s)"

section \<open>Serving a client\<close>

definition HandleConnect ::
    "('u, 'z) vendor_scheme \<Rightarrow> EgressProxyConfig \<Rightarrow> 'e proxy_env_scheme \<Rightarrow> ParsedRequest \<Rightarrow> conn \<Rightarrow>
     unit outcome \<times> conn" where
  "HandleConnect V cfg E req s =
     (case ParseAuthority V (req_target req) 0 kRequired of
        None \<Rightarrow> (Returns (), Send400 cfg E ''invalid CONNECT target'' s)
      | Some authority \<Rightarrow>
          (case FromBytes V (auth_host authority) of
             Inl _ \<Rightarrow> (Returns (), Send400 cfg E ''invalid CONNECT target'' s)
           | Inr host_text \<Rightarrow>
               (case ConnectUpstream V cfg E host_text (auth_port authority) s of
                  (Aborts m, s) \<Rightarrow> (Aborts m, s)
                | (Throws m, s) \<Rightarrow> (Throws m, s)
                | (Returns (Inl e), s) \<Rightarrow> (Returns (), Send502 cfg E e (NoteError E e s))
                | (Returns (Inr _), s) \<Rightarrow>
                    let s = snd (SendBudgeted cfg E kConnectEstablishedResponse s);
                        (st, s) = IsStopped E s
                    in (Returns (),
                        if st then CloseSocketsQuietly s
                        else CloseSocketsQuietly (RelayConnect cfg E s)))))"

definition HandleHttp ::
    "('u, 'z) vendor_scheme \<Rightarrow> EgressProxyConfig \<Rightarrow> 'e proxy_env_scheme \<Rightarrow> ParsedRequest \<Rightarrow> string \<Rightarrow>
     conn \<Rightarrow> unit outcome \<times> conn" where
  "HandleHttp V cfg E req header s =
     (case ParseHttpRequestTarget V req of
        Inl e \<Rightarrow> (Returns (), Send400 cfg E e s)
      | Inr target \<Rightarrow>
          (case (case FindHeaderValue V (req_headers req) ''content-length'' of
                   None \<Rightarrow> Inr 0 | Some value \<Rightarrow> ParseContentLength V value) of
             Inl e \<Rightarrow> (Returns (), Send400 cfg E e s)
           | Inr content_length \<Rightarrow>
               (case ConnectUpstream V cfg E (t_host target) (t_port target) s of
                  (Aborts m, s) \<Rightarrow> (Aborts m, s)
                | (Throws m, s) \<Rightarrow> (Throws m, s)
                | (Returns (Inl e), s) \<Rightarrow> (Returns (), Send502 cfg E e (NoteError E e s))
                | (Returns (Inr _), s) \<Rightarrow>
                    let (ok, s) = SendAll E (MakeForwardRequest V req (t_path target)) s in
                    if \<not> ok then
                      (Returns (), CloseSocketsQuietly (Send502 cfg E ''send upstream failed''
                         (NoteError E ''send upstream failed'' s)))
                    else (Returns (), CloseSocketsQuietly
                      (CopyUpstreamToClientBudgeted cfg E
                        (ForwardHttpRequestBody E (substr_from header (header_bytes req))
                          content_length s))))))"

text \<open>
  The loop that reads the header: the header with the state, or only the state when the handler
  returns early.
\<close>

function read_header ::
    "EgressProxyConfig \<Rightarrow> 'e proxy_env_scheme \<Rightarrow> string \<Rightarrow> conn \<Rightarrow> string option \<times> conn" where
  "read_header cfg E header s =
     (if find_str (crlf @ crlf) header 0 \<noteq> None then (Some header, s)
      else if length header > kMaxHeaderBytes then
        (None, (Send400 cfg E ''header too large'' s)\<lparr>client_closed := True\<rparr>)
      else let (received, rest) = RecvSome kIoBufferBytes (client_in s);
               s1 = interfere E (s\<lparr>client_in := rest\<rparr>) in
        case received of
          None \<Rightarrow> (None, s1)
        | Some bytes \<Rightarrow> if bytes = [] then (None, s1) else read_header cfg E (header @ bytes) s1)"
  by pat_completeness auto
termination
  by (relation "measure (\<lambda>(cfg, E, header, s). script_size (client_in s))")
    (auto dest: RecvSome_size [OF sym])

declare read_header.simps [simp del]

text \<open>The test of the credentials in \<open>HandleClient\<close>.\<close>

definition auth_fails :: "('u, 'z) vendor_scheme \<Rightarrow> EgressProxyConfig \<Rightarrow> ParsedRequest \<Rightarrow> bool" where
  "auth_fails V cfg parsed \<longleftrightarrow> require_auth cfg \<and>
     (case FindHeaderValue V (req_headers parsed) ''proxy-authorization'' of
        None \<Rightarrow> True
      | Some auth \<Rightarrow>
          (case ParseBasicAuthUser V auth of
             None \<Rightarrow> True | Some user \<Rightarrow> fst user \<noteq> run_id cfg))"

definition HandleClient ::
    "('u, 'z) vendor_scheme \<Rightarrow> EgressProxyConfig \<Rightarrow> 'e proxy_env_scheme \<Rightarrow> conn \<Rightarrow>
     unit outcome \<times> conn" where
  "HandleClient V cfg E s =
     (let (st, s) = IsStopped E s in
      if st then (Returns (), s)
      else case read_header cfg E [] s of
        (None, s) \<Rightarrow> (Returns (), s)
      | (Some header, s) \<Rightarrow>
          (case ParseHeaderBlock V header of
             None \<Rightarrow> (Returns (), Send400 cfg E ''invalid request'' s)
           | Some parsed \<Rightarrow>
               if length (req_target parsed) > url_bytes_max cfg
               then (Returns (), Send400 cfg E ''target too long'' s)
               else if auth_fails V cfg parsed
               then (Returns (), Send407 cfg E s)
               else if ICaseEqual V (req_method parsed) ''CONNECT''
               then HandleConnect V cfg E parsed s
               else HandleHttp V cfg E parsed header s))"

section \<open>The proxy object\<close>

text \<open>
  \<open>AcceptLoop\<close> over the results of \<open>Accept\<close> (\<open>None\<close> when it raises): the clients a task was
  started for, and the shared members.
\<close>

fun AcceptLoop ::
    "(nat \<Rightarrow> Impl \<Rightarrow> Impl) \<Rightarrow> 'c option list \<Rightarrow> nat \<Rightarrow> Impl \<Rightarrow> 'c list \<times> Impl" where
  "AcceptLoop oth [] n i = ([], oth n i)"
| "AcceptLoop oth (None # accepts) n i = ([], oth n i)"
| "AcceptLoop oth (Some client # accepts) n i =
     (let i1 = oth n i in
      if stopped i1 then ([], i1)
      else let i2 = oth (n + 1) i1 in
        if stopped i2 then ([], i2)
        else let i3 = i2\<lparr>client_tasks := client_tasks i2 + 1\<rparr>;
                 (served, i4) = AcceptLoop oth accepts (n + 2) i3
          in (client # served, i4))"

definition StopAll :: "Impl \<Rightarrow> Impl" where
  "StopAll i = i\<lparr>stopped := True, accept_task := False, client_tasks := 0, listener_valid := False\<rparr>"

definition EgressProxy :: "EgressProxyConfig \<Rightarrow> Impl outcome" where
  "EgressProxy config =
     Invariant (socket_path config \<noteq> []) ''proxy socket path must not be empty'' (
     Invariant (run_id config \<noteq> []) ''proxy runId must not be empty'' (
     Returns \<lparr>down_bytes = 0, stopped = False, error_reason = None, cancel_tasks = False,
       accept_task = False, client_tasks = 0, listener_valid = False\<rparr>))"

text \<open>\<open>bind_error\<close> is what \<open>Bind\<close> or \<open>Listen\<close> raises, if one does.\<close>

definition Make ::
    "('u, 'z) vendor_scheme \<Rightarrow> EgressProxyConfig \<Rightarrow> bool \<Rightarrow> string option \<Rightarrow> (string + Impl) outcome" where
  "Make V config deadline_reachable bind_error =
     Invariant deadline_reachable ''proxy start deadline must be reachable'' (
     and_then (EgressProxy config) (\<lambda>proxy.
       case bind_error of
         Some what \<Rightarrow> unex_text V (''proxy bind then listen failed: '' @ what)
       | None \<Rightarrow> Returns (Inr (proxy\<lparr>listener_valid := True, accept_task := True\<rparr>))))"

definition Stop :: "Impl \<Rightarrow> Impl" where
  "Stop i = StopAll i"

definition DownBytes :: "Impl \<Rightarrow> int" where
  "DownBytes i = down_bytes i"

definition ErrorReason :: "Impl \<Rightarrow> string option" where
  "ErrorReason i = error_reason i"

section \<open>Unfolding and induction for the loops\<close>

lemma send_pending_unfold:
  "send_pending cfg E pending s =
     (if pending = [] then (True, s)
      else if stopped (impl (interfere E s)) then (True, interfere E s)
      else let r = SendBudgeted cfg E pending (interfere E s)
        in if fst r = 0 then (False, snd r) else send_pending cfg E (drop (fst r) pending) (snd r))"
  by (subst send_pending.simps) (simp add: Let_def split_beta)

lemma send_pending_induct [case_names step]:
  assumes "\<And>pending s. (pending \<noteq> [] \<Longrightarrow> \<not> stopped (impl (interfere E s)) \<Longrightarrow>
      fst (SendBudgeted cfg E pending (interfere E s)) \<noteq> 0 \<Longrightarrow>
      P (drop (fst (SendBudgeted cfg E pending (interfere E s))) pending)
        (snd (SendBudgeted cfg E pending (interfere E s)))) \<Longrightarrow> P pending s"
  shows "P pending s"
proof (induction "length pending" arbitrary: pending s rule: less_induct)
  case less
  show ?case by (rule assms) (rule less.hyps, simp)
qed

lemma copy_loop_unfold:
  "CopyUpstreamToClientBudgeted cfg E s =
     (if fst (copy_down cfg E s) then CopyUpstreamToClientBudgeted cfg E (snd (copy_down cfg E s))
      else snd (copy_down cfg E s))"
  by (subst CopyUpstreamToClientBudgeted.simps) (simp add: split_beta)

lemma copy_loop_induct [case_names step]:
  assumes "\<And>s. (fst (copy_down cfg E s) \<Longrightarrow> P (snd (copy_down cfg E s))) \<Longrightarrow> P s"
  shows "P s"
proof (induction "script_size (upstream_in s)" arbitrary: s rule: less_induct)
  case less
  show ?case by (rule assms) (rule less.hyps, rule copy_down_smaller)
qed

lemma copy_up_loop_unfold:
  "CopyClientToUpstream E s =
     (if fst (copy_up E s) then CopyClientToUpstream E (snd (copy_up E s)) else snd (copy_up E s))"
  by (subst CopyClientToUpstream.simps) (simp add: split_beta)

lemma relay_unfold:
  "relay cfg E up down s =
     (if \<not> up \<and> \<not> down then s
      else if up \<and> (\<not> down \<or> relay_turn E (io_calls s))
      then relay cfg E (fst (copy_up E s)) down (snd (copy_up E s))
      else relay cfg E up (fst (copy_down cfg E s)) (snd (copy_down cfg E s)))"
  by (subst relay.simps) (simp add: split_beta)

lemma relay_induct [case_names step]:
  assumes "\<And>up down s.
      (up \<Longrightarrow> P (fst (copy_up E s)) down (snd (copy_up E s))) \<Longrightarrow>
      (down \<Longrightarrow> P up (fst (copy_down cfg E s)) (snd (copy_down cfg E s))) \<Longrightarrow> P up down s"
  shows "P up down s"
proof (induction "script_size (client_in s) + script_size (upstream_in s) + of_bool up + of_bool down"
    arbitrary: up down s rule: less_induct)
  case less
  have u: "script_size (client_in (snd (copy_up E s))) + of_bool (fst (copy_up E s)) <
      script_size (client_in s) + (1 :: nat)"
    using copy_up_smaller [of E s] copy_up_client [of E s] by (cases "fst (copy_up E s)") auto
  have d: "script_size (upstream_in (snd (copy_down cfg E s))) + of_bool (fst (copy_down cfg E s)) <
      script_size (upstream_in s) + (1 :: nat)"
    using copy_down_smaller [of cfg E s] copy_down_upstream [of cfg E s]
    by (cases "fst (copy_down cfg E s)") auto
  show ?case
    by (rule assms; rule less.hyps) (use u d in auto)
qed

lemma forward_body_unfold:
  "forward_body E n s =
     (if n \<le> 0 then s
      else if stopped (impl (interfere E s)) then interfere E s
      else let r = RecvSome (nat (min n (int kIoBufferBytes))) (client_in s);
               s2 = (interfere E s)\<lparr>client_in := snd r\<rparr>
        in case fst r of
             None \<Rightarrow> s2
           | Some bytes \<Rightarrow>
               if bytes = [] then s2
               else if fst (SendAll E bytes s2)
               then forward_body E (n - int (length bytes)) (snd (SendAll E bytes s2))
               else snd (SendAll E bytes s2))"
  by (subst forward_body.simps) (simp add: Let_def split_beta split: option.split)

lemma read_header_unfold:
  "read_header cfg E header s =
     (if find_str (crlf @ crlf) header 0 \<noteq> None then (Some header, s)
      else if length header > kMaxHeaderBytes then
        (None, (Send400 cfg E ''header too large'' s)\<lparr>client_closed := True\<rparr>)
      else let r = RecvSome kIoBufferBytes (client_in s);
               s1 = interfere E (s\<lparr>client_in := snd r\<rparr>)
        in case fst r of
             None \<Rightarrow> (None, s1)
           | Some bytes \<Rightarrow>
               if bytes = [] then (None, s1) else read_header cfg E (header @ bytes) s1)"
  by (subst read_header.simps) (simp add: Let_def split_beta)

text \<open>
  A budgeted send either does nothing, or is refused, or holds a claim while it sends.
\<close>

lemma SendBudgeted_cases:
  fixes cfg E bytes s
  defines "c \<equiv> min (int (length bytes)) (down_bytes_max cfg)"
  defines "s2 \<equiv> interfere E (interfere E s)"
  defines "s3 \<equiv> s2\<lparr>impl := snd (budget_claim cfg c (impl s2))\<rparr>"
  defines "out \<equiv> (\<lambda>k. interfere E (s3\<lparr>client_out := client_out s @ take k (take (nat c) bytes)\<rparr>))"
  obtains (empty) "SendBudgeted cfg E bytes s = (0, s)"
  | (idle) "SendBudgeted cfg E bytes s = (0, interfere E s)"
  | (refused) "0 < c" "\<not> fst (budget_claim cfg c (impl s2))" "SendBudgeted cfg E bytes s = (0, s3)"
  | (sent) k where "0 < c" "fst (budget_claim cfg c (impl s2))"
      "ClientSend E (io_calls s3) (take (nat c) bytes) = Sent k"
      "SendBudgeted cfg E bytes s =
         (k, if c - int k > 0 then (out k)\<lparr>impl := budget_return (c - int k) (impl (out k))\<rparr> else out k)"
  | (fails) k what where "0 < c" "fst (budget_claim cfg c (impl s2))"
      "ClientSend E (io_calls s3) (take (nat c) bytes) = SendFails k what"
      "SendBudgeted cfg E bytes s = (0, (out k)\<lparr>impl := budget_return c (impl (out k))\<rparr>)"
proof (cases "bytes = []")
  case True
  then show thesis by (intro empty) (simp add: SendBudgeted_def)
next
  case ne: False
  show thesis
  proof (cases "stopped (impl (interfere E s)) \<or> c \<le> 0")
    case True
    then show thesis using ne by (intro idle) (auto simp: SendBudgeted_def Let_def c_def)
  next
    case False
    obtain claimed i where b: "budget_claim cfg c (impl s2) = (claimed, i)" by fastforce
    have e: "SendBudgeted cfg E bytes s =
        (if \<not> claimed then (0, s3)
         else case ClientSend E (io_calls s3) (take (nat c) bytes) of
           Sent k \<Rightarrow> (k, if c - int k > 0 then (out k)\<lparr>impl := budget_return (c - int k) (impl (out k))\<rparr>
             else out k)
         | SendFails k _ \<Rightarrow> (0, (out k)\<lparr>impl := budget_return c (impl (out k))\<rparr>))"
      using ne False b
      unfolding SendBudgeted_def IsStopped_simps Let_def c_def [symmetric] s2_def [symmetric]
      by (simp add: s3_def out_def s2_def split: send_result.split)
    show thesis
    proof (cases claimed)
      case True
      show thesis
        using sent fails False b e True
        by (cases "ClientSend E (io_calls s3) (take (nat c) bytes)") auto
    qed (use refused False b e in auto)
  qed
qed

end
