(* ===== verification/Egress_Correct.thy ===== *)
theory Egress_Correct
  imports Egress_Proxy "HOL-Library.Multiset"
begin

text \<open>
  What holds of the proxy's client task whatever the other tasks, the peers and the network do:
  where it connects, what it needs before it does, what it delivers, and how the tasks share the
  budget of downstream bytes.
\<close>

section \<open>What a task may change\<close>

text \<open>
  A relation between the task's state before and after that every elementary action respects
  holds across the loops that are composed of them.
\<close>

locale task_relation =
  fixes R :: "conn \<Rightarrow> conn \<Rightarrow> bool"
  assumes rel_refl: "R s s"
    and rel_trans: "R a b \<Longrightarrow> R b c \<Longrightarrow> R a c"
    and shared: "R s (s\<lparr>impl := i\<rparr>)" and tick: "R s (s\<lparr>io_calls := n\<rparr>)"
    and received: "R s (s\<lparr>client_in := evs\<rparr>)" "R s (s\<lparr>upstream_in := evs\<rparr>)"
    and to_client: "R s (s\<lparr>client_out := client_out s @ bytes\<rparr>)"
    and to_upstream: "R s (s\<lparr>upstream_out := upstream_out s @ bytes\<rparr>)"
    and shut: "R s (s\<lparr>client_write_shut := True\<rparr>)" "R s (s\<lparr>upstream_write_shut := True\<rparr>)"
    and close: "R s (s\<lparr>client_closed := True\<rparr>)" "R s (s\<lparr>upstream_closed := True\<rparr>)"
begin

lemma rel_interfere: "R s (interfere E s)"
  unfolding interfere_def by (rule rel_trans [OF shared tick])

lemma rel_note: "R s (NoteError E reason s)"
  unfolding NoteError_def Let_def by (rule rel_trans [OF rel_interfere shared])

lemma rel_close: "R s (CloseSocketsQuietly s)"
  unfolding CloseSocketsQuietly_def by (rule rel_trans [OF close])

lemma rel_send_all: "R s (snd (SendAll E bytes s))"
  unfolding SendAll_def by (auto intro: rel_refl rel_trans [OF to_upstream rel_interfere] split: send_result.split)

lemma rel_claimed: "R s ((interfere E s)\<lparr>impl := i\<rparr>)"
  by (rule rel_trans [OF rel_interfere shared])

lemma rel_delivered: "R s (interfere E (s\<lparr>client_out := client_out s @ bytes\<rparr>))"
  by (rule rel_trans [OF to_client rel_interfere])

lemma rel_send_budgeted: "R s (snd (SendBudgeted cfg E bytes s))"
proof -
  let ?c = "min (int (length bytes)) (down_bytes_max cfg)"
  let ?s1 = "interfere E s" let ?s2 = "interfere E ?s1"
  let ?s3 = "?s2\<lparr>impl := snd (budget_claim cfg ?c (impl ?s2))\<rparr>"
  have 1: "R s ?s1" by (rule rel_interfere)
  have 3: "R s ?s3" by (rule rel_trans [OF 1 rel_claimed])
  have 4: "R s (interfere E (?s3\<lparr>client_out := client_out ?s3 @ x\<rparr>))" for x
    by (rule rel_trans [OF 3 rel_delivered])
  have 5: "R s ((interfere E (?s3\<lparr>client_out := client_out ?s3 @ x\<rparr>))\<lparr>impl := i\<rparr>)" for x i
    by (rule rel_trans [OF 4 shared])
  show ?thesis
    using rel_refl 1 3 4 5
    by (simp add: SendBudgeted_def Let_def split_beta del: interfere_simps split: send_result.split)
qed

lemma rel_responses:
  "R s (Send400 cfg E m s)" "R s (Send407 cfg E s)" "R s (Send502 cfg E m s)"
  by (simp_all add: Send400_def Send407_def Send502_def rel_send_budgeted)

lemma rel_send_pending: "R s (snd (send_pending cfg E pending s))"
proof (induction pending s rule: send_pending_induct [where cfg = cfg and E = E])
  case (step pending s)
  let ?r = "SendBudgeted cfg E pending (interfere E s)"
  have 2: "R s (snd ?r)" by (rule rel_trans [OF rel_interfere rel_send_budgeted])
  show ?case
    using rel_refl rel_interfere [of s E] 2 rel_trans [OF 2 step]
    by (subst send_pending_unfold) (auto simp: Let_def simp del: interfere_simps)
qed

lemma rel_copy_up: "R s (snd (copy_up E s))"
proof -
  let ?s1 = "interfere E s" let ?s2 = "?s1\<lparr>client_in := snd (RecvSome kIoBufferBytes (client_in ?s1))\<rparr>"
  have 1: "R s ?s1" by (rule rel_interfere)
  have 2: "R s ?s2" by (rule rel_trans [OF 1 received(1)])
  show ?thesis
    using 1 2 rel_trans [OF 2 shut(2)] rel_trans [OF 2 rel_send_all [of ?s2 E]]
    by (auto simp: copy_up_def Let_def split_beta simp del: interfere_simps split: option.split)
qed

lemma rel_copy_down: "R s (snd (copy_down cfg E s))"
proof -
  let ?s1 = "interfere E s"
  let ?s2 = "?s1\<lparr>upstream_in := snd (RecvSome kIoBufferBytes (upstream_in ?s1))\<rparr>"
  have 1: "R s ?s1" by (rule rel_interfere)
  have 2: "R s ?s2" by (rule rel_trans [OF 1 received(2)])
  show ?thesis
    using 1 2 rel_trans [OF 2 shut(1)] rel_trans [OF 2 rel_send_pending [of ?s2 cfg E]]
    by (auto simp: copy_down_def Let_def split_beta simp del: interfere_simps split: option.split)
qed

lemma rel_copy_loop: "R s (CopyUpstreamToClientBudgeted cfg E s)"
proof (induction s rule: copy_loop_induct [where cfg = cfg and E = E])
  case (step s)
  then show ?case
    using rel_copy_down [of s cfg E] rel_trans [OF rel_copy_down]
    by (subst copy_loop_unfold) auto
qed

lemma rel_relay: "R s (relay cfg E up down s)"
proof (induction up down s rule: relay_induct [where cfg = cfg and E = E])
  case (step up down s)
  then show ?case
    using rel_refl rel_trans [OF rel_copy_up] rel_trans [OF rel_copy_down]
    by (subst relay_unfold) auto
qed

lemma rel_forward_body: "R s (forward_body E n s)"
proof (induction "nat n" arbitrary: n s rule: less_induct)
  case less
  let ?r = "RecvSome (nat (min n (int kIoBufferBytes))) (client_in s)"
  let ?s2 = "(interfere E s)\<lparr>client_in := snd ?r\<rparr>"
  have 2: "R s ?s2" by (rule rel_trans [OF rel_interfere received(1)])
  have 3: "R s (snd (SendAll E bytes ?s2))" for bytes by (rule rel_trans [OF 2 rel_send_all])
  have 4: "R s (forward_body E (n - int (length bytes)) (snd (SendAll E bytes ?s2)))"
    if "0 < n" "bytes \<noteq> []" for bytes
    by (rule rel_trans [OF 3 less.hyps]) (use that in \<open>cases bytes; simp\<close>)
  show ?case
    using rel_refl rel_interfere [of s E] 2 3 4
    by (subst forward_body_unfold) (auto simp: Let_def simp del: interfere_simps split: option.split)
qed

lemma rel_forward: "R s (ForwardHttpRequestBody E buffered n s)"
  by (auto simp: ForwardHttpRequestBody_def Let_def split_beta
      intro: rel_send_all rel_trans [OF rel_send_all rel_forward_body])

lemma rel_read_header: "R s (snd (read_header cfg E header s))"
proof (induction "script_size (client_in s)" arbitrary: header s rule: less_induct)
  case less
  let ?r = "RecvSome kIoBufferBytes (client_in s)"
  let ?s1 = "interfere E (s\<lparr>client_in := snd ?r\<rparr>)"
  have 1: "R s ?s1" by (rule rel_trans [OF received(1) rel_interfere])
  have 2: "R s (snd (read_header cfg E (header @ bytes) ?s1))"
    if "fst ?r = Some bytes" "bytes \<noteq> []" for bytes
    by (rule rel_trans [OF 1 less.hyps])
      (use that RecvSome_size [of kIoBufferBytes "client_in s" bytes "snd ?r"] in \<open>simp add: prod_eq_iff\<close>)
  show ?case
    using rel_refl 1 2 rel_trans [OF rel_responses(1) close(1)]
    by (subst read_header_unfold) (auto simp: Let_def simp del: interfere_simps split: option.split)
qed

lemmas rel_loops = rel_send_budgeted rel_send_all rel_responses rel_note rel_close rel_copy_loop
  rel_relay rel_forward rel_read_header rel_interfere

end

section \<open>Where the proxy connects\<close>

text \<open>The connections a task has made, and the bytes it has sent, only grow.\<close>

definition same_connects :: "conn \<Rightarrow> conn \<Rightarrow> bool" where
  "same_connects s s' \<longleftrightarrow> connects s' = connects s"

interpretation sc: task_relation same_connects
  by unfold_locales (simp_all add: same_connects_def)

definition output_grows :: "conn \<Rightarrow> conn \<Rightarrow> bool" where
  "output_grows s s' \<longleftrightarrow>
     prefix (client_out s) (client_out s') \<and> prefix (upstream_out s) (upstream_out s')"

interpretation grow: task_relation output_grows
  by unfold_locales (auto simp: output_grows_def intro: prefix_order.trans)

lemma same_connectsD:
  "connects (snd (SendBudgeted cfg E bytes s)) = connects s"
  "connects (NoteError E e s) = connects s"
  "connects (Send400 cfg E m s) = connects s" "connects (Send407 cfg E s) = connects s"
  "connects (Send502 cfg E m s) = connects s" "connects (CloseSocketsQuietly s) = connects s"
  "connects (CopyUpstreamToClientBudgeted cfg E s) = connects s"
  "connects (relay cfg E up down s) = connects s"
  "connects (ForwardHttpRequestBody E b n s) = connects s"
  "connects (snd (read_header cfg E h s)) = connects s"
  using sc.rel_loops [of s] by (simp_all add: same_connects_def)

definition connects_within :: "(Sockaddr \<Rightarrow> bool) \<Rightarrow> conn \<Rightarrow> conn \<Rightarrow> bool" where
  "connects_within P s s' \<longleftrightarrow> (\<exists>as. connects s' = connects s @ as \<and> (\<forall>a\<in>set as. P a))"

lemma connects_within_same: "connects s' = connects s \<Longrightarrow> connects_within P s s'"
  by (simp add: connects_within_def)

lemma connects_within_then:
  "connects_within P s s1 \<Longrightarrow> connects s2 = connects s1 \<Longrightarrow> connects_within P s s2"
  by (simp add: connects_within_def)

lemma connect_loop_within:
  "\<forall>a\<in>set addrs. P (ra_sockaddr a) \<Longrightarrow> connects_within P s (snd (connect_loop V E up addrs errs s))"
proof (induction addrs arbitrary: errs s)
  case (Cons addr addrs)
  let ?s' = "interfere E (s\<lparr>connects := connects s @ [ra_sockaddr addr]\<rparr>)"
  have 1: "connects_within P s ?s'" using Cons.prems by (simp add: connects_within_def)
  have 2: "connects_within P s (snd (connect_loop V E up addrs errs' ?s'))" for errs'
    using Cons.IH [of ?s' errs'] Cons.prems unfolding connects_within_def by auto
  show ?case
    using 1 2 connects_within_same [of s s]
    by (simp add: Let_def del: interfere_simps split: connect_result.split outcome.split)
qed (simp add: connects_within_same)

lemma ConnectUpstream_public:
  assumes "\<not> enable_local_fixture_rewrite cfg"
  shows "connects_within public_sockaddr s (snd (ConnectUpstream V cfg E host port s))"
  using rewrite_off [OF assms, of host port]
  by (auto simp: ConnectUpstream_def Let_def connects_within_same split: outcome.split sum.split
      intro!: connect_loop_within dest: ResolveTcp_public)

text \<open>A handler connects through \<open>ConnectUpstream\<close>, once.\<close>

lemma HandleConnect_connects:
  "connects (snd (HandleConnect V cfg E req s)) = connects s \<or>
   (\<exists>h p. connects (snd (HandleConnect V cfg E req s)) = connects (snd (ConnectUpstream V cfg E h p s)))"
proof (cases "ParseAuthority V (req_target req) 0 kRequired")
  case (Some a)
  show ?thesis
  proof (cases "FromBytes V (auth_host a)")
    case (Inr h)
    obtain r s1 where c: "ConnectUpstream V cfg E h (auth_port a) s = (r, s1)" by fastforce
    have "connects (snd (HandleConnect V cfg E req s)) = connects s1"
      by (simp add: HandleConnect_def Some Inr c Let_def same_connectsD RelayConnect_def
          split: outcome.split sum.split)
    with c show ?thesis by (metis snd_conv)
  qed (simp add: HandleConnect_def Some same_connectsD)
qed (simp add: HandleConnect_def same_connectsD)

lemma HandleHttp_through:
  assumes "ParseHttpRequestTarget V req = Inr t"
    and "(case FindHeaderValue V (req_headers req) ''content-length'' of
           None \<Rightarrow> Inr 0 | Some value \<Rightarrow> ParseContentLength V value) = Inr n"
  shows "connects (snd (HandleHttp V cfg E req header s)) =
    connects (snd (ConnectUpstream V cfg E (t_host t) (t_port t) s))"
proof -
  obtain r s1 where c: "ConnectUpstream V cfg E (t_host t) (t_port t) s = (r, s1)" by fastforce
  then show ?thesis
    by (simp add: HandleHttp_def assms c Let_def split_beta same_connectsD
        split: outcome.split sum.split)
qed

lemma HandleHttp_connects:
  "connects (snd (HandleHttp V cfg E req header s)) = connects s \<or>
   (\<exists>h p. connects (snd (HandleHttp V cfg E req header s)) =
      connects (snd (ConnectUpstream V cfg E h p s)))"
proof (cases "ParseHttpRequestTarget V req")
  case (Inr t)
  let ?cl = "case FindHeaderValue V (req_headers req) ''content-length'' of
               None \<Rightarrow> Inr 0 | Some value \<Rightarrow> ParseContentLength V value"
  show ?thesis
  proof (cases ?cl)
    case (Inr n)
    then show ?thesis using HandleHttp_through \<open>ParseHttpRequestTarget V req = Inr t\<close> by blast
  qed (simp add: HandleHttp_def Inr same_connectsD)
qed (simp add: HandleHttp_def same_connectsD)

lemma handlers_public:
  assumes "\<not> enable_local_fixture_rewrite cfg"
  shows "connects_within public_sockaddr s (snd (HandleConnect V cfg E req s))"
    and "connects_within public_sockaddr s (snd (HandleHttp V cfg E req header s))"
proof -
  have c: "connects_within public_sockaddr s (snd (ConnectUpstream V cfg E h p s))" for h p
    by (rule ConnectUpstream_public [OF assms])
  show "connects_within public_sockaddr s (snd (HandleConnect V cfg E req s))"
    using HandleConnect_connects [of V cfg E req s] connects_within_same connects_within_then [OF c]
    by blast
  show "connects_within public_sockaddr s (snd (HandleHttp V cfg E req header s))"
    using HandleHttp_connects [of V cfg E req header s] connects_within_same connects_within_then [OF c]
    by blast
qed

text \<open>Handling a client: what it needs to go on, and the handler it goes on with.\<close>

definition authorized :: "('u, 'z) vendor_scheme \<Rightarrow> EgressProxyConfig \<Rightarrow> ParsedRequest \<Rightarrow> bool" where
  "authorized V cfg req \<longleftrightarrow>
     (\<exists>auth password. FindHeaderValue V (req_headers req) ''proxy-authorization'' = Some auth \<and>
        ParseBasicAuthUser V auth = Some (run_id cfg, password))"

lemma auth_fails_iff: "auth_fails V cfg req \<longleftrightarrow> require_auth cfg \<and> \<not> authorized V cfg req"
  by (auto simp: auth_fails_def authorized_def split: option.splits)

lemma read_header_upstream [simp]: "upstream_out (snd (read_header cfg E header s)) = upstream_out s"
proof (induction "script_size (client_in s)" arbitrary: header s rule: less_induct)
  case less
  show ?case
  proof (cases "RecvSome kIoBufferBytes (client_in s)")
    case (Pair r rest)
    let ?s1 = "interfere E (s\<lparr>client_in := rest\<rparr>)"
    have "upstream_out (snd (read_header cfg E (header @ bytes) ?s1)) = upstream_out s"
      if "r = Some bytes" "bytes \<noteq> []" for bytes
      using less.hyps [of ?s1 "header @ bytes"] RecvSome_size [of kIoBufferBytes "client_in s" bytes rest]
        that Pair by simp
    then show ?thesis
      by (subst read_header_unfold) (simp add: Let_def Send400_def Pair split: option.split)
  qed
qed

lemma HandleClient_cases:
  obtains (idle) "connects (snd (HandleClient V cfg E s)) = connects s"
      "upstream_out (snd (HandleClient V cfg E s)) = upstream_out s"
  | (served) header req s1 where "read_header cfg E [] (interfere E s) = (Some header, s1)"
      "ParseHeaderBlock V header = Some req" "length (req_target req) \<le> url_bytes_max cfg"
      "require_auth cfg \<longrightarrow> authorized V cfg req" "connects s1 = connects s"
      "upstream_out s1 = upstream_out s"
      "HandleClient V cfg E s =
         (if ICaseEqual V (req_method req) ''CONNECT'' then HandleConnect V cfg E req s1
          else HandleHttp V cfg E req header s1)"
proof (cases "stopped (impl (interfere E s))")
  case True
  then show ?thesis by (intro idle) (simp_all add: HandleClient_def)
next
  case False
  obtain h s1 where r: "read_header cfg E [] (interfere E s) = (h, s1)" by fastforce
  have s1: "connects s1 = connects s" "upstream_out s1 = upstream_out s"
    using same_connectsD(10) [of cfg E "[]" "interfere E s"] read_header_upstream [of cfg E "[]" "interfere E s"]
    by (simp_all add: r)
  note C = HandleClient_def Let_def r False
  show ?thesis
  proof (cases h)
    case None
    then show ?thesis using s1 False by (intro idle) (simp_all add: C)
  next
    case (Some header)
    note served' = served [OF r [unfolded Some]]
    show ?thesis
    proof (cases "ParseHeaderBlock V header")
      case None
      then show ?thesis
        using s1 False Some by (intro idle) (simp_all add: C same_connectsD Send400_def)
    next
      case (Some req)
      consider (long) "length (req_target req) > url_bytes_max cfg"
        | (deny) "length (req_target req) \<le> url_bytes_max cfg" "auth_fails V cfg req"
        | (go) "length (req_target req) \<le> url_bytes_max cfg" "\<not> auth_fails V cfg req" by linarith
      then show ?thesis
      proof cases
        case long
        then show ?thesis
          using s1 False Some \<open>h = Some header\<close>
          by (intro idle) (simp_all add: C same_connectsD Send400_def)
      next
        case deny
        then show ?thesis
          using s1 False Some \<open>h = Some header\<close>
          by (intro idle) (simp_all add: C same_connectsD Send407_def)
      next
        case go
        have "require_auth cfg \<longrightarrow> authorized V cfg req"
          using go(2) by (simp add: auth_fails_iff)
        moreover have "HandleClient V cfg E s =
           (if ICaseEqual V (req_method req) ''CONNECT'' then HandleConnect V cfg E req s1
            else HandleHttp V cfg E req header s1)"
          using go False Some \<open>h = Some header\<close> by (simp add: C)
        ultimately show ?thesis using served' Some go(1) s1 by blast
      qed
    qed
  qed
qed

lemma HandleClient_public:
  assumes "\<not> enable_local_fixture_rewrite cfg"
  shows "connects_within public_sockaddr s (snd (HandleClient V cfg E s))"
proof (cases rule: HandleClient_cases [of V cfg E s])
  case idle
  then show ?thesis by (intro connects_within_same)
next
  case (served header req s1)
  have "connects_within public_sockaddr s1 (snd (HandleClient V cfg E s))"
    using handlers_public [OF assms, where V = V and E = E and s = s1 and req = req]
    by (simp add: served(7))
  then show ?thesis using served(5) by (simp add: connects_within_def)
qed

section \<open>What the client receives\<close>

text \<open>
  The bytes a stream brings before it ends.  A send reports no more bytes than it was given, and
  no task takes a stop back.
\<close>

fun stream_bytes :: "recv_event list \<Rightarrow> string" where
  "stream_bytes [] = []"
| "stream_bytes (RecvError # events) = []"
| "stream_bytes (Data b # events) = (if b = [] then [] else b @ stream_bytes events)"

definition send_contract :: "'e proxy_env_scheme \<Rightarrow> bool" where
  "send_contract E \<longleftrightarrow>
     (\<forall>n b k. ClientSend E n b = Sent k \<longrightarrow> k \<le> length b) \<and>
     (\<forall>n b k. UpstreamSend E n b = Sent k \<longrightarrow> k \<le> length b)"

definition stop_is_final :: "'e proxy_env_scheme \<Rightarrow> bool" where
  "stop_is_final E \<longleftrightarrow> (\<forall>n i. stopped i \<longrightarrow> stopped (others E n i))"

lemma RecvSome_stream:
  "RecvSome n events = (Some bytes, rest) \<Longrightarrow> bytes \<noteq> [] \<Longrightarrow>
     stream_bytes events = bytes @ stream_bytes rest"
  by (induction n events rule: RecvSome.induct) (auto split: if_splits)

lemma buffer_positive [simp]: "0 < kIoBufferBytes"
  by (simp add: kIoBufferBytes_def)

lemma SendBudgeted_delivers:
  assumes "send_contract E"
  obtains x where "client_out (snd (SendBudgeted cfg E bytes s)) = client_out s @ x"
    and "prefix x bytes"
    and "fst (SendBudgeted cfg E bytes s) \<noteq> 0 \<Longrightarrow> x = take (fst (SendBudgeted cfg E bytes s)) bytes"
proof -
  let ?chunk = "take (nat (min (int (length bytes)) (down_bytes_max cfg))) bytes"
  show ?thesis
  proof (cases rule: SendBudgeted_cases [where cfg = cfg and E = E and bytes = bytes and s = s])
    case (sent k)
    then have "k \<le> length ?chunk" using assms unfolding send_contract_def by blast
    then have "take k ?chunk = take k bytes" by (metis length_take min.boundedE min.absorb2 min.commute take_take)
    with sent(4) that [of "take k ?chunk"] show ?thesis by (simp add: take_is_prefix)
  next
    case (fails k what)
    then show ?thesis using that [of "take k ?chunk"] by (simp add: take_is_prefix min_def)
  qed (use that [of "[]"] in simp_all)
qed

lemma send_pending_delivers:
  assumes "send_contract E" and "stop_is_final E"
  shows "\<exists>x. client_out (snd (send_pending cfg E pending s)) = client_out s @ x \<and> prefix x pending \<and>
    (fst (send_pending cfg E pending s) \<longrightarrow>
       x = pending \<or> stopped (impl (snd (send_pending cfg E pending s))))"
proof (induction pending s rule: send_pending_induct [where cfg = cfg and E = E])
  case (step pending s)
  let ?s1 = "interfere E s" let ?r = "SendBudgeted cfg E pending ?s1"
  show ?case
  proof (cases "pending = [] \<or> stopped (impl ?s1)")
    case True
    then show ?thesis by (subst (1 2 3) send_pending_unfold) auto
  next
    case False
    obtain x where x: "client_out (snd ?r) = client_out s @ x" "prefix x pending"
      "fst ?r \<noteq> 0 \<Longrightarrow> x = take (fst ?r) pending"
      using SendBudgeted_delivers [OF assms(1), of cfg pending ?s1] by auto
    show ?thesis
    proof (cases "fst ?r = 0")
      case True
      with False have "send_pending cfg E pending s = (False, snd ?r)"
        by (subst send_pending_unfold) (simp add: Let_def)
      with x show ?thesis by auto
    next
      case go: False
      with False have e: "send_pending cfg E pending s =
          send_pending cfg E (drop (fst ?r) pending) (snd ?r)"
        by (subst send_pending_unfold) (simp add: Let_def)
      from step False go obtain y where
        y: "client_out (snd (send_pending cfg E pending s)) = client_out (snd ?r) @ y"
          "prefix y (drop (fst ?r) pending)"
          "fst (send_pending cfg E pending s) \<longrightarrow>
             y = drop (fst ?r) pending \<or> stopped (impl (snd (send_pending cfg E pending s)))"
        unfolding e by auto
      have "prefix (x @ y) pending"
        using x(3) [OF go] y(2) append_take_drop_id [of "fst ?r" pending]
          same_prefix_prefix [of "take (fst ?r) pending" y "drop (fst ?r) pending"] by simp
      then show ?thesis using x(1,3) y go by (intro exI [of _ "x @ y"]) auto
    qed
  qed
qed

lemma stopped_copy_loop:
  assumes "stop_is_final E" and "stopped (impl s)"
  shows "client_out (CopyUpstreamToClientBudgeted cfg E s) = client_out s"
proof -
  have "copy_down cfg E s = (False, interfere E s)"
    using assms by (simp add: copy_down_def stop_is_final_def)
  then show ?thesis by (subst copy_loop_unfold) simp
qed

lemma copy_loop_prefix:
  assumes "send_contract E" and "stop_is_final E"
  shows "\<exists>x. client_out (CopyUpstreamToClientBudgeted cfg E s) = client_out s @ x \<and>
    prefix x (stream_bytes (upstream_in s))"
proof (induction s rule: copy_loop_induct [where cfg = cfg and E = E])
  case (step s)
  obtain r rest where rc: "RecvSome kIoBufferBytes (upstream_in s) = (r, rest)" by fastforce
  let ?s2 = "(interfere E s)\<lparr>upstream_in := rest\<rparr>"
  show ?case
  proof (cases "stopped (impl (interfere E s)) \<or> r = None \<or> r = Some []")
    case True
    then have "\<not> fst (copy_down cfg E s)" "client_out (snd (copy_down cfg E s)) = client_out s"
      using rc by (auto simp: copy_down_def Let_def)
    then show ?thesis by (subst copy_loop_unfold) auto
  next
    case False
    then obtain b where b: "r = Some b" "b \<noteq> []" by auto
    then have st: "stream_bytes (upstream_in s) = b @ stream_bytes rest" using RecvSome_stream rc by blast
    have cd: "copy_down cfg E s = send_pending cfg E b ?s2"
      using False b rc by (simp add: copy_down_def Let_def)
    obtain x where x: "client_out (snd (copy_down cfg E s)) = client_out s @ x" "prefix x b"
      "fst (copy_down cfg E s) \<longrightarrow> x = b \<or> stopped (impl (snd (copy_down cfg E s)))"
      using send_pending_delivers [OF assms, of cfg b ?s2] unfolding cd by auto
    have px: "prefix x (stream_bytes (upstream_in s))"
      unfolding st using x(2) by (rule prefix_prefix)
    show ?thesis
    proof (cases "fst (copy_down cfg E s) \<and> \<not> stopped (impl (snd (copy_down cfg E s)))")
      case True
      with x have "x = b" by blast
      moreover have "upstream_in (snd (copy_down cfg E s)) = rest" unfolding cd by simp
      ultimately show ?thesis
        using step x(1) True st
        by (subst copy_loop_unfold) (auto simp: same_prefix_prefix)
    next
      case stop: False
      then show ?thesis
        using x(1) px stopped_copy_loop [OF assms(2), of "snd (copy_down cfg E s)" cfg]
        by (subst copy_loop_unfold) auto
    qed
  qed
qed

section \<open>A relay within the budget\<close>

text \<open>A network in which sends go through and no other task runs.\<close>

definition calm :: "'e proxy_env_scheme \<Rightarrow> bool" where
  "calm E \<longleftrightarrow> (\<forall>n i. others E n i = i) \<and> (\<forall>n b. ClientSend E n b = Sent (length b))"

lemma SendBudgeted_calm:
  assumes "calm E" and "bytes \<noteq> []" and "\<not> stopped (impl s)" and "0 \<le> down_bytes (impl s)"
    and "down_bytes (impl s) + int (length bytes) \<le> down_bytes_max cfg"
  shows "fst (SendBudgeted cfg E bytes s) = length bytes"
    and "client_out (snd (SendBudgeted cfg E bytes s)) = client_out s @ bytes"
    and "impl (snd (SendBudgeted cfg E bytes s)) =
      (impl s)\<lparr>down_bytes := down_bytes (impl s) + int (length bytes)\<rparr>"
  using assms by (simp_all add: SendBudgeted_def calm_def Let_def budget_claim_def min_absorb1)

lemma send_pending_calm:
  assumes "calm E" and "\<not> stopped (impl s)" and "0 \<le> down_bytes (impl s)"
    and "down_bytes (impl s) + int (length bytes) \<le> down_bytes_max cfg"
  shows "fst (send_pending cfg E bytes s)"
    and "client_out (snd (send_pending cfg E bytes s)) = client_out s @ bytes"
    and "impl (snd (send_pending cfg E bytes s)) =
      (impl s)\<lparr>down_bytes := down_bytes (impl s) + int (length bytes)\<rparr>"
proof -
  let ?r = "SendBudgeted cfg E bytes (interfere E s)"
  have i: "impl (interfere E s) = impl s" using assms(1) by (simp add: calm_def)
  have "send_pending cfg E bytes s = (True, if bytes = [] then s else snd ?r)"
  proof (cases "bytes = []")
    case False
    then have "fst ?r = length bytes" using SendBudgeted_calm(1) [OF assms(1)] assms i by simp
    with False i assms(2) show ?thesis
      by (subst send_pending_unfold) (simp add: Let_def send_pending_unfold [of _ _ "[]"] del: interfere_simps(7))
  qed (simp add: send_pending_unfold [of _ _ "[]"])
  then show "fst (send_pending cfg E bytes s)"
    and "client_out (snd (send_pending cfg E bytes s)) = client_out s @ bytes"
    and "impl (snd (send_pending cfg E bytes s)) =
      (impl s)\<lparr>down_bytes := down_bytes (impl s) + int (length bytes)\<rparr>"
    using SendBudgeted_calm [OF assms(1), of bytes "interfere E s" cfg] assms i by auto
qed

lemma copy_loop_complete:
  assumes "calm E"
  shows "\<not> stopped (impl s) \<Longrightarrow> 0 \<le> down_bytes (impl s) \<Longrightarrow>
    down_bytes (impl s) + int (length (stream_bytes (upstream_in s))) \<le> down_bytes_max cfg \<Longrightarrow>
    client_out (CopyUpstreamToClientBudgeted cfg E s) = client_out s @ stream_bytes (upstream_in s) \<and>
    impl (CopyUpstreamToClientBudgeted cfg E s) = (impl s)\<lparr>down_bytes := down_bytes (impl s) +
      int (length (stream_bytes (upstream_in s)))\<rparr>"
proof (induction s rule: copy_loop_induct [where cfg = cfg and E = E])
  case (step s)
  obtain r rest where rc: "RecvSome kIoBufferBytes (upstream_in s) = (r, rest)" by fastforce
  have i: "impl (interfere E s) = impl s" using assms by (simp add: calm_def)
  let ?s2 = "(interfere E s)\<lparr>upstream_in := rest\<rparr>"
  show ?case
  proof (cases "r = None \<or> r = Some []")
    case True
    then have "stream_bytes (upstream_in s) = []"
      using rc by (cases "upstream_in s" rule: stream_bytes.cases) (auto simp: kIoBufferBytes_def)
    moreover have "\<not> fst (copy_down cfg E s)" "client_out (snd (copy_down cfg E s)) = client_out s"
      "impl (snd (copy_down cfg E s)) = impl s"
      using True rc step.prems i by (auto simp: copy_down_def Let_def simp del: interfere_simps(7))
    ultimately show ?thesis by (subst (1 2) copy_loop_unfold) simp
  next
    case False
    then obtain b where b: "r = Some b" "b \<noteq> []" by auto
    then have st: "stream_bytes (upstream_in s) = b @ stream_bytes rest" using RecvSome_stream rc by blast
    have cd: "copy_down cfg E s = send_pending cfg E b ?s2"
      using step.prems b rc i by (simp add: copy_down_def Let_def del: interfere_simps(7))
    note calm = send_pending_calm [OF assms, of ?s2 b cfg, folded cd]
    have s2: "\<not> stopped (impl ?s2)" "0 \<le> down_bytes (impl ?s2)"
      "down_bytes (impl ?s2) + int (length b) \<le> down_bytes_max cfg"
      using step.prems i st by (simp_all del: interfere_simps(7))
    have up: "upstream_in (snd (copy_down cfg E s)) = rest" unfolding cd by simp
    show ?thesis
      using step.IH calm [OF s2] step.prems st i
      by (subst (1 2) copy_loop_unfold) (simp add: up del: interfere_simps(7))
  qed
qed

section \<open>The shared budget\<close>

text \<open>
  The critical sections of all the tasks, in any order: the counter, the claims that are held
  while a send runs, and the bytes the finished sends reported.
\<close>

inductive budget_step ::
    "EgressProxyConfig \<Rightarrow> Impl \<times> int multiset \<times> int \<Rightarrow> Impl \<times> int multiset \<times> int \<Rightarrow> bool"
  for cfg where
  claims: "0 < c \<Longrightarrow> c \<le> down_bytes_max cfg \<Longrightarrow> budget_claim cfg c i = (True, i') \<Longrightarrow>
     budget_step cfg (i, M, d) (i', add_mset c M, d)"
| refused: "0 < c \<Longrightarrow> c \<le> down_bytes_max cfg \<Longrightarrow> budget_claim cfg c i = (False, i') \<Longrightarrow>
     budget_step cfg (i, M, d) (i', M, d)"
| reported: "c \<in># M \<Longrightarrow> 0 \<le> k \<Longrightarrow> k \<le> c \<Longrightarrow>
     budget_step cfg (i, M, d) (budget_return (c - k) i, M - {#c#}, d + k)"
| breaks: "c \<in># M \<Longrightarrow> budget_step cfg (i, M, d) (budget_return c i, M - {#c#}, d)"
| noted: "budget_step cfg (i, M, d) (note_error reason i, M, d)"
| stops: "budget_step cfg (i, M, d) (StopAll i, M, d)"
| accepts: "\<not> stopped i \<Longrightarrow> budget_step cfg (i, M, d) (i\<lparr>client_tasks := client_tasks i + 1\<rparr>, M, d)"

definition budget_ok :: "EgressProxyConfig \<Rightarrow> Impl \<times> int multiset \<times> int \<Rightarrow> bool" where
  "budget_ok cfg b \<longleftrightarrow>
     (case b of (i, M, d) \<Rightarrow> down_bytes i = d + sum_mset M \<and> (\<forall>c\<in>#M. 0 < c) \<and> 0 \<le> d \<and>
        down_bytes i \<le> down_bytes_max cfg)"

lemma note_error_down [simp]: "down_bytes (note_error reason i) = down_bytes i"
  by (simp add: note_error_def split: option.split)

lemma note_error_stopped [simp]: "stopped (note_error reason i) = stopped i"
  by (simp add: note_error_def split: option.split)

lemma budget_claim_down:
  "budget_claim cfg c i = (True, i') \<Longrightarrow> down_bytes i' = down_bytes i + c \<and>
     down_bytes i' \<le> down_bytes_max cfg"
  "budget_claim cfg c i = (False, i') \<Longrightarrow> down_bytes i' = down_bytes i \<and> stopped i'"
  by (auto simp: budget_claim_def RequestCancelAllClientTasksNoWait_def split: if_splits)

lemma sum_mset_nonneg: "\<forall>c\<in>#M. (0 :: int) < c \<Longrightarrow> 0 \<le> sum_mset M"
  by (induction M) auto

lemma budget_step_ok: "budget_step cfg b b' \<Longrightarrow> budget_ok cfg b \<Longrightarrow> budget_ok cfg b'"
proof (induction rule: budget_step.induct)
  case (reported c M k i d)
  then show ?case
    by (auto simp: budget_ok_def budget_return_def sum_mset_diff dest: in_diffD)
next
  case (breaks c M i d)
  then show ?case
    by (auto simp: budget_ok_def budget_return_def sum_mset_diff dest: in_diffD)
qed (auto simp: budget_ok_def StopAll_def dest: budget_claim_down)

lemma budget_steps_ok: "(budget_step cfg)\<^sup>*\<^sup>* b b' \<Longrightarrow> budget_ok cfg b \<Longrightarrow> budget_ok cfg b'"
  by (induction rule: rtranclp_induct) (auto intro: budget_step_ok)

text \<open>A send without interference is a path of critical sections and reports what it sent.\<close>

lemma SendBudgeted_steps:
  assumes "send_contract E" and "\<forall>n i. others E n i = i"
  shows "(budget_step cfg)\<^sup>*\<^sup>* (impl s, M, d)
    (impl (snd (SendBudgeted cfg E bytes s)), M, d + int (fst (SendBudgeted cfg E bytes s)))"
proof (cases rule: SendBudgeted_cases [where cfg = cfg and E = E and bytes = bytes and s = s])
  case refused
  let ?c = "min (int (length bytes)) (down_bytes_max cfg)"
  obtain i where i: "budget_claim cfg ?c (impl s) = (False, i)"
    using refused(2) assms(2) by (cases "budget_claim cfg ?c (impl s)") auto
  have "budget_step cfg (impl s, M, d) (i, M, d)"
    using budget_step.refused [OF refused(1) _ i] by simp
  then show ?thesis using refused(3) i assms(2) by (simp add: r_into_rtranclp)
next
  case (sent k)
  let ?c = "min (int (length bytes)) (down_bytes_max cfg)"
  obtain i where i: "budget_claim cfg ?c (impl s) = (True, i)"
    using sent(2) assms(2) by (cases "budget_claim cfg ?c (impl s)") auto
  have "k \<le> length (take (nat ?c) bytes)" using sent(3) assms(1) unfolding send_contract_def by blast
  then have k: "int k \<le> ?c" using sent(1) by auto
  have 1: "budget_step cfg (impl s, M, d) (i, add_mset ?c M, d)"
    using budget_step.claims [OF sent(1) _ i] by simp
  have 2: "budget_step cfg (i, add_mset ?c M, d) (budget_return (?c - int k) i, M, d + int k)"
    using budget_step.reported [of ?c "add_mset ?c M" "int k" cfg i d] k by simp
  have "impl (snd (SendBudgeted cfg E bytes s)) = budget_return (?c - int k) i"
    using sent(4) i assms(2) k by (auto simp: budget_return_def)
  with 1 2 sent(4) show ?thesis by (simp add: converse_rtranclp_into_rtranclp)
next
  case (fails k what)
  let ?c = "min (int (length bytes)) (down_bytes_max cfg)"
  obtain i where i: "budget_claim cfg ?c (impl s) = (True, i)"
    using fails(2) assms(2) by (cases "budget_claim cfg ?c (impl s)") auto
  have 1: "budget_step cfg (impl s, M, d) (i, add_mset ?c M, d)"
    using budget_step.claims [OF fails(1) _ i] by simp
  have 2: "budget_step cfg (i, add_mset ?c M, d) (budget_return ?c i, M, d)"
    using budget_step.breaks [of ?c "add_mset ?c M" cfg i d] by simp
  have "impl (snd (SendBudgeted cfg E bytes s)) = budget_return ?c i"
    using fails(4) i assms(2) by simp
  with 1 2 fails(4) show ?thesis by (simp add: converse_rtranclp_into_rtranclp)
qed (simp_all add: assms(2))

end
