(* ===== verification/Example_Proxy.thy ===== *)
theory Example_Proxy
  imports Egress_Correct Example_Vendor
begin

text \<open>
  A proxy configuration, a network and a client's bytes, on which the theorems of the proxy are
  applied.  They model no code.
\<close>

definition example_proxy_cfg :: EgressProxyConfig where
  "example_proxy_cfg = \<lparr>socket_path = ''/p'', run_id = ''r1'', url_bytes_max = 100,
     down_bytes_max = 1000, require_auth = True, enable_local_fixture_rewrite = False,
     testsuite_loopback_ports = []\<rparr>"

text \<open>The name resolves to a loopback address and to a public one.\<close>

definition example_env :: proxy_env where
  "example_env = \<lparr>
     Resolve = (\<lambda>_. Some [sockaddr_in (Ip4 127 0 0 1) 0, sockaddr_in (Ip4 93 184 216 34) 0]),
     PrimaryAddressString = (\<lambda>_. ''ip''),
     Connect = (\<lambda>_ _. Connected),
     ClientSend = (\<lambda>_ b. Sent (length b)),
     UpstreamSend = (\<lambda>_ b. Sent (length b)),
     others = (\<lambda>_ i. i),
     relay_turn = (\<lambda>n. n mod 2 = 0)\<rparr>"

definition example_request :: string where
  "example_request = ''GET http://a.b/x H'' @ crlf @
     ''proxy-Authorization: basic r1:p'' @ crlf @ ''A: b '' @ crlf @ crlf"

definition example_impl :: Impl where
  "example_impl = \<lparr>down_bytes = 0, stopped = False, error_reason = None, cancel_tasks = False,
     accept_task = True, client_tasks = 1, listener_valid = True\<rparr>"

definition example_conn :: conn where
  "example_conn = \<lparr>impl = example_impl, io_calls = 0, client_in = [Data example_request],
     upstream_in = [Data ''ok'', Data []], client_out = [], upstream_out = [], connects = [],
     client_write_shut = False, upstream_write_shut = False, client_closed = False,
     upstream_closed = False\<rparr>"

lemma example_send_contract [simp]: "send_contract example_env"
  by (simp add: send_contract_def example_env_def)

lemma example_stop_is_final [simp]: "stop_is_final example_env"
  by (simp add: stop_is_final_def example_env_def)

lemma example_calm [simp]: "calm example_env"
  by (simp add: calm_def example_env_def)

lemma RecvSome_whole [simp]: "length b \<le> n \<Longrightarrow> RecvSome n (Data b # events) = (Some b, events)"
  by simp

lemma example_read_header:
  "read_header example_proxy_cfg example_env [] (interfere example_env example_conn) =
     (Some example_request,
      interfere example_env ((interfere example_env example_conn)\<lparr>client_in := []\<rparr>))"
proof -
  have "length example_request \<le> kIoBufferBytes" "example_request \<noteq> []"
    by (simp_all add: example_request_def crlf_def kIoBufferBytes_def)
  moreover have "find_str (crlf @ crlf) [] 0 = None" "find_str (crlf @ crlf) example_request 0 = Some 58"
    by code_simp+
  ultimately show ?thesis
    by (subst read_header_unfold)
      (simp add: read_header_unfold [of _ _ example_request] example_conn_def kMaxHeaderBytes_def
        Let_def del: interfere_simps(7,8))
qed

definition example_parsed :: ParsedRequest where
  "example_parsed = \<lparr>req_method = ''GET'', req_target = ''http://a.b/x'', req_version = ''H'',
     req_headers = [\<lparr>h_name = ''proxy-Authorization'', h_value = ''basic r1:p''\<rparr>,
       \<lparr>h_name = ''A'', h_value = ''b''\<rparr>], header_bytes = 62\<rparr>"

definition example_target :: HttpRequestTarget where
  "example_target = \<lparr>t_host = ''a.b'', t_port = 80, t_path = ''/x''\<rparr>"

lemma example_parse: "ParseHeaderBlock example_vendor example_request = Some example_parsed"
  by code_simp

lemma example_parse_target: "ParseHttpRequestTarget example_vendor example_parsed = Inr example_target"
  by code_simp

lemma example_authorized: "\<not> auth_fails example_vendor example_proxy_cfg example_parsed"
  by code_simp

lemma example_short: "length (req_target example_parsed) \<le> url_bytes_max example_proxy_cfg"
  by code_simp

lemma example_method: "\<not> ICaseEqual example_vendor (req_method example_parsed) ''CONNECT''"
  by code_simp

lemma example_no_length: "FindHeaderValue example_vendor (req_headers example_parsed) ''content-length'' = None"
  by code_simp

lemma example_resolve:
  "ResolveTcp example_vendor example_env ''a.b'' 80 False =
     Returns (Inr [\<lparr>ra_sockaddr = sockaddr_in (Ip4 93 184 216 34) 80, ra_ip = IpV4 (Ip4 93 184 216 34),
       ra_label = ''ip:80''\<rparr>])"
  by code_simp

lemma example_connects:
  "connects (snd (ConnectUpstream example_vendor example_proxy_cfg example_env ''a.b'' 80 s)) =
     connects s @ [sockaddr_in (Ip4 93 184 216 34) 80]"
proof -
  have "RewriteLocalFixtureIfNeeded example_proxy_cfg ''a.b'' 80 =
      \<lparr>connect_host = ''a.b'', connect_port = 80, allow_non_public = False\<rparr>"
    by (simp add: RewriteLocalFixtureIfNeeded_def example_proxy_cfg_def)
  moreover have "Connect example_env n a = Connected" for n a by (simp add: example_env_def)
  ultimately show ?thesis by (simp add: ConnectUpstream_def example_resolve)
qed

lemma example_served:
  "connects (snd (HandleClient example_vendor example_proxy_cfg example_env example_conn)) =
     [sockaddr_in (Ip4 93 184 216 34) 80]"
proof -
  let ?s = "interfere example_env ((interfere example_env example_conn)\<lparr>client_in := []\<rparr>)"
  have "HandleClient example_vendor example_proxy_cfg example_env example_conn =
      HandleHttp example_vendor example_proxy_cfg example_env example_parsed example_request ?s"
    using example_short example_authorized example_method
    by (simp add: HandleClient_def example_read_header example_parse Let_def)
      (simp add: example_env_def example_conn_def example_impl_def)
  moreover have "connects (snd (HandleHttp example_vendor example_proxy_cfg example_env example_parsed
      example_request ?s)) = connects ?s @ [sockaddr_in (Ip4 93 184 216 34) 80]"
    using HandleHttp_through [OF example_parse_target, of 0 example_proxy_cfg example_env example_request ?s]
    by (simp add: example_no_length example_target_def example_connects)
  ultimately show ?thesis by (simp add: example_conn_def)
qed

text \<open>A client of a proxy that was just made.\<close>

definition fresh_conn :: conn where
  "fresh_conn = example_conn\<lparr>impl := \<lparr>down_bytes = 0, stopped = False, error_reason = None,
     cancel_tasks = False, accept_task = False, client_tasks = 0, listener_valid = False\<rparr>\<rparr>"

lemma fresh_impl: "EgressProxy example_proxy_cfg = Returns (impl fresh_conn)"
  by (simp add: EgressProxy_def example_proxy_cfg_def fresh_conn_def)

end
