(* ===== verification/Zip_Archive.thy ===== *)
theory Zip_Archive
  imports Prelude
begin

text \<open>
  The library \<open>arkhiv\<close> (\<open>src/arkhiv\<close>): building and reading ZIP archives and compressing gzip
  members, over \<open>libarchive\<close>.  The functions of \<open>libarchive\<close> are parameters: a writer or reader
  handle is a value that each call returns updated, and what a writer hands to its output
  callback is part of the call's result.  The \<open>error_out\<close> parameter and the empty result of a
  failing function are the left side of a sum.
\<close>

section \<open>Errors\<close>

datatype ZipArchiveErrorCode =
  kNone | kWriterInitFailed | kReaderInitFailed | kOpenFailed | kMissingPath | kInvalidPath
| kUnsupportedEntryType | kInvalidEntrySize | kEntryTooLarge | kReadDataFailed | kTruncatedEntry
| kDuplicateEntry | kReadHeaderFailed | kWriteHeaderFailed | kWriteDataFailed | kFinishFailed

record ZipArchiveError =
  zip_code :: ZipArchiveErrorCode
  zip_detail :: string

definition Fail :: "ZipArchiveErrorCode \<Rightarrow> string \<Rightarrow> ZipArchiveError + 'a" where
  "Fail code detail = Inl \<lparr>zip_code = code, zip_detail = detail\<rparr>"

section \<open>libarchive\<close>

record archive_entry =
  entry_pathname :: string
  entry_perm :: nat
  entry_size :: nat

text \<open>
  The writer: each call says whether it returned \<open>ARCHIVE_OK\<close>, with the handle afterwards and the
  bytes given to \<open>AppendArchiveBytes\<close>.  \<open>entry_new\<close> says whether the allocation of an entry succeeds.
\<close>

record 'w archive_writer =
  write_new :: "'w option"
  set_format_zip :: "'w \<Rightarrow> bool \<times> 'w"
  set_compression_store :: "'w \<Rightarrow> bool \<times> 'w"
  set_format_raw :: "'w \<Rightarrow> bool \<times> 'w"
  add_filter_gzip :: "'w \<Rightarrow> bool \<times> 'w"
  write_open :: "'w \<Rightarrow> bool \<times> 'w \<times> string"
  entry_new :: "'w \<Rightarrow> bool"
  write_header :: "'w \<Rightarrow> archive_entry \<Rightarrow> bool \<times> 'w \<times> string"
  write_data :: "'w \<Rightarrow> string \<Rightarrow> int \<times> 'w \<times> string"
  write_close :: "'w \<Rightarrow> bool \<times> 'w \<times> string"
  write_error_string :: "'w \<Rightarrow> string option"

record read_entry =
  re_pathname :: "string option"
  re_size :: int
  re_regular :: bool
  re_symlink :: bool
  re_hardlink :: bool

datatype header_result = HeaderEof | HeaderError | HeaderEntry read_entry

datatype data_result = DataError | DataBytes string

record 'r archive_reader =
  read_new :: "'r option"
  support_format_zip :: "'r \<Rightarrow> bool \<times> 'r"
  open_memory :: "'r \<Rightarrow> string \<Rightarrow> bool \<times> 'r"
  next_header :: "'r \<Rightarrow> header_result \<times> 'r"
  read_data :: "'r \<Rightarrow> nat \<Rightarrow> data_result \<times> 'r"
  read_error_string :: "'r \<Rightarrow> string option"

definition FormatArchiveDetail :: "string option \<Rightarrow> string \<Rightarrow> string" where
  "FormatArchiveDetail archive_detail context =
     (case archive_detail of None \<Rightarrow> context | Some d \<Rightarrow> context @ '': '' @ d)"

section \<open>Paths\<close>

text \<open>The loop of \<open>IsAllowedZipPath\<close>, with the character class it rejects.\<close>

definition forbidden_char :: "char \<Rightarrow> bool" where
  "forbidden_char ch \<longleftrightarrow> ch = CHR 0x5C \<or> of_char ch < (0x20 :: nat) \<or> ch = CHR 0x7F"

function zip_path_loop :: "string \<Rightarrow> nat \<Rightarrow> nat \<Rightarrow> bool" where
  "zip_path_loop path index component_start =
     (if index > length path then True
      else if index < length path \<and> forbidden_char (path ! index) then False
      else if index < length path \<and> path ! index \<noteq> CHR ''/'' then
        zip_path_loop path (index + 1) component_start
      else let component_size = index - component_start in
        if component_size = 0 then False
        else let component = substr path component_start component_size in
          if component = ''.'' \<or> component = ''..'' then False
          else zip_path_loop path (index + 1) (index + 1))"
  by pat_completeness auto
termination
  by (relation "measure (\<lambda>(path, index, component_start). Suc (length path) - index)") auto

declare zip_path_loop.simps [simp del]

definition IsAllowedZipPath :: "string \<Rightarrow> bool" where
  "IsAllowedZipPath path =
     (if path = [] \<or> path = ''.'' \<or> path = ''..'' then False
      else if hd path = CHR ''/'' \<or> hd path = CHR 0x5C then False
      else if last path = CHR ''/'' \<or> last path = CHR 0x5C then False
      else zip_path_loop path 0 0)"

text \<open>The reference: no forbidden character, and every component names something below.\<close>

definition good_component :: "string \<Rightarrow> bool" where
  "good_component c \<longleftrightarrow> c \<noteq> [] \<and> c \<noteq> ''.'' \<and> c \<noteq> ''..''"

section \<open>Building\<close>

record StoredEntry =
  stored_path :: string
  stored_body :: string

record ZipArchiveBuilder =
  entries :: "StoredEntry list"
  entry_paths :: "string set"

definition new_builder :: ZipArchiveBuilder where
  "new_builder = \<lparr>entries = [], entry_paths = {}\<rparr>"

definition AddStoredFile ::
    "string \<Rightarrow> string \<Rightarrow> ZipArchiveBuilder \<Rightarrow> ZipArchiveError + ZipArchiveBuilder" where
  "AddStoredFile path body b =
     (if \<not> IsAllowedZipPath path then Fail kInvalidPath (''zip entry path is not allowed: '' @ path)
      else if path \<in> entry_paths b then Fail kDuplicateEntry (''duplicate zip entry: '' @ path)
      else Inr (b\<lparr>entries := entries b @ [\<lparr>stored_path = path, stored_body = body\<rparr>],
                 entry_paths := insert path (entry_paths b)\<rparr>))"

definition MakeZipWriter :: "'w archive_writer \<Rightarrow> ZipArchiveError + 'w" where
  "MakeZipWriter W =
     (case write_new W of
        None \<Rightarrow> Fail kWriterInitFailed ''failed to allocate zip writer''
      | Some w0 \<Rightarrow>
          let (ok, w1) = set_format_zip W w0 in
          if \<not> ok then Fail kWriterInitFailed
            (FormatArchiveDetail (write_error_string W w1) ''failed to enable zip writer'')
          else let (ok, w2) = set_compression_store W w1 in
            if \<not> ok then Fail kWriterInitFailed
              (FormatArchiveDetail (write_error_string W w2) ''failed to configure stored zip output'')
            else Inr w2)"

definition MakeRegularFileEntry ::
    "'w archive_writer \<Rightarrow> 'w \<Rightarrow> string \<Rightarrow> string \<Rightarrow> ZipArchiveError + archive_entry" where
  "MakeRegularFileEntry W w path body =
     (if \<not> entry_new W w then Fail kWriterInitFailed ''failed to allocate zip entry''
      else Inr \<lparr>entry_pathname = path, entry_perm = 420, entry_size = length body\<rparr>)"

text \<open>\<open>write_body\<close> is the part of the loop that writes a body that is not empty.\<close>

definition write_body ::
    "'w archive_writer \<Rightarrow> 'w \<Rightarrow> string \<Rightarrow> StoredEntry \<Rightarrow> ZipArchiveError + ('w \<times> string)" where
  "write_body W w out e =
     (if stored_body e = [] then Inr (w, out)
      else let (written, w', bytes) = write_data W w (stored_body e) in
        if written \<noteq> int (length (stored_body e))
        then Fail kWriteDataFailed (FormatArchiveDetail (write_error_string W w')
          (''failed to write zip body for '' @ stored_path e))
        else Inr (w', out @ bytes))"

fun write_entries ::
    "'w archive_writer \<Rightarrow> 'w \<Rightarrow> string \<Rightarrow> StoredEntry list \<Rightarrow> ZipArchiveError + ('w \<times> string)" where
  "write_entries W w out [] = Inr (w, out)"
| "write_entries W w out (e # es) =
     TRY (MakeRegularFileEntry W w (stored_path e) (stored_body e)) (\<lambda>entry.
       let (ok, w1, bytes) = write_header W w entry in
       if \<not> ok then Fail kWriteHeaderFailed (FormatArchiveDetail (write_error_string W w1)
         (''failed to write zip header for '' @ stored_path e))
       else TRY (write_body W w1 (out @ bytes) e) (\<lambda>(w2, out2). write_entries W w2 out2 es))"

definition Finish :: "'w archive_writer \<Rightarrow> ZipArchiveBuilder \<Rightarrow> ZipArchiveError + string" where
  "Finish W b =
     TRY (MakeZipWriter W) (\<lambda>w0.
       let (ok, w1, bytes) = write_open W w0 in
       if \<not> ok then Fail kOpenFailed
         (FormatArchiveDetail (write_error_string W w1) ''failed to open zip writer'')
       else TRY (write_entries W w1 bytes (entries b)) (\<lambda>(w2, out).
         let (ok, w3, bytes) = write_close W w2 in
         if \<not> ok then Fail kFinishFailed
           (FormatArchiveDetail (write_error_string W w3) ''failed to close zip writer'')
         else Inr (out @ bytes)))"

section \<open>Reading\<close>

definition MakeZipReader :: "'r archive_reader \<Rightarrow> ZipArchiveError + 'r" where
  "MakeZipReader R =
     (case read_new R of
        None \<Rightarrow> Fail kReaderInitFailed ''failed to allocate zip reader''
      | Some r0 \<Rightarrow>
          let (ok, r1) = support_format_zip R r0 in
          if \<not> ok then Fail kReaderInitFailed
            (FormatArchiveDetail (read_error_string R r1) ''failed to enable zip reader'')
          else Inr r1)"

text \<open>The loop of \<open>ReadEntryBytes\<close>: \<open>data\<close> is what was copied so far.\<close>

function read_loop ::
    "'r archive_reader \<Rightarrow> 'r \<Rightarrow> nat \<Rightarrow> string \<Rightarrow> ZipArchiveError + (string \<times> 'r)" where
  "read_loop R r n data =
     (if length data \<ge> n then Inr (data, r)
      else case read_data R r (n - length data) of
        (DataError, r') \<Rightarrow> Fail kReadDataFailed
          (FormatArchiveDetail (read_error_string R r') ''failed to read zip entry body'')
      | (DataBytes bytes, r') \<Rightarrow>
          if bytes = [] then Inr (data, r') else read_loop R r' n (data @ bytes))"
  by pat_completeness auto
termination
  by (relation "measure (\<lambda>(R, r, n, data). n - length data)") (auto simp: neq_Nil_conv)

declare read_loop.simps [simp del]

definition ReadEntryBytes ::
    "'r archive_reader \<Rightarrow> 'r \<Rightarrow> read_entry \<Rightarrow> ZipArchiveError + (string \<times> 'r)" where
  "ReadEntryBytes R r entry =
     (if re_size entry < 0 then Fail kInvalidEntrySize ''zip entry size must not be negative''
      else if re_size entry > 2 ^ 64 - 1
      then Fail kEntryTooLarge ''zip entry is too large to fit in memory''
      else TRY (read_loop R r (nat (re_size entry)) []) (\<lambda>(data, r').
        if length data \<noteq> nat (re_size entry)
        then Fail kTruncatedEntry ''zip entry body was truncated'' else Inr (data, r')))"

record ZipArchive =
  files :: "string \<rightharpoonup> string"
  paths :: "string list"

text \<open>The checks on an entry before its body is read.\<close>

definition check_entry :: "(string \<rightharpoonup> string) \<Rightarrow> read_entry \<Rightarrow> ZipArchiveError + string" where
  "check_entry files_out entry =
     (case re_pathname entry of
        None \<Rightarrow> Fail kMissingPath ''zip entry is missing a pathname''
      | Some path \<Rightarrow>
          if \<not> IsAllowedZipPath path
          then Fail kInvalidPath (''zip entry path is not allowed: '' @ path)
          else if \<not> re_regular entry
          then Fail kUnsupportedEntryType (''zip entry is not a regular file: '' @ path)
          else if re_symlink entry \<or> re_hardlink entry
          then Fail kUnsupportedEntryType (''zip entry must not be a link: '' @ path)
          else if files_out path \<noteq> None
          then Fail kDuplicateEntry (''duplicate zip entry: '' @ path)
          else Inr path)"

text \<open>
  The loop of \<open>FromBytes\<close> runs until the reader reports the end, so it may not return: \<open>None\<close>.
\<close>

partial_function (option) read_entries ::
    "'r archive_reader \<Rightarrow> 'r \<Rightarrow> (string \<rightharpoonup> string) \<Rightarrow> string list \<Rightarrow>
     (ZipArchiveError + ZipArchive) option" where
  "read_entries R r files_out paths_out =
     (case next_header R r of
        (HeaderEof, r1) \<Rightarrow> Some (Inr \<lparr>files = files_out, paths = paths_out\<rparr>)
      | (HeaderError, r1) \<Rightarrow> Some (Fail kReadHeaderFailed
          (FormatArchiveDetail (read_error_string R r1) ''failed to read zip entry header''))
      | (HeaderEntry entry, r1) \<Rightarrow>
          (case check_entry files_out entry of
             Inl e \<Rightarrow> Some (Inl e)
           | Inr path \<Rightarrow>
               (case ReadEntryBytes R r1 entry of
                  Inl e \<Rightarrow> Some (Inl e)
                | Inr (body, r2) \<Rightarrow>
                    read_entries R r2 (files_out(path \<mapsto> body)) (paths_out @ [path]))))"

definition ZipArchive_FromBytes ::
    "'r archive_reader \<Rightarrow> string \<Rightarrow> (ZipArchiveError + ZipArchive) option" where
  "ZipArchive_FromBytes R bytes =
     (case MakeZipReader R of
        Inl e \<Rightarrow> Some (Inl e)
      | Inr r0 \<Rightarrow>
          let (ok, r1) = open_memory R r0 bytes in
          if \<not> ok then Some (Fail kOpenFailed
            (FormatArchiveDetail (read_error_string R r1) ''failed to open zip archive from memory''))
          else read_entries R r1 (\<lambda>_. None) [])"

definition FindFile :: "string \<Rightarrow> ZipArchive \<Rightarrow> string option" where
  "FindFile path z = files z path"

definition EntryPathsInOrder :: "ZipArchive \<Rightarrow> string list" where
  "EntryPathsInOrder z = paths z"

section \<open>gzip members\<close>

datatype GzipErrorCode =
  kGzipNone | kGzipWriterInitFailed | kGzipOpenFailed | kGzipWriteHeaderFailed
| kGzipWriteDataFailed | kGzipFinishFailed

record GzipError =
  gzip_code :: GzipErrorCode
  gzip_detail :: string

definition gzip_fail :: "GzipErrorCode \<Rightarrow> string \<Rightarrow> GzipError + 'a" where
  "gzip_fail code detail = Inl \<lparr>gzip_code = code, gzip_detail = detail\<rparr>"

definition MakeEntry :: "'w archive_writer \<Rightarrow> 'w \<Rightarrow> nat \<Rightarrow> archive_entry option" where
  "MakeEntry W w n =
     (if \<not> entry_new W w then None
      else Some \<lparr>entry_pathname = ''member'', entry_perm = 420, entry_size = n\<rparr>)"

definition GzipCompressMember :: "'w archive_writer \<Rightarrow> string \<Rightarrow> GzipError + string" where
  "GzipCompressMember W body =
     (case write_new W of
        None \<Rightarrow> gzip_fail kGzipWriterInitFailed ''failed to allocate gzip writer''
      | Some w0 \<Rightarrow>
          let (ok, w1) = set_format_raw W w0 in
          if \<not> ok then gzip_fail kGzipWriterInitFailed
            (FormatArchiveDetail (write_error_string W w1) ''failed to enable raw output'')
          else let (ok, w2) = add_filter_gzip W w1 in
          if \<not> ok then gzip_fail kGzipWriterInitFailed
            (FormatArchiveDetail (write_error_string W w2) ''failed to enable gzip filter'')
          else let (ok, w3, out) = write_open W w2 in
          if \<not> ok then gzip_fail kGzipOpenFailed
            (FormatArchiveDetail (write_error_string W w3) ''failed to open gzip writer'')
          else (case MakeEntry W w3 (length body) of
              None \<Rightarrow> gzip_fail kGzipWriterInitFailed ''failed to allocate gzip entry''
            | Some entry \<Rightarrow>
                let (ok, w4, head) = write_header W w3 entry in
                if \<not> ok then gzip_fail kGzipWriteHeaderFailed
                  (FormatArchiveDetail (write_error_string W w4) ''failed to write gzip header'')
                else let (written, w5, data) =
                    (if body = [] then (0, w4, []) else write_data W w4 body) in
                if written \<noteq> int (length body) then gzip_fail kGzipWriteDataFailed
                  (FormatArchiveDetail (write_error_string W w5) ''failed to write gzip body'')
                else let (ok, w6, tail) = write_close W w5 in
                if \<not> ok then gzip_fail kGzipFinishFailed
                  (FormatArchiveDetail (write_error_string W w6) ''failed to close gzip writer'')
                else Inr (out @ head @ data @ tail)))"

section \<open>Allowed paths\<close>

lemma forbidden_slash [simp]: "\<not> forbidden_char CHR ''/''"
  by (simp add: forbidden_char_def)

lemma zip_path_loop_iff:
  assumes "component_start \<le> index" and "index \<le> length path"
    and "CHR ''/'' \<notin> set (substr path component_start (index - component_start))"
  shows "zip_path_loop path index component_start \<longleftrightarrow>
    list_all (\<lambda>ch. \<not> forbidden_char ch) (drop index path) \<and>
    list_all good_component (split_on CHR ''/'' (drop component_start path))"
  using assms
proof (induction path index component_start rule: zip_path_loop.induct)
  case (1 path index start)
  define head where "head = substr path start (index - start)"
  have d: "drop start path = head @ drop index path"
    using "1.prems" by (simp add: head_def substr_def) (metis append_take_drop_id drop_drop le_add_diff_inverse2)
  have nh: "CHR ''/'' \<notin> set head" using "1.prems" by (simp add: head_def)
  show ?case
  proof (cases "index < length path")
    case False
    then have "index = length path" using "1.prems" by simp
    then show ?thesis
      using nh d by (subst zip_path_loop.simps)
        (auto simp: zip_path_loop.simps [of path "Suc (length path)"] head_def [symmetric]
          split_on_no_sep good_component_def Let_def head_def)
  next
    case True
    let ?ch = "path ! index"
    have di: "drop index path = ?ch # drop (Suc index) path" using True by (rule Cons_nth_drop_Suc [symmetric])
    show ?thesis
    proof (cases "forbidden_char ?ch")
      case True
      then show ?thesis using \<open>index < length path\<close> di by (subst zip_path_loop.simps) simp
    next
      case ok: False
      show ?thesis
      proof (cases "?ch = CHR ''/''")
        case False
        have s: "substr path start (Suc index - start) = head @ [?ch]"
          using "1.prems" True by (simp add: head_def substr_def Suc_diff_le take_Suc_conv_app_nth)
        have "zip_path_loop path (index + 1) start \<longleftrightarrow>
            list_all (\<lambda>ch. \<not> forbidden_char ch) (drop (Suc index) path) \<and>
            list_all good_component (split_on CHR ''/'' (drop start path))"
          using "1.IH"(1) ok False True "1.prems" nh s by simp
        then show ?thesis using ok False True di by (subst zip_path_loop.simps) simp
      next
        case slash: True
        have sp: "split_on CHR ''/'' (drop start path) = head # split_on CHR ''/'' (drop (Suc index) path)"
          using d di slash split_on_append_Cons [OF nh] by simp
        have l: "length head = index - start" using "1.prems" by (simp add: head_def substr_def)
        show ?thesis
        proof (cases "good_component head")
          case True
          then have h: "index - start \<noteq> 0" "substr path start (index - start) \<noteq> ''.''"
            "substr path start (index - start) \<noteq> ''..''"
            using l by (auto simp: good_component_def head_def)
          have "zip_path_loop path (index + 1) (index + 1) \<longleftrightarrow>
              list_all (\<lambda>ch. \<not> forbidden_char ch) (drop (Suc index) path) \<and>
              list_all good_component (split_on CHR ''/'' (drop (Suc index) path))"
            using "1.IH"(2) slash \<open>index < length path\<close> h by (simp add: substr_def [of path "Suc index"])
          then show ?thesis
            using True slash \<open>index < length path\<close> sp di l
            by (subst zip_path_loop.simps) (auto simp: Let_def head_def good_component_def)
        next
          case False
          then show ?thesis
            using slash \<open>index < length path\<close> sp l
            by (subst zip_path_loop.simps) (auto simp: Let_def head_def good_component_def)
        qed
      qed
    qed
  qed
qed

lemma IsAllowedZipPath_iff:
  "IsAllowedZipPath path \<longleftrightarrow>
     list_all (\<lambda>ch. \<not> forbidden_char ch) path \<and> list_all good_component (split_on CHR ''/'' path)"
proof -
  let ?ref = "list_all (\<lambda>ch. \<not> forbidden_char ch) path \<and> list_all good_component (split_on CHR ''/'' path)"
  have loop: "zip_path_loop path 0 0 \<longleftrightarrow> ?ref"
    using zip_path_loop_iff [of 0 0 path] by (simp add: substr_def)
  have "path \<noteq> [] \<and> path \<noteq> ''.'' \<and> path \<noteq> ''..''" if ?ref
    using that by (auto simp: good_component_def)
  moreover have "hd path \<noteq> CHR ''/''" if ?ref
    using that by (cases path) (auto simp: good_component_def split: if_splits)
  moreover have "last path \<noteq> CHR ''/''" if ?ref
  proof
    assume "last path = CHR ''/''"
    moreover have "path \<noteq> []" using that by (auto simp: good_component_def)
    ultimately have "path = butlast path @ [CHR ''/'']" by (metis append_butlast_last_id)
    then have "split_on CHR ''/'' path = split_on CHR ''/'' (butlast path) @ [[]]"
      using split_on_snoc_sep by metis
    with that show False by (auto simp: list_all_iff good_component_def)
  qed
  moreover have "hd path \<noteq> CHR 0x5C \<and> last path \<noteq> CHR 0x5C" if ?ref
    using that by (cases path) (auto simp: list_all_iff forbidden_char_def good_component_def)
  ultimately show ?thesis unfolding IsAllowedZipPath_def loop by auto
qed

section \<open>Round trip\<close>

text \<open>What a reader brings: the entries in order, each body in pieces, then the end.\<close>

inductive reads :: "'r archive_reader \<Rightarrow> 'r \<Rightarrow> string \<Rightarrow> 'r \<Rightarrow> bool" for R where
  reads_Nil: "reads R r [] r"
| reads_piece: "read_data R r (length bytes + length rest) = (DataBytes bytes, r1) \<Longrightarrow> bytes \<noteq> [] \<Longrightarrow>
     reads R r1 rest r2 \<Longrightarrow> reads R r (bytes @ rest) r2"

inductive brings :: "'r archive_reader \<Rightarrow> 'r \<Rightarrow> StoredEntry list \<Rightarrow> bool" for R where
  brings_end: "next_header R r = (HeaderEof, r1) \<Longrightarrow> brings R r []"
| brings_entry: "next_header R r = (HeaderEntry h, r1) \<Longrightarrow> re_pathname h = Some (stored_path e) \<Longrightarrow>
     re_size h = int (length (stored_body e)) \<Longrightarrow> re_regular h \<Longrightarrow> \<not> re_symlink h \<Longrightarrow> \<not> re_hardlink h \<Longrightarrow>
     reads R r1 (stored_body e) r2 \<Longrightarrow> brings R r2 es \<Longrightarrow> brings R r (e # es)"

text \<open>
  The documented behaviour of \<open>libarchive\<close> the round trip rests on: a reader opens what a writer
  produced and brings the entries that were written.
\<close>

definition zip_contract :: "'w archive_writer \<Rightarrow> 'r archive_reader \<Rightarrow> bool" where
  "zip_contract W R \<longleftrightarrow>
     (\<exists>r0. MakeZipReader R = Inr r0 \<and>
       (\<forall>b out. Finish W b = Inr out \<longrightarrow>
          (\<exists>r1. open_memory R r0 out = (True, r1) \<and> brings R r1 (entries b))))"

lemma read_loop_reads:
  "reads R r rest r' \<Longrightarrow> read_loop R r (length data + length rest) data = Inr (data @ rest, r')"
proof (induction arbitrary: data rule: reads.induct)
  case (reads_Nil r)
  then show ?case by (subst read_loop.simps) simp
next
  case (reads_piece r bytes rest r1 r2)
  have "read_loop R r1 (length (data @ bytes) + length rest) (data @ bytes) = Inr ((data @ bytes) @ rest, r2)"
    by (rule reads_piece.IH)
  with reads_piece.hyps show ?case by (subst read_loop.simps) (simp add: ac_simps)
qed

lemma ReadEntryBytes_reads:
  assumes "reads R r body r'" and "re_size h = int (length body)" and "length body < 2 ^ 64"
  shows "ReadEntryBytes R r h = Inr (body, r')"
proof -
  have "int (length body) \<le> 2 ^ 64 - 1" using assms(3) by simp
  then show ?thesis
    using read_loop_reads [OF assms(1), of "[]"] assms(2) by (simp add: ReadEntryBytes_def)
qed

lemma read_entries_brings:
  assumes "brings R r es"
    and "\<forall>e\<in>set es. IsAllowedZipPath (stored_path e) \<and> length (stored_body e) < 2 ^ 64"
    and "distinct (map stored_path es)" and "\<forall>e\<in>set es. fs (stored_path e) = None"
  shows "read_entries R r fs ps = Some (Inr \<lparr>
    files = fs ++ map_of (map (\<lambda>e. (stored_path e, stored_body e)) es),
    paths = ps @ map stored_path es\<rparr>)"
  using assms
proof (induction arbitrary: fs ps rule: brings.induct)
  case (brings_end r r1)
  then show ?case by (subst read_entries.simps) simp
next
  case (brings_entry r h r1 e r2 es)
  let ?p = "stored_path e" and ?b = "stored_body e"
  have c: "check_entry fs h = Inr ?p" using brings_entry by (simp add: check_entry_def)
  have b: "ReadEntryBytes R r1 h = Inr (?b, r2)"
    using brings_entry.prems(1)
    by (intro ReadEntryBytes_reads [OF brings_entry.hyps(7,3)]) simp
  have "read_entries R r fs ps = read_entries R r2 (fs(?p \<mapsto> ?b)) (ps @ [?p])"
    using brings_entry.hyps(1) c b by (subst read_entries.simps) simp
  also have "\<dots> = Some (Inr \<lparr>
      files = fs(?p \<mapsto> ?b) ++ map_of (map (\<lambda>e. (stored_path e, stored_body e)) es),
      paths = (ps @ [?p]) @ map stored_path es\<rparr>)"
    using brings_entry.prems by (intro brings_entry.IH) (auto simp: image_iff)
  also have "fs(?p \<mapsto> ?b) ++ map_of (map (\<lambda>e. (stored_path e, stored_body e)) es) =
      fs ++ map_of (map (\<lambda>e. (stored_path e, stored_body e)) (e # es))"
  proof -
    have "?p \<notin> dom (map_of (map (\<lambda>e. (stored_path e, stored_body e)) es))"
      using brings_entry.prems(2) by (auto simp: dom_map_of_conv_image_fst image_image)
    then show ?thesis by (simp add: map_add_upd_left)
  qed
  finally show ?case by (simp only: append.assoc append.simps list.map)
qed

text \<open>The builder's invariant.\<close>

definition builder_ok :: "ZipArchiveBuilder \<Rightarrow> bool" where
  "builder_ok b \<longleftrightarrow>
     entry_paths b = set (map stored_path (entries b)) \<and> distinct (map stored_path (entries b)) \<and>
     (\<forall>e\<in>set (entries b). IsAllowedZipPath (stored_path e))"

lemma new_builder_ok: "builder_ok new_builder"
  by (simp add: builder_ok_def new_builder_def)

lemma AddStoredFile_ok: "builder_ok b \<Longrightarrow> AddStoredFile path body b = Inr b' \<Longrightarrow> builder_ok b'"
  by (auto simp: builder_ok_def AddStoredFile_def Fail_def split: if_splits)

fun add_files :: "(string \<times> string) list \<Rightarrow> ZipArchiveBuilder \<Rightarrow> ZipArchiveError + ZipArchiveBuilder" where
  "add_files [] b = Inr b"
| "add_files ((path, body) # fs) b = TRY (AddStoredFile path body b) (\<lambda>b'. add_files fs b')"

lemma add_files_entries:
  "add_files fs b = Inr b' \<Longrightarrow> builder_ok b \<Longrightarrow> builder_ok b' \<and>
     entries b' = entries b @ map (\<lambda>(p, s). \<lparr>stored_path = p, stored_body = s\<rparr>) fs"
proof (induction fs arbitrary: b)
  case (Cons f fs)
  obtain p s where f: "f = (p, s)" by fastforce
  with Cons.prems obtain b1 where b1: "AddStoredFile p s b = Inr b1" "add_files fs b1 = Inr b'"
    by (auto simp: TRY_Inr_iff)
  then have "entries b1 = entries b @ [\<lparr>stored_path = p, stored_body = s\<rparr>]"
    by (auto simp: AddStoredFile_def Fail_def split: if_splits)
  with Cons.IH [OF b1(2) AddStoredFile_ok [OF Cons.prems(2) b1(1)]] f show ?case by simp
qed simp

lemma zip_files_read_back:
  assumes "zip_contract W R" and "add_files fs new_builder = Inr b" and "Finish W b = Inr out"
    and "\<forall>f\<in>set fs. length (snd f) < 2 ^ 64"
  shows "\<exists>z. ZipArchive_FromBytes R out = Some (Inr z) \<and> EntryPathsInOrder z = map fst fs \<and>
    (\<forall>p. FindFile p z = map_of fs p)"
proof -
  have ok: "builder_ok b" and e: "entries b = map (\<lambda>(p, s). \<lparr>stored_path = p, stored_body = s\<rparr>) fs"
    using add_files_entries [OF assms(2) new_builder_ok] by (simp_all add: new_builder_def)
  from assms(1,3) obtain r0 r1 where r: "MakeZipReader R = Inr r0" "open_memory R r0 out = (True, r1)"
    "brings R r1 (entries b)" unfolding zip_contract_def by blast
  have "read_entries R r1 (\<lambda>_. None) [] = Some (Inr \<lparr>
      files = Map.empty ++ map_of (map (\<lambda>e. (stored_path e, stored_body e)) (entries b)),
      paths = [] @ map stored_path (entries b)\<rparr>)"
    using ok assms(4) by (intro read_entries_brings [OF r(3)]) (auto simp: builder_ok_def e)
  moreover have "map (\<lambda>e. (stored_path e, stored_body e)) (entries b) = fs"
    "map stored_path (entries b) = map fst fs"
    by (auto simp: e intro!: map_idI)
  ultimately show ?thesis
    using r by (simp add: ZipArchive_FromBytes_def FindFile_def EntryPathsInOrder_def)
qed

end
