(* ===== verification/Artifacts.thy ===== *)
theory Artifacts
  imports Zip_Archive Url Integers "HOL-Library.Multiset"
begin

text \<open>
  \<open>src/crawler/artifacts.cpp\<close>: the archive of a capture (WARC records, their CDX index, the WACZ
  package) and the fingerprint that tells whether two captures have the same content.

  Header maps are association lists in the order the map iterates.  What the code takes from
  userver is in the record \<open>artifact_env\<close>: hashing, generated identifiers, times, names of status
  codes, JSON text; so are the iteration order of a new map and the order \<open>std::ranges::sort\<close> gives to
  equal elements.
\<close>

section \<open>Data\<close>

type_synonym headers = "(string \<times> string) list"

datatype ReusedBrowser = ReusedNo | ReusedYes

datatype ArtifactErrorCode = kGzipFailed | kZipFailed

record ArtifactError =
  art_code :: ArtifactErrorCode
  art_detail :: string

record CapturedMainDocumentRedirect =
  rd_url :: string
  rd_status :: int
  rd_message :: string
  rd_headers :: headers
  rd_timestamp :: string

record CapturedResource =
  rs_url :: string
  rs_method :: string
  rs_type :: "string option"
  rs_status :: int
  rs_message :: string
  rs_headers :: headers
  rs_body :: string
  rs_timestamp :: string

record CapturedExchange =
  ex_seed_url :: string
  ex_page_id :: string
  ex_final_url :: string
  ex_status :: int
  ex_message :: string
  ex_headers :: headers
  ex_body :: string
  ex_timestamp :: string
  ex_redirect_chain :: "string list"
  ex_redirects :: "CapturedMainDocumentRedirect list"
  ex_resources :: "CapturedResource list"
  ex_title :: "string option"

record RunRequest =
  run_seed_url :: string

record WarcCdxRecord =
  cdx_url :: string
  cdx_timestamp :: string
  cdx_digest :: string
  cdx_record_digest :: string
  cdx_status :: int
  cdx_headers :: headers
  cdx_offset :: int
  cdx_length :: int

record WarcBuildOutput =
  warc_bytes :: string
  cdx_records :: "WarcCdxRecord list"

record SerializableResponse =
  sr_url :: string
  sr_method :: string
  sr_page_id :: string
  sr_type :: "string option"
  sr_status :: int
  sr_message :: string
  sr_headers :: headers
  sr_body :: string
  sr_timestamp :: string

record CdxLine =
  line_key :: string
  line_timestamp :: string
  line_json :: string

datatype json = JString string | JInt int | JBool bool | JObject "(string \<times> json) list"

text \<open>The transfer objects of \<open>schema/wacz.yaml\<close> and \<open>schema/browsertrix_pages.yaml\<close>.\<close>

record WaczResource =
  wr_name :: string
  wr_path :: string
  wr_hash :: string
  wr_bytes :: int

record WaczDataPackage =
  wd_profile :: string
  wd_resources :: "WaczResource list"
  wd_version :: string
  wd_title :: string
  wd_software :: string
  wd_created :: int
  wd_modified :: int

record BrowsertrixPageEntry =
  pe_id :: string
  pe_url :: string
  pe_title :: string
  pe_load_state :: int
  pe_mime :: string
  pe_seed :: bool
  pe_ts :: int
  pe_status :: int
  pe_depth :: int

text \<open>
  \<open>StatusCodeString\<close> is \<open>None\<close> for a number that does not fit the enumeration's underlying type;
  \<open>record_uuid n\<close> is the text of the \<open>n\<close>-th generated identifier.
\<close>

record artifact_env =
  Sha256 :: "string \<Rightarrow> string"
  Sha256Hex :: "string \<Rightarrow> string"
  record_uuid :: "nat \<Rightarrow> string"
  FromRfc3339StringSaturating :: "string \<Rightarrow> int"
  UtcTimestring :: "int \<Rightarrow> string"
  StatusCodeString :: "int \<Rightarrow> string option"
  json_text :: "json \<Rightarrow> string"
  page_entry_text :: "BrowsertrixPageEntry \<Rightarrow> string"
  data_package_text :: "WaczDataPackage \<Rightarrow> string"
  header_order :: "headers \<Rightarrow> headers"
  sort_responses :: "SerializableResponse list \<Rightarrow> SerializableResponse list"
  sort_lines :: "CdxLine list \<Rightarrow> CdxLine list"
  created_at :: int

text \<open>\<open>object[key] = value\<close> of a JSON value builder.\<close>

fun json_set :: "string \<Rightarrow> json \<Rightarrow> (string \<times> json) list \<Rightarrow> (string \<times> json) list" where
  "json_set k v [] = [(k, v)]"
| "json_set k v ((k', v') # ms) = (if k' = k then (k, v) # ms else (k', v') # json_set k v ms)"

section \<open>Helpers\<close>

definition kUserAgent :: string where "kUserAgent = ''webshotd''"

definition kWarcPath :: string where "kWarcPath = ''archive/data.warc.gz''"

definition kWarcFilename :: string where "kWarcFilename = ''data.warc.gz''"

definition kIndexPath :: string where "kIndexPath = ''indexes/index.cdx''"

definition eol :: string where "eol = [CHR 0x0D, CHR 0x0A]"

definition Sha256Bytes :: "artifact_env \<Rightarrow> string \<Rightarrow> string" where
  "Sha256Bytes E data = Sha256 E data"

definition Sha256BytesOf :: "artifact_env \<Rightarrow> string list \<Rightarrow> string" where
  "Sha256BytesOf E data = Sha256 E (concat data)"

definition Sha256PrefixedHex :: "artifact_env \<Rightarrow> string \<Rightarrow> string \<Rightarrow> string" where
  "Sha256PrefixedHex E data pre = pre @ Sha256Hex E data"

definition GzipMember :: "'w archive_writer \<Rightarrow> string \<Rightarrow> ArtifactError + string" where
  "GzipMember W body =
     (case GzipCompressMember W body of
        Inl error \<Rightarrow> Inl \<lparr>art_code = kGzipFailed, art_detail = gzip_detail error\<rparr>
      | Inr bytes \<Rightarrow> Inr bytes)"

definition ExtractHtmlTitle :: "string \<Rightarrow> string" where
  "ExtractHtmlTitle body =
     (case find_str ''<title'' body 0 of
        None \<Rightarrow> []
      | Some open_pos \<Rightarrow>
          (case find_char CHR ''>'' body open_pos of
             None \<Rightarrow> []
           | Some start \<Rightarrow>
               (case find_str ''</title>'' body (start + 1) of
                  None \<Rightarrow> []
                | Some end_pos \<Rightarrow> substr body (start + 1) (end_pos - start - 1))))"

definition ToCdxTimestamp :: "('u, 'z) vendor_scheme \<Rightarrow> artifact_env \<Rightarrow> string \<Rightarrow> string outcome" where
  "ToCdxTimestamp V E rfc3339 =
     deref_text V (UtcTimestring E (FromRfc3339StringSaturating E rfc3339))"

definition NormalizeResponseHeaders :: "artifact_env \<Rightarrow> headers \<Rightarrow> headers" where
  "NormalizeResponseHeaders E hs =
     header_order E (filter (\<lambda>(name, value).
       \<not> (name = ''content-encoding'' \<or> name = ''content-length'' \<or> name = ''transfer-encoding'')) hs)"

definition MakeRedirectResponse :: "CapturedMainDocumentRedirect \<Rightarrow> SerializableResponse" where
  "MakeRedirectResponse redirect = \<lparr>sr_url = rd_url redirect, sr_method = ''GET'', sr_page_id = [],
     sr_type = Some ''Document'', sr_status = rd_status redirect, sr_message = rd_message redirect,
     sr_headers = rd_headers redirect, sr_body = [], sr_timestamp = rd_timestamp redirect\<rparr>"

definition MakeMainDocumentResponse :: "CapturedExchange \<Rightarrow> SerializableResponse" where
  "MakeMainDocumentResponse exchange = \<lparr>sr_url = ex_final_url exchange, sr_method = ''GET'',
     sr_page_id = ex_page_id exchange, sr_type = Some ''Document'', sr_status = ex_status exchange,
     sr_message = ex_message exchange, sr_headers = ex_headers exchange, sr_body = ex_body exchange,
     sr_timestamp = ex_timestamp exchange\<rparr>"

definition MakeResourceResponse :: "CapturedResource \<Rightarrow> SerializableResponse" where
  "MakeResourceResponse resource = \<lparr>sr_url = rs_url resource, sr_method = rs_method resource,
     sr_page_id = [], sr_type = rs_type resource, sr_status = rs_status resource,
     sr_message = rs_message resource, sr_headers = rs_headers resource, sr_body = rs_body resource,
     sr_timestamp = rs_timestamp resource\<rparr>"

definition ContentTypeForHeaders :: "headers \<Rightarrow> string" where
  "ContentTypeForHeaders hs =
     (case map_of hs ''content-type'' of Some v \<Rightarrow> v | None \<Rightarrow> ''application/octet-stream'')"

definition PageTimestamp :: "CapturedExchange \<Rightarrow> string" where
  "PageTimestamp exchange =
     (case ex_redirects exchange of r # _ \<Rightarrow> rd_timestamp r | [] \<Rightarrow> ex_timestamp exchange)"

definition CollectSerializableResponses ::
    "artifact_env \<Rightarrow> CapturedExchange \<Rightarrow> SerializableResponse list" where
  "CollectSerializableResponses E exchange =
     sort_responses E
       (map (\<lambda>r. (MakeRedirectResponse r)\<lparr>sr_page_id := ex_page_id exchange\<rparr>) (ex_redirects exchange) @
        [MakeMainDocumentResponse exchange] @
        map (\<lambda>r. (MakeResourceResponse r)\<lparr>sr_page_id := ex_page_id exchange\<rparr>) (ex_resources exchange))"

section \<open>Records\<close>

text \<open>The lines both records of a pair have, and the optional ones.\<close>

definition optional_lines :: "SerializableResponse \<Rightarrow> string" where
  "optional_lines response =
     (if sr_page_id response = [] then [] else ''WARC-Page-ID: '' @ sr_page_id response @ eol) @
     (case sr_type response of None \<Rightarrow> [] | Some t \<Rightarrow> ''WARC-Resource-Type: '' @ t @ eol)"

definition SerializeRecordPair ::
    "('u, 'z) vendor_scheme \<Rightarrow> artifact_env \<Rightarrow> nat \<Rightarrow> SerializableResponse \<Rightarrow>
     (string \<times> string) outcome" where
  "SerializeRecordPair V E n response =
     (let response_record_id = ''urn:uuid:'' @ record_uuid E n;
          request_record_id = ''urn:uuid:'' @ record_uuid E (n + 1);
          normalized_headers = NormalizeResponseHeaders E (sr_headers response)
      in and_then
           (case FromBytes V (sr_url response) of
              Inl _ \<Rightarrow> Returns (''/'', [])
            | Inr url_text \<Rightarrow>
                (case Url_FromText V url_text of
                   None \<Rightarrow> Returns (''/'', [])
                 | Some u \<Rightarrow> and_then (PathWithSearch V u) (\<lambda>path.
                     and_then (Host V u) (\<lambda>host. Returns (path, host))))) (\<lambda>(request_path, request_host).
         and_then
           (if sr_message response = [] then
              (case StatusCodeString E (sr_status response) of
                 None \<Rightarrow> Aborts ''safe integer error: enum underlying overflow''
               | Some s \<Rightarrow> deref_text V s)
            else Returns (sr_message response)) (\<lambda>status_message.
         let http_response_head =
               ''HTTP/1.1 '' @ int_to_string (sr_status response) @ '' '' @ status_message @ eol @
               concat (map (\<lambda>(name, value). name @ '': '' @ value @ eol) normalized_headers) @ eol;
             response_header =
               ''WARC/1.1'' @ eol @ ''WARC-Type: response'' @ eol @
               ''WARC-Target-URI: '' @ sr_url response @ eol @
               ''WARC-Date: '' @ sr_timestamp response @ eol @
               ''WARC-Record-ID: <'' @ response_record_id @ ''>'' @ eol @
               optional_lines response @
               ''Content-Type: application/http; msgtype=response'' @ eol @
               ''Content-Length: '' @
                 to_string (length http_response_head + length (sr_body response)) @ eol @
               eol @ http_response_head;
             request_payload =
               (if sr_method response = [] then ''GET'' else sr_method response) @ '' '' @
               request_path @ '' HTTP/1.1'' @ eol @ ''Host: '' @ request_host @ eol @
               ''User-Agent: '' @ kUserAgent @ eol @ eol;
             request_header =
               ''WARC/1.1'' @ eol @ ''WARC-Type: request'' @ eol @
               ''WARC-Target-URI: '' @ sr_url response @ eol @
               ''WARC-Date: '' @ sr_timestamp response @ eol @
               ''WARC-Record-ID: <'' @ request_record_id @ ''>'' @ eol @
               ''WARC-Concurrent-To: <'' @ response_record_id @ ''>'' @ eol @
               optional_lines response @
               ''Content-Type: application/http; msgtype=request'' @ eol @
               ''Content-Length: '' @ to_string (length request_payload) @ eol @
               eol @ request_payload @ eol
         in Returns (response_header @ sr_body response @ eol @ eol, request_header))))"

definition page_info_url_entry :: "int \<Rightarrow> headers \<Rightarrow> string option \<Rightarrow> json" where
  "page_info_url_entry status_code hs resource_type =
     (let mime = ContentTypeForHeaders hs in
      JObject ([(''status'', JInt status_code)] @
        (if mime \<noteq> [] then [(''mime'', JString mime)] else []) @
        (case resource_type of
           None \<Rightarrow> [] | Some t \<Rightarrow> if t \<noteq> [] then [(''type'', JString t)] else [])))"

definition page_url :: "CapturedExchange \<Rightarrow> string" where
  "page_url exchange =
     (if ex_seed_url exchange = [] then ex_final_url exchange else ex_seed_url exchange)"

definition MakePageInfoJsonBytes :: "artifact_env \<Rightarrow> CapturedExchange \<Rightarrow> string" where
  "MakePageInfoJsonBytes E exchange =
     (let urls = foldl (\<lambda>us r. json_set (rd_url r)
            (page_info_url_entry (rd_status r) (rd_headers r) (Some ''Document'')) us) []
            (ex_redirects exchange);
          urls = json_set (ex_final_url exchange)
            (page_info_url_entry (ex_status exchange) (ex_headers exchange) (Some ''Document'')) urls;
          urls = foldl (\<lambda>us r. json_set (rs_url r)
            (page_info_url_entry (rs_status r) (rs_headers r) (rs_type r)) us) urls
            (ex_resources exchange)
      in json_text E (JObject [(''pageid'', JString (ex_page_id exchange)),
           (''url'', JString (page_url exchange)), (''ts'', JString (PageTimestamp exchange)),
           (''urls'', JObject urls), (''counts'', JObject [(''jsErrors'', JInt 0)])]))"

definition SerializePageInfoRecord :: "artifact_env \<Rightarrow> nat \<Rightarrow> CapturedExchange \<Rightarrow> string" where
  "SerializePageInfoRecord E n exchange =
     (let payload = MakePageInfoJsonBytes E exchange in
      ''WARC/1.1'' @ eol @ ''WARC-Type: resource'' @ eol @
      ''WARC-Target-URI: urn:pageinfo:'' @ page_url exchange @ eol @
      ''WARC-Date: '' @ PageTimestamp exchange @ eol @
      ''WARC-Record-ID: <urn:uuid:'' @ record_uuid E n @ ''>'' @ eol @
      ''WARC-Page-ID: '' @ ex_page_id exchange @ eol @
      ''WARC-Resource-Type: pageinfo'' @ eol @
      ''Content-Type: application/json'' @ eol @
      ''Content-Length: '' @ to_string (length payload) @ eol @
      eol @ payload @ eol @ eol)"

definition CdxPayloadDigest :: "('u, 'z) vendor_scheme \<Rightarrow> artifact_env \<Rightarrow> string \<Rightarrow> string outcome" where
  "CdxPayloadDigest V E payload = deref_text V (Sha256PrefixedHex E payload ''sha-256:'')"

definition CdxRecordDigest :: "('u, 'z) vendor_scheme \<Rightarrow> artifact_env \<Rightarrow> string \<Rightarrow> string outcome" where
  "CdxRecordDigest V E record_bytes = deref_text V (Sha256PrefixedHex E record_bytes ''sha256:'')"

definition ToSurtKey :: "('u, 'z) vendor_scheme \<Rightarrow> string \<Rightarrow> string outcome" where
  "ToSurtKey V url_text =
     (case Url_FromText V url_text of
        None \<Rightarrow> Returns url_text
      | Some u \<Rightarrow> if \<not> IsHttpOrHttps V u then Returns url_text else Surt V u)"

definition MakeWaczIndexJsonBytes :: "artifact_env \<Rightarrow> WarcCdxRecord \<Rightarrow> string" where
  "MakeWaczIndexJsonBytes E r =
     json_text E (JObject [(''url'', JString (cdx_url r)), (''digest'', JString (cdx_digest r)),
       (''mime'', JString (ContentTypeForHeaders (cdx_headers r))),
       (''filename'', JString kWarcFilename), (''offset'', JInt (cdx_offset r)),
       (''length'', JInt (cdx_length r)), (''status'', JInt (cdx_status r)),
       (''recordDigest'', JString (cdx_record_digest r))])"

fun cdx_lines ::
    "('u, 'z) vendor_scheme \<Rightarrow> artifact_env \<Rightarrow> WarcCdxRecord list \<Rightarrow> CdxLine list outcome" where
  "cdx_lines V E [] = Returns []"
| "cdx_lines V E (r # rs) =
     and_then (ToSurtKey V (cdx_url r)) (\<lambda>key.
     and_then (cdx_lines V E rs) (\<lambda>ls.
       Returns (\<lparr>line_key = key, line_timestamp = cdx_timestamp r,
         line_json = MakeWaczIndexJsonBytes E r\<rparr> # ls)))"

definition MakeCdx ::
    "('u, 'z) vendor_scheme \<Rightarrow> artifact_env \<Rightarrow> WarcCdxRecord list \<Rightarrow> string outcome" where
  "MakeCdx V E records =
     and_then (cdx_lines V E records) (\<lambda>ls.
       Returns (concat (map (\<lambda>l. line_key l @ '' '' @ line_timestamp l @ '' '' @ line_json l @ [CHR 0x0A])
         (sort_lines E ls))))"

section \<open>The WARC file\<close>

text \<open>The loop over the responses: the bytes and index so far, and the identifiers used.\<close>

fun warc_loop ::
    "('u, 'z) vendor_scheme \<Rightarrow> 'w archive_writer \<Rightarrow> artifact_env \<Rightarrow> SerializableResponse list \<Rightarrow> nat \<Rightarrow>
     int \<Rightarrow> WarcBuildOutput \<Rightarrow> (ArtifactError + (WarcBuildOutput \<times> nat \<times> int)) outcome" where
  "warc_loop V W E [] n offset out = Returns (Inr (out, n, offset))"
| "warc_loop V W E (response # responses) n offset out =
     and_then (SerializeRecordPair V E n response) (\<lambda>(response_bytes, request_bytes).
     case GzipMember W response_bytes of
       Inl e \<Rightarrow> Returns (Inl e)
     | Inr response_gz \<Rightarrow>
     case GzipMember W request_bytes of
       Inl e \<Rightarrow> Returns (Inl e)
     | Inr request_gz \<Rightarrow>
     and_then (ToCdxTimestamp V E (sr_timestamp response)) (\<lambda>timestamp.
     and_then (CdxPayloadDigest V E (sr_body response)) (\<lambda>digest.
     and_then (CdxRecordDigest V E response_gz) (\<lambda>record_digest.
       warc_loop V W E responses (n + 2)
         (offset + (int (length response_gz) + int (length request_gz)))
         \<lparr>warc_bytes = warc_bytes out @ response_gz @ request_gz,
          cdx_records = cdx_records out @ [\<lparr>cdx_url = sr_url response, cdx_timestamp = timestamp,
            cdx_digest = digest, cdx_record_digest = record_digest, cdx_status = sr_status response,
            cdx_headers = sr_headers response, cdx_offset = offset,
            cdx_length = int (length response_gz)\<rparr>]\<rparr>))))"

definition MakeWarc ::
    "('u, 'z) vendor_scheme \<Rightarrow> 'w archive_writer \<Rightarrow> artifact_env \<Rightarrow> nat \<Rightarrow> CapturedExchange \<Rightarrow>
     (ArtifactError + WarcBuildOutput) outcome" where
  "MakeWarc V W E n exchange =
     and_then (warc_loop V W E (CollectSerializableResponses E exchange) n 0
       \<lparr>warc_bytes = [], cdx_records = []\<rparr>) (\<lambda>r.
     case r of
       Inl e \<Rightarrow> Returns (Inl e)
     | Inr (out, n, offset) \<Rightarrow>
     and_then (deref_text V (''urn:pageinfo:'' @ page_url exchange)) (\<lambda>page_info_url.
     case GzipMember W (SerializePageInfoRecord E n exchange) of
       Inl e \<Rightarrow> Returns (Inl e)
     | Inr page_info_gz \<Rightarrow>
     and_then (ToCdxTimestamp V E (PageTimestamp exchange)) (\<lambda>timestamp.
     and_then (CdxPayloadDigest V E (MakePageInfoJsonBytes E exchange)) (\<lambda>digest.
     and_then (CdxRecordDigest V E page_info_gz) (\<lambda>record_digest.
       Returns (Inr \<lparr>warc_bytes = warc_bytes out @ page_info_gz,
         cdx_records = cdx_records out @ [\<lparr>cdx_url = page_info_url, cdx_timestamp = timestamp,
           cdx_digest = digest, cdx_record_digest = record_digest, cdx_status = 200,
           cdx_headers = [(''content-type'', ''application/json'')], cdx_offset = offset,
           cdx_length = int (length page_info_gz)\<rparr>]\<rparr>))))))"

section \<open>The WACZ package\<close>

definition MakeWaczPagesBytes :: "artifact_env \<Rightarrow> string \<Rightarrow> string" where
  "MakeWaczPagesBytes E pages_jsonl =
     json_text E (JObject [(''format'', JString ''json-pages-1.0''), (''id'', JString ''pages''),
       (''title'', JString ''All Pages''), (''hasText'', JBool False)]) @ [CHR 0x0A] @ pages_jsonl"

definition MakeWaczResource :: "artifact_env \<Rightarrow> string \<Rightarrow> string \<Rightarrow> string \<Rightarrow> WaczResource" where
  "MakeWaczResource E name path body = \<lparr>wr_name = name, wr_path = path,
     wr_hash = Sha256PrefixedHex E body ''sha256:'', wr_bytes = int (length body)\<rparr>"

definition MakeWaczResources :: "artifact_env \<Rightarrow> string \<Rightarrow> string \<Rightarrow> string \<Rightarrow> WaczResource list" where
  "MakeWaczResources E warc pages_bytes cdx_bytes =
     [MakeWaczResource E ''pages.jsonl'' ''pages/pages.jsonl'' pages_bytes,
      MakeWaczResource E kWarcFilename kWarcPath warc,
      MakeWaczResource E ''index.cdx'' kIndexPath cdx_bytes]"

definition MakeWaczDataPackage ::
    "artifact_env \<Rightarrow> RunRequest \<Rightarrow> WaczResource list \<Rightarrow> WaczDataPackage" where
  "MakeWaczDataPackage E run resources = \<lparr>wd_profile = ''data-package'', wd_resources = resources,
     wd_version = ''1.1.1'', wd_title = run_seed_url run, wd_software = ''webshotd'',
     wd_created = created_at E, wd_modified = created_at E\<rparr>"

definition MakePagesJsonl :: "artifact_env \<Rightarrow> CapturedExchange \<Rightarrow> string" where
  "MakePagesJsonl E exchange =
     page_entry_text E \<lparr>pe_id = ex_page_id exchange, pe_url = ex_final_url exchange,
       pe_title = (case ex_title exchange of Some t \<Rightarrow> t | None \<Rightarrow> ExtractHtmlTitle (ex_body exchange)),
       pe_load_state = (if ex_status exchange \<ge> 200 \<and> ex_status exchange < 400 then 2 else 0),
       pe_mime = ContentTypeForHeaders (ex_headers exchange), pe_seed = True,
       pe_ts = FromRfc3339StringSaturating E (PageTimestamp exchange),
       pe_status = ex_status exchange, pe_depth = 0\<rparr> @ [CHR 0x0A]"

definition MakeSuccessStdoutLog ::
    "RunRequest \<Rightarrow> CapturedExchange \<Rightarrow> int \<Rightarrow> ReusedBrowser \<Rightarrow> string" where
  "MakeSuccessStdoutLog run exchange browser_pid reused_browser =
     ''browsertrix rewrite start'' @ [CHR 0x0A] @
     ''seed_url='' @ run_seed_url run @ [CHR 0x0A] @
     ''final_url='' @ ex_final_url exchange @ [CHR 0x0A] @
     ''status='' @ int_to_string (ex_status exchange) @ [CHR 0x0A] @
     ''redirects='' @ int_to_string (if ex_redirect_chain exchange = [] then 0
       else int (length (ex_redirect_chain exchange)) - 1) @ [CHR 0x0A] @
     ''browser_bin=chromium'' @ [CHR 0x0A] @
     ''browser_pid='' @ int_to_string browser_pid @ [CHR 0x0A] @
     ''reused_browser='' @ (if reused_browser = ReusedYes then ''true'' else ''false'') @ [CHR 0x0A] @
     ''browsertrix rewrite done'' @ [CHR 0x0A, CHR 0x0A]"

definition wacz_files ::
    "artifact_env \<Rightarrow> RunRequest \<Rightarrow> string \<Rightarrow> WarcBuildOutput \<Rightarrow> string \<Rightarrow> string \<Rightarrow> string \<Rightarrow>
     (string \<times> string) list" where
  "wacz_files E run pages_jsonl warc cdx stdout_log stderr_log =
     (let wacz_pages = MakeWaczPagesBytes E pages_jsonl;
          resources = MakeWaczResources E (warc_bytes warc) wacz_pages cdx;
          datapackage_json = data_package_text E (MakeWaczDataPackage E run resources)
      in [(''datapackage.json'', datapackage_json), (kWarcPath, warc_bytes warc),
          (''pages/pages.jsonl'', wacz_pages), (''logs/stdout.log'', stdout_log),
          (''logs/stderr.log'', stderr_log), (kIndexPath, cdx)])"

definition MakeWacz ::
    "('u, 'z) vendor_scheme \<Rightarrow> 'w archive_writer \<Rightarrow> artifact_env \<Rightarrow> RunRequest \<Rightarrow> string \<Rightarrow>
     WarcBuildOutput \<Rightarrow> string \<Rightarrow> string \<Rightarrow> (ArtifactError + string) outcome" where
  "MakeWacz V W E run pages_jsonl warc stdout_log stderr_log =
     and_then (MakeCdx V E (cdx_records warc)) (\<lambda>cdx.
       Returns (case TRY (add_files (wacz_files E run pages_jsonl warc cdx stdout_log stderr_log)
                       new_builder) (Finish W) of
                  Inl error \<Rightarrow> Inl \<lparr>art_code = kZipFailed, art_detail = zip_detail error\<rparr>
                | Inr zip_bytes \<Rightarrow> Inr zip_bytes))"

section \<open>The fingerprint\<close>

definition item_domain :: string where "item_domain = ''webshot.capture_hash.item''"

definition capture_domain :: string where "capture_domain = ''webshot.capture_hash''"

definition header_or_empty :: "headers \<Rightarrow> string \<Rightarrow> string" where
  "header_or_empty hs name = (case map_of hs name of Some v \<Rightarrow> v | None \<Rightarrow> [])"

definition main_digest :: "artifact_env \<Rightarrow> CapturedExchange \<Rightarrow> string" where
  "main_digest E exchange =
     Sha256BytesOf E [item_domain, ''main'', Sha256Bytes E (ex_final_url exchange),
       Sha256Bytes E (int_to_string (ex_status exchange)),
       Sha256Bytes E (header_or_empty (ex_headers exchange) ''content-type''),
       Sha256Bytes E (ex_body exchange)]"

definition redirect_digest :: "artifact_env \<Rightarrow> CapturedMainDocumentRedirect \<Rightarrow> string" where
  "redirect_digest E redirect =
     Sha256BytesOf E [item_domain, ''redirect'', Sha256Bytes E (rd_url redirect),
       Sha256Bytes E (int_to_string (rd_status redirect)),
       Sha256Bytes E (header_or_empty (rd_headers redirect) ''location'')]"

definition resource_digest :: "artifact_env \<Rightarrow> CapturedResource \<Rightarrow> string" where
  "resource_digest E resource =
     Sha256BytesOf E [item_domain, ''resource'', Sha256Bytes E (rs_url resource),
       Sha256Bytes E (if rs_method resource = [] then ''GET'' else rs_method resource),
       Sha256Bytes E (int_to_string (rs_status resource)),
       Sha256Bytes E (case rs_type resource of Some t \<Rightarrow> t | None \<Rightarrow> []),
       Sha256Bytes E (header_or_empty (rs_headers resource) ''content-type''),
       Sha256Bytes E (rs_body resource)]"

definition ComputeContentSha256 :: "artifact_env \<Rightarrow> CapturedExchange \<Rightarrow> string" where
  "ComputeContentSha256 E exchange =
     (let item_digests = [main_digest E exchange] @
        map (redirect_digest E) (ex_redirects exchange) @
        map (resource_digest E) (ex_resources exchange)
      in Sha256Bytes E (capture_domain @ concat (sort item_digests)))"

section \<open>The index points at the records\<close>

lemma step_ok_iff:
  "(case r of Inl e \<Rightarrow> Returns (Inl e) | Inr v \<Rightarrow> k v) = Returns (Inr y) \<longleftrightarrow>
     (\<exists>v. r = Inr v \<and> k v = Returns (Inr y))"
  by (cases r) auto

lemma error_as_iff: "(case r of Inl e \<Rightarrow> Inl (f e) | Inr v \<Rightarrow> Inr v) = Inr y \<longleftrightarrow> r = Inr y"
  by (cases r) auto

text \<open>
  The bytes an index entry points at, that they are inside the file, and that the digest of the
  entry is theirs.
\<close>

definition slice :: "string \<Rightarrow> WarcCdxRecord \<Rightarrow> string" where
  "slice bytes r = substr bytes (nat (cdx_offset r)) (nat (cdx_length r))"

definition indexed :: "('u, 'z) vendor_scheme \<Rightarrow> artifact_env \<Rightarrow> string \<Rightarrow> WarcCdxRecord \<Rightarrow> bool" where
  "indexed V E bytes r \<longleftrightarrow>
     0 \<le> cdx_offset r \<and> 0 \<le> cdx_length r \<and>
     cdx_offset r + cdx_length r \<le> int (length bytes) \<and>
     CdxRecordDigest V E (slice bytes r) = Returns (cdx_record_digest r)"

definition holds_record ::
    "('u, 'z) vendor_scheme \<Rightarrow> 'w archive_writer \<Rightarrow> artifact_env \<Rightarrow> string \<Rightarrow> SerializableResponse \<Rightarrow>
     WarcCdxRecord \<Rightarrow> bool" where
  "holds_record V W E bytes response r \<longleftrightarrow>
     cdx_url r = sr_url response \<and> indexed V E bytes r \<and>
     (\<exists>n text request. SerializeRecordPair V E n response = Returns (text, request) \<and>
        GzipMember W text = Inr (slice bytes r))"

lemma slice_append:
  "0 \<le> cdx_offset r \<Longrightarrow> 0 \<le> cdx_length r \<Longrightarrow> cdx_offset r + cdx_length r \<le> int (length bytes) \<Longrightarrow>
     slice (bytes @ rest) r = slice bytes r"
  by (simp add: slice_def substr_def nat_add_distrib [symmetric])

lemma indexed_append: "indexed V E bytes r \<Longrightarrow> indexed V E (bytes @ rest) r"
  by (auto simp: indexed_def slice_append)

lemma holds_record_append:
  "holds_record V W E bytes response r \<Longrightarrow> holds_record V W E (bytes @ rest) response r"
  by (auto simp: holds_record_def indexed_append) (auto simp: indexed_def slice_append)

lemma slice_here:
  "cdx_offset r = int (length bytes) \<Longrightarrow> cdx_length r = int (length member) \<Longrightarrow>
     slice (bytes @ member @ rest) r = member"
  by (simp add: slice_def substr_def)

lemma warc_loop_index:
  assumes "warc_loop V W E responses n offset out = Returns (Inr (out', n', offset'))"
    and "offset = int (length (warc_bytes out))"
    and "list_all2 (holds_record V W E (warc_bytes out)) earlier (cdx_records out)"
  shows "list_all2 (holds_record V W E (warc_bytes out')) (earlier @ responses) (cdx_records out') \<and>
    offset' = int (length (warc_bytes out'))"
  using assms
proof (induction responses arbitrary: n offset out earlier)
  case (Cons response responses)
  from Cons.prems(1) obtain rtext request rgz qgz ts dg rd where
    s: "SerializeRecordPair V E n response = Returns (rtext, request)" and
    g: "GzipMember W rtext = Inr rgz" "GzipMember W request = Inr qgz" and
    d: "CdxRecordDigest V E rgz = Returns rd" and
    rest: "warc_loop V W E responses (n + 2) (offset + (int (length rgz) + int (length qgz)))
      \<lparr>warc_bytes = warc_bytes out @ rgz @ qgz,
       cdx_records = cdx_records out @ [\<lparr>cdx_url = sr_url response, cdx_timestamp = ts,
         cdx_digest = dg, cdx_record_digest = rd, cdx_status = sr_status response,
         cdx_headers = sr_headers response, cdx_offset = offset, cdx_length = int (length rgz)\<rparr>]\<rparr> =
      Returns (Inr (out', n', offset'))"
    by (auto simp: and_then_Returns_iff step_ok_iff)
  let ?b = "warc_bytes out @ rgz @ qgz"
  let ?r = "\<lparr>cdx_url = sr_url response, cdx_timestamp = ts, cdx_digest = dg, cdx_record_digest = rd,
    cdx_status = sr_status response, cdx_headers = sr_headers response, cdx_offset = offset,
    cdx_length = int (length rgz)\<rparr>"
  have here: "slice ?b ?r = rgz" using Cons.prems(2) by (intro slice_here) simp_all
  have "indexed V E ?b ?r" using here d Cons.prems(2) by (simp add: indexed_def)
  then have "holds_record V W E ?b response ?r" using here s g by (auto simp: holds_record_def)
  moreover have "list_all2 (holds_record V W E ?b) earlier (cdx_records out)"
    using Cons.prems(3) holds_record_append by (rule list_all2_mono)
  ultimately have "list_all2 (holds_record V W E ?b) (earlier @ [response]) (cdx_records out @ [?r])"
    by (simp add: list_all2_appendI)
  with Cons.IH [OF rest, of "earlier @ [response]"] Cons.prems(2) show ?case by simp
qed simp

lemma MakeWarc_index:
  assumes "MakeWarc V W E n exchange = Returns (Inr out)"
  shows "\<exists>rs page_info. cdx_records out = rs @ [page_info] \<and>
    list_all2 (holds_record V W E (warc_bytes out)) (CollectSerializableResponses E exchange) rs \<and>
    indexed V E (warc_bytes out) page_info"
proof -
  from assms obtain out1 n1 offset gz u ts dg rd where
    l: "warc_loop V W E (CollectSerializableResponses E exchange) n 0
      \<lparr>warc_bytes = [], cdx_records = []\<rparr> = Returns (Inr (out1, n1, offset))" and
    d: "CdxRecordDigest V E gz = Returns rd" and
    out: "out = \<lparr>warc_bytes = warc_bytes out1 @ gz,
      cdx_records = cdx_records out1 @ [\<lparr>cdx_url = u, cdx_timestamp = ts, cdx_digest = dg,
        cdx_record_digest = rd, cdx_status = 200,
        cdx_headers = [(''content-type'', ''application/json'')], cdx_offset = offset,
        cdx_length = int (length gz)\<rparr>]\<rparr>"
    by (auto simp: MakeWarc_def and_then_Returns_iff step_ok_iff)
  have w: "list_all2 (holds_record V W E (warc_bytes out1)) (CollectSerializableResponses E exchange)
      (cdx_records out1)" and o: "offset = int (length (warc_bytes out1))"
    using warc_loop_index [OF l, of "[]"] by simp_all
  let ?r = "\<lparr>cdx_url = u, cdx_timestamp = ts, cdx_digest = dg, cdx_record_digest = rd,
    cdx_status = 200, cdx_headers = [(''content-type'', ''application/json'')], cdx_offset = offset,
    cdx_length = int (length gz)\<rparr>"
  have "slice (warc_bytes out1 @ gz) ?r = gz"
    using slice_here [of ?r "warc_bytes out1" gz "[]"] o by simp
  then have "indexed V E (warc_bytes out1 @ gz) ?r" using d o by (simp add: indexed_def)
  moreover have "list_all2 (holds_record V W E (warc_bytes out1 @ gz))
      (CollectSerializableResponses E exchange) (cdx_records out1)"
    using w holds_record_append by (rule list_all2_mono)
  ultimately show ?thesis by (auto simp: out)
qed

section \<open>The package holds its parts\<close>

text \<open>The paths of the package are allowed and distinct, so only the writer can fail.\<close>

lemma wacz_paths_allowed:
  "\<exists>b. add_files (wacz_files E run pages warc cdx so se) new_builder = Inr b"
proof -
  have "IsAllowedZipPath ''datapackage.json''" "IsAllowedZipPath kWarcPath"
    "IsAllowedZipPath ''pages/pages.jsonl''" "IsAllowedZipPath ''logs/stdout.log''"
    "IsAllowedZipPath ''logs/stderr.log''" "IsAllowedZipPath kIndexPath"
    by code_simp+
  then show ?thesis
    by (simp add: wacz_files_def AddStoredFile_def new_builder_def Let_def)
      (simp add: kWarcPath_def kIndexPath_def)
qed

lemma wacz_read_back:
  assumes "zip_contract W R" and "MakeWacz V W E run pages warc so se = Returns (Inr bytes)"
  obtains cdx where "MakeCdx V E (cdx_records warc) = Returns cdx"
    and "\<forall>f\<in>set (wacz_files E run pages warc cdx so se). length (snd f) < 2 ^ 64 \<Longrightarrow>
      \<exists>z. ZipArchive_FromBytes R bytes = Some (Inr z) \<and>
        (\<forall>p. FindFile p z = map_of (wacz_files E run pages warc cdx so se) p)"
proof -
  from assms(2) obtain cdx b where c: "MakeCdx V E (cdx_records warc) = Returns cdx"
    and b: "add_files (wacz_files E run pages warc cdx so se) new_builder = Inr b" "Finish W b = Inr bytes"
    by (auto simp: MakeWacz_def and_then_Returns_iff error_as_iff TRY_Inr_iff)
  from zip_files_read_back [OF assms(1) b] show thesis
    by (intro that [OF c]) blast
qed

section \<open>What the fingerprint tells\<close>

text \<open>The parts of a capture the fingerprint is made of.\<close>

datatype content_item =
  MainItem string int string string
| RedirectItem string int string
| ResourceItem string string int string string string

definition content_items :: "CapturedExchange \<Rightarrow> content_item multiset" where
  "content_items ex =
     add_mset (MainItem (ex_final_url ex) (ex_status ex)
       (header_or_empty (ex_headers ex) ''content-type'') (ex_body ex))
     (mset (map (\<lambda>r. RedirectItem (rd_url r) (rd_status r) (header_or_empty (rd_headers r) ''location''))
        (ex_redirects ex)) +
      mset (map (\<lambda>r. ResourceItem (rs_url r) (if rs_method r = [] then ''GET'' else rs_method r)
        (rs_status r) (case rs_type r of Some t \<Rightarrow> t | None \<Rightarrow> [])
        (header_or_empty (rs_headers r) ''content-type'') (rs_body r)) (ex_resources ex)))"

fun item_pieces :: "content_item \<Rightarrow> string \<times> string list" where
  "item_pieces (MainItem u st ct b) = (''main'', [u, int_to_string st, ct, b])"
| "item_pieces (RedirectItem u st l) = (''redirect'', [u, int_to_string st, l])"
| "item_pieces (ResourceItem u m st t ct b) = (''resource'', [u, m, int_to_string st, t, ct, b])"

definition item_digest :: "artifact_env \<Rightarrow> content_item \<Rightarrow> string" where
  "item_digest E i = Sha256 E (item_domain @ fst (item_pieces i) @
     concat (map (Sha256 E) (snd (item_pieces i))))"

lemma digest_of_item:
  "main_digest E ex = item_digest E (MainItem (ex_final_url ex) (ex_status ex)
     (header_or_empty (ex_headers ex) ''content-type'') (ex_body ex))"
  "redirect_digest E rd = item_digest E (RedirectItem (rd_url rd) (rd_status rd)
     (header_or_empty (rd_headers rd) ''location''))"
  "resource_digest E rs = item_digest E (ResourceItem (rs_url rs)
     (if rs_method rs = [] then ''GET'' else rs_method rs) (rs_status rs)
     (case rs_type rs of Some t \<Rightarrow> t | None \<Rightarrow> [])
     (header_or_empty (rs_headers rs) ''content-type'') (rs_body rs))"
  by (simp_all add: main_digest_def redirect_digest_def resource_digest_def item_digest_def
      Sha256BytesOf_def Sha256Bytes_def)

lemma digests_of_items:
  "mset ([main_digest E ex] @ map (redirect_digest E) (ex_redirects ex) @
      map (resource_digest E) (ex_resources ex)) = image_mset (item_digest E) (content_items ex)"
  by (simp add: content_items_def digest_of_item [abs_def] image_mset.compositionality comp_def)

lemma fingerprint_eq:
  "ComputeContentSha256 E ex = Sha256 E (capture_domain @ concat
     (sorted_list_of_multiset (image_mset (item_digest E) (content_items ex))))"
  unfolding ComputeContentSha256_def Let_def Sha256Bytes_def digests_of_items [symmetric]
  by (simp only: sorted_list_of_multiset_mset)

text \<open>Pieces of equal length that join to the same text are the same.\<close>

lemma concat_blocks:
  assumes "concat xs = concat ys" and "\<forall>x\<in>set xs. length x = k" and "\<forall>y\<in>set ys. length y = k" and "0 < k"
  shows "xs = ys"
  using assms(1-3)
proof (induction xs arbitrary: ys)
  case Nil
  then show ?case using assms(4) by (cases ys) auto
next
  case (Cons x xs)
  then obtain y ys' where y: "ys = y # ys'" using assms(4) by (cases ys) auto
  with Cons.prems have "x = y" "concat xs = concat ys'" by (auto simp: append_eq_append_conv)
  with Cons y show ?case by auto
qed

lemma to_string_inject: "to_string m = to_string n \<longleftrightarrow> m = n"
  by (metis digits_value_to_string)

lemma int_to_string_inject: "int_to_string i = int_to_string j \<longleftrightarrow> i = j"
proof -
  have n: "to_string n \<noteq> CHR ''-'' # ds" "CHR ''-'' # ds \<noteq> to_string n" for n ds
    using to_string_not_minus [of n "CHR ''-''" ds] by auto
  show ?thesis by (cases "i < 0"; cases "j < 0") (auto simp: int_to_string_def to_string_inject n)
qed

text \<open>
  The texts that are hashed for a fingerprint.  A hash with 32 bytes of output has collisions, so what
  a fingerprint tells is stated for these texts only.
\<close>

definition hashed_text :: "artifact_env \<Rightarrow> content_item \<Rightarrow> string" where
  "hashed_text E i = item_domain @ fst (item_pieces i) @ concat (map (Sha256 E) (snd (item_pieces i)))"

definition hashed_texts :: "artifact_env \<Rightarrow> CapturedExchange \<Rightarrow> string set" where
  "hashed_texts E ex =
     insert (capture_domain @ concat (sorted_list_of_multiset (image_mset (item_digest E) (content_items ex))))
       (\<Union>i\<in>set_mset (content_items ex). insert (hashed_text E i) (set (snd (item_pieces i))))"

lemma item_digest_inject:
  assumes "inj_on (Sha256 E) H" and "\<forall>s. length (Sha256 E s) = 32" and "item_digest E i = item_digest E j"
    and "insert (hashed_text E i) (set (snd (item_pieces i))) \<subseteq> H"
    and "insert (hashed_text E j) (set (snd (item_pieces j))) \<subseteq> H"
  shows "i = j"
proof -
  obtain ti pi tj pj where p: "item_pieces i = (ti, pi)" "item_pieces j = (tj, pj)" by fastforce
  have "hashed_text E i = hashed_text E j"
    by (rule inj_onD [OF assms(1)]) (use assms(3-5) in \<open>auto simp: item_digest_def hashed_text_def\<close>)
  then have e: "ti @ concat (map (Sha256 E) pi) = tj @ concat (map (Sha256 E) pj)"
    by (simp add: hashed_text_def p)
  have len: "length (concat (map (Sha256 E) ps)) = 32 * length ps" for ps
    using assms(2) by (induction ps) simp_all
  have "ti = tj"
    using arg_cong [OF e, of length] p by (cases i; cases j) (auto simp: len)
  with e have "concat (map (Sha256 E) pi) = concat (map (Sha256 E) pj)" by simp
  then have "map (Sha256 E) pi = map (Sha256 E) pj"
    by (rule concat_blocks [where k = 32]) (use assms(2) in auto)
  moreover have "inj_on (Sha256 E) (set pi \<union> set pj)"
    by (rule inj_on_subset [OF assms(1)]) (use assms(4,5) p in auto)
  ultimately have "pi = pj" by (simp add: inj_on_map_eq_map)
  with \<open>ti = tj\<close> p show ?thesis by (cases i; cases j) (auto simp: int_to_string_inject)
qed

lemma fingerprint_binds:
  assumes "\<forall>s. length (Sha256 E s) = 32" and "inj_on (Sha256 E) (hashed_texts E ex \<union> hashed_texts E ex')"
    and "ComputeContentSha256 E ex = ComputeContentSha256 E ex'"
  shows "content_items ex = content_items ex'"
proof -
  let ?d = "\<lambda>ex. sorted_list_of_multiset (image_mset (item_digest E) (content_items ex))"
  have "capture_domain @ concat (?d ex) = capture_domain @ concat (?d ex')"
    by (rule inj_onD [OF assms(2)]) (use assms(3) in \<open>auto simp: fingerprint_eq hashed_texts_def\<close>)
  then have "concat (?d ex) = concat (?d ex')" by simp
  moreover have "\<forall>x\<in>set (?d ex). length x = 32" for ex
    using assms(1) by (auto simp: item_digest_def)
  ultimately have "?d ex = ?d ex'" by (intro concat_blocks [where k = 32]) auto
  then have d: "image_mset (item_digest E) (content_items ex) = image_mset (item_digest E) (content_items ex')"
    by (metis mset_sorted_list_of_multiset)
  have "inj_on (item_digest E) (set_mset (content_items ex) \<union> set_mset (content_items ex'))"
    by (rule inj_onI, rule item_digest_inject [OF assms(2,1)]) (auto simp: hashed_texts_def)
  then show ?thesis using d
    image_mset_eq_image_mset_plusD [of "item_digest E" "content_items ex" "content_items ex'" "{#}"]
    by (auto simp: Un_commute)
qed

end
