(* ===== verification/Example_Archive.thy ===== *)
theory Example_Archive
  imports Artifacts Example_Vendor
begin

text \<open>
  A writer and a reader that meet the contract of \<open>libarchive\<close>, an environment for the artifacts and
  a capture, on which the theorems of the archive are applied.  They model no code.
\<close>

text \<open>The handle says whether the writer makes a gzip member, which is always \<open>gz\<close>.\<close>

definition example_writer :: "bool archive_writer" where
  "example_writer = \<lparr>write_new = Some False, set_format_zip = (\<lambda>w. (True, w)),
     set_compression_store = (\<lambda>w. (True, w)), set_format_raw = (\<lambda>w. (True, w)),
     add_filter_gzip = (\<lambda>w. (True, True)), write_open = (\<lambda>w. (True, w, [])),
     entry_new = (\<lambda>w. True),
     write_header = (\<lambda>w e. (True, w, if w then []
       else CHR ''E'' # sized (entry_pathname e) @ unary (CHR ''n'') (entry_size e))),
     write_data = (\<lambda>w b. (int (length b), w, if w then [] else b)),
     write_close = (\<lambda>w. (True, w, if w then ''gz'' else [])),
     write_error_string = (\<lambda>w. None)\<rparr>"

definition example_reader :: "string archive_reader" where
  "example_reader = \<lparr>read_new = Some [], support_format_zip = (\<lambda>r. (True, r)),
     open_memory = (\<lambda>r bytes. (True, bytes)),
     next_header = (\<lambda>s. if s = [] then (HeaderEof, s)
       else let (p, r1) = un_sized (tl s); (n, r2) = un_unary r1 in
         (HeaderEntry \<lparr>re_pathname = Some p, re_size = int n, re_regular = True,
           re_symlink = False, re_hardlink = False\<rparr>, r2)),
     read_data = (\<lambda>s n. (DataBytes (take n s), drop n s)), read_error_string = (\<lambda>r. None)\<rparr>"

definition entry_code :: "StoredEntry \<Rightarrow> string" where
  "entry_code e = CHR ''E'' # sized (stored_path e) @ unary (CHR ''n'') (length (stored_body e)) @ stored_body e"

lemma example_writer_fields:
  "write_new example_writer = Some False" "set_format_zip example_writer w = (True, w)"
  "set_compression_store example_writer w = (True, w)" "write_open example_writer w = (True, w, [])"
  "write_close example_writer False = (True, False, [])"
  by (simp_all add: example_writer_def)

lemma example_write_entries:
  "write_entries example_writer False out es = Inr (False, out @ concat (map entry_code es))"
  by (induction es arbitrary: out)
    (simp_all add: MakeRegularFileEntry_def write_body_def example_writer_def entry_code_def)

lemma example_reads: "reads example_reader (body @ rest) body rest"
proof (cases "body = []")
  case True
  then show ?thesis by (simp add: reads_Nil)
next
  case False
  have "read_data example_reader (body @ rest) (length body + length []) = (DataBytes body, rest)"
    by (simp add: example_reader_def)
  from reads_piece [OF this False reads_Nil] show ?thesis by simp
qed

lemma example_brings: "brings example_reader (concat (map entry_code es)) es"
proof (induction es)
  case Nil
  show ?case by (rule brings_end [of _ _ "[]"]) (simp add: example_reader_def)
next
  case (Cons e es)
  show ?case
    by (rule brings_entry [where h = "\<lparr>re_pathname = Some (stored_path e),
          re_size = int (length (stored_body e)), re_regular = True, re_symlink = False,
          re_hardlink = False\<rparr>" and ?r1.0 = "stored_body e @ concat (map entry_code es)"
        and ?r2.0 = "concat (map entry_code es)"])
      (simp_all add: Cons.IH example_reads, simp add: example_reader_def entry_code_def)
qed

lemma example_zip_contract [simp]: "zip_contract example_writer example_reader"
proof -
  have "MakeZipReader example_reader = Inr []"
    by (simp add: MakeZipReader_def example_reader_def)
  moreover have "out = concat (map entry_code (entries b))" if "Finish example_writer b = Inr out" for b out
    using that by (simp add: Finish_def MakeZipWriter_def example_write_entries example_writer_fields)
  moreover have "open_memory example_reader r bytes = (True, bytes)" for r bytes
    by (simp add: example_reader_def)
  ultimately show ?thesis unfolding zip_contract_def using example_brings by metis
qed

definition example_artifact_env :: artifact_env where
  "example_artifact_env = \<lparr>Sha256 = (\<lambda>s. take 32 (s @ replicate 32 CHR ''0'')),
     Sha256Hex = (\<lambda>s. ''ff''), record_uuid = to_string, FromRfc3339StringSaturating = (\<lambda>_. 0),
     UtcTimestring = (\<lambda>_. ''20200101''), StatusCodeString = (\<lambda>_. Some ''OK''),
     json_text = (\<lambda>_. ''{}''), page_entry_text = (\<lambda>_. ''{}''), data_package_text = (\<lambda>_. ''{}''),
     header_order = (\<lambda>hs. hs), sort_responses = sort_key sr_timestamp,
     sort_lines = (\<lambda>ls. sort_key line_key (sort_key line_timestamp ls)), created_at = 0\<rparr>"

definition example_exchange :: CapturedExchange where
  "example_exchange = \<lparr>ex_seed_url = ''https://x.ads.com/p'', ex_page_id = ''1'',
     ex_final_url = ''https://x.ads.com/p'', ex_status = 200, ex_message = ''OK'', ex_headers = [],
     ex_body = ''hi'', ex_timestamp = ''2'', ex_redirect_chain = [], ex_redirects = [],
     ex_resources = [\<lparr>rs_url = ''https://x.ads.com/q'', rs_method = [], rs_type = None, rs_status = 404,
       rs_message = ''No'', rs_headers = [], rs_body = ''no'', rs_timestamp = ''1''\<rparr>],
     ex_title = None\<rparr>"

lemma example_sha_length: "length (Sha256 example_artifact_env s) = 32"
  by (simp add: example_artifact_env_def)

text \<open>The pieces of the example succeed, so its archive is built.\<close>

lemma example_gzip: "GzipMember example_writer body = Inr ''gz''"
  by (simp add: GzipMember_def GzipCompressMember_def MakeEntry_def example_writer_def)

lemma example_deref: "is_ascii s \<Longrightarrow> deref_text example_vendor s = Returns s"
  by (rule deref_text_ascii) simp

lemma example_digests:
  "CdxPayloadDigest example_vendor example_artifact_env s = Returns ''sha-256:ff''"
  "CdxRecordDigest example_vendor example_artifact_env s = Returns ''sha256:ff''"
  "ToCdxTimestamp example_vendor example_artifact_env s = Returns ''20200101''"
  by (simp_all add: CdxPayloadDigest_def CdxRecordDigest_def ToCdxTimestamp_def Sha256PrefixedHex_def
      example_artifact_env_def example_deref is_ascii_def)

lemma example_pair:
  assumes "sr_message r \<noteq> []"
  obtains p q where "SerializeRecordPair example_vendor example_artifact_env n r = Returns (p, q)"
proof -
  have "\<exists>p. PathWithSearch example_vendor u = Returns p" for u
    using PathWithSearch_returns [of example_vendor u] by auto
  moreover have "\<exists>h. Host example_vendor u = Returns h" for u
    using example_ada_ascii by (auto simp: Host_def example_deref ada_ascii_contractD)
  ultimately have "\<exists>p q. SerializeRecordPair example_vendor example_artifact_env n r = Returns (p, q)"
    using assms
    by (auto simp: SerializeRecordPair_def Let_def and_then_Returns_iff split: sum.split option.split)
  then show thesis using that by blast
qed

definition example_record :: "string \<Rightarrow> int \<Rightarrow> headers \<Rightarrow> int \<Rightarrow> WarcCdxRecord" where
  "example_record url status hs offset = \<lparr>cdx_url = url, cdx_timestamp = ''20200101'',
     cdx_digest = ''sha-256:ff'', cdx_record_digest = ''sha256:ff'', cdx_status = status,
     cdx_headers = hs, cdx_offset = offset, cdx_length = 2\<rparr>"

definition example_warc_output :: WarcBuildOutput where
  "example_warc_output = \<lparr>warc_bytes = ''gzgzgzgzgz'', cdx_records =
     [example_record ''https://x.ads.com/q'' 404 [] 0, example_record ''https://x.ads.com/p'' 200 [] 4,
      example_record ''urn:pageinfo:https://x.ads.com/p'' 200
        [(''content-type'', ''application/json'')] 8]\<rparr>"

lemma example_warc_step:
  "sr_message r \<noteq> [] \<Longrightarrow>
   warc_loop example_vendor example_writer example_artifact_env (r # rs) n offset out =
     warc_loop example_vendor example_writer example_artifact_env rs (n + 2) (offset + 4)
       \<lparr>warc_bytes = warc_bytes out @ ''gzgz'', cdx_records = cdx_records out @
          [example_record (sr_url r) (sr_status r) (sr_headers r) offset]\<rparr>"
  by (rule example_pair [of r n])
    (simp_all add: example_gzip example_digests example_record_def)

lemma example_warc:
  "MakeWarc example_vendor example_writer example_artifact_env 0 example_exchange =
     Returns (Inr example_warc_output)"
proof -
  have "CollectSerializableResponses example_artifact_env example_exchange =
      [(MakeResourceResponse (hd (ex_resources example_exchange)))\<lparr>sr_page_id := ''1''\<rparr>,
       MakeMainDocumentResponse example_exchange]"
    by (simp add: CollectSerializableResponses_def example_artifact_env_def example_exchange_def
        MakeMainDocumentResponse_def MakeResourceResponse_def)
  then have "warc_loop example_vendor example_writer example_artifact_env
      (CollectSerializableResponses example_artifact_env example_exchange) 0 0
      \<lparr>warc_bytes = [], cdx_records = []\<rparr> =
      Returns (Inr (\<lparr>warc_bytes = ''gzgzgzgz'',
        cdx_records = take 2 (cdx_records example_warc_output)\<rparr>, 4, 8))"
    by (simp add: example_warc_step MakeResourceResponse_def MakeMainDocumentResponse_def
        example_exchange_def example_warc_output_def del: warc_loop.simps(2))
  moreover have "deref_text example_vendor (''urn:pageinfo:'' @ page_url example_exchange) =
      Returns ''urn:pageinfo:https://x.ads.com/p''"
    by (subst example_deref) (simp_all add: page_url_def example_exchange_def is_ascii_def)
  ultimately show ?thesis
    by (simp add: MakeWarc_def example_gzip example_digests example_warc_output_def example_record_def)
qed

definition example_files :: "(string \<times> string) list" where
  "example_files = [(''a/b'', ''x''), (''c'', [])]"

lemma example_builder:
  "add_files example_files new_builder = Inr \<lparr>entries =
     [\<lparr>stored_path = ''a/b'', stored_body = ''x''\<rparr>, \<lparr>stored_path = ''c'', stored_body = []\<rparr>],
     entry_paths = {''c'', ''a/b''}\<rparr>"
  by (simp add: example_files_def AddStoredFile_def IsAllowedZipPath_iff new_builder_def
      forbidden_char_def good_component_def)

lemma example_finish: "Finish example_writer b = Inr (concat (map entry_code (entries b)))"
  by (simp add: Finish_def MakeZipWriter_def example_write_entries example_writer_fields)

definition example_run_request :: RunRequest where
  "example_run_request = \<lparr>run_seed_url = ''s''\<rparr>"

definition example_cdx_text :: string where
  "example_cdx_text = ''com,ads,x)/p 20200101 {}'' @ [CHR 0x0A] @ ''com,ads,x)/q 20200101 {}'' @ [CHR 0x0A] @
     ''urn:pageinfo:https://x.ads.com/p 20200101 {}'' @ [CHR 0x0A]"

lemma example_cdx:
  "MakeCdx example_vendor example_artifact_env (cdx_records example_warc_output) = Returns example_cdx_text"
  by code_simp

lemma example_wacz:
  obtains bytes where "MakeWacz example_vendor example_writer example_artifact_env example_run_request
    ''p'' example_warc_output ''o'' ''e'' = Returns (Inr bytes)"
proof -
  obtain b where "add_files (wacz_files example_artifact_env example_run_request ''p'' example_warc_output
      example_cdx_text ''o'' ''e'') new_builder = Inr b" using wacz_paths_allowed by blast
  then show thesis by (intro that) (simp add: MakeWacz_def example_cdx example_finish)
qed

lemma example_wacz_small:
  "\<forall>f\<in>set (wacz_files example_artifact_env example_run_request ''p'' example_warc_output
     example_cdx_text ''o'' ''e''). length (snd f) < 2 ^ 64"
  by (simp add: wacz_files_def Let_def MakeWaczPagesBytes_def example_artifact_env_def
      example_warc_output_def example_cdx_text_def)

end
