(* ===== verification/S3_Sign.thy ===== *)
theory S3_Sign
  imports Link "HOL-Library.Product_Lexorder" "HOL-Library.Multiset"
begin

text \<open>
  \<open>src/s3/sigv4_signer.cpp\<close>, \<open>src/s3/url_utils.cpp\<close> and their headers: percent-encoding, the
  canonical request and the signature of a request to the object store, and reading a query string.
  The lemmas show that the canonical request determines what is signed and that a canonical query
  reads back.
\<close>

section \<open>The environment\<close>

text \<open>
  The hash functions and time formats of \<open>userver\<close> and \<open>cctz\<close>, the white space helper of \<open>absl\<close> and
  the percent decoder of \<open>ada\<close>, whose second argument is the position of the first percent sign.
\<close>

datatype OutputEncoding = kBinary | kHex

record s3_env =
  RemoveExtraAsciiWhitespace :: "string \<Rightarrow> string"
  HmacSha256 :: "string \<Rightarrow> string \<Rightarrow> OutputEncoding \<Rightarrow> string"
  hash_Sha256 :: "string \<Rightarrow> OutputEncoding \<Rightarrow> string"
  cctz_format :: "string \<Rightarrow> int \<Rightarrow> string"
  cctz_parse :: "string \<Rightarrow> string \<Rightarrow> int option"
  kRfc3339Format :: string
  percent_decode :: "string \<Rightarrow> nat option \<Rightarrow> string"

type_synonym pairs = "(string \<times> string) list"

section \<open>Percent-encoding\<close>

datatype EncodeSlash = kNo | kYes

definition IsUnreserved :: "char \<Rightarrow> bool" where
  "IsUnreserved c \<longleftrightarrow>
     (CHR ''A'' \<le> c \<and> c \<le> CHR ''Z'') \<or> (CHR ''a'' \<le> c \<and> c \<le> CHR ''z'') \<or>
     (CHR ''0'' \<le> c \<and> c \<le> CHR ''9'') \<or> c = CHR ''-'' \<or> c = CHR ''_'' \<or> c = CHR ''.'' \<or> c = CHR ''~''"

definition upper_hex :: string where
  "upper_hex = ''0123456789ABCDEF''"

definition percent_byte :: "char \<Rightarrow> string" where
  "percent_byte c =
     (let uc = of_char c :: nat in [CHR ''%'', upper_hex ! (uc div 16 mod 16), upper_hex ! (uc mod 16)])"

fun PercentEncodeBytes :: "string \<Rightarrow> EncodeSlash \<Rightarrow> string" where
  "PercentEncodeBytes [] encode_slash = []"
| "PercentEncodeBytes (c # s) encode_slash =
     (if IsUnreserved c \<or> (encode_slash = kNo \<and> c = CHR ''/'') then [c] else percent_byte c) @
     PercentEncodeBytes s encode_slash"

definition PercentEncode :: "('u, 'z) vendor_scheme \<Rightarrow> string \<Rightarrow> EncodeSlash \<Rightarrow> string outcome" where
  "PercentEncode V s encode_slash = deref_text V (PercentEncodeBytes s encode_slash)"

section \<open>Canonical requests\<close>

record CanonicalRequestParts =
  canonical_request :: string
  signed_headers :: string

record SigParams =
  sp_region :: string
  sp_service :: string
  sp_access_key_id :: string
  sp_secret_access_key :: string
  sp_session_token :: "string option"
  sp_amz_date :: string
  sp_date :: string

definition TrimSpaces :: "s3_env \<Rightarrow> string \<Rightarrow> string" where
  "TrimSpaces E s = RemoveExtraAsciiWhitespace E s"

definition JoinSignedHeaders :: "pairs \<Rightarrow> string" where
  "JoinSignedHeaders headers = join_with '';'' (map fst headers)"

definition CanonicalizeQueryImpl :: "pairs \<Rightarrow> string" where
  "CanonicalizeQueryImpl query =
     (let q = map (\<lambda>(k, v). (PercentEncodeBytes k kYes, PercentEncodeBytes v kYes)) query;
          q = sort q
      in join_with ''&'' (map (\<lambda>(name, value). name @ ''='' @ value) q))"

definition CanonicalizeQuery :: "pairs \<Rightarrow> string" where
  "CanonicalizeQuery decoded = CanonicalizeQueryImpl decoded"

definition ToAmzDateUtc :: "s3_env \<Rightarrow> int \<Rightarrow> string" where
  "ToAmzDateUtc E tp = cctz_format E ''%Y%m%dT%H%M%SZ'' tp"

definition ToDateStampUtc :: "s3_env \<Rightarrow> int \<Rightarrow> string" where
  "ToDateStampUtc E tp = cctz_format E ''%Y%m%d'' tp"

text \<open>The constructor of \<open>SigParams\<close>.\<close>

definition make_SigParams ::
    "s3_env \<Rightarrow> string \<Rightarrow> string \<Rightarrow> string \<Rightarrow> string \<Rightarrow> string option \<Rightarrow> int \<Rightarrow> SigParams" where
  "make_SigParams E region service access_key_id secret_access_key session_token now =
     \<lparr>sp_region = region, sp_service = service, sp_access_key_id = access_key_id,
      sp_secret_access_key = secret_access_key, sp_session_token = session_token,
      sp_amz_date = ToAmzDateUtc E now, sp_date = ToDateStampUtc E now\<rparr>"

definition MakeScope :: "SigParams \<Rightarrow> string" where
  "MakeScope params = sp_date params @ ''/'' @ sp_region params @ ''/'' @ sp_service params @ ''/aws4_request''"

definition ComputeSignature :: "s3_env \<Rightarrow> SigParams \<Rightarrow> string \<Rightarrow> string" where
  "ComputeSignature E params string_to_sign =
     (let secret = ''AWS4'' @ sp_secret_access_key params;
          date = HmacSha256 E secret (sp_date params) kBinary;
          region = HmacSha256 E date (sp_region params) kBinary;
          service = HmacSha256 E region (sp_service params) kBinary;
          signing = HmacSha256 E service ''aws4_request'' kBinary
      in HmacSha256 E signing string_to_sign kHex)"

definition Sha256Hex :: "('u, 'z) vendor_scheme \<Rightarrow> s3_env \<Rightarrow> string \<Rightarrow> string outcome" where
  "Sha256Hex V E data = deref_text V (hash_Sha256 E data kHex)"

definition header_lines :: "s3_env \<Rightarrow> pairs \<Rightarrow> string" where
  "header_lines E headers = concat (map (\<lambda>(k, v). k @ '':'' @ TrimSpaces E v @ [CHR 0x0A]) headers)"

definition MakeCanonicalRequest ::
    "s3_env \<Rightarrow> string \<Rightarrow> string \<Rightarrow> pairs \<Rightarrow> pairs \<Rightarrow> string \<Rightarrow> CanonicalRequestParts" where
  "MakeCanonicalRequest E m canonical_uri query headers_lowercase_trimmed_sorted payload_sha256_hex =
     (let canonical_uri_encoded = PercentEncodeBytes canonical_uri kNo;
          canonical_query = CanonicalizeQueryImpl query;
          canonical_headers = header_lines E headers_lowercase_trimmed_sorted;
          signed = JoinSignedHeaders headers_lowercase_trimmed_sorted
      in \<lparr>canonical_request = join_with [CHR 0x0A]
            [m, canonical_uri_encoded, canonical_query, canonical_headers, signed, payload_sha256_hex],
          signed_headers = signed\<rparr>)"

text \<open>
  \<open>std::ranges::sort\<close> by name: the order of entries with the same name is left open by the C++
  library; here they stay in place.  Where the sources sort headers the names are distinct.
\<close>

definition PrepareSignedHeaders :: "('u, 'z) vendor_scheme \<Rightarrow> string \<Rightarrow> pairs \<Rightarrow> pairs" where
  "PrepareSignedHeaders V host extra =
     sort_key fst ((''host'', host) # map (\<lambda>(name, value). (AsciiStrToLower V name, value)) extra)"

definition MakeSignedHeaders :: "pairs \<Rightarrow> string" where
  "MakeSignedHeaders headers_lowercase_trimmed_sorted = JoinSignedHeaders headers_lowercase_trimmed_sorted"

text \<open>\<open>string_to_sign\<close>, which \<open>SignHeaders\<close> and \<open>MakePresignedUrl\<close> build the same way.\<close>

definition string_to_sign :: "('u, 'z) vendor_scheme \<Rightarrow> s3_env \<Rightarrow> SigParams \<Rightarrow> string \<Rightarrow> string outcome" where
  "string_to_sign V E p request =
     and_then (Sha256Hex V E request) (\<lambda>digest.
       Returns (join_with [CHR 0x0A] [''AWS4-HMAC-SHA256'', sp_amz_date p, MakeScope p, digest]))"

definition amz_headers :: "SigParams \<Rightarrow> string \<Rightarrow> pairs" where
  "amz_headers p payload_hex =
     [(''x-amz-date'', sp_amz_date p), (''x-amz-content-sha256'', payload_hex)] @
     (case sp_session_token p of None \<Rightarrow> [] | Some t \<Rightarrow> [(''x-amz-security-token'', t)])"

definition SignHeaders ::
    "('u, 'z) vendor_scheme \<Rightarrow> s3_env \<Rightarrow> SigParams \<Rightarrow> string \<Rightarrow> string \<Rightarrow> pairs \<Rightarrow> pairs \<Rightarrow> string \<Rightarrow>
     pairs outcome" where
  "SignHeaders V E p m canonical_uri query headers_lower_trimmed payload_sha256_hex =
     (let out = amz_headers p payload_sha256_hex;
          headers = sort_key fst (headers_lower_trimmed @ out);
          cr = MakeCanonicalRequest E m canonical_uri query headers payload_sha256_hex;
          scope = MakeScope p
      in and_then (string_to_sign V E p (canonical_request cr)) (\<lambda>to_sign.
         let signature = ComputeSignature E p to_sign;
             credential = sp_access_key_id p @ ''/'' @ scope;
             authorization = ''AWS4-HMAC-SHA256 Credential='' @ credential @ '', SignedHeaders='' @
               signed_headers cr @ '', Signature='' @ signature
         in Returns (out @ [(''authorization'', authorization)])))"

section \<open>URLs and query strings\<close>

definition HasExplicitScheme :: "('u, 'z) vendor_scheme \<Rightarrow> string \<Rightarrow> bool" where
  "HasExplicitScheme V text =
     (case find_str ''://'' text 0 of
        None \<Rightarrow> False
      | Some scheme_pos \<Rightarrow>
          if scheme_pos = 0 then False
          else if \<not> IsAsciiAlpha V (hd text) then False
          else list_all (\<lambda>c. IsAsciiAlnum V c \<or> c = CHR ''+'' \<or> c = CHR ''-'' \<or> c = CHR ''.'')
            (substr text 1 (scheme_pos - 1)))"

definition ParseUrlWithDefaultHttpScheme :: "('u, 'z) vendor_scheme \<Rightarrow> string \<Rightarrow> 'u option" where
  "ParseUrlWithDefaultHttpScheme V text =
     (case Url_FromText V text of
        Some url \<Rightarrow> Some url
      | None \<Rightarrow>
          if HasExplicitScheme V text then None
          else let with_scheme = text_append V ''http://'' text in Url_FromText V with_scheme)"

datatype QueryStringError = kInvalidUtf8Key | kInvalidUtf8Value

text \<open>
  The length \<open>amp - eq - 1\<close> is a \<open>size_t\<close>: when the ampersand comes before the equals sign it wraps
  around and the value is the rest of the text.
\<close>

definition query_value :: "string \<Rightarrow> nat option \<Rightarrow> nat \<Rightarrow> string" where
  "query_value search_copy amp eq =
     (case amp of
        None \<Rightarrow> substr_from search_copy (eq + 1)
      | Some amp \<Rightarrow> substr search_copy (eq + 1) (nat ((int amp - int eq - 1) mod 2 ^ 64)))"

function query_loop ::
    "('u, 'z) vendor_scheme \<Rightarrow> s3_env \<Rightarrow> string \<Rightarrow> nat \<Rightarrow> pairs \<Rightarrow> QueryStringError + pairs" where
  "query_loop V E search_copy pos query =
     (if pos \<ge> length search_copy then Inr query
      else let amp = find_char (CHR ''&'') search_copy pos in
        case find_char (CHR ''='') search_copy pos of
          None \<Rightarrow> Inr query
        | Some eq \<Rightarrow>
            let key_part = substr search_copy pos (eq - pos);
                val_part = query_value search_copy amp eq;
                key = percent_decode E key_part (index_of (CHR ''%'') key_part);
                v = percent_decode E val_part (index_of (CHR ''%'') val_part)
            in TRY_ERR_AS (FromBytes V key) kInvalidUtf8Key (\<lambda>key_text.
               TRY_ERR_AS (FromBytes V v) kInvalidUtf8Value (\<lambda>value_text.
               case amp of
                 None \<Rightarrow> Inr (query @ [(key_text, value_text)])
               | Some amp \<Rightarrow> query_loop V E search_copy (amp + 1) (query @ [(key_text, value_text)]))))"
  by pat_completeness auto
termination
  by (relation "measure (\<lambda>(V, E, s, pos, q). length s - pos)") (auto dest!: find_char_bounds find_char_bounds [OF sym])

declare query_loop.simps [simp del]

definition DecodeQueryString ::
    "('u, 'z) vendor_scheme \<Rightarrow> s3_env \<Rightarrow> string \<Rightarrow> QueryStringError + pairs" where
  "DecodeQueryString V E search =
     (if search = [] then Inr []
      else let search_copy = (if hd search = CHR ''?'' then tl search else search)
           in query_loop V E search_copy 0 [])"

section \<open>Refresh of credentials\<close>

text \<open>\<open>s3refresh::ComputeRefreshDelay\<close>, in nanoseconds and whole seconds.\<close>

definition ComputeRefreshDelay :: "int \<Rightarrow> int \<Rightarrow> int \<Rightarrow> int" where
  "ComputeRefreshDelay now expires_at margin_s =
     (let delay = expires_at - now - margin_s * 1000000000
      in if delay < 0 then 0 else delay div 1000000000)"

section \<open>Percent-encoding reads back\<close>

text \<open>
  The percent decoding of the URL standard, and the contracts: \<open>ada\<close> implements it, and removing extra
  white space keeps a part of the characters.
\<close>

definition hex_value :: "char \<Rightarrow> nat option" where
  "hex_value c = (case index_of c upper_hex of None \<Rightarrow> index_of c hex_digits | Some n \<Rightarrow> Some n)"

fun percent_decoded :: "string \<Rightarrow> string" where
  "percent_decoded (c # a # b # s) =
     (case (c = CHR ''%'', hex_value a, hex_value b) of
        (True, Some x, Some y) \<Rightarrow> char_of (16 * x + y) # percent_decoded s
      | _ \<Rightarrow> c # percent_decoded (a # b # s))"
| "percent_decoded s = s"

definition percent_contract :: "s3_env \<Rightarrow> bool" where
  "percent_contract E \<longleftrightarrow> (\<forall>s. percent_decode E s (index_of (CHR ''%'') s) = percent_decoded s)"

definition whitespace_contract :: "s3_env \<Rightarrow> bool" where
  "whitespace_contract E \<longleftrightarrow> (\<forall>s. set (RemoveExtraAsciiWhitespace E s) \<subseteq> set s)"

lemma percent_decoded_other: "c \<noteq> CHR ''%'' \<Longrightarrow> percent_decoded (c # s) = c # percent_decoded s"
  by (cases s; cases "tl s") auto

lemma hex_value_upper: "n < 16 \<Longrightarrow> hex_value (upper_hex ! n) = Some n"
proof -
  have "\<forall>n\<in>set [0..<16]. hex_value (upper_hex ! n) = Some n"
    by (simp add: hex_value_def upper_hex_def upt_rec)
  then show "n < 16 \<Longrightarrow> hex_value (upper_hex ! n) = Some n" by simp
qed

lemma byte_nibbles:
  "(of_char c :: nat) div 16 mod 16 = of_char c div 16" "(of_char c :: nat) div 16 < 16"
proof -
  show "(of_char c :: nat) div 16 < 16" by (rule less_mult_imp_div_less) simp
  then show "(of_char c :: nat) div 16 mod 16 = of_char c div 16" by simp
qed

lemma percent_decoded_byte: "percent_decoded (percent_byte c @ s) = c # percent_decoded s"
proof -
  have "16 * (of_char c div 16) + of_char c mod 16 = (of_char c :: nat)" by simp
  then have "char_of (16 * (of_char c div 16) + of_char c mod 16 :: nat) = c"
    using char_of_char by metis
  then show ?thesis
    by (simp add: percent_byte_def Let_def byte_nibbles hex_value_upper del: mult_div_mod_eq)
qed

lemma percent_not_unreserved: "\<not> IsUnreserved (CHR ''%'')"
  by (simp add: IsUnreserved_def less_eq_char_def)

theorem percent_decoded_encode: "percent_decoded (PercentEncodeBytes s es) = s"
proof (induction s)
  case (Cons c s)
  show ?case
  proof (cases "IsUnreserved c \<or> (es = kNo \<and> c = CHR ''/'')")
    case True
    then have "c \<noteq> CHR ''%''" using percent_not_unreserved by auto
    with True Cons show ?thesis by (simp add: percent_decoded_other)
  next
    case False
    then show ?thesis by (auto simp add: percent_decoded_byte Cons)
  qed
qed simp

lemma PercentEncodeBytes_inject: "PercentEncodeBytes s es = PercentEncodeBytes t es \<longleftrightarrow> s = t"
  by (metis percent_decoded_encode)

lemma percent_byte_chars: "x \<in> set (percent_byte c) \<Longrightarrow> x = CHR ''%'' \<or> x \<in> set upper_hex"
proof -
  have "n < 16 \<Longrightarrow> upper_hex ! n \<in> set upper_hex" for n
    by (rule nth_mem) (simp add: upper_hex_def)
  then show "x \<in> set (percent_byte c) \<Longrightarrow> x = CHR ''%'' \<or> x \<in> set upper_hex"
    by (auto simp: percent_byte_def Let_def)
qed

lemma PercentEncodeBytes_chars:
  "x \<in> set (PercentEncodeBytes s es) \<Longrightarrow>
     IsUnreserved x \<or> x = CHR ''%'' \<or> x \<in> set upper_hex \<or> (es = kNo \<and> x = CHR ''/'')"
  by (induction s) (auto dest: percent_byte_chars split: if_splits)

lemma not_encoded:
  "\<not> IsUnreserved x \<Longrightarrow> x \<noteq> CHR ''%'' \<Longrightarrow> x \<notin> set upper_hex \<Longrightarrow> x \<noteq> CHR ''/'' \<Longrightarrow>
     x \<notin> set (PercentEncodeBytes s es)"
  using PercentEncodeBytes_chars by blast

lemma separators_not_encoded [simp]:
  "CHR ''='' \<notin> set (PercentEncodeBytes s es)" "CHR ''&'' \<notin> set (PercentEncodeBytes s es)"
  "CHR 0x0A \<notin> set (PercentEncodeBytes s es)" "CHR ''?'' \<notin> set (PercentEncodeBytes s es)"
  by (rule not_encoded; simp add: IsUnreserved_def upper_hex_def less_eq_char_def)+

lemma IsUnreserved_ascii: "IsUnreserved x \<Longrightarrow> of_char x < (128::nat)"
  unfolding IsUnreserved_def less_eq_char_def by (elim disjE conjE; simp)

lemma upper_hex_ascii: "is_ascii upper_hex"
  by (simp add: upper_hex_def)

lemma PercentEncodeBytes_ascii: "is_ascii (PercentEncodeBytes s es)"
  unfolding is_ascii_def
proof
  fix x
  assume "x \<in> set (PercentEncodeBytes s es)"
  from PercentEncodeBytes_chars [OF this] show "of_char x < (128::nat)"
    using IsUnreserved_ascii upper_hex_ascii unfolding is_ascii_def by auto
qed

section \<open>The canonical request determines what is signed\<close>

lemma cut_first: "c \<notin> set k \<Longrightarrow> c \<notin> set k' \<Longrightarrow> k @ c # v = k' @ c # v' \<longleftrightarrow> k = k' \<and> v = v'"
proof (induction k arbitrary: k')
  case Nil
  then show ?case by (cases k') auto
next
  case (Cons a k)
  then show ?case by (cases k') auto
qed

lemma map_eq_iff_list_all2: "map f xs = map f ys \<longleftrightarrow> list_all2 (\<lambda>x y. f x = f y) xs ys"
  by (induction xs arbitrary: ys) (auto simp: list_all2_Cons1 Cons_eq_map_conv)

text \<open>
  An interface for texts of name and value pairs: names and values are encoded without the two
  separators and decoded again.
\<close>

locale pair_text =
  fixes encode decode :: "string \<Rightarrow> string" and kv sep :: char
  assumes decode_encode: "decode (encode s) = s"
    and no_kv: "kv \<notin> set (encode s)" and no_sep: "sep \<notin> set (encode s)" and distinct_sep: "kv \<noteq> sep"
begin

lemma encode_inject: "encode s = encode t \<longleftrightarrow> s = t"
  by (metis decode_encode)

lemma piece_inject:
  "encode k @ kv # encode v = encode k' @ kv # encode v' \<longleftrightarrow> k = k' \<and> v = v'"
  by (simp add: cut_first no_kv encode_inject)

lemma pieces_inject:
  assumes "join_with [sep] (map (\<lambda>(k, v). encode k @ kv # encode v) ps) =
    join_with [sep] (map (\<lambda>(k, v). encode k @ kv # encode v) qs)"
  shows "ps = qs"
proof -
  let ?f = "\<lambda>(k, v). encode k @ kv # encode v"
  have no: "sep \<notin> set l" if "l \<in> set (map ?f xs)" for l xs
    using that no_sep distinct_sep by auto
  have nonempty: "join_with [sep] (map ?f xs) = [] \<longleftrightarrow> xs = []" for xs
    by (cases xs; cases "tl xs") auto
  show ?thesis
  proof (cases "ps = [] \<or> qs = []")
    case True
    then show ?thesis using assms nonempty by metis
  next
    case False
    have cut: "split_on sep (join_with [sep] (map ?f xs)) = map ?f xs" if "xs \<noteq> []" for xs
      by (rule split_on_join_with) (use that no in blast)+
    have "map ?f ps = map ?f qs" using cut [of ps] cut [of qs] False assms by metis
    moreover have "inj ?f" by (rule injI) (auto simp: piece_inject)
    ultimately show ?thesis by (simp add: inj_map_eq_map)
  qed
qed

end

interpretation pq: pair_text "\<lambda>s. PercentEncodeBytes s kYes" percent_decoded "CHR ''=''" "CHR ''&''"
  by unfold_locales (simp_all add: percent_decoded_encode)

text \<open>The pairs of a query in the order of their encoded form.\<close>

definition encoded_pair :: "string \<times> string \<Rightarrow> string \<times> string" where
  "encoded_pair p = (PercentEncodeBytes (fst p) kYes, PercentEncodeBytes (snd p) kYes)"

definition query_piece :: "string \<times> string \<Rightarrow> string" where
  "query_piece p = PercentEncodeBytes (fst p) kYes @ CHR ''='' # PercentEncodeBytes (snd p) kYes"

definition canonical_pairs :: "pairs \<Rightarrow> pairs" where
  "canonical_pairs q = map (\<lambda>p. (percent_decoded (fst p), percent_decoded (snd p))) (sort (map encoded_pair q))"

lemma mset_canonical_pairs: "mset (canonical_pairs q) = mset q"
  by (simp add: canonical_pairs_def encoded_pair_def image_mset.compositionality comp_def
      percent_decoded_encode)

lemma CanonicalizeQueryImpl_pieces:
  "CanonicalizeQueryImpl q = join_with ''&'' (map query_piece (canonical_pairs q))"
proof -
  have "query_piece (percent_decoded (fst p), percent_decoded (snd p)) = fst p @ ''='' @ snd p"
    if "p \<in> set (sort (map encoded_pair q))" for p
    using that by (auto simp: query_piece_def encoded_pair_def percent_decoded_encode)
  then have "map query_piece (canonical_pairs q) = map (\<lambda>p. fst p @ ''='' @ snd p) (sort (map encoded_pair q))"
    by (simp add: canonical_pairs_def)
  then show ?thesis
    by (simp add: CanonicalizeQueryImpl_def Let_def split_def encoded_pair_def [abs_def])
qed

lemma CanonicalizeQuery_binds:
  assumes "CanonicalizeQueryImpl q = CanonicalizeQueryImpl q'"
  shows "mset q = mset q'"
proof -
  have "canonical_pairs q = canonical_pairs q'"
    using assms by (intro pq.pieces_inject)
      (simp add: CanonicalizeQueryImpl_pieces query_piece_def [abs_def] split_def)
  then show ?thesis by (metis mset_canonical_pairs)
qed

text \<open>Lines of texts without a line feed are determined by the text they are joined to.\<close>

definition single_line :: "string \<Rightarrow> bool" where
  "single_line s \<longleftrightarrow> CHR 0x0A \<notin> set s"

lemma lines_inject:
  assumes "join_with [CHR 0x0A] ls = join_with [CHR 0x0A] ls'" and "ls \<noteq> []" and "ls' \<noteq> []"
    and "\<forall>l\<in>set ls. single_line l" and "\<forall>l\<in>set ls'. single_line l"
  shows "ls = ls'"
proof -
  have "split_on (CHR 0x0A) (join_with [CHR 0x0A] ls) = ls" "split_on (CHR 0x0A) (join_with [CHR 0x0A] ls') = ls'"
    using assms(2-5) unfolding single_line_def by (auto intro: split_on_join_with)
  with assms(1) show ?thesis by metis
qed

definition signable :: "pairs \<Rightarrow> bool" where
  "signable hs \<longleftrightarrow> (\<forall>(k, v)\<in>set hs. single_line k \<and> single_line v \<and> CHR '':'' \<notin> set k)"

definition request_lines :: "s3_env \<Rightarrow> string \<Rightarrow> string \<Rightarrow> pairs \<Rightarrow> pairs \<Rightarrow> string \<Rightarrow> string list" where
  "request_lines E m u q hs payload =
     [m, PercentEncodeBytes u kNo, CanonicalizeQueryImpl q] @
     map (\<lambda>h. fst h @ '':'' @ TrimSpaces E (snd h)) hs @ [[], JoinSignedHeaders hs, payload]"

lemma join_with_Cons: "ys \<noteq> [] \<Longrightarrow> join_with sep (x # ys) = x @ sep @ join_with sep ys"
  by (cases ys) auto

lemma join_with_blocks:
  "ys \<noteq> [] \<Longrightarrow> join_with sep (xs @ ys) = concat (map (\<lambda>x. x @ sep) xs) @ join_with sep ys"
proof (induction xs)
  case (Cons x xs)
  then show ?case by (cases "xs @ ys") auto
qed simp

lemma canonical_request_lines:
  "canonical_request (MakeCanonicalRequest E m u q hs payload) =
     join_with [CHR 0x0A] (request_lines E m u q hs payload)"
  by (simp add: MakeCanonicalRequest_def request_lines_def Let_def join_with_Cons join_with_blocks
      header_lines_def split_def comp_def)

lemma joined_single_line: "single_line sep \<Longrightarrow> \<forall>x\<in>set xs. single_line x \<Longrightarrow> single_line (join_with sep xs)"
  by (induction sep xs rule: join_with.induct) (auto simp: single_line_def)

lemma single_line_pieces: "single_line (CanonicalizeQueryImpl q)"
  unfolding CanonicalizeQueryImpl_pieces
  by (rule joined_single_line) (auto simp: single_line_def query_piece_def)

lemma single_line_trim: "whitespace_contract E \<Longrightarrow> single_line v \<Longrightarrow> single_line (TrimSpaces E v)"
  by (auto simp: whitespace_contract_def single_line_def TrimSpaces_def)

lemma request_lines_single:
  assumes "whitespace_contract E" and "single_line m" and "single_line payload" and "signable hs"
  shows "\<forall>l\<in>set (request_lines E m u q hs payload). single_line l"
proof -
  have "single_line (JoinSignedHeaders hs)"
    unfolding JoinSignedHeaders_def using assms(4)
    by (intro joined_single_line) (auto simp: signable_def single_line_def)
  moreover have "single_line (fst h @ '':'' @ TrimSpaces E (snd h))" if "h \<in> set hs" for h
    using that assms(4) single_line_trim [OF assms(1), of "snd h"] by (auto simp: signable_def single_line_def)
  ultimately show ?thesis
    using assms(2,3) single_line_pieces by (auto simp: request_lines_def single_line_def)
qed

theorem canonical_request_binds:
  assumes E: "whitespace_contract E" and "single_line m" "single_line payload" "signable hs"
    and "single_line m'" "single_line payload'" "signable hs'"
    and eq: "canonical_request (MakeCanonicalRequest E m u q hs payload) =
      canonical_request (MakeCanonicalRequest E m' u' q' hs' payload')"
  shows "m = m' \<and> u = u' \<and> mset q = mset q' \<and> payload = payload' \<and>
    map (\<lambda>(k, v). (k, TrimSpaces E v)) hs = map (\<lambda>(k, v). (k, TrimSpaces E v)) hs'"
proof -
  let ?line = "\<lambda>h. fst h @ '':'' @ TrimSpaces E (snd h)"
  have "request_lines E m u q hs payload = request_lines E m' u' q' hs' payload'"
    by (rule lines_inject [OF eq [unfolded canonical_request_lines]])
      (simp add: request_lines_def, simp add: request_lines_def,
       rule request_lines_single [OF E assms(2-4)], rule request_lines_single [OF E assms(5-7)])
  then have l: "m = m'" "PercentEncodeBytes u kNo = PercentEncodeBytes u' kNo"
      "CanonicalizeQueryImpl q = CanonicalizeQueryImpl q'" "payload = payload'"
      "map ?line hs = map ?line hs'"
    by (auto simp: request_lines_def append_eq_append_conv)
  have "list_all2 (\<lambda>h h'. ?line h = ?line h') hs hs'"
    using l(5) by (simp only: map_eq_iff_list_all2)
  then have "list_all2 (\<lambda>h h'. (fst h, TrimSpaces E (snd h)) = (fst h', TrimSpaces E (snd h'))) hs hs'"
    by (rule list.rel_mono_strong)
      (use assms(4,7) in \<open>auto simp: signable_def cut_first dest!: bspec\<close>)
  then have "map (\<lambda>h. (fst h, TrimSpaces E (snd h))) hs = map (\<lambda>h. (fst h, TrimSpaces E (snd h))) hs'"
    by (simp only: map_eq_iff_list_all2)
  then show ?thesis using l(1,2,4) CanonicalizeQuery_binds [OF l(3)]
    by (simp add: PercentEncodeBytes_inject split_def)
qed

section \<open>A canonical query reads back\<close>

definition texts_ok :: "('u, 'z) vendor_scheme \<Rightarrow> pairs \<Rightarrow> bool" where
  "texts_ok V ps \<longleftrightarrow> (\<forall>p\<in>set ps. wf_text V (fst p) \<and> wf_text V (snd p))"

lemma index_of_append_skip: "c \<notin> set xs \<Longrightarrow> index_of c (xs @ ys) = map_option ((+) (length xs)) (index_of c ys)"
  by (induction xs; cases "index_of c ys") (auto simp del: index_of_None_iff)

lemma piece_separators:
  "index_of (CHR ''='') (query_piece p @ r) = Some (length (PercentEncodeBytes (fst p) kYes))"
  "CHR ''&'' \<notin> set (query_piece p)"
  by (simp_all add: query_piece_def index_of_append_skip)

lemma query_loop_step:
  assumes E: "percent_contract E" and "wf_text V (fst p)" and "wf_text V (snd p)"
    and "length s < 2 ^ 64" and s: "s = pre @ query_piece p @ r" and r: "r = [] \<or> hd r = CHR ''&''"
  shows "query_loop V E s (length pre) q =
    (if r = [] then Inr (q @ [p]) else query_loop V E s (length pre + length (query_piece p) + 1) (q @ [p]))"
proof -
  let ?k = "PercentEncodeBytes (fst p) kYes" and ?v = "PercentEncodeBytes (snd p) kYes"
  have piece: "query_piece p = ?k @ CHR ''='' # ?v" by (simp add: query_piece_def)
  have eq: "find_char (CHR ''='') s (length pre) = Some (length pre + length ?k)"
    by (simp add: find_char_def s piece_separators)
  have amp: "find_char (CHR ''&'') s (length pre) =
      (if r = [] then None else Some (length pre + length (query_piece p)))"
    using r piece_separators(2) [of p]
    by (cases r) (simp_all add: find_char_def s index_of_append_skip)
  have key: "substr s (length pre) (length ?k) = ?k"
    by (simp add: substr_def s piece)
  have v: "query_value s (if r = [] then None else Some (length pre + length (query_piece p)))
      (length pre + length ?k) = ?v"
  proof (cases "r = []")
    case True
    then show ?thesis by (simp add: query_value_def substr_from_def s piece)
  next
    case False
    have "int (length pre + length (query_piece p)) - int (length pre + length ?k) - 1 = int (length ?v)"
      by (simp add: piece)
    moreover have "int (length ?v) < 2 ^ 64"
      using assms(4) by (simp add: s piece)
    ultimately have "nat ((int (length pre + length (query_piece p)) - int (length pre + length ?k) - 1)
        mod 2 ^ 64) = length ?v" by simp
    then show ?thesis using False by (simp add: query_value_def substr_def s piece)
  qed
  have dec: "percent_decode E (PercentEncodeBytes t kYes) (index_of (CHR ''%'') (PercentEncodeBytes t kYes)) = t" for t
    using E by (simp add: percent_contract_def percent_decoded_encode)
  have "\<not> length pre \<ge> length s" by (simp add: s piece)
  then show ?thesis
    by (subst query_loop.simps)
      (simp add: Let_def eq amp key v dec FromBytes_of_wf [OF assms(2)] FromBytes_of_wf [OF assms(3)]
       del: One_nat_def)
qed

lemma query_loop_pieces:
  assumes "percent_contract E" and "length s < 2 ^ 64"
  shows "texts_ok V ps \<Longrightarrow> ps \<noteq> [] \<Longrightarrow> s = pre @ join_with ''&'' (map query_piece ps) \<Longrightarrow>
    query_loop V E s (length pre) q = Inr (q @ ps)"
proof (induction ps arbitrary: pre q)
  case (Cons p ps)
  have wf: "wf_text V (fst p)" "wf_text V (snd p)" using Cons.prems(1) by (simp_all add: texts_ok_def)
  show ?case
  proof (cases "ps = []")
    case True
    with Cons.prems query_loop_step [OF assms(1) wf assms(2), of pre "[]" q] show ?thesis by simp
  next
    case False
    let ?r = "CHR ''&'' # join_with ''&'' (map query_piece ps)"
    have s: "s = pre @ query_piece p @ ?r" using Cons.prems(3) False by (simp add: join_with_Cons)
    have "query_loop V E s (length (pre @ query_piece p @ ''&'')) (q @ [p]) = Inr ((q @ [p]) @ ps)"
      by (rule Cons.IH) (use Cons.prems(1) False s in \<open>simp_all add: texts_ok_def\<close>)
    then show ?thesis using query_loop_step [OF assms(1) wf assms(2) s, of q] by simp
  qed
qed simp

lemma pieces_head: "ps \<noteq> [] \<Longrightarrow> join_with ''&'' (map query_piece ps) \<noteq> [] \<and>
    hd (join_with ''&'' (map query_piece ps)) \<noteq> CHR ''?''"
proof -
  have "hd (query_piece p @ r) \<noteq> CHR ''?''" "query_piece p \<noteq> []" for p r
    using hd_in_set [of "query_piece p"] separators_not_encoded(4)
    by (auto simp: query_piece_def hd_append split: if_splits)
      (metis separators_not_encoded(4) hd_in_set)
  then show "ps \<noteq> [] \<Longrightarrow> ?thesis"
    by (cases ps; cases "tl ps") (auto simp: join_with_Cons)
qed

theorem DecodeQueryString_canonical:
  assumes "percent_contract E" and "texts_ok V q" and "length (CanonicalizeQuery q) < 2 ^ 64"
  shows "DecodeQueryString V E (CHR ''?'' # CanonicalizeQuery q) = Inr (canonical_pairs q)"
    and "DecodeQueryString V E (CanonicalizeQuery q) = Inr (canonical_pairs q)"
proof -
  let ?ps = "canonical_pairs q"
  have j: "CanonicalizeQuery q = join_with ''&'' (map query_piece ?ps)"
    by (simp add: CanonicalizeQuery_def CanonicalizeQueryImpl_pieces)
  have ok: "texts_ok V ?ps"
    using assms(2) mset_eq_setD [OF mset_canonical_pairs, of q] by (simp add: texts_ok_def)
  have loop: "query_loop V E (CanonicalizeQuery q) 0 [] = Inr ?ps"
  proof (cases "?ps = []")
    case True
    then show ?thesis by (simp add: j query_loop.simps)
  next
    case False
    from query_loop_pieces [OF assms(1,3) ok this, of "[]" "[]"] show ?thesis by (simp add: j)
  qed
  show "DecodeQueryString V E (CHR ''?'' # CanonicalizeQuery q) = Inr ?ps"
    using loop by (simp add: DecodeQueryString_def)
  show "DecodeQueryString V E (CanonicalizeQuery q) = Inr ?ps"
  proof (cases "?ps = []")
    case True
    then show ?thesis by (simp add: j DecodeQueryString_def)
  next
    case False
    from pieces_head [OF this] loop show ?thesis by (simp add: j DecodeQueryString_def)
  qed
qed

end
