(* ===== verification/S3_Client.thy ===== *)
theory S3_Client
  imports S3_Sign "HOL-Library.Signed_Division"
begin

text \<open>
  \<open>src/s3/client.cpp\<close>, \<open>src/s3/sts_client.cpp\<close> and their headers: the requests to the object store,
  presigned addresses, and the request for temporary credentials.  The HTTP client is a function of
  the environment; a request it is given is what goes out.
\<close>

section \<open>HTTP\<close>

text \<open>\<open>httpc::Headers\<close> compares names without regard to case: \<open>headers[name] = value\<close>.\<close>

definition lower :: "string \<Rightarrow> string" where
  "lower s = map ascii_lower s"

fun set_header :: "string \<Rightarrow> string \<Rightarrow> pairs \<Rightarrow> pairs" where
  "set_header name v [] = [(name, v)]"
| "set_header name v ((n, w) # hs) = (if lower n = lower name then (n, v) # hs else (n, w) # set_header name v hs)"

fun get_header :: "string \<Rightarrow> pairs \<Rightarrow> (string \<times> string) option" where
  "get_header name [] = None"
| "get_header name ((n, w) # hs) = (if lower n = lower name then Some (n, w) else get_header name hs)"

definition set_headers :: "pairs \<Rightarrow> pairs \<Rightarrow> pairs" where
  "set_headers new headers = fold (\<lambda>(name, v) hs. set_header name v hs) new headers"

record http_request =
  hreq_method :: string
  hreq_url :: string
  hreq_headers :: pairs
  hreq_body :: string
  hreq_timeout_ms :: int

record http_response =
  resp_status :: int
  resp_headers :: pairs
  resp_body :: string

text \<open>\<open>perform\<close> may throw; \<open>raise_for_status\<close> throws for the statuses in \<open>status_raises\<close>.\<close>

record http_env =
  perform :: "http_request \<Rightarrow> http_response outcome"
  status_raises :: "int \<Rightarrow> bool"

definition perform_checked :: "http_env \<Rightarrow> http_request \<Rightarrow> http_response outcome" where
  "perform_checked H request =
     and_then (perform H request) (\<lambda>resp.
       if status_raises H (resp_status resp) then Throws ''HttpException'' else Returns resp)"

section \<open>The client\<close>

record 'u EndpointParts =
  ep_url :: 'u
  ep_host :: string
  ep_hostname :: string
  ep_port :: string
  ep_base_path :: string

record BuiltUrl =
  built_href :: string
  built_host :: string
  built_raw_path :: string

datatype VirtualHostPresignError = kMissingBucket

record S3Config =
  s3_endpoint :: string
  s3_region :: string
  s3_timeout_ms :: int
  s3_virtual_hosted :: bool

record Credentials =
  cr_access_key_id :: string
  cr_secret_access_key :: string
  cr_session_token :: "string option"

record 'u Client =
  client_config :: S3Config
  client_creds :: Credentials
  client_bucket_name :: string
  client_endpoint :: "'u EndpointParts"

definition kMinPresignTtl :: int where "kMinPresignTtl = 1"

definition kMaxPresignTtl :: int where "kMaxPresignTtl = 604800"

definition ParseEndpoint :: "('u, 'z) vendor_scheme \<Rightarrow> string \<Rightarrow> 'u EndpointParts outcome" where
  "ParseEndpoint V ep =
     (case ParseUrlWithDefaultHttpScheme V ep of
        None \<Rightarrow> Aborts '' endpoint must parse''
      | Some url \<Rightarrow>
          Invariant (IsHttpOrHttps V url) '' endpoint must be http or https''
          (Invariant (\<not> HasSearch V url) '' endpoint must not include query''
          (and_then (Pathname V url) (\<lambda>path.
           let path = (if path = [] then ''/'' else path) in
           Invariant (path = ''/'') '' endpoint path must be root''
           (and_then (Host V url) (\<lambda>host.
            and_then (Hostname V url) (\<lambda>hostname.
            and_then (if HasPort V url then Port V url else Returns []) (\<lambda>port_text.
              Returns \<lparr>ep_url = url, ep_host = host, ep_hostname = hostname, ep_port = port_text,
                ep_base_path = ''/''\<rparr>))))))))"

definition ValidateVirtualHostBucketName :: "string \<Rightarrow> VirtualHostPresignError + unit" where
  "ValidateVirtualHostBucketName bucket_name =
     (if bucket_name = [] then Inl kMissingBucket else Inr ())"

definition make_Client ::
    "('u, 'z) vendor_scheme \<Rightarrow> S3Config \<Rightarrow> Credentials \<Rightarrow> string \<Rightarrow> 'u Client outcome" where
  "make_Client V config creds bucket_name =
     and_then (ParseEndpoint V (s3_endpoint config)) (\<lambda>endpoint.
       Returns \<lparr>client_config = config, client_creds = creds, client_bucket_name = bucket_name,
         client_endpoint = endpoint\<rparr>)"

definition MakeSigParams :: "s3_env \<Rightarrow> 'u Client \<Rightarrow> int \<Rightarrow> SigParams" where
  "MakeSigParams E c now =
     make_SigParams E (s3_region (client_config c)) ''s3'' (cr_access_key_id (client_creds c))
       (cr_secret_access_key (client_creds c)) (cr_session_token (client_creds c)) now"

text \<open>\<open>*text::StringPairs(pairs)\<close>.\<close>

definition deref_pairs :: "('u, 'z) vendor_scheme \<Rightarrow> pairs \<Rightarrow> pairs outcome" where
  "deref_pairs V ps = (case StringPairs V ps of Inl _ \<Rightarrow> Aborts ''expected value'' | Inr r \<Rightarrow> Returns r)"

definition SignRequest ::
    "('u, 'z) vendor_scheme \<Rightarrow> s3_env \<Rightarrow> 'u Client \<Rightarrow> int \<Rightarrow> string \<Rightarrow> string \<Rightarrow> string \<Rightarrow> pairs \<Rightarrow> string \<Rightarrow>
     pairs outcome" where
  "SignRequest V E c now m canonical_uri host headers payload_hash =
     (let params = MakeSigParams E c now;
          prepared = PrepareSignedHeaders V host headers
      in and_then (deref_pairs V prepared) (\<lambda>headers_text.
         and_then (SignHeaders V E params m canonical_uri [] headers_text payload_hash) (\<lambda>signed_map.
           Returns (set_headers signed_map headers))))"

datatype IncludeBucket = BucketNo | BucketYes

definition MakeRawPath :: "('u, 'z) vendor_scheme \<Rightarrow> 'u Client \<Rightarrow> string \<Rightarrow> IncludeBucket \<Rightarrow> string outcome" where
  "MakeRawPath V c path_bytes include_bucket =
     (let bucket = client_bucket_name c;
          raw = ep_base_path (client_endpoint c);
          raw = (if raw = [] then ''/'' else raw);
          raw = (if raw \<noteq> [] \<and> last raw \<noteq> CHR ''/'' then raw @ ''/'' else raw);
          raw = (if include_bucket = BucketYes \<and> bucket \<noteq> []
                 then raw @ bucket @ (if path_bytes \<noteq> [] then ''/'' else []) else raw);
          raw = raw @ path_bytes;
          raw = (if raw = [] \<or> hd raw \<noteq> CHR ''/'' then CHR ''/'' # raw else raw)
      in deref_text V raw)"

definition MakePathStyleUrl ::
    "('u, 'z) vendor_scheme \<Rightarrow> 'u Client \<Rightarrow> string \<Rightarrow> string option \<Rightarrow> BuiltUrl outcome" where
  "MakePathStyleUrl V c path_text protocol_override =
     and_then (MakeRawPath V c path_text BucketYes) (\<lambda>raw_path.
     and_then (case protocol_override of
         Some p \<Rightarrow> WithProtocol V (ep_url (client_endpoint c)) p
       | None \<Rightarrow> Returns (ep_url (client_endpoint c))) (\<lambda>url.
     and_then (WithPathname V url raw_path) (\<lambda>url.
     let url = Without V url (or kHash kQuery) in
     and_then (Href V url) (\<lambda>href.
       Returns \<lparr>built_href = href, built_host = ep_host (client_endpoint c), built_raw_path = raw_path\<rparr>))))"

definition MakeVirtualHostUrl ::
    "('u, 'z) vendor_scheme \<Rightarrow> 'u Client \<Rightarrow> string \<Rightarrow> string \<Rightarrow> BuiltUrl outcome" where
  "MakeVirtualHostUrl V c path_text protocol =
     Invariant (ValidateVirtualHostBucketName (client_bucket_name c) = Inr ()) ''presign requires non-empty bucket''
     (and_then (MakeRawPath V c path_text BucketNo) (\<lambda>raw_path.
      and_then (deref_text V (client_bucket_name c @ ''.'' @ ep_hostname (client_endpoint c))) (\<lambda>hostname.
      and_then (WithProtocol V (ep_url (client_endpoint c)) protocol) (\<lambda>url.
      and_then (WithHostname V url hostname) (\<lambda>url.
      and_then (WithPort V url (ep_port (client_endpoint c))) (\<lambda>url.
      and_then (WithPathname V url raw_path) (\<lambda>url.
      let url = Without V url (or kHash kQuery) in
      and_then (Href V url) (\<lambda>href.
      and_then (Host V url) (\<lambda>host.
        Returns \<lparr>built_href = href, built_host = host, built_raw_path = raw_path\<rparr>)))))))))"

section \<open>Objects\<close>

definition meta_headers :: "pairs option \<Rightarrow> pairs" where
  "meta_headers meta = (case meta of None \<Rightarrow> [] | Some m \<Rightarrow> map (\<lambda>(name, v). (''x-amz-meta-'' @ name, v)) m)"

definition put_headers :: "pairs option \<Rightarrow> string \<Rightarrow> string option \<Rightarrow> pairs" where
  "put_headers meta content_type content_disposition =
     (let headers = set_header ''Content-Type'' content_type [];
          headers = (case content_disposition of
             None \<Rightarrow> headers | Some d \<Rightarrow> set_header ''Content-Disposition'' d headers)
      in set_headers (meta_headers meta) headers)"

definition PutObject ::
    "('u, 'z) vendor_scheme \<Rightarrow> s3_env \<Rightarrow> http_env \<Rightarrow> 'u Client \<Rightarrow> int \<Rightarrow> string \<Rightarrow> string \<Rightarrow> pairs option \<Rightarrow>
     string \<Rightarrow> string option \<Rightarrow> string outcome" where
  "PutObject V E H c now name data meta content_type content_disposition =
     and_then (deref_text V name) (\<lambda>path_text.
     and_then (MakePathStyleUrl V c path_text None) (\<lambda>built.
     let headers = put_headers meta content_type content_disposition
     in and_then (Sha256Hex V E data) (\<lambda>payload_hash.
        and_then (SignRequest V E c now ''PUT'' (built_raw_path built) (built_host built) headers payload_hash)
          (\<lambda>headers.
        and_then (perform_checked H
            \<lparr>hreq_method = ''PUT'', hreq_url = built_href built, hreq_headers = headers, hreq_body = data,
             hreq_timeout_ms = s3_timeout_ms (client_config c)\<rparr>) (\<lambda>resp.
          Returns (resp_body resp))))))"

definition DeleteObject ::
    "('u, 'z) vendor_scheme \<Rightarrow> s3_env \<Rightarrow> http_env \<Rightarrow> 'u Client \<Rightarrow> int \<Rightarrow> string \<Rightarrow> unit outcome" where
  "DeleteObject V E H c now name =
     and_then (deref_text V name) (\<lambda>path_text.
     and_then (MakePathStyleUrl V c path_text None) (\<lambda>built.
     and_then (Sha256Hex V E []) (\<lambda>payload_hash.
     and_then (SignRequest V E c now ''DELETE'' (built_raw_path built) (built_host built) [] payload_hash)
       (\<lambda>headers.
     and_then (perform_checked H
         \<lparr>hreq_method = ''DELETE'', hreq_url = built_href built, hreq_headers = headers, hreq_body = [],
          hreq_timeout_ms = s3_timeout_ms (client_config c)\<rparr>) (\<lambda>resp.
       Returns ())))))"

record HeaderDataRequest =
  need_meta :: bool
  wanted_headers :: "string list option"

record HeadersDataResponse =
  out_meta :: "pairs option"
  out_headers :: "pairs option"

text \<open>\<open>emplace\<close> of a map keeps the first value of a key.\<close>

definition emplace :: "string \<Rightarrow> string \<Rightarrow> pairs \<Rightarrow> pairs" where
  "emplace name v m = (if map_of m name = None then m @ [(name, v)] else m)"

definition head_meta :: "('u, 'z) vendor_scheme \<Rightarrow> pairs \<Rightarrow> pairs" where
  "head_meta V headers =
     fold (\<lambda>(name, v) m. if ICaseStartsWith V name ''x-amz-meta-''
       then emplace (substr_from name (length ''x-amz-meta-'')) v m else m) headers []"

definition head_headers :: "string list \<Rightarrow> pairs \<Rightarrow> pairs" where
  "head_headers wanted headers =
     fold (\<lambda>w m. case get_header w headers of Some (name, v) \<Rightarrow> emplace name v m | None \<Rightarrow> m) wanted []"

definition GetObjectHead ::
    "('u, 'z) vendor_scheme \<Rightarrow> s3_env \<Rightarrow> http_env \<Rightarrow> 'u Client \<Rightarrow> int \<Rightarrow> string \<Rightarrow> HeaderDataRequest \<Rightarrow>
     HeadersDataResponse outcome" where
  "GetObjectHead V E H c now name request =
     and_then (deref_text V name) (\<lambda>path_text.
     and_then (MakePathStyleUrl V c path_text None) (\<lambda>built.
     and_then (Sha256Hex V E []) (\<lambda>payload_hash.
     and_then (SignRequest V E c now ''HEAD'' (built_raw_path built) (built_host built) [] payload_hash)
       (\<lambda>headers.
     and_then (perform_checked H
         \<lparr>hreq_method = ''HEAD'', hreq_url = built_href built, hreq_headers = headers, hreq_body = [],
          hreq_timeout_ms = s3_timeout_ms (client_config c)\<rparr>) (\<lambda>resp.
       Returns \<lparr>out_meta = (if need_meta request then Some (head_meta V (resp_headers resp)) else None),
         out_headers = map_option (\<lambda>wanted. head_headers wanted (resp_headers resp)) (wanted_headers request)\<rparr>)))))"

text \<open>The operations the service does not use end the process; \<open>UpdateConfig\<close> does nothing.\<close>

definition unused_object_call :: "'a outcome" where
  "unused_object_call = Aborts []"

definition unused_multipart_call :: "'a outcome" where
  "unused_multipart_call = Aborts []"

definition UpdateConfig :: "'u Client \<Rightarrow> 'u Client" where
  "UpdateConfig c = c"

definition GetBucketName :: "'u Client \<Rightarrow> string" where
  "GetBucketName c = client_bucket_name c"

section \<open>Presigned addresses\<close>

definition ComputePresignTtl :: "int \<Rightarrow> int \<Rightarrow> int" where
  "ComputePresignTtl now expires_at =
     (let ttl = (expires_at - now) sdiv 1000000000;
          ttl = (if ttl \<le> 0 then kMinPresignTtl else ttl);
          ttl = (if ttl > kMaxPresignTtl then kMaxPresignTtl else ttl)
      in ttl)"

definition presign_query :: "SigParams \<Rightarrow> int \<Rightarrow> int \<Rightarrow> pairs \<Rightarrow> pairs" where
  "presign_query params now expires_at headers =
     [(''X-Amz-Algorithm'', ''AWS4-HMAC-SHA256''),
      (''X-Amz-Credential'', sp_access_key_id params @ ''/'' @ MakeScope params),
      (''X-Amz-Date'', sp_amz_date params),
      (''X-Amz-Expires'', to_string (nat (ComputePresignTtl now expires_at))),
      (''X-Amz-SignedHeaders'', MakeSignedHeaders headers)] @
     (case sp_session_token params of None \<Rightarrow> [] | Some t \<Rightarrow> [(''X-Amz-Security-Token'', t)])"

definition MakePresignedUrl ::
    "('u, 'z) vendor_scheme \<Rightarrow> s3_env \<Rightarrow> string \<Rightarrow> BuiltUrl \<Rightarrow> int \<Rightarrow> int \<Rightarrow> SigParams \<Rightarrow> pairs \<Rightarrow> string outcome" where
  "MakePresignedUrl V E m built now expires_at params headers =
     (let query = presign_query params now expires_at headers;
          cr = MakeCanonicalRequest E m (built_raw_path built) query headers ''UNSIGNED-PAYLOAD''
      in and_then (string_to_sign V E params (canonical_request cr)) (\<lambda>to_sign.
         let signature = ComputeSignature E params to_sign;
             query = query @ [(''X-Amz-Signature'', signature)]
         in deref_text V (built_href built @ ''?'' @ CanonicalizeQuery query)))"

definition PresignVirtualHost ::
    "('u, 'z) vendor_scheme \<Rightarrow> s3_env \<Rightarrow> 'u Client \<Rightarrow> int \<Rightarrow> string \<Rightarrow> string \<Rightarrow> int \<Rightarrow> string \<Rightarrow> pairs option \<Rightarrow>
     string outcome" where
  "PresignVirtualHost V E c now m path_text expires_at protocol extra_headers =
     and_then (MakeVirtualHostUrl V c path_text protocol) (\<lambda>built.
     let params = MakeSigParams E c now;
         extra = (case extra_headers of None \<Rightarrow> [] | Some hs \<Rightarrow> hs);
         prepared = PrepareSignedHeaders V (built_host built) extra
     in and_then (deref_pairs V prepared) (\<lambda>headers_text.
       MakePresignedUrl V E m built now expires_at params headers_text))"

definition PresignPathStyle ::
    "('u, 'z) vendor_scheme \<Rightarrow> s3_env \<Rightarrow> 'u Client \<Rightarrow> int \<Rightarrow> string \<Rightarrow> string \<Rightarrow> int \<Rightarrow> string \<Rightarrow> string outcome" where
  "PresignPathStyle V E c now m path_text expires_at protocol =
     and_then (MakePathStyleUrl V c path_text (Some protocol)) (\<lambda>built.
     let params = MakeSigParams E c now;
         prepared = PrepareSignedHeaders V (built_host built) []
     in and_then (deref_pairs V prepared) (\<lambda>headers_text.
       MakePresignedUrl V E m built now expires_at params headers_text))"

definition GenerateDownloadUrl ::
    "('u, 'z) vendor_scheme \<Rightarrow> s3_env \<Rightarrow> 'u Client \<Rightarrow> int \<Rightarrow> string \<Rightarrow> int \<Rightarrow> bool \<Rightarrow> string outcome" where
  "GenerateDownloadUrl V E c now name expires_epoch use_ssl =
     (let expires_at = expires_epoch * 1000000000;
          protocol_text = (if use_ssl then ''https'' else ''http'')
      in and_then (deref_text V name) (\<lambda>path_text.
        PresignPathStyle V E c now ''GET'' path_text expires_at protocol_text))"

definition GenerateDownloadUrlVirtualHostAddressing ::
    "('u, 'z) vendor_scheme \<Rightarrow> s3_env \<Rightarrow> 'u Client \<Rightarrow> int \<Rightarrow> string \<Rightarrow> int \<Rightarrow> string \<Rightarrow> string outcome" where
  "GenerateDownloadUrlVirtualHostAddressing V E c now name expires_at protocol =
     and_then (deref_text V name) (\<lambda>path_text.
     and_then (deref_text V protocol) (\<lambda>protocol_text.
       PresignVirtualHost V E c now ''GET'' path_text expires_at protocol_text None))"

definition GenerateUploadUrlVirtualHostAddressing ::
    "('u, 'z) vendor_scheme \<Rightarrow> s3_env \<Rightarrow> 'u Client \<Rightarrow> int \<Rightarrow> string \<Rightarrow> string \<Rightarrow> string \<Rightarrow> int \<Rightarrow> string \<Rightarrow>
     string outcome" where
  "GenerateUploadUrlVirtualHostAddressing V E c now data content_type name expires_at protocol =
     (let hdrs = set_header ''Content-Type'' content_type []
      in and_then (deref_text V name) (\<lambda>path_text.
         and_then (deref_text V protocol) (\<lambda>protocol_text.
           PresignVirtualHost V E c now ''PUT'' path_text expires_at protocol_text (Some hdrs))))"

section \<open>The store can check what is sent\<close>

text \<open>
  What the object store computes from a request it received: it takes every header but the
  authorization, together with the host, and signs them with the client's key.
\<close>

definition lower_contract :: "('u, 'z) vendor_scheme \<Rightarrow> bool" where
  "lower_contract V \<longleftrightarrow> (\<forall>s. AsciiStrToLower V s = lower s)"

definition covered_headers :: "string \<Rightarrow> pairs \<Rightarrow> pairs" where
  "covered_headers host headers =
     sort_key fst ((''host'', host) #
       map (\<lambda>(n, v). (lower n, v)) (filter (\<lambda>h. lower (fst h) \<noteq> ''authorization'') headers))"

definition server_authorization ::
    "('u, 'z) vendor_scheme \<Rightarrow> s3_env \<Rightarrow> SigParams \<Rightarrow> string \<Rightarrow> string \<Rightarrow> string \<Rightarrow> pairs \<Rightarrow> string \<Rightarrow> string outcome" where
  "server_authorization V E p m path_text host headers payload =
     (let hs = covered_headers host headers;
          cr = MakeCanonicalRequest E m path_text [] hs payload
      in and_then (string_to_sign V E p (canonical_request cr)) (\<lambda>to_sign.
        Returns (''AWS4-HMAC-SHA256 Credential='' @ (sp_access_key_id p @ ''/'' @ MakeScope p) @
          '', SignedHeaders='' @ join_with '';'' (map fst hs) @ '', Signature='' @ ComputeSignature E p to_sign)))"

definition reserved_names :: "string list" where
  "reserved_names = [''host'', ''x-amz-date'', ''x-amz-content-sha256'', ''x-amz-security-token'', ''authorization'']"

definition plain_headers :: "('u, 'z) vendor_scheme \<Rightarrow> pairs \<Rightarrow> bool" where
  "plain_headers V hs \<longleftrightarrow> distinct (map (lower \<circ> fst) hs) \<and>
     (\<forall>(n, v)\<in>set hs. is_ascii n \<and> wf_text V v \<and> lower n \<notin> set reserved_names)"

lemma set_header_new: "lower name \<notin> set (map (lower \<circ> fst) hs) \<Longrightarrow> set_header name v hs = hs @ [(name, v)]"
  by (induction name v hs rule: set_header.induct) auto

lemma set_headers_new:
  "distinct (map (lower \<circ> fst) (hs @ new)) \<Longrightarrow> set_headers new hs = hs @ new"
proof (induction new arbitrary: hs)
  case (Cons h new)
  then show ?case by (cases h) (simp add: set_headers_def set_header_new)
qed (simp add: set_headers_def)

lemma get_header_append:
  "get_header name (xs @ ys) = (case get_header name xs of None \<Rightarrow> get_header name ys | Some r \<Rightarrow> Some r)"
  by (induction name xs rule: get_header.induct) auto

lemma get_header_None: "get_header name hs = None \<longleftrightarrow> lower name \<notin> set (map (lower \<circ> fst) hs)"
  by (induction name hs rule: get_header.induct) auto

lemma sort_key_stable': "filter (\<lambda>x. k = f x) (sort_key f xs) = filter (\<lambda>x. k = f x) xs"
  using sort_key_stable [of f k xs] by (simp add: eq_commute [of k])

lemma sort_key_sorted_part: "sort_key f (sort_key f xs @ ys) = sort_key f (xs @ ys)"
  by (rule properties_for_sort_key) (simp_all add: sort_key_stable')

lemma ascii_lower_ascii: "of_char c < (128::nat) \<Longrightarrow> of_char (ascii_lower c) < (128::nat)"
  by (auto simp: ascii_lower_def less_eq_char_def)

lemma is_ascii_lower: "is_ascii s \<Longrightarrow> is_ascii (lower s)"
  by (auto simp: lower_def is_ascii_def ascii_lower_ascii)

lemma deref_pairs_ok: "texts_ok V ps \<Longrightarrow> deref_pairs V ps = Returns ps"
proof -
  assume "texts_ok V ps"
  then have "list_all2 (\<lambda>x y. (\<lambda>(a, b). TRY (FromBytes V a) (\<lambda>x. TRY (FromBytes V b) (\<lambda>y. Inr (x, y)))) x = Inr y) ps ps"
    by (auto simp: texts_ok_def list_all2_same FromBytes_of_wf)
  then have "StringPairs V ps = Inr ps"
    unfolding StringPairs_def by (simp only: CollectExpected_Inr_iff)
  then show "deref_pairs V ps = Returns ps" by (simp add: deref_pairs_def)
qed

lemma lower_amz_headers:
  "map (lower \<circ> fst) (amz_headers p payload) = map fst (amz_headers p payload)"
  "set (map fst (amz_headers p payload)) \<subseteq> {''x-amz-date'', ''x-amz-content-sha256'', ''x-amz-security-token''}"
  "distinct (map fst (amz_headers p payload))"
  by (auto simp: amz_headers_def lower_def ascii_lower_def less_eq_char_def split: option.splits)

lemma lower_authorization: "lower ''authorization'' = ''authorization''"
  by (simp add: lower_def ascii_lower_def less_eq_char_def)

lemma signed_headers_distinct:
  assumes "plain_headers V hs"
  shows "distinct (map (lower \<circ> fst) (hs @ amz_headers p payload @ [(''authorization'', a)]))"
proof -
  have "set (map (lower \<circ> fst) hs) \<inter> set reserved_names = {}"
    using assms by (auto simp: plain_headers_def)
  moreover have "distinct (map (lower \<circ> fst) hs)" using assms by (simp add: plain_headers_def)
  moreover have "set (map (lower \<circ> fst) (amz_headers p payload)) \<subseteq> set reserved_names - {''authorization''}"
    using lower_amz_headers(2) [of p payload] unfolding lower_amz_headers(1)
    by (auto simp: reserved_names_def)
  moreover have "''authorization'' \<in> set reserved_names" by (simp add: reserved_names_def)
  ultimately show ?thesis
    using lower_amz_headers(3) [of p payload] unfolding lower_amz_headers(1) [symmetric]
    by (simp add: lower_authorization) blast
qed

lemma prepared_texts_ok:
  assumes "utf8_contract V" and "lower_contract V" and "plain_headers V hs" and "wf_text V host"
  shows "texts_ok V (PrepareSignedHeaders V host hs)"
proof -
  have "set (PrepareSignedHeaders V host hs) = set ((''host'', host) # map (\<lambda>(n, v). (lower n, v)) hs)"
    using assms(2) by (simp only: PrepareSignedHeaders_def lower_contract_def set_sort)
  then show ?thesis
    using assms(3,4) wf_text_ascii [OF assms(1)] is_ascii_lower
    by (auto simp: texts_ok_def plain_headers_def)
qed

lemma SignRequest_sent:
  assumes "utf8_contract V" and "lower_contract V" and "plain_headers V hs" and "wf_text V host"
    and "SignRequest V E c now m uri host hs payload = Returns sent"
  shows "\<exists>auth. sent = hs @ amz_headers (MakeSigParams E c now) payload @ [(''authorization'', auth)] \<and>
    server_authorization V E (MakeSigParams E c now) m uri host sent payload = Returns auth"
proof -
  let ?p = "MakeSigParams E c now"
  let ?out = "amz_headers ?p payload"
  let ?low = "map (\<lambda>(n, v). (lower n, v))"
  have prep: "PrepareSignedHeaders V host hs = sort_key fst ((''host'', host) # ?low hs)"
    using assms(2) by (simp add: PrepareSignedHeaders_def lower_contract_def)
  note d = deref_pairs_ok [OF prepared_texts_ok [OF assms(1-4)]]
  have low_out: "?low ?out = ?out"
    using lower_amz_headers(1) [of ?p payload] by (auto simp: map_eq_conv intro!: map_idI)
  note dist = signed_headers_distinct [OF assms(3), of ?p payload]
  have noauth: "filter (\<lambda>h. lower (fst h) \<noteq> ''authorization'') (hs @ ?out @ [(''authorization'', a)]) = hs @ ?out" for a
  proof -
    have "''authorization'' \<notin> (lower \<circ> fst) ` set (hs @ ?out)"
      using dist [of a] by (auto simp: lower_authorization)
    then have "\<forall>h\<in>set (hs @ ?out). lower (fst h) \<noteq> ''authorization''" by (force simp: image_iff)
    then have "filter (\<lambda>h. lower (fst h) \<noteq> ''authorization'') (hs @ ?out) = hs @ ?out" by (rule filter_True)
    then show ?thesis by (simp add: lower_authorization)
  qed
  have hs: "sort_key fst (PrepareSignedHeaders V host hs @ ?out) =
      covered_headers host (hs @ ?out @ [(''authorization'', a)])" for a
    unfolding covered_headers_def noauth prep sort_key_sorted_part by (simp add: low_out)
  have sh: "SignHeaders V E ?p m uri [] (PrepareSignedHeaders V host hs) payload =
    and_then (server_authorization V E ?p m uri host (hs @ ?out @ [(''authorization'', [])]) payload)
      (\<lambda>auth. Returns (?out @ [(''authorization'', auth)]))"
    unfolding SignHeaders_def server_authorization_def Let_def hs [of "[]"]
    by (cases "string_to_sign V E ?p (canonical_request (MakeCanonicalRequest E m uri []
        (covered_headers host (hs @ ?out @ [(''authorization'', [])])) payload))")
      (simp_all add: MakeCanonicalRequest_def JoinSignedHeaders_def Let_def)
  from assms(5) obtain auth where
    a: "server_authorization V E ?p m uri host (hs @ ?out @ [(''authorization'', [])]) payload = Returns auth"
    and s: "sent = set_headers (?out @ [(''authorization'', auth)]) hs"
    by (auto simp: SignRequest_def Let_def d sh and_then_Returns_iff)
  have "server_authorization V E ?p m uri host (hs @ ?out @ [(''authorization'', auth)]) payload = Returns auth"
    using a by (simp only: server_authorization_def covered_headers_def noauth)
  then show ?thesis using s set_headers_new [OF dist] by auto
qed

text \<open>What the three calls send.\<close>

definition hex_hash_contract :: "s3_env \<Rightarrow> bool" where
  "hex_hash_contract E \<longleftrightarrow> (\<forall>s. is_ascii (hash_Sha256 E s kHex))"

definition verifiable :: "('u, 'z) vendor_scheme \<Rightarrow> s3_env \<Rightarrow> SigParams \<Rightarrow> BuiltUrl \<Rightarrow> http_request \<Rightarrow> bool" where
  "verifiable V E p built r \<longleftrightarrow>
     hreq_url r = built_href built \<and>
     get_header ''x-amz-content-sha256'' (hreq_headers r) =
       Some (''x-amz-content-sha256'', hash_Sha256 E (hreq_body r) kHex) \<and>
     (\<exists>auth. get_header ''authorization'' (hreq_headers r) = Some (''authorization'', auth) \<and>
        server_authorization V E p (hreq_method r) (built_raw_path built) (built_host built)
          (hreq_headers r) (hash_Sha256 E (hreq_body r) kHex) = Returns auth)"

lemma signed_header_lookup:
  assumes "plain_headers V hs"
  shows "get_header ''authorization'' (hs @ amz_headers p payload @ [(''authorization'', a)]) = Some (''authorization'', a)"
    and "get_header ''x-amz-content-sha256'' (hs @ amz_headers p payload @ [(''authorization'', a)]) =
      Some (''x-amz-content-sha256'', payload)"
proof -
  have low: "lower n = n" if "n \<in> set reserved_names" for n
    using that by (auto simp: reserved_names_def lower_def ascii_lower_def less_eq_char_def)
  have none: "get_header n hs = None" if "n \<in> set reserved_names" for n
    using assms that by (auto simp: get_header_None low plain_headers_def)
  have "get_header ''authorization'' (amz_headers p payload) = None"
    using lower_amz_headers(2) [of p payload]
    unfolding get_header_None lower_amz_headers(1) lower_authorization by auto
  then show "get_header ''authorization'' (hs @ amz_headers p payload @ [(''authorization'', a)]) = Some (''authorization'', a)"
    by (simp add: get_header_append none reserved_names_def)
  show "get_header ''x-amz-content-sha256'' (hs @ amz_headers p payload @ [(''authorization'', a)]) =
      Some (''x-amz-content-sha256'', payload)"
    by (simp add: get_header_append none reserved_names_def amz_headers_def low)
qed

lemma SignRequest_returns:
  assumes "utf8_contract V" and "lower_contract V" and "plain_headers V hs" and "wf_text V host" and "hex_hash_contract E"
  shows "\<exists>sent. SignRequest V E c now m uri host hs payload = Returns sent"
  using prepared_texts_ok [OF assms(1-4)] assms(5)
  by (simp add: SignRequest_def Let_def deref_pairs_ok SignHeaders_def string_to_sign_def
      Sha256Hex_def deref_text_ascii [OF assms(1)] hex_hash_contract_def)

lemma signed_request:
  assumes "utf8_contract V" and "lower_contract V" and "plain_headers V hs" and "wf_text V (built_host built)"
    and "hex_hash_contract E"
  shows "\<exists>sent. SignRequest V E c now m (built_raw_path built) (built_host built) hs (hash_Sha256 E data kHex) =
      Returns sent \<and> (\<forall>t. verifiable V E (MakeSigParams E c now) built
        \<lparr>hreq_method = m, hreq_url = built_href built, hreq_headers = sent, hreq_body = data, hreq_timeout_ms = t\<rparr>)"
proof -
  obtain sent where s: "SignRequest V E c now m (built_raw_path built) (built_host built) hs
      (hash_Sha256 E data kHex) = Returns sent"
    using SignRequest_returns [OF assms] by blast
  from SignRequest_sent [OF assms(1-4) s] signed_header_lookup [OF assms(3)] s show ?thesis
    by (auto simp: verifiable_def)
qed

lemma Sha256Hex_returns:
  "utf8_contract V \<Longrightarrow> hex_hash_contract E \<Longrightarrow> Sha256Hex V E data = Returns (hash_Sha256 E data kHex)"
  by (simp add: Sha256Hex_def deref_text_ascii hex_hash_contract_def)

lemma plain_headers_Nil: "plain_headers V []"
  by (simp add: plain_headers_def)

theorem object_calls_send:
  assumes V: "utf8_contract V" "lower_contract V" and E: "hex_hash_contract E"
    and "wf_text V name" and "MakePathStyleUrl V c name None = Returns built" and host: "wf_text V (built_host built)"
  shows "plain_headers V (put_headers meta ct cd) \<Longrightarrow> \<exists>r. PutObject V E H c now name data meta ct cd =
      and_then (perform_checked H r) (\<lambda>resp. Returns (resp_body resp)) \<and>
      hreq_method r = ''PUT'' \<and> hreq_body r = data \<and> verifiable V E (MakeSigParams E c now) built r"
    and "\<exists>r. DeleteObject V E H c now name = and_then (perform_checked H r) (\<lambda>resp. Returns ()) \<and>
      hreq_method r = ''DELETE'' \<and> hreq_body r = [] \<and> verifiable V E (MakeSigParams E c now) built r"
    and "\<exists>r k. GetObjectHead V E H c now name rq = and_then (perform_checked H r) k \<and>
      hreq_method r = ''HEAD'' \<and> hreq_body r = [] \<and> verifiable V E (MakeSigParams E c now) built r"
proof -
  let ?r = "\<lambda>m sent data. \<lparr>hreq_method = m, hreq_url = built_href built, hreq_headers = sent, hreq_body = data,
        hreq_timeout_ms = s3_timeout_ms (client_config c)\<rparr>"
  note defs = deref_text_of_wf [OF assms(4)] assms(5) Let_def Sha256Hex_returns [OF V(1) E]
  {
    assume "plain_headers V (put_headers meta ct cd)"
    from signed_request [OF V this host E, of c now "''PUT''" data]
    obtain sent where "SignRequest V E c now ''PUT'' (built_raw_path built) (built_host built)
        (put_headers meta ct cd) (hash_Sha256 E data kHex) = Returns sent"
      "\<And>t. verifiable V E (MakeSigParams E c now) built (?r ''PUT'' sent data\<lparr>hreq_timeout_ms := t\<rparr>)" by auto
    then show "\<exists>r. PutObject V E H c now name data meta ct cd =
      and_then (perform_checked H r) (\<lambda>resp. Returns (resp_body resp)) \<and>
      hreq_method r = ''PUT'' \<and> hreq_body r = data \<and> verifiable V E (MakeSigParams E c now) built r"
      by (intro exI [of _ "?r ''PUT'' sent data"]) (simp add: PutObject_def defs)
  }
  from signed_request [OF V plain_headers_Nil host E, of c now "''DELETE''" "[]"]
  obtain sent where "SignRequest V E c now ''DELETE'' (built_raw_path built) (built_host built) []
      (hash_Sha256 E [] kHex) = Returns sent"
    "\<And>t. verifiable V E (MakeSigParams E c now) built (?r ''DELETE'' sent []\<lparr>hreq_timeout_ms := t\<rparr>)" by auto
  then show "\<exists>r. DeleteObject V E H c now name = and_then (perform_checked H r) (\<lambda>resp. Returns ()) \<and>
      hreq_method r = ''DELETE'' \<and> hreq_body r = [] \<and> verifiable V E (MakeSigParams E c now) built r"
    by (intro exI [of _ "?r ''DELETE'' sent []"]) (simp add: DeleteObject_def defs)
  from signed_request [OF V plain_headers_Nil host E, of c now "''HEAD''" "[]"]
  obtain sent where "SignRequest V E c now ''HEAD'' (built_raw_path built) (built_host built) []
      (hash_Sha256 E [] kHex) = Returns sent"
    "\<And>t. verifiable V E (MakeSigParams E c now) built (?r ''HEAD'' sent []\<lparr>hreq_timeout_ms := t\<rparr>)" by auto
  then show "\<exists>r k. GetObjectHead V E H c now name rq = and_then (perform_checked H r) k \<and>
      hreq_method r = ''HEAD'' \<and> hreq_body r = [] \<and> verifiable V E (MakeSigParams E c now) built r"
    by (intro exI [of _ "?r ''HEAD'' sent []"] exI) (simp add: GetObjectHead_def defs)
qed

section \<open>Presigned addresses can be checked\<close>

lemma ComputePresignTtl_bounds: "1 \<le> ComputePresignTtl now t" "ComputePresignTtl now t \<le> 604800"
  by (simp_all add: ComputePresignTtl_def Let_def kMinPresignTtl_def kMaxPresignTtl_def)

lemma ComputePresignTtl_exact:
  "now + 1000000000 \<le> t \<Longrightarrow> t < now + 604801 * 1000000000 \<Longrightarrow>
     ComputePresignTtl now t = (t - now) div 1000000000"
  by (simp add: ComputePresignTtl_def Let_def kMinPresignTtl_def kMaxPresignTtl_def signed_divide_int_def)
    linarith

lemma CanonicalizeQueryImpl_mset: "mset q = mset q' \<Longrightarrow> CanonicalizeQueryImpl q = CanonicalizeQueryImpl q'"
proof -
  assume "mset q = mset q'"
  then have "sort (map encoded_pair q) = sort (map encoded_pair q')"
    by (metis mset_map sorted_list_of_multiset_mset)
  then show ?thesis by (simp add: CanonicalizeQueryImpl_pieces canonical_pairs_def)
qed

lemma MakeCanonicalRequest_mset:
  "mset q = mset q' \<Longrightarrow> MakeCanonicalRequest E m u q hs payload = MakeCanonicalRequest E m u q' hs payload"
  using CanonicalizeQueryImpl_mset [of q q'] by (simp add: MakeCanonicalRequest_def)

lemma presign_names:
  "distinct (map fst (presign_query p now t hs @ [(''X-Amz-Signature'', x)]))"
  by (auto simp: presign_query_def split: option.splits)

definition presign_texts_ok :: "('u, 'z) vendor_scheme \<Rightarrow> s3_env \<Rightarrow> SigParams \<Rightarrow> pairs \<Rightarrow> bool" where
  "presign_texts_ok V E p hs \<longleftrightarrow>
     texts_ok V (presign_query p 0 0 hs) \<and> (\<forall>k s. is_ascii (HmacSha256 E k s kHex))"

theorem presigned_reads_back:
  assumes V: "utf8_contract V" and E: "percent_contract E" "hex_hash_contract E"
    and ok: "presign_texts_ok V E p hs" and "is_ascii (built_href built)"
    and url: "MakePresignedUrl V E m built now t p hs = Returns url"
    and len: "length url < 2 ^ 64"
  shows "\<exists>search q sig to_sign. url = built_href built @ search \<and> DecodeQueryString V E search = Inr q \<and>
    map_of q ''X-Amz-Signature'' = Some sig \<and>
    string_to_sign V E p (canonical_request (MakeCanonicalRequest E m (built_raw_path built)
      (filter (\<lambda>x. fst x \<noteq> ''X-Amz-Signature'') q) hs ''UNSIGNED-PAYLOAD'')) = Returns to_sign \<and>
    sig = ComputeSignature E p to_sign \<and>
    (\<exists>n. map_of q ''X-Amz-Expires'' = Some (to_string n) \<and> 1 \<le> n \<and> n \<le> 604800)"
proof -
  let ?q = "presign_query p now t hs"
  from url obtain to_sign where ts: "string_to_sign V E p (canonical_request
      (MakeCanonicalRequest E m (built_raw_path built) ?q hs ''UNSIGNED-PAYLOAD'')) = Returns to_sign"
    and u: "deref_text V (built_href built @ ''?'' @ CanonicalizeQuery
      (?q @ [(''X-Amz-Signature'', ComputeSignature E p to_sign)])) = Returns url"
    by (auto simp: MakePresignedUrl_def Let_def and_then_Returns_iff)
  let ?all = "?q @ [(''X-Amz-Signature'', ComputeSignature E p to_sign)]"
  have texts: "texts_ok V ?all"
    using ok wf_text_ascii [OF V] to_string_ascii
    by (auto simp: presign_texts_ok_def texts_ok_def presign_query_def ComputeSignature_def Let_def)
  have "is_ascii (CanonicalizeQuery ?all)"
    unfolding CanonicalizeQuery_def CanonicalizeQueryImpl_pieces
    by (rule is_ascii_join_with) (auto simp: query_piece_def PercentEncodeBytes_ascii)
  then have url': "url = built_href built @ ''?'' @ CanonicalizeQuery ?all"
    using u assms(5) by (simp add: deref_text_ascii [OF V])
  have d: "DecodeQueryString V E (''?'' @ CanonicalizeQuery ?all) = Inr (canonical_pairs ?all)"
    using DecodeQueryString_canonical(1) [OF E(1) texts] len by (simp add: url')
  have set_eq: "set (canonical_pairs ?all) = set ?all" by (rule mset_eq_setD [OF mset_canonical_pairs])
  have "mset (map fst (canonical_pairs ?all)) = mset (map fst ?all)"
    by (simp only: mset_map mset_canonical_pairs)
  then have dist: "distinct (map fst (canonical_pairs ?all))"
    using presign_names mset_eq_imp_distinct_iff by blast
  have look: "map_of (canonical_pairs ?all) k = Some v" if "(k, v) \<in> set ?all" for k v
    using that set_eq dist by (simp add: map_of_is_SomeI)
  have "mset (filter (\<lambda>x. fst x \<noteq> ''X-Amz-Signature'') (canonical_pairs ?all)) =
      mset (filter (\<lambda>x. fst x \<noteq> ''X-Amz-Signature'') ?all)"
    by (simp only: mset_filter mset_canonical_pairs)
  also have "filter (\<lambda>x. fst x \<noteq> ''X-Amz-Signature'') ?all = ?q"
    by (simp add: presign_query_def split: option.splits)
  finally have rest: "mset (filter (\<lambda>x. fst x \<noteq> ''X-Amz-Signature'') (canonical_pairs ?all)) = mset ?q" .
  have "(''X-Amz-Expires'', to_string (nat (ComputePresignTtl now t))) \<in> set ?all"
    by (simp add: presign_query_def)
  note expires = look [OF this]
  have b: "1 \<le> nat (ComputePresignTtl now t)" "nat (ComputePresignTtl now t) \<le> 604800"
    using ComputePresignTtl_bounds [of now t] by simp_all
  show ?thesis
    by (intro exI [of _ "''?'' @ CanonicalizeQuery ?all"] exI [of _ "canonical_pairs ?all"]
        exI [of _ "ComputeSignature E p to_sign"] exI [of _ to_sign] conjI url' d refl)
      (use look ts expires b MakeCanonicalRequest_mset [OF rest] in \<open>auto simp del: to_string.simps\<close>)
qed

end
