(* ===== verification/S3_Sts.thy ===== *)
theory S3_Sts
  imports S3_Client Integers
begin

text \<open>
  \<open>src/s3/sts_client.cpp\<close>: temporary credentials from the token service.  The request is sent by an
  executor, an argument as in the sources; the answer is read out of its XML text.
\<close>

datatype StsError =
  kInvalidEndpoint | kInvalidQuery | kHttpError | kXmlMissingTag | kXmlMissingClosingTag
| kInvalidExpiration | kStsInvalidUtf8

record StsCredentials =
  sts_access_key_id :: string
  sts_secret_access_key :: string
  sts_session_token :: string
  sts_expires_at :: int

definition ExtractXmlTag :: "('u, 'z) vendor_scheme \<Rightarrow> string \<Rightarrow> string \<Rightarrow> StsError + string" where
  "ExtractXmlTag V xml tag =
     (let open_tag = ''<'' @ tag @ ''>''; close_tag = ''</'' @ tag @ ''>'' in
      case find_str open_tag xml 0 of
        None \<Rightarrow> Inl kXmlMissingTag
      | Some start_pos \<Rightarrow>
          let value_pos = start_pos + length open_tag in
          case find_str close_tag xml value_pos of
            None \<Rightarrow> Inl kXmlMissingClosingTag
          | Some end_pos \<Rightarrow>
              TRY_ERR_AS (FromBytes V (substr xml value_pos (end_pos - value_pos))) kStsInvalidUtf8 Inr)"

definition ParseExpiration :: "s3_env \<Rightarrow> string \<Rightarrow> StsError + int" where
  "ParseExpiration E expiration =
     (case cctz_parse E (kRfc3339Format E) expiration of
        None \<Rightarrow> Inl kInvalidExpiration | Some expires_at \<Rightarrow> Inr expires_at)"

definition FromXml :: "('u, 'z) vendor_scheme \<Rightarrow> s3_env \<Rightarrow> string \<Rightarrow> StsError + StsCredentials" where
  "FromXml V E xml =
     TRY (ExtractXmlTag V xml ''AccessKeyId'') (\<lambda>access_key_id.
     TRY (ExtractXmlTag V xml ''SecretAccessKey'') (\<lambda>secret_access_key.
     TRY (ExtractXmlTag V xml ''SessionToken'') (\<lambda>session_token.
     TRY (ExtractXmlTag V xml ''Expiration'') (\<lambda>expiration.
     TRY (ParseExpiration E expiration) (\<lambda>expires_at.
       Inr \<lparr>sts_access_key_id = access_key_id, sts_secret_access_key = secret_access_key,
         sts_session_token = session_token, sts_expires_at = expires_at\<rparr>)))))"

text \<open>The lambda \<open>append_param\<close> and the six calls of it.\<close>

definition append_param ::
    "('u, 'z) vendor_scheme \<Rightarrow> string \<Rightarrow> string \<Rightarrow> string \<Rightarrow> string outcome" where
  "append_param V body name v =
     (let body = (if body \<noteq> [] then text_append V body ''&'' else body);
          body = text_append V body name;
          body = text_append V body ''=''
      in and_then (PercentEncode V v kYes) (\<lambda>encoded. Returns (text_append V body encoded)))"

definition sts_params :: "string \<Rightarrow> string \<Rightarrow> int \<Rightarrow> string \<Rightarrow> pairs" where
  "sts_params role_arn role_session_name duration_s policy_json =
     [(''Action'', ''AssumeRole''), (''Version'', ''2011-06-15''), (''RoleArn'', role_arn),
      (''RoleSessionName'', role_session_name), (''DurationSeconds'', int_to_string duration_s),
      (''Policy'', policy_json)]"

fun append_params :: "('u, 'z) vendor_scheme \<Rightarrow> string \<Rightarrow> pairs \<Rightarrow> string outcome" where
  "append_params V body [] = Returns body"
| "append_params V body ((name, v) # ps) =
     and_then (append_param V body name v) (\<lambda>body. append_params V body ps)"

type_synonym sts_executor = "string \<Rightarrow> string \<Rightarrow> pairs \<Rightarrow> int \<Rightarrow> (StsError + string) outcome"

definition FetchStsWithExecutor ::
    "('u, 'z) vendor_scheme \<Rightarrow> s3_env \<Rightarrow> int \<Rightarrow> sts_executor \<Rightarrow> string \<Rightarrow> string \<Rightarrow> string \<Rightarrow> string \<Rightarrow> string \<Rightarrow>
     string \<Rightarrow> string \<Rightarrow> int \<Rightarrow> int \<Rightarrow> (StsError + StsCredentials) outcome" where
  "FetchStsWithExecutor V E now exec sts_endpoint static_access_key_id static_secret_access_key region
     role_arn role_session_name policy_json duration_s timeout_ms =
   (case ParseUrlWithDefaultHttpScheme V sts_endpoint of
      None \<Rightarrow> Returns (Inl kInvalidEndpoint)
    | Some sts_url \<Rightarrow>
        Invariant (IsHttps V sts_url) ''STS endpoint must use https scheme''
        (and_then (Host V sts_url) (\<lambda>host.
         and_then (Pathname V sts_url) (\<lambda>path_text.
         let path_text = (if path_text = [] then ''/'' else path_text) in
         and_then (if HasSearch V sts_url
             then and_then (Search V sts_url) (\<lambda>search. Returns (DecodeQueryString V E search))
             else Returns (Inr [])) (\<lambda>decoded.
         case decoded of
           Inl _ \<Rightarrow> Returns (Inl kInvalidQuery)
         | Inr query \<Rightarrow>
         and_then (append_params V [] (sts_params role_arn role_session_name duration_s policy_json)) (\<lambda>body.
         and_then (Sha256Hex V E body) (\<lambda>payload_hash.
         let params = make_SigParams E region ''sts'' static_access_key_id static_secret_access_key None now;
             url_encoded = ''application/x-www-form-urlencoded'';
             headers_to_sign = [(''host'', host), (''content-type'', url_encoded)]
         in and_then (SignHeaders V E params ''POST'' path_text query headers_to_sign payload_hash)
           (\<lambda>signed_headers.
         let headers = set_header ''Host'' host [];
             headers = set_header ''Content-Type'' url_encoded headers;
             headers = set_headers signed_headers headers
         in and_then (Href V sts_url) (\<lambda>href.
            and_then (exec href body headers timeout_ms) (\<lambda>response.
            case response of
              Inl err \<Rightarrow> Returns (Inl err)
            | Inr bytes \<Rightarrow>
                Returns (TRY_ERR_AS (FromBytes V bytes) kStsInvalidUtf8 (FromXml V E))))))))))))"

text \<open>The executor of \<open>FetchStsCredentials\<close>, and the call.\<close>

definition http_executor :: "http_env \<Rightarrow> sts_executor" where
  "http_executor H url body headers timeout_ms =
     and_then (perform H \<lparr>hreq_method = ''POST'', hreq_url = url, hreq_headers = headers, hreq_body = body,
         hreq_timeout_ms = timeout_ms\<rparr>) (\<lambda>resp.
       if resp_status resp \<ge> 300 then Returns (Inl kHttpError) else Returns (Inr (resp_body resp)))"

definition FetchStsCredentials where
  "FetchStsCredentials V E now H = FetchStsWithExecutor V E now (http_executor H)"

section \<open>The form reads back\<close>

lemma append_param_ascii:
  assumes "utf8_contract V" and "is_ascii body" and "is_ascii name"
  shows "append_param V body name v =
    Returns ((if body = [] then [] else body @ ''&'') @ name @ ''='' @ PercentEncodeBytes v kYes)"
  using assms
  by (simp add: append_param_def Let_def PercentEncode_def deref_text_ascii PercentEncodeBytes_ascii
      text_append_def utf8_contractD)

definition plain_name :: "string \<Rightarrow> bool" where
  "plain_name s \<longleftrightarrow> s \<noteq> [] \<and> list_all IsUnreserved s"

lemma PercentEncodeBytes_plain: "list_all IsUnreserved s \<Longrightarrow> PercentEncodeBytes s es = s"
  by (induction s) auto

lemma plain_ascii: "plain_name s \<Longrightarrow> is_ascii s"
  using IsUnreserved_ascii by (auto simp: plain_name_def is_ascii_def list_all_iff)

lemma append_params_more:
  assumes "utf8_contract V"
  shows "is_ascii body \<Longrightarrow> body \<noteq> [] \<Longrightarrow> \<forall>p\<in>set ps. plain_name (fst p) \<Longrightarrow>
    append_params V body ps = Returns (body @ concat (map (\<lambda>p. CHR ''&'' # query_piece p) ps))"
proof (induction ps arbitrary: body)
  case (Cons p ps)
  obtain n v where p: "p = (n, v)" by (cases p)
  have n: "plain_name n" using Cons.prems(3) by (simp add: p)
  show ?case
    using Cons.IH [of "body @ ''&'' @ n @ ''='' @ PercentEncodeBytes v kYes"] Cons.prems n
    by (simp add: p append_param_ascii [OF assms Cons.prems(1) plain_ascii [OF n]] plain_ascii
        PercentEncodeBytes_ascii query_piece_def PercentEncodeBytes_plain plain_name_def)
qed simp

lemma append_params_pieces:
  assumes "utf8_contract V" and "\<forall>p\<in>set ps. plain_name (fst p)" and "ps \<noteq> []"
  shows "append_params V [] ps = Returns (join_with ''&'' (map query_piece ps))"
proof -
  have join: "join_with ''&'' (x # xs) = x @ concat (map (\<lambda>y. CHR ''&'' # y) xs)" for x xs
    by (induction xs arbitrary: x) (auto simp: join_with_Cons)
  obtain n v qs where ps: "ps = (n, v) # qs" using assms(3) by (metis neq_Nil_conv surj_pair)
  have n: "plain_name n" using assms(2) by (simp add: ps)
  show ?thesis
    using append_params_more [OF assms(1), of "n @ ''='' @ PercentEncodeBytes v kYes" qs] assms(2) n
    by (simp add: ps append_param_ascii [OF assms(1) _ plain_ascii [OF n]] plain_ascii [OF n]
        PercentEncodeBytes_ascii join comp_def)
      (simp add: query_piece_def PercentEncodeBytes_plain plain_name_def)
qed

lemma sts_params_plain: "\<forall>p\<in>set (sts_params a b c d). plain_name (fst p)"
  by (simp add: sts_params_def plain_name_def IsUnreserved_def less_eq_char_def)

lemma sts_body:
  assumes "utf8_contract V" and "percent_contract E" and "texts_ok V (sts_params a b d p)"
    and "length (join_with ''&'' (map query_piece (sts_params a b d p))) < 2 ^ 64"
  shows "\<exists>body. append_params V [] (sts_params a b d p) = Returns body \<and> body \<noteq> [] \<and>
    DecodeQueryString V E body = Inr (sts_params a b d p)"
proof -
  let ?ps = "sts_params a b d p"
  have "?ps \<noteq> []" by (simp add: sts_params_def)
  note head = pieces_head [OF this]
  have "query_loop V E (join_with ''&'' (map query_piece ?ps)) (length ([] :: string)) [] = Inr ([] @ ?ps)"
    by (rule query_loop_pieces [OF assms(2,4,3)]) (simp_all add: sts_params_def)
  with head have "DecodeQueryString V E (join_with ''&'' (map query_piece ?ps)) = Inr ?ps"
    by (simp add: DecodeQueryString_def)
  with head append_params_pieces [OF assms(1) sts_params_plain \<open>?ps \<noteq> []\<close>] show ?thesis by blast
qed

text \<open>
  What goes to the token service: one request to an HTTPS address whose form holds exactly the
  parameters of the call; nothing is sent to any other address.
\<close>

theorem sts_request:
  assumes V: "utf8_contract V" "ada_ascii_contract V" and E: "percent_contract E" "hex_hash_contract E"
    and "texts_ok V (sts_params a b d p)"
    and "length (join_with ''&'' (map query_piece (sts_params a b d p))) < 2 ^ 64"
    and u: "ParseUrlWithDefaultHttpScheme V endpoint = Some u" and "\<not> HasSearch V u"
  shows "if IsHttps V u then
      \<exists>body headers. DecodeQueryString V E body = Inr (sts_params a b d p) \<and>
        FetchStsWithExecutor V E now exec endpoint ak sk region a b p d timeout =
        and_then (exec (get_href V u) body headers timeout) (\<lambda>response. Returns
          (TRY response (\<lambda>bytes. TRY_ERR_AS (FromBytes V bytes) kStsInvalidUtf8 (FromXml V E))))
    else \<exists>why. FetchStsWithExecutor V E now exec endpoint ak sk region a b p d timeout = Aborts why"
proof (cases "IsHttps V u")
  case True
  obtain body where body: "append_params V [] (sts_params a b d p) = Returns body"
    "DecodeQueryString V E body = Inr (sts_params a b d p)"
    using sts_body [OF V(1) E(1) assms(5,6)] by blast
  let ?path = "if get_pathname V u = [] then ''/'' else get_pathname V u"
  let ?params = "make_SigParams E region ''sts'' ak sk None now"
  let ?hs = "[(''host'', get_host V u), (''content-type'', ''application/x-www-form-urlencoded'')]"
  obtain sh where sh: "SignHeaders V E ?params ''POST'' ?path [] ?hs (hash_Sha256 E body kHex) = Returns sh"
    by (simp add: SignHeaders_def Let_def string_to_sign_def Sha256Hex_returns [OF V(1) E(2)])
  let ?headers = "set_headers sh (set_header ''Content-Type'' ''application/x-www-form-urlencoded''
      (set_header ''Host'' (get_host V u) []))"
  have k: "(\<lambda>response. case response of Inl err \<Rightarrow> Returns (Inl err)
        | Inr bytes \<Rightarrow> Returns (TRY_ERR_AS (FromBytes V bytes) kStsInvalidUtf8 (FromXml V E))) =
      (\<lambda>response. Returns (TRY response (\<lambda>bytes. TRY_ERR_AS (FromBytes V bytes) kStsInvalidUtf8 (FromXml V E))))"
    by (rule ext) (simp split: sum.split)
  have "FetchStsWithExecutor V E now exec endpoint ak sk region a b p d timeout =
      and_then (exec (get_href V u) body ?headers timeout) (\<lambda>response. Returns
        (TRY response (\<lambda>bytes. TRY_ERR_AS (FromBytes V bytes) kStsInvalidUtf8 (FromXml V E))))"
    using True assms(8)
    by (simp add: FetchStsWithExecutor_def u accessors_return [OF V] Let_def Sha256Hex_returns [OF V(1) E(2)]
        body(1) sh k del: set_header.simps)
  with True body(2) show ?thesis by auto
next
  case False
  then show ?thesis by (simp add: FetchStsWithExecutor_def u)
qed

section \<open>The answer reads back\<close>

definition credentials_xml :: "string \<Rightarrow> string \<Rightarrow> string \<Rightarrow> string \<Rightarrow> string" where
  "credentials_xml ak sk token expiration =
     ''<AssumeRoleResponse><AssumeRoleResult><Credentials><AccessKeyId>'' @ ak @ ''</AccessKeyId><SecretAccessKey>'' @ sk @
     ''</SecretAccessKey><SessionToken>'' @ token @ ''</SessionToken><Expiration>'' @ expiration @
     ''</Expiration></Credentials></AssumeRoleResult></AssumeRoleResponse>''"

lemma index_of_str_skip:
  "c \<notin> set xs \<Longrightarrow> index_of_str (c # pat) (xs @ ys) = map_option ((+) (length xs)) (index_of_str (c # pat) ys)"
  by (induction xs; cases "index_of_str (c # pat) ys") auto

lemma index_of_str_hit: "pat \<noteq> [] \<Longrightarrow> index_of_str pat (pat @ ys) = Some 0"
  by (cases pat) auto

text \<open>A tag is found where the text before it has no opening of it.\<close>

lemma ExtractXmlTag_found:
  assumes "index_of_str (''<'' @ tag @ ''>'') xml = Some (length pre)"
    and "xml = pre @ ''<'' @ tag @ ''>'' @ v @ ''</'' @ tag @ ''>'' @ post"
    and "CHR ''<'' \<notin> set v" and "wf_text V v"
  shows "ExtractXmlTag V xml tag = Inr v"
proof -
  have o: "find_str (''<'' @ tag @ ''>'') xml 0 = Some (length pre)"
    using assms(1) by (simp add: find_str_def option.map_ident)
  have "drop (length pre + length (''<'' @ tag @ ''>'')) xml = v @ ''</'' @ tag @ ''>'' @ post"
    by (simp add: assms(2))
  moreover have "index_of_str (''</'' @ tag @ ''>'') (v @ ''</'' @ tag @ ''>'' @ post) = Some (length v)"
    using index_of_str_skip [OF assms(3), of "''/'' @ tag @ ''>''" "''</'' @ tag @ ''>'' @ post"]
      index_of_str_hit [of "''</'' @ tag @ ''>''" post] by simp
  ultimately have c: "find_str (''</'' @ tag @ ''>'') xml (length pre + length (''<'' @ tag @ ''>'')) =
      Some (length pre + length (''<'' @ tag @ ''>'') + length v)"
    by (simp add: find_str_def)
  have "substr xml (length pre + length (''<'' @ tag @ ''>'')) (length v) = v"
    by (simp add: substr_def assms(2))
  with o c show ?thesis
    unfolding ExtractXmlTag_def Let_def by (simp add: FromBytes_of_wf [OF assms(4)] del: length_append length_Cons append_Cons)
qed

lemma credentials_xml_tags:
  assumes "CHR ''<'' \<notin> set ak" "CHR ''<'' \<notin> set sk" "CHR ''<'' \<notin> set token" "CHR ''<'' \<notin> set e"
    and "wf_text V ak" "wf_text V sk" "wf_text V token" "wf_text V e"
  shows "ExtractXmlTag V (credentials_xml ak sk token e) ''AccessKeyId'' = Inr ak"
    "ExtractXmlTag V (credentials_xml ak sk token e) ''SecretAccessKey'' = Inr sk"
    "ExtractXmlTag V (credentials_xml ak sk token e) ''SessionToken'' = Inr token"
    "ExtractXmlTag V (credentials_xml ak sk token e) ''Expiration'' = Inr e"
proof -
  let ?a = "''<AssumeRoleResponse><AssumeRoleResult><Credentials>''"
  let ?b = "?a @ ''<AccessKeyId>'' @ ak @ ''</AccessKeyId>''"
  let ?c = "?b @ ''<SecretAccessKey>'' @ sk @ ''</SecretAccessKey>''"
  let ?d = "?c @ ''<SessionToken>'' @ token @ ''</SessionToken>''"
  note skip = index_of_str_skip [OF assms(1)] index_of_str_skip [OF assms(2)] index_of_str_skip [OF assms(3)]
  show "ExtractXmlTag V (credentials_xml ak sk token e) ''AccessKeyId'' = Inr ak"
    by (rule ExtractXmlTag_found [OF _ _ assms(1,5), where pre = ?a])
      (simp_all add: credentials_xml_def)
  show "ExtractXmlTag V (credentials_xml ak sk token e) ''SecretAccessKey'' = Inr sk"
    by (rule ExtractXmlTag_found [OF _ _ assms(2,6), where pre = ?b])
      (simp_all add: credentials_xml_def skip)
  show "ExtractXmlTag V (credentials_xml ak sk token e) ''SessionToken'' = Inr token"
    by (rule ExtractXmlTag_found [OF _ _ assms(3,7), where pre = ?c])
      (simp_all add: credentials_xml_def skip)
  show "ExtractXmlTag V (credentials_xml ak sk token e) ''Expiration'' = Inr e"
    by (rule ExtractXmlTag_found [OF _ _ assms(4,8), where pre = ?d])
      (simp_all add: credentials_xml_def skip)
qed

theorem FromXml_reads:
  assumes "CHR ''<'' \<notin> set ak" "CHR ''<'' \<notin> set sk" "CHR ''<'' \<notin> set token" "CHR ''<'' \<notin> set e"
    and "wf_text V ak" "wf_text V sk" "wf_text V token" "wf_text V e"
  shows "FromXml V E (credentials_xml ak sk token e) =
    (case cctz_parse E (kRfc3339Format E) e of
       None \<Rightarrow> Inl kInvalidExpiration
     | Some t \<Rightarrow> Inr \<lparr>sts_access_key_id = ak, sts_secret_access_key = sk, sts_session_token = token,
         sts_expires_at = t\<rparr>)"
  by (simp add: FromXml_def credentials_xml_tags [OF assms] ParseExpiration_def split: option.split)

end
