(* ===== verification/Storage_Url.thy ===== *)
theory Storage_Url
  imports Link
begin

text \<open>
  \<open>src/storage_url.cpp\<close>: the address a client downloads a capture from.  With an external store it is
  the configured base; with the local one its host, port and scheme follow the headers of the request.
\<close>

datatype StorageUrlError =
  kInvalidPublicBaseUrl | kMissingRequestHost | kInvalidRequestHost | kInvalidForwardedHost
| kInvalidForwardedProto

text \<open>\<open>Mode\<close> of \<open>include/config.hpp\<close>.\<close>

datatype Mode = kLocal | kExternal

record ParsedHostHeader =
  hh_hostname :: string
  hh_port :: "string option"

definition ICaseEqual :: "('u, 'z) vendor_scheme \<Rightarrow> string \<Rightarrow> string \<Rightarrow> bool" where
  "ICaseEqual V lhs rhs \<longleftrightarrow> length lhs = length rhs \<and> ICaseStartsWith V lhs rhs"

definition TakeFirstCommaSeparatedValue :: "('u, 'z) vendor_scheme \<Rightarrow> string \<Rightarrow> string" where
  "TakeFirstCommaSeparatedValue V text =
     (let parts = SplitIntoStringViewVector V text '','' in
      if parts = [] then [] else TrimView V (hd parts))"

function pop_slashes :: "string \<Rightarrow> string" where
  "pop_slashes s = (if length s > 1 \<and> last s = CHR ''/'' then pop_slashes (butlast s) else s)"
  by pat_completeness auto
termination by (relation "measure length") auto

declare pop_slashes.simps [simp del]

definition AppendCaptureFilename :: "('u, 'z) vendor_scheme \<Rightarrow> 'u \<Rightarrow> Uuid \<Rightarrow> string outcome" where
  "AppendCaptureFilename V base_url uuid =
     and_then (Pathname V base_url) (\<lambda>p.
     let p = (if p = [] then ''/'' else p);
         p = pop_slashes p;
         p = (if last p \<noteq> CHR ''/'' then p @ ''/'' else p)
     in deref_text V (p @ uuid_to_string V uuid @ ''.wacz''))"

definition ParseHostHeader ::
    "('u, 'z) vendor_scheme \<Rightarrow> string option \<Rightarrow> StorageUrlError \<Rightarrow> StorageUrlError \<Rightarrow>
     (StorageUrlError + ParsedHostHeader) outcome" where
  "ParseHostHeader V header missing_error invalid_error =
     (case header of
        None \<Rightarrow> Returns (Inl missing_error)
      | Some header_value \<Rightarrow>
          if header_value = [] then Returns (Inl missing_error)
          else let first = TakeFirstCommaSeparatedValue V header_value in
            if first = [] then Returns (Inl missing_error)
            else and_then (deref_text V (''http://'' @ first)) (\<lambda>t.
              case Url_FromText V t of
                None \<Rightarrow> Returns (Inl invalid_error)
              | Some parsed \<Rightarrow>
                  if \<not> HasHostname V parsed then Returns (Inl invalid_error)
                  else and_then (Pathname V parsed) (\<lambda>p.
                    if p \<noteq> ''/'' then Returns (Inl invalid_error)
                    else if HasSearch V parsed then Returns (Inl invalid_error)
                    else and_then (Hostname V parsed) (\<lambda>h.
                      if HasPort V parsed
                      then and_then (Port V parsed) (\<lambda>port_text.
                        Returns (Inr \<lparr>hh_hostname = h, hh_port = Some port_text\<rparr>))
                      else Returns (Inr \<lparr>hh_hostname = h, hh_port = None\<rparr>)))))"

definition MakeConfiguredCaptureDownloadUrl ::
    "('u, 'z) vendor_scheme \<Rightarrow> Uuid \<Rightarrow> string \<Rightarrow> (StorageUrlError + 'u) outcome" where
  "MakeConfiguredCaptureDownloadUrl V uuid public_base_url =
     and_then (deref_text V (public_base_url @ ''/'' @ uuid_to_string V uuid @ ''.wacz'')) (\<lambda>t.
       Returns (TRY_OK_OR (Url_FromText V t) kInvalidPublicBaseUrl Inr))"

text \<open>The three parts of \<open>MakeCaptureDownloadUrl\<close> after the base: host and port, then the scheme.\<close>

definition apply_host ::
    "('u, 'z) vendor_scheme \<Rightarrow> string option \<Rightarrow> ParsedHostHeader \<Rightarrow> 'u \<Rightarrow> 'u outcome" where
  "apply_host V forwarded_host header_host download_url =
     and_then (WithHostname V download_url (hh_hostname header_host)) (\<lambda>download_url.
       if forwarded_host \<noteq> None
       then (case hh_port header_host of
               Some port_text \<Rightarrow> WithPort V download_url port_text
             | None \<Rightarrow> Returns (Without V download_url kPort))
       else Returns download_url)"

definition apply_proto ::
    "('u, 'z) vendor_scheme \<Rightarrow> string option \<Rightarrow> string option \<Rightarrow> bool \<Rightarrow> 'u \<Rightarrow> (StorageUrlError + 'u) outcome" where
  "apply_proto V forwarded_host forwarded_proto https_only download_url =
     (case forwarded_proto of
        Some raw \<Rightarrow>
          let first = TakeFirstCommaSeparatedValue V raw in
          if first = [] then Returns (Inl kInvalidForwardedProto)
          else if \<not> (ICaseEqual V first ''http'' \<or> ICaseEqual V first ''https'')
          then Returns (Inl kInvalidForwardedProto)
          else and_then (WithProtocol V download_url (if ICaseEqual V first ''https'' then ''https'' else ''http''))
            (\<lambda>u. Returns (Inr u))
      | None \<Rightarrow>
          if forwarded_host \<noteq> None \<and> https_only
          then and_then (WithProtocol V download_url ''https'') (\<lambda>u. Returns (Inr u))
          else Returns (Inr download_url))"

definition MakeCaptureDownloadUrl ::
    "('u, 'z) vendor_scheme \<Rightarrow> Uuid \<Rightarrow> Mode \<Rightarrow> string \<Rightarrow> string option \<Rightarrow> string option \<Rightarrow> string option \<Rightarrow>
     bool \<Rightarrow> (StorageUrlError + 'u) outcome" where
  "MakeCaptureDownloadUrl V uuid s3_mode public_base_url request_host forwarded_host forwarded_proto https_only =
     (if s3_mode = kExternal then MakeConfiguredCaptureDownloadUrl V uuid public_base_url
      else case Url_FromText V public_base_url of
        None \<Rightarrow> Returns (Inl kInvalidPublicBaseUrl)
      | Some base_url \<Rightarrow>
          if \<not> IsHttpOrHttps V base_url then Returns (Inl kInvalidPublicBaseUrl)
          else and_then (AppendCaptureFilename V base_url uuid) (\<lambda>name.
            and_then (WithPathname V base_url name) (\<lambda>u.
            let download_url = Without V u (or kQuery kHash) in
            and_then (if forwarded_host \<noteq> None
                then ParseHostHeader V forwarded_host kInvalidForwardedHost kInvalidForwardedHost
                else ParseHostHeader V request_host kMissingRequestHost kInvalidRequestHost) (\<lambda>parsed.
            case parsed of
              Inl err \<Rightarrow> Returns (Inl err)
            | Inr header_host \<Rightarrow>
                and_then (apply_host V forwarded_host header_host download_url)
                  (apply_proto V forwarded_host forwarded_proto https_only)))))"

fun StorageUrlErrorMessage :: "StorageUrlError \<Rightarrow> string" where
  "StorageUrlErrorMessage kInvalidPublicBaseUrl = ''invalid public_base_url''"
| "StorageUrlErrorMessage kMissingRequestHost = ''missing request Host header''"
| "StorageUrlErrorMessage kInvalidRequestHost = ''invalid request Host header''"
| "StorageUrlErrorMessage kInvalidForwardedHost = ''invalid X-Forwarded-Host header''"
| "StorageUrlErrorMessage kInvalidForwardedProto = ''invalid X-Forwarded-Proto header''"

section \<open>The address follows the headers\<close>

text \<open>
  What the URL standard says of the setters on an HTTP address: path, query and fragment leave the
  authority and the scheme alone; a hostname that was read from an address is kept as it is; the scheme
  can be changed between HTTP and HTTPS, and the port goes when it is the default of the new scheme.
\<close>

definition authority_contract :: "('u, 'z) vendor_scheme \<Rightarrow> bool" where
  "authority_contract V \<longleftrightarrow>
     (\<forall>u p. IsHttpOrHttps V u \<longrightarrow> fst (set_pathname V u p) \<and>
        ada_type V (snd (set_pathname V u p)) = ada_type V u) \<and>
     (\<forall>u. ada_type V (clear_search V u) = ada_type V u) \<and>
     (\<forall>u s. ada_type V (set_hash V u s) = ada_type V u) \<and>
     (\<forall>u. ada_type V (clear_port V u) = ada_type V u \<and> get_hostname V (clear_port V u) = get_hostname V u \<and>
        \<not> ada_has_port V (clear_port V u)) \<and>
     (\<forall>u v. IsHttpOrHttps V u \<longrightarrow> ada_has_hostname V v \<and> get_hostname V v \<noteq> [] \<longrightarrow>
        fst (set_hostname V u (get_hostname V v)) \<and>
        ada_type V (snd (set_hostname V u (get_hostname V v))) = ada_type V u \<and>
        get_hostname V (snd (set_hostname V u (get_hostname V v))) = get_hostname V v) \<and>
     (\<forall>u v. IsHttpOrHttps V u \<longrightarrow> ada_has_port V v \<longrightarrow>
        fst (set_port V u (get_port V v)) \<and> ada_type V (snd (set_port V u (get_port V v))) = ada_type V u \<and>
        get_hostname V (snd (set_port V u (get_port V v))) = get_hostname V u) \<and>
     (\<forall>u s k. IsHttpOrHttps V u \<longrightarrow> (s, k) \<in> {(''http'', SchemeHttp), (''https'', SchemeHttps)} \<longrightarrow>
        fst (set_protocol V u s) \<and> ada_type V (snd (set_protocol V u s)) = k \<and>
        get_hostname V (snd (set_protocol V u s)) = get_hostname V u \<and>
        (\<not> ada_has_port V u \<longrightarrow> \<not> ada_has_port V (snd (set_protocol V u s))))"

lemma ParseHostHeader_Inr:
  assumes "utf8_contract V" and "ada_ascii_contract V"
    and "ParseHostHeader V header e1 e2 = Returns (Inr hh)"
  obtains parsed where "ada_has_hostname V parsed" "get_hostname V parsed \<noteq> []"
    "hh_hostname hh = get_hostname V parsed"
    "hh_port hh = (if ada_has_port V parsed then Some (get_port V parsed) else None)"
proof -
  from assms(3) obtain hv where hv: "header = Some hv" by (cases header) (auto simp: ParseHostHeader_def)
  from assms(3) obtain t where "and_then (deref_text V (''http://'' @ TakeFirstCommaSeparatedValue V hv)) (\<lambda>_. Returns ()) = Returns ()"
    "deref_text V (''http://'' @ TakeFirstCommaSeparatedValue V hv) = Returns t"
    by (auto simp: ParseHostHeader_def hv Let_def and_then_Returns_iff split: if_splits)
  with assms(3) obtain parsed where "Url_FromText V t = Some parsed"
    by (cases "Url_FromText V t") (auto simp: ParseHostHeader_def hv Let_def split: if_splits)
  with assms(3) \<open>deref_text V _ = Returns t\<close> show thesis
    by (intro that [of parsed])
      (auto simp: ParseHostHeader_def hv Let_def HasHostname_def HasPort_def accessors_return [OF assms(1,2)]
        split: if_splits)
qed

lemma pop_slashes_prefix: "prefix (pop_slashes s) s"
proof (induction s rule: pop_slashes.induct)
  case (1 s)
  show ?case
  proof (cases "length s > 1 \<and> last s = CHR ''/''")
    case True
    from "1.IH" [OF True] have "prefix (pop_slashes (butlast s)) s"
      using prefixeq_butlast prefix_order.trans by blast
    then show ?thesis using True by (simp add: pop_slashes.simps [of s])
  next
    case False
    then show ?thesis by (subst pop_slashes.simps) auto
  qed
qed

lemma AppendCaptureFilename_returns:
  assumes "utf8_contract V" and "ada_ascii_contract V" and "is_ascii (uuid_to_string V uuid)"
  shows "\<exists>name. AppendCaptureFilename V u uuid = Returns name"
proof -
  let ?p = "pop_slashes (if get_pathname V u = [] then ''/'' else get_pathname V u)"
  have "is_ascii ?p"
    by (rule is_ascii_prefix [OF pop_slashes_prefix]) (simp add: ada_ascii_contractD [OF assms(2)])
  then have "is_ascii ((if last ?p \<noteq> CHR ''/'' then ?p @ ''/'' else ?p) @ uuid_to_string V uuid @ ''.wacz'')"
    using assms(3) by simp
  from deref_text_ascii [OF assms(1) this] show ?thesis
    by (simp only: AppendCaptureFilename_def Let_def accessors_return [OF assms(1,2)] and_then_simps) blast
qed

lemma Without_type:
  "authority_contract V \<Longrightarrow> ada_type V (Without V u (or kQuery kHash)) = ada_type V u"
  by (simp add: Without_def HasStripOption_def authority_contract_def kPort_def kQuery_def kHash_def Let_def)

text \<open>The scheme the headers ask for.\<close>

definition wanted_scheme ::
    "('u, 'z) vendor_scheme \<Rightarrow> string option \<Rightarrow> string option \<Rightarrow> bool \<Rightarrow> scheme_kind \<Rightarrow> scheme_kind option" where
  "wanted_scheme V forwarded_host forwarded_proto https_only base =
     (case forwarded_proto of
        Some raw \<Rightarrow>
          let first = TakeFirstCommaSeparatedValue V raw in
          if ICaseEqual V first ''https'' then Some SchemeHttps
          else if ICaseEqual V first ''http'' then Some SchemeHttp else None
      | None \<Rightarrow> Some (if forwarded_host \<noteq> None \<and> https_only then SchemeHttps else base))"

lemma WithProtocol_http:
  assumes "authority_contract V" and "IsHttpOrHttps V u" and "(s, k) \<in> {(''http'', SchemeHttp), (''https'', SchemeHttps)}"
  shows "\<exists>v. WithProtocol V u s = Returns v \<and> ada_type V v = k \<and> get_hostname V v = get_hostname V u \<and>
    (\<not> ada_has_port V u \<longrightarrow> \<not> ada_has_port V v)"
proof -
  have "fst (set_protocol V u s)" "ada_type V (snd (set_protocol V u s)) = k"
    "get_hostname V (snd (set_protocol V u s)) = get_hostname V u"
    "\<not> ada_has_port V u \<longrightarrow> \<not> ada_has_port V (snd (set_protocol V u s))"
    using assms unfolding authority_contract_def by blast+
  then show ?thesis by (simp add: WithProtocol_def checked_set_def)
qed

lemma apply_proto_result:
  assumes "authority_contract V" and "IsHttpOrHttps V u"
  shows "case wanted_scheme V fh fp https_only (ada_type V u) of
      None \<Rightarrow> apply_proto V fh fp https_only u = Returns (Inl kInvalidForwardedProto)
    | Some k \<Rightarrow> \<exists>v. apply_proto V fh fp https_only u = Returns (Inr v) \<and> ada_type V v = k \<and>
        get_hostname V v = get_hostname V u \<and> (\<not> ada_has_port V u \<longrightarrow> \<not> ada_has_port V v)"
proof -
  have no: "\<not> ICaseEqual V [] ''https''" "\<not> ICaseEqual V [] ''http''" by (simp_all add: ICaseEqual_def)
  from WithProtocol_http [OF assms, of "''http''" SchemeHttp] WithProtocol_http [OF assms, of "''https''" SchemeHttps]
  show ?thesis
    by (cases fp) (auto simp: wanted_scheme_def apply_proto_def Let_def no)
qed

lemma apply_host_result:
  assumes "authority_contract V" and "IsHttpOrHttps V u" and "ada_has_hostname V p" "get_hostname V p \<noteq> []"
    and "hh_hostname hh = get_hostname V p"
    and "hh_port hh = (if ada_has_port V p then Some (get_port V p) else None)"
  shows "\<exists>v. apply_host V fh hh u = Returns v \<and> ada_type V v = ada_type V u \<and>
    get_hostname V v = hh_hostname hh \<and> (fh \<noteq> None \<and> hh_port hh = None \<longrightarrow> \<not> ada_has_port V v)"
proof -
  let ?v = "snd (set_hostname V u (get_hostname V p))"
  have v: "fst (set_hostname V u (get_hostname V p))" "ada_type V ?v = ada_type V u" "get_hostname V ?v = get_hostname V p"
    using assms(1-4) unfolding authority_contract_def by blast+
  have h: "IsHttpOrHttps V ?v" using assms(2) v(2) by (simp add: IsHttpOrHttps_def IsHttp_def IsHttps_def)
  have port: "fst (set_port V ?v (get_port V p))" "ada_type V (snd (set_port V ?v (get_port V p))) = ada_type V ?v"
      "get_hostname V (snd (set_port V ?v (get_port V p))) = get_hostname V ?v" if "ada_has_port V p"
    using assms(1) h that unfolding authority_contract_def by blast+
  have clear: "Without V ?v kPort = clear_port V ?v"
    by (simp add: Without_def HasStripOption_def kPort_def kQuery_def kHash_def Let_def)
  have "ada_type V (clear_port V w) = ada_type V w" "get_hostname V (clear_port V w) = get_hostname V w"
    "\<not> ada_has_port V (clear_port V w)" for w
    using assms(1) unfolding authority_contract_def by blast+
  with v port show ?thesis
    by (auto simp: apply_host_def WithHostname_def WithPort_def checked_set_def assms(5,6) clear)
qed

theorem download_url_result:
  assumes V: "utf8_contract V" "ada_ascii_contract V" "authority_contract V" and "is_ascii (uuid_to_string V uuid)"
    and base: "Url_FromText V public_base_url = Some base_url" "IsHttpOrHttps V base_url"
    and hh: "(if fh \<noteq> None then ParseHostHeader V fh kInvalidForwardedHost kInvalidForwardedHost
        else ParseHostHeader V rh kMissingRequestHost kInvalidRequestHost) = Returns (Inr hh)"
  shows "case wanted_scheme V fh fp https_only (ada_type V base_url) of
      None \<Rightarrow> MakeCaptureDownloadUrl V uuid kLocal public_base_url rh fh fp https_only =
        Returns (Inl kInvalidForwardedProto)
    | Some k \<Rightarrow> \<exists>u. MakeCaptureDownloadUrl V uuid kLocal public_base_url rh fh fp https_only = Returns (Inr u) \<and>
        ada_type V u = k \<and> get_hostname V u = hh_hostname hh \<and>
        (fh \<noteq> None \<and> hh_port hh = None \<longrightarrow> \<not> ada_has_port V u)"
proof -
  obtain name where name: "AppendCaptureFilename V base_url uuid = Returns name"
    using AppendCaptureFilename_returns [OF V(1,2) assms(4)] by blast
  let ?u = "snd (set_pathname V base_url name)"
  have u: "fst (set_pathname V base_url name)" "ada_type V ?u = ada_type V base_url"
    using V(3) base(2) by (simp_all add: authority_contract_def)
  let ?d = "Without V ?u (or kQuery kHash)"
  have d: "ada_type V ?d = ada_type V base_url" using Without_type [OF V(3)] u(2) by simp
  then have dh: "IsHttpOrHttps V ?d" using base(2) by (simp add: IsHttpOrHttps_def IsHttp_def IsHttps_def)
  obtain p where p: "ada_has_hostname V p" "get_hostname V p \<noteq> []" "hh_hostname hh = get_hostname V p"
      "hh_port hh = (if ada_has_port V p then Some (get_port V p) else None)"
    using hh by (cases "fh \<noteq> None") (auto elim: ParseHostHeader_Inr [OF V(1,2)])
  from apply_host_result [OF V(3) dh p, of fh] obtain v where
    v: "apply_host V fh hh ?d = Returns v" "ada_type V v = ada_type V ?d" "get_hostname V v = hh_hostname hh"
      "fh \<noteq> None \<and> hh_port hh = None \<longrightarrow> \<not> ada_has_port V v" by blast
  have "IsHttpOrHttps V v" using dh v(2) by (simp add: IsHttpOrHttps_def IsHttp_def IsHttps_def)
  note proto = apply_proto_result [OF V(3) this, of fh fp https_only, unfolded v(2) d]
  have m: "MakeCaptureDownloadUrl V uuid kLocal public_base_url rh fh fp https_only = apply_proto V fh fp https_only v"
    by (simp add: MakeCaptureDownloadUrl_def base name WithPathname_def checked_set_def u(1) Let_def v(1) hh
        del: not_None_eq not_Some_eq)
  show ?thesis
  proof (cases "wanted_scheme V fh fp https_only (ada_type V base_url)")
    case None
    with proto show ?thesis by (simp add: m)
  next
    case (Some k)
    with proto obtain w where "apply_proto V fh fp https_only v = Returns (Inr w)" "ada_type V w = k"
      "get_hostname V w = get_hostname V v" "\<not> ada_has_port V v \<longrightarrow> \<not> ada_has_port V w" by auto
    with v(3,4) Some show ?thesis by (simp add: m)
  qed
qed

end
