(* ===== verification/Example_S3.thy ===== *)
theory Example_S3
  imports S3_Sts Storage_Url Example_Vendor
begin

text \<open>A concrete environment of the object store client, on which the properties are applied.\<close>

definition example_s3_env :: s3_env where
  "example_s3_env = \<lparr>RemoveExtraAsciiWhitespace = (\<lambda>s. s),
     HmacSha256 = (\<lambda>k s enc. if enc = kHex then hex_encode (take 4 s) else s),
     hash_Sha256 = (\<lambda>s enc. if enc = kHex then hex_encode (take 4 s) else s),
     cctz_format = (\<lambda>f t. if f = ''%Y%m%d'' then ''20260101'' else ''20260101T000000Z''),
     cctz_parse = (\<lambda>f s. if s = ''2026-01-01T00:00:00Z'' then Some 7 else None),
     kRfc3339Format = ''rfc3339'', percent_decode = (\<lambda>s i. percent_decoded s)\<rparr>"

definition example_config :: S3Config where
  "example_config = \<lparr>s3_endpoint = ''https://store'', s3_region = ''r'', s3_timeout_ms = 5, s3_virtual_hosted = False\<rparr>"

definition example_creds :: Credentials where
  "example_creds = \<lparr>cr_access_key_id = ''AK'', cr_secret_access_key = ''SK'', cr_session_token = None\<rparr>"

definition example_client :: "url Client" where
  "example_client = \<lparr>client_config = example_config, client_creds = example_creds, client_bucket_name = ''b'',
     client_endpoint = \<lparr>ep_url = (''https'', ''store'', ''/''), ep_host = ''store'', ep_hostname = ''store'',
       ep_port = [], ep_base_path = ''/''\<rparr>\<rparr>"

definition example_built :: BuiltUrl where
  "example_built = \<lparr>built_href = ''https://store/b/k'', built_host = ''store'', built_raw_path = ''/b/k''\<rparr>"

lemma example_client_made: "make_Client example_vendor example_config example_creds ''b'' = Returns example_client"
  by code_simp

lemma example_path_url: "MakePathStyleUrl example_vendor example_client ''k'' None = Returns example_built"
  by code_simp

lemma example_lower [simp]: "lower_contract example_vendor"
  unfolding lower_contract_def lower_def
  by (simp add: example_vendor_def ascii_lower_def [abs_def] byte_def less_eq_char_def)

lemma example_percent [simp]: "percent_contract example_s3_env"
  by (simp add: percent_contract_def example_s3_env_def)

lemma example_whitespace [simp]: "whitespace_contract example_s3_env"
  by (simp add: whitespace_contract_def example_s3_env_def)

lemma example_hex_hash [simp]: "hex_hash_contract example_s3_env"
  by (simp add: hex_hash_contract_def example_s3_env_def hex_encode_ascii)

lemma example_wf_ascii: "is_ascii s \<Longrightarrow> wf_text example_vendor s"
  by (rule wf_text_ascii) simp_all

lemma example_authority [simp]: "authority_contract example_vendor"
  unfolding authority_contract_def
  by (auto simp: example_vendor_def asc_def)

definition example_params :: SigParams where
  "example_params = MakeSigParams example_s3_env example_client 0"

definition example_http :: http_env where
  "example_http = \<lparr>perform = (\<lambda>r. Returns \<lparr>resp_status = 200, resp_headers = [], resp_body = hreq_method r\<rparr>),
     status_raises = (\<lambda>s. 400 \<le> s)\<rparr>"

lemma example_presign_texts:
  "presign_texts_ok example_vendor example_s3_env example_params [(''host'', ''store'')]"
proof -
  have "\<forall>p\<in>set (presign_query example_params 0 0 [(''host'', ''store'')]). is_ascii (fst p) \<and> is_ascii (snd p)"
    by code_simp
  then show ?thesis
    by (auto simp: presign_texts_ok_def texts_ok_def example_wf_ascii example_s3_env_def hex_encode_ascii)
qed

lemma example_sts_texts: "texts_ok example_vendor (sts_params ''arn:x&y'' ''s'' 900 ''{}'')"
proof -
  have "\<forall>p\<in>set (sts_params ''arn:x&y'' ''s'' 900 ''{}''). is_ascii (fst p) \<and> is_ascii (snd p)"
    by code_simp
  then show ?thesis by (auto simp: texts_ok_def example_wf_ascii)
qed

end
