(* ===== verification/Deadlines.thy ===== *)
theory Deadlines
  imports Prelude "HOL-Library.Signed_Division"
begin

text \<open>
  \<open>include/deadline_utils.hpp\<close>: deadlines of the engine.  A deadline is a point in time in
  nanoseconds, or none when it is unreachable; the clock is an argument.
\<close>

type_synonym Deadline = "int option"

datatype DeadlineError = kDeadlineTimeout

definition TimeLeft :: "int \<Rightarrow> int \<Rightarrow> int" where
  "TimeLeft now t = t - now"

definition PickEarlierDeadline :: "int \<Rightarrow> Deadline \<Rightarrow> Deadline \<Rightarrow> Deadline" where
  "PickEarlierDeadline now a b =
     (case (a, b) of
        (Some x, None) \<Rightarrow> a
      | (None, Some y) \<Rightarrow> b
      | (None, None) \<Rightarrow> a
      | (Some x, Some y) \<Rightarrow> if TimeLeft now x \<le> TimeLeft now y then a else b)"

definition ComputeHandlerDeadline :: "int \<Rightarrow> int \<Rightarrow> int \<Rightarrow> Deadline \<Rightarrow> Deadline" where
  "ComputeHandlerDeadline now start_time handler_timeout_ms inherited_deadline =
     (let config_deadline = Some (start_time + handler_timeout_ms * 1000000)
      in PickEarlierDeadline now config_deadline inherited_deadline)"

definition kMaxMs :: int where
  "kMaxMs = 2 ^ 63 - 1"

definition TimeLeftOrZeroMs :: "int \<Rightarrow> Deadline \<Rightarrow> int" where
  "TimeLeftOrZeroMs now deadline =
     (case deadline of
        None \<Rightarrow> kMaxMs
      | Some t \<Rightarrow>
          let left = TimeLeft now t in
          if left \<le> 0 then 0
          else let left_ms = left sdiv 1000000 in if left_ms \<le> 0 then 0 else left_ms)"

definition TimeLeftMs :: "int \<Rightarrow> Deadline \<Rightarrow> DeadlineError + int" where
  "TimeLeftMs now deadline =
     (case deadline of
        Some t \<Rightarrow> if t \<le> now then Inl kDeadlineTimeout else Inr (TimeLeftOrZeroMs now deadline)
      | None \<Rightarrow> Inr (TimeLeftOrZeroMs now deadline))"

text \<open>The two sleeping helpers return how long they sleep beside their result.\<close>

definition SleepWithinDeadline :: "int \<Rightarrow> Deadline \<Rightarrow> int \<Rightarrow> (DeadlineError + unit) \<times> int" where
  "SleepWithinDeadline now deadline delay_ms =
     (if delay_ms \<le> 0 then (Inr (), 0)
      else case TimeLeftMs now deadline of
        Inl err \<Rightarrow> (Inl err, 0)
      | Inr left \<Rightarrow>
          let sleep_for = min delay_ms left in
          if sleep_for \<noteq> delay_ms then (Inl kDeadlineTimeout, sleep_for) else (Inr (), sleep_for))"

definition SleepUntilDeadline :: "int \<Rightarrow> Deadline \<Rightarrow> (DeadlineError + unit) outcome \<times> int" where
  "SleepUntilDeadline now deadline =
     (if deadline = None then (Aborts ''sleepUntilDeadline requires a reachable deadline'', 0)
      else case TimeLeftMs now deadline of
        Inl err \<Rightarrow> (Returns (Inl err), 0)
      | Inr remaining \<Rightarrow>
          if remaining > 0 then (Returns (Inr ()), remaining) else (Returns (Inl kDeadlineTimeout), 0))"

section \<open>Deadlines are respected\<close>

text \<open>The picked deadline is not later than either.\<close>

fun not_later :: "Deadline \<Rightarrow> Deadline \<Rightarrow> bool" where
  "not_later _ None = True"
| "not_later None (Some _) = False"
| "not_later (Some x) (Some y) = (x \<le> y)"

lemma PickEarlierDeadline_not_later:
  "not_later (PickEarlierDeadline now a b) a" "not_later (PickEarlierDeadline now a b) b"
  "PickEarlierDeadline now a b = a \<or> PickEarlierDeadline now a b = b"
  by (cases a; cases b; auto simp: PickEarlierDeadline_def TimeLeft_def)+

lemma TimeLeftOrZeroMs_fits:
  "deadline = Some t \<Longrightarrow> 0 \<le> TimeLeftOrZeroMs now deadline \<and>
     (now \<le> t \<longrightarrow> now + 1000000 * TimeLeftOrZeroMs now deadline \<le> t)"
  by (auto simp: TimeLeftOrZeroMs_def TimeLeft_def Let_def signed_divide_int_def)

lemma SleepWithinDeadline_fits:
  assumes "SleepWithinDeadline now (Some t) delay_ms = (r, slept)"
  shows "0 \<le> slept \<and> (now \<le> t \<longrightarrow> now + 1000000 * slept \<le> t) \<and> (r = Inr () \<longrightarrow> slept = max 0 delay_ms)"
  using assms TimeLeftOrZeroMs_fits [OF refl, where t = t and now = now]
  by (auto simp: SleepWithinDeadline_def TimeLeftMs_def Let_def min_def split: if_splits)

end
