(* ===== verification/Cdp_Client.thy ===== *)
theory Cdp_Client
  imports Url Integers Deadlines
begin

text \<open>
  \<open>crawler/cdp_client.cpp\<close>, \<open>cdp_client.hpp\<close> and \<open>cdp_request_tracker.hpp\<close>: the client of the browser's
  debugging protocol.  Commands are sent over a websocket and wait for the answer with their number; a
  reader task hands answers to the waiting commands and events to the sessions.

  The state is shared by tasks.  It is only touched inside critical sections, each of which is a
  function on the state; a function that enters several of them is the composition of them, and before
  each entry an interference function \<open>I\<close> does what other tasks did meanwhile.  Waiting on a condition
  variable is the same: the predicate is looked at once more after the interference, and when it does
  not hold the wait has timed out.
\<close>

section \<open>Data\<close>

datatype CdpErrorCode =
  kTraceFileOpenFailed | kTraceWriteFailed | kSocketConnectFailed | kHandshakeTimeout
| kHandshakeResponseTooLarge | kHandshakeUnexpectedEof | kHandshakeMalformedResponse | kHandshakeRejected
| kHandshakeMissingHeader | kSocketClosed | kTransport | kTimeout | kJsonParseFailed | kProtocol
| kCommandFailed

record CdpError =
  cdp_code :: CdpErrorCode
  cdp_detail :: "string option"

record CdpPendingRequest =
  pr_method :: string
  pr_session_id :: "string option"
  pr_ignore_response :: bool

text \<open>
  JSON values are those of the framework, the type \<open>'j\<close>; a \<open>json::Value\<close> may be missing, which is
  \<open>None\<close>.  Maps are association lists.
\<close>

record 'j CdpEvent =
  ev_method :: string
  ev_params :: "'j option"
  ev_session_id :: "string option"

text \<open>\<open>dto::CdpEventMessage\<close> and \<open>dto::CdpCommandRequest\<close> of \<open>schema/cdp.yaml\<close>.\<close>

record 'j CdpEventMessage =
  em_method :: string
  em_params :: "'j option"
  em_session_id :: "string option"

record 'j CdpCommandRequest =
  cmd_id :: int
  cmd_method :: string
  cmd_params :: "'j option"
  cmd_session_id :: "string option"

text \<open>\<open>PendingCommandWaiter::Data\<close> and \<open>CdpSessionState::Data\<close>.\<close>

record 'j waiter =
  w_result :: "'j option option"
  w_error :: "CdpError option"
  w_done :: bool

record 'j session_data =
  sd_events :: "'j CdpEvent list"
  sd_error :: "CdpError option"
  sd_stopped :: bool

record SharedState =
  pending_waiters :: "(int \<times> nat) list"
  sessions_by_id :: "(string \<times> nat) list"
  sessions_by_target_id :: "(string \<times> nat) list"
  pending_requests :: "(int \<times> CdpPendingRequest) list"
  next_request_id :: int
  fatal_error :: "CdpError option"
  stopping :: bool
  client_stopped :: bool

text \<open>
  The client with the objects behind its shared pointers: a pointer is a number, and \<open>next_waiter\<close> and
  \<open>next_session\<close> are the next free ones.  \<open>completing\<close> and \<open>ending\<close> hold what a task has taken out of the shared state in one
  critical section and hands over in the next, its local variables, with the number of the task.
\<close>

datatype trace_value = TText string | TInt int

type_synonym trace_entry = "(string \<times> trace_value) list"

type_synonym 'j reply = "CdpError + 'j option"

record 'j cdp =
  shared :: SharedState
  waiters :: "nat \<Rightarrow> 'j waiter"
  sessions :: "nat \<Rightarrow> 'j session_data"
  next_waiter :: nat
  next_session :: nat
  completing :: "(nat \<times> nat \<times> 'j reply) list"
  ending :: "(nat \<times> nat \<times> CdpError) list"
  reader_alive :: bool
  reader_valid :: bool
  connected :: bool
  sent_texts :: "string list"
  trace_lines :: "trace_entry list"
  ticks :: nat

section \<open>The environment\<close>

text \<open>
  The JSON library, with an exception as \<open>Throws\<close>; the clock text of the trace and whether a write of
  it works; the websocket, whose calls fail with a message and whether the task was cancelled.
\<close>

datatype 'a io = IoOk 'a | IoFailed string bool

record 'j cdp_env =
  json_parse :: "string \<Rightarrow> 'j option"
  json_member :: "'j \<Rightarrow> string \<Rightarrow> 'j option outcome"
  json_int64 :: "'j \<Rightarrow> int outcome"
  json_string :: "'j \<Rightarrow> string outcome"
  json_is_object :: "'j \<Rightarrow> bool"
  as_error_message :: "'j \<Rightarrow> string option"
  as_event_message :: "'j \<Rightarrow> 'j CdpEventMessage option"
  params_extra :: "'j \<Rightarrow> string \<Rightarrow> 'j option"
  stringify_command :: "'j CdpCommandRequest \<Rightarrow> string option"
  trace_ts :: "nat \<Rightarrow> string"
  trace_write_ok :: "nat \<Rightarrow> bool"
  send_text :: "nat \<Rightarrow> string \<Rightarrow> unit io"
  close_socket :: "nat \<Rightarrow> unit io"

type_synonym 'j interference = "nat \<Rightarrow> 'j cdp \<Rightarrow> 'j cdp"

definition enter :: "'j interference \<Rightarrow> 'j cdp \<Rightarrow> 'j cdp" where
  "enter I s = (I (ticks s) s)\<lparr>ticks := Suc (ticks s)\<rparr>"

section \<open>The request tracker\<close>

fun erase :: "'k \<Rightarrow> ('k \<times> 'v) list \<Rightarrow> ('k \<times> 'v) list" where
  "erase k [] = []"
| "erase k ((k', v) # m) = (if k' = k then erase k m else (k', v) # erase k m)"

definition map_emplace :: "'k \<Rightarrow> 'v \<Rightarrow> ('k \<times> 'v) list \<Rightarrow> ('k \<times> 'v) list" where
  "map_emplace k v m = (if map_of m k = None then m @ [(k, v)] else m)"

type_synonym CdpRequestTracker = "(int \<times> CdpPendingRequest) list"

definition tracker_Insert :: "int \<Rightarrow> CdpPendingRequest \<Rightarrow> CdpRequestTracker \<Rightarrow> CdpRequestTracker outcome" where
  "tracker_Insert rid request requests =
     Invariant (map_of requests rid = None) ''duplicate cdp request id''
       (Returns (map_emplace rid request requests))"

definition InsertPending :: "int \<Rightarrow> string \<Rightarrow> string option \<Rightarrow> CdpRequestTracker \<Rightarrow> CdpRequestTracker outcome" where
  "InsertPending rid m session_id requests =
     tracker_Insert rid \<lparr>pr_method = m, pr_session_id = session_id, pr_ignore_response = False\<rparr> requests"

definition InsertIgnored :: "int \<Rightarrow> string \<Rightarrow> string option \<Rightarrow> CdpRequestTracker \<Rightarrow> CdpRequestTracker outcome" where
  "InsertIgnored rid m session_id requests =
     tracker_Insert rid \<lparr>pr_method = m, pr_session_id = session_id, pr_ignore_response = True\<rparr> requests"

definition tracker_Find :: "int \<Rightarrow> CdpRequestTracker \<Rightarrow> CdpPendingRequest option" where
  "tracker_Find rid requests = map_of requests rid"

fun set_ignore :: "int \<Rightarrow> CdpRequestTracker \<Rightarrow> CdpRequestTracker" where
  "set_ignore rid [] = []"
| "set_ignore rid ((i, r) # m) =
     (if i = rid then (i, r\<lparr>pr_ignore_response := True\<rparr>) # m else (i, r) # set_ignore rid m)"

definition MarkIgnoreResponse :: "int \<Rightarrow> CdpRequestTracker \<Rightarrow> CdpRequestTracker outcome" where
  "MarkIgnoreResponse rid requests =
     Invariant (tracker_Find rid requests \<noteq> None) ''cannot ignore unknown cdp request''
       (Returns (set_ignore rid requests))"

definition tracker_Size :: "CdpRequestTracker \<Rightarrow> nat" where
  "tracker_Size requests = length requests"

section \<open>Errors and the trace\<close>

definition plain_error :: "CdpErrorCode \<Rightarrow> CdpError" where
  "plain_error code = \<lparr>cdp_code = code, cdp_detail = None\<rparr>"

definition MakeTimeoutError :: "string \<Rightarrow> CdpError" where
  "MakeTimeoutError timeout_message = \<lparr>cdp_code = kTimeout, cdp_detail = Some timeout_message\<rparr>"

definition MakeSocketClosedError :: "string \<Rightarrow> CdpError" where
  "MakeSocketClosedError detail = \<lparr>cdp_code = kSocketClosed, cdp_detail = Some detail\<rparr>"

definition FormatCdpError :: "('u, 'z) vendor_scheme \<Rightarrow> string \<Rightarrow> CdpError \<Rightarrow> string outcome" where
  "FormatCdpError V action err =
     (case cdp_detail err of
        None \<Rightarrow> Returns action | Some d \<Rightarrow> deref_text V (action @ '': '' @ d))"

text \<open>\<open>WriteTraceLine\<close> through \<open>WriteTraceLineBestEffort\<close>: a failed write is only logged.\<close>

definition WriteTraceLine :: "'j cdp_env \<Rightarrow> trace_entry \<Rightarrow> 'j cdp \<Rightarrow> (CdpError + unit) \<times> 'j cdp" where
  "WriteTraceLine E entry s =
     (if trace_write_ok E (ticks s) then (Inr (), s\<lparr>trace_lines := trace_lines s @ [entry]\<rparr>)
      else (Inl (plain_error kTraceWriteFailed), s))"

definition WriteTraceLineBestEffort :: "'j cdp_env \<Rightarrow> trace_entry \<Rightarrow> 'j cdp \<Rightarrow> 'j cdp" where
  "WriteTraceLineBestEffort E entry s = snd (WriteTraceLine E entry s)"

definition session_entry :: "string option \<Rightarrow> trace_entry" where
  "session_entry session_id = (case session_id of None \<Rightarrow> [] | Some i \<Rightarrow> [(''sessionId'', TText i)])"

definition TraceCommand :: "'j cdp_env \<Rightarrow> int \<Rightarrow> string \<Rightarrow> string option \<Rightarrow> 'j cdp \<Rightarrow> 'j cdp" where
  "TraceCommand E rid m session_id s = WriteTraceLineBestEffort E
     ([(''ts'', TText (trace_ts E (ticks s))), (''direction'', TText ''out''), (''kind'', TText ''command''),
       (''id'', TInt rid), (''method'', TText m)] @ session_entry session_id) s"

definition TraceResponse ::
    "'j cdp_env \<Rightarrow> int \<Rightarrow> CdpPendingRequest option \<Rightarrow> string option \<Rightarrow> 'j cdp \<Rightarrow> 'j cdp" where
  "TraceResponse E rid request err s = WriteTraceLineBestEffort E
     ([(''ts'', TText (trace_ts E (ticks s))), (''direction'', TText ''in''),
       (''kind'', TText (if err \<noteq> None then ''error'' else ''response'')), (''id'', TInt rid)] @
      (case request of None \<Rightarrow> []
       | Some r \<Rightarrow> [(''method'', TText (pr_method r))] @ session_entry (pr_session_id r)) @
      (case err of None \<Rightarrow> [] | Some e \<Rightarrow> [(''error'', TText e)])) s"

definition TraceEvent :: "'j cdp_env \<Rightarrow> string \<Rightarrow> string option \<Rightarrow> 'j cdp \<Rightarrow> 'j cdp" where
  "TraceEvent E m session_id s = WriteTraceLineBestEffort E
     ([(''ts'', TText (trace_ts E (ticks s))), (''direction'', TText ''in''), (''kind'', TText ''event''),
       (''method'', TText m)] @ session_entry session_id) s"

definition TraceStop :: "'j cdp_env \<Rightarrow> string \<Rightarrow> int \<Rightarrow> 'j cdp \<Rightarrow> 'j cdp" where
  "TraceStop E direction close_code s = WriteTraceLineBestEffort E
     [(''ts'', TText (trace_ts E (ticks s))), (''direction'', TText direction), (''kind'', TText ''stop''),
      (''closeCode'', TInt close_code)] s"

definition TraceTransportError :: "'j cdp_env \<Rightarrow> string \<Rightarrow> string \<Rightarrow> 'j cdp \<Rightarrow> 'j cdp" where
  "TraceTransportError E operation err s = WriteTraceLineBestEffort E
     [(''ts'', TText (trace_ts E (ticks s))), (''kind'', TText ''transport_error''),
      (''operation'', TText operation), (''error'', TText err)] s"

section \<open>Commands\<close>

text \<open>The rest of a function after a part that may end or leave it.\<close>

definition next_do :: "'a outcome \<times> 's \<Rightarrow> ('a \<Rightarrow> 's \<Rightarrow> 'b outcome \<times> 's) \<Rightarrow> 'b outcome \<times> 's" where
  "next_do r k =
     (case r of (Aborts m, s) \<Rightarrow> (Aborts m, s) | (Throws m, s) \<Rightarrow> (Throws m, s) | (Returns v, s) \<Rightarrow> k v s)"

definition closed_socket :: CdpError where
  "closed_socket = MakeSocketClosedError ''cdp socket is closed''"

definition register_section ::
    "string \<Rightarrow> string option \<Rightarrow> 'j cdp \<Rightarrow> (CdpError + int \<times> nat) outcome \<times> 'j cdp" where
  "register_section m session_id s =
     (let st = shared s in
      case fatal_error st of
        Some err \<Rightarrow> (Returns (Inl err), s)
      | None \<Rightarrow>
          if stopping st \<or> client_stopped st then (Returns (Inl closed_socket), s)
          else let rid = next_request_id st; ref = next_waiter s in
            case InsertPending rid m session_id (pending_requests st) of
              Aborts why \<Rightarrow> (Aborts why, s)
            | Throws why \<Rightarrow> (Throws why, s)
            | Returns requests \<Rightarrow>
                (Returns (Inr (rid, ref)),
                 s\<lparr>shared := st\<lparr>next_request_id := rid + 1, pending_requests := requests,
                     pending_waiters := map_emplace rid ref (pending_waiters st)\<rparr>,
                   waiters := (waiters s)(ref := \<lparr>w_result = None, w_error = None, w_done = False\<rparr>),
                   next_waiter := Suc ref\<rparr>))"

definition expire_section :: "int \<Rightarrow> 'j cdp \<Rightarrow> bool \<times> 'j cdp" where
  "expire_section rid s =
     (let st = shared s in
      if tracker_Find rid (pending_requests st) \<noteq> None
      then (True, s\<lparr>shared := st\<lparr>pending_requests := set_ignore rid (pending_requests st),
             pending_waiters := erase rid (pending_waiters st)\<rparr>\<rparr>)
      else (False, s))"

definition timed_out :: CdpError where
  "timed_out = MakeTimeoutError ''timed out waiting for cdp response''"

definition waiter_answer :: "'j waiter \<Rightarrow> 'j reply outcome" where
  "waiter_answer w =
     (if \<not> w_done w then Returns (Inl timed_out)
      else case w_error w of
        Some err \<Rightarrow> Returns (Inl err)
      | None \<Rightarrow>
          (case w_result w of
             None \<Rightarrow> Aborts ''cdp waiter completed without result'' | Some v \<Rightarrow> Returns (Inr v)))"

definition complete_section :: "nat \<Rightarrow> nat \<Rightarrow> 'j reply \<Rightarrow> 'j cdp \<Rightarrow> 'j cdp" where
  "complete_section me ref r s =
     s\<lparr>waiters := (waiters s)(ref := (case r of
         Inr v \<Rightarrow> (waiters s ref)\<lparr>w_result := Some v, w_done := True\<rparr>
       | Inl err \<Rightarrow> (waiters s ref)\<lparr>w_error := Some err, w_done := True\<rparr>)),
       completing := remove1 (me, ref, r) (completing s)\<rparr>"

definition end_section :: "nat \<Rightarrow> nat \<Rightarrow> CdpError \<Rightarrow> 'j cdp \<Rightarrow> 'j cdp" where
  "end_section me ref err s =
     s\<lparr>sessions := (sessions s)(ref := (sessions s ref)\<lparr>sd_error := Some err, sd_stopped := True\<rparr>),
       ending := remove1 (me, ref, err) (ending s)\<rparr>"

definition fail_section :: "nat \<Rightarrow> CdpError \<Rightarrow> 'j cdp \<Rightarrow> 'j cdp" where
  "fail_section me err s =
     (let st = shared s in
      s\<lparr>shared := st\<lparr>fatal_error := Some err, client_stopped := True, pending_waiters := [], pending_requests := [],
          sessions_by_id := [], sessions_by_target_id := []\<rparr>,
        completing := completing s @ map (\<lambda>w. (me, snd w, Inl err)) (pending_waiters st),
        ending := ending s @ map (\<lambda>x. (me, snd x, err)) (sessions_by_id st)\<rparr>)"

definition SetFatalError :: "nat \<Rightarrow> 'j interference \<Rightarrow> CdpError \<Rightarrow> 'j cdp \<Rightarrow> 'j cdp" where
  "SetFatalError me I err s =
     (let s = enter I s in
      if fatal_error (shared s) \<noteq> None then s
      else let ws = map snd (pending_waiters (shared s)); ss = map snd (sessions_by_id (shared s));
               s = fail_section me err s;
               s = fold (\<lambda>ref s. complete_section me ref (Inl err) (enter I s)) ws s
           in fold (\<lambda>ref s. end_section me ref err (enter I s)) ss s)"

text \<open>The parts of \<open>SendRaw\<close>: waiting for the answer, and sending the registered command first.\<close>

definition await_response :: "'j interference \<Rightarrow> int \<Rightarrow> nat \<Rightarrow> 'j cdp \<Rightarrow> 'j reply outcome \<times> 'j cdp" where
  "await_response I rid ref s =
     (let s = enter I s in
      if w_done (waiters s ref) then (waiter_answer (waiters s ref), s)
      else let (expired, s) = expire_section rid (enter I s) in
        if expired then (Returns (Inl timed_out), s)
        else let s = enter I s in (waiter_answer (waiters s ref), s))"

definition send_registered ::
    "('u, 'z) vendor_scheme \<Rightarrow> 'j cdp_env \<Rightarrow> nat \<Rightarrow> 'j interference \<Rightarrow> string \<Rightarrow> 'j option \<Rightarrow> string option \<Rightarrow>
     int \<Rightarrow> nat \<Rightarrow> 'j cdp \<Rightarrow> 'j reply outcome \<times> 'j cdp" where
  "send_registered V E me I m params session_id rid ref s =
     (let s = TraceCommand E rid m session_id s in
      case stringify_command E \<lparr>cmd_id = rid, cmd_method = m, cmd_params = params, cmd_session_id = session_id\<rparr> of
        None \<Rightarrow> (Returns (Inl (plain_error kProtocol)), s)
      | Some request_bytes \<Rightarrow>
          let s = enter I s in
          case send_text E (ticks s) request_bytes of
            IoFailed what cancelled \<Rightarrow>
              if cancelled then (Throws what, s)
              else next_do (deref_text V what, s) (\<lambda>t s.
                let s = TraceTransportError E ''send'' t s;
                    err = plain_error kTransport;
                    s = SetFatalError me I err s
                in (Returns (Inl err), s))
          | IoOk _ \<Rightarrow> await_response I rid ref (s\<lparr>sent_texts := sent_texts s @ [request_bytes]\<rparr>))"

definition SendRaw ::
    "('u, 'z) vendor_scheme \<Rightarrow> 'j cdp_env \<Rightarrow> nat \<Rightarrow> 'j interference \<Rightarrow> string \<Rightarrow> 'j option \<Rightarrow> string option \<Rightarrow> 'j cdp \<Rightarrow>
     'j reply outcome \<times> 'j cdp" where
  "SendRaw V E me I m params session_id s =
     next_do (register_section m session_id (enter I s)) (\<lambda>r s.
       case r of
         Inl err \<Rightarrow> (Returns (Inl err), s)
       | Inr (rid, ref) \<Rightarrow> send_registered V E me I m params session_id rid ref s)"

section \<open>Sessions\<close>

record CdpSession =
  cs_session_id :: string
  cs_target_id :: string
  cs_ref :: nat

definition open_section :: "string \<Rightarrow> string \<Rightarrow> 'j cdp \<Rightarrow> (CdpError + CdpSession) \<times> 'j cdp" where
  "open_section session_id target_id s =
     (let st = shared s in
      case fatal_error st of
        Some err \<Rightarrow> (Inl err, s)
      | None \<Rightarrow>
          if stopping st \<or> client_stopped st then (Inl closed_socket, s)
          else let ref = next_session s in
            (Inr \<lparr>cs_session_id = session_id, cs_target_id = target_id, cs_ref = ref\<rparr>,
             s\<lparr>shared := st\<lparr>sessions_by_id := map_emplace session_id ref (sessions_by_id st),
                 sessions_by_target_id := map_emplace target_id ref (sessions_by_target_id st)\<rparr>,
               sessions := (sessions s)(ref := \<lparr>sd_events = [], sd_error = None, sd_stopped = False\<rparr>),
               next_session := Suc ref\<rparr>))"

definition MakeSession ::
    "'j interference \<Rightarrow> string \<Rightarrow> string \<Rightarrow> 'j cdp \<Rightarrow> (CdpError + CdpSession) \<times> 'j cdp" where
  "MakeSession I session_id target_id s = open_section session_id target_id (enter I s)"

definition erase_value :: "'k \<Rightarrow> 'v \<Rightarrow> ('k \<times> 'v) list \<Rightarrow> ('k \<times> 'v) list" where
  "erase_value k v m = (if map_of m k = Some v then erase k m else m)"

definition unregister_section :: "CdpSession \<Rightarrow> 'j cdp \<Rightarrow> 'j cdp" where
  "unregister_section c s =
     (let st = shared s in
      s\<lparr>shared := st\<lparr>sessions_by_id := erase_value (cs_session_id c) (cs_ref c) (sessions_by_id st),
         sessions_by_target_id := erase_value (cs_target_id c) (cs_ref c) (sessions_by_target_id st)\<rparr>\<rparr>)"

definition close_section :: "nat \<Rightarrow> 'j cdp \<Rightarrow> 'j cdp" where
  "close_section ref s =
     (let d = (sessions s ref)\<lparr>sd_stopped := True\<rparr>;
          d = (if sd_error d = None then d\<lparr>sd_error := Some (MakeSocketClosedError ''cdp session is stopped'')\<rparr> else d)
      in s\<lparr>sessions := (sessions s)(ref := d)\<rparr>)"

definition UnregisterSession :: "'j interference \<Rightarrow> CdpSession \<Rightarrow> 'j cdp \<Rightarrow> 'j cdp" where
  "UnregisterSession I c s =
     (let s = unregister_section c (enter I s) in close_section (cs_ref c) (enter I s))"

definition wait_section ::
    "nat \<Rightarrow> string \<Rightarrow> 'j cdp \<Rightarrow> (CdpError + 'j CdpEvent) outcome \<times> 'j cdp" where
  "wait_section ref timeout_message s =
     (let d = sessions s ref in
      if sd_events d = [] \<and> sd_error d = None \<and> \<not> sd_stopped d
      then (Returns (Inl (MakeTimeoutError timeout_message)), s)
      else case sd_error d of
        Some err \<Rightarrow> (Returns (Inl err), s)
      | None \<Rightarrow>
          if sd_stopped d then (Returns (Inl (MakeSocketClosedError ''cdp session is stopped'')), s)
          else case sd_events d of
            [] \<Rightarrow> (Aborts ''cdp session woke without queued event'', s)
          | event # events \<Rightarrow>
              (Returns (Inr event), s\<lparr>sessions := (sessions s)(ref := d\<lparr>sd_events := events\<rparr>)\<rparr>))"

definition WaitForSessionEvent ::
    "'j interference \<Rightarrow> nat \<Rightarrow> string \<Rightarrow> 'j cdp \<Rightarrow> (CdpError + 'j CdpEvent) outcome \<times> 'j cdp" where
  "WaitForSessionEvent I ref timeout_message s = wait_section ref timeout_message (enter I s)"

definition drain_section :: "nat \<Rightarrow> 'j cdp \<Rightarrow> 'j CdpEvent list \<times> 'j cdp" where
  "drain_section ref s =
     (sd_events (sessions s ref), s\<lparr>sessions := (sessions s)(ref := (sessions s ref)\<lparr>sd_events := []\<rparr>)\<rparr>)"

definition DrainSessionEvents :: "'j interference \<Rightarrow> nat \<Rightarrow> 'j cdp \<Rightarrow> 'j CdpEvent list \<times> 'j cdp" where
  "DrainSessionEvents I ref s = drain_section ref (enter I s)"

section \<open>The reader\<close>

definition GetErrorMessage ::
    "('u, 'z) vendor_scheme \<Rightarrow> 'j cdp_env \<Rightarrow> 'j \<Rightarrow> (CdpError + string) outcome" where
  "GetErrorMessage V E err =
     Invariant (json_is_object E err) ''cdp error payload must be object''
       (case as_error_message E err of
          None \<Rightarrow> Aborts ''cdp error payload does not match dto::CdpError''
        | Some message \<Rightarrow>
            Returns (case FromBytes V message of Inl _ \<Rightarrow> Inl (plain_error kProtocol) | Inr t \<Rightarrow> Inr t))"

text \<open>\<open>value["error"]\<close> and its message.\<close>

definition error_text ::
    "('u, 'z) vendor_scheme \<Rightarrow> 'j cdp_env \<Rightarrow> 'j \<Rightarrow> (CdpError + string option) outcome" where
  "error_text V E v =
     and_then (json_member E v ''error'') (\<lambda>err.
       case err of
         None \<Rightarrow> Returns (Inr None)
       | Some e \<Rightarrow> and_then (GetErrorMessage V E e) (\<lambda>r. Returns (TRY r (\<lambda>t. Inr (Some t)))))"

definition protocol_error :: "string \<Rightarrow> CdpError" where
  "protocol_error detail = \<lparr>cdp_code = kProtocol, cdp_detail = Some detail\<rparr>"

definition winding_down :: "SharedState \<Rightarrow> bool" where
  "winding_down st \<longleftrightarrow> stopping st \<or> client_stopped st \<or> fatal_error st \<noteq> None"

text \<open>
  The critical section of \<open>HandleMessage\<close> for an answer: it leaves with a result, or with the waiter to
  hand the answer to.
\<close>

definition respond_section ::
    "('u, 'z) vendor_scheme \<Rightarrow> 'j cdp_env \<Rightarrow> nat \<Rightarrow> int \<Rightarrow> 'j \<Rightarrow> 'j cdp \<Rightarrow>
     (CdpError + (nat \<times> 'j reply \<times> CdpPendingRequest \<times> string option) option) outcome \<times> 'j cdp" where
  "respond_section V E me rid v s =
     (let st = shared s in
      case tracker_Find rid (pending_requests st) of
        None \<Rightarrow>
          if winding_down st then (Returns (Inr None), s)
          else (Returns (Inl (protocol_error (''cdp response for unknown request id '' @ int_to_string rid))), s)
      | Some request \<Rightarrow>
          (case error_text V E v of
             Aborts why \<Rightarrow> (Aborts why, s)
           | Throws why \<Rightarrow> (Throws why, s)
           | Returns (Inl err) \<Rightarrow> (Returns (Inl err), s)
           | Returns (Inr error_message) \<Rightarrow>
               let gone = st\<lparr>pending_requests := erase rid (pending_requests st),
                     pending_waiters := erase rid (pending_waiters st)\<rparr> in
               if pr_ignore_response request
               then (Returns (Inr None), TraceResponse E rid (Some request) error_message (s\<lparr>shared := gone\<rparr>))
               else case map_of (pending_waiters st) rid of
                 None \<Rightarrow>
                   if winding_down st then (Returns (Inr None), s)
                   else (Returns (Inl (protocol_error (''missing cdp waiter for request id '' @ int_to_string rid))), s)
               | Some ref \<Rightarrow>
                   (case (case error_message of
                        None \<Rightarrow> and_then (json_member E v ''result'') (\<lambda>result. Returns (Inr result))
                      | Some t \<Rightarrow> Returns (Inl \<lparr>cdp_code = kCommandFailed, cdp_detail = Some t\<rparr>)) of
                      Aborts why \<Rightarrow> (Aborts why, s)
                    | Throws why \<Rightarrow> (Throws why, TraceResponse E rid (Some request) error_message (s\<lparr>shared := gone\<rparr>))
                    | Returns reply \<Rightarrow>
                        (Returns (Inr (Some (ref, reply, request, error_message))),
                         s\<lparr>shared := gone, completing := completing s @ [(me, ref, reply)]\<rparr>))))"

definition ExtractRoutingSessionId ::
    "('u, 'z) vendor_scheme \<Rightarrow> 'j cdp_env \<Rightarrow> 'j CdpEventMessage \<Rightarrow> string option outcome" where
  "ExtractRoutingSessionId V E em =
     (case em_session_id em of
        Some b \<Rightarrow> and_then (deref_text V b) (\<lambda>t. Returns (Some t))
      | None \<Rightarrow>
          (case em_params em of
             None \<Rightarrow> Returns None
           | Some p \<Rightarrow>
               (case params_extra E p ''sessionId'' of
                  None \<Rightarrow> Returns None
                | Some v \<Rightarrow> and_then (json_string E v) (\<lambda>b.
                    case FromBytes V b of Inl _ \<Rightarrow> Returns None | Inr t \<Rightarrow> Returns (Some t)))))"

definition ExtractRoutingTargetId ::
    "('u, 'z) vendor_scheme \<Rightarrow> 'j cdp_env \<Rightarrow> 'j CdpEventMessage \<Rightarrow> string option outcome" where
  "ExtractRoutingTargetId V E em =
     (case em_params em of
        None \<Rightarrow> Returns None
      | Some p \<Rightarrow>
          (case params_extra E p ''targetId'' of
             None \<Rightarrow> Returns None
           | Some v \<Rightarrow> and_then (json_string E v) (\<lambda>b.
               case FromBytes V b of Inl _ \<Rightarrow> Returns None | Inr t \<Rightarrow> Returns (Some t))))"

definition route_event :: "SharedState \<Rightarrow> string option \<Rightarrow> string option \<Rightarrow> nat option" where
  "route_event st session_id target_id =
     (case (case session_id of None \<Rightarrow> None | Some i \<Rightarrow> map_of (sessions_by_id st) i) of
        Some ref \<Rightarrow> Some ref
      | None \<Rightarrow> (case target_id of None \<Rightarrow> None | Some i \<Rightarrow> map_of (sessions_by_target_id st) i))"

definition deliver_section :: "nat \<Rightarrow> 'j CdpEvent \<Rightarrow> 'j cdp \<Rightarrow> 'j cdp" where
  "deliver_section ref event s =
     (let d = sessions s ref in
      if sd_stopped d \<or> sd_error d \<noteq> None then s
      else s\<lparr>sessions := (sessions s)(ref := d\<lparr>sd_events := sd_events d @ [event]\<rparr>)\<rparr>)"

definition HandleEvent ::
    "('u, 'z) vendor_scheme \<Rightarrow> 'j cdp_env \<Rightarrow> 'j interference \<Rightarrow> 'j \<Rightarrow> 'j cdp \<Rightarrow> (CdpError + unit) outcome \<times> 'j cdp" where
  "HandleEvent V E I v s =
     (case as_event_message E v of
        None \<Rightarrow> (Returns (Inl (plain_error kProtocol)), s)
      | Some em \<Rightarrow>
          (case OptionalString V (em_session_id em) of
             Inl _ \<Rightarrow> (Returns (Inl (protocol_error ''cdp event contained invalid session id text'')), s)
           | Inr session_id \<Rightarrow>
               (case FromBytes V (em_method em) of
                  Inl _ \<Rightarrow> (Returns (Inl (protocol_error ''cdp event contained invalid method text'')), s)
                | Inr m \<Rightarrow>
                    next_do (ExtractRoutingSessionId V E em, s) (\<lambda>routing_session_id s.
                    next_do (ExtractRoutingTargetId V E em, s) (\<lambda>routing_target_id s.
                    let s = TraceEvent E m session_id s;
                        event = \<lparr>ev_method = m, ev_params = em_params em, ev_session_id = session_id\<rparr>;
                        s = enter I s
                    in case route_event (shared s) routing_session_id routing_target_id of
                         None \<Rightarrow> (Returns (Inr ()), s)
                       | Some ref \<Rightarrow> (Returns (Inr ()), deliver_section ref event (enter I s)))))))"

definition HandleMessage ::
    "('u, 'z) vendor_scheme \<Rightarrow> 'j cdp_env \<Rightarrow> nat \<Rightarrow> 'j interference \<Rightarrow> string \<Rightarrow> 'j cdp \<Rightarrow> (CdpError + unit) outcome \<times> 'j cdp" where
  "HandleMessage V E me I payload s =
     (case FromBytes V payload of
        Inl _ \<Rightarrow> (Returns (Inl (plain_error kJsonParseFailed)), s)
      | Inr payload_text \<Rightarrow>
          (case json_parse E payload_text of
             None \<Rightarrow> (Returns (Inl (plain_error kJsonParseFailed)), s)
           | Some v \<Rightarrow>
               next_do (json_member E v ''id'', s) (\<lambda>id_value s.
               case id_value of
                 Some i \<Rightarrow>
                   next_do (json_int64 E i, s) (\<lambda>rid s.
                   next_do (respond_section V E me rid v (enter I s)) (\<lambda>r s.
                   case r of
                     Inl err \<Rightarrow> (Returns (Inl err), s)
                   | Inr None \<Rightarrow> (Returns (Inr ()), s)
                   | Inr (Some (ref, reply, request, error_message)) \<Rightarrow>
                       let s = TraceResponse E rid (Some request) error_message s
                       in (Returns (Inr ()), complete_section me ref reply (enter I s))))
               | None \<Rightarrow>
                   next_do (json_member E v ''method'', s) (\<lambda>method_value s.
                   if method_value = None
                   then (Returns (Inl (protocol_error ''cdp message missing id and method'')), s)
                   else HandleEvent V E I v s))))"

text \<open>
  What \<open>Recv\<close> gives: a message, a close status, or an exception in a task that was cancelled or not.
  A reader without further input waits.
\<close>

datatype recv_result = RecvText string | RecvClosed int | RecvFailed string bool

definition reader_ends :: "'j cdp \<Rightarrow> 'j cdp" where
  "reader_ends s = s\<lparr>reader_alive := False\<rparr>"

fun ReaderLoop ::
    "('u, 'z) vendor_scheme \<Rightarrow> 'j cdp_env \<Rightarrow> nat \<Rightarrow> 'j interference \<Rightarrow> recv_result list \<Rightarrow> 'j cdp \<Rightarrow> unit outcome \<times> 'j cdp" where
  "ReaderLoop V E me I [] s = (Returns (), s)"
| "ReaderLoop V E me I (RecvFailed what cancelled # rs) s =
     (if cancelled
      then (Returns (), reader_ends (SetFatalError me I (MakeSocketClosedError ''websocket close requested'') s))
      else next_do (deref_text V what, s) (\<lambda>t s.
        let s = TraceTransportError E ''recv'' t s
        in (Returns (), reader_ends (SetFatalError me I (plain_error kTransport) s))))"
| "ReaderLoop V E me I (RecvClosed close_code # rs) s =
     (let s = TraceStop E ''in'' close_code s
      in (Returns (), reader_ends (SetFatalError me I
           (MakeSocketClosedError (''websocket close status '' @ int_to_string close_code)) s)))"
| "ReaderLoop V E me I (RecvText payload # rs) s =
     (case HandleMessage V E me I payload s of
        (Returns (Inr _), s) \<Rightarrow> ReaderLoop V E me I rs s
      | (Returns (Inl err), s) \<Rightarrow> (Returns (), reader_ends (SetFatalError me I err s))
      | (Throws why, s) \<Rightarrow> (Throws why, reader_ends s)
      | (Aborts why, s) \<Rightarrow> (Aborts why, s))"

section \<open>Stopping\<close>

text \<open>
  Cancelling the reader makes its \<open>Recv\<close> fail, so a reader that is still alive sets the fatal error
  before it ends; \<open>StopReaderTask\<close> waits for that.
\<close>

definition StopReaderTask :: "nat \<Rightarrow> 'j interference \<Rightarrow> 'j cdp \<Rightarrow> 'j cdp" where
  "StopReaderTask me I s =
     (if \<not> reader_valid s then s
      else let s = enter I s;
               s = (if reader_alive s
                    then reader_ends (SetFatalError me I (MakeSocketClosedError ''websocket close requested'') s)
                    else s)
           in s\<lparr>reader_valid := False\<rparr>)"

definition stop_section :: "'j cdp \<Rightarrow> bool \<times> 'j cdp" where
  "stop_section s =
     (let st = shared s in
      if client_stopped st \<or> fatal_error st \<noteq> None
      then (True, s\<lparr>shared := st\<lparr>stopping := True, client_stopped := True\<rparr>\<rparr>)
      else (False, s\<lparr>shared := st\<lparr>stopping := True\<rparr>\<rparr>))"

definition Stop_client ::
    "('u, 'z) vendor_scheme \<Rightarrow> 'j cdp_env \<Rightarrow> nat \<Rightarrow> 'j interference \<Rightarrow> 'j cdp \<Rightarrow> (CdpError + unit) outcome \<times> 'j cdp" where
  "Stop_client V E me I s =
     (let (close_already_resolved, s) = stop_section (enter I s) in
      if close_already_resolved then (Returns (Inr ()), (StopReaderTask me I s)\<lparr>connected := False\<rparr>)
      else let s = TraceStop E ''out'' 1000 s; s = enter I s in
        case (if connected s then close_socket E (ticks s) else IoOk ()) of
          IoOk _ \<Rightarrow> (Returns (Inr ()), (StopReaderTask me I s)\<lparr>connected := False\<rparr>)
        | IoFailed what cancelled \<Rightarrow>
            if cancelled then (Throws what, s)
            else next_do (deref_text V what, s) (\<lambda>t s.
              let s = TraceTransportError E ''close'' t s;
                  err = plain_error kTransport;
                  s = SetFatalError me I err s;
                  s = StopReaderTask me I s
              in (Returns (Inl err), s\<lparr>connected := False\<rparr>)))"

definition StopQuietly :: "nat \<Rightarrow> 'j interference \<Rightarrow> 'j cdp \<Rightarrow> 'j cdp" where
  "StopQuietly me I s =
     (let s = enter I s;
          s = s\<lparr>shared := (shared s)\<lparr>stopping := True, client_stopped := True\<rparr>\<rparr>
      in (StopReaderTask me I s)\<lparr>connected := False\<rparr>)"

section \<open>Typed commands\<close>

text \<open>
  \<open>json::As<T>\<close> reads a result as a value of the type wanted and \<open>json::ValueOf\<close> writes parameters;
  both are arguments, \<open>None\<close> where they throw.
\<close>

definition as_result_or_protocol ::
    "('j option \<Rightarrow> 't option) \<Rightarrow> 'j reply outcome \<times> 'j cdp \<Rightarrow> (CdpError + 't) outcome \<times> 'j cdp" where
  "as_result_or_protocol as_t r = next_do r (\<lambda>x s.
     (Returns (case x of
        Inl err \<Rightarrow> Inl err
      | Inr v \<Rightarrow> (case as_t v of None \<Rightarrow> Inl (plain_error kProtocol) | Some t \<Rightarrow> Inr t)), s))"

definition Send ::
    "('u, 'z) vendor_scheme \<Rightarrow> 'j cdp_env \<Rightarrow> nat \<Rightarrow> 'j interference \<Rightarrow> ('j option \<Rightarrow> 't option) \<Rightarrow>
     string \<Rightarrow> string option \<Rightarrow> 'j cdp \<Rightarrow> (CdpError + 't) outcome \<times> 'j cdp" where
  "Send V E me I as_t m session_id s = as_result_or_protocol as_t (SendRaw V E me I m None session_id s)"

definition Send_params ::
    "('u, 'z) vendor_scheme \<Rightarrow> 'j cdp_env \<Rightarrow> nat \<Rightarrow> 'j interference \<Rightarrow> ('j option \<Rightarrow> 't option) \<Rightarrow>
     ('p \<Rightarrow> 'j option) \<Rightarrow> string \<Rightarrow> 'p \<Rightarrow> string option \<Rightarrow> 'j cdp \<Rightarrow> (CdpError + 't) outcome \<times> 'j cdp" where
  "Send_params V E me I as_t value_of m params session_id s =
     (case value_of params of
        None \<Rightarrow> (Returns (Inl (plain_error kProtocol)), s)
      | Some params_value \<Rightarrow> as_result_or_protocol as_t (SendRaw V E me I m (Some params_value) session_id s))"

definition Session_Send ::
    "('u, 'z) vendor_scheme \<Rightarrow> 'j cdp_env \<Rightarrow> nat \<Rightarrow> 'j interference \<Rightarrow> ('j option \<Rightarrow> 't option) \<Rightarrow>
     CdpSession \<Rightarrow> string \<Rightarrow> 'j cdp \<Rightarrow> (CdpError + 't) outcome \<times> 'j cdp" where
  "Session_Send V E me I as_t c m s = Send V E me I as_t m (Some (cs_session_id c)) s"

definition Session_Send_params ::
    "('u, 'z) vendor_scheme \<Rightarrow> 'j cdp_env \<Rightarrow> nat \<Rightarrow> 'j interference \<Rightarrow> ('j option \<Rightarrow> 't option) \<Rightarrow>
     ('p \<Rightarrow> 'j option) \<Rightarrow> CdpSession \<Rightarrow> string \<Rightarrow> 'p \<Rightarrow> 'j cdp \<Rightarrow> (CdpError + 't) outcome \<times> 'j cdp" where
  "Session_Send_params V E me I as_t value_of c m params s =
     Send_params V E me I as_t value_of m params (Some (cs_session_id c)) s"

definition SendVoid ::
    "('u, 'z) vendor_scheme \<Rightarrow> 'j cdp_env \<Rightarrow> nat \<Rightarrow> 'j interference \<Rightarrow> ('j option \<Rightarrow> unit option) \<Rightarrow>
     ('p \<Rightarrow> 'j option) \<Rightarrow> CdpSession \<Rightarrow> string \<Rightarrow> 'p \<Rightarrow> 'j cdp \<Rightarrow> (CdpError + unit) outcome \<times> 'j cdp" where
  "SendVoid V E me I as_empty value_of c m params s = Session_Send_params V E me I as_empty value_of c m params s"

definition WaitEvent ::
    "'j interference \<Rightarrow> CdpSession \<Rightarrow> string \<Rightarrow> 'j cdp \<Rightarrow> (CdpError + 'j CdpEvent) outcome \<times> 'j cdp" where
  "WaitEvent I c timeout_message s = WaitForSessionEvent I (cs_ref c) timeout_message s"

definition DrainAvailableEvents :: "'j interference \<Rightarrow> CdpSession \<Rightarrow> 'j cdp \<Rightarrow> 'j CdpEvent list \<times> 'j cdp" where
  "DrainAvailableEvents I c s = DrainSessionEvents I (cs_ref c) s"

end
