(* ===== verification/Cdp_Correct.thy ===== *)
theory Cdp_Correct
  imports Cdp_Client
begin

text \<open>
  The tasks of the debugging protocol client as a step relation over their critical sections, the
  invariant of its reachable states, and what it means for commands and sessions.
\<close>

section \<open>Steps\<close>

datatype 'j label =
  Registered int nat
| Expired int
| Answered nat int 'j nat "'j reply"
| Dismissed int
| Completed nat nat "'j reply"
| Failed nat CdpError
| Ended nat nat
| Opened nat bool
| Unregistered nat
| Closed nat
| Delivered nat "'j CdpEvent"
| Took nat "'j CdpEvent"
| Drained nat "'j CdpEvent list"
| Stopping
| Quiet

text \<open>The task a step belongs to, for the steps that use its local variables.\<close>

fun owner :: "'j label \<Rightarrow> nat option" where
  "owner (Answered t _ _ _ _) = Some t"
| "owner (Completed t _ _) = Some t"
| "owner (Failed t _) = Some t"
| "owner (Ended t _) = Some t"
| "owner _ = None"

definition same_core :: "'j cdp \<Rightarrow> 'j cdp \<Rightarrow> bool" where
  "same_core s s' \<longleftrightarrow> shared s' = shared s \<and> waiters s' = waiters s \<and> sessions s' = sessions s \<and>
     next_waiter s' = next_waiter s \<and> next_session s' = next_session s \<and> completing s' = completing s \<and> ending s' = ending s"

inductive cdp_step :: "('u, 'z) vendor_scheme \<Rightarrow> 'j cdp_env \<Rightarrow> 'j label \<Rightarrow> 'j cdp \<Rightarrow> 'j cdp \<Rightarrow> bool"
  for V E where
  register: "register_section m sid s = (Returns (Inr (rid, ref)), s') \<Longrightarrow> cdp_step V E (Registered rid ref) s s'"
| expire: "expire_section rid s = (True, s') \<Longrightarrow> cdp_step V E (Expired rid) s s'"
| answer: "json_member E v ''id'' = Returns (Some i) \<Longrightarrow> json_int64 E i = Returns rid \<Longrightarrow>
    respond_section V E t rid v s = (Returns (Inr (Some (ref, r, q, e))), s') \<Longrightarrow>
    cdp_step V E (Answered t rid v ref r) s s'"
| dismiss: "respond_section V E t rid v s = (Returns (Inr None), s') \<Longrightarrow> cdp_step V E (Dismissed rid) s s'"
| complete: "(t, ref, r) \<in> set (completing s) \<Longrightarrow> cdp_step V E (Completed t ref r) s (complete_section t ref r s)"
| fail: "fatal_error (shared s) = None \<Longrightarrow> cdp_step V E (Failed t err) s (fail_section t err s)"
| finish: "(t, ref, err) \<in> set (ending s) \<Longrightarrow> cdp_step V E (Ended t ref) s (end_section t ref err s)"
| open_session: "open_section i t s = (Inr c, s') \<Longrightarrow>
    cdp_step V E (Opened (cs_ref c) (map_of (sessions_by_id (shared s)) i = None)) s s'"
| unregister: "cdp_step V E (Unregistered (cs_ref c)) s (unregister_section c s)"
| close: "cdp_step V E (Closed ref) s (close_section ref s)"
| deliver: "ref < next_session s \<Longrightarrow> \<not> sd_stopped (sessions s ref) \<Longrightarrow> sd_error (sessions s ref) = None \<Longrightarrow>
    cdp_step V E (Delivered ref ev) s (deliver_section ref ev s)"
| take_event: "ref < next_session s \<Longrightarrow> wait_section ref msg s = (Returns (Inr ev), s') \<Longrightarrow> cdp_step V E (Took ref ev) s s'"
| drain: "ref < next_session s \<Longrightarrow> drain_section ref s = (evs, s') \<Longrightarrow> cdp_step V E (Drained ref evs) s s'"
| stop: "cdp_step V E Stopping s
    (s\<lparr>shared := (shared s)\<lparr>stopping := True, client_stopped := client_stopped (shared s) \<or> b\<rparr>\<rparr>)"
| quiet: "same_core s s' \<Longrightarrow> cdp_step V E Quiet s s'"

inductive cdp_run :: "('u, 'z) vendor_scheme \<Rightarrow> 'j cdp_env \<Rightarrow> 'j label list \<Rightarrow> 'j cdp \<Rightarrow> 'j cdp \<Rightarrow> bool"
  for V E where
  nil: "cdp_run V E [] s s"
| snoc: "cdp_run V E ls s s1 \<Longrightarrow> cdp_step V E l s1 s2 \<Longrightarrow> cdp_run V E (ls @ [l]) s s2"

inductive_cases cdp_stepE: "cdp_step V E l s s'"

lemma cdp_run_append: "cdp_run V E ks s1 s2 \<Longrightarrow> cdp_run V E ls s s1 \<Longrightarrow> cdp_run V E (ls @ ks) s s2"
proof (induction rule: cdp_run.induct)
  case (snoc ks s1 s1' l s2)
  then show ?case using cdp_run.snoc [of V E "ls @ ks"] by simp
qed simp

lemma cdp_run_single: "cdp_step V E l s s' \<Longrightarrow> cdp_run V E [l] s s'"
  using cdp_run.snoc [OF cdp_run.nil] by fastforce

definition cdp_initial :: "'j cdp \<Rightarrow> bool" where
  "cdp_initial s \<longleftrightarrow> shared s = \<lparr>pending_waiters = [], sessions_by_id = [], sessions_by_target_id = [],
      pending_requests = [], next_request_id = 1, fatal_error = None, stopping = False, client_stopped = False\<rparr> \<and>
     next_waiter s = 0 \<and> next_session s = 0 \<and> completing s = [] \<and> ending s = []"

text \<open>The message \<open>v\<close> carries the number \<open>rid\<close> and the reply \<open>r\<close>.\<close>

definition message_answers :: "('u, 'z) vendor_scheme \<Rightarrow> 'j cdp_env \<Rightarrow> int \<Rightarrow> 'j \<Rightarrow> 'j reply \<Rightarrow> bool" where
  "message_answers V E rid v r \<longleftrightarrow>
     (\<exists>i. json_member E v ''id'' = Returns (Some i) \<and> json_int64 E i = Returns rid) \<and>
     (case r of
        Inr result \<Rightarrow> error_text V E v = Returns (Inr None) \<and> json_member E v ''result'' = Returns result
      | Inl err \<Rightarrow> \<exists>t. error_text V E v = Returns (Inr (Some t)) \<and> err = \<lparr>cdp_code = kCommandFailed, cdp_detail = Some t\<rparr>)"

section \<open>The invariant\<close>

definition fresh_waiter :: "'j waiter \<Rightarrow> bool" where
  "fresh_waiter w \<longleftrightarrow> \<not> w_done w \<and> w_result w = None \<and> w_error w = None"

definition answered_waiter :: "'j waiter \<Rightarrow> bool" where
  "answered_waiter w \<longleftrightarrow> w_done w \<and> (w_result w \<noteq> None \<or> w_error w \<noteq> None)"

definition expected_answers :: "SharedState \<Rightarrow> int set" where
  "expected_answers st = {rid. \<exists>q. map_of (pending_requests st) rid = Some q \<and> \<not> pr_ignore_response q}"

definition in_flight :: "'j cdp \<Rightarrow> nat list" where
  "in_flight s = map snd (pending_waiters (shared s)) @ map (\<lambda>x. fst (snd x)) (completing s)"

definition cdp_ok :: "'j cdp \<Rightarrow> bool" where
  "cdp_ok s \<longleftrightarrow>
     distinct (map fst (pending_requests (shared s))) \<and> distinct (map fst (pending_waiters (shared s))) \<and>
     fst ` set (pending_waiters (shared s)) = expected_answers (shared s) \<and>
     (\<forall>rid\<in>fst ` set (pending_requests (shared s)). rid < next_request_id (shared s)) \<and>
     distinct (in_flight s) \<and>
     (\<forall>ref\<in>set (in_flight s). ref < next_waiter s \<and> fresh_waiter (waiters s ref)) \<and>
     (\<forall>ref<next_waiter s. w_done (waiters s ref) \<longrightarrow> answered_waiter (waiters s ref)) \<and>
     (fatal_error (shared s) \<noteq> None \<longrightarrow> client_stopped (shared s) \<and> pending_waiters (shared s) = [] \<and>
        pending_requests (shared s) = [] \<and> sessions_by_id (shared s) = [] \<and>
        sessions_by_target_id (shared s) = [])"

lemma erase_filter: "erase k m = filter (\<lambda>x. fst x \<noteq> k) m"
  by (induction k m rule: erase.induct) auto

lemma map_of_erase: "map_of (erase k m) x = (if x = k then None else map_of m x)"
  by (induction k m rule: erase.induct) auto

lemma set_ignore_fst: "map fst (set_ignore rid m) = map fst m"
  by (induction rid m rule: set_ignore.induct) auto

lemma map_of_set_ignore:
  "map_of (set_ignore rid m) x =
     (if x = rid then map_option (\<lambda>q. q\<lparr>pr_ignore_response := True\<rparr>) (map_of m x) else map_of m x)"
  by (induction rid m rule: set_ignore.induct) auto

lemma map_of_None_fst: "map_of m k = None \<longleftrightarrow> k \<notin> fst ` set m"
  by (simp add: map_of_eq_None_iff)

lemma register_sectionD:
  assumes "register_section m sid s = (Returns (Inr (rid, ref)), s')"
  shows "rid = next_request_id (shared s)" "ref = next_waiter s" "fatal_error (shared s) = None"
    "map_of (pending_requests (shared s)) rid = None"
    "s' = s\<lparr>shared := (shared s)\<lparr>next_request_id := rid + 1,
        pending_requests := pending_requests (shared s) @
          [(rid, \<lparr>pr_method = m, pr_session_id = sid, pr_ignore_response = False\<rparr>)],
        pending_waiters := map_emplace rid ref (pending_waiters (shared s))\<rparr>,
      waiters := (waiters s)(ref := \<lparr>w_result = None, w_error = None, w_done = False\<rparr>),
      next_waiter := Suc ref\<rparr>"
  using assms
  by (auto simp: register_section_def Let_def InsertPending_def tracker_Insert_def Invariant_def map_emplace_def
      split: option.splits if_splits outcome.splits)

lemma respond_sectionD:
  assumes "respond_section V E t rid v s = (Returns (Inr (Some (ref, r, q, e))), s')"
  shows "map_of (pending_requests (shared s)) rid = Some q" "\<not> pr_ignore_response q"
    "map_of (pending_waiters (shared s)) rid = Some ref"
    "s' = s\<lparr>shared := (shared s)\<lparr>pending_requests := erase rid (pending_requests (shared s)),
        pending_waiters := erase rid (pending_waiters (shared s))\<rparr>,
      completing := completing s @ [(t, ref, r)]\<rparr>"
  using assms
  by (auto simp: respond_section_def Let_def tracker_Find_def split: option.splits if_splits outcome.splits sum.splits)

lemma respond_section_reply:
  assumes "respond_section V E t rid v s = (Returns (Inr (Some (ref, r, q, e))), s')"
    and "json_member E v ''id'' = Returns (Some i)" and "json_int64 E i = Returns rid"
  shows "message_answers V E rid v r"
  using assms
  by (auto simp: respond_section_def Let_def message_answers_def and_then_Returns_iff
      split: option.splits if_splits outcome.splits sum.splits)

lemma same_core_refl [simp]: "same_core s s"
  by (simp add: same_core_def)

lemma trace_core: "same_core s (WriteTraceLineBestEffort E entry s)"
  by (simp add: WriteTraceLineBestEffort_def WriteTraceLine_def same_core_def)

lemma trace_cores:
  "same_core s (TraceCommand E rid m sid s)" "same_core s (TraceResponse E rid q e s)"
  "same_core s (TraceEvent E m sid s)" "same_core s (TraceStop E d c s)"
  "same_core s (TraceTransportError E op err s)"
  by (simp_all add: TraceCommand_def TraceResponse_def TraceEvent_def TraceStop_def TraceTransportError_def trace_core)

lemma respond_dismissD:
  assumes "respond_section V E t rid v s = (Returns (Inr None), s')"
  shows "same_core s s' \<or> (\<exists>q. map_of (pending_requests (shared s)) rid = Some q \<and> pr_ignore_response q \<and>
    same_core (s\<lparr>shared := (shared s)\<lparr>pending_requests := erase rid (pending_requests (shared s)),
        pending_waiters := erase rid (pending_waiters (shared s))\<rparr>\<rparr>) s')"
  using assms
  by (auto simp: respond_section_def Let_def tracker_Find_def intro: trace_cores
      split: option.splits if_splits outcome.splits sum.splits)

lemma expire_sectionD:
  assumes "expire_section rid s = (True, s')"
  shows "map_of (pending_requests (shared s)) rid \<noteq> None"
    "s' = s\<lparr>shared := (shared s)\<lparr>pending_requests := set_ignore rid (pending_requests (shared s)),
        pending_waiters := erase rid (pending_waiters (shared s))\<rparr>\<rparr>"
  using assms by (auto simp: expire_section_def Let_def tracker_Find_def split: if_splits)

lemma cdp_ok_core: "same_core s s' \<Longrightarrow> cdp_ok s \<Longrightarrow> cdp_ok s'"
  by (simp add: cdp_ok_def in_flight_def same_core_def)

lemma expected_in: "rid \<in> expected_answers st \<Longrightarrow> rid \<in> fst ` set (pending_requests st)"
  by (force simp: expected_answers_def dest: map_of_SomeD)

lemma cdp_okD:
  assumes "cdp_ok s"
  shows "distinct (map fst (pending_requests (shared s)))" "distinct (map fst (pending_waiters (shared s)))"
    "fst ` set (pending_waiters (shared s)) = expected_answers (shared s)"
    "\<And>rid. rid \<in> fst ` set (pending_requests (shared s)) \<Longrightarrow> rid < next_request_id (shared s)"
    "distinct (in_flight s)"
    "\<And>ref. ref \<in> set (in_flight s) \<Longrightarrow> ref < next_waiter s"
    "\<And>ref. ref \<in> set (in_flight s) \<Longrightarrow> fresh_waiter (waiters s ref)"
    "\<And>ref. ref < next_waiter s \<Longrightarrow> w_done (waiters s ref) \<Longrightarrow> answered_waiter (waiters s ref)"
    "fatal_error (shared s) \<noteq> None \<Longrightarrow> client_stopped (shared s) \<and> pending_waiters (shared s) = [] \<and>
        pending_requests (shared s) = [] \<and> sessions_by_id (shared s) = [] \<and> sessions_by_target_id (shared s) = []"
  using assms unfolding cdp_ok_def by blast+

lemma cdp_okI:
  assumes "distinct (map fst (pending_requests (shared s)))" "distinct (map fst (pending_waiters (shared s)))"
    "fst ` set (pending_waiters (shared s)) = expected_answers (shared s)"
    "\<And>rid. rid \<in> fst ` set (pending_requests (shared s)) \<Longrightarrow> rid < next_request_id (shared s)"
    "distinct (in_flight s)"
    "\<And>ref. ref \<in> set (in_flight s) \<Longrightarrow> ref < next_waiter s"
    "\<And>ref. ref \<in> set (in_flight s) \<Longrightarrow> fresh_waiter (waiters s ref)"
    "\<And>ref. ref < next_waiter s \<Longrightarrow> w_done (waiters s ref) \<Longrightarrow> answered_waiter (waiters s ref)"
    "fatal_error (shared s) \<noteq> None \<Longrightarrow> client_stopped (shared s) \<and> pending_waiters (shared s) = [] \<and>
        pending_requests (shared s) = [] \<and> sessions_by_id (shared s) = [] \<and> sessions_by_target_id (shared s) = []"
  shows "cdp_ok s"
  unfolding cdp_ok_def using assms by (intro conjI ballI allI impI) auto

lemma register_ok:
  assumes "cdp_ok s" and "register_section m sid s = (Returns (Inr (rid, ref)), s')"
  shows "cdp_ok s'"
proof -
  note D = register_sectionD [OF assms(2)] and ok = cdp_okD [OF assms(1)]
  let ?st = "shared s"
  have new: "rid \<notin> fst ` set (pending_requests ?st)" using D(4) by (simp add: map_of_None_fst)
  then have neww: "rid \<notin> fst ` set (pending_waiters ?st)"
    using ok(3) expected_in by metis
  then have e: "map_emplace rid ref (pending_waiters ?st) = pending_waiters ?st @ [(rid, ref)]"
    by (simp add: map_emplace_def map_of_None_fst)
  have exp: "expected_answers (shared s') = insert rid (expected_answers ?st)"
    using D(4) by (auto simp: D(5) expected_answers_def map_add_def split: option.splits)
  have fl: "set (in_flight s') = insert ref (set (in_flight s))"
    by (auto simp: in_flight_def D(5) e)
  have nin: "ref \<notin> set (in_flight s)" using ok(6) D(2) by fastforce
  have nw: "next_waiter s' = Suc ref" by (simp add: D(5))
  have w: "waiters s' = (waiters s)(ref := \<lparr>w_result = None, w_error = None, w_done = False\<rparr>)" by (simp add: D(5))
  show ?thesis
  proof (rule cdp_okI)
    show "distinct (map fst (pending_requests (shared s')))" using ok(1) new by (simp add: D(5))
    show "distinct (map fst (pending_waiters (shared s')))" using ok(2) neww by (simp add: D(5) e)
    show "fst ` set (pending_waiters (shared s')) = expected_answers (shared s')"
      unfolding exp ok(3) [symmetric] by (simp add: D(5) e)
    show "x < next_request_id (shared s')" if "x \<in> fst ` set (pending_requests (shared s'))" for x
    proof -
      have "x = rid \<or> x \<in> fst ` set (pending_requests ?st)" using that by (auto simp: D(5))
      then have "x \<le> rid" using ok(4) [of x] D(1) by linarith
      then show ?thesis by (simp add: D(5))
    qed
    show "distinct (in_flight s')" using ok(5) nin by (simp add: in_flight_def D(5) e)
    show "x < next_waiter s'" if "x \<in> set (in_flight s')" for x
      using that ok(6) [of x] D(2) by (auto simp: fl nw)
    show "fresh_waiter (waiters s' x)" if "x \<in> set (in_flight s')" for x
      using that ok(7) [of x] by (auto simp: fl w fresh_waiter_def)
    show "answered_waiter (waiters s' x)" if "x < next_waiter s'" "w_done (waiters s' x)" for x
      using that ok(8) [of x] D(2) by (auto simp: nw w less_Suc_eq split: if_splits)
  qed (use D(3) in \<open>simp add: D(5)\<close>)
qed

lemma shrink_ok:
  assumes "cdp_ok s" and "waiters s' = waiters s" and "next_waiter s' = next_waiter s"
    and "next_request_id (shared s') = next_request_id (shared s)" and "fatal_error (shared s') = None"
    and "distinct (map fst (pending_requests (shared s')))" and "distinct (map fst (pending_waiters (shared s')))"
    and "fst ` set (pending_requests (shared s')) \<subseteq> fst ` set (pending_requests (shared s))"
    and "fst ` set (pending_waiters (shared s')) = expected_answers (shared s')"
    and "distinct (in_flight s')" and "set (in_flight s') \<subseteq> set (in_flight s)"
  shows "cdp_ok s'"
proof -
  note ok = cdp_okD [OF assms(1)]
  show ?thesis
  proof (rule cdp_okI)
    show "x < next_request_id (shared s')" if "x \<in> fst ` set (pending_requests (shared s'))" for x
      using ok(4) subsetD [OF assms(8) that] by (simp add: assms(4))
    show "x < next_waiter s'" if "x \<in> set (in_flight s')" for x
      using ok(6) subsetD [OF assms(11) that] by (simp add: assms(3))
    show "fresh_waiter (waiters s' x)" if "x \<in> set (in_flight s')" for x
      using ok(7) subsetD [OF assms(11) that] by (simp add: assms(2))
    show "answered_waiter (waiters s' x)" if "x < next_waiter s'" "w_done (waiters s' x)" for x
      using ok(8) that by (simp add: assms(2,3))
  qed (use assms(5-10) in simp_all)
qed

lemma expire_ok:
  assumes "cdp_ok s" and "expire_section rid s = (True, s')"
  shows "cdp_ok s'"
proof -
  note D = expire_sectionD [OF assms(2)]
  have exp: "expected_answers (shared s') = expected_answers (shared s) - {rid}"
    by (auto simp: D(2) expected_answers_def map_of_set_ignore)
  have w: "fst ` set (pending_waiters (shared s')) = fst ` set (pending_waiters (shared s)) - {rid}"
    by (auto simp: D(2) erase_filter)
  have fst_eq: "fst ` set (set_ignore rid (pending_requests (shared s))) = fst ` set (pending_requests (shared s))"
    using arg_cong [OF set_ignore_fst, of set] by simp
  have sub: "set (in_flight s') \<subseteq> set (in_flight s)" by (auto simp: in_flight_def D(2) erase_filter)
  have dist: "distinct (in_flight s) \<Longrightarrow> distinct (in_flight s')"
    by (auto simp: in_flight_def D(2) erase_filter distinct_map_filter image_iff)
  have fatal: "fatal_error (shared s) = None"
    using assms(1) D(1) by (auto simp: cdp_ok_def)
  show ?thesis
  proof (rule shrink_ok [OF assms(1)])
    show "fst ` set (pending_waiters (shared s')) = expected_answers (shared s')"
      unfolding exp w using cdp_okD(3) [OF assms(1)] by simp
    show "distinct (in_flight s')" using dist cdp_okD(5) [OF assms(1)] by simp
  qed (use cdp_okD(1,2) [OF assms(1)] sub fatal in
      \<open>simp_all add: D(2) set_ignore_fst fst_eq erase_filter distinct_map_filter\<close>)
qed

lemma map_of_in: "map_of m k = Some v \<Longrightarrow> (k, v) \<in> set m"
  by (rule map_of_SomeD)

lemma erased_values:
  assumes "distinct (map fst m)" and "map_of m k = Some v" and "distinct (map snd m @ xs)"
  shows "set (map snd (erase k m)) = set (map snd m) - {v}" "distinct (map snd (erase k m) @ xs @ [v])"
proof -
  have "distinct (map snd m)" using assms(3) by simp
  then have snd_eq: "x \<in> set m \<Longrightarrow> snd x = v \<longleftrightarrow> fst x = k" for x
    using assms(1) map_of_SomeD [OF assms(2)] by (simp add: distinct_map inj_on_def) (metis fst_conv snd_conv)
  then show "set (map snd (erase k m)) = set (map snd m) - {v}"
    by (auto simp: erase_filter)
  moreover have "v \<in> set (map snd m)" using map_of_SomeD [OF assms(2)] by force
  ultimately show "distinct (map snd (erase k m) @ xs @ [v])"
    using assms(3) by (auto simp: erase_filter distinct_map_filter)
qed

lemma answer_ok:
  assumes "cdp_ok s" and "respond_section V E t rid v s = (Returns (Inr (Some (ref, r, q, e))), s')"
  shows "cdp_ok s'"
proof -
  note D = respond_sectionD [OF assms(2)]
  let ?c = "map (\<lambda>x. fst (snd x)) (completing s)"
  have d: "distinct (map fst (pending_waiters (shared s)))" "distinct (map snd (pending_waiters (shared s)) @ ?c)"
    using assms(1) by (simp_all add: cdp_ok_def in_flight_def)
  note ev = erased_values [OF d(1) D(3) d(2)]
  have fl: "in_flight s' = map snd (erase rid (pending_waiters (shared s))) @ ?c @ [ref]"
    by (simp add: in_flight_def D(4))
  have "ref \<in> set (map snd (pending_waiters (shared s)))" using map_of_SomeD [OF D(3)] by force
  then have sub: "set (in_flight s') \<subseteq> set (in_flight s)"
    unfolding fl using ev(1) by (auto simp: in_flight_def)
  have exp: "expected_answers (shared s') = expected_answers (shared s) - {rid}"
    by (auto simp: D(4) expected_answers_def map_of_erase)
  have w: "fst ` set (pending_waiters (shared s')) = fst ` set (pending_waiters (shared s)) - {rid}"
    by (auto simp: D(4) erase_filter)
  have fatal: "fatal_error (shared s) = None" using assms(1) D(1) by (auto simp: cdp_ok_def)
  have dist: "distinct (in_flight s')" using ev(2) by (simp add: fl)
  show ?thesis
  proof (rule shrink_ok [OF assms(1)])
    show "fst ` set (pending_waiters (shared s')) = expected_answers (shared s')"
      unfolding exp w using cdp_okD(3) [OF assms(1)] by simp
    show "fst ` set (pending_requests (shared s')) \<subseteq> fst ` set (pending_requests (shared s))"
      by (auto simp: D(4) erase_filter)
  qed (use cdp_okD(1,2) [OF assms(1)] dist sub fatal in \<open>simp_all add: D(4) erase_filter distinct_map_filter\<close>)
qed

lemma dismiss_ok:
  assumes "cdp_ok s" and "respond_section V E t rid v s = (Returns (Inr None), s')"
  shows "cdp_ok s'"
  using respond_dismissD [OF assms(2)]
proof
  assume "same_core s s'"
  then show ?thesis using cdp_ok_core assms(1) by blast
next
  let ?g = "s\<lparr>shared := (shared s)\<lparr>pending_requests := erase rid (pending_requests (shared s)),
        pending_waiters := erase rid (pending_waiters (shared s))\<rparr>\<rparr>"
  assume "\<exists>q. map_of (pending_requests (shared s)) rid = Some q \<and> pr_ignore_response q \<and> same_core ?g s'"
  then obtain q where q: "map_of (pending_requests (shared s)) rid = Some q" "pr_ignore_response q" "same_core ?g s'"
    by blast
  have no: "rid \<notin> fst ` set (pending_waiters (shared s))"
    unfolding cdp_okD(3) [OF assms(1)] using q(1,2) by (simp add: expected_answers_def)
  then have w: "erase rid (pending_waiters (shared s)) = pending_waiters (shared s)"
    by (auto simp: erase_filter filter_id_conv image_iff)
  have exp: "expected_answers (shared ?g) = expected_answers (shared s)"
    using q(1,2) by (auto simp: expected_answers_def map_of_erase)
  have fatal: "fatal_error (shared s) = None" using assms(1) q(1) by (auto simp: cdp_ok_def)
  note ok = cdp_okD [OF assms(1)]
  have "cdp_ok ?g"
  proof (rule cdp_okI)
    show "distinct (map fst (pending_requests (shared ?g)))" using ok(1) by (simp add: erase_filter distinct_map_filter)
    show "distinct (map fst (pending_waiters (shared ?g)))" using ok(2) by (simp add: w)
    show "fst ` set (pending_waiters (shared ?g)) = expected_answers (shared ?g)" unfolding exp using ok(3) by (simp add: w)
    show "x < next_request_id (shared ?g)" if "x \<in> fst ` set (pending_requests (shared ?g))" for x
      using that ok(4) by (auto simp: erase_filter)
  qed (use ok(5-8) fatal w in \<open>simp_all add: in_flight_def\<close>)
  then show ?thesis using q(3) cdp_ok_core by blast
qed

lemma map_remove1_distinct:
  "distinct (map f xs) \<Longrightarrow> x \<in> set xs \<Longrightarrow> map f (remove1 x xs) = remove1 (f x) (map f xs)"
  by (induction xs) (auto simp: image_iff)

lemma complete_ok:
  assumes "cdp_ok s" and "(t, ref, r) \<in> set (completing s)"
  shows "cdp_ok (complete_section t ref r s)"
proof -
  note ok = cdp_okD [OF assms(1)]
  let ?s = "complete_section t ref r s"
  let ?f = "\<lambda>x :: nat \<times> nat \<times> 'a reply. fst (snd x)"
  have d: "distinct (map ?f (completing s))" "set (map snd (pending_waiters (shared s))) \<inter> set (map ?f (completing s)) = {}"
    using ok(5) by (simp_all add: in_flight_def)
  have m: "map ?f (remove1 (t, ref, r) (completing s)) = remove1 ref (map ?f (completing s))"
    using map_remove1_distinct [OF d(1) assms(2)] by simp
  have mem: "ref \<in> set (map ?f (completing s))" using assms(2) by force
  have fl: "in_flight ?s = map snd (pending_waiters (shared s)) @ remove1 ref (map ?f (completing s))"
    by (simp add: in_flight_def complete_section_def m)
  have sub: "set (in_flight ?s) = set (in_flight s) - {ref}"
  proof -
    let ?A = "set (map snd (pending_waiters (shared s)))" and ?B = "set (map ?f (completing s))"
    have "set (in_flight s) = ?A \<union> ?B" by (simp add: in_flight_def)
    moreover have "set (in_flight ?s) = ?A \<union> (?B - {ref})"
      using set_remove1_eq [OF d(1)] by (simp add: fl)
    ultimately show ?thesis using d(2) mem by blast
  qed
  have fresh: "fresh_waiter (waiters s ref)" using ok(7) mem by (simp add: in_flight_def)
  show ?thesis
  proof (rule cdp_okI)
    show "distinct (in_flight ?s)" unfolding fl using ok(5) by (auto simp: in_flight_def dest: in_set_remove1 set_remove1_subset [THEN subsetD])
    show "x < next_waiter ?s" if "x \<in> set (in_flight ?s)" for x
      using that ok(6) [of x] unfolding sub by (simp add: complete_section_def)
    show "fresh_waiter (waiters ?s x)" if "x \<in> set (in_flight ?s)" for x
      using that ok(7) [of x] unfolding sub by (simp add: complete_section_def)
    show "answered_waiter (waiters ?s x)" if "x < next_waiter ?s" "w_done (waiters ?s x)" for x
      using that ok(8) [of x] by (auto simp: complete_section_def answered_waiter_def split: if_splits sum.splits)
  qed (use ok(1-4,9) in \<open>simp_all add: complete_section_def\<close>)
qed

lemma fail_ok:
  assumes "cdp_ok s" and "fatal_error (shared s) = None"
  shows "cdp_ok (fail_section t err s)"
proof -
  note ok = cdp_okD [OF assms(1)]
  let ?s = "fail_section t err s"
  have fl: "in_flight ?s = map (\<lambda>x. fst (snd x)) (completing s) @ map snd (pending_waiters (shared s))"
    by (simp add: in_flight_def fail_section_def Let_def o_def)
  have fls: "set (in_flight ?s) = set (in_flight s)" unfolding fl by (auto simp: in_flight_def)
  show ?thesis
  proof (rule cdp_okI)
    show "distinct (in_flight ?s)" unfolding fl using ok(5) by (auto simp: in_flight_def)
    show "x < next_waiter ?s" if "x \<in> set (in_flight ?s)" for x
      using that ok(6) [of x] unfolding fls by (simp add: fail_section_def Let_def)
    show "fresh_waiter (waiters ?s x)" if "x \<in> set (in_flight ?s)" for x
      using that ok(7) [of x] unfolding fls by (simp add: fail_section_def Let_def)
    show "answered_waiter (waiters ?s x)" if "x < next_waiter ?s" "w_done (waiters ?s x)" for x
      using that ok(8) [of x] by (simp add: fail_section_def Let_def)
  qed (simp_all add: fail_section_def Let_def expected_answers_def)
qed

text \<open>What the commands use of the state, which the steps of the sessions keep.\<close>

definition same_commands :: "'j cdp \<Rightarrow> 'j cdp \<Rightarrow> bool" where
  "same_commands s s' \<longleftrightarrow> pending_waiters (shared s') = pending_waiters (shared s) \<and>
     pending_requests (shared s') = pending_requests (shared s) \<and>
     next_request_id (shared s') = next_request_id (shared s) \<and> fatal_error (shared s') = fatal_error (shared s) \<and>
     (client_stopped (shared s) \<longrightarrow> client_stopped (shared s')) \<and>
     waiters s' = waiters s \<and> next_waiter s' = next_waiter s \<and> completing s' = completing s"

lemma same_commands_ok:
  assumes "same_commands s s'" and "cdp_ok s"
    and "fatal_error (shared s) \<noteq> None \<Longrightarrow> sessions_by_id (shared s) = [] \<Longrightarrow> sessions_by_target_id (shared s) = [] \<Longrightarrow>
      sessions_by_id (shared s') = [] \<and> sessions_by_target_id (shared s') = []"
  shows "cdp_ok s'"
proof -
  note eq = assms(1) [unfolded same_commands_def]
  have "expected_answers (shared s') = expected_answers (shared s)" "in_flight s' = in_flight s"
    using eq by (simp_all add: expected_answers_def in_flight_def)
  then show ?thesis using assms(2,3) eq by (simp add: cdp_ok_def)
qed

lemma session_steps:
  "same_commands s (end_section t ref err s)" "same_commands s (unregister_section c s)"
  "same_commands s (close_section ref s)" "same_commands s (deliver_section ref ev s)"
  "wait_section ref msg s = (x, s') \<Longrightarrow> same_commands s s'" "drain_section ref s = (evs, s') \<Longrightarrow> same_commands s s'"
  "same_commands s (s\<lparr>shared := (shared s)\<lparr>stopping := True, client_stopped := client_stopped (shared s) \<or> b\<rparr>\<rparr>)"
  by (auto simp: same_commands_def end_section_def unregister_section_def close_section_def deliver_section_def
      wait_section_def drain_section_def Let_def split: option.splits if_splits list.splits)

lemma open_sectionD:
  assumes "open_section i t s = (Inr c, s')"
  shows "same_commands s s'" "fatal_error (shared s) = None" "cs_ref c = next_session s"
    "next_session s' = Suc (next_session s)"
    "sessions s' = (sessions s)(next_session s := \<lparr>sd_events = [], sd_error = None, sd_stopped = False\<rparr>)"
    "ending s' = ending s"
  using assms by (auto simp: open_section_def Let_def same_commands_def split: option.splits if_splits)

lemma session_maps:
  "shared (end_section t ref err s) = shared s" "shared (close_section ref s) = shared s"
  "shared (deliver_section ref ev s) = shared s" "wait_section ref msg s = (x, s') \<Longrightarrow> shared s' = shared s"
  "drain_section ref s = (evs, s') \<Longrightarrow> shared s' = shared s"
  by (auto simp: end_section_def close_section_def deliver_section_def
      wait_section_def drain_section_def Let_def split: option.splits if_splits list.splits)

lemma step_ok: "cdp_step V E l s s' \<Longrightarrow> cdp_ok s \<Longrightarrow> cdp_ok s'"
proof (induction rule: cdp_step.induct)
  case (unregister c s)
  show ?case
    by (rule same_commands_ok [OF session_steps(2) unregister]) (simp add: unregister_section_def Let_def erase_value_def)
next
  case (stop s b)
  show ?case by (rule same_commands_ok [OF session_steps(7) stop]) simp
next
  case (open_session i t s c s')
  then show ?case using same_commands_ok open_sectionD(1,2) by metis
next
  case (take_event ref s msg ev s')
  then show ?case using same_commands_ok session_steps(5) session_maps(4) by metis
next
  case (drain ref s evs s')
  then show ?case using same_commands_ok session_steps(6) session_maps(5) by metis
next
  case (finish t ref err s)
  show ?case by (rule same_commands_ok [OF session_steps(1) finish(2)]) (simp add: session_maps)
next
  case (close ref s)
  show ?case by (rule same_commands_ok [OF session_steps(3) close]) (simp add: session_maps)
next
  case (deliver s ref ev)
  show ?case by (rule same_commands_ok [OF session_steps(4) deliver(4)]) (simp add: session_maps)
qed (blast intro: register_ok expire_ok answer_ok dismiss_ok complete_ok fail_ok cdp_ok_core)+

lemma cdp_initial_ok: "cdp_initial s \<Longrightarrow> cdp_ok s"
  by (simp add: cdp_initial_def cdp_ok_def expected_answers_def in_flight_def)

lemma run_ok: "cdp_run V E ls s s' \<Longrightarrow> cdp_ok s \<Longrightarrow> cdp_ok s'"
  by (induction rule: cdp_run.induct) (auto intro: step_ok)

section \<open>Commands\<close>

text \<open>What a step does to the commands.\<close>

definition command_label :: "'j label \<Rightarrow> bool" where
  "command_label l \<longleftrightarrow> (case l of Registered _ _ \<Rightarrow> True | Expired _ \<Rightarrow> True | Answered _ _ _ _ _ \<Rightarrow> True
     | Failed _ _ \<Rightarrow> True | _ \<Rightarrow> False)"

definition same_waiting :: "'j cdp \<Rightarrow> 'j cdp \<Rightarrow> bool" where
  "same_waiting s s' \<longleftrightarrow> pending_waiters (shared s') = pending_waiters (shared s) \<and>
     next_request_id (shared s') = next_request_id (shared s) \<and>
     waiters s' = waiters s \<and> next_waiter s' = next_waiter s \<and> completing s' = completing s"

lemma same_commands_waiting: "same_commands s s' \<Longrightarrow> same_waiting s s'"
  by (simp add: same_commands_def same_waiting_def)

lemma same_core_waiting: "same_core s s' \<Longrightarrow> same_waiting s s'"
  by (simp add: same_core_def same_waiting_def)

lemma dismiss_waiting:
  assumes "cdp_ok s" and "respond_section V E t rid v s = (Returns (Inr None), s')"
  shows "same_waiting s s'"
  using respond_dismissD [OF assms(2)]
proof
  assume "\<exists>q. map_of (pending_requests (shared s)) rid = Some q \<and> pr_ignore_response q \<and>
    same_core (s\<lparr>shared := (shared s)\<lparr>pending_requests := erase rid (pending_requests (shared s)),
        pending_waiters := erase rid (pending_waiters (shared s))\<rparr>\<rparr>) s'"
  moreover from this have "rid \<notin> fst ` set (pending_waiters (shared s))"
    unfolding cdp_okD(3) [OF assms(1)] by (auto simp: expected_answers_def)
  then have "erase rid (pending_waiters (shared s)) = pending_waiters (shared s)"
    by (auto simp: erase_filter filter_id_conv image_iff)
  ultimately show ?thesis by (auto simp: same_core_def same_waiting_def)
qed (rule same_core_waiting)

lemma step_command_cases [consumes 2, case_names register expire answer complete fail other]:
  assumes "cdp_step V E l s s'" and "cdp_ok s"
  obtains rid ref m sid where "l = Registered rid ref" "register_section m sid s = (Returns (Inr (rid, ref)), s')"
  | rid where "l = Expired rid" "expire_section rid s = (True, s')"
  | t rid v ref r q e where "l = Answered t rid v ref r" "message_answers V E rid v r"
      "respond_section V E t rid v s = (Returns (Inr (Some (ref, r, q, e))), s')"
  | t ref r where "l = Completed t ref r" "(t, ref, r) \<in> set (completing s)" "s' = complete_section t ref r s"
  | t err where "l = Failed t err" "fatal_error (shared s) = None" "s' = fail_section t err s"
  | "same_waiting s s'" "\<not> command_label l"
  using assms
proof (induction rule: cdp_step.induct)
  case (dismiss t rid v s s')
  then show ?case using dismiss_waiting by (fastforce simp: command_label_def)
next
  case (answer v i rid t s ref r q e s')
  show ?case by (rule answer.prems(3) [OF refl respond_section_reply [OF answer(3,1,2)] answer(3)])
next
  case (open_session i t s c s')
  then show ?case using same_commands_waiting open_sectionD(1) by (fastforce simp: command_label_def)
next
  case (take_event ref s msg ev s')
  then show ?case using same_commands_waiting session_steps(5) by (fastforce simp: command_label_def)
next
  case (drain ref s evs s')
  then show ?case using same_commands_waiting session_steps(6) by (fastforce simp: command_label_def)
qed (use session_steps(1-4,7) same_commands_waiting same_core_waiting in \<open>fastforce simp: command_label_def\<close>)+

text \<open>Where the reply in a waiter comes from.\<close>

definition reply_source :: "'j label list \<Rightarrow> nat \<Rightarrow> 'j reply \<Rightarrow> bool" where
  "reply_source ls ref r \<longleftrightarrow> (\<exists>t rid v. Answered t rid v ref r \<in> set ls) \<or> (\<exists>t err. r = Inl err \<and> Failed t err \<in> set ls)"

definition answered_with :: "'j reply \<Rightarrow> 'j waiter" where
  "answered_with r = (case r of
      Inr v \<Rightarrow> \<lparr>w_result = Some v, w_error = None, w_done = True\<rparr>
    | Inl err \<Rightarrow> \<lparr>w_result = None, w_error = Some err, w_done = True\<rparr>)"

definition history_ok :: "('u, 'z) vendor_scheme \<Rightarrow> 'j cdp_env \<Rightarrow> 'j label list \<Rightarrow> 'j cdp \<Rightarrow> bool" where
  "history_ok V E ls s \<longleftrightarrow>
     (\<forall>rid ref. Registered rid ref \<in> set ls \<longrightarrow> rid < next_request_id (shared s) \<and> ref < next_waiter s) \<and>
     (\<forall>rid ref ref'. Registered rid ref \<in> set ls \<longrightarrow> Registered rid ref' \<in> set ls \<longrightarrow> ref = ref') \<and>
     (\<forall>rid rid' ref. Registered rid ref \<in> set ls \<longrightarrow> Registered rid' ref \<in> set ls \<longrightarrow> rid = rid') \<and>
     (\<forall>rid ref. (rid, ref) \<in> set (pending_waiters (shared s)) \<longrightarrow> Registered rid ref \<in> set ls) \<and>
     (\<forall>t rid v ref r. Answered t rid v ref r \<in> set ls \<longrightarrow> Registered rid ref \<in> set ls \<and> message_answers V E rid v r) \<and>
     (\<forall>t ref r. (t, ref, r) \<in> set (completing s) \<longrightarrow> reply_source ls ref r) \<and>
     (\<forall>ref<next_waiter s. w_done (waiters s ref) \<longrightarrow> (\<exists>r. reply_source ls ref r \<and> waiters s ref = answered_with r)) \<and>
     (\<forall>rid ref. Registered rid ref \<in> set ls \<longrightarrow>
        ref \<in> set (in_flight s) \<or> w_done (waiters s ref) \<or> Expired rid \<in> set ls)"

lemma reply_source_append: "reply_source (ls @ ks) ref r \<longleftrightarrow> reply_source ls ref r \<or> reply_source ks ref r"
  unfolding reply_source_def set_append Un_iff by blast

lemma reply_source_mono: "reply_source ls ref r \<Longrightarrow> reply_source (ls @ ks) ref r"
  by (simp add: reply_source_append)

lemma history_okD:
  assumes "history_ok V E ls s"
  shows "\<And>rid ref. Registered rid ref \<in> set ls \<Longrightarrow> rid < next_request_id (shared s)"
    "\<And>rid ref. Registered rid ref \<in> set ls \<Longrightarrow> ref < next_waiter s"
    "\<And>rid ref ref'. Registered rid ref \<in> set ls \<Longrightarrow> Registered rid ref' \<in> set ls \<Longrightarrow> ref = ref'"
    "\<And>rid rid' ref. Registered rid ref \<in> set ls \<Longrightarrow> Registered rid' ref \<in> set ls \<Longrightarrow> rid = rid'"
    "\<And>rid ref. (rid, ref) \<in> set (pending_waiters (shared s)) \<Longrightarrow> Registered rid ref \<in> set ls"
    "\<And>t rid v ref r. Answered t rid v ref r \<in> set ls \<Longrightarrow> Registered rid ref \<in> set ls"
    "\<And>t rid v ref r. Answered t rid v ref r \<in> set ls \<Longrightarrow> message_answers V E rid v r"
    "\<And>t ref r. (t, ref, r) \<in> set (completing s) \<Longrightarrow> reply_source ls ref r"
    "\<And>ref. ref < next_waiter s \<Longrightarrow> w_done (waiters s ref) \<Longrightarrow> \<exists>r. reply_source ls ref r \<and> waiters s ref = answered_with r"
    "\<And>rid ref. Registered rid ref \<in> set ls \<Longrightarrow> ref \<in> set (in_flight s) \<or> w_done (waiters s ref) \<or> Expired rid \<in> set ls"
  using assms unfolding history_ok_def by (elim conjE, metis)+

lemma history_okI:
  assumes "\<And>rid ref. Registered rid ref \<in> set ls \<Longrightarrow> rid < next_request_id (shared s) \<and> ref < next_waiter s"
    "\<And>rid ref ref'. Registered rid ref \<in> set ls \<Longrightarrow> Registered rid ref' \<in> set ls \<Longrightarrow> ref = ref'"
    "\<And>rid rid' ref. Registered rid ref \<in> set ls \<Longrightarrow> Registered rid' ref \<in> set ls \<Longrightarrow> rid = rid'"
    "\<And>rid ref. (rid, ref) \<in> set (pending_waiters (shared s)) \<Longrightarrow> Registered rid ref \<in> set ls"
    "\<And>t rid v ref r. Answered t rid v ref r \<in> set ls \<Longrightarrow> Registered rid ref \<in> set ls \<and> message_answers V E rid v r"
    "\<And>t ref r. (t, ref, r) \<in> set (completing s) \<Longrightarrow> reply_source ls ref r"
    "\<And>ref. ref < next_waiter s \<Longrightarrow> w_done (waiters s ref) \<Longrightarrow> \<exists>r. reply_source ls ref r \<and> waiters s ref = answered_with r"
    "\<And>rid ref. Registered rid ref \<in> set ls \<Longrightarrow> ref \<in> set (in_flight s) \<or> w_done (waiters s ref) \<or> Expired rid \<in> set ls"
  shows "history_ok V E ls s"
  unfolding history_ok_def using assms by blast

text \<open>A step that registers nothing and hands nothing over: only what is on its way may change hands.\<close>

lemma history_moves:
  assumes "history_ok V E ls s" and "waiters s' = waiters s" and "next_waiter s' = next_waiter s"
    and "next_request_id (shared s') = next_request_id (shared s)"
    and "set (pending_waiters (shared s')) \<subseteq> set (pending_waiters (shared s))"
    and "\<And>rid ref. l \<noteq> Registered rid ref"
    and "\<And>t rid v ref r. l = Answered t rid v ref r \<Longrightarrow>
      (rid, ref) \<in> set (pending_waiters (shared s)) \<and> message_answers V E rid v r"
    and "\<And>t ref r. (t, ref, r) \<in> set (completing s') \<Longrightarrow> (t, ref, r) \<in> set (completing s) \<or> reply_source [l] ref r"
    and "\<And>rid ref. Registered rid ref \<in> set ls \<Longrightarrow> ref \<in> set (in_flight s) \<Longrightarrow> ref \<in> set (in_flight s') \<or> l = Expired rid"
  shows "history_ok V E (ls @ [l]) s'"
proof -
  note H = history_okD [OF assms(1)]
  have reg: "Registered rid ref \<in> set (ls @ [l]) \<longleftrightarrow> Registered rid ref \<in> set ls" for rid ref
    using assms(6) by auto
  show ?thesis
  proof (rule history_okI; (unfold reg)?)
    show "ref = ref'" if "Registered rid ref \<in> set ls" "Registered rid ref' \<in> set ls" for rid ref ref'
      using H(3) that by blast
    show "rid = rid'" if "Registered rid ref \<in> set ls" "Registered rid' ref \<in> set ls" for rid rid' ref
      using H(4) that by blast
    show "Registered rid ref \<in> set ls" if "(rid, ref) \<in> set (pending_waiters (shared s'))" for rid ref
      using H(5) subsetD [OF assms(5) that] .
    show "Registered rid ref \<in> set ls \<and> message_answers V E rid v r" if "Answered t rid v ref r \<in> set (ls @ [l])" for t rid v ref r
      using that H(5,6,7) assms(7) [of t rid v ref r] by (auto simp: eq_commute [of _ l])
    show "reply_source (ls @ [l]) ref r" if "(t, ref, r) \<in> set (completing s')" for t ref r
      using assms(8) [OF that] H(8) [of t ref r] by (auto simp: reply_source_append)
    show "\<exists>r. reply_source (ls @ [l]) ref r \<and> waiters s' ref = answered_with r"
      if "ref < next_waiter s'" "w_done (waiters s' ref)" for ref
      using H(9) [of ref] that reply_source_mono [of ls ref _ "[l]"] by (auto simp: assms(2,3))
    show "ref \<in> set (in_flight s') \<or> w_done (waiters s' ref) \<or> Expired rid \<in> set (ls @ [l])"
      if "Registered rid ref \<in> set ls" for rid ref
      using H(10) [OF that] assms(9) [OF that] by (auto simp: assms(2))
  qed (use H(1,2) in \<open>simp add: assms(3,4)\<close>)
qed

lemma history_expire:
  assumes "history_ok V E ls s" and "expire_section rid s = (True, s')"
  shows "history_ok V E (ls @ [Expired rid]) s'"
proof (rule history_moves [OF assms(1)])
  note D = expire_sectionD [OF assms(2)]
  show "ref \<in> set (in_flight s') \<or> Expired rid = Expired rid'"
    if reg: "Registered rid' ref \<in> set ls" and "ref \<in> set (in_flight s)" for rid' ref
  proof (cases "ref \<in> snd ` set (pending_waiters (shared s))")
    case True
    then obtain k where k: "(k, ref) \<in> set (pending_waiters (shared s))" by force
    then have "k = rid'" using history_okD(4,5) [OF assms(1)] reg by metis
    with k show ?thesis by (force simp: in_flight_def D(2) erase_filter)
  next
    case False
    with that(2) show ?thesis by (auto simp: in_flight_def D(2))
  qed
qed (auto simp: expire_sectionD [OF assms(2)] erase_filter)

lemma history_answer:
  assumes "history_ok V E ls s" and "message_answers V E rid v r" and "cdp_ok s"
    and "respond_section V E t rid v s = (Returns (Inr (Some (ref, r, q, e))), s')"
  shows "history_ok V E (ls @ [Answered t rid v ref r]) s'"
proof (rule history_moves [OF assms(1)])
  note D = respond_sectionD [OF assms(4)]
  have d: "distinct (map fst (pending_waiters (shared s)))"
      "distinct (map snd (pending_waiters (shared s)) @ map (\<lambda>x. fst (snd x)) (completing s))"
    using cdp_okD(2,5) [OF assms(3)] by (simp_all add: in_flight_def)
  show "x \<in> set (in_flight s') \<or> Answered t rid v ref r = Expired k" if "x \<in> set (in_flight s)" for k x
    using that erased_values(1) [OF d(1) D(3) d(2)] by (auto simp: in_flight_def D(4) simp del: set_map)
qed (use assms(2) map_of_SomeD [OF respond_sectionD(3) [OF assms(4)]] in
    \<open>auto simp: respond_sectionD(4) [OF assms(4)] erase_filter reply_source_def\<close>)

lemma history_fail:
  assumes "history_ok V E ls s"
  shows "history_ok V E (ls @ [Failed t err]) (fail_section t err s)"
  by (rule history_moves [OF assms]) (auto simp: fail_section_def Let_def reply_source_def in_flight_def)

lemma history_other:
  assumes "history_ok V E ls s" and "same_waiting s s'" and "\<not> command_label l"
  shows "history_ok V E (ls @ [l]) s'"
  by (rule history_moves [OF assms(1)])
    (use assms(2,3) in \<open>auto simp: same_waiting_def command_label_def in_flight_def split: label.splits\<close>)

lemma history_register:
  assumes "history_ok V E ls s" and "cdp_ok s" and "register_section m sid s = (Returns (Inr (rid, ref)), s')"
  shows "history_ok V E (ls @ [Registered rid ref]) s'"
proof -
  note H = history_okD [OF assms(1)] and D = register_sectionD [OF assms(3)]
  have new: "Registered rid x \<notin> set ls" "Registered k ref \<notin> set ls" for x k
    using H(1) [of rid x] H(2) [of k ref] by (auto simp: D(1,2))
  have e: "set (pending_waiters (shared s')) \<subseteq> insert (rid, ref) (set (pending_waiters (shared s)))"
    by (auto simp: D(5) map_emplace_def)
  have "rid \<notin> fst ` set (pending_waiters (shared s))"
    unfolding cdp_okD(3) [OF assms(2)] using D(4) by (simp add: expected_answers_def)
  then have fl: "set (in_flight s') = insert ref (set (in_flight s))"
    by (auto simp: in_flight_def D(5) map_emplace_def map_of_None_fst)
  have w: "waiters s' x = (if x = ref then \<lparr>w_result = None, w_error = None, w_done = False\<rparr> else waiters s x)"
      "next_waiter s' = Suc ref" "next_request_id (shared s') = rid + 1" "completing s' = completing s" for x
    by (simp_all add: D(5))
  show ?thesis
  proof (rule history_okI)
    show "k < next_request_id (shared s') \<and> x < next_waiter s'" if "Registered k x \<in> set (ls @ [Registered rid ref])" for k x
      using that H(1) [of k x] H(2) [of k x] D(1,2) by (auto simp: w)
    show "Registered k x \<in> set (ls @ [Registered rid ref])" if "(k, x) \<in> set (pending_waiters (shared s'))" for k x
      using e that H(5) by auto
    show "\<exists>r. reply_source (ls @ [Registered rid ref]) x r \<and> waiters s' x = answered_with r"
      if "x < next_waiter s'" "w_done (waiters s' x)" for x
      using that H(9) [of x] D(2) reply_source_mono by (fastforce simp: w split: if_splits)
    show "x \<in> set (in_flight s') \<or> w_done (waiters s' x) \<or> Expired k \<in> set (ls @ [Registered rid ref])"
      if "Registered k x \<in> set (ls @ [Registered rid ref])" for k x
      using that H(10) [of k x] by (auto simp: fl w new)
  qed (use new H(3,4,6,7,8) in \<open>auto simp: w reply_source_mono\<close>)
qed

lemma complete_fresh: "fresh_waiter (waiters s ref) \<Longrightarrow>
    waiters (complete_section t ref r s) = (waiters s)(ref := answered_with r)"
  by (auto simp: complete_section_def answered_with_def fresh_waiter_def split: sum.splits)

lemma history_complete:
  assumes "history_ok V E ls s" and "cdp_ok s" and "(t, ref, r) \<in> set (completing s)"
  shows "history_ok V E (ls @ [Completed t ref r]) (complete_section t ref r s)"
proof -
  note H = history_okD [OF assms(1)]
  let ?s = "complete_section t ref r s" and ?ls = "ls @ [Completed t ref r]"
  have "ref \<in> set (in_flight s)" using assms(3) by (force simp: in_flight_def)
  then have w: "waiters ?s = (waiters s)(ref := answered_with r)"
    using complete_fresh cdp_okD(7) [OF assms(2)] by metis
  have keep: "next_waiter ?s = next_waiter s" "shared ?s = shared s" "completing ?s = remove1 (t, ref, r) (completing s)"
    by (simp_all add: complete_section_def)
  show ?thesis
  proof (rule history_okI)
    show "reply_source ?ls x r'" if "(t', x, r') \<in> set (completing ?s)" for t' x r'
      using that H(8) reply_source_mono notin_set_remove1 by (metis keep(3))
    show "\<exists>r'. reply_source ?ls x r' \<and> waiters ?s x = answered_with r'" if "x < next_waiter ?s" "w_done (waiters ?s x)" for x
      using that H(8) [OF assms(3)] H(9) [of x] reply_source_mono by (fastforce simp: w keep split: if_splits)
    show "x \<in> set (in_flight ?s) \<or> w_done (waiters ?s x) \<or> Expired k \<in> set ?ls" if "Registered k x \<in> set ?ls" for k x
    proof (cases "x = ref")
      case True
      then show ?thesis by (simp add: w answered_with_def split: sum.splits)
    next
      case False
      then have "x \<in> set (in_flight s) \<Longrightarrow> x \<in> set (in_flight ?s)"
        by (force simp: in_flight_def keep image_iff)
      then show ?thesis using that H(10) [of k x] False by (auto simp: w)
    qed
  qed (use H(1-7) in \<open>auto simp: keep\<close>)
qed

lemma cdp_history_step:
  assumes "cdp_step V E l s s'" and "cdp_ok s" and "history_ok V E ls s"
  shows "history_ok V E (ls @ [l]) s'"
  using assms(1,2)
proof (cases rule: step_command_cases)
  case (answer t rid v ref r q e)
  then show ?thesis using history_answer assms(2,3) by metis
qed (use assms(2,3) history_register history_expire history_complete history_fail history_other in metis)+

definition reached :: "('u, 'z) vendor_scheme \<Rightarrow> 'j cdp_env \<Rightarrow> 'j label list \<Rightarrow> 'j cdp \<Rightarrow> bool" where
  "reached V E ls s \<longleftrightarrow> (\<exists>s0. cdp_initial s0 \<and> cdp_run V E ls s0 s)"

lemma reached_step: "reached V E ls s \<Longrightarrow> cdp_step V E l s s' \<Longrightarrow> reached V E (ls @ [l]) s'"
  by (auto simp: reached_def intro: cdp_run.snoc)

lemma reached_run: "reached V E ls s \<Longrightarrow> cdp_run V E ks s s' \<Longrightarrow> reached V E (ls @ ks) s'"
  by (auto simp: reached_def intro: cdp_run_append)

lemma reached_ok: "reached V E ls s \<Longrightarrow> cdp_ok s"
  by (auto simp: reached_def intro: run_ok cdp_initial_ok)

text \<open>
  A property of the history and the state that holds in the beginning and is kept by every step from a
  reachable state holds in every reachable state.
\<close>

locale cdp_invariant =
  fixes V :: "('u, 'z) vendor_scheme" and E :: "'j cdp_env" and P :: "'j label list \<Rightarrow> 'j cdp \<Rightarrow> bool"
  assumes initial: "cdp_initial s \<Longrightarrow> P [] s"
    and step: "reached V E ls s \<Longrightarrow> P ls s \<Longrightarrow> cdp_step V E l s s' \<Longrightarrow> P (ls @ [l]) s'"
begin

lemma along_run: "cdp_run V E ls s0 s \<Longrightarrow> cdp_initial s0 \<Longrightarrow> reached V E ls s \<and> P ls s"
proof (induction rule: cdp_run.induct)
  case (nil s)
  then show ?case using initial cdp_run.nil by (fastforce simp: reached_def)
next
  case (snoc ls s s1 l s2)
  then show ?case using step reached_step by blast
qed

lemma holds: "reached V E ls s \<Longrightarrow> P ls s"
  using along_run by (auto simp: reached_def)

end

interpretation history: cdp_invariant V E "history_ok V E" for V E
proof
  show "cdp_initial s \<Longrightarrow> history_ok V E [] s" for s
    by (intro history_okI) (simp_all add: cdp_initial_def)
  show "history_ok V E (ls @ [l]) s'" if "reached V E ls s" "history_ok V E ls s" "cdp_step V E l s s'" for ls s l s'
    using cdp_history_step that reached_ok by blast
qed

lemmas reached_history = history.holds

end
