(* ===== verification/Cdp_Tasks.thy ===== *)
theory Cdp_Tasks
  imports Cdp_Correct "HOL-Library.Multiset"
begin

text \<open>
  The sessions of the debugging protocol client under the steps of \<open>Cdp_Correct\<close>, and the operations of
  \<open>Cdp_Client\<close> as runs of those steps when other tasks run in between.
\<close>

section \<open>Event queues\<close>

definition event_in :: "nat \<Rightarrow> 'j label \<Rightarrow> 'j CdpEvent list" where
  "event_in ref l = (case l of Delivered x ev \<Rightarrow> if x = ref then [ev] else [] | _ \<Rightarrow> [])"

definition event_out :: "nat \<Rightarrow> 'j label \<Rightarrow> 'j CdpEvent list" where
  "event_out ref l = (case l of
      Took x ev \<Rightarrow> if x = ref then [ev] else []
    | Drained x evs \<Rightarrow> if x = ref then evs else [] | _ \<Rightarrow> [])"

definition delivered :: "nat \<Rightarrow> 'j label list \<Rightarrow> 'j CdpEvent list" where
  "delivered ref ls = concat (map (event_in ref) ls)"

definition consumed :: "nat \<Rightarrow> 'j label list \<Rightarrow> 'j CdpEvent list" where
  "consumed ref ls = concat (map (event_out ref) ls)"

lemma delivered_snoc: "delivered ref (ls @ [l]) = delivered ref ls @ event_in ref l"
  by (simp add: delivered_def)

lemma consumed_snoc: "consumed ref (ls @ [l]) = consumed ref ls @ event_out ref l"
  by (simp add: consumed_def)

definition queues_ok :: "'j label list \<Rightarrow> 'j cdp \<Rightarrow> bool" where
  "queues_ok ls s \<longleftrightarrow> (\<forall>ref. if ref < next_session s
     then delivered ref ls = consumed ref ls @ sd_events (sessions s ref)
     else delivered ref ls = [] \<and> consumed ref ls = [])"

text \<open>What a step does to the sessions.\<close>

definition session_label :: "'j label \<Rightarrow> bool" where
  "session_label l \<longleftrightarrow> (case l of Failed _ _ \<Rightarrow> True | Ended _ _ \<Rightarrow> True | Opened _ _ \<Rightarrow> True | Unregistered _ \<Rightarrow> True
     | Closed _ \<Rightarrow> True | Delivered _ _ \<Rightarrow> True | Took _ _ \<Rightarrow> True | Drained _ _ \<Rightarrow> True | _ \<Rightarrow> False)"

definition same_sessions :: "'j cdp \<Rightarrow> 'j cdp \<Rightarrow> bool" where
  "same_sessions s s' \<longleftrightarrow> sessions s' = sessions s \<and> next_session s' = next_session s \<and> ending s' = ending s \<and>
     sessions_by_id (shared s') = sessions_by_id (shared s) \<and>
     sessions_by_target_id (shared s') = sessions_by_target_id (shared s)"

lemma command_steps_sessions:
  "register_section m sid s = (Returns (Inr (rid, ref)), s') \<Longrightarrow> same_sessions s s'"
  "expire_section rid s = (b, s') \<Longrightarrow> same_sessions s s'"
  "respond_section V E t rid v s = (Returns (Inr (Some (ref, r, q, e))), s') \<Longrightarrow> same_sessions s s'"
  "respond_section V E t rid v s = (Returns (Inr None), s') \<Longrightarrow> same_sessions s s'"
  "same_sessions s (complete_section t ref r s)" "same_core s s' \<Longrightarrow> same_sessions s s'"
  "same_sessions s (s\<lparr>shared := (shared s)\<lparr>stopping := True, client_stopped := client_stopped (shared s) \<or> b\<rparr>\<rparr>)"
  by (auto simp: same_sessions_def expire_section_def complete_section_def same_core_def Let_def
      dest!: register_sectionD(5) respond_sectionD(4) respond_dismissD split: if_splits)

lemma step_session_cases [consumes 1, case_names fail finish open_session unregister close deliver take_event drain other]:
  assumes "cdp_step V E l s s'"
  obtains t err where "l = Failed t err" "fatal_error (shared s) = None" "s' = fail_section t err s"
  | t ref err where "l = Ended t ref" "(t, ref, err) \<in> set (ending s)" "s' = end_section t ref err s"
  | i t c where "l = Opened (cs_ref c) (map_of (sessions_by_id (shared s)) i = None)" "open_section i t s = (Inr c, s')"
  | c where "l = Unregistered (cs_ref c)" "s' = unregister_section c s"
  | ref where "l = Closed ref" "s' = close_section ref s"
  | ref ev where "l = Delivered ref ev" "ref < next_session s" "\<not> sd_stopped (sessions s ref)"
      "sd_error (sessions s ref) = None" "s' = deliver_section ref ev s"
  | ref ev msg where "l = Took ref ev" "ref < next_session s" "wait_section ref msg s = (Returns (Inr ev), s')"
  | ref evs where "l = Drained ref evs" "ref < next_session s" "drain_section ref s = (evs, s')"
  | "same_sessions s s'" "\<not> session_label l"
  using assms
proof (induction rule: cdp_step.induct)
  case (register m sid s rid ref s')
  then show ?case using command_steps_sessions(1) by (fastforce simp: session_label_def)
next
  case (expire rid s s')
  then show ?case using command_steps_sessions(2) by (fastforce simp: session_label_def)
next
  case (answer v i rid t s ref r q e s')
  then show ?case using command_steps_sessions(3) by (fastforce simp: session_label_def)
next
  case (dismiss t rid v s s')
  then show ?case using command_steps_sessions(4) by (fastforce simp: session_label_def)
next
  case (complete t ref r s)
  then show ?case using command_steps_sessions(5) by (fastforce simp: session_label_def)
next
  case (stop s b)
  then show ?case using command_steps_sessions(7) by (fastforce simp: session_label_def)
next
  case (quiet s s')
  then show ?case using command_steps_sessions(6) by (fastforce simp: session_label_def)
qed blast+

lemma wait_sectionD:
  assumes "wait_section ref msg s = (Returns (Inr ev), s')"
  shows "sd_error (sessions s ref) = None" "\<not> sd_stopped (sessions s ref)"
    "sd_events (sessions s ref) = ev # sd_events (sessions s' ref)"
    "s' = s\<lparr>sessions := (sessions s)(ref := (sessions s ref)\<lparr>sd_events := sd_events (sessions s' ref)\<rparr>)\<rparr>"
  using assms by (auto simp: wait_section_def Let_def split: if_splits option.splits list.splits)

text \<open>What a step does to the queues.\<close>

lemma queues_step:
  assumes "cdp_step V E l s s'"
  shows "next_session s \<le> next_session s' \<and>
    (if ref < next_session s
     then sd_events (sessions s ref) @ event_in ref l = event_out ref l @ sd_events (sessions s' ref)
     else event_in ref l = [] \<and> event_out ref l = [] \<and> (ref < next_session s' \<longrightarrow> sd_events (sessions s' ref) = []))"
  using assms
proof (cases rule: step_session_cases)
  case (open_session i t c)
  then show ?thesis using open_sectionD(4,5) [OF open_session(2)] by (simp add: event_in_def event_out_def)
next
  case (take_event ref' ev msg)
  note D = wait_sectionD [OF take_event(3)]
  have "next_session s' = next_session s" by (subst D(4)) simp
  moreover have "sessions s' x = sessions s x" if "x \<noteq> ref'" for x by (subst D(4)) (simp add: that)
  ultimately show ?thesis using take_event(1,2) D(3) by (cases "ref = ref'") (simp_all add: event_in_def event_out_def)
next
  case (drain ref' evs)
  then show ?thesis by (auto simp: event_in_def event_out_def drain_section_def)
qed (auto simp: event_in_def event_out_def fail_section_def end_section_def unregister_section_def
    close_section_def deliver_section_def same_sessions_def session_label_def Let_def split: label.splits)

lemma queues_ok_step:
  assumes "cdp_step V E l s s'" and "queues_ok ls s"
  shows "queues_ok (ls @ [l]) s'"
  unfolding queues_ok_def
proof
  fix ref
  show "if ref < next_session s' then delivered ref (ls @ [l]) = consumed ref (ls @ [l]) @ sd_events (sessions s' ref)
     else delivered ref (ls @ [l]) = [] \<and> consumed ref (ls @ [l]) = []"
    using queues_step [OF assms(1), of ref] assms(2) [unfolded queues_ok_def, rule_format, of ref]
    by (auto simp: delivered_snoc consumed_snoc split: if_splits)
qed

interpretation queues: cdp_invariant V E queues_ok for V E
  by unfold_locales (simp add: queues_ok_def delivered_def consumed_def cdp_initial_def, rule queues_ok_step)

lemmas reached_queues = queues.holds

section \<open>Registered sessions\<close>

definition registry_ok :: "'j label list \<Rightarrow> 'j cdp \<Rightarrow> bool" where
  "registry_ok ls s \<longleftrightarrow>
     distinct (map fst (sessions_by_id (shared s))) \<and>
     (\<forall>ref\<in>snd ` set (sessions_by_id (shared s)) \<union> snd ` set (sessions_by_target_id (shared s)). ref < next_session s) \<and>
     (\<forall>ref b. Opened ref b \<in> set ls \<longrightarrow> ref < next_session s) \<and>
     (\<forall>ref. Opened ref True \<in> set ls \<longrightarrow> ref \<in> snd ` set (sessions_by_id (shared s)) \<or> sd_stopped (sessions s ref) \<or>
        ref \<in> fst ` snd ` set (ending s) \<or> Unregistered ref \<in> set ls) \<and>
     (\<forall>ref<next_session s. sd_stopped (sessions s ref) \<longleftrightarrow> sd_error (sessions s ref) \<noteq> None)"

lemma registry_okD:
  assumes "registry_ok ls s"
  shows "distinct (map fst (sessions_by_id (shared s)))"
    "\<And>ref. ref \<in> snd ` set (sessions_by_id (shared s)) \<Longrightarrow> ref < next_session s"
    "\<And>ref. ref \<in> snd ` set (sessions_by_target_id (shared s)) \<Longrightarrow> ref < next_session s"
    "\<And>ref b. Opened ref b \<in> set ls \<Longrightarrow> ref < next_session s"
    "\<And>ref. Opened ref True \<in> set ls \<Longrightarrow> ref \<in> snd ` set (sessions_by_id (shared s)) \<or> sd_stopped (sessions s ref) \<or>
        ref \<in> fst ` snd ` set (ending s) \<or> Unregistered ref \<in> set ls"
    "\<And>ref. ref < next_session s \<Longrightarrow> sd_stopped (sessions s ref) \<longleftrightarrow> sd_error (sessions s ref) \<noteq> None"
  using assms unfolding registry_ok_def by (elim conjE, metis Un_iff)+

lemma registry_okI:
  assumes "distinct (map fst (sessions_by_id (shared s)))"
    "\<And>ref. ref \<in> snd ` set (sessions_by_id (shared s)) \<Longrightarrow> ref < next_session s"
    "\<And>ref. ref \<in> snd ` set (sessions_by_target_id (shared s)) \<Longrightarrow> ref < next_session s"
    "\<And>ref b. Opened ref b \<in> set ls \<Longrightarrow> ref < next_session s"
    "\<And>ref. Opened ref True \<in> set ls \<Longrightarrow> ref \<in> snd ` set (sessions_by_id (shared s)) \<or> sd_stopped (sessions s ref) \<or>
        ref \<in> fst ` snd ` set (ending s) \<or> Unregistered ref \<in> set ls"
    "\<And>ref. ref < next_session s \<Longrightarrow> sd_stopped (sessions s ref) \<longleftrightarrow> sd_error (sessions s ref) \<noteq> None"
  shows "registry_ok ls s"
  unfolding registry_ok_def using assms by blast

text \<open>A step that opens no session and lets none out of the maps unless it is ended or unregistered.\<close>

lemma registry_moves:
  assumes "registry_ok ls s" and "next_session s' = next_session s"
    and "distinct (map fst (sessions_by_id (shared s'))) \<or> sessions_by_id (shared s') = sessions_by_id (shared s)"
    and "set (sessions_by_id (shared s')) \<subseteq> set (sessions_by_id (shared s))"
    and "set (sessions_by_target_id (shared s')) \<subseteq> set (sessions_by_target_id (shared s))"
    and "\<And>ref b. l \<noteq> Opened ref b"
    and "\<And>ref. ref \<in> snd ` set (sessions_by_id (shared s)) \<Longrightarrow>
      ref \<in> snd ` set (sessions_by_id (shared s')) \<or> ref \<in> fst ` snd ` set (ending s') \<or> l = Unregistered ref"
    and "\<And>ref. sd_stopped (sessions s ref) \<Longrightarrow> sd_stopped (sessions s' ref)"
    and "\<And>ref. ref \<in> fst ` snd ` set (ending s) \<Longrightarrow> ref \<in> fst ` snd ` set (ending s') \<or> sd_stopped (sessions s' ref)"
    and "\<And>ref. (sd_stopped (sessions s ref) \<longleftrightarrow> sd_error (sessions s ref) \<noteq> None) \<Longrightarrow>
      (sd_stopped (sessions s' ref) \<longleftrightarrow> sd_error (sessions s' ref) \<noteq> None)"
  shows "registry_ok (ls @ [l]) s'"
proof -
  note R = registry_okD [OF assms(1)]
  have op: "Opened ref b \<in> set (ls @ [l]) \<longleftrightarrow> Opened ref b \<in> set ls" for ref b using assms(6) by auto
  show ?thesis
  proof (rule registry_okI; (unfold op)?)
    show "distinct (map fst (sessions_by_id (shared s')))" using assms(3) R(1) by metis
    show "ref < next_session s'" if "ref \<in> snd ` set (sessions_by_id (shared s'))" for ref
      using that assms(4) R(2) by (auto simp: assms(2))
    show "ref < next_session s'" if "ref \<in> snd ` set (sessions_by_target_id (shared s'))" for ref
      using that assms(5) R(3) by (auto simp: assms(2))
    show "ref \<in> snd ` set (sessions_by_id (shared s')) \<or> sd_stopped (sessions s' ref) \<or>
        ref \<in> fst ` snd ` set (ending s') \<or> Unregistered ref \<in> set (ls @ [l])" if "Opened ref True \<in> set ls" for ref
      using R(5) [OF that] assms(7,8,9) [of ref] by (auto simp del: set_map)
    show "sd_stopped (sessions s' ref) \<longleftrightarrow> sd_error (sessions s' ref) \<noteq> None" if "ref < next_session s'" for ref
      using that R(6) assms(10) by (simp add: assms(2))
  qed (use R(4) in \<open>simp add: assms(2)\<close>)
qed

lemma open_section_maps:
  assumes "open_section i t s = (Inr c, s')"
  shows "sessions_by_id (shared s') = map_emplace i (next_session s) (sessions_by_id (shared s))"
    "sessions_by_target_id (shared s') = map_emplace t (next_session s) (sessions_by_target_id (shared s))"
  using assms by (auto simp: open_section_def Let_def split: option.splits if_splits)

lemma map_emplace_distinct: "distinct (map fst m) \<Longrightarrow> distinct (map fst (map_emplace k v m))"
  by (simp add: map_emplace_def map_of_eq_None_iff)

lemma map_emplace_values: "set (map_emplace k v m) = (if map_of m k = None then insert (k, v) (set m) else set m)"
  by (auto simp: map_emplace_def)

lemma registry_open:
  assumes "registry_ok ls s" and "open_section i t s = (Inr c, s')"
  shows "registry_ok (ls @ [Opened (cs_ref c) (map_of (sessions_by_id (shared s)) i = None)]) s'"
proof -
  note R = registry_okD [OF assms(1)] and D = open_sectionD [OF assms(2)] and M = open_section_maps [OF assms(2)]
  show ?thesis
  proof (rule registry_okI)
    show "distinct (map fst (sessions_by_id (shared s')))" using R(1) by (simp add: M map_emplace_distinct)
    show "ref < next_session s'" if "ref \<in> snd ` set (sessions_by_id (shared s'))" for ref
      using that R(2) by (force simp: M D map_emplace_values less_Suc_eq split: if_splits)
    show "ref < next_session s'" if "ref \<in> snd ` set (sessions_by_target_id (shared s'))" for ref
      using that R(3) by (force simp: M D map_emplace_values less_Suc_eq split: if_splits)
    show "ref < next_session s'"
      if "Opened ref b \<in> set (ls @ [Opened (cs_ref c) (map_of (sessions_by_id (shared s)) i = None)])" for ref b
      using that R(4) [of ref b] D(3,4) by auto
    show "sd_stopped (sessions s' ref) \<longleftrightarrow> sd_error (sessions s' ref) \<noteq> None" if "ref < next_session s'" for ref
      using that R(6) [of ref] by (cases "ref = next_session s") (simp_all add: D(4,5) less_Suc_eq)
    show "ref \<in> snd ` set (sessions_by_id (shared s')) \<or> sd_stopped (sessions s' ref) \<or> ref \<in> fst ` snd ` set (ending s') \<or>
        Unregistered ref \<in> set (ls @ [Opened (cs_ref c) (map_of (sessions_by_id (shared s)) i = None)])"
      if op: "Opened ref True \<in> set (ls @ [Opened (cs_ref c) (map_of (sessions_by_id (shared s)) i = None)])" for ref
    proof (cases "Opened ref True \<in> set ls")
      case True
      then have "ref \<noteq> next_session s" using R(4) [of ref True] by auto
      with R(5) [OF True] show ?thesis
        by (auto simp: D(5,6) M map_emplace_values image_iff split: if_splits)
    next
      case False
      with op show ?thesis by (auto simp: M map_emplace_values D(3))
    qed
  qed
qed

lemma erase_value_values:
  assumes "distinct (map fst m)" and "ref \<in> snd ` set m" and "ref \<noteq> v"
  shows "ref \<in> snd ` set (erase_value k v m)"
  using assms map_of_is_SomeI [OF assms(1)] by (fastforce simp: erase_value_def erase_filter image_iff)

lemma registry_unregister:
  assumes "registry_ok ls s"
  shows "registry_ok (ls @ [Unregistered (cs_ref c)]) (unregister_section c s)"
proof (rule registry_moves [OF assms])
  note R = registry_okD [OF assms]
  let ?s = "unregister_section c s"
  show "distinct (map fst (sessions_by_id (shared ?s))) \<or> sessions_by_id (shared ?s) = sessions_by_id (shared s)"
    using R(1) by (simp add: unregister_section_def Let_def erase_value_def erase_filter distinct_map_filter)
  show "ref \<in> snd ` set (sessions_by_id (shared ?s)) \<or> ref \<in> fst ` snd ` set (ending ?s) \<or>
      Unregistered (cs_ref c) = Unregistered ref" if "ref \<in> snd ` set (sessions_by_id (shared s))" for ref
    using erase_value_values [OF R(1) that] by (auto simp: unregister_section_def Let_def)
qed (auto simp: unregister_section_def Let_def erase_value_def erase_filter)

lemma registry_fail:
  assumes "registry_ok ls s"
  shows "registry_ok (ls @ [Failed t err]) (fail_section t err s)"
proof (rule registry_moves [OF assms])
  show "ref \<in> snd ` set (sessions_by_id (shared (fail_section t err s))) \<or>
      ref \<in> fst ` snd ` set (ending (fail_section t err s)) \<or> Failed t err = Unregistered ref"
    if "ref \<in> snd ` set (sessions_by_id (shared s))" for ref
    using that by (force simp: fail_section_def Let_def image_iff)
qed (auto simp: fail_section_def Let_def)

lemma registry_finish:
  assumes "registry_ok ls s" and "(t, ref, err) \<in> set (ending s)"
  shows "registry_ok (ls @ [Ended t ref]) (end_section t ref err s)"
proof (rule registry_moves [OF assms(1)])
  show "x \<in> fst ` snd ` set (ending (end_section t ref err s)) \<or> sd_stopped (sessions (end_section t ref err s) x)"
    if "x \<in> fst ` snd ` set (ending s)" for x
  proof (cases "x = ref")
    case False
    from that obtain t' err' where "(t', x, err') \<in> set (ending s)" by auto
    then have "(t', x, err') \<in> set (ending (end_section t ref err s))"
      using False by (simp add: end_section_def)
    then show ?thesis by force
  qed (simp add: end_section_def)
qed (auto simp: end_section_def)

lemma registry_step:
  assumes "cdp_step V E l s s'" and "registry_ok ls s"
  shows "registry_ok (ls @ [l]) s'"
  using assms(1)
proof (cases rule: step_session_cases)
  case (take_event ref ev msg)
  obtain evs where "s' = s\<lparr>sessions := (sessions s)(ref := (sessions s ref)\<lparr>sd_events := evs\<rparr>)\<rparr>"
    using wait_sectionD(4) [OF take_event(3)] by blast
  then show ?thesis by (intro registry_moves [OF assms(2)]) (auto simp: take_event(1))
next
  case (drain ref evs)
  then have "s' = s\<lparr>sessions := (sessions s)(ref := (sessions s ref)\<lparr>sd_events := []\<rparr>)\<rparr>"
    by (simp add: drain_section_def)
  then show ?thesis by (intro registry_moves [OF assms(2)]) (auto simp: drain(1))
next
  case other
  then show ?thesis
    by (intro registry_moves [OF assms(2)]) (auto simp: same_sessions_def session_label_def)
next
  case (close ref)
  show ?thesis unfolding close by (rule registry_moves [OF assms(2)]) (auto simp: close_section_def Let_def)
next
  case (deliver ref ev)
  show ?thesis unfolding deliver by (rule registry_moves [OF assms(2)]) (auto simp: deliver_section_def Let_def)
qed (use assms(2) registry_fail registry_finish registry_open registry_unregister in metis)+

interpretation registry: cdp_invariant V E registry_ok for V E
  by unfold_locales (simp add: registry_ok_def cdp_initial_def, rule registry_step)

lemmas reached_registry = registry.holds

section \<open>Operations as runs\<close>

text \<open>
  The other tasks run any number of steps, only with local variables of their own.
\<close>

definition others :: "('u, 'z) vendor_scheme \<Rightarrow> 'j cdp_env \<Rightarrow> nat \<Rightarrow> 'j interference \<Rightarrow> bool" where
  "others V E me I \<longleftrightarrow> (\<forall>n s. \<exists>ls. cdp_run V E ls s (I n s) \<and> (\<forall>l\<in>set ls. owner l \<noteq> Some me))"

definition run_to :: "('u, 'z) vendor_scheme \<Rightarrow> 'j cdp_env \<Rightarrow> 'j cdp \<Rightarrow> 'j cdp \<Rightarrow> bool" where
  "run_to V E s s' \<longleftrightarrow> (\<exists>ls. cdp_run V E ls s s')"

lemma run_to_refl [simp, intro]: "run_to V E s s"
  unfolding run_to_def using cdp_run.nil by blast

lemma run_to_trans [trans]: "run_to V E s s1 \<Longrightarrow> run_to V E s1 s2 \<Longrightarrow> run_to V E s s2"
  unfolding run_to_def using cdp_run_append by blast

lemma run_to_step: "cdp_step V E l s s' \<Longrightarrow> run_to V E s s'"
  unfolding run_to_def using cdp_run_single by blast

lemma run_to_quiet: "same_core s s' \<Longrightarrow> run_to V E s s'"
  using run_to_step cdp_step.quiet by blast

definition mine :: "nat \<Rightarrow> (nat \<times> 'a) list \<Rightarrow> (nat \<times> 'a) multiset" where
  "mine me xs = filter_mset (\<lambda>x. fst x = me) (mset xs)"

lemma mine_remove1: "x \<in> set xs \<Longrightarrow> mine me (remove1 x xs) = mine me xs - (if fst x = me then {#x#} else {#})"
  by (simp add: mine_def)

lemma mine_append: "mine me (xs @ ys) = mine me xs + mine me ys"
  by (simp add: mine_def)

lemma mine_single: "mine me [x] = (if fst x = me then {#x#} else {#})"
  by (simp add: mine_def)

lemma mine_map: "mine me (map (\<lambda>x. (t, f x)) xs) = (if t = me then mset (map (\<lambda>x. (t, f x)) xs) else {#})"
  by (induction xs) (auto simp: mine_def)

lemma mine_in: "x \<in># mine me xs \<longleftrightarrow> x \<in> set xs \<and> fst x = me"
  by (simp add: mine_def)

text \<open>What a task has taken out is still its own after the steps of others.\<close>

lemma step_mine:
  assumes "cdp_step V E l s s'" and "owner l \<noteq> Some me"
  shows "mine me (completing s') = mine me (completing s) \<and> mine me (ending s') = mine me (ending s)"
  using assms(1)
proof (cases rule: cdp_step.cases)
  case (register m sid rid ref)
  then show ?thesis using register_sectionD(5) by fastforce
next
  case (answer v i rid t ref r q e)
  then show ?thesis using respond_sectionD(4) [OF answer(4)] assms(2) by (simp add: mine_append mine_single)
next
  case (dismiss t rid v)
  then show ?thesis using respond_dismissD by (fastforce simp: same_core_def)
next
  case (open_session i t c)
  then show ?thesis using open_sectionD(1,6) by (fastforce simp: same_commands_def)
qed (use assms(2) in \<open>auto simp: expire_section_def complete_section_def fail_section_def end_section_def
    unregister_section_def close_section_def deliver_section_def wait_section_def drain_section_def same_core_def
    mine_append mine_map mine_remove1 Let_def split: if_splits option.splits list.splits\<close>)

lemma run_mine:
  "cdp_run V E ls s s' \<Longrightarrow> (\<forall>l\<in>set ls. owner l \<noteq> Some me) \<Longrightarrow>
   mine me (completing s') = mine me (completing s) \<and> mine me (ending s') = mine me (ending s)"
  by (induction rule: cdp_run.induct) (auto dest: step_mine)

lemma enter_others:
  assumes "others V E me I"
  shows "run_to V E s (enter I s)" "mine me (completing (enter I s)) = mine me (completing s)"
    "mine me (ending (enter I s)) = mine me (ending s)"
proof -
  obtain ls where ls: "cdp_run V E ls s (I (ticks s) s)" "\<forall>l\<in>set ls. owner l \<noteq> Some me"
    using assms unfolding others_def by blast
  have "same_core (I (ticks s) s) (enter I s)" by (simp add: enter_def same_core_def)
  then show "run_to V E s (enter I s)" using ls(1) run_to_quiet run_to_trans unfolding run_to_def by metis
  show "mine me (completing (enter I s)) = mine me (completing s)" "mine me (ending (enter I s)) = mine me (ending s)"
    using run_mine [OF ls] by (simp_all add: enter_def)
qed

lemma complete_all:
  assumes "others V E me I" and "mset (map (\<lambda>ref. (me, ref, r)) ws) \<subseteq># mine me (completing s)"
  shows "run_to V E s (fold (\<lambda>ref s. complete_section me ref r (enter I s)) ws s) \<and>
    mine me (completing (fold (\<lambda>ref s. complete_section me ref r (enter I s)) ws s)) =
      mine me (completing s) - mset (map (\<lambda>ref. (me, ref, r)) ws) \<and>
    mine me (ending (fold (\<lambda>ref s. complete_section me ref r (enter I s)) ws s)) = mine me (ending s)"
  using assms(2)
proof (induction ws arbitrary: s)
  case (Cons ref ws)
  let ?e = "enter I s" and ?c = "complete_section me ref r (enter I s)"
  note E = enter_others [OF assms(1), of s]
  have mem: "(me, ref, r) \<in># mine me (completing s)" using Cons.prems by (auto dest: mset_subset_eqD)
  then have "(me, ref, r) \<in> set (completing ?e)" using E(2) mine_in by metis
  then have c: "run_to V E ?e ?c" "mine me (completing ?c) = mine me (completing s) - {#(me, ref, r)#}"
      "mine me (ending ?c) = mine me (ending s)"
    using run_to_step [OF cdp_step.complete] E(2,3) by (simp_all add: complete_section_def mine_remove1)
  have "mset (map (\<lambda>ref. (me, ref, r)) ws) \<subseteq># mine me (completing ?c)"
    using Cons.prems mem by (simp add: c(2) insert_subset_eq_iff)
  from Cons.IH [OF this] c E(1) run_to_trans show ?case by (simp add: c(2,3)) blast
qed simp

lemma end_all:
  assumes "others V E me I" and "mset (map (\<lambda>ref. (me, ref, err)) ss) \<subseteq># mine me (ending s)"
  shows "run_to V E s (fold (\<lambda>ref s. end_section me ref err (enter I s)) ss s) \<and>
    mine me (ending (fold (\<lambda>ref s. end_section me ref err (enter I s)) ss s)) =
      mine me (ending s) - mset (map (\<lambda>ref. (me, ref, err)) ss) \<and>
    mine me (completing (fold (\<lambda>ref s. end_section me ref err (enter I s)) ss s)) = mine me (completing s)"
  using assms(2)
proof (induction ss arbitrary: s)
  case (Cons ref ss)
  let ?e = "enter I s" and ?c = "end_section me ref err (enter I s)"
  note E = enter_others [OF assms(1), of s]
  have mem: "(me, ref, err) \<in># mine me (ending s)" using Cons.prems by (auto dest: mset_subset_eqD)
  then have "(me, ref, err) \<in> set (ending ?e)" using E(3) mine_in by metis
  then have c: "run_to V E ?e ?c" "mine me (ending ?c) = mine me (ending s) - {#(me, ref, err)#}"
      "mine me (completing ?c) = mine me (completing s)"
    using run_to_step [OF cdp_step.finish] E(2,3) by (simp_all add: end_section_def mine_remove1)
  have "mset (map (\<lambda>ref. (me, ref, err)) ss) \<subseteq># mine me (ending ?c)"
    using Cons.prems mem by (simp add: c(2) insert_subset_eq_iff)
  from Cons.IH [OF this] c E(1) run_to_trans show ?case by (simp add: c(2,3)) blast
qed simp

lemma SetFatalError_run:
  assumes "others V E me I"
  shows "run_to V E s (SetFatalError me I err s)"
    "mine me (completing (SetFatalError me I err s)) = mine me (completing s)"
    "mine me (ending (SetFatalError me I err s)) = mine me (ending s)"
proof -
  let ?e = "enter I s"
  let ?ws = "map snd (pending_waiters (shared ?e))" and ?ss = "map snd (sessions_by_id (shared ?e))"
  let ?f = "fail_section me err ?e"
  let ?c = "fold (\<lambda>ref s. complete_section me ref (Inl err) (enter I s)) ?ws ?f"
  note E = enter_others [OF assms, of s]
  have "run_to V E s (SetFatalError me I err s) \<and>
    mine me (completing (SetFatalError me I err s)) = mine me (completing s) \<and>
    mine me (ending (SetFatalError me I err s)) = mine me (ending s)"
  proof (cases "fatal_error (shared ?e) = None")
    case True
    have f: "run_to V E ?e ?f" using run_to_step [OF cdp_step.fail [OF True]] .
    have fc: "mine me (completing ?f) = mine me (completing s) + mset (map (\<lambda>ref. (me, ref, Inl err)) ?ws)"
        "mine me (ending ?f) = mine me (ending s) + mset (map (\<lambda>ref. (me, ref, err)) ?ss)"
      using E(2,3) by (simp_all add: fail_section_def Let_def mine_append mine_map o_def)
    have c: "run_to V E ?f ?c" "mine me (completing ?c) = mine me (completing s)"
        "mine me (ending ?c) = mine me (ending s) + mset (map (\<lambda>ref. (me, ref, err)) ?ss)"
      using complete_all [OF assms, of "Inl err" ?ws ?f] fc by simp_all
    then have "run_to V E ?c (SetFatalError me I err s) \<and>
      mine me (completing (SetFatalError me I err s)) = mine me (completing s) \<and>
      mine me (ending (SetFatalError me I err s)) = mine me (ending s)"
      using end_all [OF assms, of err ?ss ?c] True by (simp add: SetFatalError_def Let_def)
    then show ?thesis using run_to_trans [OF run_to_trans [OF run_to_trans [OF E(1) f] c(1)]] by simp
  next
    case False
    then show ?thesis using E by (auto simp: SetFatalError_def Let_def)
  qed
  then show "run_to V E s (SetFatalError me I err s)"
    "mine me (completing (SetFatalError me I err s)) = mine me (completing s)"
    "mine me (ending (SetFatalError me I err s)) = mine me (ending s)" by simp_all
qed

text \<open>The parts of an operation after a run.\<close>

lemma run_trace:
  assumes "run_to V E s s1"
  shows "run_to V E s (TraceCommand E rid m sid s1)" "run_to V E s (TraceResponse E rid q e s1)"
    "run_to V E s (TraceEvent E m sid s1)" "run_to V E s (TraceStop E d c s1)"
    "run_to V E s (TraceTransportError E op err s1)" "run_to V E s (reader_ends s1)"
    "run_to V E s (s1\<lparr>connected := False\<rparr>)" "run_to V E s (s1\<lparr>reader_valid := False\<rparr>)"
    "run_to V E s (s1\<lparr>sent_texts := ts\<rparr>)"
  by (rule run_to_trans [OF assms], rule run_to_quiet,
      (rule trace_cores | simp add: reader_ends_def same_core_def))+

lemma run_enter: "others V E me I \<Longrightarrow> run_to V E s s1 \<Longrightarrow> run_to V E s (enter I s1)"
  using enter_others(1) run_to_trans by blast

lemma run_fatal: "others V E me I \<Longrightarrow> run_to V E s s1 \<Longrightarrow> run_to V E s (SetFatalError me I err s1)"
  using SetFatalError_run(1) run_to_trans by blast

lemma run_stop_reader: "others V E me I \<Longrightarrow> run_to V E s s1 \<Longrightarrow> run_to V E s (StopReaderTask me I s1)"
  by (auto simp: StopReaderTask_def Let_def intro!: run_trace intro: run_enter run_fatal)

lemmas runs = run_trace run_enter run_fatal run_stop_reader

lemma run_stopping:
  assumes "run_to V E s s1"
  shows "run_to V E s (s1\<lparr>shared := (shared s1)\<lparr>stopping := True, client_stopped := client_stopped (shared s1) \<or> b\<rparr>\<rparr>)"
  using run_to_trans [OF assms run_to_step [OF cdp_step.stop]] .

lemma StopQuietly_run: "others V E me I \<Longrightarrow> run_to V E s (StopQuietly me I s)"
  using run_stopping [OF run_enter [OF _ run_to_refl], where b = True]
  by (auto simp: StopQuietly_def Let_def intro!: runs)

lemma run_stop_section: "run_to V E s s1 \<Longrightarrow> run_to V E s (snd (stop_section s1))"
  using run_stopping [where b = True] run_stopping [where b = False]
  by (auto simp: stop_section_def Let_def)

lemma next_do_run:
  "run_to V E s (snd r) \<Longrightarrow> (\<And>v s1. r = (Returns v, s1) \<Longrightarrow> run_to V E s (snd (k v s1))) \<Longrightarrow> run_to V E s (snd (next_do r k))"
  by (cases r) (auto simp: next_do_def split: outcome.splits)

lemma Stop_run:
  assumes "others V E me I"
  shows "run_to V E s (snd (Stop_client V E me I s))"
proof -
  obtain b s1 where s1: "stop_section (enter I s) = (b, s1)" by fastforce
  then have r1: "run_to V E s s1"
    using run_stop_section [OF run_enter [OF assms run_to_refl, of s]] by simp
  note rs = run_trace run_enter [OF assms] run_fatal [OF assms] run_stop_reader [OF assms] r1
  show ?thesis
    unfolding Stop_client_def s1 Let_def prod.case
    by (auto intro!: rs next_do_run split: if_splits io.splits)
qed

lemma run_register:
  assumes "run_to V E s s1"
  shows "run_to V E s (snd (register_section m sid s1))"
proof (cases "\<exists>rid ref s'. register_section m sid s1 = (Returns (Inr (rid, ref)), s')")
  case True
  then obtain rid ref s' where r: "register_section m sid s1 = (Returns (Inr (rid, ref)), s')" by blast
  then show ?thesis using run_to_trans [OF assms run_to_step [OF cdp_step.register [OF r]]] by simp
next
  case False
  then have "snd (register_section m sid s1) = s1"
    by (auto simp: register_section_def Let_def split: option.splits if_splits outcome.splits)
  then show ?thesis using assms by simp
qed

lemma run_expire:
  assumes "run_to V E s s1"
  shows "run_to V E s (snd (expire_section rid s1))"
proof (cases "fst (expire_section rid s1)")
  case True
  then have e: "expire_section rid s1 = (True, snd (expire_section rid s1))" by (metis prod.collapse)
  show ?thesis by (rule run_to_trans [OF assms run_to_step [OF cdp_step.expire [OF e]]])
next
  case False
  then have "snd (expire_section rid s1) = s1" by (auto simp: expire_section_def Let_def split: if_splits)
  then show ?thesis using assms by simp
qed

lemma await_response_run:
  assumes "others V E me I" and "run_to V E s s1"
  shows "run_to V E s (snd (await_response I rid ref s1))"
proof -
  note re = run_enter [OF assms(1)]
  have "run_to V E s (snd (expire_section rid (enter I (enter I s1))))" by (intro run_expire re assms(2))
  then show ?thesis
    by (cases "expire_section rid (enter I (enter I s1))") (auto simp: await_response_def Let_def intro!: re assms(2))
qed

lemma send_registered_run:
  assumes "others V E me I" and "run_to V E s s1"
  shows "run_to V E s (snd (send_registered V E me I m params sid rid ref s1))"
  using assms(2) unfolding send_registered_def Let_def
  by (auto intro!: run_trace run_enter [OF assms(1)] run_fatal [OF assms(1)] next_do_run await_response_run [OF assms(1)]
      split: option.splits io.splits)

lemma SendRaw_run:
  assumes "others V E me I"
  shows "run_to V E s (snd (SendRaw V E me I m params sid s))"
proof -
  have reg: "run_to V E s (snd (register_section m sid (enter I s)))"
    by (intro run_register run_enter [OF assms]) simp
  show ?thesis
    unfolding SendRaw_def using reg
    by (intro next_do_run [OF reg]) (auto intro: send_registered_run [OF assms] split: sum.splits)
qed

text \<open>Sessions.\<close>

lemma MakeSession_run:
  assumes "others V E me I"
  shows "run_to V E s (snd (MakeSession I i t s))"
proof (cases "open_section i t (enter I s)")
  case (Pair r s1)
  have e: "run_to V E s (enter I s)" by (intro run_enter [OF assms]) simp
  show ?thesis
  proof (cases r)
    case (Inr c)
    then show ?thesis using Pair run_to_trans [OF e run_to_step [OF cdp_step.open_session]] by (simp add: MakeSession_def)
  next
    case (Inl err)
    then have "s1 = enter I s" using Pair by (auto simp: open_section_def Let_def split: option.splits if_splits)
    then show ?thesis using e Pair by (simp add: MakeSession_def)
  qed
qed

lemma UnregisterSession_run:
  assumes "others V E me I"
  shows "run_to V E s (UnregisterSession I c s)"
proof -
  let ?u = "unregister_section c (enter I s)"
  have "run_to V E s ?u"
    by (rule run_to_trans [OF run_enter [OF assms run_to_refl] run_to_step [OF cdp_step.unregister]])
  then have "run_to V E s (enter I ?u)" by (rule run_enter [OF assms])
  from run_to_trans [OF this run_to_step [OF cdp_step.close]] show ?thesis
    by (simp add: UnregisterSession_def Let_def)
qed

lemma run_to_next_session: "run_to V E s s' \<Longrightarrow> next_session s \<le> next_session s'"
proof -
  have "cdp_run V E ls s s' \<Longrightarrow> next_session s \<le> next_session s'" for ls
    by (induction rule: cdp_run.induct) (use queues_step order_trans in blast)+
  then show "run_to V E s s' \<Longrightarrow> next_session s \<le> next_session s'" by (auto simp: run_to_def)
qed

lemma WaitForSessionEvent_run:
  assumes "others V E me I" and "ref < next_session s"
  shows "run_to V E s (snd (WaitForSessionEvent I ref msg s))"
proof -
  have e: "run_to V E s (enter I s)" by (intro run_enter [OF assms(1)]) simp
  then have b: "ref < next_session (enter I s)" using run_to_next_session assms(2) by fastforce
  show ?thesis
  proof (cases "\<exists>ev s'. wait_section ref msg (enter I s) = (Returns (Inr ev), s')")
    case True
    then show ?thesis using run_to_trans [OF e run_to_step [OF cdp_step.take_event [OF b]]]
      by (auto simp: WaitForSessionEvent_def)
  next
    case False
    then have "snd (wait_section ref msg (enter I s)) = enter I s"
      by (auto simp: wait_section_def Let_def split: option.splits if_splits list.splits)
    then show ?thesis using e by (simp add: WaitForSessionEvent_def)
  qed
qed

lemma DrainSessionEvents_run:
  assumes "others V E me I" and "ref < next_session s"
  shows "run_to V E s (snd (DrainSessionEvents I ref s))"
proof -
  have e: "run_to V E s (enter I s)" by (intro run_enter [OF assms(1)]) simp
  then have b: "ref < next_session (enter I s)" using run_to_next_session assms(2) by fastforce
  show ?thesis unfolding DrainSessionEvents_def
    by (rule run_to_trans [OF e run_to_step [OF cdp_step.drain [OF b]]]) (rule prod.collapse [symmetric])
qed

section \<open>The reader\<close>

text \<open>Indexing a JSON value throws for what is not an object, whatever the key.\<close>

definition json_regular :: "'j cdp_env \<Rightarrow> bool" where
  "json_regular E \<longleftrightarrow> (\<forall>v k k' x. json_member E v k = Returns x \<longrightarrow> (\<exists>y. json_member E v k' = Returns y))"

lemma respond_run:
  assumes "json_regular E" and "json_member E v ''id'' = Returns (Some i)" and "json_int64 E i = Returns rid"
    and "run_to V E s s1"
  shows "run_to V E s (snd (respond_section V E t rid v s1))"
proof (cases "respond_section V E t rid v s1")
  case (Pair r s2)
  obtain y where y: "json_member E v ''result'' = Returns y" using assms(1,2) by (metis json_regular_def)
  consider (answer) ref a q e where "r = Returns (Inr (Some (ref, a, q, e)))" | (dismiss) "r = Returns (Inr None)" | (same) "s2 = s1"
    using Pair y by (auto simp: respond_section_def Let_def split: option.splits if_splits outcome.splits sum.splits)
  then have "run_to V E s1 s2"
  proof cases
    case (answer ref a q e)
    then show ?thesis using Pair assms(2,3) run_to_step cdp_step.answer by metis
  next
    case dismiss
    then show ?thesis using Pair run_to_step cdp_step.dismiss by metis
  qed simp
  then show ?thesis using Pair assms(4) run_to_trans by fastforce
qed

lemma run_deliver:
  assumes "run_to V E s s1" and "ref < next_session s1"
  shows "run_to V E s (deliver_section ref ev s1)"
proof (cases "sd_stopped (sessions s1 ref) \<or> sd_error (sessions s1 ref) \<noteq> None")
  case True
  then show ?thesis using assms(1) by (simp add: deliver_section_def Let_def)
next
  case False
  then show ?thesis using run_to_trans [OF assms(1) run_to_step [OF cdp_step.deliver [OF assms(2)]]] by simp
qed

lemma reached_run_to: "reached V E ls s \<Longrightarrow> run_to V E s s' \<Longrightarrow> \<exists>ks. reached V E (ls @ ks) s'"
  by (auto simp: run_to_def intro: reached_run)

lemma route_event_value:
  assumes "route_event st i t = Some ref"
  shows "ref \<in> snd ` set (sessions_by_id st) \<or> ref \<in> snd ` set (sessions_by_target_id st)"
  using assms by (auto simp: route_event_def image_iff dest!: map_of_SomeD split: option.splits) force+

lemma HandleEvent_run:
  assumes "others V E me I" and "reached V E ls s"
  shows "run_to V E s (snd (HandleEvent V E I v s))"
proof -
  have deliver: "run_to V E s (deliver_section ref ev (enter I (enter I (TraceEvent E m sid s))))"
    if "route_event (shared (enter I (TraceEvent E m sid s))) i t = Some ref" for m sid i t ref ev
  proof -
    let ?e = "enter I (TraceEvent E m sid s)"
    have r: "run_to V E s ?e" by (intro run_enter [OF assms(1)] run_trace) simp
    have n: "run_to V E ?e (enter I ?e)" by (rule run_enter [OF assms(1) run_to_refl])
    obtain ks where "registry_ok (ls @ ks) ?e" using reached_run_to [OF assms(2) r] reached_registry by blast
    then have "ref < next_session ?e" using route_event_value [OF that] registry_okD(2,3) by blast
    then have "ref < next_session (enter I ?e)" using run_to_next_session [OF n] by simp
    then show ?thesis using run_deliver run_to_trans [OF r n] by blast
  qed
  show ?thesis
    unfolding HandleEvent_def Let_def
    by (auto intro!: next_do_run deliver run_enter [OF assms(1)] run_trace split: option.splits sum.splits)
qed

lemma HandleMessage_run:
  assumes "others V E me I" and "json_regular E" and "reached V E ls s"
  shows "run_to V E s (snd (HandleMessage V E me I payload s))"
proof -
  have e: "run_to V E s (enter I s)" by (intro run_enter [OF assms(1)]) simp
  have complete: "run_to V E s (complete_section me ref a (enter I (TraceResponse E rid q' e' s1)))"
    if "respond_section V E me rid v (enter I s) = (Returns (Inr (Some (ref, a, q, e))), s1)"
      "json_member E v ''id'' = Returns (Some i)" "json_int64 E i = Returns rid" for rid v ref a q e s1 i q' e'
  proof -
    let ?t = "TraceResponse E rid q' e' s1"
    have r: "run_to V E s (enter I ?t)"
      using respond_run [OF assms(2) that(2,3) e, of me] that(1) by (intro run_enter [OF assms(1)] run_trace) simp
    have "(me, ref, a) \<in># mine me (completing s1)" using respond_sectionD(4) [OF that(1)] by (simp add: mine_in)
    moreover have "completing ?t = completing s1" using trace_cores(2) by (metis same_core_def)
    ultimately have "(me, ref, a) \<in> set (completing (enter I ?t))"
      using enter_others(2) [OF assms(1)] mine_in by metis
    from run_to_trans [OF r run_to_step [OF cdp_step.complete [OF this]]] show ?thesis .
  qed
  have respond: "run_to V E s (snd (next_do (respond_section V E me rid v (enter I s)) (\<lambda>r s.
      case r of Inl err \<Rightarrow> (Returns (Inl err), s) | Inr None \<Rightarrow> (Returns (Inr ()), s)
      | Inr (Some (ref, reply, request, error_message)) \<Rightarrow>
          (Returns (Inr ()), complete_section me ref reply (enter I (TraceResponse E rid (Some request) error_message s))))))"
    if m: "json_member E v ''id'' = Returns (Some i)" "json_int64 E i = Returns rid" for v i rid
    using respond_run [OF assms(2) m e, of me]
    by (intro next_do_run) (auto intro: complete [OF _ m] split: sum.splits option.splits)
  show ?thesis
    unfolding HandleMessage_def Let_def
    by (auto intro!: next_do_run respond HandleEvent_run [OF assms(1,3)] split: option.splits sum.splits)
qed

lemma ReaderLoop_run:
  assumes "others V E me I" and "json_regular E" and "reached V E ls s"
  shows "run_to V E s (snd (ReaderLoop V E me I rs s))"
  using assms(3)
proof (induction rs arbitrary: ls s)
  case (Cons r rs)
  show ?case
  proof (cases r)
    case (RecvText payload)
    obtain x s1 where h: "HandleMessage V E me I payload s = (x, s1)" by fastforce
    then have r1: "run_to V E s s1" using HandleMessage_run [OF assms(1,2) Cons.prems, of payload] by simp
    then obtain ks where "reached V E (ls @ ks) s1" using reached_run_to [OF Cons.prems] by blast
    then have "run_to V E s1 (snd (ReaderLoop V E me I rs s1))" by (rule Cons.IH)
    note IH = run_to_trans [OF r1 this]
    show ?thesis
    proof (cases "x = Returns (Inr ())")
      case True
      show ?thesis using IH unfolding RecvText ReaderLoop.simps(4) h True by simp
    next
      case False
      then have "\<exists>err. snd (ReaderLoop V E me I (r # rs) s) \<in> {s1, reader_ends s1, reader_ends (SetFatalError me I err s1)}"
        by (auto simp: RecvText h split: outcome.splits sum.splits)
      then show ?thesis using r1 run_trace(6) [OF r1] run_trace(6) [OF run_fatal [OF assms(1) r1]] by (elim exE insertE) auto
    qed
  qed (auto simp: Let_def intro!: run_trace run_fatal [OF assms(1)] next_do_run)
qed simp

section \<open>Answers\<close>

lemma waiter_answer_reply: "waiter_answer (answered_with r) = Returns r"
  by (simp add: waiter_answer_def answered_with_def split: sum.splits)

lemma waiter_answered:
  assumes "reached V E ls s" and "Registered rid ref \<in> set ls" and "waiter_answer (waiters s ref) = Returns (Inr result)"
  shows "\<exists>t v. Answered t rid v ref (Inr result) \<in> set ls \<and> message_answers V E rid v (Inr result)"
proof -
  note H = history_okD [OF reached_history [OF assms(1)]]
  have "w_done (waiters s ref)" using assms(3) by (auto simp: waiter_answer_def split: if_splits)
  then obtain r where r: "reply_source ls ref r" "waiters s ref = answered_with r"
    using H(2,9) assms(2) by blast
  then have "r = Inr result" using assms(3) by (simp add: waiter_answer_reply)
  with r(1) obtain t k v where a: "Answered t k v ref (Inr result) \<in> set ls" by (auto simp: reply_source_def)
  then have "k = rid" using H(4,6) assms(2) by blast
  then show ?thesis using a H(7) by blast
qed

lemma await_response_answer:
  assumes "others V E me I" and "run_to V E s s1" and "await_response I rid ref s1 = (Returns (Inr result), s')"
  shows "waiter_answer (waiters s' ref) = Returns (Inr result) \<and> run_to V E s s'"
  using await_response_run [OF assms(1,2), of rid ref] assms(3)
  by (auto simp: await_response_def Let_def split: if_splits prod.splits)

theorem SendRaw_answer:
  assumes "others V E me I" and "reached V E ls s"
    and "SendRaw V E me I m params sid s = (Returns (Inr result), s')"
  shows "\<exists>ks rid ref t v n bytes. reached V E (ls @ ks) s' \<and>
    Registered rid ref \<in> set ks \<and> Registered rid ref \<notin> set ls \<and>
    stringify_command E \<lparr>cmd_id = rid, cmd_method = m, cmd_params = params, cmd_session_id = sid\<rparr> = Some bytes \<and>
    send_text E n bytes = IoOk () \<and>
    Answered t rid v ref (Inr result) \<in> set ks \<and> message_answers V E rid v (Inr result)"
proof -
  obtain x s1 where reg: "register_section m sid (enter I s) = (x, s1)" by fastforce
  then obtain rid ref where x: "x = Returns (Inr (rid, ref))"
      and snd: "send_registered V E me I m params sid rid ref s1 = (Returns (Inr result), s')"
    using assms(3) by (auto simp: SendRaw_def next_do_def split: outcome.splits sum.splits)
  obtain js where js: "reached V E (ls @ js) (enter I s)"
    using reached_run_to [OF assms(2) run_enter [OF assms(1) run_to_refl]] by blast
  have "reached V E ((ls @ js) @ [Registered rid ref]) s1"
    using reached_step [OF js cdp_step.register] reg x by blast
  moreover obtain n bytes s2 where
      b: "stringify_command E \<lparr>cmd_id = rid, cmd_method = m, cmd_params = params, cmd_session_id = sid\<rparr> = Some bytes"
        "send_text E n bytes = IoOk ()" "run_to V E s1 s2"
        "await_response I rid ref s2 = (Returns (Inr result), s')"
  proof -
    let ?e = "enter I (TraceCommand E rid m sid s1)"
    have "run_to V E s1 (?e\<lparr>sent_texts := ts\<rparr>)" for ts by (intro run_trace run_enter [OF assms(1)]) simp
    with snd that show ?thesis
      by (auto simp: send_registered_def Let_def next_do_def split: option.splits io.splits if_splits outcome.splits)
  qed
  ultimately obtain ks where ks: "reached V E ((ls @ js @ [Registered rid ref]) @ ks) s'"
      and w: "waiter_answer (waiters s' ref) = Returns (Inr result)"
    using await_response_answer [OF assms(1) b(3,4)] reached_run_to by fastforce
  obtain t v where a: "Answered t rid v ref (Inr result) \<in> set ((ls @ js @ [Registered rid ref]) @ ks)"
      "message_answers V E rid v (Inr result)"
    using waiter_answered [OF ks, of rid, OF _ w] by auto
  have "\<not> Registered rid ref \<in> set (ls @ js)"
    using history_okD(2) [OF reached_history [OF js]] register_sectionD(2) reg x by blast
  moreover from this have "Answered t rid v ref (Inr result) \<notin> set (ls @ js)"
    using history_okD(6) [OF reached_history [OF js]] by blast
  ultimately show ?thesis using ks a b(1,2) 
    by (intro exI [of _ "js @ [Registered rid ref] @ ks"] exI [of _ rid] exI [of _ ref] exI [of _ t] exI [of _ v]
        exI [of _ n] exI [of _ bytes]) auto
qed

section \<open>The client's own checks\<close>

lemma register_returns:
  assumes "cdp_ok s"
  shows "\<exists>r. fst (register_section m sid s) = Returns r"
proof -
  have "map_of (pending_requests (shared s)) (next_request_id (shared s)) = None"
    using cdp_okD(4) [OF assms, of "next_request_id (shared s)"] by (auto simp: map_of_None_fst)
  then show ?thesis
    by (simp add: register_section_def Let_def InsertPending_def tracker_Insert_def Invariant_def split: option.splits)
qed

lemma waiter_answer_returns:
  assumes "cdp_ok s" and "ref < next_waiter s"
  shows "\<exists>r. waiter_answer (waiters s ref) = Returns r"
  using cdp_okD(8) [OF assms(1,2)]
  by (auto simp: waiter_answer_def answered_waiter_def split: option.splits)

lemma run_to_ok: "cdp_ok s \<Longrightarrow> run_to V E s s' \<Longrightarrow> cdp_ok s'"
  by (auto simp: run_to_def intro: run_ok)

lemma step_next_waiter:
  assumes "cdp_step V E l s s'" and "cdp_ok s"
  shows "next_waiter s \<le> next_waiter s'"
  using assms
proof (cases rule: step_command_cases)
  case (register rid ref m sid)
  then show ?thesis using register_sectionD(2,5) [OF register(2)] by simp
next
  case (answer t rid v ref r q e)
  then show ?thesis using respond_sectionD(4) [OF answer(3)] by simp
qed (auto simp: expire_section_def complete_section_def fail_section_def same_waiting_def Let_def split: if_splits)

lemma run_to_next_waiter:
  assumes "run_to V E s s'" and "cdp_ok s"
  shows "next_waiter s \<le> next_waiter s'"
proof -
  have "cdp_run V E ls s s' \<Longrightarrow> cdp_ok s \<Longrightarrow> next_waiter s \<le> next_waiter s'" for ls
    by (induction rule: cdp_run.induct) (auto dest: step_next_waiter run_ok order_trans)
  then show ?thesis using assms by (auto simp: run_to_def)
qed

lemma await_response_returns:
  assumes "others V E me I" and "cdp_ok s" and "ref < next_waiter s"
  shows "\<exists>r. fst (await_response I rid ref s) = Returns r"
proof -
  have keep: "run_to V E s s1 \<Longrightarrow> \<exists>r. waiter_answer (waiters s1 ref) = Returns r" for s1
    using waiter_answer_returns run_to_ok assms(2,3) run_to_next_waiter [of V E s s1] by (meson order_less_le_trans)
  note re = run_enter [OF assms(1)]
  have e: "run_to V E s (snd (expire_section rid (enter I (enter I s))))" by (intro run_expire re) simp
  have "run_to V E s (enter I s)" "run_to V E s (enter I (snd (expire_section rid (enter I (enter I s)))))"
    using e by (intro re; simp)+
  then show ?thesis using keep
    by (auto simp: await_response_def Let_def split: prod.splits)
qed

text \<open>The messages of the websocket's exceptions are texts.\<close>

definition send_failures_text :: "('u, 'z) vendor_scheme \<Rightarrow> 'j cdp_env \<Rightarrow> bool" where
  "send_failures_text V E \<longleftrightarrow>
     (\<forall>n b what c. send_text E n b = IoFailed what c \<longrightarrow> (\<exists>t. deref_text V what = Returns t))"

lemma SendRaw_aborts:
  assumes "others V E me I" and "cdp_ok s" and "fst (SendRaw V E me I m params sid s) = Aborts why"
  shows "\<exists>n b what c. send_text E n b = IoFailed what c \<and> deref_text V what = Aborts why"
proof -
  let ?e = "enter I s"
  have e: "run_to V E s ?e" by (intro run_enter [OF assms(1)]) simp
  have "\<exists>r. fst (register_section m sid ?e) = Returns r" using register_returns run_to_ok assms(2) e by blast
  then obtain r s1 where r: "register_section m sid ?e = (Returns r, s1)" by (metis prod.collapse)
  show ?thesis
  proof (cases r)
    case (Inl err)
    then show ?thesis using assms(3) by (simp add: SendRaw_def next_do_def r)
  next
    case (Inr x)
    obtain rid ref where x: "x = (rid, ref)" by (cases x)
    note r = r [unfolded Inr x]
    have r1: "run_to V E s s1" using run_register [OF e, of m sid] r by simp
    have ref: "ref < next_waiter s1" using register_sectionD(2,5) [OF r] by simp
    let ?t = "\<lambda>ts. (enter I (TraceCommand E rid m sid s1))\<lparr>sent_texts := ts\<rparr>"
    have t1: "run_to V E s1 (?t ts)" for ts by (intro run_trace run_enter [OF assms(1)]) simp
    then have t: "cdp_ok (?t ts)" "ref < next_waiter (?t ts)" for ts
      using run_to_ok [OF run_to_ok [OF assms(2) r1]] ref run_to_next_waiter [OF t1 run_to_ok [OF assms(2) r1]]
        order_less_le_trans by blast+
    have "fst (await_response I rid ref (?t ts)) \<noteq> Aborts why" for ts
      using await_response_returns [OF assms(1) t, of rid ts] by auto
    moreover have "fst (send_registered V E me I m params sid rid ref s1) = Aborts why"
      using assms(3) by (simp add: SendRaw_def next_do_def r)
    ultimately show ?thesis
      by (auto simp: next_do_def send_registered_def Let_def split: option.splits io.splits outcome.splits if_splits)
  qed
qed

lemma SendRaw_never_aborts:
  assumes "others V E me I" and "cdp_ok s" and "send_failures_text V E"
  shows "fst (SendRaw V E me I m params sid s) \<noteq> Aborts why"
  using SendRaw_aborts [OF assms(1,2)] assms(3) unfolding send_failures_text_def by fastforce

lemma WaitForSessionEvent_returns: "\<exists>r. fst (WaitForSessionEvent I ref msg s) = Returns r"
  by (auto simp: WaitForSessionEvent_def wait_section_def Let_def split: option.splits list.splits)

text \<open>An answer to a command that waits for one is never reported as missing its waiter.\<close>

lemma respond_error:
  assumes "cdp_ok s" and "respond_section V E me rid v s = (Returns (Inl err), s')"
  shows "map_of (pending_requests (shared s)) rid = None \<or> error_text V E v = Returns (Inl err)"
proof (rule ccontr)
  assume a: "\<not> ?thesis"
  then obtain q where q: "map_of (pending_requests (shared s)) rid = Some q" by auto
  have "\<exists>ref. map_of (pending_waiters (shared s)) rid = Some ref" if "\<not> pr_ignore_response q"
  proof -
    have "rid \<in> expected_answers (shared s)" using q that by (simp add: expected_answers_def)
    then have "rid \<in> fst ` set (pending_waiters (shared s))" unfolding cdp_okD(3) [OF assms(1)] .
    then show ?thesis using map_of_None_fst [of "pending_waiters (shared s)" rid] by auto
  qed
  moreover have "error_text V E v \<noteq> Returns (Inl err)" using a by simp
  ultimately show False using assms(2) q
    by (cases "error_text V E v"; cases "pr_ignore_response q")
      (auto simp: respond_section_def Let_def tracker_Find_def split: sum.splits outcome.splits)
qed

section \<open>Fatal errors\<close>

lemma step_fatal:
  assumes "cdp_step V E l s s'" and "fatal_error (shared s) = Some err"
  shows "fatal_error (shared s') = Some err"
  using assms(1)
proof (cases rule: cdp_step.cases)
  case (register m sid rid ref)
  then show ?thesis using register_sectionD(3) assms(2) by fastforce
next
  case (answer v i rid t ref r q e)
  then show ?thesis using respond_sectionD(4) [OF answer(4)] assms(2) by simp
next
  case (dismiss t rid v)
  then show ?thesis using respond_dismissD assms(2) by (fastforce simp: same_core_def)
next
  case (open_session i t c)
  then show ?thesis using open_sectionD(2) assms(2) by fastforce
next
  case (take_event ref msg ev)
  then show ?thesis using session_maps(4) assms(2) by fastforce
next
  case (drain ref evs)
  then show ?thesis using session_maps(5) assms(2) by fastforce
qed (use assms(2) in \<open>auto simp: expire_section_def complete_section_def unregister_section_def session_maps
    same_core_def Let_def split: if_splits\<close>)

lemma run_to_fatal: "run_to V E s s' \<Longrightarrow> fatal_error (shared s) = Some err \<Longrightarrow> fatal_error (shared s') = Some err"
proof -
  have "cdp_run V E ls s s' \<Longrightarrow> fatal_error (shared s) = Some err \<Longrightarrow> fatal_error (shared s') = Some err" for ls
    by (induction rule: cdp_run.induct) (auto dest: step_fatal)
  then show "run_to V E s s' \<Longrightarrow> fatal_error (shared s) = Some err \<Longrightarrow> fatal_error (shared s') = Some err"
    by (auto simp: run_to_def)
qed

lemma SetFatalError_fatal:
  assumes "others V E me I"
  shows "fatal_error (shared (SetFatalError me I err s)) \<noteq> None"
proof (cases "fatal_error (shared (enter I s))")
  case None
  let ?e = "enter I s"
  let ?f = "fail_section me err ?e"
  let ?c = "fold (\<lambda>ref s. complete_section me ref (Inl err) (enter I s)) (map snd (pending_waiters (shared ?e))) ?f"
  have ff: "fatal_error (shared ?f) = Some err" by (simp add: fail_section_def Let_def)
  have keep: "fatal_error (shared s1) = Some err \<Longrightarrow> fatal_error (shared (enter I s1)) = Some err" for s1
    using run_to_fatal run_enter [OF assms run_to_refl] by blast
  have c: "fatal_error (shared s1) = Some err \<Longrightarrow>
      fatal_error (shared (fold (\<lambda>ref s. complete_section me ref (Inl err) (enter I s)) ws s1)) = Some err" for ws s1
    by (induction ws arbitrary: s1) (simp_all add: complete_section_def keep)
  have d: "fatal_error (shared s1) = Some err \<Longrightarrow>
      fatal_error (shared (fold (\<lambda>ref s. end_section me ref err (enter I s)) ss s1)) = Some err" for ss s1
    by (induction ss arbitrary: s1) (simp_all add: end_section_def keep)
  show ?thesis using d [OF c [OF ff]] None by (simp add: SetFatalError_def Let_def)
qed (simp add: SetFatalError_def Let_def)

lemma taken_iff: "ref \<in> fst ` snd ` set xs \<longleftrightarrow> (\<exists>t r. (t, ref, r) \<in> set xs)"
  by force

lemma fatal_reaches_commands:
  assumes "reached V E ls s" and "fatal_error (shared s) \<noteq> None" and "Registered rid ref \<in> set ls"
  shows "answered_waiter (waiters s ref) \<or> Expired rid \<in> set ls \<or> ref \<in> fst ` snd ` set (completing s)"
proof -
  note H = history_okD [OF reached_history [OF assms(1)]] and ok = cdp_okD [OF reached_ok [OF assms(1)]]
  have "pending_waiters (shared s) = []" using ok(9) assms(2) by blast
  then show ?thesis
    using H(10) [OF assms(3)] ok(8) [OF H(2) [OF assms(3)]] by (auto simp: in_flight_def image_iff)
qed

lemma fatal_reaches_sessions:
  assumes "reached V E ls s" and "fatal_error (shared s) \<noteq> None" and "Opened ref True \<in> set ls"
  shows "(sd_stopped (sessions s ref) \<and> sd_error (sessions s ref) \<noteq> None) \<or> Unregistered ref \<in> set ls \<or>
    ref \<in> fst ` snd ` set (ending s)"
proof -
  note R = registry_okD [OF reached_registry [OF assms(1)]]
  have "sessions_by_id (shared s) = []" using cdp_okD(9) [OF reached_ok [OF assms(1)] assms(2)] by blast
  then show ?thesis using R(5) [OF assms(3)] R(6) [OF R(4) [OF assms(3)]] by auto
qed

section \<open>Events in order\<close>

lemma WaitForSessionEvent_order:
  assumes "others V E me I" and "reached V E ls s" and "ref < next_session s"
    and "WaitForSessionEvent I ref msg s = (Returns (Inr ev), s')"
  shows "\<exists>ks. reached V E (ls @ ks @ [Took ref ev]) s' \<and>
    delivered ref (ls @ ks) = consumed ref (ls @ ks) @ ev # sd_events (sessions s' ref)"
proof -
  have e: "run_to V E s (enter I s)" by (intro run_enter [OF assms(1)]) simp
  obtain ks where ks: "reached V E (ls @ ks) (enter I s)" using reached_run_to [OF assms(2) e] by blast
  have w: "wait_section ref msg (enter I s) = (Returns (Inr ev), s')" using assms(4) by (simp add: WaitForSessionEvent_def)
  have n: "ref < next_session (enter I s)" using run_to_next_session [OF e] assms(3) by simp
  have "reached V E ((ls @ ks) @ [Took ref ev]) s'" by (rule reached_step [OF ks cdp_step.take_event [OF n w]])
  moreover have "delivered ref (ls @ ks) = consumed ref (ls @ ks) @ sd_events (sessions (enter I s) ref)"
    using reached_queues [OF ks] n by (simp add: queues_ok_def)
  ultimately show ?thesis using wait_sectionD(3) [OF w] by (intro exI [of _ ks]) simp
qed

lemma DrainSessionEvents_order:
  assumes "others V E me I" and "reached V E ls s" and "ref < next_session s"
    and "DrainSessionEvents I ref s = (evs, s')"
  shows "\<exists>ks. reached V E (ls @ ks @ [Drained ref evs]) s' \<and>
    delivered ref (ls @ ks) = consumed ref (ls @ ks) @ evs \<and> sd_events (sessions s' ref) = []"
proof -
  have e: "run_to V E s (enter I s)" by (intro run_enter [OF assms(1)]) simp
  obtain ks where ks: "reached V E (ls @ ks) (enter I s)" using reached_run_to [OF assms(2) e] by blast
  have w: "drain_section ref (enter I s) = (evs, s')" using assms(4) by (simp add: DrainSessionEvents_def)
  have n: "ref < next_session (enter I s)" using run_to_next_session [OF e] assms(3) by simp
  have "reached V E ((ls @ ks) @ [Drained ref evs]) s'" by (rule reached_step [OF ks cdp_step.drain [OF n w]])
  moreover have "delivered ref (ls @ ks) = consumed ref (ls @ ks) @ sd_events (sessions (enter I s) ref)"
    using reached_queues [OF ks] n by (simp add: queues_ok_def)
  ultimately show ?thesis using w by (intro exI [of _ ks]) (auto simp: drain_section_def)
qed

end
