(* ===== verification/Cdp_Handshake.thy ===== *)
theory Cdp_Handshake
  imports Cdp_Client Egress_Request
begin

text \<open>
  \<open>crawler/cdp_client.cpp\<close>: opening the websocket of the browser, the handshake of RFC 6455, and the
  client it gives.
\<close>

section \<open>The socket\<close>

text \<open>
  What the socket holds for the reader: bytes and failures (with whether the task was cancelled); at
  the end of the list the other side has closed it.
\<close>

datatype sock_item = SByte char | SFailed string bool

definition ReadHandshakeByte ::
    "sock_item list \<Rightarrow> (CdpError + char option) outcome \<times> sock_item list" where
  "ReadHandshakeByte sock =
     (case sock of
        [] \<Rightarrow> (Returns (Inr None), [])
      | SByte ch # rest \<Rightarrow> (Returns (Inr (Some ch)), rest)
      | SFailed what cancelled # rest \<Rightarrow>
          (if cancelled then Throws what else Returns (Inl (plain_error kTransport)), rest))"

lemma ReadHandshakeByte_shorter:
  "ReadHandshakeByte sock = (Returns (Inr (Some ch)), rest) \<Longrightarrow> sock = SByte ch # rest"
  by (auto simp: ReadHandshakeByte_def split: list.splits sock_item.splits if_splits)

definition kMaxHandshakeResponseBytes :: int where
  "kMaxHandshakeResponseBytes = 16 * 1024"

definition kWebsocketGuid :: string where
  "kWebsocketGuid = ''258EAFA5-E914-47DA-95CA-C5AB0DC85B11''"

definition contains_str :: "string \<Rightarrow> string \<Rightarrow> bool" where
  "contains_str s pat \<longleftrightarrow> find_str pat s 0 \<noteq> None"

text \<open>The loop of \<open>ReadHandshakeResponse\<close>.\<close>

function read_handshake ::
    "string \<Rightarrow> sock_item list \<Rightarrow> (CdpError + string) outcome \<times> sock_item list" where
  "read_handshake response sock =
     (if contains_str response (crlf @ crlf) then (Returns (Inr response), sock)
      else if int (length response) \<ge> kMaxHandshakeResponseBytes
      then (Returns (Inl (plain_error kHandshakeResponseTooLarge)), sock)
      else case ReadHandshakeByte sock of
        (Returns (Inr (Some ch)), rest) \<Rightarrow> read_handshake (response @ [ch]) rest
      | (Returns (Inr None), rest) \<Rightarrow> (Returns (Inl (plain_error kHandshakeUnexpectedEof)), rest)
      | (Returns (Inl err), rest) \<Rightarrow> (Returns (Inl err), rest)
      | (Throws why, rest) \<Rightarrow> (Throws why, rest)
      | (Aborts why, rest) \<Rightarrow> (Aborts why, rest))"
  by pat_completeness auto
termination
  by (relation "measure (\<lambda>(response, sock). length sock)") (auto dest: sym [THEN ReadHandshakeByte_shorter])

declare read_handshake.simps [simp del]

definition ReadHandshakeResponse :: "sock_item list \<Rightarrow> (CdpError + string) outcome \<times> sock_item list" where
  "ReadHandshakeResponse sock = read_handshake [] sock"

section \<open>The response\<close>

definition ICaseEqual :: "('u, 'z) vendor_scheme \<Rightarrow> string \<Rightarrow> string \<Rightarrow> bool" where
  "ICaseEqual V lhs rhs \<longleftrightarrow> length lhs = length rhs \<and> ICaseStartsWith V lhs rhs"

function ContainsHeaderToken :: "('u, 'z) vendor_scheme \<Rightarrow> string \<Rightarrow> string \<Rightarrow> bool" where
  "ContainsHeaderToken V remaining token =
     (case find_char CHR '','' remaining 0 of
        None \<Rightarrow> ICaseEqual V (TrimView V remaining) token
      | Some comma_pos \<Rightarrow>
          if ICaseEqual V (TrimView V (substr remaining 0 comma_pos)) token then True
          else ContainsHeaderToken V (drop (comma_pos + 1) remaining) token)"
  by pat_completeness auto
termination
  by (relation "measure (\<lambda>(V, remaining, token). length remaining)") (auto dest: find_char_bounds)

declare ContainsHeaderToken.simps [simp del]

text \<open>The loop of \<open>ParseHandshakeHeaders\<close>; \<open>emplace\<close> keeps the first header of a name.\<close>

definition add_header ::
    "('u, 'z) vendor_scheme \<Rightarrow> string \<Rightarrow> (string \<times> string) list \<Rightarrow> (string \<times> string) list" where
  "add_header V line headers =
     (case find_char CHR '':'' line 0 of
        None \<Rightarrow> headers
      | Some colon_pos \<Rightarrow>
          map_emplace (AsciiStrToLower V (substr line 0 colon_pos)) (TrimView V (substr_from line (colon_pos + 1))) headers)"

function parse_handshake_lines ::
    "('u, 'z) vendor_scheme \<Rightarrow> string \<Rightarrow> (string \<times> string) list \<Rightarrow> (string \<times> string) list" where
  "parse_handshake_lines V remaining headers =
     (if remaining = [] then headers
      else case find_str crlf remaining 0 of
        None \<Rightarrow> add_header V remaining headers
      | Some line_end \<Rightarrow>
          let line = substr remaining 0 line_end
          in if line = [] then headers
             else parse_handshake_lines V (drop (line_end + 2) remaining) (add_header V line headers))"
  by pat_completeness auto
termination
  by (relation "measure (\<lambda>(V, remaining, headers). length remaining)") auto

declare parse_handshake_lines.simps [simp del]

definition ParseHandshakeHeaders :: "('u, 'z) vendor_scheme \<Rightarrow> string \<Rightarrow> (string \<times> string) list" where
  "ParseHandshakeHeaders V headers_block = parse_handshake_lines V headers_block []"

record HandshakeResponse =
  status_line :: string
  hs_headers :: "(string \<times> string) list"
  raw_headers :: string

text \<open>The length of the header block is a \<open>size_t\<close>: without headers it wraps around.\<close>

definition ParseHandshakeResponse ::
    "('u, 'z) vendor_scheme \<Rightarrow> string \<Rightarrow> CdpError + HandshakeResponse" where
  "ParseHandshakeResponse V response =
     (case find_str (crlf @ crlf) response 0 of
        None \<Rightarrow> Inl (plain_error kHandshakeMalformedResponse)
      | Some headers_end \<Rightarrow>
          (case find_str crlf response 0 of
             None \<Rightarrow> Inl (plain_error kHandshakeMalformedResponse)
           | Some status_line_end \<Rightarrow>
               Inr \<lparr>status_line = substr response 0 status_line_end,
                 hs_headers = ParseHandshakeHeaders V (substr response (status_line_end + 2)
                   (nat ((int headers_end - (int status_line_end + 2)) mod 2 ^ 64))),
                 raw_headers = substr response 0 (headers_end + 4)\<rparr>))"

text \<open>The hash and the encoding are those of the framework.\<close>

record cdp_crypto =
  Sha1 :: "string list \<Rightarrow> string"
  Base64Encode :: "string \<Rightarrow> string"

definition expected_accept :: "cdp_crypto \<Rightarrow> string \<Rightarrow> string" where
  "expected_accept C sec_websocket_key = Base64Encode C (Sha1 C [sec_websocket_key, kWebsocketGuid])"

definition ValidateHandshakeResponse ::
    "('u, 'z) vendor_scheme \<Rightarrow> cdp_crypto \<Rightarrow> HandshakeResponse \<Rightarrow> string \<Rightarrow> CdpError + unit" where
  "ValidateHandshakeResponse V C response sec_websocket_key =
     (if \<not> prefix ''HTTP/1.1 101 '' (status_line response) \<and> status_line response \<noteq> ''HTTP/1.1 101''
      then Inl (plain_error kHandshakeRejected)
      else case map_of (hs_headers response) ''upgrade'' of
        None \<Rightarrow> Inl (plain_error kHandshakeMissingHeader)
      | Some upgrade \<Rightarrow>
          if \<not> ICaseEqual V upgrade ''websocket'' then Inl (plain_error kHandshakeMissingHeader)
          else case map_of (hs_headers response) ''connection'' of
            None \<Rightarrow> Inl (plain_error kHandshakeMissingHeader)
          | Some connection \<Rightarrow>
              if \<not> ContainsHeaderToken V connection ''upgrade'' then Inl (plain_error kHandshakeMissingHeader)
              else case map_of (hs_headers response) ''sec-websocket-accept'' of
                None \<Rightarrow> Inl (plain_error kHandshakeMissingHeader)
              | Some accept \<Rightarrow>
                  if accept \<noteq> expected_accept C sec_websocket_key then Inl (plain_error kHandshakeRejected)
                  else Inr ())"

section \<open>Connecting\<close>

text \<open>
  The file, the socket and the websocket, whose calls fail with a message and whether the task was
  cancelled; \<open>payload_limit\<close> is the largest payload size the framework's configuration can hold.
\<close>

record connect_env =
  open_trace_ok :: bool
  connect_socket :: "string \<Rightarrow> Deadline \<Rightarrow> unit io"
  random_block :: string
  send_all :: "string \<Rightarrow> unit io"
  socket_input :: "string \<Rightarrow> sock_item list"
  payload_limit :: int
  make_connection :: "int \<Rightarrow> sock_item list \<Rightarrow> unit io"
  connect_now :: int

definition io_step :: "CdpErrorCode \<Rightarrow> unit io \<Rightarrow> (CdpError + unit) outcome" where
  "io_step code r =
     (case r of
        IoOk _ \<Rightarrow> Returns (Inr ())
      | IoFailed what cancelled \<Rightarrow> if cancelled then Throws what else Returns (Inl (plain_error code)))"

definition OpenTraceFile :: "connect_env \<Rightarrow> CdpError + unit" where
  "OpenTraceFile N = (if open_trace_ok N then Inr () else Inl (plain_error kTraceFileOpenFailed))"

definition ConnectCdpSocket :: "connect_env \<Rightarrow> string \<Rightarrow> Deadline \<Rightarrow> (CdpError + unit) outcome" where
  "ConnectCdpSocket N address deadline = io_step kSocketConnectFailed (connect_socket N address deadline)"

definition SendHandshakeRequest :: "connect_env \<Rightarrow> string \<Rightarrow> (CdpError + unit) outcome" where
  "SendHandshakeRequest N request = io_step kTransport (send_all N request)"

definition MakeCdpWebSocketConnection :: "connect_env \<Rightarrow> sock_item list \<Rightarrow> int \<Rightarrow> (CdpError + unit) outcome" where
  "MakeCdpWebSocketConnection N sock max_remote_payload_bytes =
     (if max_remote_payload_bytes < 0 then Aborts ''safe integer error: negative to unsigned''
      else if max_remote_payload_bytes > payload_limit N then Aborts ''safe integer error: narrowing overflow''
      else io_step kTransport (make_connection N max_remote_payload_bytes sock))"

definition request_path :: "string \<Rightarrow> string" where
  "request_path websocket_path =
     (if websocket_path = [] then ''/''
      else if hd websocket_path = CHR ''/'' then websocket_path else ''/'' @ websocket_path)"

definition handshake_request :: "string \<Rightarrow> string \<Rightarrow> string" where
  "handshake_request target sec_websocket_key =
     ''GET '' @ target @ '' HTTP/1.1'' @ crlf @ ''Host: localhost'' @ crlf @ ''Connection: Upgrade'' @ crlf @
     ''Upgrade: websocket'' @ crlf @ ''Sec-WebSocket-Version: 13'' @ crlf @ ''Sec-WebSocket-Key: '' @
     sec_websocket_key @ crlf @ crlf"

text \<open>The constructor of the client and \<open>StartReaderTask\<close>; the numbers of the trace start again.\<close>

definition new_client :: "'j cdp" where
  "new_client = \<lparr>shared = \<lparr>pending_waiters = [], sessions_by_id = [], sessions_by_target_id = [],
        pending_requests = [], next_request_id = 1, fatal_error = None, stopping = False, client_stopped = False\<rparr>,
      waiters = (\<lambda>_. \<lparr>w_result = None, w_error = None, w_done = False\<rparr>),
      sessions = (\<lambda>_. \<lparr>sd_events = [], sd_error = None, sd_stopped = False\<rparr>),
      next_waiter = 0, next_session = 0, completing = [], ending = [], reader_alive = False, reader_valid = False,
      connected = True, sent_texts = [], trace_lines = [], ticks = 0\<rparr>"

definition StartReaderTask :: "'j cdp \<Rightarrow> 'j cdp" where
  "StartReaderTask s = s\<lparr>reader_alive := True, reader_valid := True\<rparr>"

definition try_io :: "('e + 'a) outcome \<Rightarrow> ('a \<Rightarrow> ('e + 'b) outcome) \<Rightarrow> ('e + 'b) outcome" where
  "try_io r k = and_then r (\<lambda>x. case x of Inl err \<Rightarrow> Returns (Inl err) | Inr v \<Rightarrow> k v)"

lemma try_io_iff:
  "try_io r k = Returns (Inr v) \<longleftrightarrow> (\<exists>x. r = Returns (Inr x) \<and> k x = Returns (Inr v))"
  unfolding try_io_def and_then_Returns_iff by (auto split: sum.split_asm)

text \<open>\<open>Connect\<close>; \<open>handshake_timeout\<close> is in milliseconds.\<close>

definition Connect ::
    "('u, 'z) vendor_scheme \<Rightarrow> cdp_crypto \<Rightarrow> connect_env \<Rightarrow> string \<Rightarrow> string \<Rightarrow> string \<Rightarrow> Deadline \<Rightarrow> int \<Rightarrow> int \<Rightarrow>
     (CdpError + 'j cdp) outcome" where
  "Connect V C N address websocket_path trace_path overall_deadline handshake_timeout max_remote_payload_bytes =
     Invariant (trace_path \<noteq> []) ''cdp trace path must not be empty''
       (Invariant (overall_deadline \<noteq> None) ''cdp overall deadline must be reachable''
         (try_io (Returns (OpenTraceFile N)) (\<lambda>_.
          let handshake_deadline = PickEarlierDeadline (connect_now N) overall_deadline
            (Some (connect_now N + handshake_timeout * 1000000)) in
          try_io (ConnectCdpSocket N address handshake_deadline) (\<lambda>_.
          let sec_websocket_key = Base64Encode C (random_block N);
              request = handshake_request (request_path websocket_path) sec_websocket_key in
          try_io (SendHandshakeRequest N request) (\<lambda>_.
          let (read, sock) = ReadHandshakeResponse (socket_input N request) in
          try_io read (\<lambda>response.
          try_io (Returns (ParseHandshakeResponse V response)) (\<lambda>parsed_response.
          try_io (Returns (ValidateHandshakeResponse V C parsed_response sec_websocket_key)) (\<lambda>_.
          try_io (MakeCdpWebSocketConnection N sock max_remote_payload_bytes) (\<lambda>_.
          Returns (Inr (StartReaderTask new_client)))))))))))"

section \<open>Reading the response\<close>

lemma contains_str_iff: "contains_str s pat \<longleftrightarrow> index_of_str pat s \<noteq> None"
  by (simp add: contains_str_def find_str_def)

lemma index_of_str_append:
  "index_of_str pat s = Some i \<Longrightarrow> index_of_str pat (s @ t) = Some i"
proof (induction s arbitrary: i)
  case Nil
  then show ?case by (cases t) (auto split: if_splits)
next
  case (Cons x s)
  show ?case
  proof (cases "prefix pat (x # s)")
    case True
    then have "prefix pat (x # s @ t)" using prefix_prefix by fastforce
    then show ?thesis using Cons.prems True by simp
  next
    case False
    then obtain j where j: "index_of_str pat s = Some j" "i = Suc j" using Cons.prems by auto
    then have "length pat \<le> length s" using index_of_str_bound by fastforce
    then have "\<not> prefix pat (x # s @ t)"
      using False prefix_length_prefix [of pat "x # s @ t" "x # s"] by auto
    then show ?thesis using Cons.IH [OF j(1)] j(2) by simp
  qed
qed

text \<open>A text whose first empty line is at its end.\<close>

definition ends_at_blank :: "string \<Rightarrow> bool" where
  "ends_at_blank s \<longleftrightarrow> index_of_str (crlf @ crlf) s = Some (length s - 4) \<and> 4 \<le> length s"

lemma blank_only_at_end:
  assumes "ends_at_blank (s @ c # t)"
  shows "\<not> contains_str s (crlf @ crlf)"
proof
  assume "contains_str s (crlf @ crlf)"
  then obtain i where i: "index_of_str (crlf @ crlf) s = Some i" by (auto simp: contains_str_iff)
  then have "i + 4 \<le> length s" using index_of_str_bound by (fastforce simp: crlf_def)
  moreover have "i = length (s @ c # t) - 4" using index_of_str_append [OF i] assms by (simp add: ends_at_blank_def)
  ultimately show False by simp
qed

lemma read_handshake_exact:
  assumes "ends_at_blank (pre @ suf)" and "int (length (pre @ suf)) \<le> kMaxHandshakeResponseBytes"
  shows "read_handshake pre (map SByte suf @ rest) = (Returns (Inr (pre @ suf)), rest)"
  using assms
proof (induction suf arbitrary: pre)
  case Nil
  then show ?case by (subst read_handshake.simps) (simp add: ends_at_blank_def contains_str_iff)
next
  case (Cons c suf)
  have "\<not> contains_str pre (crlf @ crlf)" using blank_only_at_end Cons.prems(1) by blast
  then have "read_handshake pre (map SByte (c # suf) @ rest) = read_handshake (pre @ [c]) (map SByte suf @ rest)"
    using Cons.prems(2) by (subst read_handshake.simps) (simp add: ReadHandshakeByte_def)
  then show ?case using Cons.IH [of "pre @ [c]"] Cons.prems by simp
qed

lemma index_of_str_snoc:
  assumes "index_of_str pat (s @ [c]) = Some i" and "index_of_str pat s = None"
  shows "i + length pat = Suc (length s)"
  using assms
proof (induction s arbitrary: i)
  case Nil
  then show ?case by (auto split: if_splits simp: prefix_Cons)
next
  case (Cons x s)
  have p: "prefix pat (x # s @ [c]) \<Longrightarrow> pat = x # s @ [c]"
    using Cons.prems(2) prefix_snoc [of pat "x # s" c] by (auto split: if_splits)
  show ?case using Cons p by (auto split: if_splits)
qed

lemma read_handshake_result:
  assumes "read_handshake pre sock = (Returns (Inr response), rest)"
    and "pre = [] \<or> \<not> contains_str (butlast pre) (crlf @ crlf)" and "int (length pre) \<le> kMaxHandshakeResponseBytes"
  shows "\<exists>suf. response = pre @ suf \<and> sock = map SByte suf @ rest \<and> ends_at_blank response \<and>
    int (length response) \<le> kMaxHandshakeResponseBytes"
  using assms
proof (induction pre sock rule: read_handshake.induct)
  case (1 pre sock)
  show ?case
  proof (cases "contains_str pre (crlf @ crlf)")
    case True
    then obtain i where i: "index_of_str (crlf @ crlf) pre = Some i" by (auto simp: contains_str_iff)
    have "pre \<noteq> []" using True by (auto simp: contains_str_iff crlf_def)
    then have "i + 4 = length pre"
      using index_of_str_snoc [of "crlf @ crlf" "butlast pre" "last pre" i] i 1(3)
      by (simp add: contains_str_iff crlf_def)
    then have "ends_at_blank pre" using i by (auto simp: ends_at_blank_def)
    then show ?thesis using 1(2,4) True by (subst (asm) read_handshake.simps) simp
  next
    case False
    then obtain ch s1 where b: "ReadHandshakeByte sock = (Returns (Inr (Some ch)), s1)"
        and r: "read_handshake (pre @ [ch]) s1 = (Returns (Inr response), rest)"
        and n: "\<not> int (length pre) \<ge> kMaxHandshakeResponseBytes"
      using 1(2)
      by (subst (asm) read_handshake.simps) (auto split: if_splits prod.splits outcome.splits sum.splits option.splits)
    have "\<exists>suf. response = (pre @ [ch]) @ suf \<and> s1 = map SByte suf @ rest \<and> ends_at_blank response \<and>
        int (length response) \<le> kMaxHandshakeResponseBytes"
      using "1.IH" [OF False n b [symmetric]] r False n by simp
    then show ?thesis using ReadHandshakeByte_shorter [OF b]
      by (elim exE conjE) (rule_tac x = "ch # suf" in exI, auto)
  qed
qed

lemma ReadHandshakeResponse_iff:
  "ReadHandshakeResponse sock = (Returns (Inr response), rest) \<longleftrightarrow>
   sock = map SByte response @ rest \<and> ends_at_blank response \<and> int (length response) \<le> kMaxHandshakeResponseBytes"
  using read_handshake_result [of "[]" sock response rest] read_handshake_exact [of "[]" response rest]
  by (auto simp: ReadHandshakeResponse_def kMaxHandshakeResponseBytes_def)

section \<open>Reading the headers\<close>

text \<open>The value of the first header of a name, in lower case.\<close>

definition first_header :: "('u, 'z) vendor_scheme \<Rightarrow> HeaderLine list \<Rightarrow> string \<Rightarrow> string option" where
  "first_header V hs name = map_option h_value (find (\<lambda>h. AsciiStrToLower V (h_name h) = name) hs)"

lemma map_of_emplace: "map_of (map_emplace k v m) x = (case map_of m x of Some y \<Rightarrow> Some y | None \<Rightarrow> if x = k then Some v else None)"
  by (auto simp: map_emplace_def map_add_def split: option.splits)

lemma add_header_line:
  assumes "text_light_contract V" and "header_ok h"
  shows "add_header V (header_line h) m = map_emplace (AsciiStrToLower V (h_name h)) (h_value h) m"
proof -
  have c: "find_char CHR '':'' (header_line h) 0 = Some (length (h_name h))"
    using assms(2) find_char_prefix [of "CHR '':''" "h_name h"] by (simp add: header_ok_def header_line_def)
  have "substr (header_line h) 0 (length (h_name h)) = h_name h"
    "substr_from (header_line h) (length (h_name h) + 1) = CHR '' '' # h_value h"
    by (simp_all add: substr_def substr_from_def header_line_def)
  moreover have "TrimView V (CHR '' '' # h_value h) = h_value h"
    using assms by (simp add: text_light_contract_def trim_space header_ok_def)
  ultimately show ?thesis by (simp add: add_header_def c)
qed

text \<open>Lines without the end of the last.\<close>

definition lines_of :: "string list \<Rightarrow> string" where
  "lines_of ls = take (length (block ls) - 4) (block ls)"

lemma block_split: "ls \<noteq> [] \<Longrightarrow> block ls = lines_of ls @ crlf @ crlf"
proof -
  assume "ls \<noteq> []"
  then obtain ms l where "ls = ms @ [l]" by (metis append_butlast_last_id)
  then have "block ls = (concat (map (\<lambda>l. l @ crlf) ms) @ l) @ crlf @ crlf" by (simp add: block_def)
  then show ?thesis by (simp add: lines_of_def crlf_def)
qed

lemma lines_of_simps: "lines_of [l] = l" "ls \<noteq> [] \<Longrightarrow> lines_of (l # ls) = l @ crlf @ lines_of ls"
proof -
  show "lines_of [l] = l" by (simp add: lines_of_def crlf_def)
  show "lines_of (l # ls) = l @ crlf @ lines_of ls" if "ls \<noteq> []"
    using block_split [of "l # ls"] block_split [OF that] by simp
qed

lemma find_crlf_line: "one_line l \<Longrightarrow> find_str crlf (l @ crlf @ rest) 0 = Some (length l)"
  using index_of_line_end [of l "[]" rest] by (simp add: find_str_def)

lemma find_crlf_none: "one_line l \<Longrightarrow> find_str crlf l 0 = None"
proof -
  assume "one_line l"
  have "index_of_str crlf l = None" if "\<not> sublist crlf l" for l :: string
    using that by (induction l) (auto simp: crlf_def sublist_Cons_right)
  with \<open>one_line l\<close> show ?thesis by (simp add: find_str_def one_line_def)
qed

lemma parse_handshake_lines_of:
  assumes "text_light_contract V" and "hs \<noteq> []" and "\<forall>h\<in>set hs. header_ok h"
  shows "parse_handshake_lines V (lines_of (map header_line hs)) m =
    fold (\<lambda>h. map_emplace (AsciiStrToLower V (h_name h)) (h_value h)) hs m"
  using assms(2,3)
proof (induction hs arbitrary: m)
  case (Cons h hs)
  then have h: "header_ok h" and hs: "\<forall>h\<in>set hs. header_ok h" by simp_all
  note l = header_line_one_line [OF h] and a = add_header_line [OF assms(1) h]
  show ?case
  proof (cases "hs = []")
    case True
    have "find_str crlf (header_line h) 0 = None" using find_crlf_none l by blast
    then show ?thesis using l True a by (subst parse_handshake_lines.simps) (simp add: lines_of_simps)
  next
    case False
    then have "map header_line hs \<noteq> []" by simp
    then have t: "lines_of (map header_line (h # hs)) = header_line h @ crlf @ lines_of (map header_line hs)"
      using lines_of_simps(2) by simp
    have "find_str crlf (header_line h @ crlf @ lines_of (map header_line hs)) 0 = Some (length (header_line h))"
      using find_crlf_line l by blast
    then have "parse_handshake_lines V (lines_of (map header_line (h # hs))) m =
        parse_handshake_lines V (lines_of (map header_line hs)) (add_header V (header_line h) m)"
      using l unfolding t by (subst parse_handshake_lines.simps) (simp add: substr_def crlf_def)
    then show ?thesis using Cons.IH [OF False hs] a by simp
  qed
qed simp

lemma emplaced_headers:
  "map_of (fold (\<lambda>h. map_emplace (AsciiStrToLower V (h_name h)) (h_value h)) hs m) x =
   (case map_of m x of Some y \<Rightarrow> Some y | None \<Rightarrow> first_header V hs x)"
  by (induction hs arbitrary: m) (auto simp: first_header_def map_of_emplace split: option.splits)

lemma ParseHandshakeResponse_block:
  assumes "text_light_contract V" and "one_line status" and "status \<noteq> []" and "\<forall>h\<in>set hs. header_ok h"
    and "length (block (status # map header_line hs)) < 2 ^ 64"
  shows "\<exists>p. ParseHandshakeResponse V (block (status # map header_line hs)) = Inr p \<and> status_line p = status \<and>
    map_of (hs_headers p) = first_header V hs"
proof -
  let ?ls = "map header_line hs"
  let ?t = "block (status # ?ls)"
  have "index_of_str (crlf @ crlf) (block (status # ?ls) @ []) = Some (length (block (status # ?ls)) - 4)"
    using assms(2,3,4) header_line_one_line by (intro block_end) auto
  then have e: "find_str (crlf @ crlf) ?t 0 = Some (length ?t - 4)" by (simp only: append_Nil2 find_str_def) simp
  have s: "find_str crlf ?t 0 = Some (length status)" using find_crlf_line assms(2) by simp
  let ?n = "nat ((int (length ?t - 4) - (int (length status) + 2)) mod 2 ^ 64)"
  have "map_of (ParseHandshakeHeaders V (substr ?t (length status + 2) ?n)) = first_header V hs"
  proof (cases "hs = []")
    case True
    then have "prefix crlf (substr ?t (length status + 2) ?n)" "substr ?t (length status + 2) ?n \<noteq> []"
      by (simp_all add: substr_def crlf_def)
    then have "parse_handshake_lines V (substr ?t (length status + 2) ?n) [] = []"
      by (subst parse_handshake_lines.simps) (auto simp: find_str_def substr_def True crlf_def)
    then show ?thesis using True by (auto simp: ParseHandshakeHeaders_def first_header_def)
  next
    case False
    then have ne: "?ls \<noteq> []" by simp
    then have t: "?t = status @ crlf @ lines_of ?ls @ crlf @ crlf" using block_split [OF ne] by simp
    then have "length ?t - 4 = length status + 2 + length (lines_of ?ls)" by (simp add: crlf_def)
    then have "?n = length (lines_of ?ls)" using assms(5) by simp
    then have "substr ?t (length status + 2) ?n = lines_of ?ls" unfolding t by (simp add: substr_def crlf_def)
    then show ?thesis using parse_handshake_lines_of [OF assms(1) False assms(4)]
      by (auto simp: ParseHandshakeHeaders_def emplaced_headers)
  qed
  moreover have "substr ?t 0 (length status) = status" by (simp add: substr_def)
  ultimately show ?thesis
    unfolding ParseHandshakeResponse_def e s option.case 
    by (intro exI conjI) (rule refl, simp_all only: HandshakeResponse.select_convs)
qed

lemma block_ends_at_blank:
  assumes "one_line status" and "status \<noteq> []" and "\<forall>h\<in>set hs. header_ok h"
  shows "ends_at_blank (block (status # map header_line hs))"
proof -
  have "index_of_str (crlf @ crlf) (block (status # map header_line hs) @ []) = Some (length (block (status # map header_line hs)) - 4)"
    using assms header_line_one_line by (intro block_end) auto
  moreover have "4 \<le> length (block (status # map header_line hs))" by (simp add: block_def crlf_def)
  ultimately show ?thesis unfolding ends_at_blank_def append_Nil2 by blast
qed

section \<open>Header tokens\<close>

lemma ContainsHeaderToken_parts:
  "ContainsHeaderToken V s token \<longleftrightarrow> (\<exists>part\<in>set (split_on CHR '','' s). ICaseEqual V (TrimView V part) token)"
proof (induction V s token rule: ContainsHeaderToken.induct)
  case (1 V s token)
  show ?case
  proof (cases "index_of CHR '','' s")
    case None
    then have "find_char CHR '','' s 0 = None" by (simp add: find_char_def del: index_of_None_iff)
    moreover have "split_on CHR '','' s = [s]" using None by (simp add: split_on_no_sep)
    ultimately show ?thesis by (subst ContainsHeaderToken.simps) simp
  next
    case (Some i)
    then have f: "find_char CHR '','' s 0 = Some i" by (simp add: find_char_def)
    have "split_on CHR '','' s = take i s # split_on CHR '','' (drop (i + 1) s)"
      using index_of_SomeD [OF Some] split_on_append_Cons by (metis Suc_eq_plus1)
    moreover have "ContainsHeaderToken V s token \<longleftrightarrow>
        ICaseEqual V (TrimView V (take i s)) token \<or> ContainsHeaderToken V (drop (i + 1) s) token"
      by (subst ContainsHeaderToken.simps) (simp add: f substr_def)
    ultimately show ?thesis using "1.IH" [OF f] by (cases "ICaseEqual V (TrimView V (take i s)) token") (simp_all add: substr_def)
  qed
qed

section \<open>The handshake as a whole\<close>

text \<open>What RFC 6455 asks of the answer of the server.\<close>

definition valid_handshake ::
    "('u, 'z) vendor_scheme \<Rightarrow> cdp_crypto \<Rightarrow> string \<Rightarrow> string \<Rightarrow> HeaderLine list \<Rightarrow> bool" where
  "valid_handshake V C key status hs \<longleftrightarrow>
     (prefix ''HTTP/1.1 101 '' status \<or> status = ''HTTP/1.1 101'') \<and>
     (case first_header V hs ''upgrade'' of None \<Rightarrow> False | Some u \<Rightarrow> ICaseEqual V u ''websocket'') \<and>
     (case first_header V hs ''connection'' of None \<Rightarrow> False
      | Some c \<Rightarrow> list_ex (\<lambda>part. ICaseEqual V (TrimView V part) ''upgrade'') (split_on CHR '','' c)) \<and>
     first_header V hs ''sec-websocket-accept'' = Some (expected_accept C key)"

lemma ValidateHandshakeResponse_iff:
  assumes "status_line p = status" and "map_of (hs_headers p) = first_header V hs"
  shows "ValidateHandshakeResponse V C p key = Inr () \<longleftrightarrow> valid_handshake V C key status hs"
  by (auto simp: ValidateHandshakeResponse_def valid_handshake_def assms ContainsHeaderToken_parts list_ex_iff
      split: option.splits)

lemma Connect_iff:
  "Connect V C N address websocket_path trace_path deadline timeout payload = Returns (Inr c) \<longleftrightarrow>
   trace_path \<noteq> [] \<and> deadline \<noteq> None \<and> open_trace_ok N \<and>
   connect_socket N address (PickEarlierDeadline (connect_now N) deadline (Some (connect_now N + timeout * 1000000))) = IoOk () \<and>
   (\<exists>key request response sock p. key = Base64Encode C (random_block N) \<and>
      request = handshake_request (request_path websocket_path) key \<and> send_all N request = IoOk () \<and>
      ReadHandshakeResponse (socket_input N request) = (Returns (Inr response), sock) \<and>
      ParseHandshakeResponse V response = Inr p \<and> ValidateHandshakeResponse V C p key = Inr () \<and>
      0 \<le> payload \<and> payload \<le> payload_limit N \<and> make_connection N payload sock = IoOk ()) \<and>
   c = StartReaderTask new_client"
  by (auto simp: Connect_def Let_def Invariant_def try_io_iff OpenTraceFile_def ConnectCdpSocket_def
      SendHandshakeRequest_def MakeCdpWebSocketConnection_def io_step_def split: if_splits io.splits prod.splits)

end
