(* ===== verification/Example_Cdp.thy ===== *)
theory Example_Cdp
  imports Cdp_Tasks Cdp_Handshake Example_Vendor
begin

text \<open>
  A concrete JSON library, a browser that answers a command while it waits, and states of the client,
  on which the theorems about the debugging protocol are applied.
\<close>

datatype ejson = EObject "(string \<times> ejson) list" | EInt int | EString string

definition ejson_member :: "ejson \<Rightarrow> string \<Rightarrow> ejson option outcome" where
  "ejson_member v k = (case v of EObject m \<Rightarrow> Returns (map_of m k) | _ \<Rightarrow> Throws ''not an object'')"

definition ejson_int :: "ejson \<Rightarrow> int outcome" where
  "ejson_int v = (case v of EInt i \<Rightarrow> Returns i | _ \<Rightarrow> Throws ''not an integer'')"

definition ejson_string :: "ejson \<Rightarrow> string outcome" where
  "ejson_string v = (case v of EString t \<Rightarrow> Returns t | _ \<Rightarrow> Throws ''not a string'')"

definition text_member :: "ejson \<Rightarrow> string \<Rightarrow> string option" where
  "text_member v k = (case ejson_member v k of Returns (Some (EString t)) \<Rightarrow> Some t | _ \<Rightarrow> None)"

definition example_message :: ejson where
  "example_message = EObject [(''id'', EInt 1), (''result'', EInt 42)]"

definition example_cdp_env :: "ejson cdp_env" where
  "example_cdp_env = \<lparr>json_parse = (\<lambda>t. if t = ''answer'' then Some example_message else None),
     json_member = ejson_member, json_int64 = ejson_int, json_string = ejson_string,
     json_is_object = (\<lambda>v. case v of EObject _ \<Rightarrow> True | _ \<Rightarrow> False),
     as_error_message = (\<lambda>v. text_member v ''message''),
     as_event_message = (\<lambda>v. map_option (\<lambda>m. \<lparr>em_method = m, em_params = None, em_session_id = text_member v ''sessionId''\<rparr>)
       (text_member v ''method'')),
     params_extra = (\<lambda>v k. None), stringify_command = (\<lambda>c. Some (cmd_method c)),
     trace_ts = (\<lambda>_. ''now''), trace_write_ok = (\<lambda>_. True), send_text = (\<lambda>_ _. IoOk ()), close_socket = (\<lambda>_. IoOk ())\<rparr>"

lemma example_json_regular [simp]: "json_regular example_cdp_env"
  by (auto simp: json_regular_def example_cdp_env_def ejson_member_def split: ejson.splits)

lemma example_send_failures [simp]: "send_failures_text V example_cdp_env"
  by (simp add: send_failures_text_def example_cdp_env_def)

lemma alone [simp]: "others V E me (\<lambda>n s. s)"
  unfolding others_def using cdp_run.nil by fastforce

lemma new_client_reached [simp]: "reached V E [] (StartReaderTask new_client)"
  unfolding reached_def
  by (intro exI [of _ "StartReaderTask new_client"] conjI cdp_run.nil)
    (simp add: cdp_initial_def StartReaderTask_def new_client_def)

text \<open>Task 7 reads the answer when the command has been sent.\<close>

definition answer_now :: "ejson cdp \<Rightarrow> ejson cdp" where
  "answer_now s =
     (case respond_section example_vendor example_cdp_env 7 1 example_message s of
        (Returns (Inr (Some (ref, reply, q, e))), s') \<Rightarrow> complete_section 7 ref reply s'
      | _ \<Rightarrow> s)"

definition browser_answers :: "ejson interference" where
  "browser_answers n s = (if n = 2 then answer_now s else s)"

lemma answer_now_run:
  "\<exists>ls. cdp_run example_vendor example_cdp_env ls s (answer_now s) \<and> (\<forall>l\<in>set ls. owner l \<noteq> Some 0)"
proof (cases "\<exists>ref reply q e s'. respond_section example_vendor example_cdp_env 7 1 example_message s =
    (Returns (Inr (Some (ref, reply, q, e))), s')")
  case True
  then obtain ref reply q e s' where r: "respond_section example_vendor example_cdp_env 7 1 example_message s =
    (Returns (Inr (Some (ref, reply, q, e))), s')" by blast
  have m: "json_member example_cdp_env example_message ''id'' = Returns (Some (EInt 1))"
    "json_int64 example_cdp_env (EInt 1) = Returns 1"
    by (simp_all add: example_cdp_env_def ejson_member_def ejson_int_def example_message_def)
  have a: "cdp_step example_vendor example_cdp_env (Answered 7 1 example_message ref reply) s s'"
    by (rule cdp_step.answer [OF m r])
  have "(7, ref, reply) \<in> set (completing s')" using respond_sectionD(4) [OF r] by simp
  then have "cdp_step example_vendor example_cdp_env (Completed 7 ref reply) s' (complete_section 7 ref reply s')"
    by (rule cdp_step.complete)
  then have "cdp_run example_vendor example_cdp_env ([] @ [Answered 7 1 example_message ref reply] @ [Completed 7 ref reply])
      s (complete_section 7 ref reply s')"
    using cdp_run_append [OF cdp_run_single cdp_run_single [OF a]] by simp
  moreover have "answer_now s = complete_section 7 ref reply s'" by (simp add: answer_now_def r)
  ultimately show ?thesis by (intro exI conjI) auto
next
  case False
  then have "answer_now s = s"
    by (auto simp: answer_now_def split: prod.splits outcome.splits sum.splits option.splits)
  then show ?thesis using cdp_run.nil by (metis list.set(1) empty_iff)
qed

lemma browser_answers_others [simp]: "others example_vendor example_cdp_env 0 browser_answers"
  unfolding others_def
proof (intro allI)
  fix n s
  show "\<exists>ls. cdp_run example_vendor example_cdp_env ls s (browser_answers n s) \<and> (\<forall>l\<in>set ls. owner l \<noteq> Some 0)"
    using answer_now_run [of s] cdp_run.nil [of example_vendor example_cdp_env s]
    by (cases "n = 2") (auto simp: browser_answers_def intro: exI [of _ "[]"])
qed

definition fresh_client :: "ejson cdp" where
  "fresh_client = StartReaderTask new_client"

lemma fresh_client_reached [simp]: "reached V E [] fresh_client"
  by (simp add: fresh_client_def)

lemma example_answer:
  "fst (SendRaw example_vendor example_cdp_env 0 browser_answers ''Page.enable'' None None fresh_client) =
     Returns (Inr (Some (EInt 42)))"
  by (simp add: SendRaw_def next_do_def enter_def browser_answers_def fresh_client_def StartReaderTask_def
      new_client_def register_section_def InsertPending_def tracker_Insert_def Invariant_def map_emplace_def
      send_registered_def TraceCommand_def WriteTraceLineBestEffort_def WriteTraceLine_def example_cdp_env_def
      await_response_def answer_now_def respond_section_def tracker_Find_def error_text_def ejson_member_def
      example_message_def and_then_def complete_section_def waiter_answer_def Let_def session_entry_def)

text \<open>A state with a command that waits and a state with an open session and an event for it.\<close>

definition waiting_client :: "ejson cdp" where
  "waiting_client = snd (register_section ''Page.enable'' None fresh_client)"

lemma waiting_client_reached [simp]: "reached V E [Registered 1 0] waiting_client"
proof -
  have "register_section ''Page.enable'' None fresh_client = (Returns (Inr (1, 0)), waiting_client)"
    by (simp add: waiting_client_def fresh_client_def StartReaderTask_def new_client_def register_section_def
        InsertPending_def tracker_Insert_def Invariant_def map_emplace_def Let_def)
  from reached_step [OF fresh_client_reached cdp_step.register [OF this]] show ?thesis by simp
qed

definition example_event :: "ejson CdpEvent" where
  "example_event = \<lparr>ev_method = ''Page.loadEventFired'', ev_params = None, ev_session_id = Some ''S''\<rparr>"

definition session_client :: "ejson cdp" where
  "session_client = deliver_section 0 example_event (snd (open_section ''S'' ''T'' fresh_client))"

lemma session_client_reached [simp]: "reached V E [Opened 0 True, Delivered 0 example_event] session_client"
proof -
  let ?o = "snd (open_section ''S'' ''T'' fresh_client)"
  let ?c = "\<lparr>cs_session_id = ''S'', cs_target_id = ''T'', cs_ref = 0\<rparr>"
  have o: "open_section ''S'' ''T'' fresh_client = (Inr ?c, ?o)" "map_of (sessions_by_id (shared fresh_client)) ''S'' = None"
      "next_session ?o = 1" "sessions ?o 0 = \<lparr>sd_events = [], sd_error = None, sd_stopped = False\<rparr>"
    by (simp_all add: fresh_client_def StartReaderTask_def new_client_def open_section_def Let_def)
  have r: "reached V E [Opened 0 True] ?o"
    using reached_step [OF fresh_client_reached cdp_step.open_session [OF o(1)]] o(2) by simp
  have "cdp_step V E (Delivered 0 example_event) ?o (deliver_section 0 example_event ?o)"
    by (rule cdp_step.deliver) (simp_all add: o(3,4))
  from reached_step [OF r this] show ?thesis by (simp add: session_client_def)
qed

lemma session_client_facts [simp]:
  "0 < next_session session_client" "completing session_client = []" "ending session_client = []"
  by (simp_all add: session_client_def deliver_section_def fresh_client_def StartReaderTask_def new_client_def open_section_def Let_def)

lemma waiting_client_facts [simp]: "completing waiting_client = []" "ending waiting_client = []"
  by (simp_all add: waiting_client_def fresh_client_def StartReaderTask_def new_client_def register_section_def
      InsertPending_def tracker_Insert_def Invariant_def map_emplace_def Let_def)

text \<open>A server that answers the handshake.\<close>

definition example_crypto :: cdp_crypto where
  "example_crypto = \<lparr>Sha1 = concat, Base64Encode = (\<lambda>s. s)\<rparr>"

definition example_hs_headers :: "HeaderLine list" where
  "example_hs_headers = [\<lparr>h_name = ''Upgrade'', h_value = ''websocket''\<rparr>,
     \<lparr>h_name = ''Connection'', h_value = ''Upgrade''\<rparr>,
     \<lparr>h_name = ''Sec-WebSocket-Accept'', h_value = ''k'' @ kWebsocketGuid\<rparr>]"

lemma example_hs_ok: "\<forall>h\<in>set example_hs_headers. header_ok h"
  by (simp add: example_hs_headers_def header_ok_def one_line_def crlf_def sublist_Cons_right kWebsocketGuid_def
      trim_def is_space_def)

lemma example_valid: "valid_handshake example_vendor example_crypto ''k'' ''HTTP/1.1 101 OK'' example_hs_headers"
  unfolding example_hs_headers_def example_crypto_def kWebsocketGuid_def example_vendor_def by code_simp

definition example_response :: string where
  "example_response = block (''HTTP/1.1 101 OK'' # map header_line example_hs_headers)"

definition example_connect :: connect_env where
  "example_connect = \<lparr>open_trace_ok = True, connect_socket = (\<lambda>_ _. IoOk ()), random_block = ''k'',
     send_all = (\<lambda>_. IoOk ()), socket_input = (\<lambda>_. map SByte example_response @ [SByte CHR ''x'']),
     payload_limit = 1000, make_connection = (\<lambda>_ _. IoOk ()), connect_now = 0\<rparr>"

end
