(* ===== verification/Runner_Url.thy ===== *)
theory Runner_Url
  imports Crud_Jobs Artifacts Cdp_Client
begin

text \<open>
  \<open>crawler/runner.cpp\<close>, the functions on addresses, headers and bodies, and the policy check of an
  intercepted request.  Header maps are association lists in the order the map iterates.
\<close>

section \<open>Addresses of the local fixture\<close>

definition kLocalFixtureHttpPort :: string where "kLocalFixtureHttpPort = ''18080''"
definition kLocalFixtureHttpsPort :: string where "kLocalFixtureHttpsPort = ''18443''"

definition kLocalFixtureHosts :: "string list" where
  "kLocalFixtureHosts = [''test-target'', ''asset.test-target'', ''untrusted.test-target'']"

definition IsLocalFixtureHost :: "string \<Rightarrow> bool" where
  "IsLocalFixtureHost host \<longleftrightarrow> host \<in> set kLocalFixtureHosts"

definition matches_fixture_port :: "('u, 'z) vendor_scheme \<Rightarrow> 'u \<Rightarrow> string \<Rightarrow> bool" where
  "matches_fixture_port V url port \<longleftrightarrow>
     IsHttp V url \<and> port = kLocalFixtureHttpPort \<or> IsHttps V url \<and> port = kLocalFixtureHttpsPort"

definition CanonicalizeCapturedUrl :: "('u, 'z) vendor_scheme \<Rightarrow> string \<Rightarrow> string outcome" where
  "CanonicalizeCapturedUrl V url_text =
     (case Url_FromText V url_text of
        None \<Rightarrow> Returns url_text
      | Some url \<Rightarrow>
          if \<not> IsHttpOrHttps V url then Returns url_text
          else if \<not> HasPort V url then Returns url_text
          else and_then (Hostname V url) (\<lambda>host.
            if \<not> IsLocalFixtureHost host then Returns url_text
            else and_then (Port V url) (\<lambda>port.
              if \<not> matches_fixture_port V url port then Returns url_text
              else Href V (Without V url kPort))))"

definition same_origin :: "('u, 'z) vendor_scheme \<Rightarrow> 'u \<Rightarrow> 'u \<Rightarrow> bool outcome" where
  "same_origin V url other =
     (if IsHttp V url \<noteq> IsHttp V other then Returns False
      else and_then (Host V url) (\<lambda>host. and_then (Host V other) (\<lambda>other_host. Returns (host = other_host))))"

definition CanonicalizeCapturedLocationHeader ::
    "('u, 'z) vendor_scheme \<Rightarrow> string \<Rightarrow> string \<Rightarrow> string outcome" where
  "CanonicalizeCapturedLocationHeader V response_url location_value =
     (case FromBytes V location_value of
        Inl _ \<Rightarrow> Returns location_value
      | Inr location \<Rightarrow>
          if location = [] \<or> StartsWith location ''/'' \<or> StartsWith location ''?'' \<or> StartsWith location ''//''
          then Returns location
          else and_then (CanonicalizeCapturedUrl V location) (\<lambda>canonical_location.
            case (Url_FromText V canonical_location, Url_FromText V response_url) of
              (Some canonical, Some response) \<Rightarrow>
                and_then (same_origin V canonical response) (\<lambda>same.
                  if same then PathWithSearch V canonical else Returns canonical_location)
            | _ \<Rightarrow> Returns canonical_location))"

section \<open>Headers and bodies\<close>

text \<open>\<open>dto::CdpHeaders\<close>, and the responses and requests of \<open>schema/cdp.yaml\<close>.\<close>

record NetworkResponse =
  nr_status :: "int option"
  nr_status_text :: "string option"
  nr_headers :: "headers option"

definition NormalizeHeaders :: "('u, 'z) vendor_scheme \<Rightarrow> headers \<Rightarrow> headers" where
  "NormalizeHeaders V hs = foldl (\<lambda>out (name, value). map_emplace (AsciiStrToLower V name) value out) [] hs"

definition NormalizeHeadersOrEmpty :: "('u, 'z) vendor_scheme \<Rightarrow> headers option \<Rightarrow> headers" where
  "NormalizeHeadersOrEmpty V hs = (case hs of None \<Rightarrow> [] | Some h \<Rightarrow> NormalizeHeaders V h)"

definition NormalizeHeadersForCapture ::
    "('u, 'z) vendor_scheme \<Rightarrow> headers option \<Rightarrow> string \<Rightarrow> headers outcome" where
  "NormalizeHeadersForCapture V hs response_url =
     (let normalized = NormalizeHeadersOrEmpty V hs in
      case map_of normalized ''location'' of
        None \<Rightarrow> Returns normalized
      | Some value \<Rightarrow> and_then (CanonicalizeCapturedLocationHeader V response_url value) (\<lambda>location.
          Returns (map (\<lambda>(k, v). (k, if k = ''location'' then location else v)) normalized)))"

definition StringOrNull :: "('u, 'z) vendor_scheme \<Rightarrow> string option \<Rightarrow> string option" where
  "StringOrNull V value = (case OptionalString V value of Inl _ \<Rightarrow> None | Inr t \<Rightarrow> t)"

record RetainedBodyBudget =
  max_bytes :: int
  retained_bytes :: int

definition RetainBody ::
    "('u, 'z) vendor_scheme \<Rightarrow> string \<Rightarrow> RetainedBodyBudget \<Rightarrow> (string + string) outcome \<times> RetainedBodyBudget" where
  "RetainBody V body budget =
     (let next_retained_bytes = retained_bytes budget + int (length body) in
      if next_retained_bytes > max_bytes budget
      then (and_then (deref_text V (''size_limit: retained body bytes '' @ int_to_string next_retained_bytes @
              '' exceeded size limit '' @ int_to_string (max_bytes budget))) (\<lambda>t. Returns (Inl t)), budget)
      else (Returns (Inr body), budget\<lparr>retained_bytes := next_retained_bytes\<rparr>))"

record NetworkGetResponseBodyResult =
  gb_body :: string
  gb_base64Encoded :: bool

definition DecodeCdpBody :: "('u, 'z) vendor_scheme \<Rightarrow> NetworkGetResponseBodyResult \<Rightarrow> string option" where
  "DecodeCdpBody V body = (if \<not> gb_base64Encoded body then Some (gb_body body) else base64_decode V (gb_body body))"

definition ResponseCanHaveBody :: "string \<Rightarrow> int \<Rightarrow> bool" where
  "ResponseCanHaveBody m status_code \<longleftrightarrow>
     m \<noteq> ''HEAD'' \<and> (status_code < 100 \<or> status_code \<ge> 200) \<and> status_code \<noteq> 204 \<and> status_code \<noteq> 304"

definition IsSuccessfulMainDocumentExchange :: "CapturedExchange \<Rightarrow> bool" where
  "IsSuccessfulMainDocumentExchange exchange \<longleftrightarrow> ex_status exchange \<ge> 200 \<and> ex_status exchange < 400"

section \<open>Redirects\<close>

definition MakeUrlOrigin :: "('u, 'z) vendor_scheme \<Rightarrow> string \<Rightarrow> string option outcome" where
  "MakeUrlOrigin V url_text =
     (case Url_FromText V url_text of
        None \<Rightarrow> Returns None
      | Some url \<Rightarrow>
          if \<not> IsHttpOrHttps V url then Returns None
          else and_then (Origin V url) (\<lambda>origin. Returns (Some origin)))"

text \<open>The part of \<open>ResolveRedirectTargetUrl\<close> for a location that is not an absolute address.\<close>

definition resolve_relative :: "('u, 'z) vendor_scheme \<Rightarrow> string \<Rightarrow> string \<Rightarrow> string \<Rightarrow> string outcome" where
  "resolve_relative V base_text request_text location =
     and_then (MakeUrlOrigin V base_text) (\<lambda>origin.
       case origin of
         None \<Rightarrow> CanonicalizeCapturedUrl V request_text
       | Some origin \<Rightarrow>
           if StartsWith location ''//'' then
             (case Url_FromText V base_text of
                None \<Rightarrow> CanonicalizeCapturedUrl V request_text
              | Some base \<Rightarrow>
                  and_then (deref_text V ((if IsHttps V base then ''https'' else ''http'') @ '':'' @ location))
                    (CanonicalizeCapturedUrl V))
           else if StartsWith location ''/'' then
             and_then (deref_text V (origin @ location)) (CanonicalizeCapturedUrl V)
           else if StartsWith location ''?'' then
             (case Url_FromText V base_text of
                None \<Rightarrow> CanonicalizeCapturedUrl V request_text
              | Some base \<Rightarrow>
                  and_then (Href V (WithSearch V (Without V base (or kHash kQuery)) location))
                    (CanonicalizeCapturedUrl V))
           else CanonicalizeCapturedUrl V request_text)"

definition ResolveRedirectTargetUrl ::
    "('u, 'z) vendor_scheme \<Rightarrow> string \<Rightarrow> string \<Rightarrow> NetworkResponse option \<Rightarrow> string outcome" where
  "ResolveRedirectTargetUrl V base_text request_text redirect_response =
     (case redirect_response of
        None \<Rightarrow> CanonicalizeCapturedUrl V request_text
      | Some response \<Rightarrow>
          and_then (NormalizeHeadersForCapture V (nr_headers response) base_text) (\<lambda>hs.
            case map_of hs ''location'' of
              None \<Rightarrow> CanonicalizeCapturedUrl V request_text
            | Some location_value \<Rightarrow>
                if location_value = [] then CanonicalizeCapturedUrl V request_text
                else case FromBytes V location_value of
                  Inl _ \<Rightarrow> CanonicalizeCapturedUrl V request_text
                | Inr location \<Rightarrow>
                    (case Url_FromText V location of
                       Some absolute \<Rightarrow> and_then (Href V absolute) (CanonicalizeCapturedUrl V)
                     | None \<Rightarrow> resolve_relative V base_text request_text location)))"

section \<open>The policy check of a request\<close>

record runner_config = crud_config +
  UrlBytesMax :: nat
  AllowlistOnly :: bool

definition map_link_error :: "('u, 'z) vendor_scheme \<Rightarrow> string \<Rightarrow> LinkError \<Rightarrow> string outcome" where
  "map_link_error V href err =
     (if err = kInputTooLong \<or> err = kNormalizedHrefTooLong then Returns ''url too long''
      else deref_text V (''failed to normalize intercepted request url '' @ href))"

definition LinkFromInterceptionUrl ::
    "('u, 'z) vendor_scheme \<Rightarrow> runner_config \<Rightarrow> 'u \<Rightarrow> (string + 'u) outcome" where
  "LinkFromInterceptionUrl V cfg url =
     and_then (Href V url) (\<lambda>href.
     and_then (if StartsWith href ''ws://'' then WithProtocol V url ''http''
               else if StartsWith href ''wss://'' then WithProtocol V url ''https''
               else Returns url) (\<lambda>url.
     and_then (Link_FromUrl V url (UrlBytesMax cfg)) (\<lambda>r.
       case r of Inr link \<Rightarrow> Returns (Inr link)
       | Inl err \<Rightarrow> and_then (map_link_error V href err) (\<lambda>t. Returns (Inl t)))))"

definition AccessPolicyUrlFromText :: "('u, 'z) vendor_scheme \<Rightarrow> string \<Rightarrow> 'u option outcome" where
  "AccessPolicyUrlFromText V t =
     (case Url_FromText V t of
        None \<Rightarrow> Returns None
      | Some url \<Rightarrow> and_then (Href V url) (\<lambda>href.
          Returns (if IsHttpOrHttps V url \<or> StartsWith href ''ws://'' \<or> StartsWith href ''wss://''
                   then Some url else None)))"

definition EvaluateAccessPolicy ::
    "('u, 'z) vendor_scheme \<Rightarrow> runner_config \<Rightarrow> 'u \<Rightarrow> (string + AccessDecision) act" where
  "EvaluateAccessPolicy V cfg url =
     bind_act (of_outcome (Href V url)) (\<lambda>href.
       if HttpsOnly cfg \<and> (IsHttp V url \<or> StartsWith href ''ws://'')
       then ret (Inr \<lparr>allowed = False, reason = kNonHttps\<rparr>)
       else try_act (of_outcome (LinkFromInterceptionUrl V cfg url)) (\<lambda>link.
         bind_act (of_outcome (MakePrefixKey V link)) (\<lambda>key.
           try_as (EvaluatePrefix V key (if AllowlistOnly cfg then kAllowlistOnly else kRegular))
             ''access policy check failed during fetch interception'' (\<lambda>d. ret (Inr d)))))"

definition MakeBlockedFetchHeaders :: "nat \<Rightarrow> headers" where
  "MakeBlockedFetchHeaders body_bytes =
     [(''Content-Type'', ''text/plain; charset=utf-8''), (''Content-Length'', to_string body_bytes),
      (''Cache-Control'', ''no-store'')]"

end
