(* ===== verification/Browser_Lifecycle.thy ===== *)
theory Browser_Lifecycle
  imports Prelude
begin

text \<open>
  \<open>src/crawler/browser_page_lifecycle.cpp\<close>: the state machine that guards a browser page session.
  The transition table is the source's; \<open>boost::sml\<close> answers \<open>process_event\<close> with whether a
  transition fired and stays in its state when none does.
\<close>

datatype lifecycle_state =
  IdleState | BrowserContextCreatedState | TargetCreatedState | AttachedState
| BaseDomainsEnabledState | DetachedState | DisposedState | StoppedState

datatype lifecycle_event =
  BrowserContextCreated | TargetCreated | Attached | BaseDomainsEnabled
| Detached | Disposed | Stopped

fun make_transition_table ::
    "lifecycle_state \<Rightarrow> lifecycle_event \<Rightarrow> lifecycle_state option" where
  "make_transition_table IdleState BrowserContextCreated = Some BrowserContextCreatedState"
| "make_transition_table BrowserContextCreatedState TargetCreated = Some TargetCreatedState"
| "make_transition_table TargetCreatedState Attached = Some AttachedState"
| "make_transition_table AttachedState BaseDomainsEnabled = Some BaseDomainsEnabledState"
| "make_transition_table AttachedState Detached = Some DetachedState"
| "make_transition_table BaseDomainsEnabledState Detached = Some DetachedState"
| "make_transition_table DetachedState Detached = Some DetachedState"
| "make_transition_table DisposedState Detached = Some DisposedState"
| "make_transition_table StoppedState Detached = Some StoppedState"
| "make_transition_table BrowserContextCreatedState Disposed = Some DisposedState"
| "make_transition_table TargetCreatedState Disposed = Some DisposedState"
| "make_transition_table DetachedState Disposed = Some DisposedState"
| "make_transition_table DisposedState Disposed = Some DisposedState"
| "make_transition_table StoppedState Disposed = Some StoppedState"
| "make_transition_table IdleState Stopped = Some StoppedState"
| "make_transition_table DisposedState Stopped = Some StoppedState"
| "make_transition_table StoppedState Stopped = Some StoppedState"
| "make_transition_table _ _ = None"

definition Process :: "lifecycle_event \<Rightarrow> lifecycle_state \<Rightarrow> bool \<times> lifecycle_state" where
  "Process event sm =
     (case make_transition_table sm event of None \<Rightarrow> (False, sm) | Some sm' \<Rightarrow> (True, sm'))"

definition MarkBrowserContextCreated :: "lifecycle_state \<Rightarrow> bool \<times> lifecycle_state" where
  "MarkBrowserContextCreated = Process BrowserContextCreated"

definition MarkTargetCreated :: "lifecycle_state \<Rightarrow> bool \<times> lifecycle_state" where
  "MarkTargetCreated = Process TargetCreated"

definition MarkAttached :: "lifecycle_state \<Rightarrow> bool \<times> lifecycle_state" where
  "MarkAttached = Process Attached"

definition MarkBaseDomainsEnabled :: "lifecycle_state \<Rightarrow> bool \<times> lifecycle_state" where
  "MarkBaseDomainsEnabled = Process BaseDomainsEnabled"

definition MarkDetached :: "lifecycle_state \<Rightarrow> bool \<times> lifecycle_state" where
  "MarkDetached = Process Detached"

definition MarkDisposed :: "lifecycle_state \<Rightarrow> bool \<times> lifecycle_state" where
  "MarkDisposed = Process Disposed"

definition MarkStopped :: "lifecycle_state \<Rightarrow> bool \<times> lifecycle_state" where
  "MarkStopped = Process Stopped"

section \<open>Runs\<close>

text \<open>
  A session calls the \<open>Mark\<close> functions in some order, some of them refused.  \<open>mark_all\<close> is the
  state after such a sequence of calls, with the calls that were accepted.
\<close>

definition Mark :: "lifecycle_event \<Rightarrow> lifecycle_state \<Rightarrow> bool \<times> lifecycle_state" where
  "Mark event =
     (case event of
        BrowserContextCreated \<Rightarrow> MarkBrowserContextCreated
      | TargetCreated \<Rightarrow> MarkTargetCreated
      | Attached \<Rightarrow> MarkAttached
      | BaseDomainsEnabled \<Rightarrow> MarkBaseDomainsEnabled
      | Detached \<Rightarrow> MarkDetached
      | Disposed \<Rightarrow> MarkDisposed
      | Stopped \<Rightarrow> MarkStopped)"

fun mark_all ::
    "lifecycle_event list \<Rightarrow> lifecycle_state \<Rightarrow> lifecycle_event list \<times> lifecycle_state" where
  "mark_all [] sm = ([], sm)"
| "mark_all (e # es) sm =
     (let (ok, sm') = Mark e sm; (accepted, final) = mark_all es sm'
      in (if ok then e # accepted else accepted, final))"

lemmas Mark_defs = Mark_def MarkBrowserContextCreated_def MarkTargetCreated_def MarkAttached_def
  MarkBaseDomainsEnabled_def MarkDetached_def MarkDisposed_def MarkStopped_def

lemma Mark_Process: "Mark e = Process e"
  by (cases e) (simp_all add: Mark_defs)

text \<open>The accepted calls are a path of the table.\<close>

inductive accepted_path :: "lifecycle_state \<Rightarrow> lifecycle_event list \<Rightarrow> lifecycle_state \<Rightarrow> bool" where
  path_Nil: "accepted_path s [] s"
| path_snoc: "accepted_path s es t \<Longrightarrow> make_transition_table t e = Some u \<Longrightarrow> accepted_path s (es @ [e]) u"

lemma path_append: "accepted_path t fs u \<Longrightarrow> accepted_path s es t \<Longrightarrow> accepted_path s (es @ fs) u"
proof (induction arbitrary: es rule: accepted_path.induct)
  case (path_snoc s' es' t e u)
  then show ?case
    using accepted_path.path_snoc [of s "es @ es'" t e u] by simp
qed simp

lemma path_Cons: "make_transition_table s e = Some t \<Longrightarrow> accepted_path t es u \<Longrightarrow> accepted_path s (e # es) u"
  using path_append [of t es u s "[e]"] path_snoc [OF path_Nil, of s e t] by simp

lemma mark_all_path: "mark_all es s = (accepted, t) \<Longrightarrow> accepted_path s accepted t"
  by (induction es arbitrary: s accepted)
    (auto simp: Mark_Process Process_def path_Nil split: option.splits prod.splits
      intro: path_Cons)

text \<open>
  What the accepted calls say about the state: the invariant of the session.  A page is usable
  only after the four set-up calls in their order; a context that was created is disposed before
  the session is disposed or stopped, and an attached target is detached before.
\<close>

fun history :: "lifecycle_state \<Rightarrow> lifecycle_event list \<Rightarrow> bool" where
  "history IdleState es \<longleftrightarrow> es = []"
| "history BrowserContextCreatedState es \<longleftrightarrow> es = [BrowserContextCreated]"
| "history TargetCreatedState es \<longleftrightarrow> es = [BrowserContextCreated, TargetCreated]"
| "history AttachedState es \<longleftrightarrow> es = [BrowserContextCreated, TargetCreated, Attached]"
| "history BaseDomainsEnabledState es \<longleftrightarrow>
     es = [BrowserContextCreated, TargetCreated, Attached, BaseDomainsEnabled]"
| "history DetachedState es \<longleftrightarrow>
     BrowserContextCreated \<in> set es \<and> Attached \<in> set es \<and> Detached \<in> set es \<and>
     Disposed \<notin> set es \<and> Stopped \<notin> set es"
| "history DisposedState es \<longleftrightarrow>
     BrowserContextCreated \<in> set es \<and> Disposed \<in> set es \<and> Stopped \<notin> set es \<and>
     (Attached \<in> set es \<longrightarrow> Detached \<in> set es)"
| "history StoppedState es \<longleftrightarrow>
     Stopped \<in> set es \<and> (BrowserContextCreated \<in> set es \<longrightarrow> Disposed \<in> set es) \<and>
     (Attached \<in> set es \<longrightarrow> Detached \<in> set es)"

lemma history_step:
  "history s es \<Longrightarrow> make_transition_table s e = Some t \<Longrightarrow> history t (es @ [e])"
  by (cases s; cases e) auto

lemma path_history: "accepted_path s es t \<Longrightarrow> s = IdleState \<Longrightarrow> history t es"
  by (induction rule: accepted_path.induct) (auto intro: history_step)

lemma mark_all_history: "mark_all es IdleState = (accepted, t) \<Longrightarrow> history t accepted"
  using mark_all_path path_history by blast

lemma mark_all_append:
  "snd (mark_all (es @ fs) s) = snd (mark_all fs (snd (mark_all es s)))"
  by (induction es arbitrary: s) (simp_all add: Let_def split_beta)

lemma stopped_stays: "snd (mark_all es StoppedState) = StoppedState"
proof (induction es)
  case (Cons e es)
  then show ?case by (cases e) (simp_all add: Mark_Process Process_def Let_def split_beta)
qed simp

lemma cleanup_stops: "snd (mark_all [Detached, Disposed, Stopped] s) = StoppedState"
  by (cases s) (simp_all add: Mark_Process Process_def)

end
