(* ===== verification/Browser_Page.thy ===== *)
theory Browser_Page
  imports Cdp_Tasks Browser_Lifecycle
begin

text \<open>
  \<open>crawler/browser_session.cpp\<close>, \<open>BrowserPageSession\<close>: the page of a run, set up and taken down with
  commands of the debugging protocol and guarded by the life cycle.
\<close>

section \<open>State\<close>

record page =
  lifecycle :: lifecycle_state
  cdp_session :: "CdpSession option"
  browser_context_id :: "string option"
  target_id :: "string option"
  session_id :: "string option"
  phases :: "string list"

definition new_page :: page where
  "new_page = \<lparr>lifecycle = IdleState, cdp_session = None, browser_context_id = None, target_id = None,
     session_id = None, phases = []\<rparr>"

text \<open>
  The page with the client it uses; writing and reading the parameters and results as JSON.  \<open>phases\<close> are the
  calls of the callback \<open>mark_phase\<close> so far, and \<open>phase_callback\<close> what the last of such a list of calls does.
\<close>

type_synonym 'j page_world = "page \<times> 'j cdp"

type_synonym 'j page_result = "(string + unit) outcome \<times> 'j page_world"

record 'j page_env =
  create_context_result :: "'j option \<Rightarrow> string option"
  create_target_params :: "string \<times> string \<Rightarrow> 'j option"
  create_target_result :: "'j option \<Rightarrow> string option"
  attach_params :: "string \<times> bool \<Rightarrow> 'j option"
  attach_result :: "'j option \<Rightarrow> string option"
  detach_params :: "string \<Rightarrow> 'j option"
  dispose_params :: "string \<Rightarrow> 'j option"
  lifecycle_params :: "bool \<Rightarrow> 'j option"
  empty_result :: "'j option \<Rightarrow> unit option"
  phase_callback :: "string list \<Rightarrow> unit outcome"

section \<open>Commands\<close>

definition try_do :: "('e + 'a) outcome \<times> 's \<Rightarrow> ('a \<Rightarrow> 's \<Rightarrow> ('e + 'b) outcome \<times> 's) \<Rightarrow> ('e + 'b) outcome \<times> 's" where
  "try_do r k = next_do r (\<lambda>x s. case x of Inl e \<Rightarrow> (Returns (Inl e), s) | Inr v \<Rightarrow> k v s)"

lemma next_do_Returns_iff:
  "next_do r k = (Returns v, s') \<longleftrightarrow> (\<exists>x s. r = (Returns x, s) \<and> k x s = (Returns v, s'))"
  by (auto simp: next_do_def split: prod.splits outcome.splits)

text \<open>\<open>SendCdp\<close>: an error of the client becomes a text.\<close>

definition SendCdp ::
    "('u, 'z) vendor_scheme \<Rightarrow> string \<Rightarrow> page \<Rightarrow> (CdpError + 't) outcome \<times> 'j cdp \<Rightarrow>
     (string + 't) outcome \<times> 'j page_world" where
  "SendCdp V m p r =
     next_do (fst r, (p, snd r)) (\<lambda>x s.
       case x of
         Inr v \<Rightarrow> (Returns (Inr v), s)
       | Inl err \<Rightarrow>
           (and_then (deref_text V (m @ '' failed'')) (\<lambda>action.
            and_then (FormatCdpError V action err) (\<lambda>t. Returns (Inl t))), s))"

definition SendCdpVoid ::
    "('u, 'z) vendor_scheme \<Rightarrow> string \<Rightarrow> page \<Rightarrow> (CdpError + unit) outcome \<times> 'j cdp \<Rightarrow> 'j page_result" where
  "SendCdpVoid V m p r = try_do (SendCdp V m p r) (\<lambda>_ s. (Returns (Inr ()), s))"

text \<open>\<open>Invariant(lifecycle_.Mark...(), ...)\<close>.\<close>

definition must_mark ::
    "(lifecycle_state \<Rightarrow> bool \<times> lifecycle_state) \<Rightarrow> string \<Rightarrow> 'j page_world \<Rightarrow> 'j page_result" where
  "must_mark mark message s =
     (let (ok, l) = mark (lifecycle (fst s)); s = ((fst s)\<lparr>lifecycle := l\<rparr>, snd s)
      in if ok then (Returns (Inr ()), s) else (Aborts message, s))"

definition mark_phase :: "'j page_env \<Rightarrow> string \<Rightarrow> 'j page_world \<Rightarrow> 'j page_result" where
  "mark_phase P phase s =
     (let ps = phases (fst s) @ [phase]
      in next_do (phase_callback P ps, ((fst s)\<lparr>phases := ps\<rparr>, snd s)) (\<lambda>_ s. (Returns (Inr ()), s)))"

section \<open>Setting up\<close>

definition MakeBrowserContext ::
    "('u, 'z) vendor_scheme \<Rightarrow> 'j cdp_env \<Rightarrow> 'j page_env \<Rightarrow> nat \<Rightarrow> 'j interference \<Rightarrow> 'j page_world \<Rightarrow> 'j page_result" where
  "MakeBrowserContext V E P me I s =
     try_do (SendCdp V ''Target.createBrowserContext'' (fst s)
         (Send V E me I (create_context_result P) ''Target.createBrowserContext'' None (snd s))) (\<lambda>bytes s.
     next_do (deref_text V bytes, s) (\<lambda>i s.
       must_mark MarkBrowserContextCreated ''invalid browser page lifecycle transition after creating browser context''
         ((fst s)\<lparr>browser_context_id := Some i\<rparr>, snd s)))"

definition MakeBlankTarget ::
    "('u, 'z) vendor_scheme \<Rightarrow> 'j cdp_env \<Rightarrow> 'j page_env \<Rightarrow> nat \<Rightarrow> 'j interference \<Rightarrow> 'j page_world \<Rightarrow> 'j page_result" where
  "MakeBlankTarget V E P me I s =
     (case browser_context_id (fst s) of
        None \<Rightarrow> (Aborts ''browser context must exist before creating a target'', s)
      | Some i \<Rightarrow>
          try_do (SendCdp V ''Target.createTarget'' (fst s)
              (Send_params V E me I (create_target_result P) (create_target_params P) ''Target.createTarget''
                (''about:blank'', i) None (snd s))) (\<lambda>bytes s.
          next_do (deref_text V bytes, s) (\<lambda>t s.
            must_mark MarkTargetCreated ''invalid browser page lifecycle transition after creating target''
              ((fst s)\<lparr>target_id := Some t\<rparr>, snd s))))"

text \<open>Replacing or resetting the session ends the one that was there.\<close>

definition drop_session :: "'j interference \<Rightarrow> 'j page_world \<Rightarrow> 'j page_world" where
  "drop_session I s =
     (case cdp_session (fst s) of
        None \<Rightarrow> s
      | Some c \<Rightarrow> ((fst s)\<lparr>cdp_session := None\<rparr>, UnregisterSession I c (snd s)))"

definition AttachToTarget ::
    "('u, 'z) vendor_scheme \<Rightarrow> 'j cdp_env \<Rightarrow> 'j page_env \<Rightarrow> nat \<Rightarrow> 'j interference \<Rightarrow> 'j page_world \<Rightarrow> 'j page_result" where
  "AttachToTarget V E P me I s =
     (case target_id (fst s) of
        None \<Rightarrow> (Aborts ''target must exist before attaching'', s)
      | Some t \<Rightarrow>
          try_do (SendCdp V ''Target.attachToTarget'' (fst s)
              (Send_params V E me I (attach_result P) (attach_params P) ''Target.attachToTarget''
                (t, True) None (snd s))) (\<lambda>bytes s.
          next_do (deref_text V bytes, s) (\<lambda>i s.
            case MakeSession I i t (snd s) of
              (Inl err, client) \<Rightarrow>
                (and_then (FormatCdpError V ''failed to register cdp target session'' err) (\<lambda>d. Returns (Inl d)),
                 (fst s, client))
            | (Inr c, client) \<Rightarrow>
                let s = drop_session I ((fst s)\<lparr>session_id := Some i\<rparr>, client)
                in must_mark MarkAttached ''invalid browser page lifecycle transition after attaching target''
                     ((fst s)\<lparr>cdp_session := Some c\<rparr>, snd s))))"

definition AttachFreshTarget ::
    "('u, 'z) vendor_scheme \<Rightarrow> 'j cdp_env \<Rightarrow> 'j page_env \<Rightarrow> nat \<Rightarrow> 'j interference \<Rightarrow> 'j page_world \<Rightarrow> 'j page_result" where
  "AttachFreshTarget V E P me I s =
     try_do (mark_phase P ''create_browser_context'' s) (\<lambda>_ s.
     try_do (MakeBrowserContext V E P me I s) (\<lambda>_ s.
     try_do (mark_phase P ''create_target'' s) (\<lambda>_ s.
     try_do (MakeBlankTarget V E P me I s) (\<lambda>_ s.
     try_do (mark_phase P ''attach_target'' s) (\<lambda>_ s.
     try_do (AttachToTarget V E P me I s) (\<lambda>_ s.
     (Returns (Inr ()), s)))))))"

text \<open>\<open>GetSession().Send\<close>, with the check in \<open>GetSession\<close>.\<close>

definition with_session ::
    "'j page_world \<Rightarrow> (CdpSession \<Rightarrow> 'j page_result) \<Rightarrow> 'j page_result" where
  "with_session s k =
     (case cdp_session (fst s) of
        None \<Rightarrow> (Aborts ''target session is not attached'', s) | Some c \<Rightarrow> k c)"

definition enable_domain ::
    "('u, 'z) vendor_scheme \<Rightarrow> 'j cdp_env \<Rightarrow> 'j page_env \<Rightarrow> nat \<Rightarrow> 'j interference \<Rightarrow> string \<Rightarrow> 'j page_world \<Rightarrow> 'j page_result" where
  "enable_domain V E P me I m s =
     with_session s (\<lambda>c. SendCdpVoid V m (fst s) (Session_Send V E me I (empty_result P) c m (snd s)))"

definition EnableBaseDomains ::
    "('u, 'z) vendor_scheme \<Rightarrow> 'j cdp_env \<Rightarrow> 'j page_env \<Rightarrow> nat \<Rightarrow> 'j interference \<Rightarrow> 'j page_world \<Rightarrow> 'j page_result" where
  "EnableBaseDomains V E P me I s =
     try_do (mark_phase P ''enable_page'' s) (\<lambda>_ s.
     try_do (enable_domain V E P me I ''Page.enable'' s) (\<lambda>_ s.
     try_do (mark_phase P ''enable_runtime'' s) (\<lambda>_ s.
     try_do (enable_domain V E P me I ''Runtime.enable'' s) (\<lambda>_ s.
     try_do (mark_phase P ''enable_network'' s) (\<lambda>_ s.
     try_do (enable_domain V E P me I ''Network.enable'' s) (\<lambda>_ s.
     try_do (mark_phase P ''enable_lifecycle_events'' s) (\<lambda>_ s.
     try_do (with_session s (\<lambda>c. SendCdpVoid V ''Page.setLifecycleEventsEnabled'' (fst s)
         (Session_Send_params V E me I (empty_result P) (lifecycle_params P) c
           ''Page.setLifecycleEventsEnabled'' True (snd s)))) (\<lambda>_ s.
     must_mark MarkBaseDomainsEnabled
       ''invalid browser page lifecycle transition after enabling base CDP domains'' s))))))))"

section \<open>Taking down\<close>

definition Detach ::
    "('u, 'z) vendor_scheme \<Rightarrow> 'j cdp_env \<Rightarrow> 'j page_env \<Rightarrow> nat \<Rightarrow> 'j interference \<Rightarrow> 'j page_world \<Rightarrow> 'j page_result" where
  "Detach V E P me I s =
     (case session_id (fst s) of
        None \<Rightarrow> (Returns (Inr ()), s)
      | Some i \<Rightarrow>
          try_do (SendCdpVoid V ''Target.detachFromTarget'' (fst s)
              (Send_params V E me I (empty_result P) (detach_params P) ''Target.detachFromTarget'' i None (snd s))) (\<lambda>_ s.
          let s = drop_session I s; s = ((fst s)\<lparr>session_id := None\<rparr>, snd s)
          in must_mark MarkDetached ''invalid browser page lifecycle transition after detaching target'' s))"

definition DisposeBrowserContext ::
    "('u, 'z) vendor_scheme \<Rightarrow> 'j cdp_env \<Rightarrow> 'j page_env \<Rightarrow> nat \<Rightarrow> 'j interference \<Rightarrow> 'j page_world \<Rightarrow> 'j page_result" where
  "DisposeBrowserContext V E P me I s =
     (case browser_context_id (fst s) of
        None \<Rightarrow> (Returns (Inr ()), s)
      | Some i \<Rightarrow>
          try_do (SendCdpVoid V ''Target.disposeBrowserContext'' (fst s)
              (Send_params V E me I (empty_result P) (dispose_params P) ''Target.disposeBrowserContext'' i None (snd s))) (\<lambda>_ s.
          must_mark MarkDisposed ''invalid browser page lifecycle transition after disposing browser context''
            ((fst s)\<lparr>browser_context_id := None, target_id := None\<rparr>, snd s)))"

definition Stop_page ::
    "('u, 'z) vendor_scheme \<Rightarrow> 'j cdp_env \<Rightarrow> 'j page_env \<Rightarrow> nat \<Rightarrow> 'j interference \<Rightarrow> 'j page_world \<Rightarrow> 'j page_result" where
  "Stop_page V E P me I s =
     try_do (Detach V E P me I s) (\<lambda>_ s.
     try_do (DisposeBrowserContext V E P me I s) (\<lambda>_ s.
     must_mark MarkStopped ''invalid browser page lifecycle transition after stopping page session'' s))"

definition Stop_phases ::
    "('u, 'z) vendor_scheme \<Rightarrow> 'j cdp_env \<Rightarrow> 'j page_env \<Rightarrow> nat \<Rightarrow> 'j interference \<Rightarrow> 'j page_world \<Rightarrow> 'j page_result" where
  "Stop_phases V E P me I s =
     try_do (if session_id (fst s) \<noteq> None then try_do (mark_phase P ''detach_target'' s) (\<lambda>_. Detach V E P me I)
             else (Returns (Inr ()), s)) (\<lambda>_ s.
     try_do (if browser_context_id (fst s) \<noteq> None
             then try_do (mark_phase P ''dispose_browser_context'' s) (\<lambda>_. DisposeBrowserContext V E P me I)
             else (Returns (Inr ()), s)) (\<lambda>_ s.
     Stop_page V E P me I s))"

definition BrowserContextId :: "page \<Rightarrow> string outcome" where
  "BrowserContextId p =
     (case browser_context_id p of None \<Rightarrow> Aborts ''browser context is not created'' | Some i \<Rightarrow> Returns i)"

definition GetSession :: "page \<Rightarrow> CdpSession outcome" where
  "GetSession p = (case cdp_session p of None \<Rightarrow> Aborts ''target session is not attached'' | Some c \<Rightarrow> Returns c)"

definition TargetId :: "page \<Rightarrow> string outcome" where
  "TargetId p = (case target_id p of None \<Rightarrow> Aborts ''target is not created'' | Some i \<Rightarrow> Returns i)"

definition SessionId :: "page \<Rightarrow> string outcome" where
  "SessionId p = (case session_id p of None \<Rightarrow> Aborts ''target is not attached'' | Some i \<Rightarrow> Returns i)"

section \<open>The state of the page\<close>

text \<open>What the life cycle says about the identifiers.\<close>

definition page_ok :: "page \<Rightarrow> bool" where
  "page_ok p \<longleftrightarrow>
     (case lifecycle p of
        IdleState \<Rightarrow> browser_context_id p = None \<and> target_id p = None \<and> session_id p = None
      | BrowserContextCreatedState \<Rightarrow> browser_context_id p \<noteq> None \<and> target_id p = None \<and> session_id p = None
      | TargetCreatedState \<Rightarrow> browser_context_id p \<noteq> None \<and> target_id p \<noteq> None \<and> session_id p = None
      | AttachedState \<Rightarrow> browser_context_id p \<noteq> None \<and> target_id p \<noteq> None \<and> session_id p \<noteq> None
      | BaseDomainsEnabledState \<Rightarrow> browser_context_id p \<noteq> None \<and> target_id p \<noteq> None \<and> session_id p \<noteq> None
      | DetachedState \<Rightarrow> browser_context_id p \<noteq> None \<and> target_id p \<noteq> None \<and> session_id p = None
      | DisposedState \<Rightarrow> browser_context_id p = None \<and> target_id p = None \<and> session_id p = None
      | StoppedState \<Rightarrow> browser_context_id p = None \<and> target_id p = None \<and> session_id p = None) \<and>
     (case cdp_session p of None \<Rightarrow> session_id p = None
      | Some c \<Rightarrow> session_id p = Some (cs_session_id c) \<and> target_id p = Some (cs_target_id c))"

lemma new_page_ok: "page_ok new_page"
  by (simp add: page_ok_def new_page_def)

lemma page_ok_phases [simp]: "page_ok (p\<lparr>phases := ps\<rparr>) = page_ok p"
  by (simp add: page_ok_def cong: lifecycle_state.case_cong option.case_cong)

text \<open>
  A safe operation: the client only takes its own steps, the page stays well-formed, success gives \<open>Q\<close>, and
  the process ends at most because a text of the browser or of an exception is not valid UTF-8, never
  because of the life cycle.
\<close>

definition safe ::
    "('u, 'z) vendor_scheme \<Rightarrow> 'j cdp_env \<Rightarrow> ('a \<Rightarrow> 'j page_world \<Rightarrow> bool) \<Rightarrow> 'j page_world \<Rightarrow>
     (string + 'a) outcome \<times> 'j page_world \<Rightarrow> bool" where
  "safe V E Q s r \<longleftrightarrow> run_to V E (snd s) (snd (snd r)) \<and>
     (case fst r of
        Aborts why \<Rightarrow> why = ''expected value''
      | Throws _ \<Rightarrow> page_ok (fst (snd r))
      | Returns (Inl _) \<Rightarrow> page_ok (fst (snd r))
      | Returns (Inr v) \<Rightarrow> page_ok (fst (snd r)) \<and> Q v (snd r))"

lemma deref_text_aborts: "deref_text V b = Aborts why \<Longrightarrow> why = ''expected value''"
  by (auto simp: deref_text_def split: sum.splits)

lemma deref_text_throws: "deref_text V b \<noteq> Throws why"
  by (auto simp: deref_text_def split: sum.splits)

lemma safe_try_do:
  assumes "safe V E Q s r" and "cdp_ok (snd s)"
    and "\<And>v s1. r = (Returns (Inr v), s1) \<Longrightarrow> page_ok (fst s1) \<Longrightarrow> Q v s1 \<Longrightarrow> cdp_ok (snd s1) \<Longrightarrow> safe V E R s1 (k v s1)"
  shows "safe V E R s (try_do r k)"
proof (cases "\<exists>v s1. r = (Returns (Inr v), s1)")
  case True
  then obtain v s1 where r: "r = (Returns (Inr v), s1)" by blast
  then have "run_to V E (snd s) (snd s1)" "page_ok (fst s1)" "Q v s1" using assms(1) by (simp_all add: safe_def)
  then show ?thesis using assms(3) [OF r] run_to_ok [OF assms(2)] run_to_trans [of V E "snd s"] r
    by (auto simp: try_do_def next_do_def safe_def)
next
  case False
  then show ?thesis using assms(1)
    by (cases r) (auto simp: safe_def try_do_def next_do_def split: outcome.splits sum.splits)
qed

lemma safe_deref:
  assumes "page_ok (fst s)" and "\<And>t. deref_text V b = Returns t \<Longrightarrow> safe V E R s (k t s)"
  shows "safe V E R s (next_do (deref_text V b, s) k)"
  using assms deref_text_aborts [of V b] deref_text_throws [of V b]
  by (cases "deref_text V b") (auto simp: next_do_def safe_def)

lemma safe_mark:
  assumes "run_to V E (snd s) (snd s1)" and "mark (lifecycle (fst s1)) = (True, l)"
    and "page_ok ((fst s1)\<lparr>lifecycle := l\<rparr>)" and "Q () ((fst s1)\<lparr>lifecycle := l\<rparr>, snd s1)"
  shows "safe V E Q s (must_mark mark msg s1)"
  using assms by (simp add: must_mark_def safe_def)

text \<open>A callback that ends the process at most because of such a text.\<close>

definition marks_ok :: "'j page_env \<Rightarrow> bool" where
  "marks_ok P \<longleftrightarrow> (\<forall>ps why. phase_callback P ps = Aborts why \<longrightarrow> why = ''expected value'')"

lemma mark_phase_safe:
  assumes "marks_ok P" and "page_ok (fst s)"
  shows "safe V E (\<lambda>_ s1. snd s1 = snd s \<and> lifecycle (fst s1) = lifecycle (fst s) \<and> session_id (fst s1) = session_id (fst s) \<and>
      browser_context_id (fst s1) = browser_context_id (fst s)) s (mark_phase P x s)"
  using assms by (auto simp: marks_ok_def mark_phase_def Let_def next_do_def safe_def split: outcome.splits)

text \<open>Commands.\<close>

lemma SendRaw_aborts_text:
  "others V E me I \<Longrightarrow> cdp_ok s \<Longrightarrow> fst (SendRaw V E me I m params sid s) = Aborts why \<Longrightarrow> why = ''expected value''"
  using SendRaw_aborts deref_text_aborts by blast

definition client_safe :: "('u, 'z) vendor_scheme \<Rightarrow> 'j cdp_env \<Rightarrow> 'j cdp \<Rightarrow> (CdpError + 't) outcome \<times> 'j cdp \<Rightarrow> bool" where
  "client_safe V E c r \<longleftrightarrow> run_to V E c (snd r) \<and> (\<forall>why. fst r = Aborts why \<longrightarrow> why = ''expected value'')"

lemma as_result_safe:
  assumes "client_safe V E c r"
  shows "client_safe V E c (as_result_or_protocol as_t r)"
  using assms by (cases r) (auto simp: client_safe_def as_result_or_protocol_def next_do_def split: outcome.splits)

lemma SendRaw_safe: "others V E me I \<Longrightarrow> cdp_ok c \<Longrightarrow> client_safe V E c (SendRaw V E me I m params sid c)"
  using SendRaw_run SendRaw_aborts_text by (auto simp: client_safe_def)

lemma Send_safe: "others V E me I \<Longrightarrow> cdp_ok c \<Longrightarrow> client_safe V E c (Send V E me I as_t m sid c)"
  by (simp add: Send_def as_result_safe SendRaw_safe)

lemma Send_params_safe: "others V E me I \<Longrightarrow> cdp_ok c \<Longrightarrow> client_safe V E c (Send_params V E me I as_t value_of m x sid c)"
  by (auto simp: Send_params_def client_safe_def [of _ _ _ "(_, _)"] intro: as_result_safe SendRaw_safe split: option.split)

lemmas client_sends = Send_safe Send_params_safe

lemma FormatCdpError_aborts: "FormatCdpError V a err = Aborts why \<Longrightarrow> why = ''expected value''"
  by (auto simp: FormatCdpError_def deref_text_aborts split: option.splits)

lemma SendCdp_safe:
  assumes "client_safe V E (snd s) r" and "page_ok (fst s)"
  shows "safe V E (\<lambda>v s1. fst s1 = fst s) s (SendCdp V m (fst s) r)"
  using assms
  by (cases r) (auto simp: SendCdp_def safe_def client_safe_def next_do_def and_then_def
      dest: FormatCdpError_aborts deref_text_aborts split: outcome.splits sum.splits)

lemma SendCdpVoid_safe:
  assumes "client_safe V E (snd s) r" and "page_ok (fst s)" and "cdp_ok (snd s)"
  shows "safe V E (\<lambda>v s1. fst s1 = fst s) s (SendCdpVoid V m (fst s) r)"
  unfolding SendCdpVoid_def
  by (rule safe_try_do [OF SendCdp_safe [OF assms(1,2)] assms(3)]) (simp add: safe_def)

section \<open>Operations\<close>

lemmas marks = Mark_defs Process_def

lemma MakeBrowserContext_safe:
  assumes "others V E me I" and "cdp_ok (snd s)" and "page_ok (fst s)" and "lifecycle (fst s) = IdleState"
  shows "safe V E (\<lambda>_ s1. lifecycle (fst s1) = BrowserContextCreatedState) s (MakeBrowserContext V E P me I s)"
  unfolding MakeBrowserContext_def
proof (rule safe_try_do [OF SendCdp_safe [OF Send_safe [OF assms(1,2)] assms(3)] assms(2)])
  fix bytes and s1 :: "'c page_world"
  assume s1: "page_ok (fst s1)" "fst s1 = fst s"
  show "safe V E (\<lambda>_ s1. lifecycle (fst s1) = BrowserContextCreatedState) s1
      (next_do (deref_text V bytes, s1) (\<lambda>i s. must_mark MarkBrowserContextCreated
        ''invalid browser page lifecycle transition after creating browser context''
        ((fst s)\<lparr>browser_context_id := Some i\<rparr>, snd s)))"
    using assms(3,4) s1(2)
    by (intro safe_deref [OF s1(1)] safe_mark [where l = BrowserContextCreatedState])
      (auto simp: marks page_ok_def split: option.splits)
qed

lemma MakeBlankTarget_safe:
  assumes "others V E me I" and "cdp_ok (snd s)" and "page_ok (fst s)" and "lifecycle (fst s) = BrowserContextCreatedState"
  shows "safe V E (\<lambda>_ s1. lifecycle (fst s1) = TargetCreatedState) s (MakeBlankTarget V E P me I s)"
proof -
  obtain i where i: "browser_context_id (fst s) = Some i" using assms(3,4) by (auto simp: page_ok_def)
  show ?thesis
    unfolding MakeBlankTarget_def i option.case
  proof (rule safe_try_do [OF SendCdp_safe [OF Send_params_safe [OF assms(1,2)] assms(3)] assms(2)])
    fix bytes and s1 :: "'c page_world"
    assume s1: "page_ok (fst s1)" "fst s1 = fst s"
    show "safe V E (\<lambda>_ s1. lifecycle (fst s1) = TargetCreatedState) s1
        (next_do (deref_text V bytes, s1) (\<lambda>t s. must_mark MarkTargetCreated
          ''invalid browser page lifecycle transition after creating target'' ((fst s)\<lparr>target_id := Some t\<rparr>, snd s)))"
      using assms(3,4) s1(2)
      by (intro safe_deref [OF s1(1)] safe_mark [where l = TargetCreatedState])
        (auto simp: marks page_ok_def split: option.splits)
  qed
qed

lemma MakeSession_ids:
  "MakeSession I i t c = (Inr d, c') \<Longrightarrow> cs_session_id d = i \<and> cs_target_id d = t"
  by (auto simp: MakeSession_def open_section_def Let_def split: option.splits if_splits)

lemma AttachToTarget_safe:
  assumes "others V E me I" and "cdp_ok (snd s)" and "page_ok (fst s)" and "lifecycle (fst s) = TargetCreatedState"
  shows "safe V E (\<lambda>_ s1. lifecycle (fst s1) = AttachedState) s (AttachToTarget V E P me I s)"
proof -
  obtain t where t: "target_id (fst s) = Some t" using assms(3,4) by (auto simp: page_ok_def)
  have no: "cdp_session (fst s) = None" using assms(3,4) by (auto simp: page_ok_def split: option.splits)
  let ?k = "\<lambda>i (s :: 'c page_world). case MakeSession I i t (snd s) of
      (Inl err, client) \<Rightarrow>
        (and_then (FormatCdpError V ''failed to register cdp target session'' err) (\<lambda>d. Returns (Inl d)), (fst s, client))
    | (Inr c, client) \<Rightarrow>
        let s = drop_session I ((fst s)\<lparr>session_id := Some i\<rparr>, client)
        in must_mark MarkAttached ''invalid browser page lifecycle transition after attaching target''
             ((fst s)\<lparr>cdp_session := Some c\<rparr>, snd s)"
  have k: "safe V E (\<lambda>_ s1. lifecycle (fst s1) = AttachedState) s1 (?k i s1)" if "fst s1 = fst s" for i and s1 :: "'c page_world"
  proof (cases "MakeSession I i t (snd s1)")
    case (Pair r client)
    have run: "run_to V E (snd s1) client" using MakeSession_run [OF assms(1), of "snd s1" i t] Pair by simp
    show ?thesis
    proof (cases r)
      case (Inl err)
      then show ?thesis using Pair run assms(3) that
        by (auto simp: safe_def and_then_def dest: FormatCdpError_aborts split: outcome.splits)
    next
      case (Inr c)
      then have "cs_session_id c = i" "cs_target_id c = t" using MakeSession_ids Pair by fastforce+
      then show ?thesis using Pair Inr run assms(3,4) t no that
        by (auto simp: drop_session_def intro!: safe_mark [where l = AttachedState] simp: marks page_ok_def split: option.splits)
    qed
  qed
  show ?thesis
    unfolding AttachToTarget_def t option.case
  proof (rule safe_try_do [OF SendCdp_safe [OF Send_params_safe [OF assms(1,2)] assms(3)] assms(2)])
    fix bytes and s1 :: "'c page_world"
    assume s1: "page_ok (fst s1)" "fst s1 = fst s"
    show "safe V E (\<lambda>_ s1. lifecycle (fst s1) = AttachedState) s1 (next_do (deref_text V bytes, s1) ?k)"
      by (rule safe_deref [OF s1(1)]) (rule k [OF s1(2)])
  qed
qed

text \<open>A phase marked before an operation.\<close>

lemma safe_phase:
  assumes "marks_ok P" and "page_ok (fst s)" and "cdp_ok (snd s)"
    and "\<And>s1. page_ok (fst s1) \<Longrightarrow> cdp_ok (snd s1) \<Longrightarrow> lifecycle (fst s1) = lifecycle (fst s) \<Longrightarrow>
      session_id (fst s1) = session_id (fst s) \<Longrightarrow> browser_context_id (fst s1) = browser_context_id (fst s) \<Longrightarrow>
      safe V E Q s1 (k () s1)"
  shows "safe V E Q s (try_do (mark_phase P x s) k)"
  by (rule safe_try_do [OF mark_phase_safe [OF assms(1,2)] assms(3)]) (use assms(4) in auto)

lemma AttachFreshTarget_safe:
  assumes "others V E me I" and "marks_ok P" and "cdp_ok (snd s)" and "page_ok (fst s)" and "lifecycle (fst s) = IdleState"
  shows "safe V E (\<lambda>_ s1. lifecycle (fst s1) = AttachedState) s (AttachFreshTarget V E P me I s)"
  unfolding AttachFreshTarget_def
  by (rule safe_phase [OF assms(2)];
      (rule safe_try_do [OF MakeBrowserContext_safe [OF assms(1)]])?; (rule safe_phase [OF assms(2)])?;
      (rule safe_try_do [OF MakeBlankTarget_safe [OF assms(1)]])?; (rule safe_phase [OF assms(2)])?;
      (rule safe_try_do [OF AttachToTarget_safe [OF assms(1)]])?;
      simp add: assms safe_def)

lemma with_session_safe:
  assumes "page_ok (fst s)" and "session_id (fst s) \<noteq> None" and "\<And>c. safe V E Q s (k c)"
  shows "safe V E Q s (with_session s k)"
  using assms by (cases "cdp_session (fst s)") (auto simp: with_session_def page_ok_def)

lemma Session_Send_safe:
  "others V E me I \<Longrightarrow> cdp_ok c \<Longrightarrow> client_safe V E c (Session_Send V E me I as_t d m c)"
  "others V E me I \<Longrightarrow> cdp_ok c \<Longrightarrow> client_safe V E c (Session_Send_params V E me I as_t value_of d m x c)"
  by (simp_all add: Session_Send_def Session_Send_params_def Send_safe Send_params_safe)

lemma attached_session: "page_ok p \<Longrightarrow> lifecycle p = AttachedState \<Longrightarrow> session_id p \<noteq> None"
  by (simp add: page_ok_def)

lemma enable_domain_safe:
  assumes "others V E me I" and "cdp_ok (snd s)" and "page_ok (fst s)" and "lifecycle (fst s) = AttachedState"
  shows "safe V E (\<lambda>_ s1. lifecycle (fst s1) = AttachedState) s (enable_domain V E P me I m s)"
proof -
  have "safe V E (\<lambda>_ s1. fst s1 = fst s) s (enable_domain V E P me I m s)"
    unfolding enable_domain_def
    by (rule with_session_safe [OF assms(3) attached_session [OF assms(3,4)]])
      (rule SendCdpVoid_safe [OF Session_Send_safe(1) [OF assms(1,2)] assms(3,2)])
  then show ?thesis using assms(4) by (auto simp: safe_def split: outcome.splits sum.splits)
qed

lemma EnableBaseDomains_safe:
  assumes "others V E me I" and "marks_ok P" and "cdp_ok (snd s)" and "page_ok (fst s)" and "lifecycle (fst s) = AttachedState"
  shows "safe V E (\<lambda>_ s1. lifecycle (fst s1) = BaseDomainsEnabledState) s (EnableBaseDomains V E P me I s)"
proof -
  note enable = enable_domain_safe [OF assms(1)]
  have last: "safe V E (\<lambda>_ s1. lifecycle (fst s1) = BaseDomainsEnabledState) s1
      (try_do (with_session s1 (\<lambda>c. SendCdpVoid V ''Page.setLifecycleEventsEnabled'' (fst s1)
         (Session_Send_params V E me I (empty_result P) (lifecycle_params P) c
           ''Page.setLifecycleEventsEnabled'' True (snd s1)))) (\<lambda>_ s.
       must_mark MarkBaseDomainsEnabled
         ''invalid browser page lifecycle transition after enabling base CDP domains'' s))"
    if "page_ok (fst s1)" "lifecycle (fst s1) = AttachedState" "cdp_ok (snd s1)" for s1
  proof (rule safe_try_do [OF with_session_safe [OF that(1) attached_session [OF that(1,2)]] that(3)])
    show "safe V E (\<lambda>_ s2. fst s2 = fst s1) s1 (SendCdpVoid V ''Page.setLifecycleEventsEnabled'' (fst s1)
         (Session_Send_params V E me I (empty_result P) (lifecycle_params P) c
           ''Page.setLifecycleEventsEnabled'' True (snd s1)))" for c
      by (rule SendCdpVoid_safe [OF Session_Send_safe(2) [OF assms(1) that(3)] that(1,3)])
  qed (use that(2) in \<open>auto intro!: safe_mark [where l = BaseDomainsEnabledState] simp: marks page_ok_def split: option.splits\<close>)
  show ?thesis
    unfolding EnableBaseDomains_def
    by (rule safe_phase [OF assms(2)]; (rule safe_try_do [OF enable])?; (rule safe_phase [OF assms(2)])?;
        (rule safe_try_do [OF enable])?; (rule safe_phase [OF assms(2)])?; (rule safe_try_do [OF enable])?;
        (rule safe_phase [OF assms(2)])?; (rule last)?; simp add: assms)
qed

section \<open>Taking down from any state\<close>

lemma Detach_safe:
  assumes "others V E me I" and "cdp_ok (snd s)" and "page_ok (fst s)"
  shows "safe V E (\<lambda>_ s1. session_id (fst s1) = None) s (Detach V E P me I s)"
proof (cases "session_id (fst s)")
  case None
  then show ?thesis using assms(3) by (simp add: Detach_def safe_def)
next
  case (Some i)
  then obtain c where c: "cdp_session (fst s) = Some c" "lifecycle (fst s) \<in> {AttachedState, BaseDomainsEnabledState}"
    using assms(3) by (auto simp: page_ok_def split: option.splits lifecycle_state.splits)
  show ?thesis
    unfolding Detach_def Some option.case
  proof (rule safe_try_do [OF SendCdpVoid_safe [OF Send_params_safe [OF assms(1,2)] assms(3,2)] assms(2)])
    fix u and s1 :: "'c page_world"
    assume s1: "fst s1 = fst s"
    have "run_to V E (snd s1) (UnregisterSession I c (snd s1))" by (rule UnregisterSession_run [OF assms(1)])
    then show "safe V E (\<lambda>_ s1. session_id (fst s1) = None) s1
        (let s = drop_session I s1; s = ((fst s)\<lparr>session_id := None\<rparr>, snd s)
         in must_mark MarkDetached ''invalid browser page lifecycle transition after detaching target'' s)"
      using c assms(3) s1
      by (auto simp: drop_session_def Let_def intro!: safe_mark [where l = DetachedState] simp: marks page_ok_def)
  qed
qed

lemma DisposeBrowserContext_safe:
  assumes "others V E me I" and "cdp_ok (snd s)" and "page_ok (fst s)" and "session_id (fst s) = None"
  shows "safe V E (\<lambda>_ s1. lifecycle (fst s1) \<in> {IdleState, DisposedState, StoppedState}) s
    (DisposeBrowserContext V E P me I s)"
proof (cases "browser_context_id (fst s)")
  case None
  then show ?thesis using assms(3,4)
    by (auto simp: DisposeBrowserContext_def safe_def page_ok_def split: lifecycle_state.splits)
next
  case (Some i)
  then have l: "lifecycle (fst s) \<in> {BrowserContextCreatedState, TargetCreatedState, DetachedState}"
    using assms(3,4) by (auto simp: page_ok_def split: lifecycle_state.splits)
  show ?thesis
    unfolding DisposeBrowserContext_def Some option.case
  proof (rule safe_try_do [OF SendCdpVoid_safe [OF Send_params_safe [OF assms(1,2)] assms(3,2)] assms(2)])
    fix u and s1 :: "'c page_world"
    assume s1: "fst s1 = fst s"
    show "safe V E (\<lambda>_ s1. lifecycle (fst s1) \<in> {IdleState, DisposedState, StoppedState}) s1
        (must_mark MarkDisposed ''invalid browser page lifecycle transition after disposing browser context''
          ((fst s1)\<lparr>browser_context_id := None, target_id := None\<rparr>, snd s1))"
      using l assms(3,4) s1
      by (auto intro!: safe_mark [where l = DisposedState] simp: marks page_ok_def split: option.splits)
  qed
qed

lemma Stop_page_safe:
  assumes "others V E me I" and "cdp_ok (snd s)" and "page_ok (fst s)"
  shows "safe V E (\<lambda>_ s1. lifecycle (fst s1) = StoppedState) s (Stop_page V E P me I s)"
  unfolding Stop_page_def
proof (rule safe_try_do [OF Detach_safe [OF assms] assms(2)])
  fix u and s1 :: "'c page_world"
  assume s1: "page_ok (fst s1)" "session_id (fst s1) = None" "cdp_ok (snd s1)"
  show "safe V E (\<lambda>_ s1. lifecycle (fst s1) = StoppedState) s1
      (try_do (DisposeBrowserContext V E P me I s1) (\<lambda>_. must_mark MarkStopped
        ''invalid browser page lifecycle transition after stopping page session''))"
    by (rule safe_try_do [OF DisposeBrowserContext_safe [OF assms(1) s1(3,1,2)] s1(3)])
      (auto intro!: safe_mark [where l = StoppedState] simp: marks page_ok_def split: option.splits)
qed

lemma Stop_phases_safe:
  assumes "others V E me I" and "marks_ok P" and "cdp_ok (snd s)" and "page_ok (fst s)"
  shows "safe V E (\<lambda>_ s1. lifecycle (fst s1) = StoppedState) s (Stop_phases V E P me I s)"
  unfolding Stop_phases_def
proof (rule safe_try_do [where Q = "\<lambda>_ s1. session_id (fst s1) = None", OF _ assms(3)])
  have "safe V E (\<lambda>_ s1. session_id (fst s1) = None) s (try_do (mark_phase P ''detach_target'' s) (\<lambda>_. Detach V E P me I))"
    by (rule safe_phase [OF assms(2,4,3)]) (rule Detach_safe [OF assms(1)])
  then show "safe V E (\<lambda>_ s1. session_id (fst s1) = None) s
      (if session_id (fst s) \<noteq> None then try_do (mark_phase P ''detach_target'' s) (\<lambda>_. Detach V E P me I)
       else (Returns (Inr ()), s))"
    using assms(4) by (simp add: safe_def)
next
  fix u and s1 :: "'c page_world"
  assume s1: "page_ok (fst s1)" "session_id (fst s1) = None" "cdp_ok (snd s1)"
  let ?d = "try_do (mark_phase P ''dispose_browser_context'' s1) (\<lambda>_. DisposeBrowserContext V E P me I)"
  let ?r = "if browser_context_id (fst s1) \<noteq> None then ?d else (Returns (Inr ()), s1)"
  have "safe V E (\<lambda>_ s1. lifecycle (fst s1) \<in> {IdleState, DisposedState, StoppedState}) s1 ?d"
    by (rule safe_phase [OF assms(2) s1(1,3)]) (rule DisposeBrowserContext_safe [OF assms(1)], simp_all add: s1)
  then have r: "safe V E (\<lambda>_ _. True) s1 ?r"
    using s1(1) by (auto simp: safe_def split: outcome.splits sum.splits)
  show "safe V E (\<lambda>_ s1. lifecycle (fst s1) = StoppedState) s1 (try_do ?r (\<lambda>_. Stop_page V E P me I))"
    by (rule safe_try_do [OF r s1(3)]) (rule Stop_page_safe [OF assms(1)])
qed

end
