(* ===== verification/Page_Tracker.thy ===== *)
theory Page_Tracker
  imports Runner_Url Browser_Page Crawler_Error "HOL-Library.AList"
begin

text \<open>
  \<open>crawler/runner.cpp\<close>, \<open>PageTracker\<close>: what is known of the requests of a page, from the events of the
  debugging protocol.  Every public function is one critical section.  A handler ends the process,
  raises before it changed anything, or gives the new state.
\<close>

section \<open>Data\<close>

record TrackedRequest =
  tr_request_url :: string
  tr_method :: string
  tr_status_code :: "int option"
  tr_status_message :: "string option"
  tr_headers :: "headers option"
  tr_timestamp :: "string option"
  tr_loader_id :: "string option"
  tr_frame_id :: "string option"
  tr_resource_type :: "string option"
  tr_loaded :: bool
  is_tracked_main_document :: bool

record MainResponse =
  mr_request_url :: string
  mr_status_code :: int
  mr_status_message :: string
  mr_headers :: headers
  mr_timestamp :: string

text \<open>\<open>Data\<close>; maps are association lists, times are nanoseconds.\<close>

record tracker =
  pt_session_id :: string
  pt_target_id :: string
  page_id :: string
  active_requests :: "(string \<times> TrackedRequest) list"
  redirected_resources :: "CapturedResource list"
  redirect_chain :: "string list"
  main_document_redirects :: "CapturedMainDocumentRedirect list"
  inflight :: "string set"
  main_request_id :: "string option"
  main_response_request_id :: "string option"
  main_loader_id :: "string option"
  main_frame_id :: "string option"
  seed_navigation_url :: "string option"
  completed_main_request :: "TrackedRequest option"
  pt_loaded :: bool
  seed_navigation_started :: bool
  main_request_error :: "string option"
  last_network_at :: int

text \<open>The transfer objects of \<open>schema/cdp.yaml\<close> the handlers read.\<close>

record NetworkRequestWillBeSentEvent =
  ws_requestId :: string
  ws_loaderId :: "string option"
  ws_frameId :: "string option"
  ws_type :: "string option"
  ws_url :: string
  ws_method :: string
  ws_redirectResponse :: "NetworkResponse option"

record NetworkResponseReceivedEvent =
  rr_requestId :: string
  rr_loaderId :: "string option"
  rr_type :: "string option"
  rr_response :: NetworkResponse

record NetworkLoadingFailedEvent =
  lf_requestId :: string
  lf_errorText :: "string option"

text \<open>
  The JSON library: members of the parameters, texts, and reading a transfer object, \<open>None\<close> when the
  library raises.
\<close>

record 'j tracker_env =
  ev_member :: "'j \<Rightarrow> string \<Rightarrow> 'j option"
  ev_string :: "'j \<Rightarrow> string outcome"
  as_target_crashed :: "'j \<Rightarrow> string option outcome"
  as_request_will_be_sent :: "'j \<Rightarrow> NetworkRequestWillBeSentEvent option"
  as_response_received :: "'j \<Rightarrow> NetworkResponseReceivedEvent option"
  as_loading_finished :: "'j \<Rightarrow> string option"
  as_loading_failed :: "'j \<Rightarrow> NetworkLoadingFailedEvent option"

text \<open>The clocks when a handler runs: the text of the system time, and the steady clock.\<close>

record clocks =
  utc_now :: string
  steady_now :: int

definition CurrentTimestamp :: "('u, 'z) vendor_scheme \<Rightarrow> clocks \<Rightarrow> string outcome" where
  "CurrentTimestamp V now = deref_text V (utc_now now)"

definition ParseEventParams ::
    "('u, 'z) vendor_scheme \<Rightarrow> ('j \<Rightarrow> 't option) \<Rightarrow> 'j CdpEvent \<Rightarrow> (string + 't) outcome" where
  "ParseEventParams V as_t event =
     (case ev_params event of
        None \<Rightarrow> and_then (deref_text V (ev_method event @ '' missing params'')) (\<lambda>t. Returns (Inl t))
      | Some params \<Rightarrow>
          and_then (deref_text V (ev_method event @ '' has invalid params'')) (\<lambda>t.
            Returns (case as_t params of None \<Rightarrow> Inl t | Some v \<Rightarrow> Inr v)))"

section \<open>Construction\<close>

text \<open>\<open>GeneratePageId\<close> formats a new identifier, here its text.\<close>

definition GeneratePageId :: "('u, 'z) vendor_scheme \<Rightarrow> string \<Rightarrow> string outcome" where
  "GeneratePageId V uuid = deref_text V uuid"

definition PageTracker :: "('u, 'z) vendor_scheme \<Rightarrow> string \<Rightarrow> clocks \<Rightarrow> string \<Rightarrow> string \<Rightarrow> tracker outcome" where
  "PageTracker V uuid now session target =
     and_then (GeneratePageId V uuid) (\<lambda>page.
       Returns \<lparr>pt_session_id = session, pt_target_id = target, page_id = page, active_requests = [],
         redirected_resources = [], redirect_chain = [], main_document_redirects = [], inflight = {},
         main_request_id = None, main_response_request_id = None, main_loader_id = None, main_frame_id = None,
         seed_navigation_url = None, completed_main_request = None, pt_loaded = False,
         seed_navigation_started = False, main_request_error = None, last_network_at = steady_now now\<rparr>)"

definition BeginSeedNavigation :: "string \<Rightarrow> tracker \<Rightarrow> tracker" where
  "BeginSeedNavigation seed_url d = d\<lparr>seed_navigation_started := True, seed_navigation_url := Some seed_url\<rparr>"

definition SetMainFrameId :: "string \<Rightarrow> tracker \<Rightarrow> tracker" where
  "SetMainFrameId frame d = d\<lparr>main_frame_id := Some frame\<rparr>"

definition SetExpectedMainLoaderId :: "string option \<Rightarrow> tracker \<Rightarrow> tracker" where
  "SetExpectedMainLoaderId loader d = (case loader of None \<Rightarrow> d | Some l \<Rightarrow> d\<lparr>main_loader_id := Some l\<rparr>)"

definition Tracker_Fail :: "string \<Rightarrow> tracker \<Rightarrow> tracker" where
  "Tracker_Fail why d = d\<lparr>main_request_error := Some why\<rparr>"

definition fail_text :: "('u, 'z) vendor_scheme \<Rightarrow> string \<Rightarrow> tracker \<Rightarrow> tracker outcome" where
  "fail_text V bytes d = and_then (deref_text V bytes) (\<lambda>t. Returns (d\<lparr>main_request_error := Some t\<rparr>))"

section \<open>The main document\<close>

definition HasResponse :: "TrackedRequest \<Rightarrow> bool" where
  "HasResponse r \<longleftrightarrow>
     tr_status_code r \<noteq> None \<and> tr_status_message r \<noteq> None \<and> tr_headers r \<noteq> None \<and> tr_timestamp r \<noteq> None"

definition ToMainResponse :: "TrackedRequest \<Rightarrow> MainResponse outcome" where
  "ToMainResponse r =
     (case (tr_status_code r, tr_status_message r, tr_headers r, tr_timestamp r) of
        (Some code, Some message, Some hs, Some ts) \<Rightarrow>
          Returns \<lparr>mr_request_url = tr_request_url r, mr_status_code = code, mr_status_message = message,
            mr_headers = hs, mr_timestamp = ts\<rparr>
      | _ \<Rightarrow> Aborts ''tracked request missing response'')"

definition ActiveMainRequest :: "tracker \<Rightarrow> TrackedRequest option" where
  "ActiveMainRequest d = (case main_request_id d of None \<Rightarrow> None | Some i \<Rightarrow> map_of (active_requests d) i)"

definition with_response :: "TrackedRequest option \<Rightarrow> TrackedRequest option" where
  "with_response r = (case r of None \<Rightarrow> None | Some x \<Rightarrow> if HasResponse x then Some x else None)"

definition ResolvedMainRequest :: "tracker \<Rightarrow> TrackedRequest option" where
  "ResolvedMainRequest d =
     (case with_response (completed_main_request d) of Some r \<Rightarrow> Some r | None \<Rightarrow> ActiveMainRequest d)"

definition optional_response :: "TrackedRequest option \<Rightarrow> MainResponse option outcome" where
  "optional_response r =
     (case r of None \<Rightarrow> Returns None | Some x \<Rightarrow> and_then (ToMainResponse x) (\<lambda>m. Returns (Some m)))"

definition SelectMainResponse :: "tracker \<Rightarrow> string \<Rightarrow> MainResponse option outcome" where
  "SelectMainResponse d final_url =
     (let completed = with_response (completed_main_request d);
          active = with_response (ActiveMainRequest d);
          for_url = (\<lambda>r. case r of None \<Rightarrow> False | Some x \<Rightarrow> tr_request_url x = final_url)
      in if for_url completed then optional_response completed
         else if for_url active then optional_response active
         else if completed \<noteq> None then optional_response completed
         else optional_response active)"

definition ApplyMainResponse :: "tracker \<Rightarrow> string \<Rightarrow> CapturedExchange \<Rightarrow> CapturedExchange outcome" where
  "ApplyMainResponse d final_url exchange =
     and_then (SelectMainResponse d final_url) (\<lambda>r.
       case r of
         None \<Rightarrow> Aborts ''missing main response while building exchange''
       | Some m \<Rightarrow> Returns (exchange\<lparr>ex_status := mr_status_code m, ex_message := mr_status_message m,
           ex_headers := mr_headers m, ex_timestamp := mr_timestamp m\<rparr>))"

definition MakeRedirectChainForExchange :: "tracker \<Rightarrow> string \<Rightarrow> string list" where
  "MakeRedirectChainForExchange d final_url = (if redirect_chain d \<noteq> [] then redirect_chain d else [final_url])"

definition MakeExchange ::
    "string \<Rightarrow> string option \<Rightarrow> string \<Rightarrow> CapturedResource list \<Rightarrow> tracker \<Rightarrow> CapturedExchange outcome" where
  "MakeExchange final_url title body resources d =
     and_then (ApplyMainResponse d final_url
       \<lparr>ex_seed_url = (case seed_navigation_url d of Some u \<Rightarrow> u | None \<Rightarrow> final_url), ex_page_id = page_id d,
        ex_final_url = final_url, ex_status = 0, ex_message = [], ex_headers = [], ex_body = [], ex_timestamp = [],
        ex_redirect_chain = [], ex_redirects = [], ex_resources = [], ex_title = None\<rparr>) (\<lambda>exchange.
     Returns (exchange\<lparr>ex_redirect_chain := MakeRedirectChainForExchange d final_url,
       ex_redirects := main_document_redirects d, ex_body := body, ex_resources := resources, ex_title := title\<rparr>))"

definition IsLoadedOrFailed :: "tracker \<Rightarrow> bool" where
  "IsLoadedOrFailed d \<longleftrightarrow> pt_loaded d \<or> main_request_error d \<noteq> None"

definition HasMainDocumentOrError :: "tracker \<Rightarrow> bool" where
  "HasMainDocumentOrError d \<longleftrightarrow>
     main_request_error d \<noteq> None \<or>
     (case completed_main_request d of None \<Rightarrow> False | Some r \<Rightarrow> tr_loaded r \<and> HasResponse r) \<or>
     (case ActiveMainRequest d of None \<Rightarrow> False | Some r \<Rightarrow> HasResponse r \<and> tr_loaded r)"

definition IsIdleFor :: "int \<Rightarrow> clocks \<Rightarrow> tracker \<Rightarrow> bool" where
  "IsIdleFor idle now d \<longleftrightarrow> inflight d = {} \<and> steady_now now - last_network_at d \<ge> idle"

definition IdleDeadline :: "int \<Rightarrow> tracker \<Rightarrow> int" where
  "IdleDeadline idle d = last_network_at d + idle"

definition Tracker_CurrentSeedProbe :: "tracker \<Rightarrow> SeedProbe option" where
  "Tracker_CurrentSeedProbe d =
     (let other = (if main_request_id d \<noteq> None \<or> main_request_error d \<noteq> None \<or> pt_loaded d
                   then Some \<lparr>sp_status = Some 0, sp_load_state = Some 0\<rparr> else None) in
      case ResolvedMainRequest d of
        None \<Rightarrow> other
      | Some r \<Rightarrow>
          (case tr_status_code r of
             None \<Rightarrow> other
           | Some code \<Rightarrow> Some \<lparr>sp_status = Some code,
               sp_load_state = Some (if tr_loaded r \<and> main_request_error d = None then 2 else 0)\<rparr>))"

definition Tracker_ErrorReason :: "tracker \<Rightarrow> string option" where
  "Tracker_ErrorReason d = main_request_error d"

section \<open>Bodies\<close>

text \<open>
  Writing the parameters of \<open>Network.getResponseBody\<close>, reading its result, and the order
  \<open>std::ranges::sort\<close> gives by time.
\<close>

record 'j body_env =
  get_body_params :: "string \<Rightarrow> 'j option"
  get_body_result :: "'j option \<Rightarrow> NetworkGetResponseBodyResult option"
  sort_resources :: "CapturedResource list \<Rightarrow> CapturedResource list"

type_synonym 'j body_state = "RetainedBodyBudget \<times> 'j cdp"

definition retain ::
    "('u, 'z) vendor_scheme \<Rightarrow> string \<Rightarrow> 'j body_state \<Rightarrow> (string + string) outcome \<times> 'j body_state" where
  "retain V body s = (let (r, budget) = RetainBody V body (fst s) in (r, (budget, snd s)))"

text \<open>The body of a request as the browser has it: an error of the command is no body.\<close>

definition fetch_body ::
    "('u, 'z) vendor_scheme \<Rightarrow> 'j cdp_env \<Rightarrow> 'j body_env \<Rightarrow> nat \<Rightarrow> 'j interference \<Rightarrow> CdpSession \<Rightarrow> string \<Rightarrow>
     'j body_state \<Rightarrow> string option outcome \<times> 'j body_state" where
  "fetch_body V E R me I c request_id s =
     (let (r, client) = Session_Send_params V E me I (get_body_result R) (get_body_params R) c
            ''Network.getResponseBody'' request_id (snd s) in
      next_do (r, (fst s, client)) (\<lambda>r s.
        (Returns (case r of Inl _ \<Rightarrow> None | Inr body \<Rightarrow> DecodeCdpBody V body), s)))"

definition ReadBody ::
    "('u, 'z) vendor_scheme \<Rightarrow> 'j cdp_env \<Rightarrow> 'j body_env \<Rightarrow> nat \<Rightarrow> 'j interference \<Rightarrow> CdpSession \<Rightarrow> string \<Rightarrow>
     tracker \<Rightarrow> 'j body_state \<Rightarrow> (string + string) outcome \<times> 'j body_state" where
  "ReadBody V E R me I c fallback_body d s =
     (if fallback_body \<noteq> [] then retain V fallback_body s
      else case (if main_response_request_id d \<noteq> None then main_response_request_id d else main_request_id d) of
        None \<Rightarrow> retain V fallback_body s
      | Some body_request_id \<Rightarrow>
          next_do (fetch_body V E R me I c body_request_id s) (\<lambda>body s.
            case body of None \<Rightarrow> retain V fallback_body s | Some b \<Rightarrow> retain V b s))"

definition resource_of :: "TrackedRequest \<Rightarrow> MainResponse \<Rightarrow> string \<Rightarrow> CapturedResource" where
  "resource_of r m body =
     \<lparr>rs_url = tr_request_url r, rs_method = tr_method r, rs_type = tr_resource_type r,
      rs_status = mr_status_code m, rs_message = mr_status_message m, rs_headers = mr_headers m,
      rs_body = body, rs_timestamp = mr_timestamp m\<rparr>"

text \<open>The loop over the requests.\<close>

fun read_resources ::
    "('u, 'z) vendor_scheme \<Rightarrow> 'j cdp_env \<Rightarrow> 'j body_env \<Rightarrow> nat \<Rightarrow> 'j interference \<Rightarrow> CdpSession \<Rightarrow>
     (string \<times> TrackedRequest) list \<Rightarrow> CapturedResource list \<Rightarrow> 'j body_state \<Rightarrow>
     (string + CapturedResource list) outcome \<times> 'j body_state" where
  "read_resources V E R me I c [] resources s = (Returns (Inr resources), s)"
| "read_resources V E R me I c ((request_id, r) # requests) resources s =
     (if is_tracked_main_document r \<or> \<not> HasResponse r then read_resources V E R me I c requests resources s
      else next_do (ToMainResponse r, s) (\<lambda>m s.
        if \<not> ResponseCanHaveBody (tr_method r) (mr_status_code m)
        then read_resources V E R me I c requests (resources @ [resource_of r m []]) s
        else next_do (fetch_body V E R me I c request_id s) (\<lambda>body s.
          case body of
            None \<Rightarrow> read_resources V E R me I c requests (resources @ [resource_of r m []]) s
          | Some b \<Rightarrow>
              next_do (retain V b s) (\<lambda>kept s.
                case kept of
                  Inl err \<Rightarrow> (Returns (Inl err), s)
                | Inr k \<Rightarrow> read_resources V E R me I c requests (resources @ [resource_of r m k]) s))))"

definition ReadResources ::
    "('u, 'z) vendor_scheme \<Rightarrow> 'j cdp_env \<Rightarrow> 'j body_env \<Rightarrow> nat \<Rightarrow> 'j interference \<Rightarrow> CdpSession \<Rightarrow>
     tracker \<Rightarrow> 'j body_state \<Rightarrow> (string + CapturedResource list) outcome \<times> 'j body_state" where
  "ReadResources V E R me I c d s =
     next_do (read_resources V E R me I c (active_requests d) (redirected_resources d) s) (\<lambda>r s.
       (Returns (TRY r (\<lambda>resources. Inr (sort_resources R resources))), s))"

section \<open>Events\<close>

definition MatchesTrackedMainLoader :: "tracker \<Rightarrow> string option \<Rightarrow> bool" where
  "MatchesTrackedMainLoader d loader =
     (case main_loader_id d of None \<Rightarrow> True | Some l \<Rightarrow> loader = Some l)"

definition IsMainFrameDocumentRequest :: "tracker \<Rightarrow> NetworkRequestWillBeSentEvent \<Rightarrow> bool" where
  "IsMainFrameDocumentRequest d sent \<longleftrightarrow>
     ws_frameId sent \<noteq> None \<and> main_frame_id d \<noteq> None \<and> ws_frameId sent = main_frame_id d \<and>
     ws_type sent = Some ''Document''"

definition RecordMainDocumentRedirect ::
    "('u, 'z) vendor_scheme \<Rightarrow> TrackedRequest \<Rightarrow> tracker \<Rightarrow> tracker outcome" where
  "RecordMainDocumentRedirect V r d =
     and_then (deref_text V (''main redirect request missing response fields for '' @ tr_request_url r)) (\<lambda>message.
       case (tr_status_code r, tr_status_message r, tr_headers r, tr_timestamp r) of
         (Some code, Some status_message, Some hs, Some ts) \<Rightarrow>
           let redirect = \<lparr>rd_url = tr_request_url r, rd_status = code, rd_message = status_message,
                 rd_headers = hs, rd_timestamp = ts\<rparr> in
           if main_document_redirects d \<noteq> [] \<and>
              rd_url (last (main_document_redirects d)) = rd_url redirect \<and>
              rd_status (last (main_document_redirects d)) = rd_status redirect
           then Returns d
           else Returns (d\<lparr>main_document_redirects := main_document_redirects d @ [redirect]\<rparr>)
       | _ \<Rightarrow> Aborts message)"

definition RecordResourceRedirect ::
    "('u, 'z) vendor_scheme \<Rightarrow> TrackedRequest \<Rightarrow> tracker \<Rightarrow> tracker outcome" where
  "RecordResourceRedirect V r d =
     and_then (deref_text V (''resource redirect request missing response fields for '' @ tr_request_url r)) (\<lambda>message.
       case (tr_status_code r, tr_status_message r, tr_headers r, tr_timestamp r) of
         (Some code, Some status_message, Some hs, Some ts) \<Rightarrow>
           Returns (d\<lparr>redirected_resources := redirected_resources d @
             [\<lparr>rs_url = tr_request_url r, rs_method = tr_method r, rs_type = tr_resource_type r, rs_status = code,
               rs_message = status_message, rs_headers = hs, rs_body = [], rs_timestamp = ts\<rparr>]\<rparr>)
       | _ \<Rightarrow> Aborts message)"

definition optional_bytes :: "string option \<Rightarrow> string \<Rightarrow> string" where
  "optional_bytes value fallback = (case value of None \<Rightarrow> fallback | Some b \<Rightarrow> b)"

definition FinalizeRedirectRequest ::
    "('u, 'z) vendor_scheme \<Rightarrow> clocks \<Rightarrow> string \<Rightarrow> NetworkResponse \<Rightarrow> tracker \<Rightarrow> tracker outcome" where
  "FinalizeRedirectRequest V now request_id response d =
     (case nr_status response of
        None \<Rightarrow> Aborts ''redirect response must include status''
      | Some status \<Rightarrow>
          (case map_of (active_requests d) request_id of
             None \<Rightarrow> fail_text V (''redirect response for unknown request id '' @ request_id) d
           | Some r \<Rightarrow>
               let d = d\<lparr>active_requests := AList.delete request_id (active_requests d)\<rparr> in
               and_then (deref_text V (optional_bytes (nr_status_text response) [])) (\<lambda>message.
               and_then (NormalizeHeadersForCapture V (nr_headers response) (tr_request_url r)) (\<lambda>hs.
               and_then (CurrentTimestamp V now) (\<lambda>ts.
               let r = r\<lparr>tr_status_code := Some status, tr_status_message := Some message, tr_headers := Some hs,
                     tr_timestamp := Some ts, tr_loaded := True\<rparr> in
               if is_tracked_main_document r
               then and_then (RecordMainDocumentRedirect V r d) (\<lambda>d.
                 Returns (if main_request_id d = Some request_id then d\<lparr>main_request_id := None\<rparr> else d))
               else RecordResourceRedirect V r d)))))"

text \<open>Whether a document request of the main frame is the one the crawl follows.\<close>

definition follows_seed :: "string \<Rightarrow> string \<Rightarrow> bool" where
  "follows_seed raw_request_url seed \<longleftrightarrow>
     raw_request_url = seed \<or>
     (\<not> EndsWith seed ''/'' \<and> length raw_request_url = length seed + 1 \<and> StartsWith raw_request_url seed \<and>
      EndsWith raw_request_url ''/'')"

definition accepts_main_document :: "tracker \<Rightarrow> NetworkRequestWillBeSentEvent \<Rightarrow> string \<Rightarrow> bool" where
  "accepts_main_document d sent raw_request_url =
     (if main_loader_id d \<noteq> None \<and> \<not> MatchesTrackedMainLoader d (ws_loaderId sent) then False
      else if main_loader_id d = None \<and> main_request_id d = None
      then (case seed_navigation_url d of None \<Rightarrow> True | Some seed \<Rightarrow> follows_seed raw_request_url seed)
      else True)"

definition new_request ::
    "('u, 'z) vendor_scheme \<Rightarrow> NetworkRequestWillBeSentEvent \<Rightarrow> string \<Rightarrow> string \<Rightarrow> bool \<Rightarrow> TrackedRequest" where
  "new_request V sent canonical_request_url request_method main_document =
     \<lparr>tr_request_url = canonical_request_url, tr_method = request_method, tr_status_code = None,
      tr_status_message = None, tr_headers = None, tr_timestamp = None,
      tr_loader_id = StringOrNull V (ws_loaderId sent), tr_frame_id = StringOrNull V (ws_frameId sent),
      tr_resource_type = StringOrNull V (ws_type sent), tr_loaded = False,
      is_tracked_main_document = main_document\<rparr>"

text \<open>The end of \<open>HandleRequestWillBeSent\<close>, and the part of it for a request that is to be tracked.\<close>

definition enter_request :: "string \<Rightarrow> TrackedRequest \<Rightarrow> tracker \<Rightarrow> tracker" where
  "enter_request request_id r d =
     (let d = d\<lparr>active_requests := AList.update request_id r (active_requests d)\<rparr> in
      if \<not> is_tracked_main_document r then d
      else let d = d\<lparr>main_request_id := Some request_id\<rparr> in
        if redirect_chain d = [] \<or> last (redirect_chain d) \<noteq> tr_request_url r
        then d\<lparr>redirect_chain := redirect_chain d @ [tr_request_url r]\<rparr> else d)"

definition track_request ::
    "('u, 'z) vendor_scheme \<Rightarrow> clocks \<Rightarrow> NetworkRequestWillBeSentEvent \<Rightarrow> string \<Rightarrow> string \<Rightarrow> string \<Rightarrow> bool \<Rightarrow>
     tracker \<Rightarrow> tracker outcome" where
  "track_request V now sent request_id raw_request_url request_method main_document d =
     (let previous = map_option tr_request_url (map_of (active_requests d) request_id) in
      and_then (case ws_redirectResponse sent of
          None \<Rightarrow> Returns d | Some response \<Rightarrow> FinalizeRedirectRequest V now request_id response d) (\<lambda>d.
      and_then (case previous of
          Some previous_url \<Rightarrow> ResolveRedirectTargetUrl V previous_url raw_request_url (ws_redirectResponse sent)
        | None \<Rightarrow> CanonicalizeCapturedUrl V raw_request_url) (\<lambda>canonical_request_url.
      Returns (enter_request request_id
        (new_request V sent canonical_request_url request_method main_document) d))))"

definition HandleRequestWillBeSent ::
    "('u, 'z) vendor_scheme \<Rightarrow> clocks \<Rightarrow> NetworkRequestWillBeSentEvent \<Rightarrow> tracker \<Rightarrow> tracker outcome" where
  "HandleRequestWillBeSent V now sent d =
     (if prefix ''data:'' (ws_url sent) then Returns d
      else and_then (deref_text V (ws_requestId sent)) (\<lambda>request_id.
      and_then (deref_text V (ws_url sent)) (\<lambda>raw_request_url.
      and_then (deref_text V (ws_method sent)) (\<lambda>request_method.
      let d = d\<lparr>inflight := insert request_id (inflight d), last_network_at := steady_now now\<rparr> in
      if IsMainFrameDocumentRequest d sent then
        Invariant (seed_navigation_started d) ''main document request observed before seed navigation started''
          (if \<not> accepts_main_document d sent raw_request_url then Returns d
           else track_request V now sent request_id raw_request_url request_method True
             (if main_loader_id d = None \<and> ws_loaderId sent \<noteq> None
              then d\<lparr>main_loader_id := StringOrNull V (ws_loaderId sent)\<rparr> else d))
      else track_request V now sent request_id raw_request_url request_method False d))))"

text \<open>The end of two handlers: a main document with its response is remembered.\<close>

definition note_completed :: "string \<Rightarrow> TrackedRequest \<Rightarrow> tracker \<Rightarrow> tracker" where
  "note_completed request_id r d =
     (if is_tracked_main_document r \<and> HasResponse r
      then d\<lparr>completed_main_request := Some r, main_response_request_id := Some request_id\<rparr> else d)"

definition unknown_request :: "('u, 'z) vendor_scheme \<Rightarrow> string \<Rightarrow> string \<Rightarrow> tracker \<Rightarrow> tracker outcome" where
  "unknown_request V what request_id d =
     (if main_request_id d = Some request_id
      then fail_text V (''main document '' @ what @ '' for unknown request id '' @ request_id) d else Returns d)"

definition HandleResponseReceived ::
    "('u, 'z) vendor_scheme \<Rightarrow> clocks \<Rightarrow> NetworkResponseReceivedEvent \<Rightarrow> tracker \<Rightarrow> tracker outcome" where
  "HandleResponseReceived V now received d =
     and_then (deref_text V (rr_requestId received)) (\<lambda>request_id.
       case map_of (active_requests d) request_id of
         None \<Rightarrow> unknown_request V ''response received'' request_id d
       | Some r \<Rightarrow>
           and_then (CurrentTimestamp V now) (\<lambda>ts.
           and_then (deref_text V (optional_bytes (nr_status_text (rr_response received)) [])) (\<lambda>message.
           and_then (NormalizeHeadersForCapture V (nr_headers (rr_response received)) (tr_request_url r)) (\<lambda>hs.
           let r = r\<lparr>tr_status_code := Some (case nr_status (rr_response received) of None \<Rightarrow> 0 | Some c \<Rightarrow> c),
                 tr_status_message := Some message, tr_headers := Some hs, tr_timestamp := Some ts,
                 tr_resource_type := (if rr_type received \<noteq> None then StringOrNull V (rr_type received)
                   else tr_resource_type r),
                 tr_loader_id := (if rr_loaderId received \<noteq> None then StringOrNull V (rr_loaderId received)
                   else tr_loader_id r)\<rparr>
           in Returns (note_completed request_id r
                (d\<lparr>active_requests := AList.update request_id r (active_requests d)\<rparr>))))))"

definition loading_ended :: "clocks \<Rightarrow> string \<Rightarrow> tracker \<Rightarrow> tracker" where
  "loading_ended now request_id d = d\<lparr>inflight := inflight d - {request_id}, last_network_at := steady_now now\<rparr>"

definition HandleLoadingFinished ::
    "('u, 'z) vendor_scheme \<Rightarrow> clocks \<Rightarrow> string \<Rightarrow> tracker \<Rightarrow> tracker outcome" where
  "HandleLoadingFinished V now finished_id d =
     and_then (deref_text V finished_id) (\<lambda>request_id.
       let d = loading_ended now request_id d in
       case map_of (active_requests d) request_id of
         Some r \<Rightarrow> Returns (note_completed request_id (r\<lparr>tr_loaded := True\<rparr>)
           (d\<lparr>active_requests := AList.update request_id (r\<lparr>tr_loaded := True\<rparr>) (active_requests d)\<rparr>))
       | None \<Rightarrow> unknown_request V ''loading finished'' request_id d)"

definition HandleLoadingFailed ::
    "('u, 'z) vendor_scheme \<Rightarrow> clocks \<Rightarrow> NetworkLoadingFailedEvent \<Rightarrow> tracker \<Rightarrow> tracker outcome" where
  "HandleLoadingFailed V now failure d =
     and_then (deref_text V (lf_requestId failure)) (\<lambda>request_id.
       let d = loading_ended now request_id d in
       case map_of (active_requests d) request_id of
         None \<Rightarrow> unknown_request V ''loading failed'' request_id d
       | Some r \<Rightarrow>
           let r = r\<lparr>tr_loaded := True\<rparr>; d = d\<lparr>active_requests := AList.update request_id r (active_requests d)\<rparr> in
           if \<not> is_tracked_main_document r \<or> HasResponse r then Returns d
           else fail_text V (optional_bytes (lf_errorText failure) ''main document request failed'') d)"

section \<open>Dispatch\<close>

text \<open>The events about the target and the inspector, which come before the session is looked at.\<close>

definition member_is ::
    "'j tracker_env \<Rightarrow> 'j CdpEvent \<Rightarrow> string \<Rightarrow> string \<Rightarrow> string \<Rightarrow> tracker \<Rightarrow> tracker outcome" where
  "member_is T event name value why d =
     (case ev_params event of
        None \<Rightarrow> Returns d
      | Some params \<Rightarrow>
          (case ev_member T params name of
             None \<Rightarrow> Returns d
           | Some v \<Rightarrow> and_then (ev_string T v) (\<lambda>x. Returns (if x = value then Tracker_Fail why d else d))))"

definition target_crashed :: "'j tracker_env \<Rightarrow> 'j CdpEvent \<Rightarrow> tracker \<Rightarrow> tracker outcome" where
  "target_crashed T event d =
     (case ev_params event of
        None \<Rightarrow> Returns d
      | Some params \<Rightarrow> and_then (as_target_crashed T params) (\<lambda>target.
          Returns (if target = Some (pt_target_id d) then Tracker_Fail ''page target crashed'' d else d)))"

definition inspector_detached ::
    "('u, 'z) vendor_scheme \<Rightarrow> 'j tracker_env \<Rightarrow> 'j CdpEvent \<Rightarrow> tracker \<Rightarrow> tracker outcome" where
  "inspector_detached V T event d =
     (if ev_session_id event \<noteq> None \<and> ev_session_id event \<noteq> Some (pt_session_id d) then Returns d
      else case (case ev_params event of None \<Rightarrow> None | Some params \<Rightarrow> ev_member T params ''reason'') of
        Some v \<Rightarrow> and_then (ev_string T v) (\<lambda>x. fail_text V (''inspector detached: '' @ x) d)
      | None \<Rightarrow> Returns (Tracker_Fail ''inspector detached'' d))"

definition handle_parsed :: "(string + 't) outcome \<Rightarrow> ('t \<Rightarrow> tracker \<Rightarrow> tracker outcome) \<Rightarrow> tracker \<Rightarrow> tracker outcome" where
  "handle_parsed parsed handle d =
     and_then parsed (\<lambda>p. case p of Inl err \<Rightarrow> Returns (Tracker_Fail err d) | Inr v \<Rightarrow> handle v d)"

definition HandleEvent ::
    "('u, 'z) vendor_scheme \<Rightarrow> 'j tracker_env \<Rightarrow> clocks \<Rightarrow> 'j CdpEvent \<Rightarrow> tracker \<Rightarrow> tracker outcome" where
  "HandleEvent V T now event d =
     (let m = ev_method event in
      if m = ''Target.targetCrashed'' then target_crashed T event d
      else if m = ''Target.detachedFromTarget'' then member_is T event ''sessionId'' (pt_session_id d) ''target session detached'' d
      else if m = ''Target.targetDestroyed'' then member_is T event ''targetId'' (pt_target_id d) ''page target destroyed'' d
      else if m = ''Inspector.detached'' then inspector_detached V T event d
      else if ev_session_id event \<noteq> Some (pt_session_id d) then Returns d
      else if m = ''Page.loadEventFired'' then Returns (d\<lparr>pt_loaded := True\<rparr>)
      else if m = ''Network.requestWillBeSent'' then
        handle_parsed (ParseEventParams V (as_request_will_be_sent T) event) (HandleRequestWillBeSent V now) d
      else if m = ''Network.responseReceived'' then
        handle_parsed (ParseEventParams V (as_response_received T) event) (HandleResponseReceived V now) d
      else if m = ''Network.loadingFinished'' then
        handle_parsed (ParseEventParams V (as_loading_finished T) event) (HandleLoadingFinished V now) d
      else if m = ''Network.loadingFailed'' then
        handle_parsed (ParseEventParams V (as_loading_failed T) event) (HandleLoadingFailed V now) d
      else Returns d)"

section \<open>What the tracker keeps\<close>

text \<open>
  The remembered main document is a followed one with its response, and one is remembered as soon as
  a followed request has a response.  Redirects have no body.
\<close>

definition tracker_ok :: "tracker \<Rightarrow> bool" where
  "tracker_ok d \<longleftrightarrow>
     (\<forall>r. completed_main_request d = Some r \<longrightarrow> is_tracked_main_document r \<and> HasResponse r) \<and>
     (\<forall>i r. map_of (active_requests d) i = Some r \<longrightarrow> is_tracked_main_document r \<longrightarrow> HasResponse r \<longrightarrow>
        completed_main_request d \<noteq> None) \<and>
     (\<forall>r\<in>set (redirected_resources d). rs_body r = [])"

text \<open>The request under the identifier of the main document is a followed one.\<close>

definition main_id_ok :: "tracker \<Rightarrow> bool" where
  "main_id_ok d \<longleftrightarrow>
     (\<forall>i r. main_request_id d = Some i \<longrightarrow> map_of (active_requests d) i = Some r \<longrightarrow> is_tracked_main_document r)"

text \<open>What a handler does: both are kept, the second one when \<open>g\<close>, and a remembered main document stays.\<close>

definition tracks :: "bool \<Rightarrow> tracker \<Rightarrow> tracker \<Rightarrow> bool" where
  "tracks g d d' \<longleftrightarrow>
     (tracker_ok d \<longrightarrow> tracker_ok d') \<and> (g \<longrightarrow> main_id_ok d \<longrightarrow> main_id_ok d') \<and>
     (completed_main_request d \<noteq> None \<longrightarrow> completed_main_request d' \<noteq> None)"

lemma tracks_refl: "tracks g d d"
  by (simp add: tracks_def)

lemma tracks_trans: "tracks g d d' \<Longrightarrow> tracks g d' d'' \<Longrightarrow> tracks g d d''"
  by (simp add: tracks_def)

lemma tracks_if: "(c \<Longrightarrow> tracks g d a) \<Longrightarrow> (\<not> c \<Longrightarrow> tracks g d b) \<Longrightarrow> tracks g d (if c then a else b)"
  by simp

text \<open>Changes of other fields.\<close>

lemma tracks_other [simp]:
  "tracks g d (d\<lparr>main_request_error := e\<rparr>)" "tracks g d (d\<lparr>pt_loaded := b\<rparr>)"
  "tracks g d (d\<lparr>inflight := s, last_network_at := t\<rparr>)" "tracks g d (d\<lparr>main_loader_id := l\<rparr>)"
  "tracks g d (d\<lparr>main_frame_id := l\<rparr>)" "tracks g d (d\<lparr>redirect_chain := c\<rparr>)"
  "tracks g d (d\<lparr>seed_navigation_started := b, seed_navigation_url := u\<rparr>)"
  "tracks g d (d\<lparr>main_document_redirects := ms\<rparr>)"
  by (simp_all add: tracks_def tracker_ok_def main_id_ok_def)

lemma tracks_Fail [simp]: "tracks g d (Tracker_Fail why d)"
  by (simp add: Tracker_Fail_def)

lemma tracks_fail_text: "fail_text V b d = Returns d' \<Longrightarrow> tracks g d d'"
  by (auto simp: fail_text_def and_then_Returns_iff)

lemma tracks_delete: "tracks g d (d\<lparr>active_requests := AList.delete i (active_requests d)\<rparr>)"
  by (auto simp: tracks_def tracker_ok_def main_id_ok_def delete_conv' split: if_splits)

lemma tracks_no_main: "tracks g d (d\<lparr>main_request_id := None\<rparr>)"
  by (auto simp: tracks_def tracker_ok_def main_id_ok_def)

lemma tracks_RecordMain: "RecordMainDocumentRedirect V r d = Returns d' \<Longrightarrow> tracks g d d'"
  by (cases "tr_status_code r"; cases "tr_status_message r"; cases "tr_headers r"; cases "tr_timestamp r")
    (auto simp: RecordMainDocumentRedirect_def and_then_Returns_iff Let_def tracks_refl split: if_splits)

lemma tracks_RecordResource: "RecordResourceRedirect V r d = Returns d' \<Longrightarrow> tracks g d d'"
  by (cases "tr_status_code r"; cases "tr_status_message r"; cases "tr_headers r"; cases "tr_timestamp r")
    (auto simp: RecordResourceRedirect_def and_then_Returns_iff tracks_def tracker_ok_def main_id_ok_def)

lemma tracks_FinalizeRedirect:
  assumes "FinalizeRedirectRequest V now i response d = Returns d'"
  shows "tracks g d d'"
proof (cases "map_of (active_requests d) i")
  case None
  with assms show ?thesis
    by (auto simp: FinalizeRedirectRequest_def split: option.splits intro: tracks_fail_text)
next
  case (Some r)
  let ?d = "d\<lparr>active_requests := AList.delete i (active_requests d)\<rparr>"
  from assms Some have "tracks g ?d d'"
    by (auto simp: FinalizeRedirectRequest_def and_then_Returns_iff Let_def
        split: option.splits if_splits intro: tracks_RecordMain tracks_RecordResource
          tracks_trans [OF tracks_RecordMain tracks_no_main])
  then show ?thesis by (rule tracks_trans [OF tracks_delete])
qed

text \<open>A request under a new entry, followed or not; an entry that gets its response or is loaded.\<close>

lemma tracks_new_main:
  "\<not> HasResponse r \<Longrightarrow> is_tracked_main_document r \<Longrightarrow>
   tracks g d (d\<lparr>active_requests := AList.update i r (active_requests d), main_request_id := Some i\<rparr>)"
  by (auto simp: tracks_def tracker_ok_def main_id_ok_def update_conv' split: if_splits)

lemma tracks_new_other:
  "\<not> is_tracked_main_document r \<Longrightarrow> (g \<Longrightarrow> main_request_id d \<noteq> Some i) \<Longrightarrow>
   tracks g d (d\<lparr>active_requests := AList.update i r (active_requests d)\<rparr>)"
  by (auto simp: tracks_def tracker_ok_def main_id_ok_def update_conv' split: if_splits)

lemma tracks_note_completed:
  assumes "map_of (active_requests d) i = Some r0" "is_tracked_main_document r = is_tracked_main_document r0"
  shows "tracks g d (note_completed i r (d\<lparr>active_requests := AList.update i r (active_requests d)\<rparr>))"
  using assms
  by (auto simp: note_completed_def tracks_def tracker_ok_def main_id_ok_def update_conv' split: if_splits)

lemma tracks_loaded:
  assumes "map_of (active_requests d) i = Some r"
  shows "tracks g d (d\<lparr>active_requests := AList.update i (r\<lparr>tr_loaded := True\<rparr>) (active_requests d)\<rparr>)"
  using assms
  by (auto simp: tracks_def tracker_ok_def main_id_ok_def update_conv' HasResponse_def split: if_splits)

lemma FinalizeRedirect_main_id:
  "FinalizeRedirectRequest V now i response d = Returns d' \<Longrightarrow>
   main_request_id d' = main_request_id d \<or> main_request_id d' = None"
proof -
  have r: "RecordMainDocumentRedirect V r e = Returns e' \<Longrightarrow> main_request_id e' = main_request_id e" for r e e'
    by (cases "tr_status_code r"; cases "tr_status_message r"; cases "tr_headers r"; cases "tr_timestamp r")
      (auto simp: RecordMainDocumentRedirect_def and_then_Returns_iff Let_def split: if_splits)
  have o: "RecordResourceRedirect V r e = Returns e' \<Longrightarrow> main_request_id e' = main_request_id e" for r e e'
    by (cases "tr_status_code r"; cases "tr_status_message r"; cases "tr_headers r"; cases "tr_timestamp r")
      (auto simp: RecordResourceRedirect_def and_then_Returns_iff)
  assume f: "FinalizeRedirectRequest V now i response d = Returns d'"
  show ?thesis
  proof (cases "map_of (active_requests d) i")
    case None
    with f show ?thesis by (auto simp: FinalizeRedirectRequest_def fail_text_def and_then_Returns_iff split: option.splits)
  next
    case (Some req)
    with f show ?thesis
      by (cases "is_tracked_main_document req")
        (auto simp: FinalizeRedirectRequest_def and_then_Returns_iff Let_def split: option.splits if_splits dest: r o)
  qed
qed

lemma tracks_enter_request:
  assumes "\<not> HasResponse r" and "\<not> is_tracked_main_document r \<Longrightarrow> g \<Longrightarrow> main_request_id d \<noteq> Some i"
  shows "tracks g d (enter_request i r d)"
proof (cases "is_tracked_main_document r")
  case True
  with assms(1) have "tracks g d (d\<lparr>active_requests := AList.update i r (active_requests d), main_request_id := Some i\<rparr>)"
    by (rule tracks_new_main)
  from tracks_trans [OF this tracks_other(6)] this show ?thesis using True by (simp add: enter_request_def Let_def)
qed (use assms in \<open>simp add: enter_request_def tracks_new_other\<close>)

lemma tracks_track_request:
  assumes "track_request V now sent i url m main d = Returns d'"
    and "\<not> main \<Longrightarrow> g \<Longrightarrow> main_request_id d \<noteq> Some i"
  shows "tracks g d d'"
proof -
  obtain e canonical where
    e: "(case ws_redirectResponse sent of None \<Rightarrow> Returns d
         | Some response \<Rightarrow> FinalizeRedirectRequest V now i response d) = Returns e"
    and d': "d' = enter_request i (new_request V sent canonical m main) e"
    using assms(1) by (auto simp: track_request_def and_then_Returns_iff Let_def)
  have "tracks g d e" using e by (auto split: option.splits intro: tracks_FinalizeRedirect tracks_refl)
  moreover have "main_request_id e = main_request_id d \<or> main_request_id e = None"
    using e by (auto split: option.splits dest: FinalizeRedirect_main_id)
  then have "tracks g e d'" unfolding d'
    using assms(2) by (intro tracks_enter_request) (auto simp: new_request_def HasResponse_def)
  ultimately show ?thesis by (rule tracks_trans)
qed

text \<open>A request that is not a document of the main frame does not take the main document's identifier.\<close>

definition own_id :: "('u, 'z) vendor_scheme \<Rightarrow> NetworkRequestWillBeSentEvent \<Rightarrow> tracker \<Rightarrow> bool" where
  "own_id V sent d \<longleftrightarrow> IsMainFrameDocumentRequest d sent \<or>
     (\<forall>i. main_request_id d = Some i \<longrightarrow> deref_text V (ws_requestId sent) \<noteq> Returns i)"

lemma tracks_HandleRequestWillBeSent:
  assumes "HandleRequestWillBeSent V now sent d = Returns d'" and "g \<Longrightarrow> own_id V sent d"
  shows "tracks g d d'"
proof (cases "prefix ''data:'' (ws_url sent)")
  case True
  then show ?thesis using assms(1) by (simp add: HandleRequestWillBeSent_def tracks_refl)
next
  case False
  then obtain i url m where i: "deref_text V (ws_requestId sent) = Returns i"
      and "deref_text V (ws_url sent) = Returns url" "deref_text V (ws_method sent) = Returns m"
    using assms(1) by (auto simp: HandleRequestWillBeSent_def and_then_Returns_iff)
  note ids = this
  let ?d = "d\<lparr>inflight := insert i (inflight d), last_network_at := steady_now now\<rparr>"
  have "tracks g ?d d'"
  proof (cases "IsMainFrameDocumentRequest ?d sent")
    case True
    then show ?thesis using assms(1) False ids
      by (auto simp: HandleRequestWillBeSent_def Let_def Invariant_def tracks_refl split: if_splits
          intro: tracks_track_request tracks_trans [OF tracks_other(4) tracks_track_request])
  next
    case no: False
    then have "g \<Longrightarrow> main_request_id ?d \<noteq> Some i"
      using assms(2) i by (auto simp: own_id_def IsMainFrameDocumentRequest_def)
    then show ?thesis using assms(1) False ids no
      by (auto simp: HandleRequestWillBeSent_def Let_def intro: tracks_track_request)
  qed
  then show ?thesis by (rule tracks_trans [OF tracks_other(3)])
qed

lemma tracks_unknown: "unknown_request V what i d = Returns d' \<Longrightarrow> tracks g d d'"
  by (auto simp: unknown_request_def tracks_refl split: if_splits intro: tracks_fail_text)

lemma tracks_HandleResponseReceived:
  assumes "HandleResponseReceived V now received d = Returns d'"
  shows "tracks g d d'"
proof -
  obtain i where i: "deref_text V (rr_requestId received) = Returns i"
    using assms by (auto simp: HandleResponseReceived_def and_then_Returns_iff)
  show ?thesis
  proof (cases "map_of (active_requests d) i")
    case None
    with assms i show ?thesis by (auto simp: HandleResponseReceived_def intro: tracks_unknown)
  next
    case (Some r)
    then obtain r' where "d' = note_completed i r' (d\<lparr>active_requests := AList.update i r' (active_requests d)\<rparr>)"
        and "is_tracked_main_document r' = is_tracked_main_document r"
      using assms i by (fastforce simp: HandleResponseReceived_def and_then_Returns_iff Let_def)
    then show ?thesis using tracks_note_completed [OF Some] by simp
  qed
qed

lemma tracks_loading_ended: "tracks g (loading_ended now i d) d' \<Longrightarrow> tracks g d d'"
  unfolding loading_ended_def by (rule tracks_trans [OF tracks_other(3)])

lemma tracks_HandleLoadingFinished:
  assumes "HandleLoadingFinished V now finished d = Returns d'"
  shows "tracks g d d'"
proof -
  obtain i where i: "deref_text V finished = Returns i"
    using assms by (auto simp: HandleLoadingFinished_def and_then_Returns_iff)
  let ?d = "loading_ended now i d"
  have "tracks g ?d d'"
  proof (cases "map_of (active_requests ?d) i")
    case None
    with assms i show ?thesis by (auto simp: HandleLoadingFinished_def intro: tracks_unknown)
  next
    case (Some r)
    with assms i show ?thesis
      using tracks_note_completed [OF Some, of "r\<lparr>tr_loaded := True\<rparr>"] by (auto simp: HandleLoadingFinished_def Let_def)
  qed
  then show ?thesis by (rule tracks_loading_ended)
qed

lemma tracks_HandleLoadingFailed:
  assumes "HandleLoadingFailed V now failure d = Returns d'"
  shows "tracks g d d'"
proof -
  obtain i where i: "deref_text V (lf_requestId failure) = Returns i"
    using assms by (auto simp: HandleLoadingFailed_def and_then_Returns_iff)
  let ?d = "loading_ended now i d"
  have "tracks g ?d d'"
  proof (cases "map_of (active_requests ?d) i")
    case None
    with assms i show ?thesis by (auto simp: HandleLoadingFailed_def intro: tracks_unknown)
  next
    case (Some r)
    with assms i show ?thesis
      by (auto simp: HandleLoadingFailed_def Let_def split: if_splits
          intro: tracks_loaded tracks_trans [OF tracks_loaded tracks_fail_text])
  qed
  then show ?thesis by (rule tracks_loading_ended)
qed

text \<open>Events that keep to the rule above, for those the tracker reads.\<close>

definition keeps_ids :: "('u, 'z) vendor_scheme \<Rightarrow> 'j tracker_env \<Rightarrow> 'j CdpEvent \<Rightarrow> tracker \<Rightarrow> bool" where
  "keeps_ids V T event d \<longleftrightarrow>
     (ev_method event = ''Network.requestWillBeSent'' \<longrightarrow>
      (case ev_params event of None \<Rightarrow> True
       | Some p \<Rightarrow> (case as_request_will_be_sent T p of None \<Rightarrow> True | Some sent \<Rightarrow> own_id V sent d)))"

lemma ParseEventParams_Inr:
  "ParseEventParams V as_t event = Returns (Inr v) \<Longrightarrow> \<exists>p. ev_params event = Some p \<and> as_t p = Some v"
  by (auto simp: ParseEventParams_def and_then_Returns_iff split: option.splits)

lemma if_cases:
  "(if c then a else b) = x \<Longrightarrow> (c \<Longrightarrow> a = x \<Longrightarrow> P) \<Longrightarrow> (\<not> c \<Longrightarrow> b = x \<Longrightarrow> P) \<Longrightarrow> P"
  by (cases c) auto

lemma tracks_parsed:
  assumes "handle_parsed parsed handle d = Returns d'"
    and "\<And>v. parsed = Returns (Inr v) \<Longrightarrow> handle v d = Returns d' \<Longrightarrow> tracks g d d'"
  shows "tracks g d d'"
proof -
  from assms(1) obtain p where p: "parsed = Returns p" and
      d': "(case p of Inl err \<Rightarrow> Returns (Tracker_Fail err d) | Inr v \<Rightarrow> handle v d) = Returns d'"
    by (auto simp: handle_parsed_def and_then_Returns_iff)
  show ?thesis using p d' assms(2) by (cases p) auto
qed

lemma tracks_target_events:
  "target_crashed T event d = Returns d' \<Longrightarrow> tracks g d d'"
  "member_is T event name v why d = Returns d' \<Longrightarrow> tracks g d d'"
  "inspector_detached V T event d = Returns d' \<Longrightarrow> tracks g d d'"
  by (auto simp: target_crashed_def member_is_def inspector_detached_def and_then_Returns_iff tracks_refl
      split: option.splits if_splits intro: tracks_fail_text)

lemma tracks_HandleEvent:
  assumes "HandleEvent V T now event d = Returns d'" and "g \<Longrightarrow> keeps_ids V T event d"
  shows "tracks g d d'"
proof (cases "ev_method event = ''Network.requestWillBeSent'' \<and> ev_session_id event = Some (pt_session_id d)")
  case True
  then have "handle_parsed (ParseEventParams V (as_request_will_be_sent T) event) (HandleRequestWillBeSent V now) d = Returns d'"
    using assms(1) by (simp add: HandleEvent_def)
  then show ?thesis
  proof (rule tracks_parsed)
    fix v assume "ParseEventParams V (as_request_will_be_sent T) event = Returns (Inr v)"
      and h: "HandleRequestWillBeSent V now v d = Returns d'"
    then have "g \<Longrightarrow> own_id V v d" using assms(2) True by (auto simp: keeps_ids_def dest!: ParseEventParams_Inr)
    with h show "tracks g d d'" by (rule tracks_HandleRequestWillBeSent)
  qed
next
  case False
  have parsed:
    "handle_parsed p1 (HandleResponseReceived V now) d = Returns d' \<Longrightarrow> tracks g d d'"
    "handle_parsed p2 (HandleLoadingFinished V now) d = Returns d' \<Longrightarrow> tracks g d d'"
    "handle_parsed p3 (HandleLoadingFailed V now) d = Returns d' \<Longrightarrow> tracks g d d'" for p1 p2 p3
    by (erule tracks_parsed, erule tracks_HandleResponseReceived tracks_HandleLoadingFinished
        tracks_HandleLoadingFailed)+
  have same: "Returns d = Returns d' \<Longrightarrow> tracks g d d'" by (simp add: tracks_refl)
  have loaded: "Returns (d\<lparr>pt_loaded := True\<rparr>) = Returns d' \<Longrightarrow> tracks g d d'" by auto
  from assms(1) show ?thesis unfolding HandleEvent_def Let_def
    by (elim if_cases) (erule same | erule loaded | erule tracks_target_events(1) | erule tracks_target_events(2)
      | erule tracks_target_events(3) | erule parsed(1) | erule parsed(2) | erule parsed(3) | (use False in blast))+
qed

section \<open>Runs of the tracker\<close>

text \<open>
  The calls that change a tracker; with \<open>g\<close>, the browser gives no request other than a document of the
  main frame the identifier of the main document.
\<close>

inductive tracker_step :: "('u, 'z) vendor_scheme \<Rightarrow> 'j tracker_env \<Rightarrow> bool \<Rightarrow> tracker \<Rightarrow> tracker \<Rightarrow> bool"
  for V :: "('u, 'z) vendor_scheme" and T :: "'j tracker_env" and g :: bool where
  event: "HandleEvent V T now event d = Returns d' \<Longrightarrow> (g \<Longrightarrow> keeps_ids V T event d) \<Longrightarrow> tracker_step V T g d d'"
| seed: "tracker_step V T g d (BeginSeedNavigation url d)"
| frame: "tracker_step V T g d (SetMainFrameId i d)"
| loader: "tracker_step V T g d (SetExpectedMainLoaderId l d)"
| fails: "tracker_step V T g d (Tracker_Fail why d)"

abbreviation tracker_steps :: "('u, 'z) vendor_scheme \<Rightarrow> 'j tracker_env \<Rightarrow> bool \<Rightarrow> tracker \<Rightarrow> tracker \<Rightarrow> bool" where
  "tracker_steps V T g \<equiv> (tracker_step V T g)\<^sup>*\<^sup>*"

lemma tracker_step_tracks: "tracker_step V T g d d' \<Longrightarrow> tracks g d d'"
  by (induction rule: tracker_step.induct)
    (auto simp: BeginSeedNavigation_def SetMainFrameId_def SetExpectedMainLoaderId_def tracks_refl
      split: option.splits intro: tracks_HandleEvent)

lemma tracker_steps_tracks: "tracker_steps V T g d d' \<Longrightarrow> tracks g d d'"
  by (induction rule: rtranclp_induct) (auto intro: tracks_refl tracks_trans tracker_step_tracks)

lemma new_tracker_ok:
  "PageTracker V uuid now s t = Returns d \<Longrightarrow> tracker_ok d \<and> main_id_ok d"
  by (auto simp: PageTracker_def and_then_Returns_iff tracker_ok_def main_id_ok_def)

text \<open>When the main document is there and no error is set, it is remembered.\<close>

lemma main_document_remembered:
  assumes "tracker_ok d" "main_id_ok d" "HasMainDocumentOrError d" "main_request_error d = None"
  shows "completed_main_request d \<noteq> None"
  using assms
  by (auto simp: HasMainDocumentOrError_def tracker_ok_def main_id_ok_def ActiveMainRequest_def split: option.splits)

lemma ToMainResponse_iff: "HasResponse r \<longleftrightarrow> (\<exists>m. ToMainResponse r = Returns m)"
  by (cases "tr_status_code r"; cases "tr_status_message r"; cases "tr_headers r"; cases "tr_timestamp r")
    (auto simp: HasResponse_def ToMainResponse_def)

lemma with_response_iff: "with_response r = Some x \<longleftrightarrow> r = Some x \<and> HasResponse x"
  by (auto simp: with_response_def split: option.splits)

lemma SelectMainResponse_remembered:
  assumes "tracker_ok d" and "completed_main_request d \<noteq> None"
  shows "\<exists>r m. SelectMainResponse d url = Returns (Some m) \<and> ToMainResponse r = Returns m \<and>
    (completed_main_request d = Some r \<or> ActiveMainRequest d = Some r \<and> tr_request_url r = url)"
proof -
  obtain c where c: "completed_main_request d = Some c" "with_response (completed_main_request d) = Some c"
    using assms by (auto simp: tracker_ok_def with_response_iff)
  have *: "\<exists>m. optional_response (Some x) = Returns (Some m) \<and> ToMainResponse x = Returns m" if "HasResponse x" for x
    using that by (auto simp: optional_response_def ToMainResponse_iff)
  have cr: "HasResponse c" using c(2) by (simp add: with_response_iff)
  show ?thesis
  proof (cases "tr_request_url c = url \<or> with_response (ActiveMainRequest d) = None")
    case True
    then show ?thesis using c * [OF cr] by (auto simp: SelectMainResponse_def Let_def)
  next
    case False
    then obtain a where a: "with_response (ActiveMainRequest d) = Some a" by auto
    then have "HasResponse a" "ActiveMainRequest d = Some a" by (simp_all add: with_response_iff)
    then show ?thesis using c * [OF cr] * [of a] a False
      by (cases "tr_request_url a = url") (auto simp: SelectMainResponse_def Let_def)
  qed
qed

lemma MakeExchange_remembered:
  assumes "tracker_ok d" and "completed_main_request d \<noteq> None"
  shows "\<exists>x r m. MakeExchange url title body resources d = Returns x \<and> ToMainResponse r = Returns m \<and>
    (completed_main_request d = Some r \<or> ActiveMainRequest d = Some r \<and> tr_request_url r = url) \<and>
    ex_status x = mr_status_code m \<and> ex_headers x = mr_headers m \<and> ex_final_url x = url \<and>
    ex_body x = body \<and> ex_resources x = resources \<and> ex_title x = title"
  using SelectMainResponse_remembered [OF assms, of url]
  by (fastforce simp: MakeExchange_def ApplyMainResponse_def)

section \<open>The bodies stay within the limit\<close>

definition body_bytes :: "CapturedResource list \<Rightarrow> int" where
  "body_bytes rs = (\<Sum>r\<leftarrow>rs. int (length (rs_body r)))"

lemma body_bytes_simps [simp]: "body_bytes [] = 0" "body_bytes (xs @ ys) = body_bytes xs + body_bytes ys"
  "body_bytes (r # rs) = int (length (rs_body r)) + body_bytes rs"
  by (simp_all add: body_bytes_def)

lemma body_bytes_mset: "mset xs = mset ys \<Longrightarrow> body_bytes xs = body_bytes ys"
  unfolding body_bytes_def by (metis mset_map sum_mset_sum_list)

lemma retain_Returns:
  assumes "retain V b s = (Returns (Inr k), s')"
  shows "k = b \<and> max_bytes (fst s') = max_bytes (fst s) \<and>
    retained_bytes (fst s') = retained_bytes (fst s) + int (length b) \<and> retained_bytes (fst s') \<le> max_bytes (fst s)"
  using assms by (auto simp: retain_def RetainBody_def Let_def and_then_Returns_iff split: if_splits)

lemma fetch_body_budget: "fetch_body V E R me I c i s = (Returns b, s') \<Longrightarrow> fst s' = fst s"
  by (auto simp: fetch_body_def next_do_Returns_iff split: prod.splits)

lemma read_resources_budget:
  assumes "read_resources V E R me I c requests resources s = (Returns (Inr rs), s')"
    and "retained_bytes (fst s) \<le> max_bytes (fst s)"
  shows "max_bytes (fst s') = max_bytes (fst s) \<and> retained_bytes (fst s') \<le> max_bytes (fst s) \<and>
    body_bytes rs - body_bytes resources = retained_bytes (fst s') - retained_bytes (fst s)"
  using assms
proof (induction V E R me I c requests resources s rule: read_resources.induct)
  case (1 V E R me I c resources s)
  then show ?case by simp
next
  case (2 V E R me I c i r requests resources s)
  show ?case
  proof (cases "is_tracked_main_document r \<or> \<not> HasResponse r")
    case True
    then show ?thesis using "2.IH"(1) "2.prems" by simp
  next
    case False
    then obtain m where m: "ToMainResponse r = Returns m" using ToMainResponse_iff by blast
    show ?thesis
    proof (cases "ResponseCanHaveBody (tr_method r) (mr_status_code m)")
      case no: False
      then have "read_resources V E R me I c requests (resources @ [resource_of r m []]) s = (Returns (Inr rs), s')"
        using False m "2.prems"(1) by (simp add: next_do_def)
      from "2.IH"(2) [OF False no this "2.prems"(2)] show ?thesis by (simp add: resource_of_def)
    next
      case yes: True
      then obtain b t where b: "fetch_body V E R me I c i s = (Returns b, t)"
        using False m "2.prems"(1) by (auto simp: next_do_Returns_iff)
      have t: "fst t = fst s" using fetch_body_budget [OF b] .
      show ?thesis
      proof (cases b)
        case None
        then have rest: "read_resources V E R me I c requests (resources @ [resource_of r m []]) t = (Returns (Inr rs), s')"
          using False m yes b "2.prems"(1) by (simp add: next_do_def)
        have "\<not> \<not> ResponseCanHaveBody (tr_method r) (mr_status_code m)" using yes by simp
        from "2.IH"(3) [OF False this None rest] "2.prems"(2) t show ?thesis by (simp add: resource_of_def)
      next
        case (Some body)
        then obtain kept u where "retain V body t = (Returns kept, u)"
            and "(case kept of Inl err \<Rightarrow> (Returns (Inl err), u)
              | Inr k \<Rightarrow> read_resources V E R me I c requests (resources @ [resource_of r m k]) u) = (Returns (Inr rs), s')"
          using False m yes b "2.prems"(1) by (auto simp: next_do_Returns_iff)
        then obtain k where k: "retain V body t = (Returns (Inr k), u)"
            and rest: "read_resources V E R me I c requests (resources @ [resource_of r m k]) u = (Returns (Inr rs), s')"
          by (cases kept) auto
        note kept = retain_Returns [OF k]
        have "\<not> \<not> ResponseCanHaveBody (tr_method r) (mr_status_code m)" using yes by simp
        from "2.IH"(4) [OF False this Some refl rest] kept t show ?thesis by (simp add: resource_of_def)
      qed
    qed
  qed
qed

lemma ReadBody_budget:
  assumes "ReadBody V E R me I c fallback d s = (Returns (Inr body), s')" and "0 \<le> max_bytes (fst s)"
    and "retained_bytes (fst s) = 0"
  shows "max_bytes (fst s') = max_bytes (fst s) \<and> retained_bytes (fst s') = int (length body) \<and>
    retained_bytes (fst s') \<le> max_bytes (fst s)"
proof -
  have "\<exists>b t. fst t = fst s \<and> retain V b t = (Returns (Inr body), s')"
  proof (cases "retain V fallback s = (Returns (Inr body), s')")
    case True
    then show ?thesis by blast
  next
    case False
    define i where "i = (if main_response_request_id d \<noteq> None then main_response_request_id d else main_request_id d)"
    from False assms(1) obtain k b t where f: "fetch_body V E R me I c k s = (Returns b, t)"
        and r: "(case b of None \<Rightarrow> retain V fallback t | Some b \<Rightarrow> retain V b t) = (Returns (Inr body), s')"
      unfolding ReadBody_def i_def [symmetric] by (cases i) (simp_all add: next_do_Returns_iff split: if_splits, blast)
    from fetch_body_budget [OF f] r show ?thesis by (cases b; simp del: split_paired_Ex) blast+
  qed
  then obtain b t where "fst t = fst s" and k: "retain V b t = (Returns (Inr body), s')" by blast
  with retain_Returns [OF k] assms(3) show ?thesis by simp
qed

lemma bodies_bounded:
  assumes "\<And>xs. mset (sort_resources R xs) = mset xs" and "tracker_ok d'" and "0 \<le> limit"
    and "ReadBody V E R me I c fallback d (\<lparr>max_bytes = limit, retained_bytes = 0\<rparr>, client) = (Returns (Inr body), budget, client')"
    and "ReadResources V E R me I c d' (budget, client'') = (Returns (Inr resources), s)"
  shows "int (length body) + body_bytes resources \<le> limit"
proof -
  have b: "max_bytes budget = limit" "retained_bytes budget = int (length body)" "retained_bytes budget \<le> limit"
    using ReadBody_budget [OF assms(4)] assms(3) by simp_all
  obtain rs where r: "read_resources V E R me I c (active_requests d') (redirected_resources d') (budget, client'') =
      (Returns (Inr rs), s)" and rs: "resources = sort_resources R rs"
    using assms(5) by (auto simp: ReadResources_def next_do_Returns_iff TRY_Inr_iff)
  have "body_bytes (redirected_resources d') = 0"
    using assms(2) by (simp add: tracker_ok_def body_bytes_def cong: map_cong)
  with read_resources_budget [OF r] b body_bytes_mset [OF assms(1) [of rs]] show ?thesis by (simp add: rs)
qed

end
