(* ===== verification/Browser_Start.thy ===== *)
theory Browser_Start
  imports Cdp_Handshake Browser_Page Crawler_Error Egress_Proxy Database
begin

text \<open>
  \<open>crawler/browser_session.cpp\<close>, \<open>BrowserSession\<close>: the directory of a run, the sandboxed browser process
  and its proxy, connecting to it, its diagnostics, and taking everything down.

  The file system is a map from paths to contents.  Calls of the system are numbered; before each one
  the environment says what the browser wrote meanwhile, and whether the call raises.  A loop that polls
  until a deadline runs as often as the deadline lets it, a number that is an argument.
\<close>

section \<open>The surroundings\<close>

text \<open>\<open>children\<close> counts the processes that were started and not waited for.\<close>

record bw =
  bfiles :: "string \<Rightarrow> string option"
  bdirs :: "string list"
  bcalls :: nat
  service :: world
  spawned :: "(string \<times> string list) list"
  children :: nat
  signals :: "string list"

record b_env =
  fs_fault :: "nat \<Rightarrow> string option"
  outside :: "nat \<Rightarrow> (string \<Rightarrow> string option) \<Rightarrow> (string \<Rightarrow> string option)"
  proc_exited :: "nat \<Rightarrow> bool"
  proxy_tasks :: "nat \<Rightarrow> Impl \<Rightarrow> Impl"
  bind_fault :: "nat \<Rightarrow> string option"
  timestring :: "nat \<Rightarrow> string"
  generated_uuid :: "nat \<Rightarrow> string"
  dir_fd :: "nat \<Rightarrow> nat"
  cdp_socket :: "nat \<Rightarrow> connect_env"
  crypto :: cdp_crypto
  strip_trailing :: "string \<Rightarrow> string"
  sandbox_script :: string
  closure_paths :: "string list"
  sandbox_path_env :: string
  bwrap_wrapper :: string
  fontconfig_file :: string
  seccomp_ready :: bool
  syscall_known :: "string \<Rightarrow> bool"
  rule_add_rc :: "string \<Rightarrow> int"
  export_rc :: int
  seccomp_bytes :: "string list \<Rightarrow> string"

definition tick_b :: "b_env \<Rightarrow> bw \<Rightarrow> bw" where
  "tick_b N w = w\<lparr>bfiles := outside N (bcalls w) (bfiles w), bcalls := bcalls w + 1\<rparr>"

definition fs_call :: "b_env \<Rightarrow> bw \<Rightarrow> (bw \<Rightarrow> 'a outcome \<times> bw) \<Rightarrow> 'a outcome \<times> bw" where
  "fs_call N w k =
     (case fs_fault N (bcalls w) of Some what \<Rightarrow> (Throws what, tick_b N w) | None \<Rightarrow> k (tick_b N w))"

definition CreateDirectories :: "b_env \<Rightarrow> string \<Rightarrow> bw \<Rightarrow> unit outcome \<times> bw" where
  "CreateDirectories N dir w = fs_call N w (\<lambda>w. (Returns (), w\<lparr>bdirs := bdirs w @ [dir]\<rparr>))"

definition RewriteFileContents :: "b_env \<Rightarrow> string \<Rightarrow> string \<Rightarrow> bw \<Rightarrow> unit outcome \<times> bw" where
  "RewriteFileContents N file contents w =
     fs_call N w (\<lambda>w. (Returns (), w\<lparr>bfiles := (bfiles w)(file \<mapsto> contents)\<rparr>))"

definition FileExists :: "b_env \<Rightarrow> string \<Rightarrow> bw \<Rightarrow> bool outcome \<times> bw" where
  "FileExists N file w = fs_call N w (\<lambda>w. (Returns (bfiles w file \<noteq> None), w))"

definition ReadFileContents :: "b_env \<Rightarrow> string \<Rightarrow> bw \<Rightarrow> string outcome \<times> bw" where
  "ReadFileContents N file w =
     fs_call N w (\<lambda>w. (case bfiles w file of None \<Rightarrow> Throws ''no such file'' | Some c \<Rightarrow> Returns c, w))"

text \<open>\<open>process->WaitFor(0ms)\<close>.\<close>

definition has_exited :: "b_env \<Rightarrow> bw \<Rightarrow> bool \<times> bw" where
  "has_exited N w = (proc_exited N (bcalls w), tick_b N w)"

fun each_do :: "('a \<Rightarrow> 's \<Rightarrow> unit outcome \<times> 's) \<Rightarrow> 'a list \<Rightarrow> 's \<Rightarrow> unit outcome \<times> 's" where
  "each_do f [] s = (Returns (), s)"
| "each_do f (x # xs) s = next_do (f x s) (\<lambda>_ s. each_do f xs s)"

section \<open>Constants and paths\<close>

definition kMaxLogBytes :: int where "kMaxLogBytes = 64 * 1024"
definition kManagedCgroupPrefix :: string where "kManagedCgroupPrefix = ''webshotd-''"
definition kManagedCgroupScopeSuffix :: string where "kManagedCgroupScopeSuffix = ''.scope''"
definition kManagedCgroupServiceSubgroup :: string where "kManagedCgroupServiceSubgroup = ''/service''"
definition kBrowserSandboxRoot :: string where "kBrowserSandboxRoot = ''/browser''"
definition kProxySocketFileName :: string where "kProxySocketFileName = ''proxy.sock''"
definition kCdpSocketFileName :: string where "kCdpSocketFileName = ''cdp.sock''"
definition kWebsocketPathFileName :: string where "kWebsocketPathFileName = ''websocket_path.txt''"
definition kProxyListenPort :: int where "kProxyListenPort = 3128"
definition kDevtoolsPort :: int where "kDevtoolsPort = 9222"

function NormalizeDirPath :: "string \<Rightarrow> string" where
  "NormalizeDirPath v = (if length v > 1 \<and> last v = CHR ''/'' then NormalizeDirPath (butlast v) else v)"
  by pat_completeness auto
termination
  by (relation "measure length") auto

declare NormalizeDirPath.simps [simp del]

definition BrowserSandboxPath :: "string \<Rightarrow> string outcome" where
  "BrowserSandboxPath relative_path =
     Invariant (hd relative_path \<noteq> CHR ''/'') ''browser sandbox path must be relative''
       (Returns (kBrowserSandboxRoot @ ''/'' @ relative_path))"

section \<open>The control group of the service\<close>

text \<open>The loop of \<open>ReadSelfCgroupV2Path\<close> over the lines.\<close>

function self_cgroup_path :: "string \<Rightarrow> string outcome" where
  "self_cgroup_path remaining =
     (let line = (case find_char newline remaining 0 of None \<Rightarrow> remaining | Some n \<Rightarrow> substr remaining 0 n)
      in if prefix ''0::'' line
         then (let p = NormalizeDirPath (drop 3 line) in
               if p = [] \<or> hd p \<noteq> CHR ''/'' then Aborts ''invalid cgroup v2 path in /proc/self/cgroup''
               else Returns p)
         else (case find_char newline remaining 0 of
                 None \<Rightarrow> Aborts ''failed to locate cgroup v2 path in /proc/self/cgroup''
               | Some n \<Rightarrow> self_cgroup_path (drop (n + 1) remaining)))"
  by pat_completeness auto
termination
  by (relation "measure length") (auto dest: find_char_bounds)

declare self_cgroup_path.simps [simp del]

definition ReadSelfCgroupV2Path :: "b_env \<Rightarrow> bw \<Rightarrow> string outcome \<times> bw" where
  "ReadSelfCgroupV2Path N w =
     next_do (ReadFileContents N ''/proc/self/cgroup'' w) (\<lambda>raw w. (self_cgroup_path raw, w))"

definition ParentCgroupPath :: "string \<Rightarrow> string outcome" where
  "ParentCgroupPath p =
     (if p = [] \<or> hd p \<noteq> CHR ''/'' then Aborts ''cgroup path must be absolute''
      else if p = ''/'' then Aborts ''webshotd must run inside the managed cgroup subgroup''
      else case rfind_char CHR ''/'' p of
        None \<Rightarrow> Aborts ''failed to locate parent cgroup path''
      | Some slash_pos \<Rightarrow> if slash_pos = 0 then Returns ''/'' else Returns (substr p 0 slash_pos))"

definition IsManagedCgroupRootName :: "string \<Rightarrow> bool" where
  "IsManagedCgroupRootName name \<longleftrightarrow> prefix kManagedCgroupPrefix name \<and> suffix kManagedCgroupScopeSuffix name"

definition ManagedCgroupRootPathFromServiceSubgroup :: "string \<Rightarrow> string outcome" where
  "ManagedCgroupRootPathFromServiceSubgroup p =
     (if \<not> suffix kManagedCgroupServiceSubgroup p
      then Aborts (''webshotd must run inside managed cgroup subgroup '' @ [CHR 39] @ kManagedCgroupServiceSubgroup @
             [CHR 39] @ '', got '' @ p)
      else and_then (ParentCgroupPath p) (\<lambda>root.
        let name = (case rfind_char CHR ''/'' root of None \<Rightarrow> root | Some n \<Rightarrow> substr_from root (n + 1))
        in if \<not> IsManagedCgroupRootName name
           then Aborts (''webshotd is not running inside a managed cgroup root: '' @ p)
           else Returns root))"

definition ResolveDelegatedCgroupRootPath :: "b_env \<Rightarrow> bw \<Rightarrow> string outcome \<times> bw" where
  "ResolveDelegatedCgroupRootPath N w =
     next_do (ReadSelfCgroupV2Path N w) (\<lambda>current w.
       (and_then (ManagedCgroupRootPathFromServiceSubgroup current) (\<lambda>root. Returns (''/sys/fs/cgroup'' @ root)), w))"

definition MakeBrowserRunsRoot :: "string \<Rightarrow> string" where
  "MakeBrowserRunsRoot state_dir =
     (let root = NormalizeDirPath state_dir in
      if root = ''/'' then ''/browser_runs'' else root @ ''/browser_runs'')"

definition LocalFixtureTrustDbSourcePath :: "string \<Rightarrow> string" where
  "LocalFixtureTrustDbSourcePath state_dir = NormalizeDirPath state_dir @ ''/test_pki/chromium_nssdb''"

section \<open>The directory of a run\<close>

definition CopyFileContents ::
    "('u, 'z) vendor_scheme \<Rightarrow> b_env \<Rightarrow> string \<Rightarrow> string \<Rightarrow> bw \<Rightarrow> (string + unit) outcome \<times> bw" where
  "CopyFileContents V N source_path destination_path w =
     next_do (FileExists N source_path w) (\<lambda>there w.
       if \<not> there then (unex_text V (''source file does not exist: '' @ source_path), w)
       else next_do (ReadFileContents N source_path w) (\<lambda>contents w.
         next_do (RewriteFileContents N destination_path contents w) (\<lambda>_ w. (Returns (Inr ()), w))))"

definition MakeChromiumArgs :: "string \<Rightarrow> string \<Rightarrow> bool \<Rightarrow> string list" where
  "MakeChromiumArgs user_data_dir netlog_path use_local_fixture_trust_db =
     (let disabled_features = ''Vulkan,VulkanFromANGLE,DefaultANGLEVulkan'' @
            (if use_local_fixture_trust_db then '',ChromeRootStoreUsed'' else []) in
      [''--headless=new'', ''--ozone-platform=headless'', ''--disable-gpu'', ''--disable-gpu-compositing'',
       ''--disable-gpu-rasterization'', ''--disable-vulkan'', ''--disable-dev-shm-usage'',
       ''--disable-background-networking'', ''--disable-breakpad'', ''--disable-crash-reporter'',
       ''--disable-quic'', ''--no-default-browser-check'', ''--no-first-run'', ''--mute-audio'',
       ''--hide-scrollbars'', ''--no-sandbox'', ''--no-zygote'', ''--use-gl=swiftshader'',
       ''--disable-features='' @ disabled_features, ''--user-data-dir='' @ user_data_dir,
       ''--log-net-log='' @ netlog_path, ''--net-log-capture-mode=IncludeSensitive'',
       ''--proxy-server=http://127.0.0.1:'' @ int_to_string kProxyListenPort,
       ''--proxy-bypass-list=<-loopback>'', ''--remote-debugging-address=127.0.0.1'',
       ''--remote-debugging-port='' @ int_to_string kDevtoolsPort, ''--window-size=1600,900'',
       ''--enable-logging=stderr'', ''--log-level=0'', ''about:blank''])"

text \<open>\<open>SeccompFilter\<close> and the rules added to it: a list of denied calls.\<close>

definition DenyBrowserSyscall ::
    "('u, 'z) vendor_scheme \<Rightarrow> b_env \<Rightarrow> string \<Rightarrow> string list \<Rightarrow> unit outcome \<times> string list" where
  "DenyBrowserSyscall V N name rules =
     next_do (deref_text V (''browser seccomp syscall is unknown: '' @ name), rules) (\<lambda>unknown rules.
       if \<not> syscall_known N name then (Aborts unknown, rules)
       else next_do (deref_text V (''failed to deny browser syscall '' @ name @ '': '' @ int_to_string (rule_add_rc N name)), rules)
         (\<lambda>denied rules. if rule_add_rc N name \<noteq> 0 then (Aborts denied, rules) else (Returns (), rules @ [name])))"

definition denied_syscalls :: "string list" where
  "denied_syscalls = [''bpf'', ''perf_event_open'', ''ptrace'', ''process_vm_readv'', ''process_vm_writev'',
     ''add_key'', ''request_key'', ''keyctl'']"

definition WriteBrowserSeccompPolicy :: "('u, 'z) vendor_scheme \<Rightarrow> b_env \<Rightarrow> string \<Rightarrow> bw \<Rightarrow> unit outcome \<times> bw" where
  "WriteBrowserSeccompPolicy V N file w =
     (if \<not> seccomp_ready N then (Aborts ''failed to initialize browser seccomp filter'', w)
      else let (r, rules) = each_do (DenyBrowserSyscall V N) denied_syscalls [] in
        next_do (r, w) (\<lambda>_ w.
        next_do (RewriteFileContents N file [] w) (\<lambda>_ w.
        next_do (deref_text V (''failed to export browser seccomp policy: '' @ int_to_string (export_rc N)), w) (\<lambda>failed w.
          if export_rc N \<noteq> 0 then (Aborts failed, w)
          else (Returns (), w\<lparr>bfiles := (bfiles w)(file \<mapsto> seccomp_bytes N rules)\<rparr>)))))"

record BrowserPaths =
  root_dir :: string
  bp_run_id :: string
  user_data_dir :: string
  user_data_trust_db_dir :: string
  xdg_config_home :: string
  xdg_cache_home :: string
  crashpad_dir :: string
  proxy_socket_path :: string
  cdp_socket_path :: string
  websocket_pathfile_path :: string
  netlog_path :: string
  cdp_trace_path :: string
  stdout_log_path :: string
  stderr_log_path :: string
  chromium_stderr_log_path :: string
  bwrap_status_file_path :: string
  cgroup_stats_path :: string
  seccomp_bpf_path :: string
  phase_file_path :: string
  dev_null_path :: string
  etc_dir :: string
  passwd_path :: string
  group_path :: string
  nsswitch_conf_path :: string
  hosts_path :: string
  local_fixture_trust_db_dir :: string

definition browser_paths :: "string \<Rightarrow> string \<Rightarrow> BrowserPaths" where
  "browser_paths root uuid = \<lparr>root_dir = root, bp_run_id = uuid, user_data_dir = root @ ''/profile'',
     user_data_trust_db_dir = root @ ''/profile/.pki/nssdb'', xdg_config_home = root @ ''/xdg_config'',
     xdg_cache_home = root @ ''/xdg_cache'', crashpad_dir = root @ ''/crashpad'',
     proxy_socket_path = root @ ''/proxy.sock'', cdp_socket_path = root @ ''/cdp.sock'',
     websocket_pathfile_path = root @ ''/websocket_path.txt'', netlog_path = root @ ''/netlog.json'',
     cdp_trace_path = root @ ''/cdp_trace.jsonl'', stdout_log_path = root @ ''/stdout.log'',
     stderr_log_path = root @ ''/stderr.log'', chromium_stderr_log_path = root @ ''/chromium_stderr.log'',
     bwrap_status_file_path = root @ ''/bwrap_status.jsonl'', cgroup_stats_path = root @ ''/cgroup_stats.txt'',
     seccomp_bpf_path = root @ ''/seccomp.bpf'', phase_file_path = root @ ''/phase.txt'',
     dev_null_path = root @ ''/devnull'', etc_dir = root @ ''/etc'', passwd_path = root @ ''/etc/passwd'',
     group_path = root @ ''/etc/group'', nsswitch_conf_path = root @ ''/etc/nsswitch.conf'',
     hosts_path = root @ ''/etc/hosts'', local_fixture_trust_db_dir = root @ ''/.pki/nssdb''\<rparr>"

definition etc_files :: "BrowserPaths \<Rightarrow> (string \<times> string) list" where
  "etc_files p =
     [(passwd_path p, ''root:x:0:0:root:/browser:/bin/sh'' @ [newline] @
        ''webshot:x:1000:1000:webshot:/browser:/bin/sh'' @ [newline]),
      (group_path p, ''root:x:0:'' @ [newline] @ ''webshot:x:1000:'' @ [newline]),
      (nsswitch_conf_path p, ''passwd: files'' @ [newline] @ ''group: files'' @ [newline] @ ''hosts: files dns'' @ [newline]),
      (hosts_path p, ''127.0.0.1 localhost'' @ [newline] @ ''::1 localhost'' @ [newline])]"

definition MakeBrowserPaths ::
    "('u, 'z) vendor_scheme \<Rightarrow> b_env \<Rightarrow> string \<Rightarrow> bw \<Rightarrow> BrowserPaths outcome \<times> bw" where
  "MakeBrowserPaths V N browser_runs_root w =
     (let temp_root = NormalizeDirPath browser_runs_root in
      next_do (CreateDirectories N temp_root w) (\<lambda>_ w.
      let uuid = generated_uuid N (bcalls w); root = temp_root @ ''/browser_'' @ uuid; p = browser_paths root uuid in
      next_do (CreateDirectories N (root_dir p) w) (\<lambda>_ w.
      next_do (RewriteFileContents N (root @ ''/browser_sandbox.sh'') (sandbox_script N) w) (\<lambda>_ w.
      next_do (WriteBrowserSeccompPolicy V N (seccomp_bpf_path p) w) (\<lambda>_ w.
      next_do (each_do (CreateDirectories N)
        [user_data_dir p, xdg_config_home p, xdg_cache_home p, crashpad_dir p, etc_dir p] w) (\<lambda>_ w.
      next_do (each_do (\<lambda>file. RewriteFileContents N file [])
        [phase_file_path p, cdp_trace_path p, dev_null_path p] w) (\<lambda>_ w.
      next_do (each_do (\<lambda>(file, contents). RewriteFileContents N file contents) (etc_files p) w) (\<lambda>_ w.
      (Returns p, w)))))))))"

text \<open>\<open>catch (const std::runtime_error &)\<close> around a call.\<close>

definition catching :: "'a outcome \<times> 's \<Rightarrow> (string \<Rightarrow> 's \<Rightarrow> 'a outcome \<times> 's) \<Rightarrow> 'a outcome \<times> 's" where
  "catching r handler = (case r of (Throws what, s) \<Rightarrow> handler what s | _ \<Rightarrow> r)"

definition OpenBrowserRunDir ::
    "('u, 'z) vendor_scheme \<Rightarrow> b_env \<Rightarrow> BrowserPaths \<Rightarrow> bw \<Rightarrow> (string + nat) outcome \<times> bw" where
  "OpenBrowserRunDir V N p w =
     catching (fs_call N w (\<lambda>w. (Returns (Inr (dir_fd N (bcalls w))), w))) (\<lambda>what w.
       (unex_text V (''failed to open browser run dir '' @ root_dir p @ '': '' @ what), w))"

definition BrowserRunFdPath :: "nat \<Rightarrow> string \<Rightarrow> string outcome" where
  "BrowserRunFdPath fd file_name =
     Invariant (hd file_name \<noteq> CHR ''/'') ''browser run fd path file name must be relative''
       (Returns (''/proc/self/fd/'' @ to_string fd @ ''/'' @ file_name))"

fun copy_files ::
    "('u, 'z) vendor_scheme \<Rightarrow> b_env \<Rightarrow> string \<Rightarrow> string \<Rightarrow> string list \<Rightarrow> bw \<Rightarrow> (string + unit) outcome \<times> bw" where
  "copy_files V N source_path destination_path [] w = (Returns (Inr ()), w)"
| "copy_files V N source_path destination_path (file_name # names) w =
     try_do (CopyFileContents V N (source_path @ ''/'' @ file_name) (destination_path @ ''/'' @ file_name) w)
       (\<lambda>_ w. copy_files V N source_path destination_path names w)"

definition CopyLocalFixtureTrustDb ::
    "('u, 'z) vendor_scheme \<Rightarrow> b_env \<Rightarrow> string \<Rightarrow> string \<Rightarrow> bw \<Rightarrow> (string + unit) outcome \<times> bw" where
  "CopyLocalFixtureTrustDb V N source_path destination_path w =
     next_do (CreateDirectories N destination_path w) (\<lambda>_ w.
       copy_files V N source_path destination_path [''cert9.db'', ''key4.db'', ''pkcs11.txt''] w)"

definition StageLocalFixtureTrustDb ::
    "('u, 'z) vendor_scheme \<Rightarrow> b_env \<Rightarrow> BrowserPaths \<Rightarrow> string \<Rightarrow> bw \<Rightarrow> (string + unit) outcome \<times> bw" where
  "StageLocalFixtureTrustDb V N p source_path w =
     next_do (CreateDirectories N (root_dir p @ ''/.pki'') w) (\<lambda>_ w.
     next_do (CreateDirectories N (user_data_dir p @ ''/.pki'') w) (\<lambda>_ w.
     try_do (CopyLocalFixtureTrustDb V N source_path (local_fixture_trust_db_dir p) w) (\<lambda>_ w.
     try_do (CopyLocalFixtureTrustDb V N source_path (user_data_trust_db_dir p) w) (\<lambda>_ w.
     (Returns (Inr ()), w)))))"

record CgroupLimits =
  cl_cpu_cores :: int
  cl_memory_bytes :: int

text \<open>Times are milliseconds; \<open>bc_metrics\<close> says whether there is a metrics object.\<close>

record BrowserSessionConfig =
  bc_url_bytes_max :: nat
  proxy_down_bytes_max :: int
  browser_runs_root :: string
  cgroup_root_path :: string
  cgroup_limits :: "CgroupLimits option"
  local_fixture_trust_db_source_path :: string
  devtools_startup_timeout :: int
  cdp_handshake_timeout :: int
  cdp_command_timeout :: int
  devtools_poll_interval :: int
  browser_stop_timeout :: int
  cdp_max_remote_payload_bytes :: int
  proxy_require_auth :: bool
  local_fixture_rewrite :: bool
  loopback_ports :: "nat list"
  cgroup_name_prefix :: string
  bc_metrics :: bool

definition StageLocalFixtureTrustDbIfNeeded ::
    "('u, 'z) vendor_scheme \<Rightarrow> b_env \<Rightarrow> BrowserPaths \<Rightarrow> BrowserSessionConfig \<Rightarrow> bw \<Rightarrow> (string + unit) outcome \<times> bw" where
  "StageLocalFixtureTrustDbIfNeeded V N p cfg w =
     (if \<not> local_fixture_rewrite cfg then (Returns (Inr ()), w)
      else next_do (StageLocalFixtureTrustDb V N p (local_fixture_trust_db_source_path cfg) w) (\<lambda>r w.
        case r of
          Inl err \<Rightarrow> (unex_text V (''failed to stage local fixture trust db: '' @ err), w)
        | Inr _ \<Rightarrow> (Returns (Inr ()), w)))"

section \<open>Logs and diagnostics\<close>

definition TruncateLogBuffer :: "string \<Rightarrow> string" where
  "TruncateLogBuffer v = (if int (length v) \<le> kMaxLogBytes then v else RetainLogHeadAndTail v kMaxLogBytes)"

definition ReadLogTail :: "b_env \<Rightarrow> string \<Rightarrow> bw \<Rightarrow> string outcome \<times> bw" where
  "ReadLogTail N file w =
     next_do (FileExists N file w) (\<lambda>there w.
       if \<not> there then (Returns [], w)
       else next_do (ReadFileContents N file w) (\<lambda>v w. (Returns (TruncateLogBuffer v), w)))"

definition WritePhaseMarker ::
    "('u, 'z) vendor_scheme \<Rightarrow> b_env \<Rightarrow> string \<Rightarrow> string \<Rightarrow> bw \<Rightarrow> unit outcome \<times> bw" where
  "WritePhaseMarker V N file phase w =
     next_do (deref_text V (timestring N (bcalls w)), w) (\<lambda>ts w.
       RewriteFileContents N file (ts @ '' '' @ phase @ [newline]) w)"

definition FormatBrowserLogs :: "string \<times> string \<Rightarrow> string" where
  "FormatBrowserLogs logs =
     ''stdout='' @ (if fst logs = [] then ''empty'' else fst logs) @
     '', stderr='' @ (if snd logs = [] then ''empty'' else snd logs)"

definition FormatStartLogs :: "string \<times> string \<Rightarrow> string \<Rightarrow> string" where
  "FormatStartLogs browser_logs bwrap_status =
     FormatBrowserLogs browser_logs @ (if bwrap_status \<noteq> [] then '', bwrap_status='' @ bwrap_status else [])"

definition AppendDiagnosticField ::
    "('u, 'z) vendor_scheme \<Rightarrow> string \<Rightarrow> string \<Rightarrow> string \<Rightarrow> string outcome" where
  "AppendDiagnosticField V label v out =
     (let out = (if out \<noteq> [] then text_append V out '', '' else out) in
      and_then (deref_text V (label @ ''='' @ v)) (\<lambda>t. Returns (text_append V out t)))"

definition ReadBrowserFileIfExists :: "b_env \<Rightarrow> string \<Rightarrow> bw \<Rightarrow> string option outcome \<times> bw" where
  "ReadBrowserFileIfExists N file w =
     catching (next_do (FileExists N file w) (\<lambda>there w.
         if \<not> there then (Returns None, w)
         else next_do (ReadFileContents N file w) (\<lambda>c w. (Returns (Some c), w))))
       (\<lambda>_ w. (Returns None, w))"

text \<open>\<open>TempDirectory::Adopt\<close> and \<open>Remove\<close>: the directory goes with everything in it.\<close>

definition inside :: "string \<Rightarrow> string \<Rightarrow> bool" where
  "inside dir file \<longleftrightarrow> file = dir \<or> prefix (dir @ ''/'') file"

definition RemoveBrowserRunDir ::
    "('u, 'z) vendor_scheme \<Rightarrow> b_env \<Rightarrow> string \<Rightarrow> bw \<Rightarrow> (string + unit) outcome \<times> bw" where
  "RemoveBrowserRunDir V N dir w =
     catching (fs_call N w (\<lambda>w. (Returns (Inr ()),
         w\<lparr>bfiles := (\<lambda>file. if inside dir file then None else bfiles w file),
           bdirs := filter (\<lambda>d. \<not> inside dir d) (bdirs w)\<rparr>)))
       (\<lambda>what w. (and_then (deref_text V what) (\<lambda>t. Returns (Inl t)), w))"

definition ReadRetainedLogText ::
    "('u, 'z) vendor_scheme \<Rightarrow> b_env \<Rightarrow> string \<Rightarrow> bw \<Rightarrow> string option outcome \<times> bw" where
  "ReadRetainedLogText V N file w =
     next_do (ReadBrowserFileIfExists N file w) (\<lambda>bytes w.
       case bytes of
         None \<Rightarrow> (Returns None, w)
       | Some b \<Rightarrow> (and_then (RetainProcessOutputText V b) (\<lambda>t. Returns (if t \<noteq> [] then Some t else None)), w))"

definition ReadWebsocketPathFile ::
    "('u, 'z) vendor_scheme \<Rightarrow> b_env \<Rightarrow> string \<Rightarrow> bw \<Rightarrow> string option outcome \<times> bw" where
  "ReadWebsocketPathFile V N file w =
     next_do (ReadBrowserFileIfExists N file w) (\<lambda>v w.
       (Returns (case v of
          None \<Rightarrow> None
        | Some b \<Rightarrow>
            let stripped = strip_trailing N b in
            if stripped = [] then None
            else case OptionalString V (Some stripped) of Inl _ \<Rightarrow> None | Inr t \<Rightarrow> t), w))"

section \<open>Starting the browser\<close>

definition SpawnProcess :: "b_env \<Rightarrow> string \<Rightarrow> string list \<Rightarrow> bw \<Rightarrow> unit outcome \<times> bw" where
  "SpawnProcess N executable_path args w =
     fs_call N w (\<lambda>w. (Returns (),
       w\<lparr>spawned := spawned w @ [(executable_path, args)], children := children w + 1\<rparr>))"

definition bwrap_isolation :: "string list" where
  "bwrap_isolation = [''--json-status-fd'', ''3'', ''--die-with-parent'', ''--new-session'', ''--seccomp'', ''4'',
     ''--unshare-user'', ''--unshare-net'', ''--unshare-pid'', ''--unshare-ipc'', ''--unshare-uts'', ''--disable-userns'',
     ''--uid'', ''1000'', ''--gid'', ''1000'', ''--hostname'', ''webshot-browser'', ''--clearenv'', ''--proc'', ''/proc'',
     ''--dev'', ''/dev'', ''--dir'', ''/nix'', ''--dir'', ''/nix/store'']"

definition bwrap_closure :: "b_env \<Rightarrow> string list" where
  "bwrap_closure N = concat (map (\<lambda>p. [''--ro-bind'', p, p]) (filter (\<lambda>p. p \<noteq> []) (closure_paths N)))"

definition bwrap_mounts :: "b_env \<Rightarrow> BrowserPaths \<Rightarrow> string list" where
  "bwrap_mounts N p =
     [''--dir'', ''/etc'', ''--ro-bind'', passwd_path p, ''/etc/passwd'', ''--ro-bind'', group_path p, ''/etc/group'',
      ''--ro-bind'', nsswitch_conf_path p, ''/etc/nsswitch.conf'', ''--ro-bind'', hosts_path p, ''/etc/hosts'',
      ''--tmpfs'', ''/tmp'', ''--chmod'', ''1777'', ''/tmp'', ''--bind'', root_dir p, kBrowserSandboxRoot,
      ''--bind'', dev_null_path p, ''/dev/null'', ''--setenv'', ''FONTCONFIG_FILE'', fontconfig_file N,
      ''--setenv'', ''PATH'', sandbox_path_env N, ''--setenv'', ''HOME'', kBrowserSandboxRoot,
      ''--setenv'', ''TMPDIR'', ''/tmp'']"

definition bwrap_args :: "b_env \<Rightarrow> BrowserPaths \<Rightarrow> bool \<Rightarrow> string list outcome" where
  "bwrap_args N p use_local_fixture_trust_db =
     and_then (BrowserSandboxPath ''profile'') (\<lambda>profile.
     and_then (BrowserSandboxPath ''netlog.json'') (\<lambda>netlog.
     and_then (BrowserSandboxPath ''xdg_config'') (\<lambda>config_home.
     and_then (BrowserSandboxPath ''xdg_cache'') (\<lambda>cache_home.
     and_then (BrowserSandboxPath ''crashpad'') (\<lambda>crashpad.
     and_then (BrowserSandboxPath kProxySocketFileName) (\<lambda>proxy_sock.
     and_then (BrowserSandboxPath kCdpSocketFileName) (\<lambda>cdp_sock.
     and_then (BrowserSandboxPath kWebsocketPathFileName) (\<lambda>ws_file.
     Returns ([''bwrap''] @ bwrap_isolation @ bwrap_closure N @ bwrap_mounts N p @
       [''--setenv'', ''XDG_CONFIG_HOME'', config_home, ''--setenv'', ''XDG_CACHE_HOME'', cache_home,
        ''--setenv'', ''BREAKPAD_DUMP_LOCATION'', crashpad, ''--setenv'', ''DBUS_SESSION_BUS_ADDRESS'', ''=disabled:'',
        ''--chdir'', kBrowserSandboxRoot] @
       [''setpriv'', ''--no-new-privs'', ''--'', ''bash'', ''browser_sandbox.sh'', proxy_sock, cdp_sock, ws_file,
        int_to_string kProxyListenPort, int_to_string kDevtoolsPort, ''--'', ''chromium''] @
       MakeChromiumArgs profile netlog use_local_fixture_trust_db)))))))))"

definition SpawnSandboxedBrowser ::
    "b_env \<Rightarrow> BrowserPaths \<Rightarrow> string \<Rightarrow> CgroupLimits option \<Rightarrow> string \<Rightarrow> bool \<Rightarrow> bw \<Rightarrow> unit outcome \<times> bw" where
  "SpawnSandboxedBrowser N p cgroup_root limits name_prefix use_local_fixture_trust_db w =
     next_do (bwrap_args N p use_local_fixture_trust_db, w) (\<lambda>bwrap w.
       SpawnProcess N ''bash''
         ([bwrap_wrapper N, bwrap_status_file_path p, cgroup_stats_path p, cgroup_root,
           name_prefix @ ''_'' @ bp_run_id p,
           int_to_string (case limits of None \<Rightarrow> 0 | Some l \<Rightarrow> cl_cpu_cores l),
           int_to_string (case limits of None \<Rightarrow> 0 | Some l \<Rightarrow> cl_memory_bytes l), seccomp_bpf_path p] @ bwrap) w)"

definition BrowserCgroupPath :: "BrowserPaths \<Rightarrow> BrowserSessionConfig \<Rightarrow> string" where
  "BrowserCgroupPath p cfg = cgroup_root_path cfg @ ''/'' @ cgroup_name_prefix cfg @ ''_'' @ bp_run_id p"

definition StartBrowserProxy ::
    "('u, 'z) vendor_scheme \<Rightarrow> b_env \<Rightarrow> BrowserPaths \<Rightarrow> BrowserSessionConfig \<Rightarrow> Deadline \<Rightarrow> bw \<Rightarrow>
     (string + Impl) outcome \<times> bw" where
  "StartBrowserProxy V N p cfg deadline w =
     try_do (OpenBrowserRunDir V N p w) (\<lambda>run_dir_fd w.
     next_do (BrowserRunFdPath run_dir_fd kProxySocketFileName, w) (\<lambda>sock w.
       (Make V \<lparr>socket_path = sock, run_id = bp_run_id p, url_bytes_max = bc_url_bytes_max cfg,
          down_bytes_max = proxy_down_bytes_max cfg, require_auth = proxy_require_auth cfg,
          enable_local_fixture_rewrite = local_fixture_rewrite cfg, testsuite_loopback_ports = loopback_ports cfg\<rparr>
          (deadline \<noteq> None) (bind_fault N (bcalls w)), tick_b N w)))"

definition ConnectCdpOnce ::
    "('u, 'z) vendor_scheme \<Rightarrow> b_env \<Rightarrow> BrowserPaths \<Rightarrow> BrowserSessionConfig \<Rightarrow> string \<Rightarrow> Deadline \<Rightarrow> bw \<Rightarrow>
     (string + 'j cdp) outcome \<times> bw" where
  "ConnectCdpOnce V N p cfg ws_path deadline w =
     try_do (OpenBrowserRunDir V N p w) (\<lambda>run_dir_fd w.
     next_do (BrowserRunFdPath run_dir_fd kCdpSocketFileName, w) (\<lambda>sock w.
     next_do (Cdp_Handshake.Connect V (crypto N) (cdp_socket N (bcalls w)) sock ws_path (cdp_trace_path p) deadline
         (cdp_handshake_timeout cfg) (cdp_max_remote_payload_bytes cfg), tick_b N w) (\<lambda>r w.
       case r of
         Inr client \<Rightarrow> (Returns (Inr client), w)
       | Inl err \<Rightarrow>
           (and_then (FormatCdpError V ''devtools websocket handshake failed'' err) (\<lambda>t. Returns (Inl t)), w))))"

text \<open>
  \<open>StopProcess\<close>: the first argument says whether there is a process.  Sending a signal may raise;
  once \<open>WaitFor\<close> says so or \<open>Wait\<close> returned, the process is gone.
\<close>

definition SendSignal :: "b_env \<Rightarrow> string \<Rightarrow> bw \<Rightarrow> unit outcome \<times> bw" where
  "SendSignal N sig w = fs_call N w (\<lambda>w. (Returns (), w\<lparr>signals := signals w @ [sig]\<rparr>))"

definition StopProcess :: "b_env \<Rightarrow> bool \<Rightarrow> bw \<Rightarrow> unit outcome \<times> bw" where
  "StopProcess N process w =
     (if \<not> process then (Returns (), w)
      else let (ended, w) = has_exited N w; gone = (\<lambda>w. (Returns (), w\<lparr>children := children w - 1\<rparr>)) in
        if ended then gone w
        else next_do (SendSignal N ''SIGTERM'' w) (\<lambda>_ w.
          let (ended, w) = has_exited N w in
          if ended then gone w else next_do (SendSignal N ''SIGKILL'' w) (\<lambda>_ w. gone w)))"

section \<open>The session\<close>

record browser =
  b_config :: BrowserSessionConfig
  b_paths :: BrowserPaths
  b_proxy :: "Impl option"
  b_process :: bool
  b_websocket_path :: string
  registered_cgroup_path :: "string option"

definition no_paths :: BrowserPaths where
  "no_paths = \<lparr>root_dir = [], bp_run_id = [], user_data_dir = [], user_data_trust_db_dir = [], xdg_config_home = [],
     xdg_cache_home = [], crashpad_dir = [], proxy_socket_path = [], cdp_socket_path = [],
     websocket_pathfile_path = [], netlog_path = [], cdp_trace_path = [], stdout_log_path = [],
     stderr_log_path = [], chromium_stderr_log_path = [], bwrap_status_file_path = [], cgroup_stats_path = [],
     seccomp_bpf_path = [], phase_file_path = [], dev_null_path = [], etc_dir = [], passwd_path = [],
     group_path = [], nsswitch_conf_path = [], hosts_path = [], local_fixture_trust_db_dir = []\<rparr>"

definition BrowserSession :: "BrowserSessionConfig \<Rightarrow> browser" where
  "BrowserSession cfg = \<lparr>b_config = cfg, b_paths = no_paths, b_proxy = None, b_process = False,
     b_websocket_path = [], registered_cgroup_path = None\<rparr>"

type_synonym session = "browser \<times> bw"

text \<open>A function of the surroundings on the session.\<close>

definition on_world :: "(bw \<Rightarrow> 'a outcome \<times> bw) \<Rightarrow> session \<Rightarrow> 'a outcome \<times> session" where
  "on_world f s = (let (r, w) = f (snd s) in (r, (fst s, w)))"

definition DrainBrowserLogs :: "b_env \<Rightarrow> session \<Rightarrow> (string \<times> string) outcome \<times> session" where
  "DrainBrowserLogs N s =
     next_do (on_world (ReadLogTail N (stdout_log_path (b_paths (fst s)))) s) (\<lambda>out s.
     next_do (on_world (ReadLogTail N (stderr_log_path (b_paths (fst s)))) s) (\<lambda>err s.
     (Returns (out, err), s)))"

definition MarkPhase :: "('u, 'z) vendor_scheme \<Rightarrow> b_env \<Rightarrow> string \<Rightarrow> session \<Rightarrow> unit outcome \<times> session" where
  "MarkPhase V N phase s = on_world (WritePhaseMarker V N (phase_file_path (b_paths (fst s))) phase) s"

definition CurrentStartLogs :: "b_env \<Rightarrow> session \<Rightarrow> string outcome \<times> session" where
  "CurrentStartLogs N s =
     next_do (DrainBrowserLogs N s) (\<lambda>logs s.
     next_do (on_world (ReadLogTail N (bwrap_status_file_path (b_paths (fst s)))) s) (\<lambda>status s.
     (Returns (FormatStartLogs logs status), s)))"

text \<open>\<open>Unex(text::Format("{} ({})", message, CurrentStartLogs()))\<close>.\<close>

definition error_with_logs ::
    "('u, 'z) vendor_scheme \<Rightarrow> b_env \<Rightarrow> string \<Rightarrow> session \<Rightarrow> (string + 'a) outcome \<times> session" where
  "error_with_logs V N message s =
     next_do (CurrentStartLogs N s) (\<lambda>logs s. (unex_text V (message @ '' ('' @ logs @ '')''), s))"

definition process_exited :: "b_env \<Rightarrow> session \<Rightarrow> bool \<times> session" where
  "process_exited N s =
     (if b_process (fst s) then (let (ended, w) = has_exited N (snd s) in (ended, (fst s, w))) else (False, s))"

definition exited_early :: string where
  "exited_early = ''chromium exited before exposing devtools''"

definition devtools_timeout :: "bool \<Rightarrow> bool \<Rightarrow> string" where
  "devtools_timeout saw_websocket_path saw_cdp_socket =
     (if \<not> saw_websocket_path then ''devtools websocket path was never written''
      else if \<not> saw_cdp_socket then ''devtools websocket path was written but cdp socket never appeared''
      else ''devtools websocket path and cdp socket appeared but handshake never started'')"

definition seen :: "b_env \<Rightarrow> bool \<Rightarrow> string \<Rightarrow> session \<Rightarrow> bool outcome \<times> session" where
  "seen N already file s = (if already then (Returns True, s) else on_world (FileExists N file) s)"

text \<open>The loop of \<open>WaitForDevtoolsPath\<close>; the number is how often the deadline is not yet reached.\<close>

fun wait_devtools ::
    "('u, 'z) vendor_scheme \<Rightarrow> b_env \<Rightarrow> nat \<Rightarrow> bool \<Rightarrow> bool \<Rightarrow> session \<Rightarrow> (string + string) outcome \<times> session" where
  "wait_devtools V N 0 saw_cdp_socket saw_websocket_path s =
     (let (ended, s) = process_exited N s in
      if ended then error_with_logs V N exited_early s
      else error_with_logs V N (devtools_timeout saw_websocket_path saw_cdp_socket) s)"
| "wait_devtools V N (Suc n) saw_cdp_socket saw_websocket_path s =
     next_do (seen N saw_cdp_socket (cdp_socket_path (b_paths (fst s))) s) (\<lambda>saw_cdp_socket s.
     next_do (seen N saw_websocket_path (websocket_pathfile_path (b_paths (fst s))) s) (\<lambda>saw_websocket_path s.
     let (ended, s) = process_exited N s in
     if ended then error_with_logs V N exited_early s
     else next_do (on_world (ReadWebsocketPathFile V N (websocket_pathfile_path (b_paths (fst s)))) s) (\<lambda>ws_path s.
       case ws_path of
         Some p \<Rightarrow> if saw_cdp_socket then (Returns (Inr p), s)
                   else wait_devtools V N n saw_cdp_socket saw_websocket_path s
       | None \<Rightarrow> wait_devtools V N n saw_cdp_socket saw_websocket_path s)))"

definition WaitForDevtoolsPath ::
    "('u, 'z) vendor_scheme \<Rightarrow> b_env \<Rightarrow> nat \<Rightarrow> Deadline \<Rightarrow> session \<Rightarrow> (string + string) outcome \<times> session" where
  "WaitForDevtoolsPath V N polls deadline s =
     (if deadline = None then (Aborts ''devtools deadline must be reachable'', s)
      else wait_devtools V N polls False False s)"

section \<open>The detail of an error\<close>

definition field_if ::
    "('u, 'z) vendor_scheme \<Rightarrow> string \<Rightarrow> string \<Rightarrow> string option outcome \<times> session \<Rightarrow> string outcome \<times> session" where
  "field_if V label out r =
     next_do r (\<lambda>v s. (case v of None \<Rightarrow> Returns out | Some x \<Rightarrow> AppendDiagnosticField V label x out, s))"

definition bool_field ::
    "('u, 'z) vendor_scheme \<Rightarrow> string \<Rightarrow> string \<Rightarrow> bool outcome \<times> session \<Rightarrow> string outcome \<times> session" where
  "bool_field V label out r =
     next_do r (\<lambda>b s. (AppendDiagnosticField V label (if b then ''true'' else ''false'') out, s))"

text \<open>\<open>ReadProcessOutputText\<close> of \<open>crawler/error.cpp\<close> reads the file and catches what that raises.\<close>

definition file_contents :: "b_env \<Rightarrow> string \<Rightarrow> bw \<Rightarrow> string option outcome \<times> bw" where
  "file_contents N file w =
     catching (next_do (ReadFileContents N file w) (\<lambda>c w. (Returns (Some c), w))) (\<lambda>_ w. (Returns None, w))"

definition process_output ::
    "('u, 'z) vendor_scheme \<Rightarrow> b_env \<Rightarrow> session \<Rightarrow> string option outcome \<times> session" where
  "process_output V N s =
     next_do (on_world (file_contents N (stdout_log_path (b_paths (fst s)))) s) (\<lambda>out s.
     next_do (on_world (file_contents N (stderr_log_path (b_paths (fst s)))) s) (\<lambda>err s.
     (FormatProcessOutputDiagnostics V out err, s)))"

definition cgroup_fields ::
    "('u, 'z) vendor_scheme \<Rightarrow> b_env \<Rightarrow> string \<Rightarrow> session \<Rightarrow> string outcome \<times> session" where
  "cgroup_fields V N out s =
     (let file = cgroup_stats_path (b_paths (fst s)) in
      next_do (on_world (ReadBrowserFileIfExists N file) s) (\<lambda>raw s.
        case raw of
          None \<Rightarrow> (Returns out, s)
        | Some bytes \<Rightarrow>
            next_do (ParseCgroupStatsSnapshot V bytes, s) (\<lambda>parsed s.
              case parsed of
                Inr stats \<Rightarrow>
                  (and_then (FormatCgroupStats V stats) (\<lambda>t.
                   and_then (AppendDiagnosticField V ''cgroup'' t out) (\<lambda>out.
                   if HasBrowserOomKill stats then AppendDiagnosticField V ''browser_resource_error'' ''oom_kill'' out
                   else Returns out)), s)
              | Inl _ \<Rightarrow> field_if V ''cgroup_raw'' out (on_world (ReadRetainedLogText V N file) s))))"

definition proxy_fields ::
    "('u, 'z) vendor_scheme \<Rightarrow> b_env \<Rightarrow> string \<Rightarrow> session \<Rightarrow> string outcome \<times> session" where
  "proxy_fields V N out s =
     (case b_proxy (fst s) of
        None \<Rightarrow> (Returns out, s)
      | Some proxy \<Rightarrow>
          let proxy = proxy_tasks N (bcalls (snd s)) proxy in
          (and_then (deref_text V (int_to_string (DownBytes proxy))) (\<lambda>n.
           and_then (AppendDiagnosticField V ''proxy_down_bytes'' n out) (\<lambda>out.
             case ErrorReason proxy of
               None \<Rightarrow> Returns out | Some e \<Rightarrow> AppendDiagnosticField V ''proxy_error'' e out)),
           ((fst s)\<lparr>b_proxy := Some proxy\<rparr>, snd s)))"

definition MakeErrorDetail ::
    "('u, 'z) vendor_scheme \<Rightarrow> b_env \<Rightarrow> string \<Rightarrow> session \<Rightarrow> string outcome \<times> session" where
  "MakeErrorDetail V N message s =
     (let p = b_paths (fst s); retained = (\<lambda>file. on_world (ReadRetainedLogText V N file));
          there = (\<lambda>file. on_world (FileExists N file)) in
      next_do (field_if V ''browser_logs'' [] (process_output V N s)) (\<lambda>out s.
      next_do (field_if V ''chromium_stderr'' out (retained (chromium_stderr_log_path p) s)) (\<lambda>out s.
      next_do (field_if V ''bwrap_status'' out (retained (bwrap_status_file_path p) s)) (\<lambda>out s.
      next_do (field_if V ''phase'' out (retained (phase_file_path p) s)) (\<lambda>out s.
      next_do (field_if V ''cdp_trace_tail'' out (retained (cdp_trace_path p) s)) (\<lambda>out s.
      next_do (cgroup_fields V N out s) (\<lambda>out s.
      next_do (field_if V ''websocket_path'' out
        (on_world (ReadWebsocketPathFile V N (websocket_pathfile_path p)) s)) (\<lambda>out s.
      next_do (bool_field V ''websocket_pathfile_exists'' out (there (websocket_pathfile_path p) s)) (\<lambda>out s.
      next_do (bool_field V ''netlog_exists'' out (there (netlog_path p) s)) (\<lambda>out s.
      next_do (bool_field V ''browser_process_running'' out
        (let (ended, s) = process_exited N s in (Returns (b_process (fst s) \<and> \<not> ended), s))) (\<lambda>out s.
      next_do (bool_field V ''cdp_socket_exists'' out (there (cdp_socket_path p) s)) (\<lambda>out s.
      next_do (proxy_fields V N out s) (\<lambda>out s.
      if out = [] then (Returns message, s) else (deref_text V (message @ '', '' @ out), s))))))))))))))"

definition ProxyDownBytes :: "b_env \<Rightarrow> session \<Rightarrow> int" where
  "ProxyDownBytes N s =
     (case b_proxy (fst s) of None \<Rightarrow> 0 | Some proxy \<Rightarrow> DownBytes (proxy_tasks N (bcalls (snd s)) proxy))"

definition RunId :: "session \<Rightarrow> string" where
  "RunId s = bp_run_id (b_paths (fst s))"

definition ProxyErrorReason :: "b_env \<Rightarrow> session \<Rightarrow> string option" where
  "ProxyErrorReason N s =
     (case b_proxy (fst s) of None \<Rightarrow> None | Some proxy \<Rightarrow> ErrorReason (proxy_tasks N (bcalls (snd s)) proxy))"

section \<open>Start, connecting and the end\<close>

definition register_cgroup :: "session \<Rightarrow> session" where
  "register_cgroup s =
     (let b = fst s; w = snd s; cfg = b_config b in
      if cgroup_limits cfg \<noteq> None \<and> bc_metrics cfg
      then let grp = BrowserCgroupPath (b_paths b) cfg in
        (b\<lparr>registered_cgroup_path := Some grp\<rparr>, w\<lparr>service := RegisterBrowserCgroup grp (service w)\<rparr>)
      else s)"

text \<open>The end of \<open>Impl::Start\<close>, once the process is there.\<close>

definition watch_browser ::
    "('u, 'z) vendor_scheme \<Rightarrow> b_env \<Rightarrow> nat \<Rightarrow> Deadline \<Rightarrow> session \<Rightarrow> (string + unit) outcome \<times> session" where
  "watch_browser V N polls deadline s =
     next_do (WaitForDevtoolsPath V N polls deadline (register_cgroup ((fst s)\<lparr>b_process := True\<rparr>, snd s))) (\<lambda>r s.
       case r of
         Inr ws_path \<Rightarrow> (Returns (Inr ()), ((fst s)\<lparr>b_websocket_path := ws_path\<rparr>, snd s))
       | Inl detail \<Rightarrow> next_do (MakeErrorDetail V N detail s) (\<lambda>d s. (Returns (Inl d), s)))"

text \<open>\<open>Impl::Start\<close>; \<open>deadline\<close> is \<open>FromDuration(devtools_startup_timeout)\<close>.\<close>

definition Start_browser ::
    "('u, 'z) vendor_scheme \<Rightarrow> b_env \<Rightarrow> nat \<Rightarrow> Deadline \<Rightarrow> session \<Rightarrow> (string + unit) outcome \<times> session" where
  "Start_browser V N polls deadline s =
     (let cfg = b_config (fst s) in
      next_do (on_world (MakeBrowserPaths V N (browser_runs_root cfg)) s) (\<lambda>p s.
      let s = ((fst s)\<lparr>b_paths := p\<rparr>, snd s) in
      try_do (on_world (StageLocalFixtureTrustDbIfNeeded V N p cfg) s) (\<lambda>_ s.
      next_do (MarkPhase V N ''start_browser'' s) (\<lambda>_ s.
      try_do (on_world (StartBrowserProxy V N p cfg deadline) s) (\<lambda>proxy s.
      let s = ((fst s)\<lparr>b_proxy := Some proxy\<rparr>, snd s) in
      next_do (on_world (SpawnSandboxedBrowser N p (cgroup_root_path cfg) (cgroup_limits cfg)
        (cgroup_name_prefix cfg) (local_fixture_rewrite cfg)) s) (\<lambda>_ s.
      watch_browser V N polls deadline s))))))"

text \<open>The loop of \<open>ConnectCdp\<close>; the number is how often the deadline is not yet reached.\<close>

fun connect_cdp_loop ::
    "('u, 'z) vendor_scheme \<Rightarrow> b_env \<Rightarrow> Deadline \<Rightarrow> nat \<Rightarrow> string option \<Rightarrow> int \<Rightarrow> session \<Rightarrow>
     (string + 'j cdp) outcome \<times> session" where
  "connect_cdp_loop V N deadline 0 last_error attempts s =
     (case last_error of
        Some err \<Rightarrow> (Returns (Inl err), s)
      | None \<Rightarrow> error_with_logs V N
          (''devtools websocket handshake failed after '' @ int_to_string attempts @ '' attempt(s)'') s)"
| "connect_cdp_loop V N deadline (Suc n) last_error attempts s =
     next_do (on_world (ConnectCdpOnce V N (b_paths (fst s)) (b_config (fst s)) (b_websocket_path (fst s)) deadline) s)
       (\<lambda>r s. case r of
          Inr client \<Rightarrow> (Returns (Inr client), s)
        | Inl err \<Rightarrow>
            next_do (CurrentStartLogs N s) (\<lambda>logs s.
            next_do (deref_text V (err @ '' ('' @ logs @ '')''), s) (\<lambda>t s.
              connect_cdp_loop V N deadline n (Some t) (attempts + 1) s)))"

definition ConnectCdp ::
    "('u, 'z) vendor_scheme \<Rightarrow> b_env \<Rightarrow> nat \<Rightarrow> Deadline \<Rightarrow> session \<Rightarrow> (string + 'j cdp) outcome \<times> session" where
  "ConnectCdp V N tries overall_deadline s =
     (if overall_deadline = None then (Aborts ''cdp overall deadline must be reachable'', s)
      else connect_cdp_loop V N overall_deadline tries None 0 s)"

text \<open>
  The destructor.  It must not raise: an exception in it ends the process.  A failure to remove the
  directory is logged.
\<close>

definition no_throw :: "'a outcome \<times> 's \<Rightarrow> 'a outcome \<times> 's" where
  "no_throw r = (case r of (Throws what, s) \<Rightarrow> (Aborts ''terminate'', s) | _ \<Rightarrow> r)"

definition stop_and_remove :: "('u, 'z) vendor_scheme \<Rightarrow> b_env \<Rightarrow> session \<Rightarrow> unit outcome \<times> session" where
  "stop_and_remove V N s =
     (let s = ((fst s)\<lparr>b_process := False, b_proxy := map_option Egress_Proxy.Stop (b_proxy (fst s))\<rparr>, snd s) in
      if root_dir (b_paths (fst s)) = [] then (Returns (), s)
      else next_do (no_throw (on_world (RemoveBrowserRunDir V N (root_dir (b_paths (fst s)))) s)) (\<lambda>_ s. (Returns (), s)))"

definition unregister_cgroup :: "session \<Rightarrow> session" where
  "unregister_cgroup s =
     (case registered_cgroup_path (fst s) of
        Some grp \<Rightarrow>
          if bc_metrics (b_config (fst s))
          then (fst s, (snd s)\<lparr>service := UnregisterBrowserCgroup grp (service (snd s))\<rparr>) else s
      | None \<Rightarrow> s)"

definition destroy_browser :: "('u, 'z) vendor_scheme \<Rightarrow> b_env \<Rightarrow> session \<Rightarrow> unit outcome \<times> session" where
  "destroy_browser V N s =
     next_do (no_throw (on_world (StopProcess N (b_process (fst s))) (unregister_cgroup s)))
       (\<lambda>_. stop_and_remove V N)"

text \<open>\<open>BrowserSession::Make\<close>: an error or an exception of \<open>Start\<close> destroys the session first.\<close>

definition Make_browser ::
    "('u, 'z) vendor_scheme \<Rightarrow> b_env \<Rightarrow> nat \<Rightarrow> Deadline \<Rightarrow> BrowserSessionConfig \<Rightarrow> bw \<Rightarrow>
     (string + browser) outcome \<times> session" where
  "Make_browser V N polls deadline cfg w =
     (case Start_browser V N polls deadline (BrowserSession cfg, w) of
        (Aborts why, s) \<Rightarrow> (Aborts why, s)
      | (Throws what, s) \<Rightarrow> next_do (destroy_browser V N s) (\<lambda>_ s. (Throws what, s))
      | (Returns (Inl err), s) \<Rightarrow> next_do (destroy_browser V N s) (\<lambda>_ s. (Returns (Inl err), s))
      | (Returns (Inr _), s) \<Rightarrow> (Returns (Inr (fst s)), s))"

end
