(* ===== verification/Capture_Session.thy ===== *)
theory Capture_Session
  imports Page_Tracker Browser_Start Service
begin

text \<open>
  \<open>crawler/runner.cpp\<close>, \<open>CaptureSession\<close>: one capture.  The main task drives the page; a second task runs
  the event loop, which answers intercepted requests and feeds the tracker.

  What the two share is changed by the other task at any time: before each access the environment's
  \<open>J\<close> is applied.  The markers of the phases that the page session writes are kept in the page; writing them
  does not raise there.
\<close>

section \<open>State\<close>

text \<open>The commands of the \<open>Fetch\<close> domain; \<open>FulfillRequest\<close> has the fields of its parameters in order.\<close>

datatype fetch_command =
  ContinueRequest string
| ContinueWithAuth string string "(string \<times> string) option"
| FulfillRequest string int headers string string

fun fetch_method :: "fetch_command \<Rightarrow> string" where
  "fetch_method (ContinueRequest i) = ''Fetch.continueRequest''"
| "fetch_method (ContinueWithAuth i response credentials) = ''Fetch.continueWithAuth''"
| "fetch_method (FulfillRequest i code hs body phrase) = ''Fetch.fulfillRequest''"

text \<open>
  \<open>events_seen\<close> and \<open>fetch_log\<close> are histories: the events the loop has taken and the commands sent in answer to
  an interception.
\<close>

record 'j capture =
  cap_browser :: session
  cap_cdp :: "'j cdp option"
  cap_page :: "page option"
  cap_tracker :: "tracker option"
  interception_error :: "string option"
  progress_version :: int
  event_task :: bool
  stopping_event_loop :: bool
  cap_ticks :: nat
  events_seen :: "'j CdpEvent list"
  fetch_log :: "fetch_command list"

record 'j capture_env =
  cap_cdp_env :: "'j cdp_env"
  cap_page_env :: "'j page_env"
  cap_tracker_env :: "'j tracker_env"
  cap_body_env :: "'j body_env"
  cap_browser_env :: b_env
  cap_clocks :: "nat \<Rightarrow> clocks"
  as_auth_required :: "'j \<Rightarrow> (string \<times> string option) option"
  as_request_paused :: "'j \<Rightarrow> (string \<times> string) option"
  fetch_value :: "fetch_command \<Rightarrow> 'j option"
  fetch_result :: "'j option \<Rightarrow> unit option"
  base64_encode :: "string \<Rightarrow> string"

type_synonym 'j capture_others = "nat \<Rightarrow> 'j capture \<Rightarrow> 'j capture"

definition observe :: "'j capture_others \<Rightarrow> 'j capture \<Rightarrow> 'j capture" where
  "observe J s = (J (cap_ticks s) s)\<lparr>cap_ticks := Suc (cap_ticks s)\<rparr>"

abbreviation service_of :: "'j capture \<Rightarrow> world" where
  "service_of s \<equiv> service (snd (cap_browser s))"

definition set_service :: "world \<Rightarrow> 'j capture \<Rightarrow> 'j capture" where
  "set_service w s = s\<lparr>cap_browser := (fst (cap_browser s), (snd (cap_browser s))\<lparr>service := w\<rparr>)\<rparr>"

definition on_service :: "'a act \<Rightarrow> 'j capture \<Rightarrow> 'a outcome \<times> 'j capture" where
  "on_service f s = (let (r, w) = f (service_of s) in (r, set_service w s))"

section \<open>Errors and progress\<close>

definition NoteInterceptionError :: "string \<Rightarrow> 'j capture \<Rightarrow> 'j capture" where
  "NoteInterceptionError why s =
     (if interception_error s \<noteq> None then s
      else s\<lparr>interception_error := Some why, cap_tracker := map_option (Tracker_Fail why) (cap_tracker s)\<rparr>)"

definition NoteEventProgress :: "'j capture \<Rightarrow> 'j capture" where
  "NoteEventProgress s = s\<lparr>progress_version := progress_version s + 1\<rparr>"

definition CurrentWaitError :: "'j capture \<Rightarrow> string option" where
  "CurrentWaitError s =
     (case interception_error s of
        Some err \<Rightarrow> Some err
      | None \<Rightarrow> (case cap_tracker s of None \<Rightarrow> None | Some d \<Rightarrow> Tracker_ErrorReason d))"

definition CurrentSeedProbe :: "'j capture \<Rightarrow> SeedProbe option" where
  "CurrentSeedProbe s = (case cap_tracker s of None \<Rightarrow> None | Some d \<Rightarrow> Tracker_CurrentSeedProbe d)"

definition GetCdpClient :: "'j capture \<Rightarrow> 'j cdp outcome" where
  "GetCdpClient s = (case cap_cdp s of None \<Rightarrow> Aborts ''cdp client is not connected'' | Some c \<Rightarrow> Returns c)"

definition GetPageTracker :: "'j capture \<Rightarrow> tracker outcome" where
  "GetPageTracker s = (case cap_tracker s of None \<Rightarrow> Aborts ''page tracker is not attached'' | Some d \<Rightarrow> Returns d)"

definition Capture_GetSession :: "'j capture \<Rightarrow> CdpSession outcome" where
  "Capture_GetSession s =
     (case cap_page s of None \<Rightarrow> Aborts ''cdp session is not attached'' | Some p \<Rightarrow> GetSession p)"

text \<open>A command of the session, on the client the page session refers to.\<close>

definition with_client ::
    "(CdpSession \<Rightarrow> 'j cdp \<Rightarrow> 'a outcome \<times> 'j cdp) \<Rightarrow> 'j capture \<Rightarrow> 'a outcome \<times> 'j capture" where
  "with_client f s =
     next_do (Capture_GetSession s, s) (\<lambda>c s.
     next_do (GetCdpClient s, s) (\<lambda>client s.
       let (r, client) = f c client in (r, s\<lparr>cap_cdp := Some client\<rparr>)))"

section \<open>Intercepted requests\<close>

definition send_fetch ::
    "('u, 'z) vendor_scheme \<Rightarrow> 'j capture_env \<Rightarrow> nat \<Rightarrow> 'j interference \<Rightarrow> fetch_command \<Rightarrow> 'j capture \<Rightarrow>
     (CdpError + unit) outcome \<times> 'j capture" where
  "send_fetch V X me I cmd s =
     with_client (\<lambda>c. SendVoid V (cap_cdp_env X) me I (fetch_result X) (fetch_value X) c (fetch_method cmd) cmd)
       (s\<lparr>fetch_log := fetch_log s @ [cmd]\<rparr>)"

text \<open>Sending a command, with an error noted.\<close>

definition fetch_or_note ::
    "('u, 'z) vendor_scheme \<Rightarrow> 'j capture_env \<Rightarrow> nat \<Rightarrow> 'j interference \<Rightarrow> fetch_command \<Rightarrow> 'j capture \<Rightarrow>
     unit outcome \<times> 'j capture" where
  "fetch_or_note V X me I cmd s =
     next_do (send_fetch V X me I cmd s) (\<lambda>r s.
       case r of
         Inr _ \<Rightarrow> (Returns (), s)
       | Inl err \<Rightarrow> next_do (FormatCdpError V (fetch_method cmd @ '' failed'') err, s) (\<lambda>t s.
           (Returns (), NoteInterceptionError t s)))"

definition HandleFetchAuthRequired ::
    "('u, 'z) vendor_scheme \<Rightarrow> 'j capture_env \<Rightarrow> nat \<Rightarrow> 'j interference \<Rightarrow> 'j CdpEvent \<Rightarrow> 'j capture \<Rightarrow>
     unit outcome \<times> 'j capture" where
  "HandleFetchAuthRequired V X me I event s =
     next_do (ParseEventParams V (as_auth_required X) event, s) (\<lambda>r s.
       case r of
         Inl err \<Rightarrow> (Returns (), NoteInterceptionError err s)
       | Inr (request_id, source) \<Rightarrow>
           fetch_or_note V X me I
             (if source = None \<or> source = Some ''Proxy''
              then ContinueWithAuth request_id ''ProvideCredentials'' (Some (RunId (cap_browser s), ''x''))
              else ContinueWithAuth request_id ''Default'' None) s)"

text \<open>What is done with a request whose address is subject to the policy.\<close>

definition answer_paused ::
    "('u, 'z) vendor_scheme \<Rightarrow> 'j capture_env \<Rightarrow> nat \<Rightarrow> 'j interference \<Rightarrow> string \<Rightarrow> AccessDecision \<Rightarrow> 'j capture \<Rightarrow>
     unit outcome \<times> 'j capture" where
  "answer_paused V X me I request_id decision s =
     (if allowed decision then fetch_or_note V X me I (ContinueRequest request_id) s
      else next_do (deref_text V (AccessDecisionMessage (reason decision) @ [newline]), s) (\<lambda>body s.
        fetch_or_note V X me I (FulfillRequest request_id 403 (MakeBlockedFetchHeaders (length body))
          (base64_encode X body) ''Forbidden'') s))"

definition HandleFetchRequestPaused ::
    "('u, 'z) vendor_scheme \<Rightarrow> 'j capture_env \<Rightarrow> runner_config \<Rightarrow> nat \<Rightarrow> 'j interference \<Rightarrow> 'j CdpEvent \<Rightarrow> 'j capture \<Rightarrow>
     unit outcome \<times> 'j capture" where
  "HandleFetchRequestPaused V X cfg me I event s =
     next_do (ParseEventParams V (as_request_paused X) event, s) (\<lambda>r s.
       case r of
         Inl err \<Rightarrow> (Returns (), NoteInterceptionError err s)
       | Inr (request_id, url_bytes) \<Rightarrow>
           (case FromBytes V url_bytes of
              Inl _ \<Rightarrow> (Returns (), NoteInterceptionError ''Fetch.requestPaused contained invalid request url'' s)
            | Inr request_text \<Rightarrow>
                next_do (AccessPolicyUrlFromText V request_text, s) (\<lambda>url s.
                  case url of
                    None \<Rightarrow> fetch_or_note V X me I (ContinueRequest request_id) s
                  | Some u \<Rightarrow>
                      next_do (on_service (EvaluateAccessPolicy V cfg u) s) (\<lambda>decision s.
                        case decision of
                          Inl err \<Rightarrow> (Returns (), NoteInterceptionError err s)
                        | Inr d \<Rightarrow> answer_paused V X me I request_id d s))))"

definition HandleSessionEvent ::
    "('u, 'z) vendor_scheme \<Rightarrow> 'j capture_env \<Rightarrow> runner_config \<Rightarrow> nat \<Rightarrow> 'j interference \<Rightarrow> 'j CdpEvent \<Rightarrow> 'j capture \<Rightarrow>
     unit outcome \<times> 'j capture" where
  "HandleSessionEvent V X cfg me I event s =
     (if ev_method event = ''Fetch.authRequired'' then HandleFetchAuthRequired V X me I event s
      else if ev_method event = ''Fetch.requestPaused'' then HandleFetchRequestPaused V X cfg me I event s
      else case cap_tracker s of
        None \<Rightarrow> (Returns (), s)
      | Some d \<Rightarrow>
          next_do (HandleEvent V (cap_tracker_env X) (cap_clocks X (cap_ticks s)) event d, s) (\<lambda>d s.
            (Returns (), s\<lparr>cap_tracker := Some d\<rparr>)))"

text \<open>
  The event loop; the number is how often the flag \<open>stopping_event_loop_\<close>, which is only ever set, is
  still read as false.
\<close>

fun RunEventLoop ::
    "('u, 'z) vendor_scheme \<Rightarrow> 'j capture_env \<Rightarrow> runner_config \<Rightarrow> nat \<Rightarrow> 'j interference \<Rightarrow> 'j capture_others \<Rightarrow> nat \<Rightarrow>
     'j capture \<Rightarrow> unit outcome \<times> 'j capture" where
  "RunEventLoop V X cfg me I J 0 s = (Returns (), s)"
| "RunEventLoop V X cfg me I J (Suc n) s =
     next_do (with_client (\<lambda>c. WaitEvent I c ''timed out waiting for cdp event'') (observe J s)) (\<lambda>r s.
       case r of
         Inl err \<Rightarrow>
           if n = 0 then (Returns (), s)
           else next_do (FormatCdpError V ''cdp event loop failed'' err, s) (\<lambda>t s.
             (Returns (), NoteEventProgress (NoteInterceptionError t s)))
       | Inr event \<Rightarrow>
           next_do (HandleSessionEvent V X cfg me I event (s\<lparr>events_seen := events_seen s @ [event]\<rparr>)) (\<lambda>_ s.
             let s = NoteEventProgress s in
             if CurrentWaitError s \<noteq> None then (Returns (), s) else RunEventLoop V X cfg me I J n s))"

section \<open>What an intercepted request is answered\<close>

text \<open>
  The rule of the policy for an address: not plain where only \<open>https\<close> is taken, and allowed by the lists for the
  key of its link.
\<close>

definition permits :: "('u, 'z) vendor_scheme \<Rightarrow> runner_config \<Rightarrow> world \<Rightarrow> 'u \<Rightarrow> bool" where
  "permits V cfg w u \<longleftrightarrow>
     (\<exists>href link key. Href V u = Returns href \<and>
        \<not> (HttpsOnly cfg \<and> (IsHttp V u \<or> StartsWith href ''ws://'')) \<and>
        LinkFromInterceptionUrl V cfg u = Returns (Inr link) \<and> MakePrefixKey V link = Returns key \<and>
        allowed (decide (if AllowlistOnly cfg then kAllowlistOnly else kRegular)
          (exists_ancestor (host_denylist w) (MakePrefixTree V key))
          (exists_ancestor (host_allowlist w) (MakePrefixTree V key))))"

definition is_fetch :: "'j CdpEvent \<Rightarrow> bool" where
  "is_fetch e \<longleftrightarrow> ev_method e = ''Fetch.authRequired'' \<or> ev_method e = ''Fetch.requestPaused''"

text \<open>The address an interception is about: \<open>Some None\<close> when it is not one the policy speaks of.\<close>

definition paused_address ::
    "('u, 'z) vendor_scheme \<Rightarrow> 'j capture_env \<Rightarrow> 'j CdpEvent \<Rightarrow> string \<Rightarrow> 'u option \<Rightarrow> bool" where
  "paused_address V X e i u \<longleftrightarrow>
     ev_method e = ''Fetch.requestPaused'' \<and>
     (\<exists>params url t. ev_params e = Some params \<and> as_request_paused X params = Some (i, url) \<and>
        FromBytes V url = Inr t \<and> AccessPolicyUrlFromText V t = Returns u)"

fun right_answer ::
    "('u, 'z) vendor_scheme \<Rightarrow> 'j capture_env \<Rightarrow> runner_config \<Rightarrow> string \<Rightarrow> world \<Rightarrow> 'j CdpEvent \<Rightarrow> fetch_command \<Rightarrow> bool" where
  "right_answer V X cfg run w e (ContinueRequest i) \<longleftrightarrow>
     paused_address V X e i None \<or> (\<exists>u. paused_address V X e i (Some u) \<and> permits V cfg w u)"
| "right_answer V X cfg run w e (FulfillRequest i code hs body phrase) \<longleftrightarrow>
     code = 403 \<and> (\<exists>u. paused_address V X e i (Some u) \<and> \<not> permits V cfg w u)"
| "right_answer V X cfg run w e (ContinueWithAuth i response credentials) \<longleftrightarrow>
     ev_method e = ''Fetch.authRequired'' \<and>
     (\<exists>params source. ev_params e = Some params \<and> as_auth_required X params = Some (i, source) \<and>
        credentials = (if source \<in> {None, Some ''Proxy''} then Some (run, ''x'') else None))"

definition answered ::
    "('u, 'z) vendor_scheme \<Rightarrow> 'j capture_env \<Rightarrow> runner_config \<Rightarrow> string \<Rightarrow> world \<Rightarrow> 'j CdpEvent \<Rightarrow> fetch_command list \<Rightarrow> bool" where
  "answered V X cfg run w0 e cs \<longleftrightarrow>
     cs = [] \<or> (\<exists>c w. cs = [c] \<and> service_steps V w0 w \<and> right_answer V X cfg run w e c)"

text \<open>What every part of the session keeps.\<close>

definition kept :: "('u, 'z) vendor_scheme \<Rightarrow> 'j capture \<Rightarrow> 'j capture \<Rightarrow> bool" where
  "kept V s s' \<longleftrightarrow>
     RunId (cap_browser s') = RunId (cap_browser s) \<and> service_steps V (service_of s) (service_of s') \<and>
     (interception_error s \<noteq> None \<longrightarrow> interception_error s' \<noteq> None)"

definition same_logs :: "'j capture \<Rightarrow> 'j capture \<Rightarrow> bool" where
  "same_logs s s' \<longleftrightarrow> fetch_log s' = fetch_log s \<and> events_seen s' = events_seen s"

definition others_keep :: "('u, 'z) vendor_scheme \<Rightarrow> 'j capture_others \<Rightarrow> bool" where
  "others_keep V J \<longleftrightarrow> (\<forall>k s. kept V s (J k s) \<and> same_logs s (J k s))"

lemma kept_refl [simp]: "kept V s s"
  by (simp add: kept_def)

lemma kept_trans: "kept V a b \<Longrightarrow> kept V b c \<Longrightarrow> kept V a c"
  by (auto simp: kept_def intro: rtranclp_trans)

lemma same_logs_trans: "same_logs a b \<Longrightarrow> same_logs b c \<Longrightarrow> same_logs a c"
  by (simp add: same_logs_def)

lemma observe_keeps:
  assumes "others_keep V J"
  shows "kept V s (observe J s)" and "same_logs s (observe J s)"
  using assms by (auto simp: others_keep_def observe_def kept_def same_logs_def)

lemma with_client_keeps:
  assumes "with_client f s = (r, s')"
  shows "kept V s s'" and "same_logs s s'" and "interception_error s' = interception_error s"
  using assms
  by (auto simp: with_client_def next_do_def kept_def same_logs_def split: outcome.splits prod.splits)

lemma note_keeps:
  "kept V s (NoteInterceptionError t s)" "same_logs s (NoteInterceptionError t s)"
  "interception_error (NoteInterceptionError t s) \<noteq> None"
  by (auto simp: NoteInterceptionError_def kept_def same_logs_def)

lemma progress_keeps: "kept V s (NoteEventProgress s)" "same_logs s (NoteEventProgress s)"
  by (auto simp: NoteEventProgress_def kept_def same_logs_def)

lemma fetch_or_note_sends:
  assumes "fetch_or_note V X me I cmd s = (r, s')"
  shows "kept V s s' \<and> fetch_log s' = fetch_log s @ [cmd] \<and> events_seen s' = events_seen s"
proof -
  obtain p s1 where p: "send_fetch V X me I cmd s = (p, s1)" by fastforce
  have k: "kept V s s1" "fetch_log s1 = fetch_log s @ [cmd]" "events_seen s1 = events_seen s"
    using with_client_keeps(1,2) [OF p [unfolded send_fetch_def]] by (auto simp: kept_def same_logs_def)
  from assms p have "s' = s1 \<or> (\<exists>t. s' = NoteInterceptionError t s1)"
    by (auto simp: fetch_or_note_def next_do_def split: outcome.splits sum.splits)
  with k show ?thesis
    using note_keeps(1) [of V s1] note_keeps(2) [of s1] by (auto simp: same_logs_def intro: kept_trans)
qed

text \<open>One event: what it does to the histories, and how it is answered.\<close>

definition handled ::
    "('u, 'z) vendor_scheme \<Rightarrow> 'j capture_env \<Rightarrow> runner_config \<Rightarrow> 'j CdpEvent \<Rightarrow> 'j capture \<Rightarrow> unit outcome \<times> 'j capture \<Rightarrow> bool" where
  "handled V X cfg e s p \<longleftrightarrow>
     kept V s (snd p) \<and> events_seen (snd p) = events_seen s \<and>
     (\<exists>cs. fetch_log (snd p) = fetch_log s @ cs \<and>
        answered V X cfg (RunId (cap_browser s)) (service_of s) e cs \<and>
        (fst p = Returns () \<and> is_fetch e \<and> interception_error (snd p) = None \<longrightarrow> cs \<noteq> []))"

lemma handled_none:
  assumes "kept V s s'" and "same_logs s s'" and "r \<noteq> Returns () \<or> \<not> is_fetch e \<or> interception_error s' \<noteq> None"
  shows "handled V X cfg e s (r, s')"
  using assms by (auto simp: handled_def same_logs_def answered_def)

lemma handled_sent:
  assumes "kept V s s1" and "same_logs s s1"
    and "right_answer V X cfg (RunId (cap_browser s)) (service_of s) e cmd"
  shows "handled V X cfg e s (fetch_or_note V X me I cmd s1)"
proof -
  obtain r s' where p: "fetch_or_note V X me I cmd s1 = (r, s')" by fastforce
  from fetch_or_note_sends [OF p] assms show ?thesis
    by (auto simp: p handled_def same_logs_def answered_def intro: kept_trans)
qed

lemma handled_next:
  assumes "\<And>x. r = Returns x \<Longrightarrow> handled V X cfg e s (k x s)"
  shows "handled V X cfg e s (next_do (r, s) k)"
  using assms by (cases r) (auto simp: next_do_def intro!: handled_none simp: same_logs_def)

lemma ParseEventParams_Inr_iff:
  "ParseEventParams V f e = Returns (Inr v) \<Longrightarrow> \<exists>params. ev_params e = Some params \<and> f params = Some v"
  by (auto simp: ParseEventParams_def and_then_def split: option.splits outcome.splits)

lemma HandleFetchAuthRequired_handled:
  assumes "ev_method e = ''Fetch.authRequired''"
  shows "handled V X cfg e s (HandleFetchAuthRequired V X me I e s)"
  unfolding HandleFetchAuthRequired_def
proof (rule handled_next)
  fix x assume p: "ParseEventParams V (as_auth_required X) e = Returns x"
  show "handled V X cfg e s (case x of Inl err \<Rightarrow> (Returns (), NoteInterceptionError err s)
      | Inr (request_id, source) \<Rightarrow> fetch_or_note V X me I
          (if source = None \<or> source = Some ''Proxy''
           then ContinueWithAuth request_id ''ProvideCredentials'' (Some (RunId (cap_browser s), ''x''))
           else ContinueWithAuth request_id ''Default'' None) s)"
  proof (cases x)
    case (Inr v)
    with p assms ParseEventParams_Inr_iff [of V "as_auth_required X" e] show ?thesis
      by (cases v) (auto intro!: handled_sent simp: same_logs_def)
  qed (auto intro!: handled_none note_keeps simp: note_keeps)
qed

lemma EvaluateAccessPolicy_keeps: "keeps (service_steps V) (EvaluateAccessPolicy V cfg u)"
  unfolding EvaluateAccessPolicy_def EvaluatePrefix_def IsAllowlistedPrefix_def IsDeniedPrefix_def
    CheckDenylistTree_def CheckAllowlistTree_def try_as_def
  by (auto intro!: sys.guar_bind sys.guar_try sys.guar_shared_read sys.guar_ret sys.guar_outcome split: sum.split)

lemma try_as_InrE:
  assumes "try_as m err k w = (Returns (Inr v), w')"
  obtains x w1 where "m w = (Returns (Inr x), w1)" and "k x w1 = (Returns (Inr v), w')"
  using assms by (auto simp: try_as_def bind_act_def ret_def split: prod.splits outcome.splits sum.splits)

lemma EvaluateAccessPolicy_answer:
  assumes "EvaluateAccessPolicy V cfg u w = (Returns (Inr d), w')"
  shows "allowed d \<longleftrightarrow> permits V cfg w u"
proof -
  from assms obtain href where h: "Href V u = Returns href"
    and r: "(if HttpsOnly cfg \<and> (IsHttp V u \<or> StartsWith href ''ws://'')
       then ret (Inr \<lparr>allowed = False, reason = kNonHttps\<rparr>)
       else try_act (of_outcome (LinkFromInterceptionUrl V cfg u)) (\<lambda>link.
         bind_act (of_outcome (MakePrefixKey V link)) (\<lambda>key.
           try_as (EvaluatePrefix V key (if AllowlistOnly cfg then kAllowlistOnly else kRegular))
             ''access policy check failed during fetch interception'' (\<lambda>d. ret (Inr d))))) w = (Returns (Inr d), w')"
    unfolding EvaluateAccessPolicy_def bind_outcome_Returns_iff by blast
  show ?thesis
  proof (cases "HttpsOnly cfg \<and> (IsHttp V u \<or> StartsWith href ''ws://'')")
    case True
    with r h show ?thesis by (auto simp: ret_def permits_def)
  next
    case False
    with r obtain link where l: "LinkFromInterceptionUrl V cfg u = Returns (Inr link)"
      and "bind_act (of_outcome (MakePrefixKey V link)) (\<lambda>key.
           try_as (EvaluatePrefix V key (if AllowlistOnly cfg then kAllowlistOnly else kRegular))
             ''access policy check failed during fetch interception'' (\<lambda>d. ret (Inr d))) w = (Returns (Inr d), w')"
      by (auto elim!: try_act_Inr simp: of_outcome_def)
    then obtain key w1 where k: "MakePrefixKey V link = Returns key"
      and e: "EvaluatePrefix V key (if AllowlistOnly cfg then kAllowlistOnly else kRegular) w = (Returns (Inr d), w1)"
      by (auto simp: bind_outcome_Returns_iff ret_def elim!: try_as_InrE)
    from EvaluatePrefix_answer [OF e] False h l k show ?thesis
      by (simp add: permits_def)
  qed
qed

lemma answer_paused_handled:
  assumes "kept V s s1" and "same_logs s s1" and "paused_address V X e i (Some u)"
    and "allowed d \<longleftrightarrow> permits V cfg (service_of s) u"
  shows "handled V X cfg e s (answer_paused V X me I i d s1)"
proof (cases "deref_text V (AccessDecisionMessage (reason d) @ [newline])")
  case (Returns body)
  with assms show ?thesis
    by (auto simp: answer_paused_def next_do_def intro!: handled_sent)
qed (use assms in \<open>auto simp: answer_paused_def next_do_def intro!: handled_sent handled_none\<close>)

lemma on_service_keeps:
  assumes "on_service f s = (r, s')" and "keeps (service_steps V) f"
  shows "kept V s s'" and "same_logs s s'" and "f (service_of s) = (r, service_of s')"
  using assms keepsD [OF assms(2)]
  by (auto simp: on_service_def set_service_def kept_def same_logs_def RunId_def split: prod.splits)

lemma HandleFetchRequestPaused_handled:
  assumes "ev_method e = ''Fetch.requestPaused''"
  shows "handled V X cfg e s (HandleFetchRequestPaused V X cfg me I e s)"
  unfolding HandleFetchRequestPaused_def
proof (rule handled_next)
  fix x assume p: "ParseEventParams V (as_request_paused X) e = Returns x"
  note note_case = handled_none [OF note_keeps(1) note_keeps(2) disjI2 [OF disjI2 [OF note_keeps(3)]]]
  show "handled V X cfg e s (case x of Inl err \<Rightarrow> (Returns (), NoteInterceptionError err s)
      | Inr (request_id, url_bytes) \<Rightarrow>
           (case FromBytes V url_bytes of
              Inl _ \<Rightarrow> (Returns (), NoteInterceptionError ''Fetch.requestPaused contained invalid request url'' s)
            | Inr request_text \<Rightarrow>
                next_do (AccessPolicyUrlFromText V request_text, s) (\<lambda>url s.
                  case url of
                    None \<Rightarrow> fetch_or_note V X me I (ContinueRequest request_id) s
                  | Some u \<Rightarrow>
                      next_do (on_service (EvaluateAccessPolicy V cfg u) s) (\<lambda>decision s.
                        case decision of
                          Inl err \<Rightarrow> (Returns (), NoteInterceptionError err s)
                        | Inr d \<Rightarrow> answer_paused V X me I request_id d s))))"
  proof (cases x)
    case (Inr v)
    then obtain i url where v: "x = Inr (i, url)" by (cases v) auto
    show ?thesis
    proof (cases "FromBytes V url")
      case (Inr t)
      have a: "paused_address V X e i u" if "AccessPolicyUrlFromText V t = Returns u" for u
        using that ParseEventParams_Inr_iff [OF p [unfolded v]] Inr assms by (auto simp: paused_address_def)
      have "handled V X cfg e s (next_do (on_service (EvaluateAccessPolicy V cfg u) s) (\<lambda>decision s.
          case decision of Inl err \<Rightarrow> (Returns (), NoteInterceptionError err s)
          | Inr d \<Rightarrow> answer_paused V X me I i d s))"
        if u: "AccessPolicyUrlFromText V t = Returns (Some u)" for u
      proof -
        obtain r s1 where o: "on_service (EvaluateAccessPolicy V cfg u) s = (r, s1)" by fastforce
        note k = on_service_keeps [OF o EvaluateAccessPolicy_keeps]
        show ?thesis
        proof (cases r)
          case (Returns y)
          show ?thesis
          proof (cases y)
            case (Inl err)
            with Returns k o show ?thesis
              using note_keeps(1) [of V s1 err] note_keeps(2) [of s1 err] note_keeps(3) [of err s1]
              by (auto simp: next_do_def same_logs_def intro!: handled_none intro: kept_trans)
          next
            case (Inr d)
            from EvaluateAccessPolicy_answer [OF k(3) [unfolded Returns Inr]] k o show ?thesis
              unfolding Returns Inr
              by (auto simp: next_do_def intro!: answer_paused_handled a [OF u])
          qed
        qed (use k o in \<open>auto simp: next_do_def intro!: handled_none\<close>)
      qed
      with Inr v a show ?thesis
        by (auto intro!: handled_next handled_sent simp: same_logs_def split: option.split)
    qed (auto simp: v intro: note_case)
  qed (auto intro: note_case)
qed

lemma HandleSessionEvent_handled: "handled V X cfg e s (HandleSessionEvent V X cfg me I e s)"
proof -
  have "handled V X cfg e s (next_do (r, s) (\<lambda>d s. (Returns (), s\<lparr>cap_tracker := Some d\<rparr>)))"
    if "\<not> is_fetch e" for r
    using that by (intro handled_next handled_none) (auto simp: kept_def same_logs_def)
  then show ?thesis
    using HandleFetchAuthRequired_handled [of e] HandleFetchRequestPaused_handled [of e]
    unfolding HandleSessionEvent_def is_fetch_def
    by (auto split: option.split intro!: handled_none simp: same_logs_def is_fetch_def)
qed

text \<open>
  A stretch of the loop: the events taken, each with its answers; when nothing went wrong every interception has one.
\<close>

definition answers_each ::
    "('u, 'z) vendor_scheme \<Rightarrow> 'j capture_env \<Rightarrow> runner_config \<Rightarrow> 'j capture \<Rightarrow> unit outcome \<times> 'j capture \<Rightarrow> bool" where
  "answers_each V X cfg s p \<longleftrightarrow>
     kept V s (snd p) \<and>
     (\<exists>evs css. events_seen (snd p) = events_seen s @ evs \<and> fetch_log (snd p) = fetch_log s @ concat css \<and>
        list_all2 (\<lambda>e cs. answered V X cfg (RunId (cap_browser s)) (service_of s) e cs \<and>
          (fst p = Returns () \<and> interception_error (snd p) = None \<and> is_fetch e \<longrightarrow> cs \<noteq> [])) evs css)"

lemma answers_each_none: "kept V s s' \<Longrightarrow> same_logs s s' \<Longrightarrow> answers_each V X cfg s (r, s')"
  unfolding answers_each_def same_logs_def by (auto intro!: exI [of _ "[]"])

lemma answered_earlier: "kept V s s1 \<Longrightarrow> answered V X cfg (RunId (cap_browser s1)) (service_of s1) e cs \<Longrightarrow>
    answered V X cfg (RunId (cap_browser s)) (service_of s) e cs"
  by (auto simp: answered_def kept_def intro: rtranclp_trans)

lemma answers_each_later:
  assumes "kept V s s1" and "same_logs s s1" and "answers_each V X cfg s1 p"
  shows "answers_each V X cfg s p"
proof -
  from assms(3) obtain evs css where
    l: "events_seen (snd p) = events_seen s1 @ evs" "fetch_log (snd p) = fetch_log s1 @ concat css"
    and a: "list_all2 (\<lambda>e cs. answered V X cfg (RunId (cap_browser s1)) (service_of s1) e cs \<and>
          (fst p = Returns () \<and> interception_error (snd p) = None \<and> is_fetch e \<longrightarrow> cs \<noteq> [])) evs css"
    by (auto simp: answers_each_def)
  from a have "list_all2 (\<lambda>e cs. answered V X cfg (RunId (cap_browser s)) (service_of s) e cs \<and>
          (fst p = Returns () \<and> interception_error (snd p) = None \<and> is_fetch e \<longrightarrow> cs \<noteq> [])) evs css"
    by (rule list_all2_mono) (use answered_earlier [OF assms(1)] in blast)
  with l assms show ?thesis
    by (auto simp: answers_each_def same_logs_def intro: kept_trans)
qed

lemma answers_each_event:
  assumes "handled V X cfg e (s\<lparr>events_seen := events_seen s @ [e]\<rparr>) (Returns (), s1)"
    and "kept V s1 s2" and "same_logs s1 s2" and "answers_each V X cfg s2 p"
  shows "answers_each V X cfg s p"
proof -
  note h = assms(1) [unfolded handled_def, simplified]
  from h obtain cs where k: "kept V s s1" "events_seen s1 = events_seen s @ [e]" "fetch_log s1 = fetch_log s @ cs"
    and c: "answered V X cfg (RunId (cap_browser s)) (service_of s) e cs"
      "is_fetch e \<and> interception_error s1 = None \<longrightarrow> cs \<noteq> []"
    by (auto simp: kept_def)
  from answers_each_later [OF assms(2-4)] obtain evs css where
    l: "events_seen (snd p) = events_seen s1 @ evs" "fetch_log (snd p) = fetch_log s1 @ concat css"
    and kp: "kept V s1 (snd p)"
    and a: "list_all2 (\<lambda>e cs. answered V X cfg (RunId (cap_browser s1)) (service_of s1) e cs \<and>
          (fst p = Returns () \<and> interception_error (snd p) = None \<and> is_fetch e \<longrightarrow> cs \<noteq> [])) evs css"
    by (auto simp: answers_each_def)
  from a have "list_all2 (\<lambda>e cs. answered V X cfg (RunId (cap_browser s)) (service_of s) e cs \<and>
          (fst p = Returns () \<and> interception_error (snd p) = None \<and> is_fetch e \<longrightarrow> cs \<noteq> [])) evs css"
    by (rule list_all2_mono) (use answered_earlier [OF k(1)] in blast)
  moreover from kp c(2) have "interception_error (snd p) = None \<and> is_fetch e \<longrightarrow> cs \<noteq> []"
    by (auto simp: kept_def)
  ultimately show ?thesis
    using k l c(1) kp unfolding answers_each_def
    by (auto intro!: exI [of _ "e # evs"] exI [of _ "cs # css"] intro: kept_trans)
qed

lemma answers_each_stopped:
  assumes "handled V X cfg e (s\<lparr>events_seen := events_seen s @ [e]\<rparr>) (r, s1)" and "r \<noteq> Returns ()"
  shows "answers_each V X cfg s (r, s1)"
proof -
  from assms obtain cs where "kept V s s1" "events_seen s1 = events_seen s @ [e]" "fetch_log s1 = fetch_log s @ cs"
      "answered V X cfg (RunId (cap_browser s)) (service_of s) e cs"
    by (auto simp: handled_def kept_def)
  with assms(2) show ?thesis
    unfolding answers_each_def by (auto intro!: exI [of _ "[e]"] exI [of _ "[cs]"])
qed

lemma RunEventLoop_answers:
  assumes "others_keep V J"
  shows "answers_each V X cfg s (RunEventLoop V X cfg me I J n s)"
proof (induction n arbitrary: s)
  case 0
  show ?case by (auto intro: answers_each_none simp: same_logs_def)
next
  case (Suc n)
  note o = observe_keeps [OF assms, of s]
  obtain r s1 where w: "with_client (\<lambda>c. WaitEvent I c ''timed out waiting for cdp event'') (observe J s) = (r, s1)"
    by fastforce
  note k = with_client_keeps [OF w]
  have s1: "kept V s s1" "same_logs s s1"
    using o k(1) [of V] k(2) by (auto simp: same_logs_def intro: kept_trans)
  show ?case
  proof (cases r)
    case (Returns x)
    show ?thesis
    proof (cases x)
      case (Inl err)
      have "answers_each V X cfg s (r', NoteEventProgress (NoteInterceptionError t s1))" for r' t
        by (rule answers_each_none)
          (blast intro: s1 kept_trans same_logs_trans note_keeps progress_keeps)+
      with w Returns Inl s1 show ?thesis
        by (auto simp: next_do_def intro: answers_each_none split: outcome.split)
    next
      case (Inr e)
      obtain r2 s2 where h: "HandleSessionEvent V X cfg me I e (s1\<lparr>events_seen := events_seen s1 @ [e]\<rparr>) = (r2, s2)"
        by fastforce
      note hd = HandleSessionEvent_handled [of V X cfg e "s1\<lparr>events_seen := events_seen s1 @ [e]\<rparr>" me I, unfolded h]
      show ?thesis
      proof (cases "r2 = Returns ()")
        case True
        note go = answers_each_later [OF s1 answers_each_event [OF hd [unfolded True] progress_keeps]]
        have "answers_each V X cfg (NoteEventProgress s2) (Returns (), NoteEventProgress s2)"
          by (auto intro: answers_each_none simp: same_logs_def)
        with go [OF Suc.IH] go w Returns Inr h True show ?thesis
          by (auto simp: next_do_def Let_def)
      next
        case False
        with answers_each_later [OF s1 answers_each_stopped [OF hd False]] w Returns Inr h show ?thesis
          by (cases r2) (auto simp: next_do_def)
      qed
    qed
  qed (use w s1 in \<open>auto simp: next_do_def intro: answers_each_none\<close>)
qed

end
