(* ===== verification/Capture_Run.thy ===== *)
theory Capture_Run
  imports Capture_Session Deadlines
begin

text \<open>
  \<open>crawler/runner.cpp\<close>, \<open>CaptureSession\<close>: the main task of a capture, from connecting to the browser to the
  captured exchange, and taking it down.

  How often a wait finds a new version of the progress before its deadline is an argument; so are the clocks.
\<close>

section \<open>What a capture is given\<close>

record CaptureTimings =
  post_load_delay :: int
  net_idle_wait :: int
  page_extra_delay :: int
  behavior_timeout :: int

record capture_plan =
  cap_timings :: CaptureTimings
  cap_deadline :: Deadline
  cap_seed_url :: string
  cap_max_archive_bytes :: int

text \<open>
  Parameters and results of the commands as JSON; the steady clock of the engine in nanoseconds by the number of
  shared accesses before; the identifier of the page.
\<close>

record 'j drive_env =
  evaluate_params :: "string \<times> bool \<times> bool \<Rightarrow> 'j option"
  dom_state_result :: "'j option \<Rightarrow> (string \<times> string option \<times> string) option"
  value_result :: "'j option \<Rightarrow> unit option"
  enable_fetch_params :: "bool \<Rightarrow> 'j option"
  cache_params :: "bool \<Rightarrow> 'j option"
  bypass_params :: "bool \<Rightarrow> 'j option"
  extra_headers_params :: "headers \<Rightarrow> 'j option"
  frame_tree_result :: "'j option \<Rightarrow> string option"
  navigate_params :: "string \<Rightarrow> 'j option"
  navigate_result :: "'j option \<Rightarrow> (string option \<times> string option) option"
  engine_now :: "nat \<Rightarrow> int"
  page_uuid :: string

record DomState =
  dom_final_url :: string
  dom_title :: "string option"
  dom_html :: string

text \<open>How often the browser is polled and connected to; the waits: how many rounds find the version changed; a wait for idleness may also end at the idle deadline.\<close>

datatype idle_round = VersionChanged | IdleDeadlinePassed

record capture_rounds =
  devtools_polls :: nat
  startup_deadline :: Deadline
  connect_tries :: nat
  load_rounds :: nat
  idle_rounds :: "idle_round list"
  document_rounds :: nat

record CaptureFailure =
  cf_detail :: string
  cf_seed_probe :: "SeedProbe option"

record CaptureWithNetwork =
  cn_exchange :: CapturedExchange
  cn_proxy_down_bytes :: int

type_synonym ('j, 'a) driven = "(string + 'a) outcome \<times> 'j capture"

section \<open>Steps of the main task\<close>

definition on_browser :: "(session \<Rightarrow> 'a outcome \<times> session) \<Rightarrow> 'j capture \<Rightarrow> 'a outcome \<times> 'j capture" where
  "on_browser f s = (let (r, b) = f (cap_browser s) in (r, s\<lparr>cap_browser := b\<rparr>))"

definition mark ::
    "('u, 'z) vendor_scheme \<Rightarrow> 'j capture_env \<Rightarrow> string \<Rightarrow> 'j capture \<Rightarrow> ('j, unit) driven" where
  "mark V X phase s =
     next_do (on_browser (MarkPhase V (cap_browser_env X) phase) s) (\<lambda>_ s. (Returns (Inr ()), s))"

text \<open>
  A function of the page session; its callback is \<open>MarkPhase\<close> of the browser.  The session is there whenever one
  is called.
\<close>

definition page_call ::
    "('u, 'z) vendor_scheme \<Rightarrow> 'j capture_env \<Rightarrow> ('j page_env \<Rightarrow> 'j page_world \<Rightarrow> 'j page_result) \<Rightarrow> 'j capture \<Rightarrow>
     ('j, unit) driven" where
  "page_call V X f s =
     (case (cap_page s, cap_cdp s) of
        (Some p, Some client) \<Rightarrow>
          let marks = (\<lambda>ps. each_do (MarkPhase V (cap_browser_env X)) (drop (length (phases p)) ps) (cap_browser s));
              (r, p', client') = f ((cap_page_env X)\<lparr>phase_callback := (\<lambda>ps. fst (marks ps))\<rparr>) (p, client)
          in (r, s\<lparr>cap_page := Some p', cap_cdp := Some client', cap_browser := snd (marks (phases p'))\<rparr>)
      | _ \<Rightarrow> (Aborts ''null page session'', s))"

text \<open>An error of a command, with what was done.\<close>

definition map_cdp_error ::
    "('u, 'z) vendor_scheme \<Rightarrow> string \<Rightarrow> (CdpError + 'a) outcome \<times> 's \<Rightarrow> (string + 'a) outcome \<times> 's" where
  "map_cdp_error V action r =
     next_do r (\<lambda>x s. case x of
         Inr v \<Rightarrow> (Returns (Inr v), s)
       | Inl err \<Rightarrow> (and_then (FormatCdpError V action err) (\<lambda>t. Returns (Inl t)), s))"

definition SendSessionVoid ::
    "('u, 'z) vendor_scheme \<Rightarrow> 'j capture_env \<Rightarrow> nat \<Rightarrow> 'j interference \<Rightarrow> string \<Rightarrow> ('p \<Rightarrow> 'j option) \<Rightarrow> 'p \<Rightarrow>
     'j capture \<Rightarrow> ('j, unit) driven" where
  "SendSessionVoid V X me I m value_of params s =
     next_do (with_client (\<lambda>c. SendVoid V (cap_cdp_env X) me I (fetch_result X) value_of c m params) s) (\<lambda>r s.
       case r of
         Inr _ \<Rightarrow> (Returns (Inr ()), s)
       | Inl err \<Rightarrow>
           (and_then (deref_text V (m @ '' failed'')) (\<lambda>action.
            and_then (FormatCdpError V action err) (\<lambda>t. Returns (Inl t))), s))"

definition dom_state_script :: string where
  "dom_state_script =
     ''(() => ({ finalUrl: location.href, title: document.title || undefined, html: '' @
     ''document.documentElement ? document.documentElement.outerHTML : \"\" }))()''"

definition ReadDomState ::
    "('u, 'z) vendor_scheme \<Rightarrow> 'j capture_env \<Rightarrow> 'j drive_env \<Rightarrow> nat \<Rightarrow> 'j interference \<Rightarrow> 'j capture \<Rightarrow>
     ('j, DomState) driven" where
  "ReadDomState V X D me I s =
     try_do (map_cdp_error V ''failed to read dom state''
         (with_client (\<lambda>c. Session_Send_params V (cap_cdp_env X) me I (dom_state_result D) (evaluate_params D) c
           ''Runtime.evaluate'' (dom_state_script, True, False)) s)) (\<lambda>(final_url, title, html) s.
       let title = (case OptionalString V title of Inl _ \<Rightarrow> None | Inr t \<Rightarrow> t) in
       case FromBytes V final_url of
         Inl _ \<Rightarrow> (Returns (Inl ''Runtime.evaluate returned invalid finalUrl''), s)
       | Inr url \<Rightarrow>
           next_do (CanonicalizeCapturedUrl V url, s) (\<lambda>final_url s.
             (Returns (Inr \<lparr>dom_final_url = final_url, dom_title = title, dom_html = html\<rparr>), s)))"

definition site_behavior_script :: "string \<Rightarrow> string" where
  "site_behavior_script budget =
     ''(() => new Promise((resolve) => { const startedAt = Date.now(); const stepDelayMs = '' @
     ''100; const maxSteps = Math.max(1, Math.floor('' @ budget @ '' / stepDelayMs)); let steps = 0; const '' @
     ''tick = () => { const root = document.scrollingElement || document.documentElement || '' @
     ''document.body; if (!root) { resolve(true); return; } const previous = root.scrollTop; '' @
     ''root.scrollBy(0, Math.max(window.innerHeight, 600)); steps++; const exhausted = '' @
     ''Date.now() - startedAt >= '' @ budget @ '' || steps >= maxSteps; const stuck = root.scrollTop === '' @
     ''previous; if (stuck || exhausted) { root.scrollTo(0, 0); resolve(true); return; } '' @
     ''setTimeout(tick, stepDelayMs); }; tick(); }))()''"

definition RunSiteBehavior ::
    "('u, 'z) vendor_scheme \<Rightarrow> 'j capture_env \<Rightarrow> 'j drive_env \<Rightarrow> nat \<Rightarrow> 'j interference \<Rightarrow> Deadline \<Rightarrow> 'j capture \<Rightarrow>
     ('j, unit) driven" where
  "RunSiteBehavior V X D me I deadline s =
     (if deadline = None then (Aborts ''site behavior deadline must be reachable'', s)
      else case TimeLeftMs (engine_now D (cap_ticks s)) deadline of
        Inl _ \<Rightarrow> (Returns (Inl ''timed out running site behavior''), s)
      | Inr budget \<Rightarrow>
          map_cdp_error V ''failed to run site behavior''
            (with_client (\<lambda>c. Session_Send_params V (cap_cdp_env X) me I (value_result D) (evaluate_params D) c
              ''Runtime.evaluate'' (site_behavior_script (int_to_string budget), True, True)) s))"

section \<open>Waiting\<close>

text \<open>The tracker and the errors as they are when they are looked at.\<close>

definition ask_tracker ::
    "'j capture_others \<Rightarrow> (nat \<Rightarrow> tracker \<Rightarrow> bool) \<Rightarrow> 'j capture \<Rightarrow> bool outcome \<times> 'j capture" where
  "ask_tracker J p s =
     (let s = observe J s in next_do (GetPageTracker s, s) (\<lambda>d s. (Returns (p (cap_ticks s) d), s)))"

definition or_error ::
    "'j capture_others \<Rightarrow> ('j capture \<Rightarrow> ('j, unit) driven) \<Rightarrow> 'j capture \<Rightarrow> ('j, unit) driven" where
  "or_error J k s =
     (let s = observe J s in
      case CurrentWaitError s of Some err \<Rightarrow> (Returns (Inl err), s) | None \<Rightarrow> k s)"

abbreviation waited :: "'j capture \<Rightarrow> ('j, unit) driven" where
  "waited s \<equiv> (Returns (Inr ()), s)"

fun WaitForPredicate ::
    "'j capture_others \<Rightarrow> (nat \<Rightarrow> tracker \<Rightarrow> bool) \<Rightarrow> string \<Rightarrow> nat \<Rightarrow> 'j capture \<Rightarrow> ('j, unit) driven" where
  "WaitForPredicate J p timeout_message n s =
     next_do (ask_tracker J p s) (\<lambda>ready s.
       if ready then or_error J waited s
       else or_error J (\<lambda>s.
         next_do (ask_tracker J p s) (\<lambda>ready s.
           if ready then waited s
           else or_error J (\<lambda>s.
             case n of
               Suc n \<Rightarrow> WaitForPredicate J p timeout_message n s
             | 0 \<Rightarrow>
                 next_do (ask_tracker J p s) (\<lambda>ready s.
                   if ready then waited s
                   else or_error J (\<lambda>s. (Returns (Inl timeout_message), s)) s)) s)) s)"

fun WaitForIdle ::
    "'j capture_others \<Rightarrow> (nat \<Rightarrow> tracker \<Rightarrow> bool) \<Rightarrow> idle_round list \<Rightarrow> 'j capture \<Rightarrow> ('j, unit) driven" where
  "WaitForIdle J is_idle rounds s =
     next_do (ask_tracker J is_idle s) (\<lambda>ready s.
       if ready then or_error J waited s
       else or_error J (\<lambda>s.
         next_do (ask_tracker J is_idle s) (\<lambda>ready s.
           if ready then waited s
           else or_error J (\<lambda>s.
             case rounds of
               VersionChanged # rounds \<Rightarrow> WaitForIdle J is_idle rounds s
             | IdleDeadlinePassed # rounds \<Rightarrow>
                 next_do (ask_tracker J is_idle s) (\<lambda>ready s.
                   if ready then waited s else or_error J (WaitForIdle J is_idle rounds) s)
             | [] \<Rightarrow>
                 next_do (ask_tracker J is_idle s) (\<lambda>ready s.
                   if ready then waited s
                   else or_error J (\<lambda>s. (Returns (Inl ''timed out waiting for network idle''), s)) s)) s)) s)"

declare WaitForPredicate.simps [simp del] WaitForIdle.simps [simp del]

section \<open>The event task\<close>

definition StartEventLoop :: "'j capture \<Rightarrow> 'j capture" where
  "StartEventLoop s = s\<lparr>stopping_event_loop := False, event_task := True\<rparr>"

text \<open>The task is cancelled and waited for.\<close>

definition StopEventLoop :: "'j capture_others \<Rightarrow> 'j capture \<Rightarrow> 'j capture" where
  "StopEventLoop J s =
     (let s = s\<lparr>stopping_event_loop := True\<rparr>
      in if \<not> event_task s then s else (observe J s)\<lparr>event_task := False\<rparr>)"

section \<open>Start\<close>

definition attach_tracker ::
    "('u, 'z) vendor_scheme \<Rightarrow> 'j capture_env \<Rightarrow> 'j drive_env \<Rightarrow> 'j capture \<Rightarrow> ('j, unit) driven" where
  "attach_tracker V X D s =
     (case cap_page s of
        None \<Rightarrow> (Aborts ''null page session'', s)
      | Some p \<Rightarrow>
          next_do (SessionId p, s) (\<lambda>session s.
          next_do (TargetId p, s) (\<lambda>target s.
          next_do (PageTracker V (page_uuid D) (cap_clocks X (cap_ticks s)) session target, s) (\<lambda>d s.
            (Returns (Inr ()), s\<lparr>cap_tracker := Some d\<rparr>)))))"

definition Start_capture ::
    "('u, 'z) vendor_scheme \<Rightarrow> 'j capture_env \<Rightarrow> 'j drive_env \<Rightarrow> capture_plan \<Rightarrow> capture_rounds \<Rightarrow> nat \<Rightarrow>
     'j interference \<Rightarrow> 'j capture \<Rightarrow> ('j, unit) driven" where
  "Start_capture V X D plan rounds me I s =
     try_do (mark V X ''connect_cdp'' s) (\<lambda>_ s.
     try_do (on_browser (ConnectCdp V (cap_browser_env X) (connect_tries rounds) (cap_deadline plan)) s) (\<lambda>client s.
     let s = s\<lparr>cap_cdp := Some client, cap_page := Some new_page\<rparr> in
     try_do (page_call V X (\<lambda>P. AttachFreshTarget V (cap_cdp_env X) P me I) s) (\<lambda>_ s.
     try_do (attach_tracker V X D s) (\<lambda>_ s.
     (Returns (Inr ()), StartEventLoop s)))))"

section \<open>The attached target\<close>

definition change_tracker ::
    "'j capture_others \<Rightarrow> (tracker \<Rightarrow> tracker) \<Rightarrow> 'j capture \<Rightarrow> ('j, unit) driven" where
  "change_tracker J f s =
     (let s = observe J s in
      next_do (GetPageTracker s, s) (\<lambda>d s. (Returns (Inr ()), s\<lparr>cap_tracker := Some (f d)\<rparr>)))"

definition kBrowserAcceptLanguage :: string where
  "kBrowserAcceptLanguage = ''en''"

definition prepare_page ::
    "('u, 'z) vendor_scheme \<Rightarrow> 'j capture_env \<Rightarrow> 'j drive_env \<Rightarrow> nat \<Rightarrow> 'j interference \<Rightarrow> 'j capture_others \<Rightarrow>
     'j capture \<Rightarrow> ('j, unit) driven" where
  "prepare_page V X D me I J s =
     try_do (page_call V X (\<lambda>P. EnableBaseDomains V (cap_cdp_env X) P me I) s) (\<lambda>_ s.
     try_do (mark V X ''enable_fetch'' s) (\<lambda>_ s.
     try_do (SendSessionVoid V X me I ''Fetch.enable'' (enable_fetch_params D) True s) (\<lambda>_ s.
     try_do (mark V X ''disable_cache'' s) (\<lambda>_ s.
     try_do (SendSessionVoid V X me I ''Network.setCacheDisabled'' (cache_params D) True s) (\<lambda>_ s.
     try_do (mark V X ''bypass_service_worker'' s) (\<lambda>_ s.
     try_do (SendSessionVoid V X me I ''Network.setBypassServiceWorker'' (bypass_params D) True s) (\<lambda>_ s.
     try_do (mark V X ''set_extra_headers'' s) (\<lambda>_ s.
     try_do (SendSessionVoid V X me I ''Network.setExtraHTTPHeaders'' (extra_headers_params D)
       [(''Accept-Language'', kBrowserAcceptLanguage)] s) (\<lambda>_ s.
     try_do (mark V X ''get_frame_tree'' s) (\<lambda>_ s.
     try_do (map_cdp_error V ''Page.getFrameTree failed''
       (with_client (\<lambda>c. Session_Send V (cap_cdp_env X) me I (frame_tree_result D) c ''Page.getFrameTree'') s)) (\<lambda>bytes s.
     next_do (deref_text V bytes, s) (\<lambda>frame s.
     change_tracker J (SetMainFrameId frame) s))))))))))))"

definition navigate ::
    "('u, 'z) vendor_scheme \<Rightarrow> 'j capture_env \<Rightarrow> 'j drive_env \<Rightarrow> runner_config \<Rightarrow> string \<Rightarrow> nat \<Rightarrow> 'j interference \<Rightarrow>
     'j capture_others \<Rightarrow> 'j capture \<Rightarrow> ('j, unit) driven" where
  "navigate V X D cfg seed_url me I J s =
     try_do (mark V X ''navigate'' s) (\<lambda>_ s.
     if length seed_url > UrlBytesMax cfg then (Returns (Inl ''url too long''), s)
     else
       try_do (change_tracker J (BeginSeedNavigation seed_url) s) (\<lambda>_ s.
       try_do (map_cdp_error V ''Page.navigate failed''
         (with_client (\<lambda>c. Session_Send_params V (cap_cdp_env X) me I (navigate_result D) (navigate_params D) c
           ''Page.navigate'' seed_url) s)) (\<lambda>(error_text, loader) s.
       case error_text of
         Some bytes \<Rightarrow> next_do (deref_text V bytes, s) (\<lambda>t s. (Returns (Inl t), s))
       | None \<Rightarrow>
           change_tracker J (SetExpectedMainLoaderId (StringOrNull V loader)) s)))"

text \<open>A phase that only waits: \<open>SleepUntilDeadline\<close> of the earlier of the two deadlines.\<close>

definition delay_phase ::
    "('u, 'z) vendor_scheme \<Rightarrow> 'j capture_env \<Rightarrow> 'j drive_env \<Rightarrow> Deadline \<Rightarrow> int \<Rightarrow> string \<Rightarrow> string \<Rightarrow> string \<Rightarrow>
     'j capture_others \<Rightarrow> 'j capture \<Rightarrow> ('j, unit) driven" where
  "delay_phase V X D deadline secs phase phase_done timeout_message J s =
     (if secs > 0 then
        try_do (mark V X phase s) (\<lambda>_ s.
          let now = engine_now D (cap_ticks s);
              phase_deadline = PickEarlierDeadline now deadline (Some (now + secs * 1000000000));
              (r, slept) = SleepUntilDeadline now phase_deadline
          in next_do (r, observe J s) (\<lambda>r s.
               case r of
                 Inl _ \<Rightarrow> (Returns (Inl timeout_message), s)
               | Inr _ \<Rightarrow> mark V X phase_done s))
      else (Returns (Inr ()), s))"

definition behavior_phase ::
    "('u, 'z) vendor_scheme \<Rightarrow> 'j capture_env \<Rightarrow> 'j drive_env \<Rightarrow> Deadline \<Rightarrow> int \<Rightarrow> nat \<Rightarrow> 'j interference \<Rightarrow>
     'j capture \<Rightarrow> ('j, unit) driven" where
  "behavior_phase V X D deadline secs me I s =
     (if secs > 0 then
        try_do (mark V X ''run_site_behavior'' s) (\<lambda>_ s.
        try_do (mark V X ''run_site_behavior_runtime_evaluate'' s) (\<lambda>_ s.
          let now = engine_now D (cap_ticks s);
              behavior_deadline = PickEarlierDeadline now deadline (Some (now + secs * 1000000000))
          in try_do (RunSiteBehavior V X D me I behavior_deadline s) (\<lambda>_ s.
             mark V X ''run_site_behavior_done'' s)))
      else (Returns (Inr ()), s))"

definition idle_phase ::
    "('u, 'z) vendor_scheme \<Rightarrow> 'j capture_env \<Rightarrow> int \<Rightarrow> idle_round list \<Rightarrow> 'j capture_others \<Rightarrow> 'j capture \<Rightarrow>
     ('j, unit) driven" where
  "idle_phase V X secs rounds J s =
     (if secs > 0 then
        try_do (mark V X ''wait_for_idle'' s) (\<lambda>_ s.
        try_do (mark V X ''wait_for_idle_wait'' s) (\<lambda>_ s.
        try_do (WaitForIdle J (\<lambda>k. IsIdleFor (secs * 1000000000) (cap_clocks X k)) rounds s) (\<lambda>_ s.
        mark V X ''wait_for_idle_done'' s)))
      else (Returns (Inr ()), s))"

text \<open>From the navigation until the main document is known.\<close>

definition settle ::
    "('u, 'z) vendor_scheme \<Rightarrow> 'j capture_env \<Rightarrow> 'j drive_env \<Rightarrow> capture_plan \<Rightarrow> capture_rounds \<Rightarrow> nat \<Rightarrow>
     'j interference \<Rightarrow> 'j capture_others \<Rightarrow> 'j capture \<Rightarrow> ('j, unit) driven" where
  "settle V X D plan rounds me I J s =
     (let t = cap_timings plan; deadline = cap_deadline plan in
      try_do (mark V X ''wait_for_load'' s) (\<lambda>_ s.
      try_do (WaitForPredicate J (\<lambda>_. IsLoadedOrFailed) ''timed out waiting for page load'' (load_rounds rounds) s) (\<lambda>_ s.
      try_do (delay_phase V X D deadline (post_load_delay t) ''post_load_delay'' ''post_load_delay_done''
        ''timed out waiting for post-load delay'' J s) (\<lambda>_ s.
      try_do (behavior_phase V X D deadline (behavior_timeout t) me I s) (\<lambda>_ s.
      try_do (idle_phase V X (net_idle_wait t) (idle_rounds rounds) J s) (\<lambda>_ s.
      try_do (delay_phase V X D deadline (page_extra_delay t) ''page_extra_delay'' ''page_extra_delay_done''
        ''timed out waiting for extra page delay'' J s) (\<lambda>_ s.
      try_do (mark V X ''wait_for_main_document'' s) (\<lambda>_ s.
      try_do (mark V X ''wait_for_main_document_wait'' s) (\<lambda>_ s.
      try_do (WaitForPredicate J (\<lambda>_. HasMainDocumentOrError) ''timed out waiting for main document response''
        (document_rounds rounds) s) (\<lambda>_ s.
      mark V X ''wait_for_main_document_done'' s))))))))))"

text \<open>Reading bodies with the tracker, the session and the budget.\<close>

definition with_bodies ::
    "'j capture_others \<Rightarrow>
     (CdpSession \<Rightarrow> tracker \<Rightarrow> 'j body_state \<Rightarrow> (string + 'a) outcome \<times> 'j body_state) \<Rightarrow> RetainedBodyBudget \<Rightarrow>
     'j capture \<Rightarrow> ('j, 'a \<times> RetainedBodyBudget) driven" where
  "with_bodies J f budget s =
     (let s = observe J s in
      next_do (GetPageTracker s, s) (\<lambda>d s.
      next_do (Capture_GetSession s, s) (\<lambda>c s.
      next_do (GetCdpClient s, s) (\<lambda>client s.
        let (r, budget, client) = f c d (budget, client); s = s\<lparr>cap_cdp := Some client\<rparr>
        in try_do (r, s) (\<lambda>v s. (Returns (Inr (v, budget)), s))))))"

definition read_page ::
    "('u, 'z) vendor_scheme \<Rightarrow> 'j capture_env \<Rightarrow> 'j drive_env \<Rightarrow> int \<Rightarrow> nat \<Rightarrow> 'j interference \<Rightarrow> 'j capture_others \<Rightarrow>
     'j capture \<Rightarrow> ('j, DomState \<times> string \<times> CapturedResource list) driven" where
  "read_page V X D max_archive_bytes me I J s =
     try_do (mark V X ''read_dom_state'' s) (\<lambda>_ s.
     try_do (mark V X ''read_dom_state_runtime_evaluate'' s) (\<lambda>_ s.
     try_do (ReadDomState V X D me I s) (\<lambda>dom s.
     try_do (mark V X ''read_dom_state_done'' s) (\<lambda>_ s.
     let budget = \<lparr>max_bytes = max_archive_bytes, retained_bytes = 0\<rparr> in
     try_do (mark V X ''read_main_body'' s) (\<lambda>_ s.
     try_do (with_bodies J (\<lambda>c. ReadBody V (cap_cdp_env X) (cap_body_env X) me I c (dom_html dom)) budget s) (\<lambda>(body, budget) s.
     try_do (mark V X ''read_resources'' s) (\<lambda>_ s.
     try_do (with_bodies J (\<lambda>c. ReadResources V (cap_cdp_env X) (cap_body_env X) me I c) budget s) (\<lambda>(resources, budget) s.
     (Returns (Inr (dom, body, resources)), s)))))))))"

text \<open>\<open>page_session_.reset()\<close> and \<open>cdp_.reset()\<close>.\<close>

definition reset_page :: "'j interference \<Rightarrow> 'j capture \<Rightarrow> 'j capture" where
  "reset_page I s =
     (case (cap_page s, cap_cdp s) of
        (Some p, Some client) \<Rightarrow> s\<lparr>cap_page := None, cap_cdp := Some (snd (drop_session I (p, client)))\<rparr>
      | _ \<Rightarrow> s\<lparr>cap_page := None\<rparr>)"

text \<open>The client is gone afterwards; what it did last is \<open>StopQuietly\<close>.\<close>

definition reset_cdp :: "'j capture \<Rightarrow> 'j capture" where
  "reset_cdp s = s\<lparr>cap_cdp := None\<rparr>"

definition build_exchange ::
    "('u, 'z) vendor_scheme \<Rightarrow> 'j capture_env \<Rightarrow> nat \<Rightarrow> 'j interference \<Rightarrow> 'j capture_others \<Rightarrow>
     DomState \<times> string \<times> CapturedResource list \<Rightarrow> 'j capture \<Rightarrow> ('j, CapturedExchange) driven" where
  "build_exchange V X me I J = (\<lambda>(dom, body, resources) s.
     let s = StopEventLoop J s in
     try_do (page_call V X (\<lambda>P. Stop_phases V (cap_cdp_env X) P me I) s) (\<lambda>_ s.
     let s = reset_page I s in
     try_do (mark V X ''build_exchange_start'' s) (\<lambda>_ s.
     next_do (GetPageTracker s, s) (\<lambda>d s.
     next_do (MakeExchange (dom_final_url dom) (dom_title dom) body resources d, s) (\<lambda>exchange s.
     try_do (mark V X ''build_exchange_done'' s) (\<lambda>_ s.
     let s = reset_cdp (s\<lparr>cap_tracker := None\<rparr>) in
     try_do (mark V X ''stop_browser_success'' s) (\<lambda>_ s.
       case ProxyErrorReason (cap_browser_env X) (cap_browser s) of
         None \<Rightarrow> (Returns (Inr exchange), s)
       | Some proxy_error \<Rightarrow>
           if \<not> IsSuccessfulMainDocumentExchange exchange then (Returns (Inl proxy_error), s)
           else (Returns (Inr exchange), s))))))))"

definition CaptureAttachedTarget ::
    "('u, 'z) vendor_scheme \<Rightarrow> 'j capture_env \<Rightarrow> 'j drive_env \<Rightarrow> runner_config \<Rightarrow> capture_plan \<Rightarrow> capture_rounds \<Rightarrow> nat \<Rightarrow>
     'j interference \<Rightarrow> 'j capture_others \<Rightarrow> 'j capture \<Rightarrow> ('j, CapturedExchange) driven" where
  "CaptureAttachedTarget V X D cfg plan rounds me I J s =
     try_do (prepare_page V X D me I J s) (\<lambda>_ s.
     try_do (navigate V X D cfg (cap_seed_url plan) me I J s) (\<lambda>_ s.
     try_do (settle V X D plan rounds me I J s) (\<lambda>_ s.
     try_do (read_page V X D (cap_max_archive_bytes plan) me I J s) (\<lambda>captured s.
     build_exchange V X me I J captured s))))"

section \<open>The whole capture\<close>

text \<open>The cleanup logs what fails and goes on.\<close>

definition stop_page_quietly ::
    "('u, 'z) vendor_scheme \<Rightarrow> 'j capture_env \<Rightarrow> nat \<Rightarrow> 'j interference \<Rightarrow> 'j capture \<Rightarrow> unit outcome \<times> 'j capture" where
  "stop_page_quietly V X me I s =
     (if cap_page s = None then (Returns (), s)
      else next_do (page_call V X (\<lambda>P. Stop_page V (cap_cdp_env X) P me I) s) (\<lambda>_ s. (Returns (), reset_page I s)))"

definition StopCdpForError ::
    "('u, 'z) vendor_scheme \<Rightarrow> 'j capture_env \<Rightarrow> nat \<Rightarrow> 'j interference \<Rightarrow> 'j capture_others \<Rightarrow> 'j capture \<Rightarrow>
     unit outcome \<times> 'j capture" where
  "StopCdpForError V X me I J s =
     next_do (stop_page_quietly V X me I (StopEventLoop J s)) (\<lambda>_ s.
       case cap_cdp s of
         None \<Rightarrow> (Returns (), s)
       | Some client \<Rightarrow>
           let (r, client) = Stop_client V (cap_cdp_env X) me I client in
           next_do (r, s\<lparr>cap_cdp := Some client\<rparr>) (\<lambda>_ s. (Returns (), reset_cdp s)))"

definition append_reason ::
    "('u, 'z) vendor_scheme \<Rightarrow> string \<Rightarrow> string option \<Rightarrow> string \<Rightarrow> string outcome" where
  "append_reason V label why detail =
     (case why of None \<Rightarrow> Returns detail | Some r \<Rightarrow> deref_text V (detail @ '', '' @ label @ ''='' @ r))"

definition capture_failed ::
    "('u, 'z) vendor_scheme \<Rightarrow> 'j capture_env \<Rightarrow> nat \<Rightarrow> 'j interference \<Rightarrow> 'j capture_others \<Rightarrow> string \<Rightarrow> 'j capture \<Rightarrow>
     (CaptureFailure + CaptureWithNetwork) outcome \<times> 'j capture" where
  "capture_failed V X me I J err s =
     next_do (on_browser (MakeErrorDetail V (cap_browser_env X) err) s) (\<lambda>detail s.
     let s = observe J s in
     next_do (append_reason V ''tracker_error''
       (case cap_tracker s of None \<Rightarrow> None | Some d \<Rightarrow> Tracker_ErrorReason d) detail, s) (\<lambda>detail s.
     next_do (append_reason V ''proxy_error'' (ProxyErrorReason (cap_browser_env X) (cap_browser s)) detail, s) (\<lambda>detail s.
     let seed_probe = CurrentSeedProbe s in
     next_do (StopCdpForError V X me I J s) (\<lambda>_ s.
     (Returns (Inl \<lparr>cf_detail = detail, cf_seed_probe = seed_probe\<rparr>), s)))))"

definition Capture ::
    "('u, 'z) vendor_scheme \<Rightarrow> 'j capture_env \<Rightarrow> 'j drive_env \<Rightarrow> runner_config \<Rightarrow> capture_plan \<Rightarrow> capture_rounds \<Rightarrow> nat \<Rightarrow>
     'j interference \<Rightarrow> 'j capture_others \<Rightarrow> 'j capture \<Rightarrow> (CaptureFailure + CaptureWithNetwork) outcome \<times> 'j capture" where
  "Capture V X D cfg plan rounds me I J s =
     next_do (Start_capture V X D plan rounds me I s) (\<lambda>started s.
       case started of
         Inl err \<Rightarrow>
           next_do (on_browser (MakeErrorDetail V (cap_browser_env X) err) s) (\<lambda>detail s.
           next_do (StopCdpForError V X me I J s) (\<lambda>_ s.
           (Returns (Inl \<lparr>cf_detail = detail, cf_seed_probe = None\<rparr>), s)))
       | Inr _ \<Rightarrow>
           next_do (CaptureAttachedTarget V X D cfg plan rounds me I J s) (\<lambda>captured s.
             case captured of
               Inl err \<Rightarrow> capture_failed V X me I J err s
             | Inr exchange \<Rightarrow>
                 (Returns (Inr \<lparr>cn_exchange = exchange,
                    cn_proxy_down_bytes = ProxyDownBytes (cap_browser_env X) (cap_browser s)\<rparr>), s)))"

definition CaptureSession :: "session \<Rightarrow> 'j capture" where
  "CaptureSession b = \<lparr>cap_browser = b, cap_cdp = None, cap_page = None, cap_tracker = None, interception_error = None,
     progress_version = 0, event_task = False, stopping_event_loop = False, cap_ticks = 0, events_seen = [],
     fetch_log = []\<rparr>"

text \<open>The destructor, which must not raise, and then the members: the browser session is the last of them.\<close>

definition destroy_capture ::
    "('u, 'z) vendor_scheme \<Rightarrow> 'j capture_env \<Rightarrow> nat \<Rightarrow> 'j interference \<Rightarrow> 'j capture_others \<Rightarrow> 'j capture \<Rightarrow>
     unit outcome \<times> 'j capture" where
  "destroy_capture V X me I J s =
     next_do (no_throw (StopCdpForError V X me I J s)) (\<lambda>_ s.
       on_browser (destroy_browser V (cap_browser_env X)) (s\<lparr>cap_tracker := None\<rparr>))"

text \<open>What happens at the end of a scope, however it is left.\<close>

definition finally_do :: "'a outcome \<times> 's \<Rightarrow> ('s \<Rightarrow> unit outcome \<times> 's) \<Rightarrow> 'a outcome \<times> 's" where
  "finally_do r leave =
     (case r of
        (Aborts why, s) \<Rightarrow> (Aborts why, s)
      | (Returns v, s) \<Rightarrow> next_do (leave s) (\<lambda>_ s. (Returns v, s))
      | (Throws what, s) \<Rightarrow> next_do (leave s) (\<lambda>_ s. (Throws what, s)))"

definition no_browser :: "('u, 'z) vendor_scheme \<Rightarrow> string \<Rightarrow> CaptureFailure" where
  "no_browser V err =
     (case FromBytes V err of
        Inr detail \<Rightarrow> \<lparr>cf_detail = detail, cf_seed_probe = None\<rparr>
      | Inl _ \<Rightarrow> \<lparr>cf_detail = ''browser session creation failed'', cf_seed_probe = None\<rparr>)"

definition CaptureViaProxy ::
    "('u, 'z) vendor_scheme \<Rightarrow> 'j capture_env \<Rightarrow> 'j drive_env \<Rightarrow> runner_config \<Rightarrow> BrowserSessionConfig \<Rightarrow> capture_plan \<Rightarrow>
     capture_rounds \<Rightarrow> nat \<Rightarrow> 'j interference \<Rightarrow> 'j capture_others \<Rightarrow> bw \<Rightarrow>
     (CaptureFailure + CaptureWithNetwork) outcome \<times> bw" where
  "CaptureViaProxy V X D cfg bcfg plan rounds me I J w =
     (let (made, b) = Make_browser V (cap_browser_env X) (devtools_polls rounds) (startup_deadline rounds) bcfg w in
      next_do (made, snd b) (\<lambda>made w.
        case made of
          Inl err \<Rightarrow> (Returns (Inl (no_browser V err)), w)
        | Inr browser \<Rightarrow>
            let (r, s) = finally_do (Capture V X D cfg plan rounds me I J (CaptureSession (browser, w)))
                  (destroy_capture V X me I J)
            in (r, snd (cap_browser s))))"

end
