(* ===== verification/Browser_Correct.thy ===== *)
theory Browser_Correct
  imports Browser_Start
begin

text \<open>
  What a browser session promises: it gives back the processes and groups it took, removes its
  directory, and starts the browser with the options that shut it in.
\<close>

section \<open>Operations that hold nothing\<close>

text \<open>An operation of the surroundings that changes neither the metrics nor the processes.\<close>

definition idle :: "bw \<Rightarrow> 'a outcome \<times> bw \<Rightarrow> bool" where
  "idle w r \<longleftrightarrow> service (snd r) = service w \<and> children (snd r) = children w"

named_theorems idle_intros

lemma idle_return [idle_intros]: "idle w (r, w)"
  by (simp add: idle_def)

lemma idle_trans: "idle w (r, w') \<Longrightarrow> idle w' q \<Longrightarrow> idle w q"
  by (simp add: idle_def)

lemma idle_pair [simp]: "idle w (r, w') \<longleftrightarrow> service w' = service w \<and> children w' = children w"
  by (simp add: idle_def)

lemma tick_b_simps [simp]: "service (tick_b N w) = service w" "children (tick_b N w) = children w"
  by (simp_all add: tick_b_def)

lemma idle_next [idle_intros]:
  assumes "idle w r" and "\<And>v w'. idle w' (k v w')"
  shows "idle w (next_do r k)"
  using assms by (cases r; cases "fst r") (auto simp: next_do_def idle_def)

lemma idle_try [idle_intros]:
  assumes "idle w r" and "\<And>v w'. idle w' (k v w')"
  shows "idle w (try_do r k)"
  unfolding try_do_def using assms by (intro idle_next) (auto simp: idle_def split: sum.split)

lemma idle_catching [idle_intros]:
  assumes "idle w r" and "\<And>what w'. idle w' (h what w')"
  shows "idle w (catching r h)"
  using assms by (cases r; cases "fst r") (auto simp: catching_def idle_def)

lemma idle_fs_call [idle_intros]:
  assumes "\<And>w'. idle w' (k w')"
  shows "idle w (fs_call N w k)"
  unfolding fs_call_def using assms [of "tick_b N w"]
  by (auto simp: idle_def tick_b_def split: option.split)

lemma idle_files [idle_intros]:
  "idle w (CreateDirectories N d w)" "idle w (RewriteFileContents N f c w)" "idle w (FileExists N f w)"
  "idle w (ReadFileContents N f w)"
  unfolding CreateDirectories_def RewriteFileContents_def FileExists_def ReadFileContents_def
  by (rule idle_fs_call; simp add: idle_def)+

lemma idle_each [idle_intros]: "(\<And>x w'. idle w' (f x w')) \<Longrightarrow> idle w (each_do f xs w)"
  by (induction xs arbitrary: w) (auto intro: idle_intros)

lemma idle_paths [idle_intros]: "idle w (MakeBrowserPaths V N root w)"
  unfolding MakeBrowserPaths_def WriteBrowserSeccompPolicy_def Let_def
  by (auto intro!: idle_intros split: prod.split)

lemma idle_stage [idle_intros]: "idle w (StageLocalFixtureTrustDbIfNeeded V N p cfg w)"
proof -
  have copy: "idle w (copy_files V N a b names w)" for a b names w
    by (induction names arbitrary: w) (auto intro!: idle_intros simp: CopyFileContents_def)
  show ?thesis
    unfolding StageLocalFixtureTrustDbIfNeeded_def StageLocalFixtureTrustDb_def CopyLocalFixtureTrustDb_def
    by (auto intro!: idle_intros copy split: sum.split)
qed

lemma idle_logs [idle_intros]:
  "idle w (ReadLogTail N f w)" "idle w (WritePhaseMarker V N f phase w)" "idle w (ReadBrowserFileIfExists N f w)"
  "idle w (file_contents N f w)" "idle w (OpenBrowserRunDir V N p w)" "idle w (RemoveBrowserRunDir V N d w)"
  unfolding ReadLogTail_def WritePhaseMarker_def ReadBrowserFileIfExists_def file_contents_def OpenBrowserRunDir_def
    RemoveBrowserRunDir_def
  by (auto intro!: idle_intros)

lemma idle_retained [idle_intros]:
  "idle w (ReadRetainedLogText V N f w)" "idle w (ReadWebsocketPathFile V N f w)"
  unfolding ReadRetainedLogText_def ReadWebsocketPathFile_def
  by (auto intro!: idle_intros split: option.split)

lemma idle_proxy [idle_intros]:
  "idle w (StartBrowserProxy V N p cfg d w)" "idle w (ConnectCdpOnce V N p cfg ws d w)"
  unfolding StartBrowserProxy_def ConnectCdpOnce_def
  by (auto intro!: idle_intros split: sum.split)

section \<open>What a session holds\<close>

text \<open>The process and the group of a session, with respect to the surroundings before it began.\<close>

definition holds :: "bw \<Rightarrow> session \<Rightarrow> bool" where
  "holds w0 s \<longleftrightarrow>
     children (snd s) = children w0 + (if b_process (fst s) then 1 else 0) \<and>
     mset (browser_cgroups (service (snd s))) = mset (browser_cgroups (service w0)) +
       (case registered_cgroup_path (fst s) of None \<Rightarrow> {#} | Some grp \<Rightarrow> {#grp#}) \<and>
     (registered_cgroup_path (fst s) \<noteq> None \<longrightarrow> bc_metrics (b_config (fst s)))"

text \<open>An operation of a session that takes and gives back nothing.\<close>

definition same_hold :: "session \<Rightarrow> session \<Rightarrow> bool" where
  "same_hold s s' \<longleftrightarrow>
     service (snd s') = service (snd s) \<and> children (snd s') = children (snd s) \<and>
     b_process (fst s') = b_process (fst s) \<and> b_config (fst s') = b_config (fst s) \<and>
     b_paths (fst s') = b_paths (fst s) \<and> registered_cgroup_path (fst s') = registered_cgroup_path (fst s)"

definition steady :: "session \<Rightarrow> 'a outcome \<times> session \<Rightarrow> bool" where
  "steady s r \<longleftrightarrow> same_hold s (snd r)"

named_theorems steady_intros

lemma same_hold_refl [simp]: "same_hold s s"
  by (simp add: same_hold_def)

lemma same_hold_trans: "same_hold s s' \<Longrightarrow> same_hold s' s'' \<Longrightarrow> same_hold s s''"
  by (simp add: same_hold_def)

lemma steady_pair [simp]: "steady s (r, s') \<longleftrightarrow> same_hold s s'"
  by (simp add: steady_def)

lemma steady_return [steady_intros]: "steady s (r, s)"
  by simp

lemma steady_next [steady_intros]:
  assumes "steady s r" and "\<And>v s'. steady s' (k v s')"
  shows "steady s (next_do r k)"
proof -
  obtain x s1 where r: "r = (x, s1)" by (cases r)
  show ?thesis
  proof (cases x)
    case (Returns v)
    with r assms(1) assms(2) [of s1 v] show ?thesis
      by (auto simp: next_do_def steady_def intro: same_hold_trans)
  qed (use assms(1) r in \<open>simp_all add: next_do_def\<close>)
qed

lemma steady_world [steady_intros]:
  assumes "\<And>w. idle w (f w)"
  shows "steady s (on_world f s)"
  using assms [of "snd s"] by (cases "f (snd s)") (simp add: on_world_def same_hold_def)

lemma steady_logs [steady_intros]:
  "steady s (DrainBrowserLogs N s)" "steady s (MarkPhase V N phase s)" "steady s (CurrentStartLogs N s)"
  "steady s (error_with_logs V N m s)"
  unfolding error_with_logs_def CurrentStartLogs_def DrainBrowserLogs_def MarkPhase_def
  by (auto intro!: steady_intros idle_intros)

lemma steady_exited [steady_intros]:
  assumes "\<And>ended s'. steady s' (k ended s')"
  shows "steady s (case process_exited N s of (ended, s') \<Rightarrow> k ended s')"
proof -
  obtain ended s' where p: "process_exited N s = (ended, s')" by (rule prod.exhaust)
  then have "same_hold s s'"
    by (auto simp: process_exited_def has_exited_def same_hold_def split: if_splits)
  then show ?thesis using assms [of s' ended] by (auto simp: p steady_def intro: same_hold_trans)
qed

lemma steady_wait [steady_intros]: "steady s (WaitForDevtoolsPath V N polls deadline s)"
proof -
  have seen: "steady s (seen N already f s)" for already f s
    unfolding seen_def by (auto intro!: steady_intros idle_intros)
  have "steady s (wait_devtools V N n a b s)" for n a b s
  proof (induction n arbitrary: a b s)
    case 0
    show ?case by (auto simp: Let_def intro!: steady_intros)
  next
    case (Suc n)
    show ?case unfolding wait_devtools.simps Let_def
      by (auto intro!: steady_intros seen idle_intros Suc.IH split: option.split)
  qed
  then show ?thesis by (simp add: WaitForDevtoolsPath_def)
qed

lemma steady_fields [steady_intros]:
  "steady s r \<Longrightarrow> steady s (field_if V label out r)" "steady s q \<Longrightarrow> steady s (bool_field V label out q)"
  unfolding field_if_def bool_field_def by (auto intro!: steady_intros)

lemma steady_detail [steady_intros]: "steady s (MakeErrorDetail V N m s)"
proof -
  have a: "steady s (process_output V N s)" for s
    unfolding process_output_def by (auto intro!: steady_intros idle_intros)
  have b: "steady s (cgroup_fields V N out s)" for s out
    unfolding cgroup_fields_def Let_def by (auto intro!: steady_intros idle_intros split: option.split sum.split)
  have c: "steady s (proxy_fields V N out s)" for s out
    unfolding proxy_fields_def Let_def by (auto simp: same_hold_def split: option.split)
  show ?thesis unfolding MakeErrorDetail_def Let_def by (auto intro!: steady_intros idle_intros a b c)
qed

lemma steady_connect_loop: "steady s (connect_cdp_loop V N d n l a s)"
proof (induction n arbitrary: l a s)
  case 0
  show ?case by (auto intro!: steady_intros split: option.split)
next
  case (Suc n)
  show ?case by (auto intro!: steady_intros idle_intros Suc.IH split: sum.split)
qed

lemma steady_connect [steady_intros]: "steady s (ConnectCdp V N tries deadline s)"
  by (simp add: ConnectCdp_def steady_connect_loop)

lemma steady_holds: "steady s r \<Longrightarrow> holds w0 s \<Longrightarrow> holds w0 (snd r)"
  by (simp add: steady_def same_hold_def holds_def)

section \<open>From start to end\<close>

lemma next_do_inv:
  assumes "P (snd r)" and "\<And>s. P s \<Longrightarrow> Q s" and "\<And>v s'. P s' \<Longrightarrow> Q (snd (k v s'))"
  shows "Q (snd (next_do r k))"
proof -
  obtain x s1 where r: "r = (x, s1)" by (rule prod.exhaust)
  then show ?thesis using assms by (cases x) (simp_all add: next_do_def)
qed

lemma try_do_inv:
  assumes "P (snd r)" and "\<And>s. P s \<Longrightarrow> Q s" and "\<And>v s'. P s' \<Longrightarrow> Q (snd (k v s'))"
  shows "Q (snd (try_do r k))"
  unfolding try_do_def
proof (rule next_do_inv [where P = P, OF assms(1)])
  fix x s assume "P s"
  then show "Q (snd (case x of Inl e \<Rightarrow> (Returns (Inl e), s) | Inr v \<Rightarrow> k v s))"
    using assms(2,3) by (cases x) simp_all
qed (rule assms(2))

definition fresh :: "bw \<Rightarrow> session \<Rightarrow> bool" where
  "fresh w0 s \<longleftrightarrow> holds w0 s \<and> \<not> b_process (fst s) \<and> registered_cgroup_path (fst s) = None"

lemma fresh_holds: "fresh w0 s \<Longrightarrow> holds w0 s"
  by (simp add: fresh_def)

lemma steady_fresh: "steady s r \<Longrightarrow> fresh w0 s \<Longrightarrow> fresh w0 (snd r)"
  by (simp add: fresh_def steady_def same_hold_def holds_def)

lemma fresh_simps [simp]:
  "fresh w0 (b\<lparr>b_paths := p\<rparr>, w) = fresh w0 (b, w)" "fresh w0 (b\<lparr>b_proxy := x\<rparr>, w) = fresh w0 (b, w)"
  "holds w0 (b\<lparr>b_websocket_path := t\<rparr>, w) = holds w0 (b, w)"
  by (simp_all add: fresh_def holds_def)

lemma register_cgroup_holds:
  "holds w0 s \<Longrightarrow> registered_cgroup_path (fst s) = None \<Longrightarrow> holds w0 (register_cgroup s)"
  by (auto simp: register_cgroup_def holds_def RegisterBrowserCgroup_def Let_def split: option.splits)

lemma holds_again [simp]:
  "holds w0 ((fst s)\<lparr>b_websocket_path := t\<rparr>, snd s) = holds w0 s"
  "fresh w0 ((fst s)\<lparr>b_paths := p\<rparr>, snd s) = fresh w0 s"
  "fresh w0 ((fst s)\<lparr>b_proxy := x\<rparr>, snd s) = fresh w0 s"
  by (simp_all add: holds_def fresh_def)

lemma watch_browser_holds:
  assumes "holds w0 (b\<lparr>b_process := True\<rparr>, w)" and "registered_cgroup_path b = None"
  shows "holds w0 (snd (watch_browser V N polls deadline (b, w)))"
  unfolding watch_browser_def
proof (rule next_do_inv [where P = "holds w0"])
  show "holds w0 (snd (WaitForDevtoolsPath V N polls deadline
      (register_cgroup ((fst (b, w))\<lparr>b_process := True\<rparr>, snd (b, w)))))"
    using register_cgroup_holds [OF assms(1)] assms(2) by (simp add: steady_holds [OF steady_wait])
  fix r s assume "holds w0 s"
  then show "holds w0 (snd (case r of Inl detail \<Rightarrow> next_do (MakeErrorDetail V N detail s) (\<lambda>d s. (Returns (Inl d), s))
      | Inr ws_path \<Rightarrow> (Returns (Inr ()), ((fst s)\<lparr>b_websocket_path := ws_path\<rparr>, snd s))))"
    by (cases r) (simp_all add: next_do_inv [where P = "holds w0" and Q = "holds w0"] steady_holds [OF steady_detail])
qed

lemma spawn_holds:
  assumes "fresh w0 s"
  shows "holds w0 (snd (next_do (on_world (SpawnSandboxedBrowser N p a l n u) s) (\<lambda>_. watch_browser V N polls deadline)))"
proof -
  have h: "holds w0 s" "holds w0 (fst s, tick_b N (snd s))"
      "holds w0 ((fst s)\<lparr>b_process := True\<rparr>, (tick_b N (snd s))\<lparr>spawned := e, children := children (snd s) + 1\<rparr>)"
      and r: "registered_cgroup_path (fst s) = None" for e
    using assms by (simp_all add: fresh_def holds_def)
  show ?thesis
    using watch_browser_holds [OF h(3) r] h(1,2)
    by (cases "bwrap_args N p u"; cases "fs_fault N (bcalls (snd s))")
      (simp_all add: on_world_def SpawnSandboxedBrowser_def SpawnProcess_def fs_call_def next_do_def)
qed

lemma Start_browser_holds:
  "holds w (snd (Start_browser V N polls deadline (BrowserSession cfg, w)))"
proof -
  have f0: "fresh w (BrowserSession cfg, w)" by (simp add: fresh_def holds_def BrowserSession_def)
  show ?thesis unfolding Start_browser_def Let_def
    by (intro next_do_inv [where P = "fresh w" and Q = "holds w"] try_do_inv [where P = "fresh w" and Q = "holds w"]
        steady_fresh [OF steady_world] steady_fresh [OF steady_logs(2)] idle_intros f0 spawn_holds)
      (auto intro: fresh_holds)
qed

text \<open>The end of a session gives back what it held.\<close>

lemma StopProcess_gone:
  assumes "StopProcess N process w = (Returns (), w')"
  shows "service w' = service w \<and> children w' = children w - (if process then 1 else 0)"
  using assms
  by (auto simp: StopProcess_def has_exited_def SendSignal_def fs_call_def next_do_Returns_iff Let_def
      split: if_splits option.splits)

lemma no_throw_Returns_iff: "no_throw r = (Returns v, s) \<longleftrightarrow> r = (Returns v, s)"
  by (auto simp: no_throw_def split: prod.splits outcome.splits)

lemma on_world_Returns_iff: "on_world f s = (Returns v, s') \<longleftrightarrow> fst s' = fst s \<and> f (snd s) = (Returns v, snd s')"
  by (cases s') (auto simp: on_world_def split: prod.splits)

lemma unregister_cgroup_simps [simp]:
  "fst (unregister_cgroup s) = fst s" "children (snd (unregister_cgroup s)) = children (snd s)"
  by (simp_all add: unregister_cgroup_def split: option.split)

lemma unregister_cgroup_balanced:
  "holds w0 s \<Longrightarrow> mset (browser_cgroups (service (snd (unregister_cgroup s)))) = mset (browser_cgroups (service w0))"
  by (auto simp: unregister_cgroup_def holds_def UnregisterBrowserCgroup_def split: option.splits)

lemma stop_and_remove_returns:
  assumes "stop_and_remove V N s = (Returns (), s')"
  shows "children (snd s') = children (snd s) \<and> service (snd s') = service (snd s) \<and> \<not> b_process (fst s') \<and>
    b_proxy (fst s') = map_option Egress_Proxy.Stop (b_proxy (fst s)) \<and>
    (root_dir (b_paths (fst s)) \<noteq> [] \<longrightarrow> (\<forall>n. fs_fault N n = None) \<longrightarrow>
      (\<forall>file. inside (root_dir (b_paths (fst s))) file \<longrightarrow> bfiles (snd s') file = None))"
proof (cases "root_dir (b_paths (fst s)) = []")
  case True
  then show ?thesis using assms by (auto simp: stop_and_remove_def)
next
  case False
  then obtain v where r: "RemoveBrowserRunDir V N (root_dir (b_paths (fst s))) (snd s) = (Returns v, snd s')"
      and b: "fst s' = (fst s)\<lparr>b_process := False, b_proxy := map_option Egress_Proxy.Stop (b_proxy (fst s))\<rparr>"
    using assms by (auto simp: stop_and_remove_def Let_def next_do_Returns_iff no_throw_Returns_iff on_world_Returns_iff)
  have "idle (snd s) (Returns v, snd s')" unfolding r [symmetric] by (rule idle_intros)
  moreover have "bfiles (snd s') f = None"
    if "\<forall>n. fs_fault N n = None" "inside (root_dir (b_paths (fst s))) f" for f
    using that arg_cong [OF r, of "\<lambda>x. bfiles (snd x) f"]
    by (simp add: RemoveBrowserRunDir_def fs_call_def catching_def)
  ultimately show ?thesis using b by simp
qed

lemma destroy_browser_returns:
  assumes "destroy_browser V N s = (Returns (), s')" and "holds w0 s"
  shows "children (snd s') = children w0 \<and>
    mset (browser_cgroups (service (snd s'))) = mset (browser_cgroups (service w0)) \<and>
    \<not> b_process (fst s') \<and> b_proxy (fst s') = map_option Egress_Proxy.Stop (b_proxy (fst s)) \<and>
    (root_dir (b_paths (fst s)) \<noteq> [] \<longrightarrow> (\<forall>n. fs_fault N n = None) \<longrightarrow>
      (\<forall>file. inside (root_dir (b_paths (fst s))) file \<longrightarrow> bfiles (snd s') file = None))"
proof -
  from assms(1) obtain s2 where stop: "StopProcess N (b_process (fst s)) (snd (unregister_cgroup s)) = (Returns (), snd s2)"
      and b: "fst s2 = fst s" and rest: "stop_and_remove V N s2 = (Returns (), s')"
    by (auto simp: destroy_browser_def next_do_Returns_iff no_throw_Returns_iff on_world_Returns_iff)
  from StopProcess_gone [OF stop] stop_and_remove_returns [OF rest] unregister_cgroup_balanced [OF assms(2)] assms(2) b
  show ?thesis by (auto simp: holds_def)
qed

text \<open>What is done with a session between its start and its end.\<close>

inductive session_step :: "('u, 'z) vendor_scheme \<Rightarrow> b_env \<Rightarrow> session \<Rightarrow> session \<Rightarrow> bool"
  for V :: "('u, 'z) vendor_scheme" and N :: b_env where
  phase: "session_step V N s (snd (MarkPhase V N ph s))"
| logs: "session_step V N s (snd (DrainBrowserLogs N s))"
| start_logs: "session_step V N s (snd (CurrentStartLogs N s))"
| detail: "session_step V N s (snd (MakeErrorDetail V N m s))"
| connect: "(ConnectCdp V N tries deadline s :: (string + unit cdp) outcome \<times> session) = (r, s') \<Longrightarrow> session_step V N s s'"
| proxy: "session_step V N (b, w) (b\<lparr>b_proxy := p\<rparr>, w)"
| files: "session_step V N (b, w) (b, tick_b N w)"

lemma session_step_same: "session_step V N s s' \<Longrightarrow> same_hold s s'"
proof (induction rule: session_step.induct)
  case (connect tries deadline s r s')
  have "steady s (ConnectCdp V N tries deadline s :: (string + unit cdp) outcome \<times> session)" by (rule steady_connect)
  then show ?case by (simp add: connect)
qed (simp_all add: steady_logs [unfolded steady_def] steady_detail [unfolded steady_def], simp_all add: same_hold_def)

lemma session_steps_holds: "(session_step V N)\<^sup>*\<^sup>* s s' \<Longrightarrow> same_hold s s'"
  by (induction rule: rtranclp_induct) (auto intro: same_hold_trans session_step_same)

lemma same_hold_holds: "same_hold s s' \<Longrightarrow> holds w0 s \<Longrightarrow> holds w0 s'"
  by (simp add: same_hold_def holds_def)

lemma destroy_browser_no_throw: "destroy_browser V N s \<noteq> (Throws what, s')"
  by (auto simp: destroy_browser_def stop_and_remove_def next_do_def no_throw_def Let_def
      split: prod.splits outcome.splits if_splits)

lemma Make_browser_failed:
  assumes "Make_browser V N polls deadline cfg w = (r, s)" and "\<forall>b. r \<noteq> Returns (Inr b)" and "\<forall>why. r \<noteq> Aborts why"
  shows "children (snd s) = children w \<and>
    mset (browser_cgroups (service (snd s))) = mset (browser_cgroups (service w))"
proof -
  obtain x s1 where st: "Start_browser V N polls deadline (BrowserSession cfg, w) = (x, s1)" by (rule prod.exhaust)
  have h: "holds w s1" using Start_browser_holds [of w V N polls deadline cfg] st by simp
  have "\<exists>s2. destroy_browser V N s1 = (Returns (), s2) \<and> s = s2"
    using assms st
    by (cases x) (auto simp: Make_browser_def next_do_def destroy_browser_no_throw
      split: prod.splits outcome.splits sum.splits)
  then show ?thesis using destroy_browser_returns [OF _ h] by auto
qed

lemma Make_browser_made:
  assumes "Make_browser V N polls deadline cfg w = (Returns (Inr b), s)"
  shows "b = fst s \<and> holds w s"
proof -
  obtain x s1 where st: "Start_browser V N polls deadline (BrowserSession cfg, w) = (x, s1)" by (rule prod.exhaust)
  have h: "holds w s1" using Start_browser_holds [of w V N polls deadline cfg] st by simp
  then show ?thesis using assms st
    by (cases x) (auto simp: Make_browser_def next_do_def split: prod.splits outcome.splits sum.splits)
qed

section \<open>The sandbox\<close>

text \<open>
  How \<open>bwrap\<close> reads its arguments: the options used here take a fixed number of operands, and the first
  argument that is not an option begins the command.
\<close>

definition bwrap_arity :: "string \<Rightarrow> nat option" where
  "bwrap_arity = map_of
     [(''--json-status-fd'', 1), (''--die-with-parent'', 0), (''--new-session'', 0), (''--seccomp'', 1),
      (''--unshare-user'', 0), (''--unshare-net'', 0), (''--unshare-pid'', 0), (''--unshare-ipc'', 0),
      (''--unshare-uts'', 0), (''--disable-userns'', 0), (''--uid'', 1), (''--gid'', 1), (''--hostname'', 1),
      (''--clearenv'', 0), (''--proc'', 1), (''--dev'', 1), (''--dir'', 1), (''--ro-bind'', 2), (''--tmpfs'', 1),
      (''--chmod'', 2), (''--bind'', 2), (''--setenv'', 2), (''--chdir'', 1)]"

fun bwrap_parse :: "string list \<Rightarrow> (string \<times> string list) list \<times> string list" where
  "bwrap_parse [] = ([], [])"
| "bwrap_parse (a # as) =
     (case bwrap_arity a of
        None \<Rightarrow> ([], a # as)
      | Some n \<Rightarrow> (let (opts, command) = bwrap_parse (drop n as) in ((a, take n as) # opts, command)))"

definition add_opt :: "string \<times> string list \<Rightarrow> (string \<times> string list) list \<times> string list \<Rightarrow> (string \<times> string list) list \<times> string list" where
  "add_opt opt r = (opt # fst r, snd r)"

lemma foldr_add_opt: "foldr add_opt opts r = (opts @ fst r, snd r)"
  by (induction opts) (simp_all add: add_opt_def)

lemma bwrap_arities:
  "bwrap_arity ''--json-status-fd'' = Some 1" "bwrap_arity ''--die-with-parent'' = Some 0"
  "bwrap_arity ''--new-session'' = Some 0" "bwrap_arity ''--seccomp'' = Some 1" "bwrap_arity ''--unshare-user'' = Some 0"
  "bwrap_arity ''--unshare-net'' = Some 0" "bwrap_arity ''--unshare-pid'' = Some 0" "bwrap_arity ''--unshare-ipc'' = Some 0"
  "bwrap_arity ''--unshare-uts'' = Some 0" "bwrap_arity ''--disable-userns'' = Some 0" "bwrap_arity ''--uid'' = Some 1"
  "bwrap_arity ''--gid'' = Some 1" "bwrap_arity ''--hostname'' = Some 1" "bwrap_arity ''--clearenv'' = Some 0"
  "bwrap_arity ''--proc'' = Some 1" "bwrap_arity ''--dev'' = Some 1" "bwrap_arity ''--dir'' = Some 1"
  "bwrap_arity ''--ro-bind'' = Some 2" "bwrap_arity ''--tmpfs'' = Some 1" "bwrap_arity ''--chmod'' = Some 2"
  "bwrap_arity ''--bind'' = Some 2" "bwrap_arity ''--setenv'' = Some 2" "bwrap_arity ''--chdir'' = Some 1"
  "bwrap_arity ''setpriv'' = None"
  by (simp_all add: bwrap_arity_def)

lemma bwrap_steps:
  "bwrap_arity a = Some 0 \<Longrightarrow> bwrap_parse (a # as) = add_opt (a, []) (bwrap_parse as)"
  "bwrap_arity a = Some 1 \<Longrightarrow> bwrap_parse (a # x # as) = add_opt (a, [x]) (bwrap_parse as)"
  "bwrap_arity a = Some 2 \<Longrightarrow> bwrap_parse (a # x # y # as) = add_opt (a, [x, y]) (bwrap_parse as)"
  "bwrap_arity a = None \<Longrightarrow> bwrap_parse (a # as) = ([], a # as)"
  by (simp_all add: split_beta numeral_2_eq_2 add_opt_def)

declare bwrap_parse.simps(2) [simp del]

lemmas bwrap_read = append_Cons append_Nil bwrap_steps bwrap_arities foldr_Cons foldr_Nil o_apply id_apply

lemma bwrap_parse_closure:
  "bwrap_parse (concat (map (\<lambda>p. [''--ro-bind'', p, p]) ps) @ as) =
   foldr add_opt (map (\<lambda>p. (''--ro-bind'', [p, p])) ps) (bwrap_parse as)"
  by (induction ps) (simp_all only: list.map concat.simps bwrap_read)

definition sandbox_mounts :: "BrowserPaths \<Rightarrow> (string \<times> string list) list" where
  "sandbox_mounts p =
     [(''--dir'', [''/etc'']), (''--ro-bind'', [passwd_path p, ''/etc/passwd'']), (''--ro-bind'', [group_path p, ''/etc/group'']),
      (''--ro-bind'', [nsswitch_conf_path p, ''/etc/nsswitch.conf'']), (''--ro-bind'', [hosts_path p, ''/etc/hosts'']),
      (''--tmpfs'', [''/tmp'']), (''--chmod'', [''1777'', ''/tmp'']), (''--bind'', [root_dir p, ''/browser'']),
      (''--bind'', [dev_null_path p, ''/dev/null''])]"

definition sandbox_isolation :: "(string \<times> string list) list" where
  "sandbox_isolation =
     [(''--json-status-fd'', [''3'']), (''--die-with-parent'', []), (''--new-session'', []), (''--seccomp'', [''4'']),
      (''--unshare-user'', []), (''--unshare-net'', []), (''--unshare-pid'', []), (''--unshare-ipc'', []),
      (''--unshare-uts'', []), (''--disable-userns'', []), (''--uid'', [''1000'']), (''--gid'', [''1000'']),
      (''--hostname'', [''webshot-browser'']), (''--clearenv'', []), (''--proc'', [''/proc'']), (''--dev'', [''/dev'']),
      (''--dir'', [''/nix'']), (''--dir'', [''/nix/store''])]"

definition sandbox_environment :: "b_env \<Rightarrow> (string \<times> string list) list" where
  "sandbox_environment N =
     [(''--setenv'', [''FONTCONFIG_FILE'', fontconfig_file N]), (''--setenv'', [''PATH'', sandbox_path_env N]),
      (''--setenv'', [''HOME'', ''/browser'']), (''--setenv'', [''TMPDIR'', ''/tmp''])]"

definition sandbox_homes :: "(string \<times> string list) list" where
  "sandbox_homes =
     [(''--setenv'', [''XDG_CONFIG_HOME'', ''/browser/xdg_config'']), (''--setenv'', [''XDG_CACHE_HOME'', ''/browser/xdg_cache'']),
      (''--setenv'', [''BREAKPAD_DUMP_LOCATION'', ''/browser/crashpad'']),
      (''--setenv'', [''DBUS_SESSION_BUS_ADDRESS'', ''=disabled:'']), (''--chdir'', [''/browser''])]"

lemma bwrap_parse_isolation:
  "bwrap_parse (bwrap_isolation @ as) = foldr add_opt sandbox_isolation (bwrap_parse as)"
  unfolding bwrap_isolation_def sandbox_isolation_def by (simp only: bwrap_read)

lemma bwrap_parse_mounts:
  "bwrap_parse (bwrap_mounts N p @ as) = foldr add_opt (sandbox_mounts p @ sandbox_environment N) (bwrap_parse as)"
  unfolding bwrap_mounts_def sandbox_mounts_def sandbox_environment_def kBrowserSandboxRoot_def
  by (simp only: bwrap_read)

lemma bwrap_parse_homes:
  "bwrap_parse ([''--setenv'', ''XDG_CONFIG_HOME'', ''/browser/xdg_config'', ''--setenv'', ''XDG_CACHE_HOME'', ''/browser/xdg_cache'',
     ''--setenv'', ''BREAKPAD_DUMP_LOCATION'', ''/browser/crashpad'', ''--setenv'', ''DBUS_SESSION_BUS_ADDRESS'', ''=disabled:'',
     ''--chdir'', ''/browser''] @ ''setpriv'' # as) = foldr add_opt sandbox_homes ([], ''setpriv'' # as)"
  unfolding sandbox_homes_def by (simp only: bwrap_read)

lemma BrowserSandboxPath_simps:
  "BrowserSandboxPath ''profile'' = Returns ''/browser/profile''"
  "BrowserSandboxPath ''netlog.json'' = Returns ''/browser/netlog.json''"
  "BrowserSandboxPath ''xdg_config'' = Returns ''/browser/xdg_config''"
  "BrowserSandboxPath ''xdg_cache'' = Returns ''/browser/xdg_cache''"
  "BrowserSandboxPath ''crashpad'' = Returns ''/browser/crashpad''"
  "BrowserSandboxPath kProxySocketFileName = Returns ''/browser/proxy.sock''"
  "BrowserSandboxPath kCdpSocketFileName = Returns ''/browser/cdp.sock''"
  "BrowserSandboxPath kWebsocketPathFileName = Returns ''/browser/websocket_path.txt''"
  by (simp_all add: BrowserSandboxPath_def kBrowserSandboxRoot_def kProxySocketFileName_def kCdpSocketFileName_def
      kWebsocketPathFileName_def)

lemma bwrap_args_parse:
  "\<exists>opts args. bwrap_args N p u = Returns (''bwrap'' # opts) \<and>
     bwrap_parse opts =
       (sandbox_isolation @ map (\<lambda>c. (''--ro-bind'', [c, c])) (filter (\<lambda>c. c \<noteq> []) (closure_paths N)) @
        sandbox_mounts p @ sandbox_environment N @ sandbox_homes,
        ''setpriv'' # ''--no-new-privs'' # ''--'' # args)"
proof -
  have "\<exists>args. bwrap_args N p u = Returns (''bwrap'' # bwrap_isolation @ bwrap_closure N @ bwrap_mounts N p @
     [''--setenv'', ''XDG_CONFIG_HOME'', ''/browser/xdg_config'', ''--setenv'', ''XDG_CACHE_HOME'', ''/browser/xdg_cache'',
      ''--setenv'', ''BREAKPAD_DUMP_LOCATION'', ''/browser/crashpad'', ''--setenv'', ''DBUS_SESSION_BUS_ADDRESS'', ''=disabled:'',
      ''--chdir'', ''/browser''] @ ''setpriv'' # ''--no-new-privs'' # ''--'' # args)"
    unfolding bwrap_args_def BrowserSandboxPath_simps and_then_simps kBrowserSandboxRoot_def append_Cons append_Nil
    by (rule exI) (rule refl)
  then obtain args where "bwrap_args N p u = Returns (''bwrap'' # bwrap_isolation @ bwrap_closure N @ bwrap_mounts N p @
     [''--setenv'', ''XDG_CONFIG_HOME'', ''/browser/xdg_config'', ''--setenv'', ''XDG_CACHE_HOME'', ''/browser/xdg_cache'',
      ''--setenv'', ''BREAKPAD_DUMP_LOCATION'', ''/browser/crashpad'', ''--setenv'', ''DBUS_SESSION_BUS_ADDRESS'', ''=disabled:'',
      ''--chdir'', ''/browser''] @ ''setpriv'' # ''--no-new-privs'' # ''--'' # args)" ..
  then show ?thesis
    by (intro exI conjI, assumption)
      (simp only: bwrap_closure_def bwrap_parse_isolation bwrap_parse_closure bwrap_parse_mounts bwrap_parse_homes
        foldr_add_opt fst_conv snd_conv append.assoc append_Nil2)
qed

text \<open>The operands of an option: what is bound into the sandbox.\<close>

definition operands :: "string \<Rightarrow> (string \<times> string list) list \<Rightarrow> string list list" where
  "operands opt parsed = map snd (filter (\<lambda>x. fst x = opt) parsed)"

lemma operands_append: "operands opt (a @ b) = operands opt a @ operands opt b"
  by (simp add: operands_def)

lemma sandbox_binds:
  "operands ''--bind'' sandbox_isolation = []" "operands ''--bind'' (sandbox_environment N) = []"
  "operands ''--bind'' sandbox_homes = []" "operands ''--bind'' (map (\<lambda>c. (''--ro-bind'', [c, c])) cs) = []"
  "operands ''--bind'' (sandbox_mounts p) = [[root_dir p, ''/browser''], [dev_null_path p, ''/dev/null'']]"
  by (simp_all add: operands_def sandbox_isolation_def sandbox_environment_def sandbox_homes_def sandbox_mounts_def
      filter_map comp_def)

lemma sandbox_ro_binds:
  "operands ''--ro-bind'' sandbox_isolation = []" "operands ''--ro-bind'' (sandbox_environment N) = []"
  "operands ''--ro-bind'' sandbox_homes = []"
  "operands ''--ro-bind'' (map (\<lambda>c. (''--ro-bind'', [c, c])) cs) = map (\<lambda>c. [c, c]) cs"
  "operands ''--ro-bind'' (sandbox_mounts p) = [[passwd_path p, ''/etc/passwd''], [group_path p, ''/etc/group''],
     [nsswitch_conf_path p, ''/etc/nsswitch.conf''], [hosts_path p, ''/etc/hosts'']]"
  by (simp_all add: operands_def sandbox_isolation_def sandbox_environment_def sandbox_homes_def sandbox_mounts_def
      filter_map comp_def)

section \<open>The group of the service\<close>

lemma index_of_after: "c \<notin> set t \<Longrightarrow> index_of c (t @ c # q) = Some (length t)"
  by (induction t) auto

lemma rfind_char_last: "c \<notin> set t \<Longrightarrow> rfind_char c (q @ c # t) = Some (length q)"
  using index_of_after [of c "rev t" "rev q"] by (simp add: rfind_char_def)

text \<open>The group found is the parent of the service's own, and its name is one of the deployment.\<close>

lemma managed_root_shape:
  assumes "ManagedCgroupRootPathFromServiceSubgroup p = Returns root"
  shows "p = root @ ''/service'' \<and>
    (\<exists>parent name. root = parent @ ''/'' @ name \<and> CHR ''/'' \<notin> set name \<and> IsManagedCgroupRootName name)"
proof -
  have suf: "suffix ''/service'' p" and par: "ParentCgroupPath p = Returns root"
    using assms by (auto simp: ManagedCgroupRootPathFromServiceSubgroup_def kManagedCgroupServiceSubgroup_def
        and_then_Returns_iff split: if_splits)
  then obtain q where p: "p = q @ CHR ''/'' # ''service''" by (auto simp: suffix_def)
  have r: "rfind_char CHR ''/'' p = Some (length q)" unfolding p by (rule rfind_char_last) simp
  have abs: "hd p = CHR ''/''" using par by (auto simp: ParentCgroupPath_def split: if_splits)
  show ?thesis
  proof (cases "q = []")
    case True
    then have "root = ''/''" using par r by (auto simp: ParentCgroupPath_def split: if_splits)
    moreover have "rfind_char CHR ''/'' ''/'' = Some 0" by (simp add: rfind_char_def)
    ultimately show ?thesis using assms suf par
      by (simp add: ManagedCgroupRootPathFromServiceSubgroup_def kManagedCgroupServiceSubgroup_def substr_from_def
          IsManagedCgroupRootName_def kManagedCgroupPrefix_def)
  next
    case False
    then have root: "root = q" using par r p by (auto simp: ParentCgroupPath_def substr_def split: if_splits)
    have "CHR ''/'' \<in> set q" using abs False p by (cases q) auto
    then obtain parent name where q: "q = parent @ CHR ''/'' # name" "CHR ''/'' \<notin> set name"
      by (meson split_list_last)
    have "rfind_char CHR ''/'' q = Some (length parent)" unfolding q(1) by (rule rfind_char_last [OF q(2)])
    then have "IsManagedCgroupRootName name" using assms suf par root q
      by (auto simp: ManagedCgroupRootPathFromServiceSubgroup_def kManagedCgroupServiceSubgroup_def substr_from_def
          split: if_splits)
    then show ?thesis using p root q by auto
  qed
qed

end
