(* ===== verification/Capture_Correct.thy ===== *)
theory Capture_Correct
  imports Capture_Run Browser_Correct
begin

text \<open>
  What a capture promises: however it ends, the browser it started is gone and its control group is given back.
\<close>

section \<open>The browser session during a capture\<close>

lemma steady_each: "(\<And>x s. steady s (f x s)) \<Longrightarrow> steady s (each_do f xs s)"
  by (induction xs arbitrary: s) (auto intro: steady_intros)

text \<open>
  Any relation that the operations of a session keep, such as what it holds, is kept by a whole capture, when the
  event task keeps it too.
\<close>

definition stays :: "(session \<Rightarrow> session \<Rightarrow> bool) \<Rightarrow> session \<Rightarrow> 'a outcome \<times> 'j capture \<Rightarrow> bool" where
  "stays K b r \<longleftrightarrow> K b (cap_browser (snd r))"

definition others_hold :: "(session \<Rightarrow> session \<Rightarrow> bool) \<Rightarrow> 'j capture_others \<Rightarrow> bool" where
  "others_hold K J \<longleftrightarrow> (\<forall>k s. K (cap_browser s) (cap_browser (J k s)))"

named_theorems stays_intros

locale session_kept =
  fixes K :: "session \<Rightarrow> session \<Rightarrow> bool"
  assumes kept_refl: "K b b"
    and kept_trans: "K a b \<Longrightarrow> K b c \<Longrightarrow> K a c"
    and kept_same: "same_hold b c \<Longrightarrow> K b c"
begin

lemma stays_return [stays_intros]: "K b (cap_browser s) \<Longrightarrow> stays K b (v, s)"
  by (simp add: stays_def)

lemma stays_next [stays_intros]:
  assumes "stays K b r" and "\<And>v s. K b (cap_browser s) \<Longrightarrow> stays K b (k v s)"
  shows "stays K b (next_do r k)"
  using assms by (cases r; cases "fst r") (auto simp: next_do_def stays_def)

lemma stays_try [stays_intros]:
  assumes "stays K b r" and "\<And>v s. K b (cap_browser s) \<Longrightarrow> stays K b (k v s)"
  shows "stays K b (try_do r k)"
  unfolding try_do_def using assms by (intro stays_next) (auto simp: stays_def split: sum.split)

lemma stays_if [stays_intros]: "(c \<Longrightarrow> stays K b r) \<Longrightarrow> (\<not> c \<Longrightarrow> stays K b q) \<Longrightarrow> stays K b (if c then r else q)"
  by simp

lemma stays_sum [stays_intros]:
  "(\<And>x. v = Inl x \<Longrightarrow> stays K b (f x)) \<Longrightarrow> (\<And>x. v = Inr x \<Longrightarrow> stays K b (g x)) \<Longrightarrow>
    stays K b (case v of Inl x \<Rightarrow> f x | Inr x \<Rightarrow> g x)"
  by (cases v) simp_all

lemma stays_option [stays_intros]:
  "(v = None \<Longrightarrow> stays K b f) \<Longrightarrow> (\<And>x. v = Some x \<Longrightarrow> stays K b (g x)) \<Longrightarrow> stays K b (case v of None \<Rightarrow> f | Some x \<Rightarrow> g x)"
  by (cases v) simp_all

lemma stays_prod [stays_intros]: "(\<And>x y. v = (x, y) \<Longrightarrow> stays K b (f x y)) \<Longrightarrow> stays K b (case v of (x, y) \<Rightarrow> f x y)"
  by (cases v) simp

lemma stays_prod2 [stays_intros]: "(\<And>x y. v = (x, y) \<Longrightarrow> stays K b (f x y s)) \<Longrightarrow> stays K b ((case v of (x, y) \<Rightarrow> f x y) s)"
  by (cases v) simp

lemma stays_browser [stays_intros]:
  assumes "K b (cap_browser s)" and "\<And>x. steady x (f x)"
  shows "stays K b (on_browser f s)"
  using kept_trans [OF assms(1) kept_same [OF assms(2) [of "cap_browser s", unfolded steady_def]]]
  by (simp add: on_browser_def stays_def case_prod_unfold Let_def)

lemma stays_mark [stays_intros]: "K b (cap_browser s) \<Longrightarrow> stays K b (mark V X phase s)"
  unfolding mark_def by (intro stays_intros steady_intros)

lemma marks_hold: "K b x \<Longrightarrow> K b (snd (each_do (MarkPhase V N) ps x))"
  by (erule kept_trans, rule kept_same, fold steady_def, rule steady_each, rule steady_logs)

lemma stays_page [stays_intros]: "K b (cap_browser s) \<Longrightarrow> stays K b (page_call V X f s)"
  by (auto simp: page_call_def stays_def Let_def intro: marks_hold split: option.split prod.split)

lemma stays_client [stays_intros]: "K b (cap_browser s) \<Longrightarrow> stays K b (with_client f s)"
  unfolding with_client_def by (intro stays_intros) (auto simp: stays_def split: prod.split)

lemma stays_map_error [stays_intros]: "stays K b r \<Longrightarrow> stays K b (map_cdp_error V a r)"
  unfolding map_cdp_error_def by (intro stays_intros)

lemma stays_sends [stays_intros]:
  "K b (cap_browser s) \<Longrightarrow> stays K b (SendSessionVoid V X me I m f p s)" "K b (cap_browser s) \<Longrightarrow> stays K b (ReadDomState V X D me I s)"
  "K b (cap_browser s) \<Longrightarrow> stays K b (RunSiteBehavior V X D me I deadline s)"
  unfolding SendSessionVoid_def ReadDomState_def RunSiteBehavior_def Let_def by (intro stays_intros; assumption)+

lemma stays_observe [stays_intros]: "others_hold K J \<Longrightarrow> K b (cap_browser s) \<Longrightarrow> K b (cap_browser (observe J s))"
  by (auto simp: others_hold_def observe_def intro: kept_trans)

lemma stays_ask [stays_intros]: "others_hold K J \<Longrightarrow> K b (cap_browser s) \<Longrightarrow> stays K b (ask_tracker J p s)"
  unfolding ask_tracker_def Let_def by (intro stays_intros)

lemma stays_or_error [stays_intros]:
  assumes "others_hold K J" and "K b (cap_browser s)" and "\<And>s. K b (cap_browser s) \<Longrightarrow> stays K b (k s)"
  shows "stays K b (or_error J k s)"
  unfolding or_error_def Let_def by (intro stays_intros assms)

lemma stays_predicate [stays_intros]:
  "others_hold K J \<Longrightarrow> K b (cap_browser s) \<Longrightarrow> stays K b (WaitForPredicate J p msg n s)"
proof (induction n arbitrary: s)
  case 0
  then show ?case unfolding WaitForPredicate.simps [of J p msg 0] nat.case by (intro stays_intros)
next
  case (Suc n)
  then show ?case unfolding WaitForPredicate.simps [of J p msg "Suc n"] nat.case by (intro stays_intros Suc.IH)
qed

lemma stays_idle [stays_intros]:
  "others_hold K J \<Longrightarrow> K b (cap_browser s) \<Longrightarrow> stays K b (WaitForIdle J p rounds s)"
proof (induction rounds arbitrary: s)
  case Nil
  then show ?case unfolding WaitForIdle.simps [of J p "[]"] list.case by (intro stays_intros)
next
  case (Cons r rounds)
  then show ?case unfolding WaitForIdle.simps [of J p "r # rounds"] list.case
    by (cases r; simp only: idle_round.case; intro stays_intros Cons.IH)
qed

lemma stays_resets [stays_intros]:
  "K b (cap_browser s) \<Longrightarrow> K b (cap_browser (StartEventLoop s))" "others_hold K J \<Longrightarrow> K b (cap_browser s) \<Longrightarrow> K b (cap_browser (StopEventLoop J s))"
  "K b (cap_browser s) \<Longrightarrow> K b (cap_browser (reset_page I s))" "K b (cap_browser s) \<Longrightarrow> K b (cap_browser (reset_cdp s))"
  using stays_observe [of J b "s\<lparr>stopping_event_loop := True\<rparr>"]
  by (auto simp: StartEventLoop_def StopEventLoop_def reset_page_def reset_cdp_def Let_def split: option.split)

lemma stays_fields [stays_intros]:
  "K b (cap_browser s) \<Longrightarrow> K b (cap_browser (s\<lparr>cap_tracker := d\<rparr>))" "K b (cap_browser s) \<Longrightarrow> K b (cap_browser (s\<lparr>cap_cdp := c\<rparr>))"
  "K b (cap_browser s) \<Longrightarrow> K b (cap_browser (s\<lparr>cap_cdp := c, cap_page := p\<rparr>))"
  by simp_all

section \<open>The parts of a capture\<close>

lemma stays_tracker [stays_intros]:
  "others_hold K J \<Longrightarrow> K b (cap_browser s) \<Longrightarrow> stays K b (change_tracker J f s)" "K b (cap_browser s) \<Longrightarrow> stays K b (attach_tracker V X D s)"
  unfolding change_tracker_def attach_tracker_def Let_def by (intro stays_intros; assumption)+

lemma stays_Start [stays_intros]: "K b (cap_browser s) \<Longrightarrow> stays K b (Start_capture V X D plan rounds me I s)"
  unfolding Start_capture_def Let_def by (intro stays_intros steady_intros)

lemma stays_prepare [stays_intros]:
  "others_hold K J \<Longrightarrow> K b (cap_browser s) \<Longrightarrow> stays K b (prepare_page V X D me I J s)"
  "others_hold K J \<Longrightarrow> K b (cap_browser s) \<Longrightarrow> stays K b (navigate V X D cfg seed me I J s)"
  unfolding prepare_page_def navigate_def by (intro stays_intros; assumption)+

lemma stays_phases [stays_intros]:
  "others_hold K J \<Longrightarrow> K b (cap_browser s) \<Longrightarrow> stays K b (delay_phase V X D deadline secs ph ph' msg J s)"
  "K b (cap_browser s) \<Longrightarrow> stays K b (behavior_phase V X D deadline secs me I s)"
  "others_hold K J \<Longrightarrow> K b (cap_browser s) \<Longrightarrow> stays K b (idle_phase V X secs ir J s)"
  unfolding delay_phase_def behavior_phase_def idle_phase_def Let_def by (intro stays_intros; assumption)+

lemma stays_settle [stays_intros]:
  "others_hold K J \<Longrightarrow> K b (cap_browser s) \<Longrightarrow> stays K b (settle V X D plan rounds me I J s)"
  unfolding settle_def Let_def by (intro stays_intros)

lemma stays_bodies [stays_intros]: "others_hold K J \<Longrightarrow> K b (cap_browser s) \<Longrightarrow> stays K b (with_bodies J f budget s)"
  unfolding with_bodies_def Let_def by (intro stays_intros)

lemma stays_read [stays_intros]:
  "others_hold K J \<Longrightarrow> K b (cap_browser s) \<Longrightarrow> stays K b (read_page V X D m me I J s)"
  "others_hold K J \<Longrightarrow> K b (cap_browser s) \<Longrightarrow> stays K b (build_exchange V X me I J captured s)"
  unfolding read_page_def build_exchange_def Let_def by (intro stays_intros; assumption)+

lemma stays_attached [stays_intros]:
  "others_hold K J \<Longrightarrow> K b (cap_browser s) \<Longrightarrow> stays K b (CaptureAttachedTarget V X D cfg plan rounds me I J s)"
  unfolding CaptureAttachedTarget_def by (intro stays_intros)

lemma stays_stop [stays_intros]: "others_hold K J \<Longrightarrow> K b (cap_browser s) \<Longrightarrow> stays K b (StopCdpForError V X me I J s)"
  unfolding StopCdpForError_def stop_page_quietly_def Let_def by (intro stays_intros)

lemma stays_Capture: "others_hold K J \<Longrightarrow> K b (cap_browser s) \<Longrightarrow> stays K b (Capture V X D cfg plan rounds me I J s)"
  unfolding Capture_def capture_failed_def Let_def by (intro stays_intros steady_intros)

end

section \<open>Nothing is left\<close>

text \<open>The policy checks and metrics change the service; what the session holds stays.\<close>

definition kept_hold :: "session \<Rightarrow> session \<Rightarrow> bool" where
  "kept_hold b b' \<longleftrightarrow>
     children (snd b') = children (snd b) \<and>
     mset (browser_cgroups (service (snd b'))) = mset (browser_cgroups (service (snd b))) \<and>
     b_process (fst b') = b_process (fst b) \<and> b_config (fst b') = b_config (fst b) \<and>
     b_paths (fst b') = b_paths (fst b) \<and> registered_cgroup_path (fst b') = registered_cgroup_path (fst b)"

interpretation held: session_kept kept_hold
  by unfold_locales (auto simp: kept_hold_def same_hold_def)

lemma kept_hold_holds: "kept_hold b b' \<Longrightarrow> holds w0 b \<Longrightarrow> holds w0 b'"
  by (simp add: kept_hold_def holds_def)

lemma on_browser_Returns: "on_browser f s = (Returns v, s') \<Longrightarrow> f (cap_browser s) = (Returns v, cap_browser s')"
  by (auto simp: on_browser_def split: prod.splits)

lemma destroy_capture_returns:
  assumes "destroy_capture V X me I J s = (Returns (), s')" and "others_hold kept_hold J" and "kept_hold b (cap_browser s)" and "holds w0 b"
  shows "children (snd (cap_browser s')) = children w0 \<and>
    mset (browser_cgroups (service_of s')) = mset (browser_cgroups (service w0))"
proof -
  from assms(1) obtain s1 where stop: "StopCdpForError V X me I J s = (Returns (), s1)"
    and d: "destroy_browser V (cap_browser_env X) (cap_browser s1) = (Returns (), cap_browser s')"
    by (auto simp: destroy_capture_def next_do_Returns_iff no_throw_Returns_iff dest: on_browser_Returns)
  from held.stays_stop [OF assms(2,3), of V X me I] stop have "kept_hold b (cap_browser s1)" by (simp add: stays_def)
  from destroy_browser_returns [OF d kept_hold_holds [OF this assms(4)]] show ?thesis by simp
qed

lemma destroy_capture_no_throw: "destroy_capture V X me I J s \<noteq> (Throws what, s')"
  by (auto simp: destroy_capture_def next_do_def no_throw_def on_browser_def destroy_browser_no_throw
      split: prod.splits outcome.splits)

lemma CaptureViaProxy_leaves_nothing:
  assumes run: "CaptureViaProxy V X D cfg bcfg plan rounds me I J w = (r, w')" and "others_hold kept_hold J"
    and "\<forall>why. r \<noteq> Aborts why"
  shows "children w' = children w \<and> mset (browser_cgroups (service w')) = mset (browser_cgroups (service w))"
proof -
  obtain made b where m: "Make_browser V (cap_browser_env X) (devtools_polls rounds) (startup_deadline rounds) bcfg w = (made, b)"
    by (rule prod.exhaust)
  show ?thesis
  proof (cases "\<exists>x. made = Returns (Inr x)")
    case False
    with run m have "w' = snd b" and "\<forall>why. made \<noteq> Aborts why"
      using assms(3) by (auto simp: CaptureViaProxy_def next_do_def Let_def split: outcome.splits sum.splits)
    with Make_browser_failed [OF m] False show ?thesis by auto
  next
    case True
    then obtain x where x: "made = Returns (Inr x)" by blast
    note h = Make_browser_made [OF m [unfolded x]]
    obtain q s where c: "Capture V X D cfg plan rounds me I J (CaptureSession b) = (q, s)" by fastforce
    have st: "kept_hold b (cap_browser s)"
      using held.stays_Capture [OF assms(2), of b "CaptureSession b" V X D cfg plan rounds me I] c
      by (simp add: stays_def CaptureSession_def held.kept_refl)
    have run': "(case finally_do (q, s) (destroy_capture V X me I J) of (r, s) \<Rightarrow> (r, snd (cap_browser s))) = (r, w')"
      using run m x h c by (simp add: CaptureViaProxy_def next_do_def Let_def)
    obtain u s1 where d: "destroy_capture V X me I J s = (u, s1)" by fastforce
    from run' d assms(3) destroy_capture_no_throw [of V X me I J s] have u: "u = Returns ()" and w': "w' = snd (cap_browser s1)"
      by (auto simp: finally_do_def next_do_def split: outcome.splits)
    from destroy_capture_returns [OF d [unfolded u] assms(2) st] h w' show ?thesis by simp
  qed
qed

section \<open>The tables are left alone\<close>

text \<open>
  Crawling only checks the policy and counts: no table and no object of the service changes.  This is what
  \<open>crud.cpp\<close> relies on.
\<close>

definition kept_tables :: "session \<Rightarrow> session \<Rightarrow> bool" where
  "kept_tables b b' \<longleftrightarrow> tables_same (service (snd b)) (service (snd b'))"

interpretation tabled: session_kept kept_tables
  by unfold_locales (auto simp: kept_tables_def same_hold_def tables.refl intro: tables.trans)

definition in_tables :: "bw \<Rightarrow> session \<Rightarrow> bool" where
  "in_tables w s \<longleftrightarrow> tables_same (service w) (service (snd s))"

lemma in_tables_steady: "steady s r \<Longrightarrow> in_tables w s \<Longrightarrow> in_tables w (snd r)"
  by (simp add: steady_def same_hold_def in_tables_def)

lemma in_tables_fields [simp]: "in_tables w (b', snd s) = in_tables w s"
  by (simp add: in_tables_def)

lemma in_tables_cgroups: "in_tables w s \<Longrightarrow> in_tables w (register_cgroup s)" "in_tables w s \<Longrightarrow> in_tables w (unregister_cgroup s)"
  by (auto simp: in_tables_def register_cgroup_def unregister_cgroup_def RegisterBrowserCgroup_def
      UnregisterBrowserCgroup_def tables_same_def same_env_def Let_def split: option.split)

lemma in_tables_watch: "in_tables w s \<Longrightarrow> in_tables w (snd (watch_browser V N polls deadline s))"
  unfolding watch_browser_def
proof (rule next_do_inv [where P = "in_tables w"])
  assume "in_tables w s"
  then show "in_tables w (snd (WaitForDevtoolsPath V N polls deadline (register_cgroup ((fst s)\<lparr>b_process := True\<rparr>, snd s))))"
    by (intro in_tables_steady [OF steady_wait] in_tables_cgroups) simp
  fix r s assume "in_tables w s"
  then show "in_tables w (snd (case r of Inl detail \<Rightarrow> next_do (MakeErrorDetail V N detail s) (\<lambda>d s. (Returns (Inl d), s))
      | Inr ws_path \<Rightarrow> (Returns (Inr ()), ((fst s)\<lparr>b_websocket_path := ws_path\<rparr>, snd s))))"
    by (cases r) (simp_all add: next_do_inv [where P = "in_tables w" and Q = "in_tables w"] in_tables_steady [OF steady_detail])
qed

lemma in_tables_spawn: "in_tables w s \<Longrightarrow> in_tables w (snd (on_world (SpawnSandboxedBrowser N p a l n u) s))"
  by (cases "bwrap_args N p u"; cases "fs_fault N (bcalls (snd s))")
    (simp_all add: on_world_def SpawnSandboxedBrowser_def SpawnProcess_def fs_call_def next_do_def in_tables_def)

lemma in_tables_Start: "in_tables w (snd (Start_browser V N polls deadline (BrowserSession cfg, w)))"
proof -
  have "in_tables w (BrowserSession cfg, w)" by (simp add: in_tables_def tables.refl)
  then show ?thesis unfolding Start_browser_def Let_def
    by (intro next_do_inv [where P = "in_tables w" and Q = "in_tables w"] try_do_inv [where P = "in_tables w" and Q = "in_tables w"]
        in_tables_steady [OF steady_world] in_tables_steady [OF steady_logs(2)] idle_intros in_tables_spawn in_tables_watch)
      simp_all
qed

lemma StopProcess_service: "service (snd (StopProcess N process w)) = service w"
  by (auto simp: StopProcess_def has_exited_def SendSignal_def fs_call_def next_do_def Let_def
      split: option.split prod.split outcome.split)

lemma no_throw_state [simp]: "snd (no_throw r) = snd r"
  by (auto simp: no_throw_def split: prod.split outcome.split)

lemma in_tables_destroy: "in_tables w s \<Longrightarrow> in_tables w (snd (destroy_browser V N s))"
  unfolding destroy_browser_def
proof (rule next_do_inv [where P = "in_tables w"])
  assume s: "in_tables w s"
  show "in_tables w (snd (no_throw (on_world (StopProcess N (b_process (fst s))) (unregister_cgroup s))))"
    using in_tables_cgroups(2) [OF s] by (simp add: on_world_def in_tables_def StopProcess_service case_prod_unfold Let_def)
  fix v :: unit and s assume s: "in_tables w s"
  have "idle x (RemoveBrowserRunDir V N d x)" for d x by (rule idle_intros)
  then show "in_tables w (snd (stop_and_remove V N s))"
    using s by (auto simp: stop_and_remove_def Let_def next_do_def no_throw_def on_world_def in_tables_def idle_def case_prod_unfold
        split: outcome.split)
qed

lemma in_tables_Make: "in_tables w (snd (Make_browser V N polls deadline cfg w))"
  using in_tables_Start [of w V N polls deadline cfg]
  by (auto simp: Make_browser_def next_do_inv [where P = "in_tables w" and Q = "in_tables w"] in_tables_destroy
      split: prod.split outcome.split sum.split)

lemma CaptureViaProxy_tables:
  fixes J :: "'j capture_others"
  assumes "others_hold kept_tables J"
  shows "tables_same (service w) (service (snd (CaptureViaProxy V X D cfg bcfg plan rounds me I J w)))"
proof -
  obtain made b where m: "Make_browser V (cap_browser_env X) (devtools_polls rounds) (startup_deadline rounds) bcfg w = (made, b)"
    by (rule prod.exhaust)
  have b: "tables_same (service w) (service (snd b))" using in_tables_Make [of w] m by (metis in_tables_def snd_conv)
  have "tables_same (service w) (service_of (snd (finally_do (Capture V X D cfg plan rounds me I J (CaptureSession (x, snd b)))
      (destroy_capture V X me I J))))" for x
  proof -
    obtain q s where c: "Capture V X D cfg plan rounds me I J (CaptureSession (x, snd b)) = (q, s)" by fastforce
    have s: "in_tables w (cap_browser s)"
      using tabled.stays_Capture [OF assms, of "(x, snd b)" "CaptureSession (x, snd b)" V X D cfg plan rounds me I] c b
      by (auto simp: stays_def CaptureSession_def kept_tables_def in_tables_def tables.refl intro: tables.trans)
    have "in_tables w (cap_browser (snd (destroy_capture V X me I J s)))"
      unfolding destroy_capture_def
    proof (rule next_do_inv [where P = "\<lambda>s. in_tables w (cap_browser s)"])
      have "stays kept_tables (cap_browser s) (StopCdpForError V X me I J s)"
        by (rule tabled.stays_stop [OF assms]) (rule tabled.kept_refl)
      then show "in_tables w (cap_browser (snd (no_throw (StopCdpForError V X me I J s))))"
        using s by (auto simp: stays_def kept_tables_def in_tables_def intro: tables.trans)
      fix v and s :: "'j capture" assume "in_tables w (cap_browser s)"
      then show "in_tables w (cap_browser (snd (on_browser (destroy_browser V (cap_browser_env X)) (s\<lparr>cap_tracker := None\<rparr>))))"
        using in_tables_destroy [of w "cap_browser s"] by (simp add: on_browser_def case_prod_unfold Let_def)
    qed
    then show ?thesis
      using c s by (auto simp: finally_do_def next_do_def in_tables_def split: prod.split outcome.split)
  qed
  then show ?thesis
    using m b by (auto simp: CaptureViaProxy_def next_do_def Let_def case_prod_unfold split: outcome.split sum.split)
qed

end
