(* ===== verification/Safe_Integers.thy ===== *)
theory Safe_Integers
  imports Integers "HOL-Library.Signed_Division"
begin

text \<open>
  \<open>include/integers.hpp\<close>: the checked integers and the conversions between integer types.  A value is an \<open>int\<close>;
  an operation whose result does not fit its type ends the process.
\<close>

section \<open>Integer types\<close>

record int_type =
  it_signed :: bool
  it_bits :: nat

definition u16_t :: int_type where "u16_t = \<lparr>it_signed = False, it_bits = 16\<rparr>"
definition u32_t :: int_type where "u32_t = \<lparr>it_signed = False, it_bits = 32\<rparr>"
definition i32_t :: int_type where "i32_t = \<lparr>it_signed = True, it_bits = 32\<rparr>"
definition u64_t :: int_type where "u64_t = \<lparr>it_signed = False, it_bits = 64\<rparr>"
definition i64_t :: int_type where "i64_t = \<lparr>it_signed = True, it_bits = 64\<rparr>"
definition usize_t :: int_type where "usize_t = \<lparr>it_signed = False, it_bits = 64\<rparr>"

lemmas int_types = u16_t_def u32_t_def i32_t_def u64_t_def i64_t_def usize_t_def

definition int_max :: "int_type \<Rightarrow> int" where
  "int_max t = (if it_signed t then 2 ^ (it_bits t - 1) - 1 else 2 ^ it_bits t - 1)"

definition int_min :: "int_type \<Rightarrow> int" where
  "int_min t = (if it_signed t then - (2 ^ (it_bits t - 1)) else 0)"

text \<open>\<open>std::in_range\<close>.\<close>

definition in_range :: "int_type \<Rightarrow> int \<Rightarrow> bool" where
  "in_range t x \<longleftrightarrow> int_min t \<le> x \<and> x \<le> int_max t"

lemma in_range_types:
  "in_range i64_t x \<longleftrightarrow> - (2 ^ 63) \<le> x \<and> x < 2 ^ 63" "in_range i32_t x \<longleftrightarrow> - (2 ^ 31) \<le> x \<and> x < 2 ^ 31"
  "in_range u16_t x \<longleftrightarrow> 0 \<le> x \<and> x < 2 ^ 16" "in_range u32_t x \<longleftrightarrow> 0 \<le> x \<and> x < 2 ^ 32"
  "in_range u64_t x \<longleftrightarrow> 0 \<le> x \<and> x < 2 ^ 64" "in_range usize_t x \<longleftrightarrow> 0 \<le> x \<and> x < 2 ^ 64"
  by (auto simp: in_range_def int_min_def int_max_def int_types)

section \<open>Conversions\<close>

datatype NumericCastError = kNegativeToUnsigned | kNarrowingOverflow | kEnumUnderlyingOverflow

fun AbortNumericCastError :: "NumericCastError \<Rightarrow> 'a outcome" where
  "AbortNumericCastError kNegativeToUnsigned = Aborts ''safe integer error: negative to unsigned''"
| "AbortNumericCastError kNarrowingOverflow = Aborts ''safe integer error: narrowing overflow''"
| "AbortNumericCastError kEnumUnderlyingOverflow = Aborts ''safe integer error: enum underlying overflow''"

text \<open>A plain integer type or an enumeration with its underlying type; enumerators are their values.\<close>

datatype cast_type = Plain int_type | Enumeration int_type

fun underlying :: "cast_type \<Rightarrow> int_type" where
  "underlying (Plain t) = t"
| "underlying (Enumeration t) = t"

definition cast_integral :: "int_type \<Rightarrow> int_type \<Rightarrow> int \<Rightarrow> NumericCastError + int" where
  "cast_integral to from x =
     (if \<not> it_signed to \<and> it_signed from \<and> x < 0 then Inl kNegativeToUnsigned
      else if \<not> in_range to x then Inl kNarrowingOverflow
      else Inr x)"

fun CheckedNumericCast :: "cast_type \<Rightarrow> cast_type \<Rightarrow> int \<Rightarrow> NumericCastError + int" where
  "CheckedNumericCast (Enumeration t) from x =
     (case cast_integral t (underlying from) x of Inl _ \<Rightarrow> Inl kEnumUnderlyingOverflow | Inr v \<Rightarrow> Inr v)"
| "CheckedNumericCast (Plain t) from x = cast_integral t (underlying from) x"

definition NumericCast :: "cast_type \<Rightarrow> cast_type \<Rightarrow> int \<Rightarrow> int outcome" where
  "NumericCast to from x =
     (case CheckedNumericCast to from x of Inl err \<Rightarrow> AbortNumericCastError err | Inr v \<Rightarrow> Returns v)"

text \<open>A conversion never changes a value: it keeps it or ends the process.\<close>

lemma NumericCast_Returns_iff:
  "NumericCast to from x = Returns y \<longleftrightarrow> y = x \<and> in_range (underlying to) x"
  by (cases to; auto simp: NumericCast_def cast_integral_def in_range_def int_min_def split: sum.splits if_splits)

lemma NumericCast_there_and_back:
  "in_range (underlying from) x \<Longrightarrow> NumericCast to from x = Returns y \<Longrightarrow> NumericCast from to y = Returns x"
  by (simp add: NumericCast_Returns_iff)

section \<open>Arithmetic of \<open>i64\<close>\<close>

definition safe_i64 :: "int \<Rightarrow> int outcome" where
  "safe_i64 x = (if in_range i64_t x then Returns x else Aborts ''safe integer error'')"

definition i64_add :: "int \<Rightarrow> int \<Rightarrow> int outcome" where
  "i64_add a b = safe_i64 (a + b)"

definition i64_mul :: "int \<Rightarrow> int \<Rightarrow> int outcome" where
  "i64_mul a b = safe_i64 (a * b)"

definition i64_div :: "int \<Rightarrow> int \<Rightarrow> int outcome" where
  "i64_div a b = (if b = 0 then Aborts ''safe integer error'' else safe_i64 (a sdiv b))"

definition ssize :: "'a list \<Rightarrow> int outcome" where
  "ssize xs = safe_i64 (int (length xs))"

definition unsize :: "'a list \<Rightarrow> int outcome" where
  "unsize xs = (if in_range usize_t (int (length xs)) then Returns (int (length xs)) else Aborts ''safe integer error'')"

lemma safe_i64_Returns_iff [simp]: "safe_i64 x = Returns y \<longleftrightarrow> y = x \<and> in_range i64_t x"
  by (auto simp: safe_i64_def)

lemma safe_i64_Throws [simp]: "safe_i64 x \<noteq> Throws m"
  by (simp add: safe_i64_def)

end
