(* ===== verification/Crawler_Runner.thy ===== *)
theory Crawler_Runner
  imports Capture_Correct Safe_Integers
begin

text \<open>
  \<open>crawler/runner.cpp\<close>, \<open>ExecuteRun\<close> and \<open>CrawlerRunner\<close>: one run of the crawler, from the seed to the archive or
  an error, with the limits on the size of the archive and on the bytes loaded for it.
\<close>

section \<open>The runner\<close>

text \<open>The first three are seconds, the others milliseconds.\<close>

record CrawlerTunables =
  tn_devtools_startup_timeout :: int
  tn_cdp_handshake_timeout :: int
  tn_cdp_command_timeout :: int
  tn_devtools_poll_interval :: int
  tn_browser_stop_timeout :: int
  tn_proxy_stop_timeout :: int
  tn_enable_local_fixture_rewrite :: bool

record CrawlerRunner =
  run_timeout :: int
  runner_runs_root :: string
  runner_cgroup_root :: string
  runner_limits :: "CgroupLimits option"
  max_archive_bytes :: int
  runner_timings :: CaptureTimings
  runner_tunables :: CrawlerTunables
  network_down_bytes_ratio_max :: int

definition make_CrawlerRunner ::
    "b_env \<Rightarrow> int \<Rightarrow> string \<Rightarrow> CgroupLimits option \<Rightarrow> int \<Rightarrow> CaptureTimings \<Rightarrow> CrawlerTunables \<Rightarrow> int \<Rightarrow> bw \<Rightarrow>
     CrawlerRunner outcome \<times> bw" where
  "make_CrawlerRunner N timeout state_dir limits archive_limit timings tunables ratio w =
     next_do (if limits \<noteq> None then ResolveDelegatedCgroupRootPath N w else (Returns [], w)) (\<lambda>root w.
       (Returns \<lparr>run_timeout = timeout, runner_runs_root = MakeBrowserRunsRoot state_dir, runner_cgroup_root = root,
          runner_limits = limits, max_archive_bytes = archive_limit, runner_timings = timings, runner_tunables = tunables,
          network_down_bytes_ratio_max = ratio\<rparr>, w))"

section \<open>Limits\<close>

definition kCdpWsPayloadSlackBytes :: int where "kCdpWsPayloadSlackBytes = 2 * 1024 * 1024"

definition ComputeCdpMaxRemotePayloadBytes :: "int \<Rightarrow> int outcome" where
  "ComputeCdpMaxRemotePayloadBytes archive_limit =
     and_then (i64_mul archive_limit 4) (\<lambda>x.
     and_then (i64_div x 3) (\<lambda>y. i64_add y kCdpWsPayloadSlackBytes))"

text \<open>\<open>ratio * bytes\<close>, or the largest number where that would not fit.\<close>

definition down_limit :: "int \<Rightarrow> int \<Rightarrow> int outcome" where
  "down_limit ratio bytes =
     and_then (i64_div (int_max i64_t) bytes) (\<lambda>q.
       if ratio > q then Returns (int_max i64_t) else i64_mul ratio bytes)"

definition final_down_limit :: "int \<Rightarrow> int \<Rightarrow> int outcome" where
  "final_down_limit ratio wacz_bytes = (if wacz_bytes \<le> 0 then Returns 0 else down_limit ratio wacz_bytes)"

section \<open>The results of a run\<close>

definition crawler_error :: "CrawlerErrorKind \<Rightarrow> string option \<Rightarrow> SeedProbe option \<Rightarrow> CrawlerError" where
  "crawler_error kind detail probe =
     \<lparr>ce_kind = kind, ce_detail = detail, ce_seed_probe = probe, ce_cgroup_stats = None, ce_process_status = None\<rparr>"

definition no_archive :: "CrawlerError \<Rightarrow> string \<Rightarrow> string \<Rightarrow> CrawlerRunArtifacts" where
  "no_archive err stdout stderr =
     \<lparr>ra_error = Some err, ra_stdout_log = stdout, ra_stderr_log = stderr, ra_wacz = None, ra_pages_jsonl = None,
      ra_content_sha256 = None, ra_replay_url = None\<rparr>"

definition text_or_none :: "('u, 'z) vendor_scheme \<Rightarrow> string \<Rightarrow> string option" where
  "text_or_none V bytes = (case FromBytes V bytes of Inl _ \<Rightarrow> None | Inr t \<Rightarrow> Some t)"

definition fail_artifact :: "('u, 'z) vendor_scheme \<Rightarrow> ArtifactError \<Rightarrow> CrawlerRunArtifacts" where
  "fail_artifact V err =
     no_archive (crawler_error kArchiveBuild (text_or_none V (art_detail err)) None) [] (art_detail err @ [newline])"

definition kSizeLimitPrefix :: string where "kSizeLimitPrefix = ''size_limit:''"
definition kNetLimitPrefix :: string where "kNetLimitPrefix = ''net_limit:''"

definition size_limit_detail :: "('u, 'z) vendor_scheme \<Rightarrow> string \<Rightarrow> string" where
  "size_limit_detail V detail =
     (let rest = drop (length kSizeLimitPrefix) detail;
          rest = (if rest \<noteq> [] \<and> hd rest = CHR '' '' then tl rest else rest)
      in case text_or_none V rest of None \<Rightarrow> detail | Some t \<Rightarrow> t)"

definition fail_capture :: "('u, 'z) vendor_scheme \<Rightarrow> CaptureFailure \<Rightarrow> CrawlerRunArtifacts" where
  "fail_capture V f =
     (let detail = cf_detail f;
          (kind, shown) =
            (if StartsWith detail kSizeLimitPrefix then (kArchiveSizeLimit, size_limit_detail V detail)
             else if StartsWith detail kNetLimitPrefix then (kProxy, detail)
             else (kNavigation, detail))
      in no_archive (crawler_error kind (Some shown) (cf_seed_probe f)) [] (detail @ [newline]))"

definition fail_exception :: "('u, 'z) vendor_scheme \<Rightarrow> string \<Rightarrow> CrawlerRunArtifacts" where
  "fail_exception V what = no_archive (crawler_error kInternal (text_or_none V what) None) [] (what @ [newline])"

definition probe_of :: "CapturedExchange \<Rightarrow> int \<Rightarrow> SeedProbe" where
  "probe_of exchange load_state = \<lparr>sp_status = Some (ex_status exchange), sp_load_state = Some load_state\<rparr>"

text \<open>An archive over a limit is thrown away; the log of the run is kept.\<close>

definition over_limit ::
    "('u, 'z) vendor_scheme \<Rightarrow> CrawlerErrorKind \<Rightarrow> string \<Rightarrow> CapturedExchange \<Rightarrow> string \<Rightarrow> CrawlerRunArtifacts outcome" where
  "over_limit V kind detail exchange stdout =
     and_then (deref_text V detail) (\<lambda>t.
       Returns (no_archive (crawler_error kind (Some t) (Some (probe_of exchange 0))) stdout (t @ [newline])))"

definition seed_error :: "('u, 'z) vendor_scheme \<Rightarrow> CapturedExchange \<Rightarrow> CrawlerError option outcome" where
  "seed_error V exchange =
     (let load_state = (if ex_status exchange \<ge> 400 then 0 else 2) in
      if ex_status exchange \<ge> 400
      then and_then (deref_text V (''seed returned HTTP '' @ int_to_string (ex_status exchange))) (\<lambda>t.
        Returns (Some (crawler_error kNavigation (Some t) (Some (probe_of exchange load_state)))))
      else Returns None)"

definition within_limits ::
    "('u, 'z) vendor_scheme \<Rightarrow> CrawlerRunner \<Rightarrow> CaptureWithNetwork \<Rightarrow> string \<Rightarrow> string \<Rightarrow> string \<Rightarrow> string \<Rightarrow>
     CrawlerRunArtifacts outcome" where
  "within_limits V R captured stdout pages sha wacz =
     (let exchange = cn_exchange captured; down = cn_proxy_down_bytes captured in
      and_then (ssize wacz) (\<lambda>wacz_bytes.
      if wacz_bytes > max_archive_bytes R then
        and_then (i64_div (max_archive_bytes R) (1024 * 1024)) (\<lambda>mib.
          over_limit V kArchiveSizeLimit (''archive bytes '' @ int_to_string wacz_bytes @ '' exceeded size limit '' @
            int_to_string mib @ '' MiB'') exchange stdout)
      else and_then (final_down_limit (network_down_bytes_ratio_max R) wacz_bytes) (\<lambda>limit.
        if down > limit then
          over_limit V kProxy (''net_limit: proxy downstream bytes '' @ int_to_string down @
            '' exceeded post-run limit '' @ int_to_string limit) exchange stdout
        else and_then (seed_error V exchange) (\<lambda>err.
          Returns \<lparr>ra_error = err, ra_stdout_log = stdout, ra_stderr_log = [], ra_wacz = Some wacz,
            ra_pages_jsonl = Some pages, ra_content_sha256 = Some sha, ra_replay_url = Some (ex_final_url exchange)\<rparr>))))"

definition build_archive ::
    "('u, 'z) vendor_scheme \<Rightarrow> 'w archive_writer \<Rightarrow> artifact_env \<Rightarrow> nat \<Rightarrow> CrawlerRunner \<Rightarrow> RunRequest \<Rightarrow>
     CaptureWithNetwork \<Rightarrow> CrawlerRunArtifacts outcome" where
  "build_archive V W A n R run captured =
     (let exchange = cn_exchange captured; pages = MakePagesJsonl A exchange; sha = ComputeContentSha256 A exchange;
          stdout = MakeSuccessStdoutLog run exchange 0 ReusedNo in
      and_then (MakeWarc V W A n exchange) (\<lambda>warc.
        case warc of
          Inl err \<Rightarrow> Returns (fail_artifact V err)
        | Inr warc \<Rightarrow>
            and_then (MakeWacz V W A run pages warc stdout []) (\<lambda>wacz.
              case wacz of
                Inl err \<Rightarrow> Returns (fail_artifact V err)
              | Inr bytes \<Rightarrow> within_limits V R captured stdout pages sha bytes)))"

section \<open>A run\<close>

text \<open>The configuration of the browser session; its times are milliseconds.\<close>

definition browser_config ::
    "CrawlerRunner \<Rightarrow> runner_config \<Rightarrow> string \<Rightarrow> int \<Rightarrow> int \<Rightarrow> BrowserSessionConfig" where
  "browser_config R cfg state_dir max_down_bytes payload =
     (let t = runner_tunables R in
      \<lparr>bc_url_bytes_max = UrlBytesMax cfg, proxy_down_bytes_max = max_down_bytes, browser_runs_root = runner_runs_root R,
       cgroup_root_path = runner_cgroup_root R, cgroup_limits = runner_limits R,
       local_fixture_trust_db_source_path = LocalFixtureTrustDbSourcePath state_dir,
       devtools_startup_timeout = tn_devtools_startup_timeout t * 1000, cdp_handshake_timeout = tn_cdp_handshake_timeout t * 1000,
       cdp_command_timeout = tn_cdp_command_timeout t * 1000, devtools_poll_interval = tn_devtools_poll_interval t,
       browser_stop_timeout = tn_browser_stop_timeout t, cdp_max_remote_payload_bytes = payload,
       proxy_require_auth = True, local_fixture_rewrite = tn_enable_local_fixture_rewrite t, loopback_ports = [],
       cgroup_name_prefix = ''webshotd_crawler'', bc_metrics = True\<rparr>)"

text \<open>\<open>cancelled\<close> is \<open>IsCancelRequested\<close> when an exception is caught.\<close>

definition ExecuteRun ::
    "('u, 'z) vendor_scheme \<Rightarrow> 'w archive_writer \<Rightarrow> artifact_env \<Rightarrow> nat \<Rightarrow> 'j capture_env \<Rightarrow> 'j drive_env \<Rightarrow>
     CrawlerRunner \<Rightarrow> runner_config \<Rightarrow> string \<Rightarrow> capture_plan \<Rightarrow> capture_rounds \<Rightarrow> nat \<Rightarrow> 'j interference \<Rightarrow>
     'j capture_others \<Rightarrow> bool \<Rightarrow> bw \<Rightarrow> CrawlerRunArtifacts outcome \<times> bw" where
  "ExecuteRun V W A n X D R cfg state_dir plan rounds me I J cancelled w =
     catching
       (next_do (down_limit (network_down_bytes_ratio_max R) (max_archive_bytes R), w) (\<lambda>max_down_bytes w.
        next_do (ComputeCdpMaxRemotePayloadBytes (max_archive_bytes R), w) (\<lambda>payload w.
        next_do (CaptureViaProxy V X D cfg (browser_config R cfg state_dir max_down_bytes payload) plan rounds me I J w)
          (\<lambda>captured w.
            case captured of
              Inl f \<Rightarrow> (Returns (fail_capture V f), w)
            | Inr c \<Rightarrow> (build_archive V W A n R \<lparr>run_seed_url = cap_seed_url plan\<rparr> c, w)))))
       (\<lambda>what w. if cancelled then (Throws what, w) else (Returns (fail_exception V what), w))"

definition Run ::
    "('u, 'z) vendor_scheme \<Rightarrow> 'w archive_writer \<Rightarrow> artifact_env \<Rightarrow> nat \<Rightarrow> 'j capture_env \<Rightarrow> 'j drive_env \<Rightarrow>
     CrawlerRunner \<Rightarrow> runner_config \<Rightarrow> string \<Rightarrow> capture_rounds \<Rightarrow> nat \<Rightarrow> 'j interference \<Rightarrow> 'j capture_others \<Rightarrow> bool \<Rightarrow>
     string \<Rightarrow> bw \<Rightarrow> CrawlerRunArtifacts outcome \<times> bw" where
  "Run V W A n X D R cfg state_dir rounds me I J cancelled seed_url w =
     ExecuteRun V W A n X D R cfg state_dir
       \<lparr>cap_timings = runner_timings R, cap_deadline = Some (engine_now D 0 + run_timeout R * 1000000000),
        cap_seed_url = seed_url, cap_max_archive_bytes = max_archive_bytes R\<rparr> rounds me I J cancelled w"

section \<open>What a run gives back\<close>

text \<open>
  What \<open>TryStoreSuccess\<close> of \<open>crud.cpp\<close> insists on: a run without error has an archive, a hash and the address it
  ended at.  An archive is never over the limits.
\<close>

definition run_result_ok :: "artifact_env \<Rightarrow> CrawlerRunner \<Rightarrow> CrawlerRunArtifacts \<Rightarrow> bool" where
  "run_result_ok A R out \<longleftrightarrow>
     (case ra_wacz out of
        None \<Rightarrow> ra_error out \<noteq> None \<and> ra_content_sha256 out = None \<and> ra_pages_jsonl out = None \<and> ra_replay_url out = None
      | Some bytes \<Rightarrow>
          int (length bytes) \<le> max_archive_bytes R \<and> ra_pages_jsonl out \<noteq> None \<and>
          (\<exists>(c :: CaptureWithNetwork) limit. ra_content_sha256 out = Some (ComputeContentSha256 A (cn_exchange c)) \<and>
             ra_replay_url out = Some (ex_final_url (cn_exchange c)) \<and>
             (ra_error out = None \<longleftrightarrow> ex_status (cn_exchange c) < 400) \<and>
             final_down_limit (network_down_bytes_ratio_max R) (int (length bytes)) = Returns limit \<and>
             cn_proxy_down_bytes c \<le> limit))"

lemma sum_caseE:
  assumes "(case v of Inl x \<Rightarrow> f x | Inr y \<Rightarrow> g y) = r"
  obtains x where "v = Inl x" and "f x = r" | y where "v = Inr y" and "g y = r"
  using assms by (cases v) auto

lemma no_archive_ok [simp]: "run_result_ok A R (no_archive err a b)"
  by (simp add: run_result_ok_def no_archive_def)

lemma failed_run_ok [simp]: "run_result_ok A R (fail_artifact V e)" "run_result_ok A R (fail_capture V f)" "run_result_ok A R (fail_exception V what)"
  by (simp_all add: fail_artifact_def fail_capture_def fail_exception_def Let_def split: prod.split)

lemma over_limit_ok: "over_limit V k d x t = Returns out \<Longrightarrow> run_result_ok A R out"
  by (auto simp: over_limit_def and_then_Returns_iff)

lemma seed_error_kind: "seed_error V x = Returns e \<Longrightarrow> e = None \<longleftrightarrow> ex_status x < 400"
  by (auto simp: seed_error_def Let_def and_then_Returns_iff split: if_splits)

lemma archive_ok:
  fixes c :: CaptureWithNetwork
  assumes "int (length bytes) \<le> max_archive_bytes R"
    and "final_down_limit (network_down_bytes_ratio_max R) (int (length bytes)) = Returns limit"
    and "cn_proxy_down_bytes c \<le> limit" and "e = None \<longleftrightarrow> ex_status (cn_exchange c) < 400"
  shows "run_result_ok A R \<lparr>ra_error = e, ra_stdout_log = t, ra_stderr_log = [], ra_wacz = Some bytes, ra_pages_jsonl = Some p,
      ra_content_sha256 = Some (ComputeContentSha256 A (cn_exchange c)), ra_replay_url = Some (ex_final_url (cn_exchange c))\<rparr>"
  using assms by (auto simp: run_result_ok_def)

lemma within_limits_ok:
  assumes "within_limits V R c t p (ComputeContentSha256 A (cn_exchange c)) bytes = Returns out"
  shows "run_result_ok A R out"
  using assms unfolding within_limits_def ssize_def Let_def and_then_Returns_iff
  by (elim exE conjE) (auto simp: and_then_Returns_iff intro: over_limit_ok archive_ok dest: seed_error_kind split: if_splits)

lemma build_archive_ok: "build_archive V W A n R run c = Returns out \<Longrightarrow> run_result_ok A R out"
  by (auto simp: build_archive_def Let_def and_then_Returns_iff intro: within_limits_ok elim!: sum_caseE)

lemma catching_Returns:
  assumes "catching r h = (Returns v, s)"
  obtains "r = (Returns v, s)" | what s1 where "r = (Throws what, s1)" and "h what s1 = (Returns v, s)"
  using assms by (auto simp: catching_def split: prod.splits outcome.splits)

lemma ExecuteRun_ok:
  assumes "ExecuteRun V W A n X D R cfg state_dir plan rounds me I J cancelled w = (Returns out, w')"
  shows "run_result_ok A R out"
  using assms unfolding ExecuteRun_def
proof (cases rule: catching_Returns)
  case 1
  then show ?thesis
    by (auto simp: next_do_Returns_iff intro: build_archive_ok elim!: sum_caseE)
next
  case (2 what s1)
  then show ?thesis by (auto split: if_splits)
qed

lemma run_result_stored:
  assumes "run_result_ok A R out" and "\<forall>s. length (Sha256 A s) = 32" and "try_store_success V ctx out = Aborts why"
  shows "why = ''empty optional'' \<and> Url_FromText V (the (ra_replay_url out)) = None"
proof -
  have "length (ComputeContentSha256 A x) = 32" for x
    using assms(2) by (simp add: ComputeContentSha256_def Sha256Bytes_def Let_def)
  with assms(1,3) show ?thesis
    by (auto simp: run_result_ok_def try_store_success_def Invariant_def split: option.splits if_splits)
qed

text \<open>An exception leaves a run only when it is cancelled.\<close>

lemma ExecuteRun_throws:
  assumes "ExecuteRun V W A n X D R cfg state_dir plan rounds me I J cancelled w = (Throws what, w')"
  shows "cancelled"
  using assms by (auto simp: ExecuteRun_def catching_def split: prod.splits outcome.splits if_splits)

text \<open>What a run does to the surroundings is what its capture does.\<close>

lemma ExecuteRun_world:
  assumes "ExecuteRun V W A n X D R cfg state_dir plan rounds me I J cancelled w = (r, w')"
  shows "w' = w \<or> (\<exists>bcfg q. CaptureViaProxy V X D cfg bcfg plan rounds me I J w = (q, w') \<and>
    ((\<forall>why. r \<noteq> Aborts why) \<longrightarrow> (\<forall>why. q \<noteq> Aborts why)))"
proof (cases "w' = w")
  case False
  then obtain q where "\<exists>bcfg. CaptureViaProxy V X D cfg bcfg plan rounds me I J w = (q, w')"
    and "(\<forall>why. r \<noteq> Aborts why) \<longrightarrow> (\<forall>why. q \<noteq> Aborts why)"
    using assms by (auto simp: ExecuteRun_def catching_def next_do_def
      split: prod.splits outcome.splits sum.splits if_splits)
  then show ?thesis by blast
qed simp

lemma ExecuteRun_leaves_nothing:
  assumes "ExecuteRun V W A n X D R cfg state_dir plan rounds me I J cancelled w = (r, w')" and "others_hold kept_hold J"
    and "\<forall>why. r \<noteq> Aborts why"
  shows "children w' = children w \<and> mset (browser_cgroups (service w')) = mset (browser_cgroups (service w))"
  using ExecuteRun_world [OF assms(1)] CaptureViaProxy_leaves_nothing [OF _ assms(2)] assms(3) by blast

text \<open>The runner as \<open>crud.cpp\<close> calls it, with the rest of the surroundings as they are when a run starts.\<close>

definition crawl ::
    "(string \<Rightarrow> bw \<Rightarrow> CrawlerRunArtifacts outcome \<times> bw) \<Rightarrow> bw \<Rightarrow> string \<Rightarrow> CrawlerRunArtifacts act" where
  "crawl run b seed w = (let (r, b') = run seed (b\<lparr>service := w\<rparr>) in (r, service b'))"

lemma ExecuteRun_tables:
  assumes "others_hold kept_tables J"
  shows "tables_same (service w) (service (snd (ExecuteRun V W A n X D R cfg state_dir plan rounds me I J cancelled w)))"
proof -
  obtain r w' where e: "ExecuteRun V W A n X D R cfg state_dir plan rounds me I J cancelled w = (r, w')" by fastforce
  have "tables_same (service w) (service w')" if "CaptureViaProxy V X D cfg bcfg plan rounds me I J w = (q, w')" for bcfg q
    using CaptureViaProxy_tables [OF assms, of w V X D cfg bcfg plan rounds me I] that by simp
  then show ?thesis using ExecuteRun_world [OF e] tables.refl by (auto simp: e)
qed

lemma Run_contract:
  assumes "others_hold kept_tables J"
  shows "crawler_contract (crawl (Run V W A n X D R cfg state_dir rounds me I J cancelled) b)"
  using ExecuteRun_tables [OF assms, of "b\<lparr>service := w\<rparr>" for w]
  by (auto simp: crawler_contract_def keeps_def crawl_def Run_def case_prod_unfold Let_def)

text \<open>The products stay within the type: neither limit overflows.\<close>

lemma down_limit_total:
  assumes "0 \<le> ratio" and "0 < bytes" and "in_range i64_t ratio" and "in_range i64_t bytes"
  shows "down_limit ratio bytes = Returns (min (ratio * bytes) (2 ^ 63 - 1))"
proof -
  have q: "(2 ^ 63 - 1 :: int) sdiv bytes = (2 ^ 63 - 1) div bytes"
    using assms(2) by (simp add: signed_divide_int_def)
  have d: "(2 ^ 63 - 1 :: int) div bytes \<le> 2 ^ 63 - 1" "0 \<le> (2 ^ 63 - 1 :: int) div bytes"
    using assms(2) zdiv_mono2 [of "2 ^ 63 - 1" 1 bytes] by (simp_all add: pos_imp_zdiv_nonneg_iff)
  have max: "int_max i64_t = 2 ^ 63 - 1" by (simp add: int_max_def i64_t_def)
  have "ratio \<le> (2 ^ 63 - 1) div bytes \<longleftrightarrow> ratio * bytes \<le> 2 ^ 63 - 1"
  proof
    assume "ratio \<le> (2 ^ 63 - 1) div bytes"
    then have "ratio * bytes \<le> (2 ^ 63 - 1) div bytes * bytes" using assms(2) by (intro mult_right_mono) auto
    also have "\<dots> \<le> 2 ^ 63 - 1"
      using div_mult_mod_eq [of "2 ^ 63 - 1" bytes] pos_mod_sign [OF assms(2), of "2 ^ 63 - 1"] by linarith
    finally show "ratio * bytes \<le> 2 ^ 63 - 1" .
  next
    assume "ratio * bytes \<le> 2 ^ 63 - 1"
    from zdiv_mono1 [OF this assms(2)] assms(2) show "ratio \<le> (2 ^ 63 - 1) div bytes" by simp
  qed
  then show ?thesis
    using assms d q max order_trans [of "- (2 ^ 63)" 0 "ratio * bytes"]
    by (auto simp: down_limit_def i64_div_def i64_mul_def safe_i64_def and_then_def in_range_types)
qed

end
