(* ===== verification/Example_Crawl.thy ===== *)
theory Example_Crawl
  imports Crawler_Runner Example_Cdp Example_Service Example_Archive
begin

text \<open>
  Concrete surroundings of a crawl, on which the theorems about the browser session, the capture and the runner
  are applied: a browser that ends at once, pages of the debugging protocol, and an intercepted request.
\<close>

definition example_b_env :: b_env where
  "example_b_env = \<lparr>fs_fault = (\<lambda>_. None), outside = (\<lambda>_ f. f), proc_exited = (\<lambda>_. True), proxy_tasks = (\<lambda>_ p. p),
     bind_fault = (\<lambda>_. None), timestring = (\<lambda>_. ''now''), generated_uuid = (\<lambda>_. ''run''), dir_fd = (\<lambda>_. 5),
     cdp_socket = (\<lambda>_. example_connect), crypto = example_crypto, strip_trailing = (\<lambda>s. s), sandbox_script = ''script'',
     closure_paths = [''/nix/a''], sandbox_path_env = ''/bin'', bwrap_wrapper = ''bwrap'', fontconfig_file = [],
     seccomp_ready = True, syscall_known = (\<lambda>_. True), rule_add_rc = (\<lambda>_. 0), export_rc = 0,
     seccomp_bytes = (\<lambda>_. ''bpf'')\<rparr>"

definition example_bw :: "world \<Rightarrow> bw" where
  "example_bw w = \<lparr>bfiles = (\<lambda>_. None), bdirs = [], bcalls = 0, service = w, spawned = [], children = 0, signals = []\<rparr>"

definition example_page_env :: "ejson page_env" where
  "example_page_env = \<lparr>create_context_result = (\<lambda>_. Some ''C''), create_target_params = (\<lambda>_. Some (EInt 0)),
     create_target_result = (\<lambda>_. Some ''T''), attach_params = (\<lambda>_. Some (EInt 0)), attach_result = (\<lambda>_. Some ''S''),
     detach_params = (\<lambda>_. Some (EInt 0)), dispose_params = (\<lambda>_. Some (EInt 0)), lifecycle_params = (\<lambda>_. Some (EInt 0)),
     empty_result = (\<lambda>_. Some ()), phase_callback = (\<lambda>_. Returns ())\<rparr>"

definition request_event :: NetworkRequestWillBeSentEvent where
  "request_event = \<lparr>ws_requestId = ''R'', ws_loaderId = Some ''L'', ws_frameId = Some ''F'', ws_type = Some ''Document'',
     ws_url = ''https://x.ads.com/p'', ws_method = ''GET'', ws_redirectResponse = None\<rparr>"

definition response_event :: NetworkResponseReceivedEvent where
  "response_event = \<lparr>rr_requestId = ''R'', rr_loaderId = Some ''L'', rr_type = Some ''Document'',
     rr_response = \<lparr>nr_status = Some 200, nr_status_text = Some ''OK'', nr_headers = None\<rparr>\<rparr>"

text \<open>Events carry a name here, and reading them gives the event of that name.\<close>

definition example_tracker_env :: "ejson tracker_env" where
  "example_tracker_env = \<lparr>ev_member = (\<lambda>_ _. None), ev_string = ejson_string, as_target_crashed = (\<lambda>_. Returns None),
     as_request_will_be_sent = (\<lambda>v. if v = EString ''request'' then Some request_event else None),
     as_response_received = (\<lambda>v. if v = EString ''response'' then Some response_event else None),
     as_loading_finished = (\<lambda>_. Some ''R''), as_loading_failed = (\<lambda>_. None)\<rparr>"

definition example_clocks :: clocks where
  "example_clocks = \<lparr>utc_now = ''now'', steady_now = 0\<rparr>"

definition network_event :: "string \<Rightarrow> string \<Rightarrow> ejson CdpEvent" where
  "network_event m name = \<lparr>ev_method = m, ev_params = Some (EString name), ev_session_id = Some ''S''\<rparr>"

definition example_body_env :: "ejson body_env" where
  "example_body_env = \<lparr>get_body_params = (\<lambda>_. Some (EInt 0)), get_body_result = (\<lambda>_. None),
     sort_resources = sort_key rs_timestamp\<rparr>"

definition example_capture_env :: "ejson capture_env" where
  "example_capture_env = \<lparr>cap_cdp_env = example_cdp_env, cap_page_env = example_page_env,
     cap_tracker_env = example_tracker_env, cap_body_env = example_body_env, cap_browser_env = example_b_env,
     cap_clocks = (\<lambda>_. example_clocks), as_auth_required = (\<lambda>_. Some (''A'', Some ''Server'')),
     as_request_paused = (\<lambda>v. case v of EString u \<Rightarrow> Some (''Q'', u) | _ \<Rightarrow> None),
     fetch_value = (\<lambda>_. Some (EInt 0)), fetch_result = (\<lambda>_. Some ()), base64_encode = (\<lambda>s. s)\<rparr>"

definition example_drive_env :: "ejson drive_env" where
  "example_drive_env = \<lparr>evaluate_params = (\<lambda>_. Some (EInt 0)), dom_state_result = (\<lambda>_. None), value_result = (\<lambda>_. Some ()),
     enable_fetch_params = (\<lambda>_. Some (EInt 0)), cache_params = (\<lambda>_. Some (EInt 0)), bypass_params = (\<lambda>_. Some (EInt 0)),
     extra_headers_params = (\<lambda>_. Some (EInt 0)), frame_tree_result = (\<lambda>_. Some ''F''), navigate_params = (\<lambda>_. Some (EInt 0)),
     navigate_result = (\<lambda>_. Some (None, Some ''L'')), engine_now = (\<lambda>_. 0), page_uuid = ''page''\<rparr>"

definition example_runner_cfg :: runner_config where
  "example_runner_cfg = \<lparr>link_ratelimit = 60000000000, crawl_job_retention = 86400000000000,
     HttpsOnly = False, S3Bucket = ''b'', purge_delete_batch_size = 2, UrlBytesMax = 100, AllowlistOnly = False\<rparr>"

definition example_runner :: CrawlerRunner where
  "example_runner = \<lparr>run_timeout = 60, runner_runs_root = ''/runs'', runner_cgroup_root = ''/g'',
     runner_limits = Some \<lparr>cl_cpu_cores = 1, cl_memory_bytes = 1\<rparr>, max_archive_bytes = 1000,
     runner_timings = \<lparr>post_load_delay = 0, net_idle_wait = 0, page_extra_delay = 0, behavior_timeout = 0\<rparr>,
     runner_tunables = \<lparr>tn_devtools_startup_timeout = 1, tn_cdp_handshake_timeout = 1, tn_cdp_command_timeout = 1,
       tn_devtools_poll_interval = 1, tn_browser_stop_timeout = 1, tn_proxy_stop_timeout = 1,
       tn_enable_local_fixture_rewrite = False\<rparr>, network_down_bytes_ratio_max = 3\<rparr>"

definition example_rounds :: capture_rounds where
  "example_rounds = \<lparr>devtools_polls = 1, startup_deadline = Some 1000000000, connect_tries = 1, load_rounds = 0,
     idle_rounds = [], document_rounds = 0\<rparr>"

section \<open>An intercepted request\<close>

text \<open>A session with an event that says a request is paused, and a service in which its address is denied.\<close>

definition paused_event :: "ejson CdpEvent" where
  "paused_event = \<lparr>ev_method = ''Fetch.requestPaused'', ev_params = Some (EString ''https://x.ads.com/p''), ev_session_id = Some ''S''\<rparr>"

definition paused_client :: "ejson cdp" where
  "paused_client = deliver_section 0 paused_event (snd (open_section ''S'' ''T'' fresh_client))"

definition attached_page :: page where
  "attached_page = new_page\<lparr>lifecycle := AttachedState, browser_context_id := Some ''C'', target_id := Some ''T'',
     session_id := Some ''S'', cdp_session := Some \<lparr>cs_session_id = ''S'', cs_target_id = ''T'', cs_ref = 0\<rparr>\<rparr>"

definition browser_of :: BrowserSessionConfig where
  "browser_of = browser_config example_runner example_runner_cfg ''/state'' 3000 2098485"

definition paused_capture :: "ejson capture" where
  "paused_capture = (CaptureSession (BrowserSession browser_of, example_bw (denied_world ''com.ads'')))
     \<lparr>cap_cdp := Some paused_client, cap_page := Some attached_page\<rparr>"

definition paused_run :: "unit outcome \<times> ejson capture" where
  "paused_run = RunEventLoop example_vendor example_capture_env example_runner_cfg 0 (\<lambda>n s. s) (\<lambda>k s. s) 1 paused_capture"

lemma example_marks [simp]: "marks_ok example_page_env"
  by (simp add: marks_ok_def example_page_env_def)

lemma fresh_client_ok [simp]: "cdp_ok fresh_client"
  by (rule reached_ok [OF fresh_client_reached])

lemma nobody_keeps [simp]: "others_keep V (\<lambda>k s. s)"
  by (simp add: others_keep_def same_logs_def)

lemma paused_run_events: "events_seen (snd paused_run) = [paused_event]"
proof -
  have "\<exists>s1. with_client (\<lambda>c. WaitEvent (\<lambda>n s. s) c ''timed out waiting for cdp event'') (observe (\<lambda>k s. s) paused_capture) =
      (Returns (Inr paused_event), s1) \<and> events_seen s1 = []"
    by (simp add: with_client_def next_do_def observe_def paused_capture_def Capture_GetSession_def GetSession_def attached_page_def
        new_page_def GetCdpClient_def WaitEvent_def WaitForSessionEvent_def enter_def wait_section_def paused_client_def
        deliver_section_def open_section_def fresh_client_def StartReaderTask_def new_client_def CaptureSession_def Let_def)
  then obtain s1 where w: "with_client (\<lambda>c. WaitEvent (\<lambda>n s. s) c ''timed out waiting for cdp event'') (observe (\<lambda>k s. s) paused_capture) =
      (Returns (Inr paused_event), s1)" and e: "events_seen s1 = []" by blast
  obtain r s2 where h: "HandleSessionEvent example_vendor example_capture_env example_runner_cfg 0 (\<lambda>n s. s) paused_event
      (s1\<lparr>events_seen := events_seen s1 @ [paused_event]\<rparr>) = (r, s2)" by fastforce
  have "events_seen s2 = [paused_event]"
    using HandleSessionEvent_handled [of example_vendor example_capture_env example_runner_cfg paused_event
        "s1\<lparr>events_seen := events_seen s1 @ [paused_event]\<rparr>" 0 "\<lambda>n s. s"] h e by (simp add: handled_def)
  then show ?thesis
    by (cases r) (simp_all add: paused_run_def next_do_def w h NoteEventProgress_def Let_def)
qed

section \<open>Runs\<close>

lemma nobody_holds [simp]: "others_hold kept_hold (\<lambda>k s. s)" "others_hold kept_tables (\<lambda>k s. s)"
  by (simp_all add: others_hold_def held.kept_refl tabled.kept_refl)

text \<open>No file can be written: the run fails before the browser is started.\<close>

definition full_disk_env :: "ejson capture_env" where
  "full_disk_env = example_capture_env\<lparr>cap_browser_env := example_b_env\<lparr>fs_fault := (\<lambda>_. Some ''disk full'')\<rparr>\<rparr>"

definition full_disk_run :: "CrawlerRunArtifacts outcome \<times> bw" where
  "full_disk_run = Run example_vendor example_writer example_artifact_env 0 full_disk_env example_drive_env example_runner
     example_runner_cfg ''/state'' example_rounds 0 (\<lambda>n s. s) (\<lambda>k s. s) False ''https://x.ads.com/p'' (example_bw example_world)"

lemma example_limits:
  "down_limit (network_down_bytes_ratio_max example_runner) (max_archive_bytes example_runner) = Returns 3000"
  "ComputeCdpMaxRemotePayloadBytes (max_archive_bytes example_runner) = Returns 2098485"
  by (simp_all add: example_runner_def down_limit_total in_range_types ComputeCdpMaxRemotePayloadBytes_def i64_mul_def
      i64_div_def i64_add_def safe_i64_def and_then_def kCdpWsPayloadSlackBytes_def signed_divide_int_def)

lemma full_disk_start:
  "Make_browser example_vendor (cap_browser_env full_disk_env) n t cfg w = (Throws ''disk full'', (BrowserSession cfg)\<lparr>b_proxy := None\<rparr>, tick_b (cap_browser_env full_disk_env) w)"
  by (simp add: Make_browser_def Start_browser_def MakeBrowserPaths_def on_world_def next_do_def full_disk_env_def
      CreateDirectories_def fs_call_def example_b_env_def example_capture_env_def BrowserSession_def destroy_browser_def unregister_cgroup_def
      StopProcess_def no_throw_def stop_and_remove_def no_paths_def Let_def)

lemma full_disk_fails: "\<exists>w. full_disk_run = (Returns (fail_exception example_vendor ''disk full''), w)"
  by (simp add: full_disk_run_def Run_def ExecuteRun_def example_limits next_do_def CaptureViaProxy_def full_disk_start catching_def)

section \<open>A main document\<close>

definition tracker0 :: tracker where
  "tracker0 = \<lparr>pt_session_id = ''S'', pt_target_id = ''T'', page_id = ''page'', active_requests = [], redirected_resources = [],
     redirect_chain = [], main_document_redirects = [], inflight = {}, main_request_id = None,
     main_response_request_id = None, main_loader_id = None, main_frame_id = None, seed_navigation_url = None,
     completed_main_request = None, pt_loaded = False, seed_navigation_started = False, main_request_error = None,
     last_network_at = 0\<rparr>"

definition tracker1 :: tracker where
  "tracker1 = BeginSeedNavigation ''https://x.ads.com/p'' (SetMainFrameId ''F'' tracker0)"

definition tracker2 :: tracker where
  "tracker2 = (case HandleEvent example_vendor example_tracker_env example_clocks
     (network_event ''Network.requestWillBeSent'' ''request'') tracker1 of Returns d \<Rightarrow> d | _ \<Rightarrow> tracker0)"

definition tracker3 :: tracker where
  "tracker3 = (case HandleEvent example_vendor example_tracker_env example_clocks
     (network_event ''Network.responseReceived'' ''response'') tracker2 of Returns d \<Rightarrow> d | _ \<Rightarrow> tracker0)"

lemma tracker0: "PageTracker example_vendor ''page'' example_clocks ''S'' ''T'' = Returns tracker0"
  by (simp add: tracker0_def PageTracker_def GeneratePageId_def example_deref is_ascii_def and_then_def example_clocks_def)

lemma tracker2: "HandleEvent example_vendor example_tracker_env example_clocks
     (network_event ''Network.requestWillBeSent'' ''request'') tracker1 = Returns tracker2"
proof -
  have "case HandleEvent example_vendor example_tracker_env example_clocks
     (network_event ''Network.requestWillBeSent'' ''request'') tracker1 of Returns d \<Rightarrow> True | _ \<Rightarrow> False" by code_simp
  then show ?thesis by (simp add: tracker2_def split: outcome.splits)
qed

lemma tracker3: "HandleEvent example_vendor example_tracker_env example_clocks
     (network_event ''Network.responseReceived'' ''response'') tracker2 = Returns tracker3"
proof -
  have "case HandleEvent example_vendor example_tracker_env example_clocks
     (network_event ''Network.responseReceived'' ''response'') tracker2 of Returns d \<Rightarrow> True | _ \<Rightarrow> False" by code_simp
  then show ?thesis by (simp add: tracker3_def split: outcome.splits)
qed

definition tracker4 :: tracker where
  "tracker4 = (case HandleEvent example_vendor example_tracker_env example_clocks
     (network_event ''Network.loadingFinished'' ''finished'') tracker3 of Returns d \<Rightarrow> d | _ \<Rightarrow> tracker0)"

lemma tracker4: "HandleEvent example_vendor example_tracker_env example_clocks
     (network_event ''Network.loadingFinished'' ''finished'') tracker3 = Returns tracker4"
proof -
  have "case HandleEvent example_vendor example_tracker_env example_clocks
     (network_event ''Network.loadingFinished'' ''finished'') tracker3 of Returns d \<Rightarrow> True | _ \<Rightarrow> False" by code_simp
  then show ?thesis by (simp add: tracker4_def split: outcome.splits)
qed

lemma tracker4_document: "HasMainDocumentOrError tracker4 \<and> main_request_error tracker4 = None"
  by code_simp

lemma tracker4_steps: "tracker_steps example_vendor example_tracker_env True tracker0 tracker4"
proof -
  note steps = tracker_step.event [where V = example_vendor and T = example_tracker_env and g = True]
  have "tracker_steps example_vendor example_tracker_env True tracker0 tracker1"
    unfolding tracker1_def by (meson tracker_step.frame tracker_step.seed r_into_rtranclp rtranclp_trans)
  also have "tracker_step example_vendor example_tracker_env True tracker1 tracker2"
    by (rule steps [OF tracker2])
      (simp add: keeps_ids_def network_event_def example_tracker_env_def own_id_def tracker1_def tracker0_def
        BeginSeedNavigation_def SetMainFrameId_def)
  also have "tracker_step example_vendor example_tracker_env True tracker2 tracker3"
    by (rule steps [OF tracker3]) (simp add: keeps_ids_def network_event_def)
  also have "tracker_step example_vendor example_tracker_env True tracker3 tracker4"
    by (rule steps [OF tracker4]) (simp add: keeps_ids_def network_event_def)
  finally show ?thesis .
qed

end
