(* ===== verification/Spec2Isabelle.thy ===== *)
theory Spec2Isabelle
  imports Example_Service Example_Proxy Example_Archive Example_S3 Example_Cdp Example_Crawl
begin

text \<open>
  A verification development for \<open>webshotd\<close>, the daemon under \<open>src/webshotd\<close> that captures web
  pages on request, stores the captures and lists them.

  \<^bold>\<open>The program.\<close>  Requests reach \<open>Crud\<close> (\<open>src/crud.cpp\<close>) through HTTP handlers.  A capture
  request is parsed to a link, checked against the access policy (\<open>access_policy.cpp\<close>: deny and
  allow lists of prefix keys, held in Postgres as \<open>ltree\<close>), recorded as a crawl job in the shared
  state database (\<open>shared_state_repo.cpp\<close>), and served by a background task that crawls, uploads the
  archive to S3 and inserts the metadata (\<open>capture_meta_repo.cpp\<close>).  Captures are listed by link or by
  prefix with page tokens (\<open>cursor.cpp\<close>, \<open>pagination.cpp\<close>, \<open>prefix_pagination.cpp\<close>); denying a prefix
  also purges what was captured under it.  The crawler runs a sandboxed browser whose only way to
  the network is a proxy inside the daemon (\<open>crawler/egress_proxy.cpp\<close>).

  \<^bold>\<open>The theories.\<close>
  \<^item> \<open>Prelude\<close>, \<open>Vendor\<close>: results and outcomes (\<open>expected.hpp\<close>, \<open>try.hpp\<close>, \<open>invariant.hpp\<close>), the C++
    string library, and the third-party code as a record of functions with its documented contracts.
  \<^item> \<open>Text\<close>, \<open>Integers\<close>, \<open>Ip\<close>, \<open>Url\<close>, \<open>Link\<close>, \<open>Prefix_Utils\<close>: the value types, from \<open>include/text.hpp\<close>,
    \<open>integers.hpp\<close>, \<open>ip.hpp\<close>, \<open>src/url.cpp\<close>, \<open>link.cpp\<close>, \<open>prefix_utils.cpp\<close>.
  \<^item> \<open>Database\<close>: the world (the four tables, the object store, counters, clocks, the faults of each call),
    operations as functions of the world, and the locale \<open>guarantee\<close>: a relation every elementary
    call respects holds across operations composed of them.
  \<^item> \<open>Shared_State_Repo\<close>, \<open>Capture_Meta_Repo\<close>, \<open>Access_Policy\<close>: the repositories with their SQL
    statements as functions on the tables.  The locales \<open>prefix_store\<close> (what a check answers after an
    insert) and \<open>ordered_source\<close> (what a keyset query selects) are interpreted on both lists and on
    both listings.
  \<^item> \<open>Pagination\<close>, \<open>Crud_Paging\<close>: cursors, tokens, and the two listings of \<open>Crud\<close>.
  \<^item> \<open>Cgroup_Stats\<close>, \<open>Crawler_Error\<close>, \<open>Crud_Jobs\<close>, \<open>Crud_Correct\<close>, \<open>Capture_Storage\<close>, \<open>Crud_Requests\<close>:
    the jobs of \<open>crud.cpp\<close>, from the request to the stored capture, the purge and the cleanup.
  \<^item> \<open>Service\<close>: the system as a step relation, each step a statement one operation runs; every
    operation of the model is shown to be a sequence of such steps, under any faults, so invariants of
    the steps hold in all interleavings.
  \<^item> \<open>Egress_Request\<close>, \<open>Egress_Proxy\<close>, \<open>Egress_Correct\<close>: the proxy.  A client task has a state record,
    sockets and the resolver are functions of the environment, and the other tasks are an interference
    function on the shared members, applied before each access to them.  The locale \<open>task_relation\<close> lifts
    what the elementary actions respect to the loops; the shared byte budget is a step relation over
    its critical sections.
  \<^item> \<open>Browser_Lifecycle\<close>: the state machine of a browser page session.
  \<^item> \<open>Zip_Archive\<close>, \<open>Artifacts\<close>: the archives of \<open>src/arkhiv\<close> (libarchive is a record of functions with
    a contract for what is written and read back) and the files made of a crawl in
    \<open>crawler/artifacts.cpp\<close>: WARC records, their index, the package and the fingerprint.
  \<^item> \<open>S3_Sign\<close>, \<open>S3_Client\<close>, \<open>S3_Sts\<close>, \<open>Storage_Url\<close>: requests to the object store and their signatures
    (\<open>s3/sigv4_signer.cpp\<close>, \<open>s3/client.cpp\<close>), temporary credentials (\<open>s3/sts_client.cpp\<close>), query strings
    (\<open>s3/url_utils.cpp\<close>) and download addresses (\<open>storage_url.cpp\<close>).  The locale \<open>pair_text\<close> says when a
    text of name and value pairs determines the pairs, and is interpreted on percent-encoding.
  \<^item> \<open>Deadlines\<close>: \<open>include/deadline_utils.hpp\<close>.
  \<^item> \<open>Cdp_Client\<close>, \<open>Cdp_Handshake\<close>: the client of the browser's debugging protocol
    (\<open>crawler/cdp_client.cpp\<close>, \<open>cdp_request_tracker.hpp\<close>), opening its websocket included.  Each critical section is
    a function on the shared state, other tasks an interference function between them.
  \<^item> \<open>Cdp_Correct\<close>, \<open>Cdp_Tasks\<close>: the critical sections as a step relation with a history of labels, the
    invariants of commands, event queues and sessions (interpretations of the locale \<open>cdp_invariant\<close>), and
    every operation as a run of the steps when other tasks do any steps that use their own local
    variables only (\<open>others\<close>).
  \<^item> \<open>Safe_Integers\<close>: the checked casts and the aborting arithmetic of \<open>integers.hpp\<close>.
  \<^item> \<open>Browser_Page\<close>, \<open>Browser_Start\<close>, \<open>Browser_Correct\<close>: \<open>crawler/browser_session.cpp\<close>.  The page session is a record beside
    the protocol client; the browser session is a record beside the surroundings (files, directories, processes,
    signals and the world of the service), whose calls can fail at any point.  The sandbox arguments are read
    back the way \<open>bwrap\<close> reads them.
  \<^item> \<open>Runner_Url\<close>, \<open>Page_Tracker\<close>: the addresses and headers of captured requests and the tracker of the
    page's requests, from \<open>crawler/runner.cpp\<close>, with the invariant of its state over any events.
  \<^item> \<open>Capture_Session\<close>, \<open>Capture_Run\<close>, \<open>Capture_Correct\<close>: the capture session: its event loop with the interception of
    requests, and the main task from navigation to the exchange.  The locale \<open>session_kept\<close> lifts a relation that the
    elementary actions keep to a whole capture; it is interpreted on processes and control groups
    (\<open>held\<close>) and on the tables and objects of the service (\<open>tabled\<close>).
  \<^item> \<open>Crawler_Runner\<close>: \<open>ExecuteRun\<close> and \<open>Run\<close>, with the limits of a run and its result.
  \<^item> \<open>Example_Vendor\<close>, \<open>Example_Service\<close>, \<open>Example_Proxy\<close>, \<open>Example_Archive\<close>, \<open>Example_S3\<close>, \<open>Example_Cdp\<close>, \<open>Example_Crawl\<close>: a
    concrete instance of the third-party interface, worlds, a network, an archive format, an object store client,
    a browser and runs on which the theorems below are applied.

  \<^bold>\<open>Correspondence.\<close>  Definitions have the names of the C++ functions; a loop has a definition of its own
  beside the function that contains it.  \<open>Expected\<close> is a sum, an \<open>Invariant\<close> or an exception is a branch
  of \<open>outcome\<close>.  Times are nanoseconds as integers; 64-bit wrap-around is written out where the sources use
  plain integers, and the checked types are integers, with the overflow that ends the process where the limits
  of a run are computed.

  \<^bold>\<open>Loops and bounds.\<close>  Loops are total functions with a measure, with two kinds of bounds on the outside
  world: each completed round of a purge removes rows, which bounds their number, and a socket brings a
  finite list of events, an exhausted list standing for the deadline of the task.  The loop over the
  entries of an archive depends on the reader and is a \<open>partial_function\<close>; the round trip shows that it
  returns.  The waits of a crawl (for the browser's files, for a connection, for the page) and its event loop
  run until a deadline or a flag; how often they go round before it is an argument of the model, and what
  is shown holds for every such number.

  \<^bold>\<open>What is shown.\<close>  The properties below: the access policy and the encoding of prefixes it rests on;
  the invariants of all reachable worlds and the life of a job; what is stored and what a purge
  removes; the listings; links and addresses; the proxy; the page session; the files of a
  capture; the requests to the object store; the commands and events of the debugging protocol; the crawl:
  how intercepted requests are answered, that the exchange can be built, that a run leaves no process and no
  control group behind, the limits of its result, the sandbox, and that the crawler meets the contract
  under which the jobs were verified with any crawler.

  \<^bold>\<open>Not modelled.\<close>  Logging, tracing, task scheduling, the crawl-slot semaphore and the deadline of a job; the transport of
  HTTP requests, whose effect on the object store is in the world; the HTTP handlers, which only pass
  requests to \<open>Crud\<close>, and the browser probe, a handler for tests; configuration and start-up.  JSON, base64, hashes
  and UUIDs are parameters, and the program the browser runs is not part of the sources.
  Postgres statements, \<open>ltree\<close> and S3 are read from their documentation, with one database host.
\<close>

section \<open>Access policy\<close>

text \<open>
  C1: once \<open>InsertPrefix\<close> has answered, every key the prefix covers (the key itself, every key
  below it in the path, and for a bare host every subdomain) is reported as denied by every later
  check that gets an answer, whatever other requests and tasks did in between.
\<close>

theorem denied_prefix_covers_nested:
  assumes "hex_contract V" and "reachable V w"
    and "InsertPrefix V k why w = (Returns (Inr ()), w1)"
    and "service_steps V w1 w2"
    and "key_covers k key"
    and "IsDeniedPrefix V key w2 = (Returns (Inr denied), w3)"
  shows "denied"
proof -
  have ok: "prefix_rows_ok V (host_denylist w)" using reachable_ok [OF assms(2)] by (simp add: service_ok_def)
  have "service_steps V w w1"
    by (rule keepsD [OF shared_ops(6) InsertPrefix_present [OF assms(3)]])
  then have "service_ok V w2"
    using service_steps_ok assms(4) reachable_ok [OF assms(2)] by blast
  then have "prefix_rows_ok V (host_denylist w2)" by (simp add: service_ok_def)
  from deny.check_after_insert [OF assms(1) ok InsertPrefix_present [OF assms(3)] this
      denylist_grows_steps [OF assms(4)] assms(5)]
  show ?thesis using assms(6) unfolding IsDeniedPrefix_iff by blast
qed

theorem denied_prefix_covers_nested_witness:
  "exists_ancestor (host_denylist (denied_world ''com.ads'')) (MakePrefixTree example_vendor ''com.ads.x/p'')"
  by (rule denied_prefix_covers_nested [OF example_hex example_reachable InsertPrefix_example
      rtranclp.rtrancl_refl _ IsDeniedPrefix_healthy [OF denied_world_healthy(1)]])
    (simp add: key_covers_def)

text \<open>
  C2: with a working database the decision of \<open>EvaluatePrefix\<close> is the one the lists give: in the
  regular mode the allow list overrides the deny list and the rest is allowed; in the
  allow-list-only mode the deny list overrides the allow list and the rest is refused.  A list
  matches a key when one of its prefixes covers it (for keys whose segments have at most 127 bytes).
\<close>

theorem evaluate_prefix_exact:
  assumes "hex_contract V" and "reachable V w" and "db_healthy w"
    and "short_segments key"
    and "\<forall>k\<in>keys_of (host_denylist w) \<union> keys_of (host_allowlist w). short_segments k"
  shows "fst (EvaluatePrefix V key mode w) = Returns (Inr
    (if mode = kRegular then
       (if covered (host_allowlist w) key \<or> \<not> covered (host_denylist w) key
        then \<lparr>allowed = True, reason = kAllowed\<rparr> else \<lparr>allowed = False, reason = kDenylisted\<rparr>)
     else
       (if covered (host_denylist w) key then \<lparr>allowed = False, reason = kDenylisted\<rparr>
        else if covered (host_allowlist w) key then \<lparr>allowed = True, reason = kAllowed\<rparr>
        else \<lparr>allowed = False, reason = kNotAllowlisted\<rparr>)))"
proof -
  have ok: "prefix_rows_ok V (host_denylist w)" "prefix_rows_ok V (host_allowlist w)"
    using reachable_ok [OF assms(2)] by (simp_all add: service_ok_def)
  show ?thesis
    using exists_ancestor_covered [OF assms(1) ok(1) assms(4)]
      exists_ancestor_covered [OF assms(1) ok(2) assms(4)] assms(5)
    by (cases mode) (simp_all add: EvaluatePrefix_healthy [OF assms(3)])
qed

theorem evaluate_prefix_exact_witness:
  "fst (EvaluatePrefix example_vendor ''com.ads.x/p'' kRegular (denied_world ''com.ads'')) =
     Returns (Inr \<lparr>allowed = False, reason = kDenylisted\<rparr>)"
proof -
  have "short_segments ''com.ads.x/p''" "short_segments ''com.ads''" by code_simp+
  moreover have "covered (host_denylist (denied_world ''com.ads'')) ''com.ads.x/p''"
    "\<not> covered (host_allowlist (denied_world ''com.ads'')) ''com.ads.x/p''"
    unfolding covered_def denied_keys by (simp_all add: key_covers_def)
  ultimately show ?thesis
    using evaluate_prefix_exact [OF example_hex denied_world_reachable denied_world_healthy(1),
        of "''com.ads.x/p''" "''com.ads''" kRegular]
    by (simp del: denied_world_lists)
qed

text \<open>
  A policy answer is never made up: whatever database calls fail, a decision that
  \<open>EvaluatePrefix\<close> returns is the one both lists give, and it leaves the lists alone.
\<close>

lemma evaluate_prefix_no_guess:
  assumes "EvaluatePrefix V key mode w = (Returns (Inr d), w')"
  shows "d = decide mode (exists_ancestor (host_denylist w) (MakePrefixTree V key))
                         (exists_ancestor (host_allowlist w) (MakePrefixTree V key))"
  by (rule EvaluatePrefix_answer [OF assms])

text \<open>
  C3: \<open>MakePrefixTree\<close> is faithful to the nesting of keys: the tree of one key is an \<open>ltree\<close>
  ancestor of the tree of another exactly when the first key covers the second (for segments of
  at most 127 bytes), and every label of a tree is one that \<open>ltree\<close> accepts.
\<close>

theorem prefix_tree_faithful:
  assumes "hex_contract V" and "short_segments a" and "short_segments b"
  shows "(ltree_ancestor (text2ltree (MakePrefixTree V a)) (text2ltree (MakePrefixTree V b)) \<longleftrightarrow>
      key_covers a b) \<and> (\<forall>l\<in>set (text2ltree (MakePrefixTree V a)). ltree_label l)"
  using key_covers_tree [of a b V] tree_covers_key [OF assms] tree_labels_valid [OF assms(1)]
  by (auto simp: text2ltree_MakePrefixTree [OF assms(1)] ltree_ancestor_def)

theorem prefix_tree_faithful_witness:
  "ltree_ancestor (text2ltree (MakePrefixTree example_vendor ''com.ads''))
     (text2ltree (MakePrefixTree example_vendor ''com.ads.x/p'')) \<longleftrightarrow> key_covers ''com.ads'' ''com.ads.x/p''"
proof -
  have "short_segments ''com.ads''" "short_segments ''com.ads.x/p''" by code_simp+
  from prefix_tree_faithful [OF example_hex this] show ?thesis by blast
qed

text \<open>
  C4: two different keys can have the same tree when a segment has more than 127 bytes: a segment
  of 127 bytes followed by more of it encodes like the two as separate segments.  A denied key
  then makes the insertion of the other one end the process.
\<close>

theorem long_segment_collision_aborts:
  assumes "reachable V w" and "db_healthy w"
    and "CHR ''/'' \<notin> set h" and "CHR ''/'' \<notin> set s" and "CHR ''/'' \<notin> set t"
    and "length s = 127" and "t \<noteq> []"
    and "h @ ''/'' @ s @ ''/'' @ t \<in> keys_of (host_denylist w)"
    and "h @ ''/'' @ s @ t \<notin> keys_of (host_denylist w)"
  shows "fst (InsertPrefix V (h @ ''/'' @ s @ t) why w) = Aborts ''denylist insert failed''"
proof (rule InsertPrefix_collision_aborts [OF assms(2) _ assms(8,9)])
  show "prefix_rows_ok V (host_denylist w)" using reachable_ok [OF assms(1)] by (simp add: service_ok_def)
  show "MakePrefixTree V (h @ ''/'' @ s @ t) = MakePrefixTree V (h @ ''/'' @ s @ ''/'' @ t)"
    using assms(3-7) by (intro MakePrefixTree_collision) (simp_all add: max_bytes_per_label_def)
qed

theorem long_segment_collision_aborts_witness:
  "fst (InsertPrefix example_vendor (''com'' @ ''/'' @ replicate 127 CHR ''a'' @ ''b'') ''why''
     (denied_world (''com'' @ ''/'' @ replicate 127 CHR ''a'' @ ''/'' @ ''b''))) =
   Aborts ''denylist insert failed''"
  by (rule long_segment_collision_aborts [OF denied_world_reachable denied_world_healthy(1)])
    (simp_all only: denied_keys, simp_all)

section \<open>The service as a whole\<close>

text \<open>
  C5: in every reachable world, whatever calls failed and however requests and tasks interleaved,
  the tables are well-formed: job identifiers are unique and every job row has the fields its
  status asks for; both prefix lists have unique keys and unique trees, each tree the one of its
  key; capture identifiers are unique, each capture carries the tree of its key and a content
  hash of 32 bytes.
\<close>

theorem reachable_tables_ok:
  assumes "reachable V w"
  shows "jobs_ok (crawl_jobs w) \<and> prefix_rows_ok V (host_denylist w) \<and>
    prefix_rows_ok V (host_allowlist w) \<and> distinct (map cap_id (captures w)) \<and>
    (\<forall>r\<in>set (captures w). cap_prefix_tree r = text2ltree (MakePrefixTree V (cap_prefix_key r)) \<and>
       length (cap_content_sha256 r) = 32)"
  using reachable_ok [OF assms] by (auto simp: service_ok_def capture_row_ok_def list_all_iff)

theorem reachable_tables_ok_witness:
  "jobs_ok (crawl_jobs capture_world) \<and> distinct (map cap_id (captures capture_world)) \<and>
   prefix_rows_ok example_vendor (host_denylist capture_world)"
  using reachable_tables_ok [OF capture_world_reachable] by blast



text \<open>
  C7: a finished job is final: no statement that any request or task runs changes its row, except
  that the cleanup may remove it once it is older than the cutoff.
\<close>

theorem finished_job_is_final:
  assumes "reachable V w" and "service_step V w w'"
    and "find_job u (crawl_jobs w) = Some r" and "terminal r"
  shows "find_job u (crawl_jobs w') = Some r \<or>
    (\<exists>cutoff. job_created_at r < cutoff \<and> sql_delete_crawl_jobs_expired cutoff w = Inr ((), w'))"
  using job_gone_or_same [OF assms(2) _ assms(3,4)] reachable_ok [OF assms(1)]
  by (simp add: service_ok_def)

theorem finished_job_is_final_witness:
  "find_job 1 (crawl_jobs (tick failed_world)) = Some failed_job \<or>
   (\<exists>cutoff. job_created_at failed_job < cutoff \<and>
      sql_delete_crawl_jobs_expired cutoff failed_world = Inr ((), tick failed_world))"
  by (rule finished_job_is_final [OF failed_world_reachable [of example_vendor] service_step.quiet])
    (simp_all add: bookkeeping_def tables.ticks failed_world_def failed_job_def terminal_def row_defs)

section \<open>Crawl jobs\<close>

text \<open>
  C8: when the database works, the background task of a pending job leaves it finished: succeeded
  or failed, never pending or running, whatever the crawler, S3 and a cancellation do, unless the
  process is ended.
\<close>

theorem job_task_finishes_job:
  assumes "crawler_contract run" and "db_healthy w"
    and "find_job i (crawl_jobs w) = Some r" and "job_status r = ''pending''"
    and "crawl_job_task V cfg run why i link w = (res, w')" and "\<forall>m. res \<noteq> Aborts m"
  shows "\<exists>r'. find_job i (crawl_jobs w') = Some r' \<and>
    (job_status r' = ''succeeded'' \<or> job_status r' = ''failed'')"
  using crawl_job_finishes [OF assms] by (simp add: terminal_def)

theorem job_task_finishes_job_witness:
  "\<exists>r'. find_job 1 (crawl_jobs (snd (crawl_job_task example_vendor example_cfg example_run ''stop'' 1
       example_link job_world))) = Some r' \<and> (job_status r' = ''succeeded'' \<or> job_status r' = ''failed'')"
proof -
  have "fst (crawl_job_task example_vendor example_cfg example_run ''stop'' 1 example_link job_world) = Returns ()"
    by code_simp
  then have t: "crawl_job_task example_vendor example_cfg example_run ''stop'' 1 example_link job_world =
      (Returns (), snd (crawl_job_task example_vendor example_cfg example_run ''stop'' 1 example_link job_world))"
    by (simp add: prod_eq_iff)
  have j: "find_job 1 (crawl_jobs job_world) = Some (pending_row 1 ''a.com'' 0)"
    "job_status (pending_row 1 ''a.com'' 0) = ''pending''"
    by (simp_all add: job_world_def pending_row_def)
  show ?thesis
    by (rule job_task_finishes_job [OF example_run_contract job_world_healthy(1) j t]) simp
qed

text \<open>
  C9: the rate limit.  When \<open>link_ratelimit\<close> is set, a request either reuses a job of the same link
  that is younger than the limit, and then changes no job and starts no task, or there is no such
  job, and exactly one pending job is added, for which the task is started.
\<close>

theorem ratelimit_reuses_recent_job:
  assumes "link_ratelimit cfg > 0" and "ToKey V link = Returns key"
    and "Crud_MakeCaptureJob V cfg link w = (Returns (Inr (job, task)), w')"
  shows "case task of
      None \<Rightarrow> crawl_jobs w' = crawl_jobs w \<and>
        (\<exists>r\<in>set (recent_jobs (link_ratelimit cfg) key (app_clock w (calls w)) w).
           MakeCaptureJob r = Returns job)
    | Some (i, l) \<Rightarrow> l = link \<and> cj_uuid job = i \<and> cj_status job = JPending \<and>
        recent_jobs (link_ratelimit cfg) key (app_clock w (calls w)) w = [] \<and>
        crawl_jobs w' = crawl_jobs w @ [pending_row i key (pg_now w)]"
  by (rule Crud_MakeCaptureJob_limited [OF assms(1,3,2)])

theorem ratelimit_reuses_recent_job_witness:
  "\<exists>job w'. Crud_MakeCaptureJob example_vendor example_cfg example_link example_world =
     (Returns (Inr (job, Some (1, example_link))), w') \<and>
     crawl_jobs w' = [pending_row 1 ''x.ads.com/p'' 0]"
proof -
  let ?r = "Crud_MakeCaptureJob example_vendor example_cfg example_link example_world"
  have "map_outcome (map_sum id snd) (fst ?r) = Returns (Inr (Some (1, example_link)))" by code_simp
  then obtain job where "fst ?r = Returns (Inr (job, Some (1, example_link)))"
    by (cases "fst ?r") (auto simp: map_sum_def split: sum.splits)
  then have m: "?r = (Returns (Inr (job, Some (1, example_link))), snd ?r)" by (simp add: prod_eq_iff)
  have "0 < link_ratelimit example_cfg" by (simp add: example_cfg_def)
  from ratelimit_reuses_recent_job [OF this example_ToKey m] m show ?thesis
    by (auto simp: example_world_def pg_now_def)
qed

text \<open>
  C10: asking for a job never ends the process in a reachable world: the answer is a database error,
  nothing, or the public view of the stored row.  The view of a failed job carries one of three
  fixed messages (no internal diagnostics), the view of a succeeded one the stored capture.
\<close>

theorem job_lookup_view:
  assumes "reachable V w"
  shows "fst (FindCaptureJob u w) = Returns (Inl CrudDbError) \<or>
    (fst (FindCaptureJob u w) = Returns (Inr None) \<and> find_job u (crawl_jobs w) = None) \<or>
    (\<exists>r j. fst (FindCaptureJob u w) = Returns (Inr (Some j)) \<and> find_job u (crawl_jobs w) = Some r \<and>
       cj_uuid j = u \<and> cj_link j = job_link r \<and>
       (job_status r = ''failed'' \<longrightarrow> (\<exists>m\<in>set public_messages. cj_error j = Some m)) \<and>
       (job_status r \<noteq> ''failed'' \<longrightarrow> cj_error j = None) \<and>
       (job_status r = ''succeeded'' \<longleftrightarrow> cj_result j \<noteq> None) \<and>
       (\<forall>c. cj_result j = Some c \<longrightarrow> result_capture_id r = Some (ut_uuid c)) \<and>
       (\<forall>m. MakeCaptureJob (r\<lparr>error_message := m\<rparr>) = Returns j))"
proof -
  have ok: "jobs_ok (crawl_jobs w)" using reachable_ok [OF assms] by (simp add: service_ok_def)
  from ok show ?thesis
  proof (cases rule: FindCaptureJob_cases [where u = u])
    case (found j r w')
    have u: "job_uuid r = u" "job_row_ok r" using jobs_ok_find [OF ok found(2)] by simp_all
    have "fst (FindCaptureJob u w) = Returns (Inr (Some j))" using found(1) by simp
    moreover have "\<forall>m. MakeCaptureJob (r\<lparr>error_message := m\<rparr>) = Returns j"
      using found(3) by (simp add: MakeCaptureJob_ignores_message)
    ultimately show ?thesis
      using found(2) view_of_status [OF found(4)] u by blast
  qed simp_all
qed

theorem job_lookup_view_witness:
  "\<exists>j. fst (FindCaptureJob 1 failed_world) = Returns (Inr (Some j)) \<and>
     (\<exists>m\<in>set public_messages. cj_error j = Some m)"
proof -
  have "\<not> (case fst (FindCaptureJob 1 failed_world) of Returns (Inr (Some _)) \<Rightarrow> False | _ \<Rightarrow> True)" by code_simp
  with job_lookup_view [OF failed_world_reachable [of example_vendor], of 1] show ?thesis
    by (auto simp: failed_world_def failed_job_def row_defs)
qed

text \<open>
  The cleanup removes no job that is younger than the retention time (up to the microsecond to
  which a time parameter is rounded), whatever fails.
\<close>

lemma cleanup_keeps_young_jobs:
  assumes "pg_time_contract V" and "CleanupOldJobs V cfg w = (r, w')" and "j \<in> set (crawl_jobs w)"
    and "app_clock w (calls w) + 1000 \<le> job_created_at j + crawl_job_retention cfg"
  shows "j \<in> set (crawl_jobs w')"
  by (rule CleanupOldJobs_keeps [OF assms(2,1,3,4)])

section \<open>Storing captures\<close>

text \<open>
  C11: a capture whose link is under a denied prefix is not stored: no row and no object is written,
  whatever fails.
\<close>

theorem denied_link_not_stored:
  assumes "hex_contract V" and "reachable V w"
    and "MakePrefixKey V (cx_link ctx) = Returns key" and "covered (host_denylist w) key"
    and "PersistMetadataForContext V ctx w = (r, w')"
  shows "(\<forall>s. r \<noteq> Returns (Some s)) \<and> captures w' = captures w \<and> objects w' = objects w"
proof (rule persist_denied [OF assms(3) _ assms(5)])
  show "exists_ancestor (host_denylist w) (MakePrefixTree V key)"
    using reachable_ok [OF assms(2)]
    by (intro covered_exists_ancestor [OF assms(1) _ assms(4)]) (simp add: service_ok_def)
qed

theorem denied_link_not_stored_witness:
  "captures (snd (PersistMetadataForContext example_vendor (example_context None) (denied_world ''com.ads''))) =
     captures (denied_world ''com.ads'')"
proof -
  have "cx_link (example_context None) = example_link" by (simp add: example_context_def)
  then have "MakePrefixKey example_vendor (cx_link (example_context None)) = Returns ''com.ads.x/p''"
    by (simp add: example_MakePrefixKey)
  moreover have "covered (host_denylist (denied_world ''com.ads'')) ''com.ads.x/p''"
    unfolding covered_def denied_keys by (simp add: key_covers_def)
  ultimately show ?thesis
    using denied_link_not_stored [OF example_hex denied_world_reachable _ _ prod.collapse [symmetric]] by blast
qed

text \<open>
  C12: when \<open>PersistMetadataForContext\<close> reports a stored capture, its row is in the table with the
  link and the content hash of the crawl, and either it is an earlier capture of the same content
  and nothing was written, or it is new and its archive is in the bucket under its own key.
\<close>

theorem stored_capture_is_there:
  assumes "PersistMetadataForContext V ctx w = (Returns (Some s), w')"
  shows "\<exists>pk link sha. MakePrefixKey V (cx_link ctx) = Returns pk \<and> ToKey V (cx_link ctx) = Returns link \<and>
    cx_content_sha256 ctx = Some sha \<and>
    \<not> exists_ancestor (host_denylist w) (MakePrefixTree V pk) \<and>
    stored_as w' link sha s \<and>
    (captures w' = captures w \<and> objects w' = objects w \<or>
     sc_id s = cx_id ctx \<and> objects w' = (objects w)(cx_s3_key ctx := cx_wacz_bytes ctx))"
  by (rule persist_stored [OF assms])

theorem stored_capture_is_there_witness:
  "\<exists>s w'. PersistMetadataForContext example_vendor (example_context (Some ''zip'')) example_world =
     (Returns (Some s), w') \<and> stored_as w' ''x.ads.com/p'' example_sha s"
proof -
  let ?r = "PersistMetadataForContext example_vendor (example_context (Some ''zip'')) example_world"
  obtain s where "fst ?r = Returns (Some s)" using example_persist by blast
  then have r: "?r = (Returns (Some s), snd ?r)" by (simp add: prod_eq_iff)
  from stored_capture_is_there [OF r] r show ?thesis by (auto simp: example_context_def example_ToKey)
qed

text \<open>
  With \<open>HttpsOnly\<close> the crawler is run on the HTTPS address only: what it would do on any other
  address does not matter.
\<close>

lemma https_only_never_falls_back:
  assumes "HttpsOnly cfg" and "HttpsUrl V (cx_link ctx) = Returns seed" and "run seed = run' seed"
  shows "RunCrawlerForContext V cfg run ctx w = RunCrawlerForContext V cfg run' ctx w"
  using assms
  by (simp add: RunCrawlerForContext_def bind_act_def of_outcome_def ret_def split: outcome.split prod.split)
    (auto split: option.split)

section \<open>Purging a prefix\<close>

text \<open>
  C18: a purge that goes through removes exactly the captures under the prefix, and exactly their
  objects.
\<close>

theorem purge_removes_exactly:
  assumes "reachable V w" and "purge_delete_batch_size cfg > 0"
    and "PurgePrefix V cfg k w = (Returns (Inr ()), w')"
  shows "captures w' = filter (\<lambda>r. \<not> under_tree (MakePrefixTree V k) r) (captures w) \<and>
    (\<forall>key. objects w' key =
       (if \<exists>r\<in>set (captures w). under_tree (MakePrefixTree V k) r \<and>
             MakeCaptureObjectKey V (S3Bucket cfg) (cap_id r) = Returns key
        then None else objects w key))"
proof -
  have d: "distinct (map cap_id (captures w))" using reachable_ok [OF assms(1)] by (simp add: service_ok_def)
  note l = assms(3) [unfolded PurgePrefix_def]
  show ?thesis
    using purge_loop_exact [OF l assms(2) d] purge_loop_objects [OF l refl assms(2) d]
    by (auto simp: key_of_some_def)
qed

theorem purge_removes_exactly_witness:
  "captures (snd (PurgePrefix example_vendor example_cfg ''com.ads'' capture_world)) = []"
proof -
  let ?r = "PurgePrefix example_vendor example_cfg ''com.ads'' capture_world"
  have "fst ?r = Returns (Inr ())"
    unfolding PurgePrefix_def by (rule purge_loop_healthy [OF prod.collapse [symmetric]]) simp_all
  then have r: "?r = (Returns (Inr ()), snd ?r)" by (simp add: prod_eq_iff)
  with purge_removes_exactly [OF capture_world_reachable _ r] show ?thesis by (simp add: example_under_tree)
qed

text \<open>
  Whatever fails on the way, a purge leaves every capture outside the prefix as it was.
\<close>

lemma purge_spares_the_rest:
  assumes "reachable V w" and "PurgePrefix V cfg k w = (r, w')"
  shows "filter (\<lambda>c. \<not> under_tree (MakePrefixTree V k) c) (captures w') =
    filter (\<lambda>c. \<not> under_tree (MakePrefixTree V k) c) (captures w)"
  using purge_keeps_outside [OF assms(2) [unfolded PurgePrefix_def]] reachable_ok [OF assms(1)]
  by (simp add: service_ok_def)

text \<open>
  C19: when neither the database nor S3 fails, the purge task of a denied prefix ends with success
  and does not end the process.
\<close>

theorem purge_task_succeeds:
  assumes "utf8_contract V" and "is_ascii (S3Bucket cfg)" and "\<And>i. is_ascii (uuid_to_string V i)"
    and "db_healthy w" and "s3_healthy w"
  shows "fst (purge_task V cfg k w) = Returns ()"
  using purge_loop_healthy [OF _ assms, of "MakePrefixTree V k"]
  by (simp add: purge_task_def PurgePrefix_def split: prod.split) (metis eq_fst_iff sum.case(2) outcome.case)

theorem purge_task_succeeds_witness:
  "fst (purge_task example_vendor example_cfg ''com.ads'' capture_world) = Returns ()"
  by (rule purge_task_succeeds) simp_all

section \<open>Listing captures\<close>

text \<open>
  C24: a client that follows the next-page tokens of a link gets every capture of the link exactly
  once, newest first, and reaches a page without a next token.
\<close>

theorem link_paging_complete:
  assumes "utf8_contract V" and "token_contract V" and "pg_time_contract V"
    and "ToKey V link = Returns key" and "captures_ok w" and "db_healthy w"
    and "page_max cfg > 0" and "length (of_link key w) < m"
  shows "walk_pages V cfg link m [] w = Some (map id_row (sort_key newest_key (of_link key w)))"
  by (rule walk_pages_complete [OF assms])

theorem link_paging_complete_witness:
  "walk_pages example_vendor example_paging example_link 3 [] capture_world =
     Some (map id_row (sort_key newest_key (of_link ''x.ads.com/p'' capture_world)))"
  by (rule link_paging_complete [OF example_utf8 example_token example_pg_time example_ToKey
        capture_world_ok capture_world_healthy(1)])
    (simp_all add: example_paging_def of_link_def)

text \<open>
  From any page reached by next-page tokens, following the next-page token and then the
  previous-page token shows the same captures again.
\<close>

lemma link_paging_back_and_forth:
  assumes "utf8_contract V" and "token_contract V" and "pg_time_contract V"
    and "captures_ok w" and "db_healthy w" and "ToKey V link = Returns key" and "page_max cfg > 0"
    and "token_for V tok cur" and "forward_position key w cur"
    and "FindCapturesByLinkPage V cfg link tok w = (Returns (Inr page1), w1)" and "lp_next page1 = Some t"
    and "FindCapturesByLinkPage V cfg link t w1 = (Returns (Inr page2), w2)" and "lp_previous page2 = Some t'"
    and "FindCapturesByLinkPage V cfg link t' w2 = (Returns (Inr page3), w3)"
  shows "lp_items page3 = lp_items page1"
  by (rule next_then_previous_page [OF assms])

text \<open>
  The first page of a prefix shows the first \<open>links_per_page_max\<close> stored links that start with
  the prefix, in order, and of each at most \<open>per_link_max\<close> captures, the newest first.
\<close>

lemma prefix_page_shows_prefix:
  assumes "db_healthy w" and "\<exists>x\<in>set p. x \<noteq> top_byte"
    and "FindCapturesByPrefixPage V cfg p [] w = (Returns (Inr page), w')"
  shows "\<exists>links. pp_items page = concat (map (newest_items cfg w) (take (links_per_page_max cfg) links)) \<and>
    sorted links \<and> distinct links \<and> set links = {cap_link r | r. r \<in> set (captures w) \<and> prefix p (cap_link r)}"
proof (intro exI conjI)
  let ?links = "links_in_range p (UpperExclusiveBound p) w"
  show "pp_items page = concat (map (newest_items cfg w) (take (links_per_page_max cfg) ?links))"
    by (rule prefix_first_page [OF assms(1,3)])
  show "sorted ?links" "distinct ?links" by (simp_all add: links_in_range_def)
  show "set ?links = {cap_link r | r. r \<in> set (captures w) \<and> prefix p (cap_link r)}"
    using upper_bound_range [OF assms(2)] by (auto simp: links_in_range_def)
qed

text \<open>
  C25: \<open>UpperExclusiveBound\<close> gives the end of the range of texts that start with a prefix, in byte
  order, for every prefix that is not made of 0xFF bytes only.
\<close>

theorem upper_bound_is_prefix_range:
  assumes "\<exists>x\<in>set s. x \<noteq> top_byte"
  shows "s \<le> t \<and> t < UpperExclusiveBound s \<longleftrightarrow> prefix s t"
  by (rule upper_bound_range [OF assms])

theorem upper_bound_is_prefix_range_witness:
  "''a'' \<le> ''ab'' \<and> ''ab'' < UpperExclusiveBound ''a'' \<longleftrightarrow> prefix ''a'' ''ab''"
  by (rule upper_bound_is_prefix_range) code_simp

text \<open>
  Page tokens round-trip: the cursors of both listings decode to what they were made of, for
  times that Postgres can hold.
\<close>

lemma page_tokens_round_trip:
  assumes "utf8_contract V" and "token_contract V" and "wf_text V p" and "wf_text V l" and "db_time t"
  shows "(\<exists>tok. EncodeCursor V t i d = Returns tok \<and>
       DecodeCursor V tok = Some \<lparr>c_created_at = t, c_id = i, c_direction = d\<rparr>) \<and>
    (\<exists>tok. EncodePrefixCursor V p l d = Returns tok \<and>
       DecodePrefixCursor V tok = Some \<lparr>pc_prefix = p, pc_link = l, pc_direction = d,
         pc_created_at = None, pc_id = None\<rparr>) \<and>
    (\<exists>tok. EncodePrefixCursorAt V p l t i d = Returns tok \<and>
       DecodePrefixCursor V tok = Some \<lparr>pc_prefix = p, pc_link = l, pc_direction = d,
         pc_created_at = Some t, pc_id = Some i\<rparr>)"
  using cursor_round_trip [OF assms(1,2,5), of i d] prefix_cursor_round_trip [OF assms(1-4), of d]
    prefix_cursor_at_round_trip [OF assms, of i d] by blast

section \<open>Links, addresses and crawler errors\<close>



text \<open>
  An IPv4 address counts as publicly routable exactly when its octets are in none of the
  reserved networks 0/8, 10/8, 100.64/10, 127/8, 169.254/16, 172.16/12, 192.168/16, 198.18/15,
  224/4 and 240/4.
\<close>

lemma public_ipv4_by_octets:
  "IsPublicRoutable (IpV4 (Ip4 a b c d)) \<longleftrightarrow>
     \<not> (unat a = 0 \<or> unat a = 10 \<or> (unat a = 100 \<and> 64 \<le> unat b \<and> unat b \<le> 127) \<or> unat a = 127 \<or>
        (unat a = 169 \<and> unat b = 254) \<or> (unat a = 172 \<and> 16 \<le> unat b \<and> unat b \<le> 31) \<or>
        (unat a = 192 \<and> unat b = 168) \<or> (unat a = 198 \<and> (unat b = 18 \<or> unat b = 19)) \<or>
        224 \<le> unat a)"
  by (simp add: IsPublicRoutable4_reserved reserved_octets_def)

text \<open>
  The fallback to plain HTTP happens for navigation errors without any response only: a 502 from
  the proxy, or a page that loaded nothing and has no status.
\<close>

lemma http_fallback_only_without_response:
  "ShouldRetryWithHttp e \<longleftrightarrow> ce_kind e = kNavigation \<and>
     (\<exists>p. ce_seed_probe e = Some p \<and>
        (sp_status p = Some 502 \<or>
         (sp_load_state p = Some 0 \<and> (sp_status p = None \<or> sp_status p = Some 0))))"
  by (rule ShouldRetryWithHttp_iff)

text \<open>
  A text printed from an integer that fits the type parses back to it, for signed and unsigned
  types.
\<close>

lemma integers_round_trip:
  assumes "- (2 ^ (width - 1)) \<le> i" and "i < 2 ^ (width - 1)" and "n < 2 ^ width"
  shows "Parse_signed width (int_to_string i) = Some i \<and> Parse_unsigned width (to_string n) = Some n"
  using Parse_signed_int_to_string [OF assms(1,2)] Parse_unsigned_to_string [OF assms(3)] by simp

section \<open>The crawler's proxy\<close>

text \<open>
  C13: with the rewriting of test hosts switched off, whatever a client sends, whatever names
  resolve to and whatever other tasks do, the proxy opens connections to publicly routable
  addresses only.
\<close>

theorem proxy_connects_public_only:
  assumes "\<not> enable_local_fixture_rewrite cfg" and "connects s = []"
  shows "list_all public_sockaddr (connects (snd (HandleClient V cfg E s)))"
  using HandleClient_public [OF assms(1), of s V E] assms(2)
  by (auto simp: connects_within_def list_all_iff)

theorem proxy_connects_public_only_witness:
  "list_all public_sockaddr
     (connects (snd (HandleClient example_vendor example_proxy_cfg example_env example_conn))) \<and>
   connects (snd (HandleClient example_vendor example_proxy_cfg example_env example_conn)) =
     [sockaddr_in (Ip4 93 184 216 34) 80]"
  using proxy_connects_public_only [of example_proxy_cfg example_conn example_vendor example_env]
  by (simp add: example_served) (simp add: example_proxy_cfg_def example_conn_def)

text \<open>
  C14: when the proxy asks for credentials, it opens no connection and sends no byte upstream
  unless the client's header names the run in its proxy authorization.
\<close>

theorem proxy_needs_credentials:
  assumes "require_auth cfg"
    and "connects (snd (HandleClient V cfg E s)) \<noteq> connects s \<or>
      upstream_out (snd (HandleClient V cfg E s)) \<noteq> upstream_out s"
  shows "\<exists>header req auth password.
    fst (read_header cfg E [] (interfere E s)) = Some header \<and>
    ParseHeaderBlock V header = Some req \<and>
    FindHeaderValue V (req_headers req) ''proxy-authorization'' = Some auth \<and>
    ParseBasicAuthUser V auth = Some (run_id cfg, password)"
proof (cases rule: HandleClient_cases [of V cfg E s])
  case idle
  with assms(2) show ?thesis by simp
next
  case (served header req s1)
  with assms(1) show ?thesis unfolding authorized_def by (metis fst_conv)
qed

theorem proxy_needs_credentials_witness:
  "\<exists>header req auth password.
    fst (read_header example_proxy_cfg example_env [] (interfere example_env example_conn)) = Some header \<and>
    ParseHeaderBlock example_vendor header = Some req \<and>
    FindHeaderValue example_vendor (req_headers req) ''proxy-authorization'' = Some auth \<and>
    ParseBasicAuthUser example_vendor auth = Some (run_id example_proxy_cfg, password)"
  by (rule proxy_needs_credentials)
    (simp_all add: example_served, simp_all add: example_proxy_cfg_def example_conn_def)

text \<open>
  C15: the request the proxy sends upstream, whatever follows it, is read by the proxy's own parser
  as the client's method and version, the path of the target, the client's headers without the
  proxy's and the connection's, and one header that closes the connection: no header the client sent can
  add a line or carry the credentials on.
\<close>

theorem forwarded_request_reads_back:
  assumes "text_light_contract V" and "ParseHeaderBlock V bytes = Some req"
    and "ParseHttpRequestTarget V req = Inr t"
  shows "ParseHeaderBlock V (MakeForwardRequest V req (t_path t) @ body) =
    Some \<lparr>req_method = req_method req, req_target = t_path t, req_version = req_version req,
      req_headers = filter (\<lambda>h. ShouldForwardHeader V (h_name h)) (req_headers req) @
        [\<lparr>h_name = ''Connection'', h_value = ''close''\<rparr>],
      header_bytes = length (MakeForwardRequest V req (t_path t))\<rparr> \<and>
    FindHeaderValue V (filter (\<lambda>h. ShouldForwardHeader V (h_name h)) (req_headers req) @
      [\<lparr>h_name = ''Connection'', h_value = ''close''\<rparr>]) ''proxy-authorization'' = None"
  using forwarded_request_read [OF assms] forwarded_no_credentials by blast

theorem forwarded_request_reads_back_witness:
  "map_option req_headers (ParseHeaderBlock example_vendor
     (MakeForwardRequest example_vendor example_parsed ''/x'' @ ''body'')) =
   Some [\<lparr>h_name = ''A'', h_value = ''b''\<rparr>, \<lparr>h_name = ''Connection'', h_value = ''close''\<rparr>]"
proof -
  have "filter (\<lambda>h. ShouldForwardHeader example_vendor (h_name h)) (req_headers example_parsed) =
      [\<lparr>h_name = ''A'', h_value = ''b''\<rparr>]" by code_simp
  then show ?thesis
    using forwarded_request_reads_back [OF example_text_light example_parse example_parse_target, of "''body''"]
    by (simp add: example_target_def)
qed

text \<open>
  C17: what the client receives of a response is a prefix of what the upstream sent, however sends
  fail, the budget runs out or another task stops the proxy: nothing is lost in the middle, repeated
  or reordered.
\<close>

theorem relay_delivers_prefix:
  assumes "send_contract E" and "stop_is_final E"
  shows "\<exists>x. client_out (CopyUpstreamToClientBudgeted cfg E s) = client_out s @ x \<and>
    prefix x (stream_bytes (upstream_in s))"
  by (rule copy_loop_prefix [OF assms])

theorem relay_delivers_prefix_witness:
  "\<exists>x. client_out (CopyUpstreamToClientBudgeted example_proxy_cfg example_env example_conn) =
      client_out example_conn @ x \<and> prefix x ''ok''"
  using relay_delivers_prefix [OF example_send_contract example_stop_is_final,
      of example_proxy_cfg example_conn]
  by (simp add: example_conn_def)

text \<open>
  When sends go through, nothing stops the proxy and the budget is large enough, the client
  receives the whole response and the counter grows by exactly its length.
\<close>

lemma relay_within_budget:
  assumes "calm E" and "\<not> stopped (impl s)" and "0 \<le> down_bytes (impl s)"
    and "down_bytes (impl s) + int (length (stream_bytes (upstream_in s))) \<le> down_bytes_max cfg"
  shows "client_out (CopyUpstreamToClientBudgeted cfg E s) = client_out s @ stream_bytes (upstream_in s) \<and>
    DownBytes (impl (CopyUpstreamToClientBudgeted cfg E s)) =
      DownBytes (impl s) + int (length (stream_bytes (upstream_in s)))"
  using copy_loop_complete [OF assms] by (simp add: DownBytes_def)



section \<open>The browser page session\<close>

text \<open>
  Whatever calls a page session makes on its life cycle, the accepted ones tell the state: the
  page's domains are enabled after exactly the four set-up calls in their order, and a stopped
  session has disposed of a browser context it created and detached from a target it attached to.
\<close>

lemma page_session_history:
  assumes "mark_all events IdleState = (accepted, state)"
  shows "(state = BaseDomainsEnabledState \<longleftrightarrow>
      accepted = [BrowserContextCreated, TargetCreated, Attached, BaseDomainsEnabled]) \<and>
    (state = StoppedState \<longrightarrow>
      (BrowserContextCreated \<in> set accepted \<longrightarrow> Disposed \<in> set accepted) \<and>
      (Attached \<in> set accepted \<longrightarrow> Detached \<in> set accepted))"
  using mark_all_history [OF assms] by (cases state) auto

text \<open>
  Detaching, disposing and stopping brings the session to the stopped state from wherever it
  is, and it stays there whatever is called afterwards: the clean-up may run twice.
\<close>

lemma page_session_cleanup:
  "snd (mark_all (before @ [Detached, Disposed, Stopped] @ after) state) = StoppedState"
  by (simp only: mark_all_append cleanup_stops stopped_stays)

section \<open>The archive of a capture\<close>

text \<open>
  A path may enter or leave a ZIP archive exactly when it has no backslash, control or delete
  character and each of its components between slashes is non-empty and neither a dot nor two dots:
  no accepted path is absolute or climbs out of the directory it is unpacked in.
\<close>

lemma zip_path_stays_inside:
  "IsAllowedZipPath name \<longleftrightarrow>
     list_all (\<lambda>ch. ch \<noteq> CHR 0x5C \<and> 0x20 \<le> (of_char ch :: nat) \<and> ch \<noteq> CHR 0x7F) name \<and>
     list_all (\<lambda>c. c \<noteq> [] \<and> c \<noteq> ''.'' \<and> c \<noteq> ''..'') (split_on CHR ''/'' name)"
  by (simp add: IsAllowedZipPath_iff forbidden_char_def good_component_def [abs_def] not_less)



text \<open>
  In the WARC file of a capture, the index has one entry per response in the order they are
  written and one for the page; each entry's offset and length are inside the file and point at exactly
  the compressed record of its response, and the entry's digest is the digest of those bytes.
\<close>

lemma warc_index_points_at_records:
  assumes "MakeWarc V W E n exchange = Returns (Inr out)"
  shows "\<exists>rs page_info. cdx_records out = rs @ [page_info] \<and>
    list_all2 (holds_record V W E (warc_bytes out)) (CollectSerializableResponses E exchange) rs \<and>
    indexed V E (warc_bytes out) page_info"
  by (rule MakeWarc_index [OF assms])



text \<open>
  C29: two captures with the same page, redirects and resources, in whatever order and at whatever
  times, have the same fingerprint; and two captures with the same fingerprint have the same page,
  redirects and resources, unless two different texts among those hashed for the two captures have the
  same hash.
\<close>

theorem capture_fingerprint_exact:
  assumes "\<forall>s. length (Sha256 E s) = 32"
  shows "(content_items ex = content_items ex' \<longrightarrow>
      ComputeContentSha256 E ex = ComputeContentSha256 E ex') \<and>
    (ComputeContentSha256 E ex = ComputeContentSha256 E ex' \<longrightarrow>
      content_items ex = content_items ex' \<or>
      (\<exists>a\<in>hashed_texts E ex \<union> hashed_texts E ex'. \<exists>b\<in>hashed_texts E ex \<union> hashed_texts E ex'.
        a \<noteq> b \<and> Sha256 E a = Sha256 E b))"
  using fingerprint_binds [OF assms, of ex ex'] unfolding inj_on_def by (auto simp: fingerprint_eq)

theorem capture_fingerprint_exact_witness:
  "ComputeContentSha256 example_artifact_env example_exchange =
     ComputeContentSha256 example_artifact_env (example_exchange\<lparr>ex_timestamp := ''9'', ex_page_id := ''7''\<rparr>)"
  using capture_fingerprint_exact [of example_artifact_env example_exchange
      "example_exchange\<lparr>ex_timestamp := ''9'', ex_page_id := ''7''\<rparr>"]
  by (simp add: example_sha_length content_items_def)

section \<open>The object store\<close>





text \<open>
  C32: a presigned address reads back: the query of the address decodes to the parameters of the
  signature, an expiry between one second and seven days, and a signature that is the one of exactly
  these parameters, the path and the signed headers.
\<close>

theorem presigned_url_verifies:
  assumes "utf8_contract V" and "percent_contract E" "hex_hash_contract E"
    and "presign_texts_ok V E p hs" and "is_ascii (built_href built)"
    and "MakePresignedUrl V E m built now t p hs = Returns url" and "length url < 2 ^ 64"
  shows "\<exists>search q sig to_sign. url = built_href built @ search \<and> DecodeQueryString V E search = Inr q \<and>
    map_of q ''X-Amz-Signature'' = Some sig \<and>
    string_to_sign V E p (canonical_request (MakeCanonicalRequest E m (built_raw_path built)
      (filter (\<lambda>x. fst x \<noteq> ''X-Amz-Signature'') q) hs ''UNSIGNED-PAYLOAD'')) = Returns to_sign \<and>
    sig = ComputeSignature E p to_sign \<and>
    (\<exists>n. map_of q ''X-Amz-Expires'' = Some (to_string n) \<and> 1 \<le> n \<and> n \<le> 604800)"
  by (rule presigned_reads_back [OF assms])

theorem presigned_url_verifies_witness:
  "\<exists>url search q sig. MakePresignedUrl example_vendor example_s3_env ''GET'' example_built 0 9000000000
      example_params [(''host'', ''store'')] = Returns url \<and>
    url = ''https://store/b/k'' @ search \<and> DecodeQueryString example_vendor example_s3_env search = Inr q \<and>
    map_of q ''X-Amz-Signature'' = Some sig"
proof -
  let ?url = "''https://store/b/k?X-Amz-Algorithm=AWS4-HMAC-SHA256&X-Amz-Credential=AK%2F20260101%2Fr%2Fs3%2Faws4_request&X-Amz-Date=20260101T000000Z&X-Amz-Expires=9&X-Amz-Signature=41575334&X-Amz-SignedHeaders=host''"
  have m: "MakePresignedUrl example_vendor example_s3_env ''GET'' example_built 0 9000000000
      example_params [(''host'', ''store'')] = Returns ?url" by code_simp
  have "length ?url < 2 ^ 64" by simp
  from presigned_url_verifies [OF example_utf8 example_percent example_hex_hash example_presign_texts _ m this]
  obtain search q sig where "?url = built_href example_built @ search"
    "DecodeQueryString example_vendor example_s3_env search = Inr q" "map_of q ''X-Amz-Signature'' = Some sig"
    by (auto simp: example_built_def)
  with m show ?thesis by (auto simp: example_built_def)
qed

text \<open>
  Asking the token service for credentials sends a form that decodes to exactly the parameters of
  the call, whatever characters they have, and only ever to an HTTPS address; when the service
  answers that form with credentials, these are what the caller gets.
\<close>

lemma sts_credentials_exchange:
  assumes V: "utf8_contract V" "ada_ascii_contract V" and E: "percent_contract E" "hex_hash_contract E"
    and "texts_ok V (sts_params role_arn session duration policy)"
    and "length (join_with ''&'' (map query_piece (sts_params role_arn session duration policy))) < 2 ^ 64"
    and u: "ParseUrlWithDefaultHttpScheme V endpoint = Some u" and "\<not> HasSearch V u"
    and answer: "\<forall>body headers.
      DecodeQueryString V E body = Inr (sts_params role_arn session duration policy) \<longrightarrow>
      exec (get_href V u) body headers timeout = Returns (Inr (credentials_xml ak sk token e))"
    and plain: "\<forall>s\<in>{ak, sk, token, e}. is_ascii s \<and> CHR ''<'' \<notin> set s"
    and t: "cctz_parse E (kRfc3339Format E) e = Some t"
  shows "FetchStsWithExecutor V E now exec endpoint key secret region role_arn session policy duration timeout =
    (if IsHttps V u then Returns (Inr \<lparr>sts_access_key_id = ak, sts_secret_access_key = sk,
       sts_session_token = token, sts_expires_at = t\<rparr>)
     else Aborts ''STS endpoint must use https scheme'')"
proof (cases "IsHttps V u")
  case True
  have "is_ascii (credentials_xml ak sk token e)" using plain by (simp add: credentials_xml_def)
  note x = FromBytes_ascii [OF V(1) this]
  have "FromXml V E (credentials_xml ak sk token e) = Inr \<lparr>sts_access_key_id = ak, sts_secret_access_key = sk,
       sts_session_token = token, sts_expires_at = t\<rparr>"
    using plain t by (subst FromXml_reads) (simp_all add: wf_text_ascii [OF V(1)])
  with sts_request [OF V E assms(5,6) u assms(8), of now exec key secret region timeout] True answer x
  show ?thesis by auto
next
  case False
  then show ?thesis by (simp add: FetchStsWithExecutor_def u)
qed

text \<open>
  With the local store, the download address of a capture follows the headers of the request: its
  host is the forwarded host, or else the host of the request; behind a proxy that names no port it has
  none; its scheme is the forwarded one, HTTPS behind a proxy with \<open>HttpsOnly\<close>, and the configured
  one otherwise.  A forwarded scheme other than HTTP and HTTPS is refused, and no input ends the process.
\<close>

lemma download_url_follows_headers:
  assumes "utf8_contract V" "ada_ascii_contract V" "authority_contract V" and "is_ascii (uuid_to_string V uuid)"
    and "Url_FromText V public_base_url = Some base_url" "IsHttpOrHttps V base_url"
    and "(if fh \<noteq> None then ParseHostHeader V fh kInvalidForwardedHost kInvalidForwardedHost
        else ParseHostHeader V rh kMissingRequestHost kInvalidRequestHost) = Returns (Inr hh)"
  shows "case wanted_scheme V fh fp https_only (ada_type V base_url) of
      None \<Rightarrow> MakeCaptureDownloadUrl V uuid kLocal public_base_url rh fh fp https_only =
        Returns (Inl kInvalidForwardedProto)
    | Some k \<Rightarrow> \<exists>u. MakeCaptureDownloadUrl V uuid kLocal public_base_url rh fh fp https_only = Returns (Inr u) \<and>
        ada_type V u = k \<and> get_hostname V u = hh_hostname hh \<and>
        (fh \<noteq> None \<and> hh_port hh = None \<longrightarrow> \<not> ada_has_port V u)"
  by (rule download_url_result [OF assms])

section \<open>The debugging protocol client\<close>

text \<open>
  C33: every operation of the debugging protocol client (commands, the reader task, errors, stopping and
  sessions), with any steps of other tasks between its critical sections, is a sequence of the steps of
  the client, so it takes reachable states to reachable states.
\<close>

theorem cdp_operations_follow_steps:
  assumes "others V E me I" and "json_regular E" and "reached V E ls s"
  shows "(\<exists>ks. reached V E (ls @ ks) (snd (SendRaw V E me I m params sid s))) \<and>
    (\<exists>ks. reached V E (ls @ ks) (snd (HandleMessage V E me I payload s))) \<and>
    (\<exists>ks. reached V E (ls @ ks) (snd (ReaderLoop V E me I rs s))) \<and>
    (\<exists>ks. reached V E (ls @ ks) (SetFatalError me I err s)) \<and>
    (\<exists>ks. reached V E (ls @ ks) (snd (Stop_client V E me I s))) \<and>
    (\<exists>ks. reached V E (ls @ ks) (StopQuietly me I s)) \<and>
    (\<exists>ks. reached V E (ls @ ks) (snd (MakeSession I i t s))) \<and>
    (\<exists>ks. reached V E (ls @ ks) (UnregisterSession I c s)) \<and>
    (ref < next_session s \<longrightarrow> (\<exists>ks. reached V E (ls @ ks) (snd (WaitForSessionEvent I ref msg s))) \<and>
       (\<exists>ks. reached V E (ls @ ks) (snd (DrainSessionEvents I ref s))))"
  by (intro conjI impI reached_run_to [OF assms(3)] SendRaw_run [OF assms(1)] HandleMessage_run [OF assms]
      ReaderLoop_run [OF assms] SetFatalError_run(1) [OF assms(1)] Stop_run [OF assms(1)] StopQuietly_run [OF assms(1)]
      MakeSession_run [OF assms(1)] UnregisterSession_run [OF assms(1)] WaitForSessionEvent_run [OF assms(1)]
      DrainSessionEvents_run [OF assms(1)])

theorem cdp_operations_follow_steps_witness:
  "(\<exists>ks. reached example_vendor example_cdp_env ([Opened 0 True, Delivered 0 example_event] @ ks)
      (snd (SendRaw example_vendor example_cdp_env 0 browser_answers ''Page.enable'' None None session_client))) \<and>
   (\<exists>ks. reached example_vendor example_cdp_env ([Opened 0 True, Delivered 0 example_event] @ ks)
      (snd (DrainSessionEvents browser_answers 0 session_client)))"
  using cdp_operations_follow_steps [OF browser_answers_others example_json_regular session_client_reached,
      of "''Page.enable''" None None "[]" "[]" "timed_out" "[]" "[]" "\<lparr>cs_session_id = [], cs_target_id = [], cs_ref = 0\<rparr>" 0 "[]"]
    session_client_facts(1) by blast

text \<open>
  C34: a command that returns a result returns the result of its own answer: the command was registered
  under a number not used before, the text sent carries that number, and the result is that of a
  message with this number and without an error, handled after the command was registered, whatever
  other commands, time-outs and messages happened in between.
\<close>

theorem command_gets_its_answer:
  assumes "others V E me I" and "reached V E ls s"
    and "SendRaw V E me I m params sid s = (Returns (Inr result), s')"
  shows "\<exists>ks rid ref t v n bytes. reached V E (ls @ ks) s' \<and>
    Registered rid ref \<in> set ks \<and> Registered rid ref \<notin> set ls \<and>
    stringify_command E \<lparr>cmd_id = rid, cmd_method = m, cmd_params = params, cmd_session_id = sid\<rparr> = Some bytes \<and>
    send_text E n bytes = IoOk () \<and>
    Answered t rid v ref (Inr result) \<in> set ks \<and> message_answers V E rid v (Inr result)"
  using SendRaw_answer [OF assms] .

theorem command_gets_its_answer_witness:
  "\<exists>ks rid ref t v n bytes.
    reached example_vendor example_cdp_env ([] @ ks)
      (snd (SendRaw example_vendor example_cdp_env 0 browser_answers ''Page.enable'' None None fresh_client)) \<and>
    Registered rid ref \<in> set ks \<and> Registered rid ref \<notin> set ([] :: ejson label list) \<and>
    stringify_command example_cdp_env
      \<lparr>cmd_id = rid, cmd_method = ''Page.enable'', cmd_params = None, cmd_session_id = None\<rparr> = Some bytes \<and>
    send_text example_cdp_env n bytes = IoOk () \<and>
    Answered t rid v ref (Inr (Some (EInt 42))) \<in> set ks \<and>
    message_answers example_vendor example_cdp_env rid v (Inr (Some (EInt 42)))"
proof -
  let ?r = "SendRaw example_vendor example_cdp_env 0 browser_answers ''Page.enable'' None None fresh_client"
  have "?r = (Returns (Inr (Some (EInt 42))), snd ?r)" using example_answer by (metis prod.collapse)
  from command_gets_its_answer [OF browser_answers_others fresh_client_reached this] show ?thesis .
qed



text \<open>
  A session hands out its events in the order they arrived, each once: the event \<open>WaitForSessionEvent\<close>
  returns is the oldest one delivered and not yet taken, and \<open>DrainSessionEvents\<close> returns all of those.
\<close>

lemma session_events_in_order:
  assumes "others V E me I" and "reached V E ls s" and "ref < next_session s"
  shows "(WaitForSessionEvent I ref msg s = (Returns (Inr ev), s') \<longrightarrow>
      (\<exists>ks. reached V E (ls @ ks @ [Took ref ev]) s' \<and>
        delivered ref (ls @ ks) = consumed ref (ls @ ks) @ ev # sd_events (sessions s' ref))) \<and>
    (DrainSessionEvents I ref s = (evs, s'') \<longrightarrow>
      (\<exists>ks. reached V E (ls @ ks @ [Drained ref evs]) s'' \<and>
        delivered ref (ls @ ks) = consumed ref (ls @ ks) @ evs \<and> sd_events (sessions s'' ref) = []))"
  using WaitForSessionEvent_order [OF assms] DrainSessionEvents_order [OF assms] by blast

text \<open>
  The client's own checks never fail in a reachable state: sending never meets a used number or a
  finished waiter without a result, waiting for an event never wakes without one, and an answer to a
  known command never misses its waiter, so \<open>respond_section\<close> fails for unknown numbers and unreadable
  errors only.
\<close>

lemma cdp_client_checks_hold:
  assumes "others V E me I" and "reached V E ls s" and "send_failures_text V E"
  shows "fst (SendRaw V E me I m params sid s) \<noteq> Aborts why \<and>
    (\<exists>r. fst (WaitForSessionEvent I ref msg s) = Returns r) \<and>
    (respond_section V E me rid v s = (Returns (Inl err), s') \<longrightarrow>
       map_of (pending_requests (shared s)) rid = None \<or> error_text V E v = Returns (Inl err))"
  using SendRaw_never_aborts [OF assms(1) reached_ok [OF assms(2)] assms(3)] WaitForSessionEvent_returns
    respond_error [OF reached_ok [OF assms(2)]] by blast




section \<open>Crawling\<close>

text \<open>
  C20: an intercepted request is let through only when the policy allows it.  While the event loop runs, under
  any interference of the main task and the service, each event it takes is answered at most once and in order.
  \<open>Fetch.continueRequest\<close> is sent only for a paused request whose address is not one the policy speaks of, or that the
  lists allow at some moment of the run; a request the lists refuse gets a 403; the credentials of the run are
  given only to a challenge of the proxy.  When no error was noted, every interception is answered.
\<close>

theorem intercepted_requests_follow_policy:
  assumes "others_keep V J" and "RunEventLoop V X cfg me I J n s = (r, s')"
  shows "\<exists>evs css. events_seen s' = events_seen s @ evs \<and> fetch_log s' = fetch_log s @ concat css \<and>
    list_all2 (\<lambda>e cs.
      (cs = [] \<or> (\<exists>c w. cs = [c] \<and> service_steps V (service_of s) w \<and>
         right_answer V X cfg (RunId (cap_browser s)) w e c)) \<and>
      (r = Returns () \<and> interception_error s' = None \<and> is_fetch e \<longrightarrow> cs \<noteq> [])) evs css"
  using RunEventLoop_answers [OF assms(1), of X cfg s me I n]
  unfolding assms(2) answers_each_def answered_def by simp

theorem intercepted_requests_follow_policy_witness:
  "events_seen (snd paused_run) = [paused_event] \<and>
   (\<exists>evs css. events_seen (snd paused_run) = events_seen paused_capture @ evs \<and>
    fetch_log (snd paused_run) = fetch_log paused_capture @ concat css \<and>
    list_all2 (\<lambda>e cs.
      (cs = [] \<or> (\<exists>c w. cs = [c] \<and> service_steps example_vendor (service_of paused_capture) w \<and>
         right_answer example_vendor example_capture_env example_runner_cfg (RunId (cap_browser paused_capture)) w e c)) \<and>
      (fst paused_run = Returns () \<and> interception_error (snd paused_run) = None \<and> is_fetch e \<longrightarrow> cs \<noteq> [])) evs css)"
proof -
  have "RunEventLoop example_vendor example_capture_env example_runner_cfg 0 (\<lambda>n s. s) (\<lambda>k s. s) 1 paused_capture =
      (fst paused_run, snd paused_run)" by (simp only: paused_run_def prod.collapse)
  from intercepted_requests_follow_policy [OF nobody_keeps this] paused_run_events show ?thesis by simp
qed



text \<open>
  C21: a run of the crawler leaves nothing behind.  However it ends, with an archive, an error or an exception and
  with any failures of the system, of the browser and of the debugging protocol, every process it started has been
  waited for and its control group is no longer registered; only a crash of the service itself is excluded.
\<close>

theorem run_leaves_nothing_behind:
  assumes "Run V W A n X D R cfg state_dir rounds me I J cancelled seed w = (r, w')"
    and "others_hold kept_hold J" and "\<forall>why. r \<noteq> Aborts why"
  shows "children w' = children w \<and> mset (browser_cgroups (service w')) = mset (browser_cgroups (service w))"
  using ExecuteRun_leaves_nothing [OF assms(1) [unfolded Run_def] assms(2,3)] .

theorem run_leaves_nothing_behind_witness:
  "children (snd full_disk_run) = 0 \<and> browser_cgroups (service (snd full_disk_run)) = []"
proof -
  obtain w where f: "full_disk_run = (Returns (fail_exception example_vendor ''disk full''), w)"
    using full_disk_fails by blast
  from run_leaves_nothing_behind [OF f [unfolded full_disk_run_def] nobody_holds(1)] show ?thesis
    by (simp add: f example_bw_def example_world_def)
qed






text \<open>
  C39: the page session never breaks its own life cycle.  From a well-formed page, attaching an idle one,
  enabling the domains of an attached one and stopping in any state keep it well-formed and reach the state they
  promise when they succeed; whatever the browser answers and other tasks do, the process ends only because a
  text is not valid UTF-8, never because of a transition that is not allowed.
\<close>

theorem page_session_life:
  assumes "others V E me I" and "marks_ok P" and "cdp_ok c" and "page_ok p"
  shows "(lifecycle p = IdleState \<longrightarrow>
      safe V E (\<lambda>_ s. lifecycle (fst s) = AttachedState) (p, c) (AttachFreshTarget V E P me I (p, c))) \<and>
    (lifecycle p = AttachedState \<longrightarrow>
      safe V E (\<lambda>_ s. lifecycle (fst s) = BaseDomainsEnabledState) (p, c) (EnableBaseDomains V E P me I (p, c))) \<and>
    safe V E (\<lambda>_ s. lifecycle (fst s) = StoppedState) (p, c) (Stop_phases V E P me I (p, c)) \<and>
    safe V E (\<lambda>_ s. lifecycle (fst s) = StoppedState) (p, c) (Stop_page V E P me I (p, c))"
  using AttachFreshTarget_safe [OF assms(1,2), of "(p, c)"] EnableBaseDomains_safe [OF assms(1,2), of "(p, c)"]
    Stop_phases_safe [OF assms(1,2), of "(p, c)"] Stop_page_safe [OF assms(1), of "(p, c)"] assms(3,4)
  by simp

theorem page_session_life_witness:
  "safe example_vendor example_cdp_env (\<lambda>_ s. lifecycle (fst s) = AttachedState) (new_page, fresh_client)
     (AttachFreshTarget example_vendor example_cdp_env example_page_env 0 browser_answers (new_page, fresh_client))"
  using page_session_life [OF browser_answers_others example_marks fresh_client_ok new_page_ok]
  by (simp add: new_page_def)



end
